(* ===== verification/Prelude.thy ===== *)
theory Prelude
  imports Main "HOL-Library.Word" "HOL-Library.AList" "HOL-Library.Char_ord"
    "HOL-Library.List_Lexorder"
begin

text \<open>
  The prelude: the types and generic lemmas every component shares.
  Python text that users supply is a list of code points (\<open>pystr\<close>); identifiers the
  program fixes (permission keys, reason codes, actions) are HOL strings. A computation
  that may raise is a value of a sum type, sequenced by \<open>bindE\<close>. A UUID is a
  128 bit word, ordered as its canonical text is. A table is a list of rows.
\<close>

named_theorems res_simps "reading off the outcome of a computation that may raise"
named_theorems table_simps "rows of a table after an update"

subsection \<open>Python strings\<close>

type_synonym codepoint = int

type_synonym pystr = "codepoint list"

definition lit :: "string \<Rightarrow> pystr" where
  "lit s = map of_char s"

lemma lit_inject: "lit s = lit t \<longleftrightarrow> s = t"
proof
  assume "lit s = lit t"
  moreover have "inj (of_char :: char \<Rightarrow> codepoint)"
    by (rule injI) simp
  ultimately show "s = t"
    unfolding lit_def by (metis inj_map_eq_map)
qed simp

subsection \<open>Computations that may raise\<close>

definition bindE :: "'e + 'a \<Rightarrow> ('a \<Rightarrow> 'e + 'b) \<Rightarrow> 'e + 'b" where
  "bindE m f = (case m of Inl e \<Rightarrow> Inl e | Inr x \<Rightarrow> f x)"

definition raise_unless :: "bool \<Rightarrow> 'e \<Rightarrow> 'e + unit" where
  "raise_unless b e = (if b then Inr () else Inl e)"

lemma bindE_simps [simp]: "bindE (Inl e) f = Inl e" "bindE (Inr x) f = f x"
  by (simp_all add: bindE_def)

lemma bindE_Inr [res_simps]: "bindE m f = Inr y \<longleftrightarrow> (\<exists>x. m = Inr x \<and> f x = Inr y)"
  by (cases m) simp_all

lemma bindE_Inl [res_simps]:
  "bindE m f = Inl e \<longleftrightarrow> m = Inl e \<or> (\<exists>x. m = Inr x \<and> f x = Inl e)"
  by (cases m) simp_all

lemma bindE_assoc: "bindE (bindE m f) g = bindE m (\<lambda>x. bindE (f x) g)"
  by (cases m) simp_all

lemma raise_unless_Inr [res_simps]: "raise_unless b e = Inr u \<longleftrightarrow> b"
  by (simp add: raise_unless_def)

lemma raise_unless_Inl [res_simps]: "raise_unless b e = Inl d \<longleftrightarrow> \<not> b \<and> d = e"
  by (auto simp: raise_unless_def)

lemma raise_unless_simps [simp]: "raise_unless True e = Inr ()" "raise_unless False e = Inl e"
  by (simp_all add: raise_unless_def)

lemma if_Inl_eq_Inr [res_simps]: "(if b then Inl e else m) = Inr y \<longleftrightarrow> \<not> b \<and> m = Inr y"
  by simp

fun mapE :: "('a \<Rightarrow> 'e + 'b) \<Rightarrow> 'a list \<Rightarrow> 'e + 'b list" where
  "mapE f [] = Inr []"
| "mapE f (x # xs) = bindE (f x) (\<lambda>y. bindE (mapE f xs) (\<lambda>ys. Inr (y # ys)))"

lemma mapE_Inr: "mapE f xs = Inr ys \<longleftrightarrow> list_all2 (\<lambda>x y. f x = Inr y) xs ys"
  by (induction xs arbitrary: ys) (auto simp: bindE_Inr list_all2_Cons1)

lemma mapE_Inr_set: "mapE f xs = Inr ys \<Longrightarrow> y \<in> set ys \<Longrightarrow> \<exists>x \<in> set xs. f x = Inr y"
  unfolding mapE_Inr by (induction xs ys rule: list_all2_induct) auto

lemma mapE_cong [fundef_cong]:
  "xs = ys \<Longrightarrow> (\<And>x. x \<in> set ys \<Longrightarrow> f x = g x) \<Longrightarrow> mapE f xs = mapE g ys"
  by (induction xs arbitrary: ys) auto

subsection \<open>UUIDs\<close>

datatype uuid = UUID (uuid_int: "128 word")

instantiation uuid :: linorder
begin

definition less_eq_uuid :: "uuid \<Rightarrow> uuid \<Rightarrow> bool" where
  "less_eq_uuid u v \<longleftrightarrow> uuid_int u \<le> uuid_int v"

definition less_uuid :: "uuid \<Rightarrow> uuid \<Rightarrow> bool" where
  "less_uuid u v \<longleftrightarrow> uuid_int u < uuid_int v"

instance
  by standard (auto simp: less_eq_uuid_def less_uuid_def intro: uuid.expand)

end

text \<open>
  \<open>uuid.UUID.version\<close>: the version nibble is meaningful for the RFC 4122 variant only
  (bits 63 and 62 are one and zero); for any other variant it is \<open>None\<close>.
\<close>

definition uuid_version :: "uuid \<Rightarrow> nat option" where
  "uuid_version u =
     (if bit (uuid_int u) 63 \<and> \<not> bit (uuid_int u) 62
      then Some (unat (take_bit 4 (drop_bit 76 (uuid_int u)))) else None)"

text \<open>\<open>str(uuid)\<close>: 32 lowercase hexadecimal digits in groups of 8, 4, 4, 4 and 12.\<close>

definition hex_digit :: "nat \<Rightarrow> char" where
  "hex_digit n = ''0123456789abcdef'' ! n"

fun hex_of :: "nat \<Rightarrow> nat \<Rightarrow> string" where
  "hex_of 0 n = []"
| "hex_of (Suc w) n = hex_of w (n div 16) @ [hex_digit (n mod 16)]"

definition uuid_str :: "uuid \<Rightarrow> string" where
  "uuid_str u =
     (let h = hex_of 32 (unat (uuid_int u))
      in take 8 h @ ''-'' @ take 4 (drop 8 h) @ ''-'' @ take 4 (drop 12 h) @ ''-''
         @ take 4 (drop 16 h) @ ''-'' @ drop 20 h)"

lemma length_hex_of [simp]: "length (hex_of w n) = w"
  by (induction w n rule: hex_of.induct) simp_all

lemma hex_digit_inject: "m < 16 \<Longrightarrow> n < 16 \<Longrightarrow> hex_digit m = hex_digit n \<longleftrightarrow> m = n"
proof -
  assume "m < 16" "n < 16"
  moreover have "distinct ''0123456789abcdef''" by simp
  ultimately show ?thesis
    unfolding hex_digit_def by (subst nth_eq_iff_index_eq) simp_all
qed

lemma hex_of_inject:
  "m < 16 ^ w \<Longrightarrow> n < 16 ^ w \<Longrightarrow> hex_of w m = hex_of w n \<longleftrightarrow> m = n"
proof (induction w arbitrary: m n)
  case (Suc w)
  then have "hex_of w (m div 16) = hex_of w (n div 16) \<longleftrightarrow> m div 16 = n div 16"
    by (simp add: less_mult_imp_div_less mult.commute)
  moreover have "hex_digit (m mod 16) = hex_digit (n mod 16) \<longleftrightarrow> m mod 16 = n mod 16"
    by (simp add: hex_digit_inject)
  ultimately show ?case
    by (metis append1_eq_conv div_mult_mod_eq hex_of.simps(2))
qed simp

lemma dash_notin_hex_of: "CHR ''-'' \<notin> set (hex_of w n)"
proof (induction w n rule: hex_of.induct)
  case (2 w n)
  have "list_all (\<lambda>k. hex_digit k \<noteq> CHR ''-'') [0..<16]"
    by code_simp
  then have "hex_digit (n mod 16) \<noteq> CHR ''-''"
    by (simp add: list_all_iff)
  with 2 show ?case by simp
qed simp

lemma uuid_str_filter:
  "filter (\<lambda>c. c \<noteq> CHR ''-'') (uuid_str u) = hex_of 32 (unat (uuid_int u))"
proof -
  define h where "h = hex_of 32 (unat (uuid_int u))"
  have no: "filter (\<lambda>c. c \<noteq> CHR ''-'') xs = xs" if "set xs \<subseteq> set h" for xs
    using that dash_notin_hex_of [of 32 "unat (uuid_int u)"]
    by (auto simp: h_def intro!: filter_True)
  have "set (take i h) \<subseteq> set h" "set (take i (drop j h)) \<subseteq> set h" "set (drop i h) \<subseteq> set h" for i j
    by (auto dest: in_set_takeD in_set_dropD)
  note no = no [OF this(1)] no [OF this(2)] no [OF this(3)]
  have "h = take 8 h @ drop 8 h"
       "drop 8 h = take 4 (drop 8 h) @ drop 12 h"
       "drop 12 h = take 4 (drop 12 h) @ drop 16 h"
       "drop 16 h = take 4 (drop 16 h) @ drop 20 h"
    using append_take_drop_id [of 4 "drop 8 h"] append_take_drop_id [of 4 "drop 12 h"]
      append_take_drop_id [of 4 "drop 16 h"]
    by simp_all
  then have "take 8 h @ take 4 (drop 8 h) @ take 4 (drop 12 h) @ take 4 (drop 16 h) @ drop 20 h = h"
    by metis
  then show ?thesis
    by (simp add: uuid_str_def Let_def no flip: h_def)
qed

lemma uuid_str_inject: "uuid_str u = uuid_str v \<longleftrightarrow> u = v"
proof
  assume "uuid_str u = uuid_str v"
  then have "hex_of 32 (unat (uuid_int u)) = hex_of 32 (unat (uuid_int v))"
    by (metis uuid_str_filter)
  moreover have "unat (uuid_int w) < 16 ^ 32" for w
    using unsigned_less [of "uuid_int w", where 'a = nat] by simp
  ultimately have "unat (uuid_int u) = unat (uuid_int v)"
    by (simp add: hex_of_inject)
  then have "uuid_int u = uuid_int v"
    by (simp add: word_unat_eq_iff)
  then show "u = v"
    by (rule uuid.expand)
qed simp

text \<open>The text of an identifier is printable ASCII.\<close>

definition plain_char :: "char \<Rightarrow> bool" where
  "plain_char c \<longleftrightarrow> 32 \<le> (of_char c :: int) \<and> of_char c < (128 :: int)"

lemma hex_digit_plain: "n < 16 \<Longrightarrow> plain_char (hex_digit n)"
proof -
  assume "n < 16"
  moreover have "list_all (\<lambda>k. plain_char (hex_digit k)) [0..<16]"
    by code_simp
  ultimately show ?thesis by (simp add: list_all_iff)
qed

lemma hex_of_plain: "list_all plain_char (hex_of w n)"
  by (induction w arbitrary: n) (auto intro: hex_digit_plain)

lemma list_all_part: "list_all P xs \<Longrightarrow> list_all P (take n xs)" "list_all P xs \<Longrightarrow> list_all P (drop n xs)"
  by (auto simp: list_all_iff dest: in_set_takeD in_set_dropD)

lemma uuid_str_plain: "list_all plain_char (uuid_str u)"
proof -
  have "plain_char CHR ''-''" by code_simp
  then show ?thesis
    using hex_of_plain [of 32 "unat (uuid_int u)"]
    by (simp add: uuid_str_def Let_def list_all_part)
qed

subsection \<open>Tables\<close>

text \<open>
  \<open>update_where p f rows\<close> is SQL's \<open>UPDATE ... SET f WHERE p\<close>, and also what a flush
  does with the attributes of a loaded row.
\<close>

definition update_where :: "('r \<Rightarrow> bool) \<Rightarrow> ('r \<Rightarrow> 'r) \<Rightarrow> 'r list \<Rightarrow> 'r list" where
  "update_where p f rows = map (\<lambda>r. if p r then f r else r) rows"

lemma update_where_simps [simp]:
  "update_where p f [] = []"
  "update_where p f (r # rows) = (if p r then f r else r) # update_where p f rows"
  by (simp_all add: update_where_def)

lemma length_update_where [simp]: "length (update_where p f rows) = length rows"
  by (simp add: update_where_def)

lemma set_update_where [table_simps]:
  "set (update_where p f rows) = {f r | r. r \<in> set rows \<and> p r} \<union> {r \<in> set rows. \<not> p r}"
  by (induction rows) auto

lemma map_update_where:
  "(\<And>r. r \<in> set rows \<Longrightarrow> p r \<Longrightarrow> g (f r) = g r) \<Longrightarrow> map g (update_where p f rows) = map g rows"
  by (induction rows) auto

lemma update_where_none: "(\<And>r. r \<in> set rows \<Longrightarrow> \<not> p r) \<Longrightarrow> update_where p f rows = rows"
  by (induction rows) auto

lemma update_where_append [simp]:
  "update_where p f (xs @ ys) = update_where p f xs @ update_where p f ys"
  by (simp add: update_where_def)

lemma find_SomeD: "find P xs = Some x \<Longrightarrow> P x \<and> x \<in> set xs"
  by (auto simp: find_Some_iff)

lemma find_Some_iff_distinct:
  assumes "distinct (map g xs)"
  shows "find (\<lambda>x. g x = k) xs = Some x \<longleftrightarrow> x \<in> set xs \<and> g x = k"
  using assms by (induction xs) auto

lemma find_None_iff_key: "find (\<lambda>x. g x = k) xs = None \<longleftrightarrow> k \<notin> g ` set xs"
  by (auto simp: find_None_iff)

subsection \<open>Dictionaries in insertion order\<close>

text \<open>
  A Python dict keeps insertion order, and storing under a present key keeps its place:
  that is \<^const>\<open>AList.update\<close> on an association list with distinct keys.
\<close>

lemma distinct_fold_update:
  "distinct (map fst m) \<Longrightarrow> distinct (map fst (fold (\<lambda>x. AList.update (k x) (v x)) xs m))"
  by (induction xs arbitrary: m) (simp_all add: distinct_update)

lemma update_fresh: "k \<notin> fst ` set m \<Longrightarrow> AList.update k v m = m @ [(k, v)]"
  by (induction m) auto

lemma fold_update_distinct_keys:
  "distinct (map k xs) \<Longrightarrow> fold (\<lambda>x. AList.update (k x) (v x)) xs [] = map (\<lambda>x. (k x, v x)) xs"
proof (induction xs rule: rev_induct)
  case (snoc x xs)
  then have "k x \<notin> fst ` set (map (\<lambda>x. (k x, v x)) xs)"
    by (auto simp: image_image)
  with snoc show ?case by (simp add: update_fresh)
qed simp

lemma keys_fold_update:
  "fst ` set (fold (\<lambda>x. AList.update (k x) (v x)) xs m) = k ` set xs \<union> fst ` set m"
  by (induction xs arbitrary: m) (auto simp: dom_update)

definition max_default :: "int \<Rightarrow> int list \<Rightarrow> int" where
  "max_default d xs = (case xs of [] \<Rightarrow> d | y # ys \<Rightarrow> fold max ys y)"

lemma fold_max_ge: "y \<le> fold max ys (y :: int)"
proof (induction ys arbitrary: y)
  case (Cons z zs)
  have "y \<le> max z y" by simp
  also have "\<dots> \<le> fold max zs (max z y)" by (rule Cons.IH)
  finally show ?case by simp
qed simp

lemma fold_max_upper: "x \<in> set ys \<Longrightarrow> x \<le> fold max ys (y :: int)"
proof (induction ys arbitrary: y)
  case (Cons z zs)
  then show ?case
    using fold_max_ge [of "max z y" zs] by auto
qed simp

lemma fold_max_in: "fold max ys (y :: int) \<in> insert y (set ys)"
proof (induction ys arbitrary: y)
  case (Cons z zs)
  then show ?case by (auto simp: max_def split: if_splits)
qed simp

lemma max_default_upper: "x \<in> set xs \<Longrightarrow> x \<le> max_default d xs"
  by (cases xs) (auto simp: max_default_def fold_max_ge fold_max_upper)

lemma max_default_in: "xs \<noteq> [] \<Longrightarrow> max_default d xs \<in> set xs"
  using fold_max_in by (cases xs) (auto simp: max_default_def)

lemma max_default_Nil [simp]: "max_default d [] = d"
  by (simp add: max_default_def)

lemma max_default_eq_Max: "xs \<noteq> [] \<Longrightarrow> max_default d xs = Max (set xs)"
  using max_default_in max_default_upper by (intro Max_eqI [symmetric]) auto

lemma max_default_less_iff:
  "max_default 0 xs < b \<longleftrightarrow> (xs = [] \<and> 0 < b) \<or> (xs \<noteq> [] \<and> (\<forall>x\<in>set xs. x < b))"
  using max_default_in [of xs 0] max_default_upper [of _ xs 0] by (cases "xs = []") force+

lemma not_isl_iff: "\<not> isl m \<longleftrightarrow> (\<exists>x. m = Inr x)"
  by (cases m) auto

end
