(* ===== verification/Regex.thy ===== *)
theory Regex
  imports Prelude
begin

text \<open>
  The part of Python's \<open>re\<close> the program uses: character classes, concatenation,
  alternation, greedy and bounded repetition, and the word boundary. A position is the
  code point before it (if any) and the rest of the text. \<open>ends r p\<close> computes every
  position at which a match of \<open>r\<close> that starts at \<open>p\<close> can end; \<open>matches\<close> is the
  declarative meaning, and the two agree. Greediness does not matter: the program only
  asks whether a match exists.
\<close>

datatype rx =
    Eps
  | Cls "codepoint \<Rightarrow> bool"
  | Cat rx rx
  | Alt rx rx
  | Star rx
  | WordB

type_synonym pos = "codepoint option \<times> pystr"

text \<open>\<open>\w\<close> for ASCII text; the boundaries the program writes stand beside ASCII words.\<close>

definition is_digit :: "codepoint \<Rightarrow> bool" where
  "is_digit c \<longleftrightarrow> 48 \<le> c \<and> c \<le> 57"

definition is_lower :: "codepoint \<Rightarrow> bool" where
  "is_lower c \<longleftrightarrow> 97 \<le> c \<and> c \<le> 122"

definition is_upper :: "codepoint \<Rightarrow> bool" where
  "is_upper c \<longleftrightarrow> 65 \<le> c \<and> c \<le> 90"

definition chr_in :: "string \<Rightarrow> codepoint \<Rightarrow> bool" where
  "chr_in s c \<longleftrightarrow> c \<in> set (lit s)"

fun boundary :: "(codepoint \<Rightarrow> bool) \<Rightarrow> pos \<Rightarrow> bool" where
  "boundary w (p, s) \<longleftrightarrow>
     (case p of None \<Rightarrow> False | Some c \<Rightarrow> w c) \<noteq> (case s of [] \<Rightarrow> False | c # _ \<Rightarrow> w c)"

text \<open>The meaning: \<open>matches w r p q\<close> when \<open>r\<close> can match the text between \<open>p\<close> and \<open>q\<close>.\<close>

inductive matches :: "(codepoint \<Rightarrow> bool) \<Rightarrow> rx \<Rightarrow> pos \<Rightarrow> pos \<Rightarrow> bool" for w where
  eps: "matches w Eps p p"
| cls: "f c \<Longrightarrow> matches w (Cls f) (b, c # s) (Some c, s)"
| cat: "matches w r p q \<Longrightarrow> matches w r' q q' \<Longrightarrow> matches w (Cat r r') p q'"
| alt_left: "matches w r p q \<Longrightarrow> matches w (Alt r r') p q"
| alt_right: "matches w r' p q \<Longrightarrow> matches w (Alt r r') p q"
| star_done: "matches w (Star r) p p"
| star_more: "matches w r p q \<Longrightarrow> matches w (Star r) q q' \<Longrightarrow> matches w (Star r) p q'"
| word_b: "boundary w p \<Longrightarrow> matches w WordB p p"

inductive_cases matches_EpsE: "matches w Eps p q"
inductive_cases matches_ClsE: "matches w (Cls f) p q"
inductive_cases matches_CatE: "matches w (Cat r r') p q"
inductive_cases matches_AltE: "matches w (Alt r r') p q"
inductive_cases matches_WordBE: "matches w WordB p q"

inductive_simps matches_Eps: "matches w Eps p q"
inductive_simps matches_Cls: "matches w (Cls f) p q"
inductive_simps matches_Cat: "matches w (Cat r r') p q"
inductive_simps matches_Alt: "matches w (Alt r r') p q"
inductive_simps matches_WordB: "matches w WordB p q"

text \<open>The matcher. A star only continues from positions that made progress.\<close>

function ends :: "(codepoint \<Rightarrow> bool) \<Rightarrow> rx \<Rightarrow> pos \<Rightarrow> pos list" where
  "ends w Eps p = [p]"
| "ends w (Cls f) p = (case snd p of [] \<Rightarrow> [] | c # s \<Rightarrow> if f c then [(Some c, s)] else [])"
| "ends w (Cat r r') p = concat (map (ends w r') (ends w r p))"
| "ends w (Alt r r') p = ends w r p @ ends w r' p"
| "ends w (Star r) p =
     p # concat (map (\<lambda>q. if length (snd q) < length (snd p) then ends w (Star r) q else [])
                  (ends w r p))"
| "ends w WordB p = (if boundary w p then [p] else [])"
  by pat_completeness auto
termination
  by (relation "measures [\<lambda>(w, r, p). size r, \<lambda>(w, r, p). length (snd p)]") auto

text \<open>A match never moves backwards, and a match of length zero ends where it began.\<close>

lemma matches_suffix: "matches w r p q \<Longrightarrow> p = q \<or> length (snd q) < length (snd p)"
  by (induction rule: matches.induct) auto

declare ends.simps(5) [simp del]

lemmas ends_Star = ends.simps(5)

lemma ends_sound: "q \<in> set (ends w r p) \<Longrightarrow> matches w r p q"
proof (induction w r p arbitrary: q rule: ends.induct)
  case (2 w f p)
  then show ?case
    by (cases p) (auto split: list.splits if_splits intro: matches.intros)
next
  case (3 w r r' p)
  from "3.prems" obtain q' where "q' \<in> set (ends w r p)" "q \<in> set (ends w r' q')"
    by auto
  with "3.IH" show ?case by (blast intro: cat)
next
  case (5 w r p)
  from "5.prems" consider "q = p"
    | q' where "q' \<in> set (ends w r p)" "length (snd q') < length (snd p)"
        "q \<in> set (ends w (Star r) q')"
    by (subst (asm) ends_Star) (auto split: if_splits)
  then show ?case
  proof cases
    case 2
    with "5.IH" show ?thesis by (blast intro: star_more)
  qed (simp add: star_done)
qed (auto split: if_splits intro: matches.intros)

lemma ends_complete: "matches w r p q \<Longrightarrow> q \<in> set (ends w r p)"
proof (induction rule: matches.induct)
  case (star_done r p)
  show ?case by (subst ends_Star) simp
next
  case (star_more r p q q')
  from star_more.hyps(1) consider "p = q" | "length (snd q) < length (snd p)"
    using matches_suffix by blast
  then show ?case
  proof cases
    case 2
    with star_more.IH show ?thesis by (subst ends_Star) auto
  qed (use star_more.IH in simp)
qed auto

theorem ends_iff: "q \<in> set (ends w r p) \<longleftrightarrow> matches w r p q"
  using ends_sound ends_complete by blast

lemma ends_nonempty: "ends w r p \<noteq> [] \<longleftrightarrow> (\<exists>q. matches w r p q)"
  by (cases "ends w r p") (auto simp flip: ends_iff)

text \<open>\<open>re.fullmatch\<close> and \<open>re.search\<close>.\<close>

definition fullmatch :: "rx \<Rightarrow> pystr \<Rightarrow> bool" where
  "fullmatch r s \<longleftrightarrow> (\<exists>q \<in> set (ends (\<lambda>_. False) r (None, s)). snd q = [])"

fun search_from :: "(codepoint \<Rightarrow> bool) \<Rightarrow> rx \<Rightarrow> codepoint option \<Rightarrow> pystr \<Rightarrow> bool" where
  "search_from w r b [] \<longleftrightarrow> ends w r (b, []) \<noteq> []"
| "search_from w r b (c # s) \<longleftrightarrow> ends w r (b, c # s) \<noteq> [] \<or> search_from w r (Some c) s"

definition search :: "(codepoint \<Rightarrow> bool) \<Rightarrow> rx \<Rightarrow> pystr \<Rightarrow> bool" where
  "search w r s \<longleftrightarrow> search_from w r None s"

text \<open>Derived forms.\<close>

definition Plus :: "rx \<Rightarrow> rx" where
  "Plus r = Cat r (Star r)"

definition Opt :: "rx \<Rightarrow> rx" where
  "Opt r = Alt r Eps"

fun Seq :: "rx list \<Rightarrow> rx" where
  "Seq [] = Eps"
| "Seq [r] = r"
| "Seq (r # rs) = Cat r (Seq rs)"

fun Alts :: "rx list \<Rightarrow> rx" where
  "Alts [] = Cls (\<lambda>_. False)"
| "Alts [r] = r"
| "Alts (r # rs) = Alt r (Alts rs)"

fun Word :: "string \<Rightarrow> rx" where
  "Word s = Seq (map (\<lambda>c. Cls (\<lambda>d. d = of_char c)) s)"

text \<open>\<open>r{lo,hi}\<close>: \<open>lo\<close> copies, then up to \<open>hi - lo\<close> optional ones.\<close>

fun Upto :: "nat \<Rightarrow> rx \<Rightarrow> rx" where
  "Upto 0 r = Eps"
| "Upto (Suc n) r = Alt (Cat r (Upto n r)) Eps"

fun Rep :: "nat \<Rightarrow> nat \<Rightarrow> rx \<Rightarrow> rx" where
  "Rep 0 hi r = Upto hi r"
| "Rep (Suc lo) hi r = Cat r (Rep lo (hi - 1) r)"

text \<open>What the patterns of one repeated class accept.\<close>

lemma matches_Upto_Cls:
  "matches w (Upto n (Cls f)) p q \<longleftrightarrow>
     (\<exists>t. snd p = t @ snd q \<and> length t \<le> n \<and> list_all f t
        \<and> fst q = (if t = [] then fst p else Some (last t)))"
proof (induction n arbitrary: p)
  case 0
  show ?case by (cases p; cases q) (auto simp: matches_Eps)
next
  case (Suc n)
  show ?case
  proof
    assume "matches w (Upto (Suc n) (Cls f)) p q"
    then consider (more) c s where "snd p = c # s" "f c" "matches w (Upto n (Cls f)) (Some c, s) q"
      | (stop) "p = q"
      by (cases p) (auto simp: matches_Alt matches_Cat matches_Cls matches_Eps)
    then show "\<exists>t. snd p = t @ snd q \<and> length t \<le> Suc n \<and> list_all f t
        \<and> fst q = (if t = [] then fst p else Some (last t))"
    proof cases
      case more
      then obtain t where "s = t @ snd q" "length t \<le> n" "list_all f t"
          "fst q = (if t = [] then Some c else Some (last t))"
        using Suc.IH [of "(Some c, s)"] by (auto simp del: split_paired_All)
      with more show ?thesis
        by (intro exI [of _ "c # t"]) auto
    qed (auto intro!: exI [of _ "[]"])
  next
    assume "\<exists>t. snd p = t @ snd q \<and> length t \<le> Suc n \<and> list_all f t
        \<and> fst q = (if t = [] then fst p else Some (last t))"
    then obtain t where t: "snd p = t @ snd q" "length t \<le> Suc n" "list_all f t"
        "fst q = (if t = [] then fst p else Some (last t))"
      by blast
    show "matches w (Upto (Suc n) (Cls f)) p q"
    proof (cases t)
      case Nil
      with t have "q = p" by (cases p; cases q) auto
      then show ?thesis by (simp add: matches_Alt matches_Eps)
    next
      case (Cons c t')
      with t have "matches w (Upto n (Cls f)) (Some c, t' @ snd q) q"
        unfolding Suc.IH by (intro exI [of _ t']) auto
      with Cons t show ?thesis
        by (cases p) (auto simp: matches_Alt matches_Cat intro!: matches.cls)
    qed
  qed
qed

lemma matches_Rep_Cls:
  "matches w (Rep lo hi (Cls f)) p q \<longleftrightarrow>
     (\<exists>t. snd p = t @ snd q \<and> lo \<le> length t \<and> length t \<le> max lo hi \<and> list_all f t
        \<and> fst q = (if t = [] then fst p else Some (last t)))"
proof (induction lo arbitrary: hi p)
  case 0
  show ?case by (simp add: matches_Upto_Cls)
next
  case (Suc lo)
  have step: "matches w (Rep (Suc lo) hi (Cls f)) p q \<longleftrightarrow>
      (\<exists>c s. snd p = c # s \<and> f c \<and> matches w (Rep lo (hi - 1) (Cls f)) (Some c, s) q)"
    by (cases p) (auto simp: matches_Cat matches_Cls)
  show ?case
    unfolding step Suc.IH
  proof (intro iffI; elim exE conjE)
    fix c s t assume "snd p = c # s" "f c" "snd (Some c, s) = t @ snd q" "lo \<le> length t"
      "length t \<le> max lo (hi - 1)" "list_all f t"
      "fst q = (if t = [] then fst (Some c, s) else Some (last t))"
    then show "\<exists>t. snd p = t @ snd q \<and> Suc lo \<le> length t \<and> length t \<le> max (Suc lo) hi
        \<and> list_all f t \<and> fst q = (if t = [] then fst p else Some (last t))"
      by (intro exI [of _ "c # t"]) auto
  next
    fix t assume t: "snd p = t @ snd q" "Suc lo \<le> length t" "length t \<le> max (Suc lo) hi"
      "list_all f t" "fst q = (if t = [] then fst p else Some (last t))"
    then obtain c t' where "t = c # t'" by (cases t) auto
    with t show "\<exists>c s. snd p = c # s \<and> f c \<and>
       (\<exists>t. snd (Some c, s) = t @ snd q \<and> lo \<le> length t \<and> length t \<le> max lo (hi - 1)
          \<and> list_all f t \<and> fst q = (if t = [] then fst (Some c, s) else Some (last t)))"
      by (auto intro!: exI [of _ t'])
  qed
qed

lemma fullmatch_iff: "fullmatch r s \<longleftrightarrow> (\<exists>b. matches (\<lambda>_. False) r (None, s) (b, []))"
  unfolding fullmatch_def Bex_def ends_iff by (metis prod.exhaust_sel snd_conv)

lemma fullmatch_Rep_Cls:
  "lo \<le> hi \<Longrightarrow>
     fullmatch (Rep lo hi (Cls f)) s \<longleftrightarrow> lo \<le> length s \<and> length s \<le> hi \<and> list_all f s"
  by (auto simp: fullmatch_iff matches_Rep_Cls max_def)

lemma fullmatch_Cls_Upto:
  "fullmatch (Cat (Cls f) (Upto n (Cls g))) s \<longleftrightarrow>
     (\<exists>c t. s = c # t \<and> f c \<and> length t \<le> n \<and> list_all g t)"
  by (auto simp: fullmatch_iff matches_Cat matches_Cls matches_Upto_Cls)

text \<open>A search finds a match that starts anywhere in the text.\<close>

lemma search_from_iff:
  "search_from w r b s \<longleftrightarrow>
     (\<exists>u v q. s = u @ v \<and> matches w r (if u = [] then b else Some (last u), v) q)"
proof (induction s arbitrary: b)
  case Nil
  show ?case by (auto simp: ends_nonempty)
next
  case (Cons c s)
  note now = ends_nonempty [of w r "(b, c # s)"]
  show ?case
  proof
    assume "search_from w r b (c # s)"
    then show "\<exists>u v q. c # s = u @ v \<and> matches w r (if u = [] then b else Some (last u), v) q"
      unfolding search_from.simps now Cons.IH
    proof (elim disjE exE conjE)
      fix q assume "matches w r (b, c # s) q"
      then show ?thesis by - (rule exI [of _ "[]"], rule exI [of _ "c # s"], rule exI [of _ q], simp)
    next
      fix u v q assume "s = u @ v" "matches w r (if u = [] then Some c else Some (last u), v) q"
      then show ?thesis by - (rule exI [of _ "c # u"], rule exI [of _ v], rule exI [of _ q], auto)
    qed
  next
    assume "\<exists>u v q. c # s = u @ v \<and> matches w r (if u = [] then b else Some (last u), v) q"
    then obtain u v q where u: "c # s = u @ v"
        "matches w r (if u = [] then b else Some (last u), v) q" by blast
    show "search_from w r b (c # s)"
      unfolding search_from.simps now Cons.IH
    proof (cases u)
      case Nil
      with u have "matches w r (b, c # s) q" by simp
      then show "(\<exists>q. matches w r (b, c # s) q) \<or>
        (\<exists>u v q. s = u @ v \<and> matches w r (if u = [] then Some c else Some (last u), v) q)"
        by blast
    next
      case (Cons d u')
      with u have "s = u' @ v \<and> matches w r (if u' = [] then Some c else Some (last u'), v) q"
        by (auto split: if_splits)
      then show "(\<exists>q. matches w r (b, c # s) q) \<or>
        (\<exists>u v q. s = u @ v \<and> matches w r (if u = [] then Some c else Some (last u), v) q)"
        by blast
    qed
  qed
qed

end
