(* ===== verification/Errors.thy ===== *)
theory Errors
  imports Prelude
begin

text \<open>
  The client-safe errors of \<open>app/core/errors.py\<close>, the business codes of
  \<open>app/core/api_contract.py\<close>, and the other exceptions the modelled code raises.
  Every \<open>raise\<close> of the source is an \<open>Inl\<close> of the type \<open>failure\<close>.
\<close>

subsection \<open>Business codes\<close>

datatype business_code =
    OK | CREATED | BAD_REQUEST | INVALID_AUTHENTICATION | ACCESS_FORBIDDEN
  | PASSWORD_CHANGE_REQUIRED | NOT_FOUND | METHOD_NOT_ALLOWED | CONFLICT
  | STALE_RESOURCE_VERSION | PAYLOAD_TOO_LARGE | UNSUPPORTED_MEDIA_TYPE
  | VALIDATION_FAILED | RATE_LIMITED | INTERNAL_ERROR | SERVICE_UNAVAILABLE

fun business_code_value :: "business_code \<Rightarrow> int" where
  "business_code_value OK = 200000"
| "business_code_value CREATED = 201000"
| "business_code_value BAD_REQUEST = 400001"
| "business_code_value INVALID_AUTHENTICATION = 401001"
| "business_code_value ACCESS_FORBIDDEN = 403001"
| "business_code_value PASSWORD_CHANGE_REQUIRED = 403002"
| "business_code_value NOT_FOUND = 404001"
| "business_code_value METHOD_NOT_ALLOWED = 405001"
| "business_code_value CONFLICT = 409001"
| "business_code_value STALE_RESOURCE_VERSION = 409002"
| "business_code_value PAYLOAD_TOO_LARGE = 413001"
| "business_code_value UNSUPPORTED_MEDIA_TYPE = 415001"
| "business_code_value VALIDATION_FAILED = 422001"
| "business_code_value RATE_LIMITED = 429001"
| "business_code_value INTERNAL_ERROR = 500000"
| "business_code_value SERVICE_UNAVAILABLE = 503001"

text \<open>The message keys an error carries (\<open>app/core/i18n.py\<close>, the error group).\<close>

datatype message_key =
    ERROR_BAD_REQUEST | ERROR_UNAUTHENTICATED | ERROR_FORBIDDEN
  | ERROR_PASSWORD_CHANGE_REQUIRED | ERROR_NOT_FOUND | ERROR_METHOD_NOT_ALLOWED
  | ERROR_CONFLICT | ERROR_STALE_RESOURCE_VERSION | ERROR_PAYLOAD_TOO_LARGE
  | ERROR_UNSUPPORTED_MEDIA_TYPE | ERROR_VALIDATION_FAILED | ERROR_RATE_LIMITED
  | ERROR_RATE_LIMITED_RETRY | ERROR_INTERNAL | ERROR_SERVICE_UNAVAILABLE
  | ERROR_REQUEST_FAILED | ERROR_PASSWORD_SAME_AS_USER_NAME
  | ERROR_PASSWORD_COMMON_OR_WEAK | ERROR_USER_NAME_TAKEN | ERROR_REGISTRATION_CLOSED
  | ERROR_CAPTCHA_INVALID

subsection \<open>Errors\<close>

record rbac_error =
  status_code :: int
  business_code :: business_code
  message_key :: message_key
  reason_code :: string

definition unauthenticated :: "string \<Rightarrow> rbac_error" where
  "unauthenticated reason =
     \<lparr>status_code = 401, business_code = INVALID_AUTHENTICATION,
      message_key = ERROR_UNAUTHENTICATED, reason_code = reason\<rparr>"

definition not_found :: "string \<Rightarrow> rbac_error" where
  "not_found reason =
     \<lparr>status_code = 404, business_code = NOT_FOUND,
      message_key = ERROR_NOT_FOUND, reason_code = reason\<rparr>"

definition forbidden :: "string \<Rightarrow> rbac_error" where
  "forbidden reason =
     \<lparr>status_code = 403, business_code = ACCESS_FORBIDDEN,
      message_key = ERROR_FORBIDDEN, reason_code = reason\<rparr>"

definition password_change_required :: "string \<Rightarrow> rbac_error" where
  "password_change_required reason =
     \<lparr>status_code = 403, business_code = PASSWORD_CHANGE_REQUIRED,
      message_key = ERROR_PASSWORD_CHANGE_REQUIRED, reason_code = reason\<rparr>"

definition conflict :: "string \<Rightarrow> rbac_error" where
  "conflict reason =
     \<lparr>status_code = 409, business_code = CONFLICT,
      message_key = ERROR_CONFLICT, reason_code = reason\<rparr>"

definition stale_resource_version :: "string \<Rightarrow> rbac_error" where
  "stale_resource_version reason =
     \<lparr>status_code = 409, business_code = STALE_RESOURCE_VERSION,
      message_key = ERROR_STALE_RESOURCE_VERSION, reason_code = reason\<rparr>"

definition unavailable :: "string \<Rightarrow> rbac_error" where
  "unavailable reason =
     \<lparr>status_code = 503, business_code = SERVICE_UNAVAILABLE,
      message_key = ERROR_SERVICE_UNAVAILABLE, reason_code = reason\<rparr>"

definition invalid_request :: "string \<Rightarrow> rbac_error" where
  "invalid_request reason =
     \<lparr>status_code = 400, business_code = BAD_REQUEST,
      message_key = ERROR_BAD_REQUEST, reason_code = reason\<rparr>"

lemmas rbac_error_defs = unauthenticated_def not_found_def forbidden_def
  password_change_required_def conflict_def stale_resource_version_def unavailable_def
  invalid_request_def

lemma status_code_simps [simp]:
  "status_code (unauthenticated r) = 401" "status_code (not_found r) = 404"
  "status_code (forbidden r) = 403" "status_code (password_change_required r) = 403"
  "status_code (conflict r) = 409" "status_code (stale_resource_version r) = 409"
  "status_code (unavailable r) = 503" "status_code (invalid_request r) = 400"
  by (simp_all add: rbac_error_defs)

lemma reason_code_simps [simp]:
  "reason_code (unauthenticated r) = r" "reason_code (not_found r) = r"
  "reason_code (forbidden r) = r" "reason_code (password_change_required r) = r"
  "reason_code (conflict r) = r" "reason_code (stale_resource_version r) = r"
  "reason_code (unavailable r) = r" "reason_code (invalid_request r) = r"
  by (simp_all add: rbac_error_defs)

text \<open>\<open>generic_error_code\<close>: the reserved code of an HTTP error that has no own code.\<close>

datatype rate_limit_result = Rate_limit_result
  (rl_allowed: bool) (rl_limit: int) (rl_remaining: int)
  (rl_retry_after_ms: int) (rl_reset_after_ms: int)

datatype failure =
    Rbac rbac_error
  | Invalid_login_credentials
  | Rate_limit_exceeded string rate_limit_result
  | Rate_limit_unavailable
  | Value_error string
  | Type_error
  | Key_error
  | Runtime_error string
  | Password_policy_error string
  | Password_hash_error
  | Integrity_error string
  | Redis_error

definition generic_error_code :: "int \<Rightarrow> failure + int" where
  "generic_error_code code =
     (if \<not> (400 \<le> code \<and> code \<le> 599)
      then Inl (Value_error ''generic error codes require an HTTP 4xx or 5xx status'')
      else if code = 500 then Inr (business_code_value INTERNAL_ERROR)
      else Inr (code * 1000 + 1))"

text \<open>
  Every error constructor pairs its HTTP status with a business code of the same class:
  the code divided by 1000 is the status.
\<close>

definition coherent_error :: "rbac_error \<Rightarrow> bool" where
  "coherent_error e \<longleftrightarrow> business_code_value (business_code e) div 1000 = status_code e"

lemma coherent_errors [simp]:
  "coherent_error (unauthenticated r)" "coherent_error (not_found r)"
  "coherent_error (forbidden r)" "coherent_error (password_change_required r)"
  "coherent_error (conflict r)" "coherent_error (stale_resource_version r)"
  "coherent_error (unavailable r)" "coherent_error (invalid_request r)"
  by (simp_all add: coherent_error_def rbac_error_defs)

lemma generic_error_code_class:
  "generic_error_code code = Inr c \<Longrightarrow> c div 1000 = code"
  by (auto simp: generic_error_code_def split: if_splits)

end
