(* ===== verification/Domain.thy ===== *)
theory Domain
  imports Errors
begin

text \<open>
  The vocabulary of authorization, \<open>app/core/security/domain.py\<close>: permission keys, the
  built-in roles, and the authority snapshot a decision is taken on.
\<close>

subsection \<open>Permission keys\<close>

datatype permission_key =
    PERMISSIONS_READ | ROLES_READ | ROLES_CREATE | ROLES_UPDATE | ROLES_STATUS_UPDATE
  | ROLES_DELETE | ROLES_ASSIGN | ROLES_REVOKE | ROLES_PERMISSIONS_BIND
  | ROLES_PERMISSIONS_UNBIND | USERS_READ | USERS_CREATE | USERS_STATUS_UPDATE
  | USERS_PASSWORD_RESET | USERS_SESSIONS_REVOKE | REGISTRATION_CONFIGURE
  | PROJECTS_READ | PROJECTS_UPDATE

fun permission_value :: "permission_key \<Rightarrow> string" where
  "permission_value PERMISSIONS_READ = ''permissions:read''"
| "permission_value ROLES_READ = ''roles:read''"
| "permission_value ROLES_CREATE = ''roles:create''"
| "permission_value ROLES_UPDATE = ''roles:update''"
| "permission_value ROLES_STATUS_UPDATE = ''roles:status:update''"
| "permission_value ROLES_DELETE = ''roles:delete''"
| "permission_value ROLES_ASSIGN = ''roles:assign''"
| "permission_value ROLES_REVOKE = ''roles:revoke''"
| "permission_value ROLES_PERMISSIONS_BIND = ''roles:permissions:bind''"
| "permission_value ROLES_PERMISSIONS_UNBIND = ''roles:permissions:unbind''"
| "permission_value USERS_READ = ''users:read''"
| "permission_value USERS_CREATE = ''users:create''"
| "permission_value USERS_STATUS_UPDATE = ''users:status:update''"
| "permission_value USERS_PASSWORD_RESET = ''users:password:reset''"
| "permission_value USERS_SESSIONS_REVOKE = ''users:sessions:revoke''"
| "permission_value REGISTRATION_CONFIGURE = ''registration:configure''"
| "permission_value PROJECTS_READ = ''projects:read''"
| "permission_value PROJECTS_UPDATE = ''projects:update''"

lemma permission_value_inject: "permission_value a = permission_value b \<longleftrightarrow> a = b"
  by (cases a; cases b) simp_all

datatype system_role_key = SUPER_ADMIN | ADMIN | USER

fun system_role_value :: "system_role_key \<Rightarrow> string" where
  "system_role_value SUPER_ADMIN = ''super_admin''"
| "system_role_value ADMIN = ''admin''"
| "system_role_value USER = ''user''"

text \<open>The explicit allowlists of the built-in roles.\<close>

definition SUPER_ADMIN_PERMISSION_KEYS :: "string set" where
  "SUPER_ADMIN_PERMISSION_KEYS = set (map permission_value
     [PERMISSIONS_READ, ROLES_READ, ROLES_CREATE, ROLES_UPDATE, ROLES_STATUS_UPDATE,
      ROLES_DELETE, ROLES_ASSIGN, ROLES_REVOKE, ROLES_PERMISSIONS_BIND,
      ROLES_PERMISSIONS_UNBIND, USERS_READ, USERS_CREATE, USERS_STATUS_UPDATE,
      USERS_PASSWORD_RESET, USERS_SESSIONS_REVOKE, REGISTRATION_CONFIGURE,
      PROJECTS_READ, PROJECTS_UPDATE])"

definition ADMIN_PERMISSION_KEYS :: "string set" where
  "ADMIN_PERMISSION_KEYS = set (map permission_value
     [PERMISSIONS_READ, ROLES_READ, ROLES_CREATE, ROLES_UPDATE, ROLES_STATUS_UPDATE,
      ROLES_ASSIGN, ROLES_REVOKE, ROLES_PERMISSIONS_BIND, ROLES_PERMISSIONS_UNBIND,
      USERS_READ, USERS_CREATE, USERS_STATUS_UPDATE, USERS_PASSWORD_RESET,
      USERS_SESSIONS_REVOKE, PROJECTS_READ, PROJECTS_UPDATE])"

definition USER_PERMISSION_KEYS :: "string set" where
  "USER_PERMISSION_KEYS = {}"

record system_role_spec =
  spec_key :: system_role_key
  spec_name :: string
  spec_description :: string
  spec_management_tier :: int
  spec_is_protected :: bool
  spec_is_super_admin :: bool
  spec_permissions :: "string set"

fun SYSTEM_ROLE_SPECS :: "system_role_key \<Rightarrow> system_role_spec" where
  "SYSTEM_ROLE_SPECS SUPER_ADMIN =
     \<lparr>spec_key = SUPER_ADMIN, spec_name = ''Super administrator'',
      spec_description = ''Sole protected administrator for the application'',
      spec_management_tier = 1000, spec_is_protected = True, spec_is_super_admin = True,
      spec_permissions = SUPER_ADMIN_PERMISSION_KEYS\<rparr>"
| "SYSTEM_ROLE_SPECS ADMIN =
     \<lparr>spec_key = ADMIN, spec_name = ''Administrator'',
      spec_description = ''Built-in administrator for strictly lower authority'',
      spec_management_tier = 500, spec_is_protected = False, spec_is_super_admin = False,
      spec_permissions = ADMIN_PERMISSION_KEYS\<rparr>"
| "SYSTEM_ROLE_SPECS USER =
     \<lparr>spec_key = USER, spec_name = ''User'',
      spec_description = ''Mandatory lowest-authority role for every user'',
      spec_management_tier = 0, spec_is_protected = False, spec_is_super_admin = False,
      spec_permissions = USER_PERMISSION_KEYS\<rparr>"

definition RESERVED_ROLE_KEYS :: "string set" where
  "RESERVED_ROLE_KEYS = set (map system_role_value [SUPER_ADMIN, ADMIN, USER])"

definition MAX_ROLES_PER_USER :: nat where
  "MAX_ROLES_PER_USER = 10"

lemma system_role_permissions_nested:
  "spec_permissions (SYSTEM_ROLE_SPECS USER) \<subseteq> spec_permissions (SYSTEM_ROLE_SPECS ADMIN)"
  "spec_permissions (SYSTEM_ROLE_SPECS ADMIN) \<subset> spec_permissions (SYSTEM_ROLE_SPECS SUPER_ADMIN)"
  by code_simp+

subsection \<open>Principals, grants and snapshots\<close>

record principal =
  pr_user_id :: uuid
  pr_token_version :: int
  pr_token_id :: uuid
  pr_issued_at :: int
  pr_expires_at :: int

record role_grant =
  g_role_id :: uuid
  g_key :: string
  g_management_tier :: int
  g_permissions :: "string set"
  g_is_system :: bool
  g_is_protected :: bool
  g_is_super_admin :: bool

record authority_snapshot =
  a_user_id :: uuid
  a_user_is_active :: bool
  a_user_is_protected :: bool
  a_token_version :: int
  a_roles :: "role_grant list"
  a_permissions :: "string set"
  a_management_tier :: int
  a_is_protected :: bool
  a_is_super_admin :: bool
  a_authz_version :: int

text \<open>
  \<open>AuthoritySnapshot.build\<close>. The roles are sorted by the text of their id, which for
  UUIDs is the order of the id itself.
\<close>

definition build :: "uuid \<Rightarrow> bool \<Rightarrow> bool \<Rightarrow> int \<Rightarrow> int \<Rightarrow> role_grant list \<Rightarrow> authority_snapshot" where
  "build user_id user_is_active user_is_protected token_version authz_version roles =
     \<lparr>a_user_id = user_id,
      a_user_is_active = user_is_active,
      a_user_is_protected = user_is_protected,
      a_token_version = token_version,
      a_roles = sort_key g_role_id roles,
      a_permissions = (\<Union>role \<in> set roles. g_permissions role),
      a_management_tier = max_default 0 (map g_management_tier roles),
      a_is_protected = (user_is_protected \<or> list_ex g_is_protected roles),
      a_is_super_admin = list_ex g_is_super_admin roles,
      a_authz_version = authz_version\<rparr>"

definition replace_roles :: "authority_snapshot \<Rightarrow> role_grant list \<Rightarrow> authority_snapshot" where
  "replace_roles s roles =
     build (a_user_id s) (a_user_is_active s) (a_user_is_protected s) (a_token_version s)
       (a_authz_version s) roles"

definition with_role :: "authority_snapshot \<Rightarrow> role_grant \<Rightarrow> authority_snapshot" where
  "with_role s role =
     (let roles = fold (\<lambda>item. AList.update (g_role_id item) item) (a_roles s) [];
          roles = AList.update (g_role_id role) role roles
      in replace_roles s (map snd roles))"

definition without_role :: "authority_snapshot \<Rightarrow> uuid \<Rightarrow> authority_snapshot" where
  "without_role s role_id = replace_roles s (filter (\<lambda>role. g_role_id role \<noteq> role_id) (a_roles s))"

datatype audit_source = HTTP | SERVICE | JOB | OPERATOR | MIGRATION

fun audit_source_value :: "audit_source \<Rightarrow> string" where
  "audit_source_value HTTP = ''http''"
| "audit_source_value SERVICE = ''service''"
| "audit_source_value JOB = ''job''"
| "audit_source_value OPERATOR = ''operator''"
| "audit_source_value MIGRATION = ''migration''"

record authorization_context =
  c_principal :: principal
  c_authorization_epoch :: int
  c_authority :: authority_snapshot
  c_request_id :: string
  c_audit_source :: audit_source

definition context_permissions :: "authorization_context \<Rightarrow> string set" where
  "context_permissions ctx = a_permissions (c_authority ctx)"

subsection \<open>A snapshot agrees with its roles\<close>

text \<open>
  What \<open>build\<close> establishes, and \<open>with_role\<close> and \<open>without_role\<close> keep: the derived
  fields are those of the roles, the roles are in order of their id and each occurs once.
\<close>

definition snapshot_ok :: "authority_snapshot \<Rightarrow> bool" where
  "snapshot_ok s \<longleftrightarrow>
     distinct (map g_role_id (a_roles s)) \<and> sorted (map g_role_id (a_roles s)) \<and>
     a_permissions s = (\<Union>role \<in> set (a_roles s). g_permissions role) \<and>
     a_management_tier s = max_default 0 (map g_management_tier (a_roles s)) \<and>
     (a_is_protected s \<longleftrightarrow> a_user_is_protected s \<or> (\<exists>r \<in> set (a_roles s). g_is_protected r)) \<and>
     (a_is_super_admin s \<longleftrightarrow> (\<exists>r \<in> set (a_roles s). g_is_super_admin r))"

lemma build_fields [simp]:
  "a_user_id (build u act prot tv av roles) = u"
  "a_user_is_active (build u act prot tv av roles) = act"
  "a_user_is_protected (build u act prot tv av roles) = prot"
  "a_token_version (build u act prot tv av roles) = tv"
  "a_authz_version (build u act prot tv av roles) = av"
  "set (a_roles (build u act prot tv av roles)) = set roles"
  "a_permissions (build u act prot tv av roles) = (\<Union>r \<in> set roles. g_permissions r)"
  by (simp_all add: build_def)

lemma max_default_cong_set: "set xs = set ys \<Longrightarrow> max_default d xs = max_default d ys"
  by (cases "xs = []"; cases "ys = []") (auto simp: max_default_eq_Max)

lemma build_ok: "distinct (map g_role_id roles) \<Longrightarrow> snapshot_ok (build u act prot tv av roles)"
proof -
  assume d: "distinct (map g_role_id roles)"
  then have "distinct (map g_role_id (sort_key g_role_id roles))"
    by (simp add: distinct_map)
  moreover have "max_default 0 (map g_management_tier roles)
      = max_default 0 (map g_management_tier (sort_key g_role_id roles))"
    by (rule max_default_cong_set) simp
  ultimately show ?thesis
    by (auto simp: snapshot_ok_def build_def list_ex_iff)
qed

text \<open>The dictionary of \<open>with_role\<close> holds each role under its own id.\<close>

lemma role_dict:
  fixes roles :: "role_grant list"
  shows "distinct (map g_role_id roles) \<Longrightarrow>
     fold (\<lambda>item. AList.update (g_role_id item) item) roles [] = map (\<lambda>r. (g_role_id r, r)) roles"
proof (induction roles rule: rev_induct)
  case (snoc r roles)
  have "AList.update k v (m @ n) = m @ AList.update k v n" if "k \<notin> fst ` set m"
    for k :: uuid and v :: role_grant and m n
    using that by (induction m) auto
  from this [of "g_role_id r" "map (\<lambda>r. (g_role_id r, r)) roles" r "[]"] snoc
  show ?case by (auto simp: image_image)
qed simp

lemma update_role_dict_set:
  "distinct (map g_role_id roles) \<Longrightarrow>
     set (map snd (AList.update (g_role_id r) r (map (\<lambda>r. (g_role_id r, r)) roles)))
       = insert r {x \<in> set roles. g_role_id x \<noteq> g_role_id r}"
  by (induction roles) (auto simp: image_iff)

lemma update_role_dict_keys:
  "map g_role_id (map snd (AList.update (g_role_id r) r (map (\<lambda>r. (g_role_id r, r)) roles)))
     = map fst (AList.update (g_role_id r) r (map (\<lambda>r. (g_role_id r, r)) roles))"
  by (induction roles) auto

lemma with_role_roles:
  assumes "snapshot_ok s"
  shows "set (a_roles (with_role s r)) = insert r {x \<in> set (a_roles s). g_role_id x \<noteq> g_role_id r}"
  using assms update_role_dict_set [of "a_roles s" r]
  by (simp add: with_role_def replace_roles_def role_dict snapshot_ok_def)

lemma with_role_ok: "snapshot_ok s \<Longrightarrow> snapshot_ok (with_role s r)"
  unfolding with_role_def Let_def replace_roles_def
  by (rule build_ok, subst role_dict)
     (simp_all add: snapshot_ok_def update_role_dict_keys distinct_update comp_def del: map_map
        add: map_map [where f = fst])

lemma without_role_roles:
  "set (a_roles (without_role s i)) = {x \<in> set (a_roles s). g_role_id x \<noteq> i}"
  by (auto simp: without_role_def replace_roles_def)

lemma without_role_ok: "snapshot_ok s \<Longrightarrow> snapshot_ok (without_role s i)"
  unfolding without_role_def replace_roles_def
  by (rule build_ok) (auto simp: snapshot_ok_def distinct_map_filter)

lemma with_role_fields [simp]:
  "a_user_id (with_role s r) = a_user_id s"
  "a_user_is_active (with_role s r) = a_user_is_active s"
  "a_user_is_protected (with_role s r) = a_user_is_protected s"
  "a_token_version (with_role s r) = a_token_version s"
  "a_authz_version (with_role s r) = a_authz_version s"
  by (simp_all add: with_role_def replace_roles_def Let_def)

lemma without_role_fields [simp]:
  "a_user_id (without_role s i) = a_user_id s"
  "a_user_is_active (without_role s i) = a_user_is_active s"
  "a_user_is_protected (without_role s i) = a_user_is_protected s"
  "a_token_version (without_role s i) = a_token_version s"
  "a_authz_version (without_role s i) = a_authz_version s"
  by (simp_all add: without_role_def replace_roles_def)

text \<open>The facts a decision needs about a well-formed snapshot.\<close>

lemma snapshot_tier_less:
  "snapshot_ok s \<Longrightarrow> a_management_tier s < b \<Longrightarrow> r \<in> set (a_roles s) \<Longrightarrow> g_management_tier r < b"
  using max_default_upper [of "g_management_tier r" "map g_management_tier (a_roles s)" 0]
  by (auto simp: snapshot_ok_def)

lemma snapshot_role_permissions:
  "snapshot_ok s \<Longrightarrow> r \<in> set (a_roles s) \<Longrightarrow> g_permissions r \<subseteq> a_permissions s"
  by (auto simp: snapshot_ok_def)

end
