(* ===== verification/Audit_State.thy ===== *)
theory Audit_State
  imports Regex Domain
begin

text \<open>
  Audit payloads, \<open>app/core/audit.py\<close>: the bounded, secret-free JSON an audit event may
  carry, and the shapes of its action, reason code and request id.
  The Unicode database of the Python runtime (which code points are word characters, and
  case folding) is a parameter of the definitions that consult it.
\<close>

record unicode_db =
  uc_word :: "codepoint \<Rightarrow> bool"
  uc_casefold :: "pystr \<Rightarrow> pystr"
  uc_nfkc :: "pystr \<Rightarrow> pystr"

text \<open>What is documented of it for ASCII text, where every constant of the program lives.\<close>

definition ascii :: "pystr \<Rightarrow> bool" where
  "ascii s \<longleftrightarrow> list_all (\<lambda>c. c < 128) s"

definition lower_ascii :: "codepoint \<Rightarrow> codepoint" where
  "lower_ascii c = (if is_upper c then c + 32 else c)"

definition unicode_ok :: "unicode_db \<Rightarrow> bool" where
  "unicode_ok u \<longleftrightarrow>
     (\<forall>c < 128. uc_word u c \<longleftrightarrow> is_digit c \<or> is_lower c \<or> is_upper c \<or> c = 95) \<and>
     (\<forall>s. ascii s \<longrightarrow> uc_casefold u s = map lower_ascii s) \<and>
     (\<forall>s. ascii s \<longrightarrow> uc_nfkc u s = s)"

definition ascii_db :: unicode_db where
  "ascii_db = \<lparr>uc_word = (\<lambda>c. is_digit c \<or> is_lower c \<or> is_upper c \<or> c = 95),
     uc_casefold = map lower_ascii, uc_nfkc = (\<lambda>s. s)\<rparr>"

lemma ascii_db_ok: "unicode_ok ascii_db"
  by (simp add: unicode_ok_def ascii_db_def)

text \<open>\<open>str.isspace\<close>, also \<open>\s\<close> of a pattern and what \<open>str.strip\<close> removes.\<close>

definition is_space :: "codepoint \<Rightarrow> bool" where
  "is_space c \<longleftrightarrow> (9 \<le> c \<and> c \<le> 13) \<or> (28 \<le> c \<and> c \<le> 32) \<or>
     c \<in> {133, 160, 5760, 8232, 8233, 8239, 8287, 12288} \<or> (8192 \<le> c \<and> c \<le> 8202)"

definition strip :: "pystr \<Rightarrow> pystr" where
  "strip s = rev (dropWhile is_space (rev (dropWhile is_space s)))"

subsection \<open>The patterns\<close>

definition ACTION_RE :: rx where
  "ACTION_RE = Seq [Cls is_lower, Star (Cls (\<lambda>c. is_lower c \<or> is_digit c)),
     Star (Cat (Cls (chr_in ''._:-'')) (Plus (Cls (\<lambda>c. is_lower c \<or> is_digit c))))]"

definition REASON_RE :: rx where
  "REASON_RE = Cat (Cls is_lower) (Star (Cls (\<lambda>c. is_lower c \<or> is_digit c \<or> c = 95)))"

definition is_alnum_ascii :: "codepoint \<Rightarrow> bool" where
  "is_alnum_ascii c \<longleftrightarrow> is_lower c \<or> is_upper c \<or> is_digit c"

definition REQUEST_ID_RE :: rx where
  "REQUEST_ID_RE = Cat (Cls is_alnum_ascii)
     (Star (Cls (\<lambda>c. is_alnum_ascii c \<or> chr_in '':._-'' c)))"

text \<open>
  A letter under \<open>(?i)\<close>: either case, and the four code points outside ASCII that
  \<open>re\<close> folds to an ASCII letter (dotted and dotless i, long s, Kelvin sign).
\<close>

definition ci :: "codepoint \<Rightarrow> codepoint \<Rightarrow> bool" where
  "ci l c \<longleftrightarrow> lower_ascii c = l \<or> (l = 105 \<and> (c = 304 \<or> c = 305)) \<or>
     (l = 115 \<and> c = 383) \<or> (l = 107 \<and> c = 8490)"

definition ci_letter :: "codepoint \<Rightarrow> bool" where
  "ci_letter c \<longleftrightarrow>
     is_lower (lower_ascii c) \<or> c = 304 \<or> c = 305 \<or> c = 383 \<or> c = 8490"

definition ci_word :: "string \<Rightarrow> rx" where
  "ci_word s = Seq (map (\<lambda>l. Cls (ci l)) (lit s))"

definition SPACES :: rx where
  "SPACES = Star (Cls is_space)"

definition NONSPACES :: rx where
  "NONSPACES = Plus (Cls (\<lambda>c. \<not> is_space c))"

definition SENSITIVE_TEXT_RE :: rx where
  "SENSITIVE_TEXT_RE = Alts
     [Seq [WordB, ci_word ''bearer'', Plus (Cls is_space), NONSPACES],
      Seq [ci_word ''-----begin '',
           Opt (Alts [ci_word ''rsa '', ci_word ''ec '', ci_word ''openssh '']),
           ci_word ''private key-----''],
      Seq [WordB,
           Alts [ci_word ''password'', ci_word ''secret'', ci_word ''token'',
                 Seq [ci_word ''api'', Opt (Cls (chr_in ''_-'')), ci_word ''key''],
                 ci_word ''authorization''],
           SPACES, Cls (chr_in ''=:''), SPACES, NONSPACES],
      Seq [WordB, Cls ci_letter,
           Star (Cls (\<lambda>c. ci_letter c \<or> is_digit c \<or> chr_in ''+.-'' c)), ci_word ''://'',
           Plus (Cls (\<lambda>c. \<not> is_space c \<and> \<not> chr_in ''/@:'' c)), ci_word '':'',
           Plus (Cls (\<lambda>c. \<not> is_space c \<and> \<not> chr_in ''/@'' c)), ci_word ''@'']]"

definition SAFE_AUDIT_IDENTIFIERS :: "pystr list" where
  "SAFE_AUDIT_IDENTIFIERS = [lit ''users:password:reset'']"

definition sensitive_text :: "unicode_db \<Rightarrow> pystr \<Rightarrow> bool" where
  "sensitive_text u s \<longleftrightarrow>
     s \<notin> set SAFE_AUDIT_IDENTIFIERS \<and> search (uc_word u) SENSITIVE_TEXT_RE s"

definition MAX_DEPTH :: int where "MAX_DEPTH = 6"
definition MAX_COLLECTION_ITEMS :: nat where "MAX_COLLECTION_ITEMS = 100"
definition MAX_STATE_BYTES :: int where "MAX_STATE_BYTES = 16 * 1024"

definition SENSITIVE_KEYS :: "pystr list" where
  "SENSITIVE_KEYS = map lit
     [''api_key'', ''apikey'', ''authorization'', ''cookie'', ''credentials'',
      ''database_url'', ''email'', ''id_token'', ''jti'', ''jwt'', ''jwt_secret'',
      ''password'', ''password_hash'', ''private_key'', ''proxy_url'', ''redis_url'',
      ''secret'', ''set_cookie'', ''token'', ''username'']"

definition SENSITIVE_SUFFIXES :: "pystr list" where
  "SENSITIVE_SUFFIXES = map lit
     [''_api_key'', ''_cookie'', ''_credential'', ''_password'', ''_private_key'',
      ''_secret'', ''_token'']"

definition ends_with :: "pystr \<Rightarrow> pystr \<Rightarrow> bool" where
  "ends_with s suffix \<longleftrightarrow>
     length suffix \<le> length s \<and> drop (length s - length suffix) s = suffix"

definition sensitive_key :: "unicode_db \<Rightarrow> pystr \<Rightarrow> bool" where
  "sensitive_key u key \<longleftrightarrow>
     (let normalized = map (\<lambda>c. if c = 45 then 95 else c) (uc_casefold u key)
      in normalized \<in> set SENSITIVE_KEYS \<or> list_ex (ends_with normalized) SENSITIVE_SUFFIXES)"

definition require_safe_key :: "unicode_db \<Rightarrow> pystr \<Rightarrow> failure + unit" where
  "require_safe_key u key =
     (if sensitive_key u key
      then Inl (Value_error ''audit state contains forbidden sensitive field'')
      else if key = [] \<or> length key > 120
      then Inl (Value_error ''audit state keys must contain 1 to 120 characters'')
      else Inr ())"

subsection \<open>Payload values\<close>

text \<open>
  The values a caller may put into a payload. A float is known by whether it is finite and
  by its JSON text, a datetime by whether it carries a timezone and by its ISO text in
  UTC, a mapping by its items (\<open>None\<close> for a key that is not a string).
\<close>

datatype audit_value =
    A_None
  | A_Bool bool
  | A_Int int
  | A_Str pystr
  | A_Float bool string
  | A_UUID uuid
  | A_Datetime bool string
  | A_Enum audit_value
  | A_Map "(pystr option \<times> audit_value) list"
  | A_Seq "audit_value list"
  | A_Other

datatype json =
    J_Null
  | J_Bool bool
  | J_Int int
  | J_Float string
  | J_Str pystr
  | J_List "json list"
  | J_Obj "(pystr \<times> json) list"

text \<open>\<open>.replace("+00:00", "Z")\<close> on an ISO text.\<close>

fun replace_utc :: "string \<Rightarrow> string" where
  "replace_utc [] = []"
| "replace_utc (c # s) =
     (if take 6 (c # s) = ''+00:00'' then CHR ''Z'' # replace_utc (drop 6 (c # s))
      else c # replace_utc s)"

fun audit_json :: "unicode_db \<Rightarrow> audit_value \<Rightarrow> int \<Rightarrow> failure + json" where
  "audit_json u v depth =
     (if depth > MAX_DEPTH
      then Inl (Value_error ''audit state exceeds the maximum nesting depth'')
      else case v of
        A_None \<Rightarrow> Inr J_Null
      | A_Bool b \<Rightarrow> Inr (J_Bool b)
      | A_Int i \<Rightarrow> Inr (J_Int i)
      | A_Str s \<Rightarrow>
          if sensitive_text u s then Inl (Value_error ''audit state contains sensitive text'')
          else Inr (J_Str s)
      | A_Float fin text \<Rightarrow>
          if \<not> fin then Inl (Value_error ''audit state cannot contain non-finite numbers'')
          else Inr (J_Float text)
      | A_UUID i \<Rightarrow> Inr (J_Str (lit (uuid_str i)))
      | A_Datetime aware iso_text \<Rightarrow>
          if \<not> aware then Inl (Value_error ''audit timestamps must include a timezone'')
          else Inr (J_Str (lit (replace_utc iso_text)))
      | A_Enum x \<Rightarrow> audit_json u x (depth + 1)
      | A_Map items \<Rightarrow>
          if length items > MAX_COLLECTION_ITEMS
          then Inl (Value_error ''audit state contains too many object fields'')
          else bindE (mapE (\<lambda>item.
              case fst item of
                None \<Rightarrow> Inl (Value_error ''audit state object keys must be strings'')
              | Some key \<Rightarrow>
                  bindE (require_safe_key u key) (\<lambda>_.
                  bindE (audit_json u (snd item) (depth + 1)) (\<lambda>j. Inr (key, j)))) items)
            (\<lambda>members. Inr (J_Obj members))
      | A_Seq xs \<Rightarrow>
          if length xs > MAX_COLLECTION_ITEMS
          then Inl (Value_error ''audit state contains too many array items'')
          else bindE (mapE (\<lambda>x. audit_json u x (depth + 1)) xs) (\<lambda>js. Inr (J_List js))
      | A_Other \<Rightarrow> Inl (Value_error ''unsupported audit state value''))"

declare audit_json.simps [simp del]

subsection \<open>The size of the encoded state\<close>

text \<open>
  \<open>json.dumps(value, ensure_ascii=False, separators=(",", ":"), sort_keys=True)\<close>.
\<close>

definition escape_char :: "codepoint \<Rightarrow> pystr" where
  "escape_char c =
     (if c = 34 then [92, 34] else if c = 92 then [92, 92]
      else if c = 8 then lit [CHR 92, CHR ''b''] else if c = 12 then lit [CHR 92, CHR ''f'']
      else if c = 10 then lit [CHR 92, CHR ''n''] else if c = 13 then lit [CHR 92, CHR ''r'']
      else if c = 9 then lit [CHR 92, CHR ''t'']
      else if c < 32 then [92, 117] @ lit (hex_of 4 (nat c))
      else [c])"

definition encode_string :: "pystr \<Rightarrow> pystr" where
  "encode_string s = [34] @ concat (map escape_char s) @ [34]"

fun decimal :: "nat \<Rightarrow> pystr" where
  "decimal n = (if n < 10 then [48 + int n] else decimal (n div 10) @ [48 + int (n mod 10)])"

declare decimal.simps [simp del]

definition encode_int :: "int \<Rightarrow> pystr" where
  "encode_int i = (if i < 0 then 45 # decimal (nat (- i)) else decimal (nat i))"

fun join_with :: "codepoint \<Rightarrow> pystr list \<Rightarrow> pystr" where
  "join_with c [] = []"
| "join_with c [s] = s"
| "join_with c (s # rest) = s @ [c] @ join_with c rest"

fun encode_json :: "json \<Rightarrow> pystr" where
  "encode_json J_Null = lit ''null''"
| "encode_json (J_Bool b) = (if b then lit ''true'' else lit ''false'')"
| "encode_json (J_Int i) = encode_int i"
| "encode_json (J_Float text) = lit text"
| "encode_json (J_Str s) = encode_string s"
| "encode_json (J_List xs) = [91] @ join_with 44 (map encode_json xs) @ [93]"
| "encode_json (J_Obj members) =
     [123] @ join_with 44 (map snd (sort_key fst
        (map (\<lambda>(k, v). (k, encode_string k @ [58] @ encode_json v)) members))) @ [125]"

text \<open>\<open>str.encode("utf-8")\<close>: its length, or an error on a surrogate.\<close>

definition utf8_width :: "codepoint \<Rightarrow> int" where
  "utf8_width c = (if c < 128 then 1 else if c < 2048 then 2 else if c < 65536 then 3 else 4)"

definition is_surrogate :: "codepoint \<Rightarrow> bool" where
  "is_surrogate c \<longleftrightarrow> 55296 \<le> c \<and> c \<le> 57343"

definition utf8_length :: "pystr \<Rightarrow> failure + int" where
  "utf8_length s =
     (if list_ex is_surrogate s then Inl (Value_error ''surrogates not allowed'')
      else Inr (sum_list (map utf8_width s)))"

definition sanitize_audit_state :: "unicode_db \<Rightarrow> audit_value option \<Rightarrow> failure + json option" where
  "sanitize_audit_state u state =
     (case state of None \<Rightarrow> Inr None
      | Some s \<Rightarrow>
        bindE (audit_json u s 0) (\<lambda>value.
        case value of
          J_Obj members \<Rightarrow>
            bindE (utf8_length (encode_json value)) (\<lambda>n.
            if n > MAX_STATE_BYTES then Inl (Value_error ''audit state exceeds 16 KiB'')
            else Inr (Some value))
        | _ \<Rightarrow> Inl (Value_error ''audit state must be a JSON object'')))"

definition validate_audit_action :: "string \<Rightarrow> failure + string" where
  "validate_audit_action value =
     (if \<not> (3 \<le> length value \<and> length value \<le> 120) \<or> \<not> fullmatch ACTION_RE (lit value)
      then Inl (Value_error ''invalid audit action'') else Inr value)"

definition validate_audit_reason :: "string \<Rightarrow> failure + string" where
  "validate_audit_reason value =
     (if \<not> (2 \<le> length value \<and> length value \<le> 80) \<or> \<not> fullmatch REASON_RE (lit value)
      then Inl (Value_error ''invalid audit reason code'') else Inr value)"

definition validate_audit_request_id :: "string \<Rightarrow> failure + string" where
  "validate_audit_request_id value =
     (if \<not> (1 \<le> length value \<and> length value \<le> 128) \<or> \<not> fullmatch REQUEST_ID_RE (lit value)
      then Inl (Value_error ''invalid audit request or correlation ID'') else Inr value)"

end
