(* ===== verification/Schema.thy ===== *)
theory Schema
  imports Audit_State
begin

text \<open>
  The tables of \<open>app/models/access.py\<close> and \<open>app/models/account_security.py\<close> with their
  constraints, and the constraint triggers of the migrations
  \<open>alembic/versions/0001_single_project_rbac.py\<close> and \<open>0002_system_roles.py\<close>. A table is
  the list of its rows. Surrogate primary keys of assignment and event rows and the
  \<open>created_at\<close>/\<open>assigned_at\<close> columns are left out: no modelled code reads them.
\<close>

subsection \<open>Rows\<close>

record user =
  u_id :: uuid
  u_user_name :: pystr
  u_password_hash :: "string option"
  u_must_change_password :: bool
  u_password_changed_at :: "int option"
  u_is_active :: bool
  u_is_protected :: bool
  u_token_version :: int
  u_authz_version :: int
  u_deleted_at :: "int option"
  u_deleted_by_user_id :: "uuid option"

record rbac_state =
  st_epoch :: int
  st_public_registration_enabled :: bool

record permission =
  p_id :: uuid
  p_key :: string
  p_description :: string
  p_deleted_at :: "int option"
  p_deleted_by_user_id :: "uuid option"

record role =
  r_id :: uuid
  r_key :: string
  r_name :: pystr
  r_description :: pystr
  r_management_tier :: int
  r_is_active :: bool
  r_is_protected :: bool
  r_is_system :: bool
  r_is_super_admin :: bool
  r_version :: int
  r_deleted_at :: "int option"
  r_deleted_by_user_id :: "uuid option"

record role_permission =
  rp_role_id :: uuid
  rp_permission_id :: uuid
  rp_assigned_by_user_id :: "uuid option"
  rp_deleted_at :: "int option"
  rp_deleted_by_user_id :: "uuid option"

record user_role =
  ur_user_id :: uuid
  ur_role_id :: uuid
  ur_assigned_by_user_id :: "uuid option"
  ur_deleted_at :: "int option"
  ur_deleted_by_user_id :: "uuid option"

record rbac_audit_event =
  ev_actor_user_id :: uuid
  ev_target_user_id :: "uuid option"
  ev_target_role_id :: "uuid option"
  ev_action :: string
  ev_decision :: string
  ev_reason_code :: string
  ev_source :: string
  ev_schema_version :: int
  ev_before_state :: "json option"
  ev_after_state :: "json option"
  ev_request_id :: string

datatype account_outcome = SUCCEEDED | FAILED | DENIED

datatype account_actor_type = ANONYMOUS_ACTOR | USER_ACTOR | OPERATOR_ACTOR | SYSTEM_ACTOR

record account_event =
  ae_action :: string
  ae_outcome :: account_outcome
  ae_reason_code :: string
  ae_actor_type :: account_actor_type
  ae_actor_user_id :: "uuid option"
  ae_target_user_id :: "uuid option"
  ae_source :: audit_source
  ae_schema_version :: int
  ae_request_id :: string

text \<open>
  The database. \<open>rbac_state\<close> has the primary key \<open>scope\<close> with the only value
  \<open>'global'\<close>, so it holds at most one row.
\<close>

record database =
  db_users :: "user list"
  db_roles :: "role list"
  db_permissions :: "permission list"
  db_user_roles :: "user_role list"
  db_role_permissions :: "role_permission list"
  db_state :: "rbac_state option"
  db_rbac_audit :: "rbac_audit_event list"
  db_account_audit :: "account_event list"

abbreviation live_ur :: "user_role \<Rightarrow> bool" where
  "live_ur ur \<equiv> ur_deleted_at ur = None"

abbreviation live_rp :: "role_permission \<Rightarrow> bool" where
  "live_rp rp \<equiv> rp_deleted_at rp = None"

abbreviation live_role :: "role \<Rightarrow> bool" where
  "live_role r \<equiv> r_deleted_at r = None"

abbreviation live_user :: "user \<Rightarrow> bool" where
  "live_user u \<equiv> u_deleted_at u = None"

abbreviation live_permission :: "permission \<Rightarrow> bool" where
  "live_permission p \<equiv> p_deleted_at p = None"

subsection \<open>Constructors with validators\<close>

text \<open>
  \<open>@validates\<close> runs when an event object is built: a bad action, reason, request id or
  payload is a \<open>ValueError\<close> before anything reaches the database.
\<close>

definition new_rbac_audit_event ::
    "unicode_db \<Rightarrow> uuid \<Rightarrow> uuid option \<Rightarrow> uuid option \<Rightarrow> string \<Rightarrow> string \<Rightarrow> string \<Rightarrow> string \<Rightarrow>
     audit_value option \<Rightarrow> audit_value option \<Rightarrow> string \<Rightarrow> failure + rbac_audit_event" where
  "new_rbac_audit_event uc actor target_user target_role action decision reason source
       before_state after_state request_id =
     bindE (validate_audit_action action) (\<lambda>action.
     bindE (validate_audit_reason reason) (\<lambda>reason.
     bindE (sanitize_audit_state uc before_state) (\<lambda>before_json.
     bindE (sanitize_audit_state uc after_state) (\<lambda>after_json.
     bindE (validate_audit_request_id request_id) (\<lambda>request_id.
       Inr \<lparr>ev_actor_user_id = actor, ev_target_user_id = target_user,
            ev_target_role_id = target_role, ev_action = action, ev_decision = decision,
            ev_reason_code = reason, ev_source = source, ev_schema_version = 1,
            ev_before_state = before_json, ev_after_state = after_json,
            ev_request_id = request_id\<rparr>)))))"

definition ACCOUNT_SECURITY_ACTION_RE :: rx where
  "ACCOUNT_SECURITY_ACTION_RE =
     Seq [Word ''account_security.'', Cls is_lower,
          Star (Cls (\<lambda>c. is_lower c \<or> is_digit c \<or> c = 95)),
          Plus (Seq [Cls (\<lambda>c. c = 46), Cls is_lower,
                     Star (Cls (\<lambda>c. is_lower c \<or> is_digit c \<or> c = 95))])]"

definition validate_account_action :: "string \<Rightarrow> failure + string" where
  "validate_account_action value =
     (if \<not> (20 \<le> length value \<and> length value \<le> 120)
         \<or> \<not> fullmatch ACCOUNT_SECURITY_ACTION_RE (lit value)
      then Inl (Value_error ''invalid account security audit action'') else Inr value)"

definition new_account_event ::
    "string \<Rightarrow> account_outcome \<Rightarrow> string \<Rightarrow> account_actor_type \<Rightarrow> uuid option \<Rightarrow> uuid option \<Rightarrow>
     audit_source \<Rightarrow> string \<Rightarrow> failure + account_event" where
  "new_account_event action outcome reason actor_type actor target source request_id =
     bindE (validate_account_action action) (\<lambda>action.
     bindE (validate_audit_reason reason) (\<lambda>reason.
     bindE (validate_audit_request_id request_id) (\<lambda>request_id.
       Inr \<lparr>ae_action = action, ae_outcome = outcome, ae_reason_code = reason,
            ae_actor_type = actor_type, ae_actor_user_id = actor, ae_target_user_id = target,
            ae_source = source, ae_schema_version = 1, ae_request_id = request_id\<rparr>)))"

subsection \<open>Column types\<close>

text \<open>
  A text column holds text PostgreSQL can encode: no U+0000 and no surrogate, and no more
  characters than \<open>String(n)\<close> allows; a JSONB column refuses the same code points in every
  string and every key. The driver raises a \<open>DataError\<close> for such a value where a check
  constraint raises an \<open>IntegrityError\<close>; no caller tells the two apart, so a refused column
  is part of the checks of its row. The versions and the epoch are \<open>BigInteger\<close> columns;
  they start at 0 and grow by one, and reaching \<open>2^63\<close> is left out. So is the length of
  \<open>password_hash\<close>: an encoded Argon2 hash of the fixed parameters has about a hundred of the
  512 characters.
\<close>

definition storable :: "pystr \<Rightarrow> bool" where
  "storable s \<longleftrightarrow> list_all (\<lambda>c. 0 < c \<and> c < 1114112 \<and> \<not> is_surrogate c) s"

definition column_text :: "nat \<Rightarrow> pystr \<Rightarrow> bool" where
  "column_text n s \<longleftrightarrow> length s \<le> n \<and> storable s"

fun json_storable :: "json \<Rightarrow> bool" where
  "json_storable (J_Str s) \<longleftrightarrow> storable s"
| "json_storable (J_List js) \<longleftrightarrow> list_all json_storable js"
| "json_storable (J_Obj members) \<longleftrightarrow> list_all (\<lambda>(k, v). storable k \<and> json_storable v) members"
| "json_storable _ \<longleftrightarrow> True"

definition column_jsonb :: "json option \<Rightarrow> bool" where
  "column_jsonb j \<longleftrightarrow> (case j of None \<Rightarrow> True | Some v \<Rightarrow> json_storable v)"

definition role_columns :: "role \<Rightarrow> bool" where
  "role_columns r \<longleftrightarrow>
     column_text 80 (lit (r_key r)) \<and> column_text 160 (r_name r) \<and> storable (r_description r)"

definition permission_text_columns :: "permission \<Rightarrow> bool" where
  "permission_text_columns p \<longleftrightarrow> column_text 120 (lit (p_key p)) \<and> storable (lit (p_description p))"

lemma storable_simps [simp]: "storable []" "storable (s @ t) \<longleftrightarrow> storable s \<and> storable t"
  by (simp_all add: storable_def)

lemma storable_plain: "list_all plain_char s \<Longrightarrow> storable (lit s)"
  by (auto simp: storable_def lit_def plain_char_def is_surrogate_def list_all_iff)

lemma column_text_storable: "column_text n s \<Longrightarrow> storable s"
  by (simp add: column_text_def)

lemma column_jsonb_simps [simp]:
  "column_jsonb None" "column_jsonb (Some j) \<longleftrightarrow> json_storable j"
  by (simp_all add: column_jsonb_def)

subsection \<open>Check constraints\<close>

definition USER_NAME_RE :: rx where
  "USER_NAME_RE = Rep 3 32 (Cls (\<lambda>c. is_alnum_ascii c \<or> c = 95))"

definition PASSWORD_HASH_RE :: rx where
  "PASSWORD_HASH_RE =
     (let number = Cat (Cls (\<lambda>c. 49 \<le> c \<and> c \<le> 57)) (Star (Cls is_digit));
          blob = Cat (Rep 16 16 (Cls (\<lambda>c. is_alnum_ascii c \<or> chr_in ''+/'' c)))
                   (Star (Cls (\<lambda>c. is_alnum_ascii c \<or> chr_in ''+/'' c)))
      in Seq [Word ''$argon2id$v=19$m='', number, Word '',t='', number, Word '',p='', number,
              Word ''$'', blob, Word ''$'', blob])"

definition user_checks :: "user \<Rightarrow> bool" where
  "user_checks u \<longleftrightarrow>
     fullmatch USER_NAME_RE (u_user_name u) \<and>
     0 \<le> u_token_version u \<and>
     0 \<le> u_authz_version u \<and>
     (u_password_hash u = None \<or> (\<exists>h \<in> set_option (u_password_hash u). fullmatch PASSWORD_HASH_RE (lit h))) \<and>
     ((u_password_hash u = None \<and> u_password_changed_at u = None \<and> \<not> u_must_change_password u)
       \<or> (u_password_hash u \<noteq> None \<and> u_password_changed_at u \<noteq> None)) \<and>
     (u_deleted_at u = None \<or> u_password_hash u = None) \<and>
     (u_deleted_at u = None \<or> \<not> u_is_active u) \<and>
     (u_deleted_by_user_id u = None \<or> u_deleted_at u \<noteq> None)"

definition role_checks :: "role \<Rightarrow> bool" where
  "role_checks r \<longleftrightarrow>
     role_columns r \<and>
     0 \<le> r_management_tier r \<and> r_management_tier r \<le> 1000 \<and>
     (r_management_tier r < 1000 \<or> r_is_super_admin r) \<and>
     (r_is_system r \<or> (1 \<le> r_management_tier r \<and> r_management_tier r \<le> 999)) \<and>
     0 \<le> r_version r \<and>
     (\<not> r_is_protected r \<or> r_is_system r) \<and>
     (\<not> r_is_system r \<or> (r_is_active r \<and> r_deleted_at r = None)) \<and>
     (r_deleted_at r = None \<or> \<not> r_is_active r) \<and>
     (r_deleted_by_user_id r = None \<or> r_deleted_at r \<noteq> None) \<and>
     (\<not> r_is_super_admin r \<or> (r_is_system r \<and> r_is_protected r \<and> r_is_active r \<and>
        r_management_tier r = 1000 \<and> r_key r = ''super_admin'' \<and> r_deleted_at r = None)) \<and>
     (r_key r \<noteq> ''super_admin'' \<or> (r_is_system r \<and> r_is_protected r \<and> r_is_super_admin r \<and>
        r_is_active r \<and> r_management_tier r = 1000 \<and> r_deleted_at r = None)) \<and>
     (r_key r \<noteq> ''admin'' \<or> (r_is_system r \<and> \<not> r_is_protected r \<and> \<not> r_is_super_admin r \<and>
        r_is_active r \<and> r_management_tier r = 500 \<and> r_deleted_at r = None)) \<and>
     (r_key r \<noteq> ''user'' \<or> (r_is_system r \<and> \<not> r_is_protected r \<and> \<not> r_is_super_admin r \<and>
        r_is_active r \<and> r_management_tier r = 0 \<and> r_deleted_at r = None))"

lemma role_checks_columns: "role_checks r \<Longrightarrow> role_columns r"
  by (simp add: role_checks_def)

lemma role_checks_super_admin:
  "role_checks r \<Longrightarrow> r_is_super_admin r \<Longrightarrow> r_is_system r \<and> r_is_protected r \<and> r_is_active r \<and>
     r_management_tier r = 1000 \<and> r_key r = ''super_admin'' \<and> live_role r"
  unfolding role_checks_def by blast

lemma role_checks_flags:
  "role_checks r \<Longrightarrow> (r_is_protected r \<longrightarrow> r_is_system r) \<and> (r_is_system r \<longrightarrow> live_role r \<and> r_is_active r) \<and>
     0 \<le> r_management_tier r \<and> r_management_tier r \<le> 1000 \<and>
     (r_is_super_admin r \<or> r_management_tier r < 1000)"
  unfolding role_checks_def by blast

lemma role_checks_keys:
  "role_checks r \<Longrightarrow> (r_key r = ''super_admin'' \<longrightarrow> r_is_super_admin r) \<and>
     (r_key r = ''admin'' \<longrightarrow> r_is_system r) \<and> (r_key r = ''user'' \<longrightarrow> r_is_system r \<and> live_role r)"
  unfolding role_checks_def by blast

definition user_role_checks :: "user_role \<Rightarrow> bool" where
  "user_role_checks ur \<longleftrightarrow> ur_deleted_by_user_id ur = None \<or> ur_deleted_at ur \<noteq> None"

definition role_permission_checks :: "role_permission \<Rightarrow> bool" where
  "role_permission_checks rp \<longleftrightarrow> rp_deleted_by_user_id rp = None \<or> rp_deleted_at rp \<noteq> None"

definition permission_checks :: "permission \<Rightarrow> bool" where
  "permission_checks p \<longleftrightarrow>
     permission_text_columns p \<and> (p_deleted_by_user_id p = None \<or> p_deleted_at p \<noteq> None)"

definition state_checks :: "rbac_state \<Rightarrow> bool" where
  "state_checks s \<longleftrightarrow> 0 \<le> st_epoch s"

definition json_object :: "json option \<Rightarrow> bool" where
  "json_object j \<longleftrightarrow> (case j of None \<Rightarrow> True | Some (J_Obj _) \<Rightarrow> True | _ \<Rightarrow> False)"

definition request_id_format :: "string \<Rightarrow> bool" where
  "request_id_format r \<longleftrightarrow> 1 \<le> length r \<and> length r \<le> 128 \<and> fullmatch REQUEST_ID_RE (lit r)"

definition reason_code_format :: "string \<Rightarrow> bool" where
  "reason_code_format r \<longleftrightarrow> 2 \<le> length r \<and> length r \<le> 80 \<and> fullmatch REASON_RE (lit r)"

definition rbac_audit_checks :: "rbac_audit_event \<Rightarrow> bool" where
  "rbac_audit_checks e \<longleftrightarrow>
     (ev_decision e = ''allowed'' \<or> ev_decision e = ''denied'') \<and>
     ev_source e \<in> {''http'', ''service'', ''job'', ''operator'', ''migration''} \<and>
     ev_schema_version e = 1 \<and>
     request_id_format (ev_request_id e) \<and>
     3 \<le> length (ev_action e) \<and> length (ev_action e) \<le> 120 \<and>
     fullmatch ACTION_RE (lit (ev_action e)) \<and>
     reason_code_format (ev_reason_code e) \<and>
     json_object (ev_before_state e) \<and> json_object (ev_after_state e) \<and>
     column_jsonb (ev_before_state e) \<and> column_jsonb (ev_after_state e)"

definition account_audit_checks :: "account_event \<Rightarrow> bool" where
  "account_audit_checks e \<longleftrightarrow>
     20 \<le> length (ae_action e) \<and> length (ae_action e) \<le> 120 \<and>
     fullmatch ACCOUNT_SECURITY_ACTION_RE (lit (ae_action e)) \<and>
     reason_code_format (ae_reason_code e) \<and>
     ((ae_actor_type e = USER_ACTOR \<and> ae_actor_user_id e \<noteq> None) \<or>
      (ae_actor_type e \<noteq> USER_ACTOR \<and> ae_actor_user_id e = None)) \<and>
     ae_schema_version e = 1 \<and>
     request_id_format (ae_request_id e)"

subsection \<open>Keys, unique indexes and references\<close>

definition live_assignments :: "database \<Rightarrow> uuid \<Rightarrow> user_role list" where
  "live_assignments db uid = filter (\<lambda>ur. ur_user_id ur = uid \<and> live_ur ur) (db_user_roles db)"

definition references_ok :: "database \<Rightarrow> bool" where
  "references_ok db \<longleftrightarrow>
     list_all (\<lambda>ur. ur_user_id ur \<in> u_id ` set (db_users db) \<and> ur_role_id ur \<in> r_id ` set (db_roles db))
       (db_user_roles db) \<and>
     list_all (\<lambda>rp. rp_role_id rp \<in> r_id ` set (db_roles db)
         \<and> rp_permission_id rp \<in> p_id ` set (db_permissions db)) (db_role_permissions db)"

text \<open>The person columns: who assigned or deleted a row is a user.\<close>

definition actors_ok :: "database \<Rightarrow> bool" where
  "actors_ok db \<longleftrightarrow>
     (let ids = u_id ` set (db_users db) in
      list_all (\<lambda>ur. set_option (ur_assigned_by_user_id ur) \<subseteq> ids
         \<and> set_option (ur_deleted_by_user_id ur) \<subseteq> ids) (db_user_roles db) \<and>
      list_all (\<lambda>rp. set_option (rp_assigned_by_user_id rp) \<subseteq> ids
         \<and> set_option (rp_deleted_by_user_id rp) \<subseteq> ids) (db_role_permissions db) \<and>
      list_all (\<lambda>r. set_option (r_deleted_by_user_id r) \<subseteq> ids) (db_roles db) \<and>
      list_all (\<lambda>p. set_option (p_deleted_by_user_id p) \<subseteq> ids) (db_permissions db) \<and>
      list_all (\<lambda>u. set_option (u_deleted_by_user_id u) \<subseteq> ids) (db_users db))"

definition live_pairs_ur :: "user_role list \<Rightarrow> (uuid \<times> uuid) list" where
  "live_pairs_ur urs = map (\<lambda>ur. (ur_user_id ur, ur_role_id ur)) (filter live_ur urs)"

definition live_pairs_rp :: "role_permission list \<Rightarrow> (uuid \<times> uuid) list" where
  "live_pairs_rp rps = map (\<lambda>rp. (rp_role_id rp, rp_permission_id rp)) (filter live_rp rps)"

subsection \<open>The triggers of the migrations\<close>

text \<open>\<open>ct_user_roles_max_ten_live\<close>\<close>

definition max_ten_live :: "database \<Rightarrow> uuid \<Rightarrow> bool" where
  "max_ten_live db uid \<longleftrightarrow> length (live_assignments db uid) \<le> MAX_ROLES_PER_USER"

text \<open>\<open>ct_users_require_base_role\<close> and \<open>ct_user_roles_require_base_role\<close>\<close>

definition has_base_role :: "database \<Rightarrow> uuid \<Rightarrow> bool" where
  "has_base_role db uid \<longleftrightarrow>
     list_ex (\<lambda>u. u_id u = uid \<and> live_user u) (db_users db) \<longrightarrow>
     list_ex (\<lambda>ur. list_ex (\<lambda>r. r_id r = ur_role_id ur \<and> r_key r = ''user'' \<and> live_role r)
        (db_roles db)) (live_assignments db uid)"

text \<open>\<open>ct_user_roles_exactly_one_super_admin\<close>\<close>

definition super_admin_assignments :: "database \<Rightarrow> user_role list" where
  "super_admin_assignments db =
     filter (\<lambda>ur. list_ex (\<lambda>r. r_id r = ur_role_id ur \<and> r_key r = ''super_admin'' \<and> live_role r)
        (db_roles db)) (db_user_roles db)"

definition super_admin_holders :: "database \<Rightarrow> uuid list" where
  "super_admin_holders db = map ur_user_id (filter live_ur (super_admin_assignments db))"

text \<open>\<open>tr_roles_protect_system_definition\<close>: a system role keeps every column but its version.\<close>

definition system_roles_kept :: "database \<Rightarrow> database \<Rightarrow> bool" where
  "system_roles_kept old new \<longleftrightarrow>
     list_all (\<lambda>r. r_is_system r \<longrightarrow>
        list_ex (\<lambda>r'. r'\<lparr>r_version := r_version r\<rparr> = r) (db_roles new)) (db_roles old)"

text \<open>\<open>tr_role_permissions_protect_system_roles\<close>\<close>

definition system_grants :: "database \<Rightarrow> role_permission list" where
  "system_grants db =
     filter (\<lambda>rp. list_ex (\<lambda>r. r_id r = rp_role_id rp \<and> r_is_system r) (db_roles db))
       (db_role_permissions db)"

text \<open>The audit tables are append-only.\<close>

definition appended :: "'e list \<Rightarrow> 'e list \<Rightarrow> bool" where
  "appended old new \<longleftrightarrow> take (length old) new = old"

definition touched :: "database \<Rightarrow> database \<Rightarrow> uuid \<Rightarrow> bool" where
  "touched old new uid \<longleftrightarrow>
     filter (\<lambda>u. u_id u = uid) (db_users old) \<noteq> filter (\<lambda>u. u_id u = uid) (db_users new) \<or>
     filter (\<lambda>ur. ur_user_id ur = uid) (db_user_roles old)
       \<noteq> filter (\<lambda>ur. ur_user_id ur = uid) (db_user_roles new)"

definition row_user_ids :: "database \<Rightarrow> uuid list" where
  "row_user_ids db = map u_id (db_users db) @ map ur_user_id (db_user_roles db)"

subsection \<open>What a commit checks\<close>

text \<open>
  The constraints a commit of \<open>new\<close> over \<open>old\<close> has to satisfy, by name. PostgreSQL raises
  at the first violated one it meets; the code only ever looks for the first of them.
\<close>

definition constraints :: "database \<Rightarrow> database \<Rightarrow> (string \<times> bool) list" where
  "constraints old new =
     [(''uq_users_user_name'', distinct (map u_user_name (db_users new))),
      (''pk_users'', distinct (map u_id (db_users new))),
      (''pk_roles'', distinct (map r_id (db_roles new))),
      (''uq_roles_key'', distinct (map r_key (db_roles new))),
      (''pk_permissions'', distinct (map p_id (db_permissions new))),
      (''uq_permissions_key'', distinct (map p_key (db_permissions new))),
      (''uq_user_roles_live'', distinct (live_pairs_ur (db_user_roles new))),
      (''uq_role_permissions_live'', distinct (live_pairs_rp (db_role_permissions new))),
      (''fk_references'', references_ok new),
      (''fk_actors'', actors_ok new),
      (''ck_users'', list_all user_checks (db_users new)),
      (''ck_roles'', list_all role_checks (db_roles new)),
      (''ck_permissions'', list_all permission_checks (db_permissions new)),
      (''ck_user_roles'', list_all user_role_checks (db_user_roles new)),
      (''ck_role_permissions'', list_all role_permission_checks (db_role_permissions new)),
      (''ck_rbac_state'', (case db_state new of None \<Rightarrow> False | Some s \<Rightarrow> state_checks s)),
      (''ck_rbac_audit_events'', list_all rbac_audit_checks (db_rbac_audit new)),
      (''ck_account_security_audit_events'', list_all account_audit_checks (db_account_audit new)),
      (''ct_user_roles_max_ten_live'',
         list_all (\<lambda>uid. touched old new uid \<longrightarrow> max_ten_live new uid) (row_user_ids new)),
      (''ct_require_base_role'',
         list_all (\<lambda>uid. touched old new uid \<longrightarrow> has_base_role new uid) (row_user_ids new)),
      (''ct_user_roles_exactly_one_super_admin'',
         super_admin_assignments old \<noteq> super_admin_assignments new \<longrightarrow>
         length (super_admin_holders new) = 1),
      (''tr_roles_protect_system_definition'', system_roles_kept old new),
      (''tr_role_permissions_protect_system_roles'', system_grants old = system_grants new),
      (''trg_rbac_audit_events_append_only'', appended (db_rbac_audit old) (db_rbac_audit new)),
      (''trg_account_security_audit_append_only'',
         appended (db_account_audit old) (db_account_audit new))]"

definition violated :: "database \<Rightarrow> database \<Rightarrow> string option" where
  "violated old new =
     (case filter (\<lambda>c. \<not> snd c) (constraints old new) of [] \<Rightarrow> None | c # _ \<Rightarrow> Some (fst c))"

text \<open>
  \<open>async with session.begin()\<close>: the body runs on the database; an exception rolls
  everything back, and so does a constraint that fails at flush or commit.
\<close>

definition transaction ::
    "(database \<Rightarrow> failure + 'a \<times> database) \<Rightarrow> database \<Rightarrow> (failure + 'a) \<times> database" where
  "transaction body db =
     (case body db of
        Inl e \<Rightarrow> (Inl e, db)
      | Inr (x, db') \<Rightarrow>
          (case violated db db' of
             Some name \<Rightarrow> (Inl (Integrity_error name), db)
           | None \<Rightarrow> (Inr x, db')))"

end
