(* ===== verification/Policy.thy ===== *)
theory Policy
  imports Domain
begin

text \<open>
  The decisions of \<open>app/core/security/policy.py\<close>, each a pure function of authority
  snapshots that returns the source's reason code, and the contract they share: what an
  allowed decision says about the actor and about the subjects it touches.
\<close>

record policy_decision =
  allowed :: bool
  decision_reason :: string

definition allow :: policy_decision where
  "allow = \<lparr>allowed = True, decision_reason = ''allowed''\<rparr>"

definition deny :: "string \<Rightarrow> policy_decision" where
  "deny reason = \<lparr>allowed = False, decision_reason = reason\<rparr>"

lemma decision_simps [simp]:
  "allowed allow" "\<not> allowed (deny r)" "decision_reason (deny r) = r"
  "decision_reason allow = ''allowed''"
  by (simp_all add: allow_def deny_def)

definition target_is_within_actor_authority :: "authority_snapshot \<Rightarrow> authority_snapshot \<Rightarrow> bool" where
  "target_is_within_actor_authority actor target \<longleftrightarrow>
     a_permissions target \<subseteq> SUPER_ADMIN_PERMISSION_KEYS \<and>
     a_permissions target \<subseteq> a_permissions actor"

definition role_is_within_actor_authority :: "authority_snapshot \<Rightarrow> role_grant \<Rightarrow> bool" where
  "role_is_within_actor_authority actor role \<longleftrightarrow>
     g_permissions role \<subseteq> SUPER_ADMIN_PERMISSION_KEYS \<and>
     g_permissions role \<subseteq> a_permissions actor"

definition basic_actor_check :: "authority_snapshot \<Rightarrow> permission_key \<Rightarrow> policy_decision option" where
  "basic_actor_check actor required =
     (if permission_value required \<notin> a_permissions actor
      then Some (deny ''missing_operation_permission'')
      else if \<not> a_user_is_active actor then Some (deny ''actor_inactive'')
      else None)"

definition is_administrative_user_visible :: "authority_snapshot \<Rightarrow> authority_snapshot \<Rightarrow> bool" where
  "is_administrative_user_visible actor target \<longleftrightarrow>
     (if a_is_super_admin actor then True
      else a_user_id actor \<noteq> a_user_id target \<and> \<not> a_is_protected target \<and>
           a_management_tier target < a_management_tier actor)"

definition is_administrative_role_visible :: "authority_snapshot \<Rightarrow> role_grant \<Rightarrow> bool" where
  "is_administrative_role_visible actor role \<longleftrightarrow>
     (if a_is_super_admin actor then True
      else \<not> g_is_protected role \<and> \<not> g_is_super_admin role \<and>
           g_management_tier role < a_management_tier actor)"

fun affected_subjects_are_manageable ::
    "authority_snapshot \<Rightarrow> authority_snapshot list \<Rightarrow> policy_decision" where
  "affected_subjects_are_manageable actor [] = allow"
| "affected_subjects_are_manageable actor (subject # rest) =
     (if a_is_protected subject \<or> a_user_id actor = a_user_id subject
      then deny ''affected_subject_not_manageable''
      else if a_management_tier actor \<le> a_management_tier subject
      then deny ''affected_subject_not_strictly_lower''
      else if \<not> target_is_within_actor_authority actor subject
      then deny ''permission_ceiling_exceeded''
      else affected_subjects_are_manageable actor rest)"

datatype role_operation = BIND | UNBIND

text \<open>The loop over the changed roles of \<open>decide_role_change\<close>: its first denial, if any.\<close>

fun changed_roles_denial ::
    "role_operation \<Rightarrow> authority_snapshot \<Rightarrow> role_grant list \<Rightarrow> policy_decision option" where
  "changed_roles_denial operation actor [] = None"
| "changed_roles_denial operation actor (role # rest) =
     (if g_key role = system_role_value SUPER_ADMIN \<or> g_is_protected role
      then Some (deny ''super_admin_assignment_offline_only'')
      else if operation = UNBIND \<and> g_key role = system_role_value USER
      then Some (deny ''default_user_role_required'')
      else if g_key role = system_role_value ADMIN \<and> \<not> a_is_super_admin actor
      then Some (deny ''super_admin_required'')
      else if \<not> role_is_within_actor_authority actor role
      then Some (deny ''permission_ceiling_exceeded'')
      else if a_management_tier actor \<le> g_management_tier role
      then Some (deny ''role_not_strictly_lower'')
      else changed_roles_denial operation actor rest)"

definition role_change_permission :: "role_operation \<Rightarrow> permission_key" where
  "role_change_permission operation = (if operation = BIND then ROLES_ASSIGN else ROLES_REVOKE)"

definition decide_role_change ::
    "role_operation \<Rightarrow> authority_snapshot \<Rightarrow> authority_snapshot \<Rightarrow> authority_snapshot \<Rightarrow>
     role_grant list \<Rightarrow> policy_decision" where
  "decide_role_change operation actor target_before target_after changed_roles =
     (case basic_actor_check actor (role_change_permission operation) of
        Some d \<Rightarrow> d
      | None \<Rightarrow>
        if a_user_id actor = a_user_id target_before then deny ''self_management_forbidden''
        else if operation = BIND \<and> \<not> a_user_is_active target_before then deny ''target_inactive''
        else if a_is_protected target_before then deny ''protected_subject''
        else (case changed_roles_denial operation actor changed_roles of
          Some d \<Rightarrow> d
        | None \<Rightarrow>
          if a_management_tier actor \<le> a_management_tier target_before
          then deny ''target_not_strictly_lower''
          else if a_management_tier actor \<le> a_management_tier target_after
          then deny ''target_not_strictly_lower''
          else if \<not> target_is_within_actor_authority actor target_before
          then deny ''permission_ceiling_exceeded''
          else if \<not> target_is_within_actor_authority actor target_after
          then deny ''permission_ceiling_exceeded''
          else allow))"

definition decide_role_create :: "authority_snapshot \<Rightarrow> int \<Rightarrow> policy_decision" where
  "decide_role_create actor management_tier =
     (case basic_actor_check actor ROLES_CREATE of
        Some d \<Rightarrow> d
      | None \<Rightarrow>
        if management_tier < 1 \<or> management_tier \<ge> 1000 then deny ''custom_role_tier_out_of_range''
        else if a_management_tier actor \<le> management_tier then deny ''role_not_strictly_lower''
        else allow)"

datatype role_administration = UPDATE | ENABLE | DISABLE | DELETE

fun role_administration_permission :: "role_administration \<Rightarrow> permission_key" where
  "role_administration_permission UPDATE = ROLES_UPDATE"
| "role_administration_permission ENABLE = ROLES_STATUS_UPDATE"
| "role_administration_permission DISABLE = ROLES_STATUS_UPDATE"
| "role_administration_permission DELETE = ROLES_DELETE"

definition decide_role_administration ::
    "role_administration \<Rightarrow> authority_snapshot \<Rightarrow> role_grant \<Rightarrow> bool \<Rightarrow> authority_snapshot list \<Rightarrow>
     policy_decision" where
  "decide_role_administration operation actor changed_role actor_holds_role affected =
     (case basic_actor_check actor (role_administration_permission operation) of
        Some d \<Rightarrow> d
      | None \<Rightarrow>
        if g_is_system changed_role then deny ''system_role_immutable''
        else if actor_holds_role then deny ''indirect_self_change_forbidden''
        else if a_management_tier actor \<le> g_management_tier changed_role
        then deny ''role_not_strictly_lower''
        else if \<not> role_is_within_actor_authority actor changed_role
        then deny ''permission_ceiling_exceeded''
        else affected_subjects_are_manageable actor affected)"

definition permissions_change_permission :: "role_operation \<Rightarrow> permission_key" where
  "permissions_change_permission operation =
     (if operation = BIND then ROLES_PERMISSIONS_BIND else ROLES_PERMISSIONS_UNBIND)"

definition decide_role_permissions_change ::
    "role_operation \<Rightarrow> authority_snapshot \<Rightarrow> role_grant \<Rightarrow> string set \<Rightarrow> bool \<Rightarrow>
     authority_snapshot list \<Rightarrow> policy_decision" where
  "decide_role_permissions_change operation actor changed_role_before permission_keys_after
       actor_holds_role affected_after =
     (case basic_actor_check actor (permissions_change_permission operation) of
        Some d \<Rightarrow> d
      | None \<Rightarrow>
        if g_is_system changed_role_before then deny ''system_role_immutable''
        else if actor_holds_role then deny ''indirect_self_change_forbidden''
        else if a_management_tier actor \<le> g_management_tier changed_role_before
        then deny ''role_not_strictly_lower''
        else if \<not> role_is_within_actor_authority actor changed_role_before
        then deny ''permission_ceiling_exceeded''
        else if \<not> permission_keys_after \<subseteq> SUPER_ADMIN_PERMISSION_KEYS
        then deny ''permission_outside_control_plane''
        else if permission_value REGISTRATION_CONFIGURE \<in> permission_keys_after
        then deny ''system_only_permission''
        else if \<not> permission_keys_after \<subseteq> a_permissions actor
        then deny ''permission_ceiling_exceeded''
        else affected_subjects_are_manageable actor affected_after)"

definition decide_user_administration ::
    "authority_snapshot \<Rightarrow> authority_snapshot \<Rightarrow> permission_key \<Rightarrow> policy_decision" where
  "decide_user_administration actor target_before required_permission =
     (case basic_actor_check actor required_permission of
        Some d \<Rightarrow> d
      | None \<Rightarrow>
        if a_user_id actor = a_user_id target_before then deny ''self_management_forbidden''
        else if a_is_protected target_before then deny ''protected_subject''
        else if a_management_tier actor \<le> a_management_tier target_before
        then deny ''target_not_strictly_lower''
        else if \<not> target_is_within_actor_authority actor target_before
        then deny ''permission_ceiling_exceeded''
        else allow)"

definition decide_user_status_change :: "authority_snapshot \<Rightarrow> authority_snapshot \<Rightarrow> policy_decision" where
  "decide_user_status_change actor target_before =
     decide_user_administration actor target_before USERS_STATUS_UPDATE"

definition decide_user_password_reset :: "authority_snapshot \<Rightarrow> authority_snapshot \<Rightarrow> policy_decision" where
  "decide_user_password_reset actor target_before =
     decide_user_administration actor target_before USERS_PASSWORD_RESET"

definition decide_user_sessions_revoke :: "authority_snapshot \<Rightarrow> authority_snapshot \<Rightarrow> policy_decision" where
  "decide_user_sessions_revoke actor target_before =
     decide_user_administration actor target_before USERS_SESSIONS_REVOKE"

lemmas user_decision_defs = decide_user_status_change_def decide_user_password_reset_def
  decide_user_sessions_revoke_def

subsection \<open>What an allowed decision means\<close>

text \<open>The actor strictly dominates a subject: what every administration of a user needs.\<close>

definition dominates :: "authority_snapshot \<Rightarrow> authority_snapshot \<Rightarrow> bool" where
  "dominates actor s \<longleftrightarrow>
     a_user_id actor \<noteq> a_user_id s \<and> \<not> a_is_protected s \<and>
     a_management_tier s < a_management_tier actor \<and> target_is_within_actor_authority actor s"

definition actor_may :: "authority_snapshot \<Rightarrow> permission_key \<Rightarrow> bool" where
  "actor_may actor required \<longleftrightarrow>
     permission_value required \<in> a_permissions actor \<and> a_user_is_active actor"

definition grantable :: "role_operation \<Rightarrow> authority_snapshot \<Rightarrow> role_grant \<Rightarrow> bool" where
  "grantable operation actor role \<longleftrightarrow>
     g_key role \<noteq> ''super_admin'' \<and> \<not> g_is_protected role \<and>
     (operation = UNBIND \<longrightarrow> g_key role \<noteq> ''user'') \<and>
     (g_key role = ''admin'' \<longrightarrow> a_is_super_admin actor) \<and>
     role_is_within_actor_authority actor role \<and>
     g_management_tier role < a_management_tier actor"

definition custom_role_manageable :: "authority_snapshot \<Rightarrow> role_grant \<Rightarrow> bool" where
  "custom_role_manageable actor role \<longleftrightarrow>
     \<not> g_is_system role \<and> g_management_tier role < a_management_tier actor \<and>
     role_is_within_actor_authority actor role"

lemma basic_actor_check_None: "basic_actor_check actor p = None \<longleftrightarrow> actor_may actor p"
  by (simp add: basic_actor_check_def actor_may_def)

lemma basic_actor_check_Some: "basic_actor_check actor p = Some d \<Longrightarrow> \<not> allowed d"
  by (auto simp: basic_actor_check_def split: if_splits)

lemma changed_roles_denial_None:
  "changed_roles_denial operation actor roles = None \<longleftrightarrow>
     (\<forall>role \<in> set roles. grantable operation actor role)"
  by (induction operation actor roles rule: changed_roles_denial.induct)
     (auto simp: grantable_def)

lemma changed_roles_denial_Some:
  "changed_roles_denial operation actor roles = Some d \<Longrightarrow> \<not> allowed d"
  by (induction operation actor roles rule: changed_roles_denial.induct)
     (auto split: if_splits)

lemma affected_subjects_allowed:
  "allowed (affected_subjects_are_manageable actor subjects) \<longleftrightarrow>
     (\<forall>s \<in> set subjects. dominates actor s)"
  by (induction actor subjects rule: affected_subjects_are_manageable.induct)
     (auto simp: dominates_def)

text \<open>Reading an allowed decision off a chain of early returns.\<close>

lemma allowed_after_check:
  "allowed (case basic_actor_check actor p of Some d \<Rightarrow> d | None \<Rightarrow> rest) \<longleftrightarrow>
     actor_may actor p \<and> allowed rest"
  using basic_actor_check_None [of actor p] basic_actor_check_Some [of actor p]
  by (cases "basic_actor_check actor p") auto

lemma allowed_after_roles:
  "allowed (case changed_roles_denial operation actor roles of Some d \<Rightarrow> d | None \<Rightarrow> rest) \<longleftrightarrow>
     (\<forall>role \<in> set roles. grantable operation actor role) \<and> allowed rest"
  using changed_roles_denial_None [of operation actor roles]
    changed_roles_denial_Some [of operation actor roles]
  by (cases "changed_roles_denial operation actor roles") auto

lemma allowed_if_deny: "allowed (if b then deny r else rest) \<longleftrightarrow> \<not> b \<and> allowed rest"
  by simp

lemmas allowed_chain = allowed_after_check allowed_after_roles allowed_if_deny
  affected_subjects_allowed decision_simps

text \<open>Each decision allows exactly the situations its contract names.\<close>

lemma decide_role_change_allowed:
  "allowed (decide_role_change operation actor before after roles) \<longleftrightarrow>
     actor_may actor (role_change_permission operation) \<and>
     (operation = BIND \<longrightarrow> a_user_is_active before) \<and>
     dominates actor before \<and>
     (\<forall>role \<in> set roles. grantable operation actor role) \<and>
     a_management_tier after < a_management_tier actor \<and>
     target_is_within_actor_authority actor after"
  unfolding decide_role_change_def allowed_chain dominates_def not_le by auto

lemma decide_role_create_allowed:
  "allowed (decide_role_create actor tier) \<longleftrightarrow>
     actor_may actor ROLES_CREATE \<and> 1 \<le> tier \<and> tier \<le> 999 \<and> tier < a_management_tier actor"
  unfolding decide_role_create_def allowed_chain by auto

lemma decide_role_administration_allowed:
  "allowed (decide_role_administration operation actor role holds affected) \<longleftrightarrow>
     actor_may actor (role_administration_permission operation) \<and> \<not> holds \<and>
     custom_role_manageable actor role \<and> (\<forall>s \<in> set affected. dominates actor s)"
  unfolding decide_role_administration_def allowed_chain custom_role_manageable_def not_le
  by blast

lemma decide_role_permissions_change_allowed:
  "allowed (decide_role_permissions_change operation actor role keys holds affected) \<longleftrightarrow>
     actor_may actor (permissions_change_permission operation) \<and> \<not> holds \<and>
     custom_role_manageable actor role \<and>
     keys \<subseteq> SUPER_ADMIN_PERMISSION_KEYS \<and> ''registration:configure'' \<notin> keys \<and>
     keys \<subseteq> a_permissions actor \<and> (\<forall>s \<in> set affected. dominates actor s)"
  unfolding decide_role_permissions_change_def allowed_chain custom_role_manageable_def not_le
    permission_value.simps
  by blast

lemma decide_user_administration_allowed:
  "allowed (decide_user_administration actor target required) \<longleftrightarrow>
     actor_may actor required \<and> dominates actor target"
  unfolding decide_user_administration_def allowed_chain dominates_def not_le by auto

lemma dominates_asym: "dominates a b \<Longrightarrow> \<not> dominates b a"
  by (auto simp: dominates_def)

lemma dominates_trans_tier:
  "dominates a b \<Longrightarrow> dominates b c \<Longrightarrow> a_management_tier c < a_management_tier a"
  by (auto simp: dominates_def)

lemma dominates_visible: "dominates actor s \<Longrightarrow> is_administrative_user_visible actor s"
  by (auto simp: dominates_def is_administrative_user_visible_def)

subsection \<open>The contract shared by the decisions on subjects\<close>

text \<open>
  A request names its actor, the permission it needs and the subjects it touches. A
  decision keeps the contract when it only allows an active actor that holds the
  permission and strictly dominates every subject.
\<close>

locale administration =
  fixes decide :: "'q \<Rightarrow> policy_decision"
    and actor_of :: "'q \<Rightarrow> authority_snapshot"
    and required_of :: "'q \<Rightarrow> permission_key"
    and subjects_of :: "'q \<Rightarrow> authority_snapshot set"
  assumes allowed_actor: "allowed (decide q) \<Longrightarrow> actor_may (actor_of q) (required_of q)"
    and allowed_subjects: "allowed (decide q) \<Longrightarrow> s \<in> subjects_of q \<Longrightarrow> dominates (actor_of q) s"
begin

lemma never_self:
  "allowed (decide q) \<Longrightarrow> s \<in> subjects_of q \<Longrightarrow> a_user_id s \<noteq> a_user_id (actor_of q)"
  using allowed_subjects [of q s] by (auto simp: dominates_def)

lemma never_protected: "allowed (decide q) \<Longrightarrow> s \<in> subjects_of q \<Longrightarrow> \<not> a_is_protected s"
  using allowed_subjects [of q s] by (auto simp: dominates_def)

lemma only_visible:
  "allowed (decide q) \<Longrightarrow> s \<in> subjects_of q \<Longrightarrow> is_administrative_user_visible (actor_of q) s"
  using allowed_subjects dominates_visible by blast

lemma never_mutual:
  "allowed (decide q) \<Longrightarrow> s \<in> subjects_of q \<Longrightarrow>
   allowed (decide q') \<Longrightarrow> actor_of q' = s \<Longrightarrow> actor_of q \<notin> subjects_of q'"
  using allowed_subjects dominates_asym by blast

lemma permission_missing_denied:
  "permission_value (required_of q) \<notin> a_permissions (actor_of q) \<Longrightarrow> \<not> allowed (decide q)"
  using allowed_actor [of q] by (auto simp: actor_may_def)

end

interpretation user_status: administration
  "\<lambda>(a, t). decide_user_status_change a t" fst "\<lambda>_. USERS_STATUS_UPDATE" "\<lambda>(a, t). {t}"
  by unfold_locales (auto simp: user_decision_defs decide_user_administration_allowed)

interpretation user_reset: administration
  "\<lambda>(a, t). decide_user_password_reset a t" fst "\<lambda>_. USERS_PASSWORD_RESET" "\<lambda>(a, t). {t}"
  by unfold_locales (auto simp: user_decision_defs decide_user_administration_allowed)

interpretation user_sessions: administration
  "\<lambda>(a, t). decide_user_sessions_revoke a t" fst "\<lambda>_. USERS_SESSIONS_REVOKE" "\<lambda>(a, t). {t}"
  by unfold_locales (auto simp: user_decision_defs decide_user_administration_allowed)

interpretation role_change: administration
  "\<lambda>(oper, a, before, after, roles). decide_role_change oper a before after roles"
  "\<lambda>(oper, a, before, after, roles). a"
  "\<lambda>(oper, a, before, after, roles). role_change_permission oper"
  "\<lambda>(oper, a, before, after, roles). {before}"
  by unfold_locales (auto simp: decide_role_change_allowed)

interpretation role_admin: administration
  "\<lambda>(oper, a, role, holds, affected). decide_role_administration oper a role holds affected"
  "\<lambda>(oper, a, role, holds, affected). a"
  "\<lambda>(oper, a, role, holds, affected). role_administration_permission oper"
  "\<lambda>(oper, a, role, holds, affected). set affected"
  by unfold_locales (auto simp: decide_role_administration_allowed)

interpretation role_permissions: administration
  "\<lambda>(oper, a, role, keys, holds, affected).
      decide_role_permissions_change oper a role keys holds affected"
  "\<lambda>(oper, a, role, keys, holds, affected). a"
  "\<lambda>(oper, a, role, keys, holds, affected). permissions_change_permission oper"
  "\<lambda>(oper, a, role, keys, holds, affected). set affected"
  by unfold_locales (auto simp: decide_role_permissions_change_allowed)

end
