(* ===== verification/Repository.thy ===== *)
theory Repository
  imports Schema Policy
begin

text \<open>
  The queries of \<open>app/repositories/access.py\<close> and the projections of
  \<open>app/services/access_projections.py\<close> over the tables of \<open>Schema\<close>, and the proof that
  the authority they accumulate row by row is the authority the tables define.
  Rows are locked under the global \<open>rbac_state\<close> row, so a query reads one database value.
\<close>

subsection \<open>Accumulating role rows\<close>

record role_accumulator =
  acc_role_id :: uuid
  acc_key :: string
  acc_management_tier :: int
  acc_is_system :: bool
  acc_is_protected :: bool
  acc_is_super_admin :: bool
  acc_permissions :: "string set"

definition new_accumulator :: "role \<Rightarrow> role_accumulator" where
  "new_accumulator r =
     \<lparr>acc_role_id = r_id r, acc_key = r_key r, acc_management_tier = r_management_tier r,
      acc_is_system = r_is_system r, acc_is_protected = r_is_protected r,
      acc_is_super_admin = r_is_super_admin r, acc_permissions = {}\<rparr>"

definition freeze :: "role_accumulator \<Rightarrow> role_grant" where
  "freeze a =
     \<lparr>g_role_id = acc_role_id a, g_key = acc_key a, g_management_tier = acc_management_tier a,
      g_permissions = acc_permissions a, g_is_system = acc_is_system a,
      g_is_protected = acc_is_protected a, g_is_super_admin = acc_is_super_admin a\<rparr>"

type_synonym accumulators = "(uuid \<times> role_accumulator) list"

text \<open>One row of a role query: \<open>setdefault\<close>, then the permission key unless it is NULL.\<close>

definition accumulate :: "role \<times> string option \<Rightarrow> accumulators \<Rightarrow> accumulators" where
  "accumulate row accs =
     (let r = fst row;
          a = (case map_of accs (r_id r) of None \<Rightarrow> new_accumulator r | Some a \<Rightarrow> a);
          a = (case snd row of None \<Rightarrow> a
               | Some k \<Rightarrow> a\<lparr>acc_permissions := insert k (acc_permissions a)\<rparr>)
      in AList.update (r_id r) a accs)"

definition frozen_roles :: "accumulators \<Rightarrow> role_grant list" where
  "frozen_roles accs = map (\<lambda>p. freeze (snd p)) accs"

subsection \<open>The joins\<close>

text \<open>
  \<open>LEFT JOIN role_permissions\<close> on live rows, then \<open>LEFT JOIN permissions\<close> on live rows:
  the permission keys of a role, with one NULL row where nothing matches.
\<close>

definition permission_of :: "database \<Rightarrow> role_permission \<Rightarrow> permission list" where
  "permission_of db rp =
     filter (\<lambda>p. p_id p = rp_permission_id rp \<and> live_permission p) (db_permissions db)"

definition grants_of :: "database \<Rightarrow> uuid \<Rightarrow> role_permission list" where
  "grants_of db role_id =
     filter (\<lambda>rp. rp_role_id rp = role_id \<and> live_rp rp) (db_role_permissions db)"

definition outer_join :: "'b list \<Rightarrow> 'b option list" where
  "outer_join xs = (if xs = [] then [None] else map Some xs)"

definition permission_columns :: "database \<Rightarrow> uuid \<Rightarrow> string option list" where
  "permission_columns db role_id =
     concat (map (\<lambda>orp. case orp of None \<Rightarrow> [None]
        | Some rp \<Rightarrow> map (map_option p_key) (outer_join (permission_of db rp)))
       (outer_join (grants_of db role_id)))"

text \<open>
  The rows of the three authority queries: live assignments of the wanted users joined
  with their live roles, filtered, ordered by user and role (the order of the permission
  keys within a role does not matter: they end in a set).
\<close>

definition role_rows ::
    "database \<Rightarrow> (uuid \<Rightarrow> bool) \<Rightarrow> (role \<Rightarrow> bool) \<Rightarrow> (uuid \<times> role \<times> string option) list" where
  "role_rows db wanted keep =
     sort_key fst (sort_key (\<lambda>row. r_id (fst (snd row)))
       (concat (map (\<lambda>ur.
          concat (map (\<lambda>r. map (\<lambda>k. (ur_user_id ur, r, k)) (permission_columns db (r_id r)))
            (filter (\<lambda>r. r_id r = ur_role_id ur \<and> live_role r \<and> keep r) (db_roles db))))
        (filter (\<lambda>ur. wanted (ur_user_id ur) \<and> live_ur ur) (db_user_roles db)))))"

text \<open>\<open>effective_roles[user_id]\<close> for one user after the loop over the rows.\<close>

definition accumulate_rows :: "(uuid \<times> role \<times> string option) list \<Rightarrow> uuid \<Rightarrow> accumulators" where
  "accumulate_rows rows uid = fold accumulate (map snd (filter (\<lambda>row. fst row = uid) rows)) []"

subsection \<open>Grants\<close>

definition permission_key_set :: "database \<Rightarrow> uuid \<Rightarrow> string set" where
  "permission_key_set db role_id =
     set (concat (map (\<lambda>rp. map p_key (permission_of db rp)) (grants_of db role_id)))"

definition load_role_grants_for_roles :: "database \<Rightarrow> role list \<Rightarrow> (uuid \<times> role_grant) list" where
  "load_role_grants_for_roles db roles =
     (let accs = fold (\<lambda>r. AList.update (r_id r) (new_accumulator r)) roles []
      in map (\<lambda>(i, a). (i, freeze (a\<lparr>acc_permissions := permission_key_set db i\<rparr>))) accs)"

definition load_role_grant :: "database \<Rightarrow> uuid \<Rightarrow> bool \<Rightarrow> bool \<Rightarrow> failure + role_grant" where
  "load_role_grant db role_id include_disabled include_deleted =
     (case find (\<lambda>r. r_id r = role_id \<and> (include_deleted \<or> live_role r)) (db_roles db) of
        None \<Rightarrow> Inl (Rbac (not_found ''role_not_found''))
      | Some r \<Rightarrow>
          if \<not> include_disabled \<and> \<not> r_is_active r then Inl (Rbac (not_found ''role_not_found''))
          else Inr (freeze ((new_accumulator r)\<lparr>acc_permissions := permission_key_set db role_id\<rparr>)))"

subsection \<open>Authority of users\<close>

definition load_authority_snapshots_for_users ::
    "database \<Rightarrow> user list \<Rightarrow> bool \<Rightarrow> (uuid \<times> authority_snapshot) list" where
  "load_authority_snapshots_for_users db users include_disabled_roles =
     (let rows = role_rows db (\<lambda>i. i \<in> u_id ` set users) (\<lambda>r. include_disabled_roles \<or> r_is_active r)
      in map (\<lambda>u. (u_id u, build (u_id u) (u_is_active u) (u_is_protected u) (u_token_version u)
             (u_authz_version u) (frozen_roles (accumulate_rows rows (u_id u))))) users)"

definition load_authority_snapshot :: "database \<Rightarrow> uuid \<Rightarrow> bool \<Rightarrow> failure + authority_snapshot" where
  "load_authority_snapshot db user_id include_disabled_roles =
     (case find (\<lambda>u. u_id u = user_id \<and> live_user u) (db_users db) of
        None \<Rightarrow> Inl (Rbac (not_found ''user_not_found''))
      | Some u \<Rightarrow>
          (case map_of (load_authority_snapshots_for_users db [u] include_disabled_roles) user_id of
             None \<Rightarrow> Inl Key_error | Some s \<Rightarrow> Inr s))"

definition load_role_grants_for_user :: "database \<Rightarrow> uuid \<Rightarrow> bool \<Rightarrow> role_grant list" where
  "load_role_grants_for_user db user_id include_disabled_roles =
     frozen_roles (accumulate_rows
       (role_rows db (\<lambda>i. i = user_id) (\<lambda>r. include_disabled_roles \<or> r_is_active r)) user_id)"

subsection \<open>Views limited to what the actor may see\<close>

record user_access_view =
  v_user_name :: pystr
  v_assigned_role_ids :: "uuid list"
  v_authority :: authority_snapshot

definition actor_is_super_admin :: "authority_snapshot \<Rightarrow> bool" where
  "actor_is_super_admin actor \<longleftrightarrow>
     list_ex (\<lambda>r. g_key r = system_role_value SUPER_ADMIN \<and> g_is_super_admin r) (a_roles actor)"

definition role_visible_to :: "authority_snapshot \<Rightarrow> role \<Rightarrow> bool" where
  "role_visible_to actor r \<longleftrightarrow>
     actor_is_super_admin actor \<or>
     (r_management_tier r < a_management_tier actor \<and> \<not> r_is_protected r \<and> \<not> r_is_super_admin r)"

definition load_user_access_views ::
    "database \<Rightarrow> user list \<Rightarrow> authority_snapshot \<Rightarrow> (uuid \<times> user_access_view) list" where
  "load_user_access_views db users actor =
     (let rows = role_rows db (\<lambda>i. i \<in> u_id ` set users) (role_visible_to actor);
          active = filter (\<lambda>row. r_is_active (fst (snd row))) rows
      in map (\<lambda>u. (u_id u,
           \<lparr>v_user_name = u_user_name u,
            v_assigned_role_ids = sorted_list_of_set
              (set (map (\<lambda>row. r_id (fst (snd row))) (filter (\<lambda>row. fst row = u_id u) rows))),
            v_authority = build (u_id u) (u_is_active u) (u_is_protected u) (u_token_version u)
              (u_authz_version u) (frozen_roles (accumulate_rows active (u_id u)))\<rparr>)) users)"

text \<open>
  \<open>_select_visible_users\<close>: the subquery aggregates the live, active roles of each user;
  a user without any gets the coalesced values.
\<close>

definition active_roles_of :: "database \<Rightarrow> uuid \<Rightarrow> role list" where
  "active_roles_of db uid =
     concat (map (\<lambda>ur. filter (\<lambda>r. r_id r = ur_role_id ur \<and> r_is_active r \<and> live_role r) (db_roles db))
       (live_assignments db uid))"

definition select_visible_users :: "database \<Rightarrow> authority_snapshot \<Rightarrow> user list" where
  "select_visible_users db actor =
     filter (\<lambda>u. live_user u \<and>
       (actor_is_super_admin actor \<or>
        (u_id u \<noteq> a_user_id actor \<and> \<not> u_is_protected u \<and>
         \<not> list_ex r_is_protected (active_roles_of db (u_id u)) \<and>
         max_default 0 (map r_management_tier (active_roles_of db (u_id u)))
           < a_management_tier actor))) (db_users db)"

definition select_visible_roles :: "database \<Rightarrow> authority_snapshot \<Rightarrow> role list" where
  "select_visible_roles db actor =
     filter (\<lambda>r. live_role r \<and> role_visible_to actor r) (db_roles db)"

definition page_of :: "int \<Rightarrow> int \<Rightarrow> 'r list \<Rightarrow> 'r list" where
  "page_of page page_size rows = take (nat page_size) (drop (nat ((page - 1) * page_size)) rows)"

text \<open>\<open>collate\<close> stands for the collation the database compares text keys with.\<close>

definition list_visible_roles_page ::
    "(string \<Rightarrow> 'k::linorder) \<Rightarrow> database \<Rightarrow> authority_snapshot \<Rightarrow> int \<Rightarrow> int \<Rightarrow> role list \<times> nat" where
  "list_visible_roles_page collate db actor page page_size =
     (let visible = select_visible_roles db actor
      in (page_of page page_size (sort_key (\<lambda>r. collate (r_key r)) (sort_key r_id visible)),
          length visible))"

definition load_visible_role :: "database \<Rightarrow> authority_snapshot \<Rightarrow> uuid \<Rightarrow> role option" where
  "load_visible_role db actor role_id =
     find (\<lambda>r. r_id r = role_id) (select_visible_roles db actor)"

definition list_visible_users_page ::
    "database \<Rightarrow> authority_snapshot \<Rightarrow> int \<Rightarrow> int \<Rightarrow> pystr option \<Rightarrow> user list \<times> nat" where
  "list_visible_users_page db actor page page_size user_name =
     (let visible = select_visible_users db actor;
          visible = (case user_name of None \<Rightarrow> visible
                     | Some n \<Rightarrow> filter (\<lambda>u. u_user_name u = n) visible)
      in (page_of page page_size (sort_key u_id visible), length visible))"

definition load_visible_user :: "database \<Rightarrow> authority_snapshot \<Rightarrow> uuid \<Rightarrow> user option" where
  "load_visible_user db actor user_id =
     find (\<lambda>u. u_id u = user_id) (select_visible_users db actor)"

subsection \<open>Counts, locks and lookups\<close>

definition count_live_user_roles :: "database \<Rightarrow> uuid \<Rightarrow> nat" where
  "count_live_user_roles db user_id = length (live_assignments db user_id)"

definition load_live_super_admin_holder_ids :: "database \<Rightarrow> uuid set" where
  "load_live_super_admin_holder_ids db =
     set (map ur_user_id (filter (\<lambda>ur. live_ur ur \<and>
        list_ex (\<lambda>r. r_id r = ur_role_id ur \<and> live_role r
          \<and> r_key r = system_role_value SUPER_ADMIN) (db_roles db)) (db_user_roles db)))"

definition lock_rbac_state :: "database \<Rightarrow> failure + rbac_state" where
  "lock_rbac_state db =
     (case db_state db of None \<Rightarrow> Inl (Rbac (unavailable ''rbac_state_missing''))
      | Some s \<Rightarrow> Inr s)"

definition lock_users :: "database \<Rightarrow> uuid set \<Rightarrow> (uuid \<times> user) list" where
  "lock_users db user_ids =
     map (\<lambda>u. (u_id u, u)) (sort_key u_id
       (filter (\<lambda>u. u_id u \<in> user_ids \<and> live_user u) (db_users db)))"

definition lock_roles :: "database \<Rightarrow> uuid set \<Rightarrow> (uuid \<times> role) list" where
  "lock_roles db role_ids =
     map (\<lambda>r. (r_id r, r)) (sort_key r_id
       (filter (\<lambda>r. r_id r \<in> role_ids \<and> live_role r) (db_roles db)))"

definition lock_role_permissions :: "database \<Rightarrow> uuid \<Rightarrow> (string \<times> role_permission) list" where
  "lock_role_permissions db role_id =
     fold (\<lambda>(k, rp). AList.update k rp)
       (concat (map (\<lambda>rp. map (\<lambda>p. (p_key p, rp)) (permission_of db rp)) (grants_of db role_id))) []"

definition require_current_actor :: "database \<Rightarrow> uuid \<Rightarrow> int \<Rightarrow> failure + authority_snapshot" where
  "require_current_actor db actor_user_id token_version =
     (case find (\<lambda>u. u_id u = actor_user_id \<and> live_user u) (db_users db) of
        None \<Rightarrow> Inl (Rbac (unauthenticated ''actor_no_longer_active''))
      | Some u \<Rightarrow>
          if \<not> u_is_active u \<or> u_token_version u \<noteq> token_version
          then Inl (Rbac (unauthenticated ''actor_no_longer_active''))
          else load_authority_snapshot db actor_user_id False)"

definition load_permission_ids :: "database \<Rightarrow> string set \<Rightarrow> (string \<times> uuid) list" where
  "load_permission_ids db permission_keys =
     fold (\<lambda>p. AList.update (p_key p) (p_id p))
       (filter (\<lambda>p. p_key p \<in> permission_keys \<and> live_permission p) (db_permissions db)) []"

definition load_permission_keys :: "database \<Rightarrow> uuid set \<Rightarrow> (uuid \<times> string) list" where
  "load_permission_keys db permission_ids =
     fold (\<lambda>p. AList.update (p_id p) (p_key p))
       (filter (\<lambda>p. p_id p \<in> permission_ids \<and> live_permission p) (db_permissions db)) []"

subsection \<open>Projections\<close>

record role_response =
  rr_id :: uuid
  rr_key :: string
  rr_name :: pystr
  rr_description :: pystr
  rr_management_tier :: int
  rr_is_active :: bool
  rr_is_system :: bool
  rr_is_protected :: bool
  rr_permissions :: "string list"
  rr_version :: int
  rr_deleted_at :: "int option"

definition role_response :: "role \<Rightarrow> string set \<Rightarrow> role_response" where
  "role_response r permissions =
     \<lparr>rr_id = r_id r, rr_key = r_key r, rr_name = r_name r, rr_description = r_description r,
      rr_management_tier = r_management_tier r, rr_is_active = r_is_active r,
      rr_is_system = r_is_system r, rr_is_protected = r_is_protected r,
      rr_permissions = sorted_list_of_set permissions, rr_version = r_version r,
      rr_deleted_at = r_deleted_at r\<rparr>"

record user_response =
  us_id :: uuid
  us_user_name :: pystr
  us_is_active :: bool
  us_assigned_role_ids :: "uuid list"
  us_effective_role_ids :: "uuid list"
  us_effective_management_tier :: int
  us_effective_permissions :: "string list"
  us_authz_version :: int

definition user_response :: "user_access_view \<Rightarrow> user_response" where
  "user_response access =
     (let authority = v_authority access in
     \<lparr>us_id = a_user_id authority, us_user_name = v_user_name access,
      us_is_active = a_user_is_active authority,
      us_assigned_role_ids = v_assigned_role_ids access,
      us_effective_role_ids = map g_role_id (a_roles authority),
      us_effective_management_tier = a_management_tier authority,
      us_effective_permissions = sorted_list_of_set (a_permissions authority),
      us_authz_version = a_authz_version authority\<rparr>)"

end
