(* ===== verification/Repository_Laws.thy ===== *)
theory Repository_Laws
  imports Repository
begin

text \<open>
  What the queries of \<open>Repository\<close> compute. \<open>authority_spec\<close> states the authority of a
  user directly on the tables; the row-by-row accumulation of the code is proved equal to
  it, and the SQL visibility filters are proved equal to the policy predicates.
\<close>

subsection \<open>The authority the tables define\<close>

definition role_grant_of :: "database \<Rightarrow> role \<Rightarrow> role_grant" where
  "role_grant_of db r =
     \<lparr>g_role_id = r_id r, g_key = r_key r, g_management_tier = r_management_tier r,
      g_permissions = permission_key_set db (r_id r), g_is_system = r_is_system r,
      g_is_protected = r_is_protected r, g_is_super_admin = r_is_super_admin r\<rparr>"

definition assigned :: "database \<Rightarrow> uuid \<Rightarrow> role \<Rightarrow> bool" where
  "assigned db uid r \<longleftrightarrow> r_id r \<in> ur_role_id ` set (live_assignments db uid)"

definition roles_of :: "database \<Rightarrow> (role \<Rightarrow> bool) \<Rightarrow> uuid \<Rightarrow> role list" where
  "roles_of db keep uid = filter (\<lambda>r. live_role r \<and> keep r \<and> assigned db uid r) (db_roles db)"

definition authority_with :: "database \<Rightarrow> (role \<Rightarrow> bool) \<Rightarrow> user \<Rightarrow> authority_snapshot" where
  "authority_with db keep u =
     build (u_id u) (u_is_active u) (u_is_protected u) (u_token_version u) (u_authz_version u)
       (map (role_grant_of db) (roles_of db keep (u_id u)))"

definition authority_spec :: "database \<Rightarrow> bool \<Rightarrow> user \<Rightarrow> authority_snapshot" where
  "authority_spec db include_disabled u =
     authority_with db (\<lambda>r. include_disabled \<or> r_is_active r) u"

text \<open>The primary keys and unique live indexes the queries rely on.\<close>

definition keys_ok :: "database \<Rightarrow> bool" where
  "keys_ok db \<longleftrightarrow>
     distinct (map u_id (db_users db)) \<and> distinct (map r_id (db_roles db)) \<and>
     distinct (map p_id (db_permissions db)) \<and> distinct (map p_key (db_permissions db)) \<and>
     distinct (live_pairs_ur (db_user_roles db)) \<and>
     distinct (live_pairs_rp (db_role_permissions db))"

lemma role_grant_of_simps [simp]:
  "g_role_id (role_grant_of db r) = r_id r" "g_key (role_grant_of db r) = r_key r"
  "g_management_tier (role_grant_of db r) = r_management_tier r"
  "g_permissions (role_grant_of db r) = permission_key_set db (r_id r)"
  "g_is_system (role_grant_of db r) = r_is_system r"
  "g_is_protected (role_grant_of db r) = r_is_protected r"
  "g_is_super_admin (role_grant_of db r) = r_is_super_admin r"
  by (simp_all add: role_grant_of_def)

lemma freeze_new_accumulator:
  "freeze ((new_accumulator r)\<lparr>acc_permissions := permission_key_set db (r_id r)\<rparr>)
     = role_grant_of db r"
  by (simp add: freeze_def new_accumulator_def role_grant_of_def)

subsection \<open>Accumulation\<close>

lemma accumulate_keys: "fst ` set (accumulate row accs) = insert (r_id (fst row)) (fst ` set accs)"
  by (simp add: accumulate_def Let_def dom_update)

lemma accumulate_distinct: "distinct (map fst accs) \<Longrightarrow> distinct (map fst (accumulate row accs))"
  by (simp add: accumulate_def Let_def distinct_update)

lemma fold_accumulate_keys:
  "distinct (map fst accs) \<Longrightarrow> distinct (map fst (fold accumulate rows accs)) \<and>
     fst ` set (fold accumulate rows accs) = r_id ` fst ` set rows \<union> fst ` set accs"
  by (induction rows arbitrary: accs) (auto simp: accumulate_keys accumulate_distinct)

text \<open>After the loop, each role carries its own columns and exactly the keys of its rows.\<close>

lemma map_of_accumulate:
  "map_of (accumulate (r, k) accs) i =
     (if i = r_id r
      then Some (let a = (case map_of accs (r_id r) of None \<Rightarrow> new_accumulator r | Some a \<Rightarrow> a)
                 in case k of None \<Rightarrow> a | Some k \<Rightarrow> a\<lparr>acc_permissions := insert k (acc_permissions a)\<rparr>)
      else map_of accs i)"
  by (simp add: accumulate_def Let_def update_conv')

lemma keys_of_row_snoc:
  "{k'. (r, Some k') \<in> set (rows @ [(r, k)])} =
     (case k of None \<Rightarrow> {} | Some k \<Rightarrow> {k}) \<union> {k'. (r, Some k') \<in> set rows}"
  by (auto split: option.split)

lemma accumulate_permissions:
  "(case k of None \<Rightarrow> a | Some k \<Rightarrow> a\<lparr>acc_permissions := insert k (acc_permissions a)\<rparr>)
     = a\<lparr>acc_permissions := (case k of None \<Rightarrow> {} | Some k \<Rightarrow> {k}) \<union> acc_permissions a\<rparr>"
  by (simp split: option.split)

lemma fold_accumulate_map:
  assumes "\<forall>row \<in> set rows. fst row = rho (r_id (fst row))"
  shows "map_of (fold accumulate rows []) i =
    (if i \<in> r_id ` fst ` set rows
     then Some ((new_accumulator (rho i))\<lparr>acc_permissions := {k. (rho i, Some k) \<in> set rows}\<rparr>)
     else None)"
  using assms
proof (induction rows arbitrary: i rule: rev_induct)
  case (snoc row rows)
  obtain r k where row: "row = (r, k)" by (cases row)
  have r: "rho (r_id r) = r" and IH: "map_of (fold accumulate rows []) j =
    (if j \<in> r_id ` fst ` set rows
     then Some ((new_accumulator (rho j))\<lparr>acc_permissions := {k. (rho j, Some k) \<in> set rows}\<rparr>)
     else None)" for j
    using snoc row by simp_all
  have absent: "{k'. (r, Some k') \<in> set rows} = {}" if "r_id r \<notin> r_id ` fst ` set rows"
  proof -
    have "r \<notin> fst ` set rows" using that by blast
    then show ?thesis by force
  qed
  show ?case
  proof (cases "i = r_id r")
    case True
    have "(case map_of (fold accumulate rows []) (r_id r) of None \<Rightarrow> new_accumulator r | Some a \<Rightarrow> a)
      = (new_accumulator r)\<lparr>acc_permissions := {k'. (r, Some k') \<in> set rows}\<rparr>"
      by (cases "r_id r \<in> r_id ` fst ` set rows")
         (simp_all add: IH r absent, simp add: new_accumulator_def)
    moreover have "r_id r \<in> r_id ` fst ` set (rows @ [(r, k)])"
      by simp
    ultimately show ?thesis
      using True r unfolding row
      by (simp add: map_of_accumulate accumulate_permissions keys_of_row_snoc del: set_append)
  next
    case False
    have "rho i \<noteq> r" if i: "i \<in> r_id ` fst ` set rows"
    proof -
      obtain row' where row': "row' \<in> set rows" "i = r_id (fst row')" using i by auto
      then have "r_id (rho i) = i" using snoc.prems by simp
      with False show ?thesis by auto
    qed
    with False show ?thesis
      by (simp add: row map_of_accumulate IH)
  qed
qed simp

lemma outer_join_nonempty: "outer_join xs \<noteq> []"
  by (simp add: outer_join_def)

lemma permission_columns_nonempty: "permission_columns db i \<noteq> []"
  by (cases "outer_join (grants_of db i)")
     (auto simp: permission_columns_def outer_join_nonempty split: option.splits)

lemma Some_in_permission_columns:
  "Some k \<in> set (permission_columns db i) \<longleftrightarrow> k \<in> permission_key_set db i"
  by (auto simp: permission_columns_def permission_key_set_def outer_join_def
      split: option.splits if_splits) (force+)?

lemma set_role_rows:
  "(uid, r, k) \<in> set (role_rows db wanted keep) \<longleftrightarrow>
     wanted uid \<and> r \<in> set (roles_of db keep uid) \<and> k \<in> set (permission_columns db (r_id r))"
  by (auto simp: role_rows_def roles_of_def assigned_def live_assignments_def image_iff)

text \<open>The rows of one user accumulate to the grants of that user's roles.\<close>

lemma accumulate_rows_grants:
  assumes keys: "distinct (map r_id (db_roles db))"
    and rows: "\<And>r k. (r, k) \<in> set (map snd (filter (\<lambda>row. fst row = uid) rows)) \<longleftrightarrow>
      r \<in> set (roles_of db keep uid) \<and> k \<in> set (permission_columns db (r_id r))"
  shows "set (frozen_roles (accumulate_rows rows uid)) = role_grant_of db ` set (roles_of db keep uid)"
    and "distinct (map g_role_id (frozen_roles (accumulate_rows rows uid)))"
proof -
  let ?rs = "map snd (filter (\<lambda>row. fst row = uid) rows)"
  define rho where "rho i = (THE r. r \<in> set (db_roles db) \<and> r_id r = i)" for i
  have inj: "inj_on r_id (set (db_roles db))"
    using keys by (simp add: distinct_map)
  have rho: "rho (r_id r) = r" if "r \<in> set (db_roles db)" for r
    unfolding rho_def using that inj by (auto dest: inj_onD)
  have in_roles: "r \<in> set (db_roles db)" if "r \<in> set (roles_of db keep uid)" for r
    using that by (simp add: roles_of_def)
  have rows': "\<forall>row \<in> set ?rs. fst row = rho (r_id (fst row))"
  proof
    fix row assume "row \<in> set ?rs"
    then have "fst row \<in> set (roles_of db keep uid)"
      using rows [of "fst row" "snd row"] by simp
    then show "fst row = rho (r_id (fst row))"
      using rho in_roles by simp
  qed
  let ?accs = "accumulate_rows rows uid"
  have accs: "map_of ?accs i =
    (if i \<in> r_id ` fst ` set ?rs
     then Some ((new_accumulator (rho i))\<lparr>acc_permissions := {k. (rho i, Some k) \<in> set ?rs}\<rparr>)
     else None)" for i
    unfolding accumulate_rows_def by (rule fold_accumulate_map [OF rows'])
  have dist: "distinct (map fst ?accs)"
    unfolding accumulate_rows_def using fold_accumulate_keys [of "[]" ?rs] by simp
  have firsts: "fst ` set ?rs = set (roles_of db keep uid)"
  proof (intro equalityI subsetI)
    fix r assume "r \<in> fst ` set ?rs"
    then show "r \<in> set (roles_of db keep uid)" using rows by force
  next
    fix r assume r: "r \<in> set (roles_of db keep uid)"
    obtain k where "k \<in> set (permission_columns db (r_id r))"
      using permission_columns_nonempty [of db "r_id r"] by (cases "permission_columns db (r_id r)") auto
    with r have "(r, k) \<in> set ?rs" using rows by blast
    then show "r \<in> fst ` set ?rs" by (rule rev_image_eqI) simp
  qed
  have keys_of: "{k. (r, Some k) \<in> set ?rs} = permission_key_set db (r_id r)"
    if "r \<in> set (roles_of db keep uid)" for r
    using that rows [of r "Some _"] Some_in_permission_columns by blast
  have val: "(i, a) \<in> set ?accs \<longleftrightarrow> (\<exists>r \<in> set (roles_of db keep uid). i = r_id r \<and>
      a = (new_accumulator r)\<lparr>acc_permissions := permission_key_set db (r_id r)\<rparr>)" (is "_ \<longleftrightarrow> ?R")
    for i a
  proof -
    have "(i, a) \<in> set ?accs \<longleftrightarrow> map_of ?accs i = Some a"
      using map_of_eq_Some_iff [OF dist] by simp
    also have "\<dots> \<longleftrightarrow> ?R"
    proof
      assume "map_of ?accs i = Some a"
      then have i: "i \<in> r_id ` set (roles_of db keep uid)"
        and a: "a = (new_accumulator (rho i))\<lparr>acc_permissions := {k. (rho i, Some k) \<in> set ?rs}\<rparr>"
        unfolding accs firsts by (simp_all split: if_splits)
      from i obtain r where r: "r \<in> set (roles_of db keep uid)" "i = r_id r" by blast
      then show ?R using a rho in_roles keys_of by (intro bexI [of _ r]) simp_all
    next
      assume ?R
      then obtain r where r: "r \<in> set (roles_of db keep uid)" "i = r_id r"
        "a = (new_accumulator r)\<lparr>acc_permissions := permission_key_set db (r_id r)\<rparr>" by blast
      then show "map_of ?accs i = Some a"
        unfolding accs firsts using rho [OF in_roles] keys_of by simp
    qed
    finally show ?thesis .
  qed
  show "set (frozen_roles ?accs) = role_grant_of db ` set (roles_of db keep uid)"
  proof (intro equalityI subsetI)
    fix g assume "g \<in> set (frozen_roles ?accs)"
    then obtain i a where "(i, a) \<in> set ?accs" "g = freeze a"
      by (auto simp: frozen_roles_def)
    then show "g \<in> role_grant_of db ` set (roles_of db keep uid)"
      by (auto simp: val freeze_new_accumulator)
  next
    fix g assume "g \<in> role_grant_of db ` set (roles_of db keep uid)"
    then obtain r where "r \<in> set (roles_of db keep uid)" "g = role_grant_of db r" by auto
    then show "g \<in> set (frozen_roles ?accs)"
      unfolding frozen_roles_def set_map image_iff
      by (intro bexI [of _ "(r_id r, (new_accumulator r)\<lparr>acc_permissions := permission_key_set db (r_id r)\<rparr>)"])
         (auto simp: val freeze_new_accumulator)
  qed
  have "map g_role_id (frozen_roles ?accs) = map fst ?accs"
    by (auto simp: frozen_roles_def val freeze_new_accumulator)
  then show "distinct (map g_role_id (frozen_roles ?accs))"
    using dist by simp
qed

lemma role_rows_of_user:
  "wanted uid \<Longrightarrow> (r, k) \<in> set (map snd (filter (\<lambda>row. fst row = uid) (role_rows db wanted keep))) \<longleftrightarrow>
     r \<in> set (roles_of db keep uid) \<and> k \<in> set (permission_columns db (r_id r))"
  using set_role_rows [of uid r k db wanted keep] by (auto intro: rev_image_eqI)

text \<open>A snapshot only depends on the set of roles it is built from.\<close>

lemma sort_key_unique:
  assumes "distinct (map f xs)" "distinct (map f ys)" "set xs = set ys"
  shows "sort_key f xs = sort_key f ys"
proof -
  have "map f (sort_key f xs) = map f (sort_key f ys)"
    using assms by (intro sorted_distinct_set_unique) (auto simp: distinct_map)
  moreover have "inj_on f (set (sort_key f xs) \<union> set (sort_key f ys))"
    using assms by (simp add: distinct_map)
  ultimately show ?thesis
    by (rule map_inj_on)
qed

lemma build_cong_set:
  assumes "distinct (map g_role_id xs)" "distinct (map g_role_id ys)" "set xs = set ys"
  shows "build u a p t v xs = build u a p t v ys"
proof -
  have "max_default 0 (map g_management_tier xs) = max_default 0 (map g_management_tier ys)"
    using assms by (intro max_default_cong_set) simp
  then show ?thesis
    using assms sort_key_unique [OF assms] by (simp add: build_def list_ex_iff)
qed

lemma distinct_roles_of:
  "distinct (map r_id (db_roles db)) \<Longrightarrow>
     distinct (map g_role_id (map (role_grant_of db) (roles_of db keep uid)))"
  by (simp add: roles_of_def comp_def distinct_map_filter)

lemma build_accumulated:
  assumes "distinct (map r_id (db_roles db))"
    and "\<And>r k. (r, k) \<in> set (map snd (filter (\<lambda>row. fst row = u_id u) rows)) \<longleftrightarrow>
      r \<in> set (roles_of db keep (u_id u)) \<and> k \<in> set (permission_columns db (r_id r))"
  shows "build (u_id u) (u_is_active u) (u_is_protected u) (u_token_version u) (u_authz_version u)
      (frozen_roles (accumulate_rows rows (u_id u))) = authority_with db keep u"
  unfolding authority_with_def
  using accumulate_rows_grants [OF assms] distinct_roles_of [OF assms(1)]
  by (intro build_cong_set) simp_all

theorem load_authority_snapshots_for_users_spec:
  assumes "keys_ok db"
  shows "load_authority_snapshots_for_users db users inc =
    map (\<lambda>u. (u_id u, authority_spec db inc u)) users"
proof -
  have d: "distinct (map r_id (db_roles db))"
    using assms by (simp add: keys_ok_def)
  show ?thesis
    unfolding load_authority_snapshots_for_users_def Let_def authority_spec_def
    by (intro map_cong refl arg_cong [of _ _ "Pair _"] build_accumulated [OF d] role_rows_of_user)
       auto
qed

lemma load_authority_snapshot_spec:
  "keys_ok db \<Longrightarrow> load_authority_snapshot db uid inc =
     (case find (\<lambda>u. u_id u = uid \<and> live_user u) (db_users db) of
        None \<Rightarrow> Inl (Rbac (not_found ''user_not_found''))
      | Some u \<Rightarrow> Inr (authority_spec db inc u))"
  by (cases "find (\<lambda>u. u_id u = uid \<and> live_user u) (db_users db)")
     (auto simp: load_authority_snapshot_def load_authority_snapshots_for_users_spec
       dest!: find_SomeD)

lemma authority_with_fields [simp]:
  "a_user_id (authority_with db keep u) = u_id u"
  "a_user_is_active (authority_with db keep u) = u_is_active u"
  "a_user_is_protected (authority_with db keep u) = u_is_protected u"
  "a_token_version (authority_with db keep u) = u_token_version u"
  "a_authz_version (authority_with db keep u) = u_authz_version u"
  "set (a_roles (authority_with db keep u)) = role_grant_of db ` set (roles_of db keep (u_id u))"
  "a_permissions (authority_with db keep u)
     = (\<Union>r \<in> set (roles_of db keep (u_id u)). permission_key_set db (r_id r))"
  by (simp_all add: authority_with_def)

lemma authority_with_ok:
  "distinct (map r_id (db_roles db)) \<Longrightarrow> snapshot_ok (authority_with db keep u)"
  unfolding authority_with_def by (intro build_ok distinct_roles_of)

lemma authority_with_super_admin:
  "a_is_super_admin (authority_with db keep u) \<longleftrightarrow>
     (\<exists>r \<in> set (roles_of db keep (u_id u)). r_is_super_admin r)"
  by (auto simp: authority_with_def build_def list_ex_iff)

lemma authority_with_protected:
  "a_is_protected (authority_with db keep u) \<longleftrightarrow>
     u_is_protected u \<or> (\<exists>r \<in> set (roles_of db keep (u_id u)). r_is_protected r)"
  by (auto simp: authority_with_def build_def list_ex_iff)

lemma authority_with_tier:
  "a_management_tier (authority_with db keep u)
     = max_default 0 (map r_management_tier (roles_of db keep (u_id u)))"
  by (simp add: authority_with_def build_def comp_def)

lemmas authority_spec_simps = authority_spec_def authority_with_super_admin
  authority_with_protected authority_with_tier

lemma load_role_grant_spec:
  "load_role_grant db role_id True False =
     (case find (\<lambda>r. r_id r = role_id \<and> live_role r) (db_roles db) of
        None \<Rightarrow> Inl (Rbac (not_found ''role_not_found''))
      | Some r \<Rightarrow> Inr (role_grant_of db r))"
  by (cases "find (\<lambda>r. r_id r = role_id \<and> live_role r) (db_roles db)")
     (auto simp: load_role_grant_def freeze_new_accumulator [symmetric] dest!: find_SomeD)

lemma load_role_grants_for_roles_spec:
  "distinct (map r_id roles) \<Longrightarrow>
     load_role_grants_for_roles db roles = map (\<lambda>r. (r_id r, role_grant_of db r)) roles"
  by (simp add: load_role_grants_for_roles_def Let_def fold_update_distinct_keys
      freeze_new_accumulator comp_def)

subsection \<open>Visibility\<close>

lemma set_active_roles_of:
  "set (active_roles_of db uid) = set (roles_of db r_is_active uid)"
  by (auto simp: active_roles_of_def roles_of_def assigned_def)

lemma authority_spec_active:
  "authority_spec db False u = authority_with db r_is_active u"
  by (simp add: authority_spec_def)

lemma visible_user_clause:
  "u_is_protected u = False \<and> \<not> list_ex r_is_protected (active_roles_of db (u_id u)) \<and>
     max_default 0 (map r_management_tier (active_roles_of db (u_id u))) < t \<longleftrightarrow>
   \<not> a_is_protected (authority_spec db False u) \<and> a_management_tier (authority_spec db False u) < t"
proof -
  have "max_default 0 (map r_management_tier (active_roles_of db (u_id u)))
    = max_default 0 (map r_management_tier (roles_of db r_is_active (u_id u)))"
    by (rule max_default_cong_set) (simp add: set_active_roles_of)
  then show ?thesis
    by (auto simp: authority_spec_active authority_with_protected authority_with_tier
        list_ex_iff set_active_roles_of)
qed

lemma actor_is_super_admin_iff:
  assumes "list_all role_checks (db_roles db)" "set (a_roles actor) \<subseteq> role_grant_of db ` set (db_roles db)"
    and "snapshot_ok actor"
  shows "actor_is_super_admin actor \<longleftrightarrow> a_is_super_admin actor"
proof -
  have key: "g_key g = ''super_admin''" if g: "g \<in> set (a_roles actor)" "g_is_super_admin g" for g
  proof -
    obtain r where "r \<in> set (db_roles db)" "g = role_grant_of db r"
      using g(1) assms(2) by blast
    then show ?thesis
      using g(2) assms(1) role_checks_super_admin [of r] by (simp add: list_all_iff)
  qed
  have "a_is_super_admin actor \<longleftrightarrow> (\<exists>g \<in> set (a_roles actor). g_is_super_admin g)"
    using assms(3) unfolding snapshot_ok_def by (simp only: list_ex_iff)
  then show ?thesis
    using key by (simp only: actor_is_super_admin_def list_ex_iff system_role_value.simps) blast
qed

lemma authority_roles_subset:
  "set (a_roles (authority_spec db incl u)) \<subseteq> role_grant_of db ` set (db_roles db)"
  by (auto simp: authority_spec_def roles_of_def)

lemma role_visible_iff:
  "actor_is_super_admin actor = a_is_super_admin actor \<Longrightarrow>
     role_visible_to actor r \<longleftrightarrow> is_administrative_role_visible actor (role_grant_of db r)"
  by (auto simp: role_visible_to_def is_administrative_role_visible_def)

text \<open>The SQL filter of the list and detail queries is the policy predicate of the services.\<close>

lemma select_visible_users_policy:
  assumes "actor_is_super_admin actor = a_is_super_admin actor"
  shows "select_visible_users db actor =
    filter (\<lambda>u. live_user u \<and> is_administrative_user_visible actor (authority_spec db False u))
      (db_users db)"
  using assms visible_user_clause [of _ db "a_management_tier actor"]
  unfolding select_visible_users_def is_administrative_user_visible_def
  by (intro filter_cong refl) (auto simp: authority_spec_active)

lemma select_visible_roles_policy:
  assumes "actor_is_super_admin actor = a_is_super_admin actor"
  shows "select_visible_roles db actor =
    filter (\<lambda>r. live_role r \<and> is_administrative_role_visible actor (role_grant_of db r)) (db_roles db)"
  by (simp add: select_visible_roles_def role_visible_iff [OF assms, of _ db])

subsection \<open>Pages\<close>

lemma take_append_drop_take: "take m xs @ take n (drop m xs) = take (m + n) xs"
  by (simp add: take_add)

text \<open>Consecutive pages follow each other in the listing: nothing is skipped or repeated.\<close>

lemma pages_concat:
  assumes "0 \<le> psize"
  shows "concat (map (\<lambda>i. page_of (int i) psize rows) [1..<n + 1]) = take (n * nat psize) rows"
proof (induction n)
  case (Suc n)
  have "nat ((int (n + 1) - 1) * psize) = n * nat psize"
    using assms by (simp add: nat_mult_distrib)
  then have "page_of (int (n + 1)) psize rows = take (nat psize) (drop (n * nat psize) rows)"
    by (simp only: page_of_def)
  then have "concat (map (\<lambda>i. page_of (int i) psize rows) [1..<Suc n + 1])
    = take (n * nat psize) rows @ take (nat psize) (drop (n * nat psize) rows)"
    using Suc by simp
  also have "\<dots> = take (Suc n * nat psize) rows"
    by (simp only: take_append_drop_take mult_Suc add.commute)
  finally show ?case .
qed simp

end
