(* ===== verification/Invariants.thy ===== *)
theory Invariants
  imports Repository_Laws
begin

text \<open>
  What holds of every database the services leave behind: \<open>wf\<close> collects the standing
  constraints of the schema and its triggers, and \<open>evolves\<close> says how a database may change
  over time. A well-formed change that also respects the triggers on system roles and on
  the audit tables violates nothing at commit.
\<close>

subsection \<open>Well-formed databases\<close>

definition state_ok :: "database \<Rightarrow> bool" where
  "state_ok db \<longleftrightarrow> (case db_state db of None \<Rightarrow> False | Some s \<Rightarrow> state_checks s)"

definition names_ok :: "database \<Rightarrow> bool" where
  "names_ok db \<longleftrightarrow> distinct (map u_user_name (db_users db)) \<and> distinct (map r_key (db_roles db))"

definition rows_ok :: "database \<Rightarrow> bool" where
  "rows_ok db \<longleftrightarrow>
     list_all user_checks (db_users db) \<and> list_all role_checks (db_roles db) \<and>
     list_all permission_checks (db_permissions db) \<and>
     list_all user_role_checks (db_user_roles db) \<and>
     list_all role_permission_checks (db_role_permissions db)"

definition audit_ok :: "database \<Rightarrow> bool" where
  "audit_ok db \<longleftrightarrow>
     list_all rbac_audit_checks (db_rbac_audit db) \<and>
     list_all account_audit_checks (db_account_audit db)"

definition subjects_ok :: "database \<Rightarrow> bool" where
  "subjects_ok db \<longleftrightarrow>
     list_all (\<lambda>uid. max_ten_live db uid \<and> has_base_role db uid) (row_user_ids db)"

definition wf :: "database \<Rightarrow> bool" where
  "wf db \<longleftrightarrow>
     keys_ok db \<and> names_ok db \<and> references_ok db \<and> actors_ok db \<and> rows_ok db \<and>
     state_ok db \<and> audit_ok db \<and> subjects_ok db \<and> length (super_admin_holders db) = 1"

definition committable :: "database \<Rightarrow> database \<Rightarrow> bool" where
  "committable old new \<longleftrightarrow>
     system_roles_kept old new \<and> system_grants old = system_grants new \<and>
     appended (db_rbac_audit old) (db_rbac_audit new) \<and>
     appended (db_account_audit old) (db_account_audit new)"

lemma wf_violates_nothing:
  assumes "wf new" "committable old new"
  shows "violated old new = None"
proof -
  have "list_all snd (constraints old new)"
    using assms
    by (auto simp: constraints_def wf_def keys_ok_def names_ok_def rows_ok_def state_ok_def
        audit_ok_def subjects_ok_def committable_def list_all_iff)
  then have "filter (\<lambda>c. \<not> snd c) (constraints old new) = []"
    by (auto simp: filter_empty_conv list_all_iff)
  then show ?thesis
    by (simp add: violated_def)
qed

text \<open>
  The one thing a request alone decides of a row: whether the text it carries fits the
  columns of a role.
\<close>

definition columns_fit :: "database \<Rightarrow> bool" where
  "columns_fit db \<longleftrightarrow> list_all role_columns (db_roles db)"

lemma wf_columns_fit: "wf db \<Longrightarrow> columns_fit db"
  by (auto simp: wf_def rows_ok_def columns_fit_def list_all_iff role_checks_columns)

lemma unfit_refused:
  assumes "\<not> columns_fit new"
  shows "\<exists>n. violated old new = Some n"
proof -
  have "\<not> list_all role_checks (db_roles new)"
    using assms by (auto simp: columns_fit_def list_all_iff dest: role_checks_columns)
  then have "(''ck_roles'', False) \<in> set (constraints old new)"
    by (simp add: constraints_def)
  then have "filter (\<lambda>c. \<not> snd c) (constraints old new) \<noteq> []"
    unfolding filter_empty_conv by (metis snd_conv)
  then show ?thesis
    by (auto simp: violated_def neq_Nil_conv)
qed

lemma transaction_refuses:
  "body db = Inr (x, db') \<Longrightarrow> \<not> columns_fit db' \<Longrightarrow> \<exists>n. transaction body db = (Inl (Integrity_error n), db)"
  using unfit_refused [of db' db] by (auto simp: transaction_def)

lemma transaction_commits:
  "body db = Inr (x, db') \<Longrightarrow> wf db' \<Longrightarrow> committable db db' \<Longrightarrow> transaction body db = (Inr x, db')"
  by (simp add: transaction_def wf_violates_nothing)

lemma transaction_rolls_back: "body db = Inl e \<Longrightarrow> transaction body db = (Inl e, db)"
  by (simp add: transaction_def)

lemma max_ten_live_wf: "wf db \<Longrightarrow> max_ten_live db uid"
proof (cases "uid \<in> ur_user_id ` set (db_user_roles db)")
  case True
  assume "wf db"
  with True show ?thesis by (simp add: wf_def subjects_ok_def list_all_iff row_user_ids_def)
next
  case False
  then have "live_assignments db uid = []"
    by (auto simp: live_assignments_def filter_empty_conv)
  then show ?thesis by (simp add: max_ten_live_def)
qed

lemma has_base_role_wf: "wf db \<Longrightarrow> has_base_role db uid"
proof (cases "uid \<in> u_id ` set (db_users db)")
  case True
  assume "wf db"
  with True show ?thesis by (simp add: wf_def subjects_ok_def list_all_iff row_user_ids_def)
qed (auto simp: has_base_role_def list_ex_iff)

lemma subjects_okI:
  "(\<And>uid. max_ten_live db uid) \<Longrightarrow> (\<And>uid. has_base_role db uid) \<Longrightarrow> subjects_ok db"
  by (simp add: subjects_ok_def list_all_iff)

lemma wf_keys_ok [intro]: "wf db \<Longrightarrow> keys_ok db"
  by (simp add: wf_def)

lemma wf_role_checks: "wf db \<Longrightarrow> r \<in> set (db_roles db) \<Longrightarrow> role_checks r"
  by (simp add: wf_def rows_ok_def list_all_iff)

lemma wf_user_checks: "wf db \<Longrightarrow> u \<in> set (db_users db) \<Longrightarrow> user_checks u"
  by (simp add: wf_def rows_ok_def list_all_iff)

lemma wf_same_user:
  "wf db \<Longrightarrow> u \<in> set (db_users db) \<Longrightarrow> v \<in> set (db_users db) \<Longrightarrow> u_id u = u_id v \<Longrightarrow> u = v"
  by (auto simp: wf_def keys_ok_def distinct_map dest: inj_onD)

lemma wf_same_role:
  "wf db \<Longrightarrow> r \<in> set (db_roles db) \<Longrightarrow> q \<in> set (db_roles db) \<Longrightarrow> r_id r = r_id q \<Longrightarrow> r = q"
  by (auto simp: wf_def keys_ok_def distinct_map dest: inj_onD)

subsection \<open>How rows change\<close>

definition user_step :: "user \<Rightarrow> user \<Rightarrow> bool" where
  "user_step u u' \<longleftrightarrow>
     u_id u' = u_id u \<and> u_user_name u' = u_user_name u \<and> u_is_protected u' = u_is_protected u \<and>
     u_deleted_at u' = u_deleted_at u \<and> u_deleted_by_user_id u' = u_deleted_by_user_id u \<and>
     u_token_version u \<le> u_token_version u' \<and> u_authz_version u \<le> u_authz_version u'"

definition role_step :: "role \<Rightarrow> role \<Rightarrow> bool" where
  "role_step r r' \<longleftrightarrow>
     r_id r' = r_id r \<and> r_key r' = r_key r \<and> r_management_tier r' = r_management_tier r \<and>
     r_is_protected r' = r_is_protected r \<and> r_is_system r' = r_is_system r \<and>
     r_is_super_admin r' = r_is_super_admin r \<and> r_version r \<le> r_version r' \<and>
     (r_deleted_at r \<noteq> None \<longrightarrow> r' = r) \<and>
     (r_is_system r \<longrightarrow> r'\<lparr>r_version := r_version r\<rparr> = r)"

definition assignment_step :: "user_role \<Rightarrow> user_role \<Rightarrow> bool" where
  "assignment_step ur ur' \<longleftrightarrow>
     ur_user_id ur' = ur_user_id ur \<and> ur_role_id ur' = ur_role_id ur \<and>
     ur_assigned_by_user_id ur' = ur_assigned_by_user_id ur \<and> (\<not> live_ur ur \<longrightarrow> ur' = ur)"

definition grant_step :: "role_permission \<Rightarrow> role_permission \<Rightarrow> bool" where
  "grant_step rp rp' \<longleftrightarrow>
     rp_role_id rp' = rp_role_id rp \<and> rp_permission_id rp' = rp_permission_id rp \<and>
     rp_assigned_by_user_id rp' = rp_assigned_by_user_id rp \<and> (\<not> live_rp rp \<longrightarrow> rp' = rp)"

definition state_step :: "rbac_state option \<Rightarrow> rbac_state option \<Rightarrow> bool" where
  "state_step old new \<longleftrightarrow>
     (case old of None \<Rightarrow> new = None
      | Some s \<Rightarrow> (case new of None \<Rightarrow> False | Some s' \<Rightarrow> st_epoch s \<le> st_epoch s'))"

text \<open>A table keeps its rows in place, each changed as \<open>R\<close> allows, and gets new ones at the end.\<close>

definition table_step :: "('r \<Rightarrow> 'r \<Rightarrow> bool) \<Rightarrow> 'r list \<Rightarrow> 'r list \<Rightarrow> bool" where
  "table_step R old new \<longleftrightarrow> list_all2 R old (take (length old) new)"

definition evolves :: "database \<Rightarrow> database \<Rightarrow> bool" where
  "evolves old new \<longleftrightarrow>
     table_step user_step (db_users old) (db_users new) \<and>
     table_step role_step (db_roles old) (db_roles new) \<and>
     db_permissions new = db_permissions old \<and>
     table_step assignment_step (db_user_roles old) (db_user_roles new) \<and>
     table_step grant_step (db_role_permissions old) (db_role_permissions new) \<and>
     state_step (db_state old) (db_state new) \<and>
     appended (db_rbac_audit old) (db_rbac_audit new) \<and>
     appended (db_account_audit old) (db_account_audit new)"

lemma steps_refl [simp]:
  "user_step u u" "role_step r r" "assignment_step ur ur" "grant_step rp rp" "state_step s s"
  by (auto simp: user_step_def role_step_def assignment_step_def grant_step_def state_step_def
      split: option.split)

lemma table_step_appended [simp]:
  "(\<And>r. R r r) \<Longrightarrow> table_step R rows (rows @ added)"
  by (simp add: table_step_def list_all2_refl)

lemma table_step_refl [simp]: "(\<And>r. R r r) \<Longrightarrow> table_step R rows rows"
  using table_step_appended [of R rows "[]"] by simp

lemma table_step_update:
  assumes "\<And>r. R r r" "\<And>r. r \<in> set rows \<Longrightarrow> p r \<Longrightarrow> R r (f r)"
  shows "table_step R rows (update_where p f rows)"
proof -
  have "list_all2 R rows (update_where p f rows)"
    using assms(2) by (induction rows) (auto intro: assms(1))
  then show ?thesis by (simp add: table_step_def)
qed

lemma table_step_iff:
  "table_step R old new \<longleftrightarrow> length old \<le> length new \<and> (\<forall>i < length old. R (old ! i) (new ! i))"
  by (auto simp: table_step_def list_all2_conv_all_nth)

lemma table_step_trans:
  assumes "table_step R a b" "table_step R b c" "\<And>x y z. R x y \<Longrightarrow> R y z \<Longrightarrow> R x z"
  shows "table_step R a c"
  using assms unfolding table_step_iff by (metis le_trans less_le_trans)

lemma appended_refl [simp]: "appended xs xs"
  by (simp add: appended_def)

lemma appended_append [simp]: "appended xs (xs @ ys)"
  by (simp add: appended_def)

lemma appended_iff: "appended xs ys \<longleftrightarrow> (\<exists>zs. ys = xs @ zs)"
  unfolding appended_def by (metis append_eq_conv_conj append_take_drop_id)

lemma appended_trans: "appended a b \<Longrightarrow> appended b c \<Longrightarrow> appended a c"
  by (auto simp: appended_iff)

lemma user_step_trans: "user_step a b \<Longrightarrow> user_step b c \<Longrightarrow> user_step a c"
  by (auto simp: user_step_def)

lemma role_step_trans:
  assumes "role_step a b" "role_step b c"
  shows "role_step a c"
proof -
  have "c\<lparr>r_version := r_version a\<rparr> = a" if "r_is_system a"
  proof -
    have ab: "b\<lparr>r_version := r_version a\<rparr> = a" and bc: "c\<lparr>r_version := r_version b\<rparr> = b"
      using assms that by (simp_all add: role_step_def)
    have "c\<lparr>r_version := r_version a\<rparr> = (c\<lparr>r_version := r_version b\<rparr>)\<lparr>r_version := r_version a\<rparr>"
      by simp
    then show ?thesis by (simp only: bc ab)
  qed
  moreover have "c = a" if "r_deleted_at a \<noteq> None"
  proof -
    have "b = a" using assms(1) that by (simp add: role_step_def)
    with assms(2) that show ?thesis by (simp add: role_step_def)
  qed
  ultimately show ?thesis
    using assms unfolding role_step_def by (metis order_trans)
qed

lemma assignment_step_trans: "assignment_step a b \<Longrightarrow> assignment_step b c \<Longrightarrow> assignment_step a c"
  by (auto simp: assignment_step_def)

lemma grant_step_trans: "grant_step a b \<Longrightarrow> grant_step b c \<Longrightarrow> grant_step a c"
  by (auto simp: grant_step_def)

lemma state_step_trans: "state_step a b \<Longrightarrow> state_step b c \<Longrightarrow> state_step a c"
  by (auto simp: state_step_def split: option.splits)

lemma evolves_refl [simp]: "evolves db db"
  by (simp add: evolves_def)

lemmas tables_trans =
  table_step_trans [where R = user_step, OF _ _ user_step_trans]
  table_step_trans [where R = role_step, OF _ _ role_step_trans]
  table_step_trans [where R = assignment_step, OF _ _ assignment_step_trans]
  table_step_trans [where R = grant_step, OF _ _ grant_step_trans]
  state_step_trans appended_trans

lemma evolves_trans: "evolves a b \<Longrightarrow> evolves b c \<Longrightarrow> evolves a c"
  unfolding evolves_def
  by (elim conjE, intro conjI) (erule (1) tables_trans | simp)+

end
