(* ===== verification/Access_Service.thy ===== *)
theory Access_Service
  imports Repository
begin

text \<open>
  \<open>RbacService\<close> of \<open>app/services/access.py\<close>. A service call runs its operation and the
  insertion of an \<open>allowed\<close> audit event in one transaction; an \<open>RbacError\<close> below 500 is
  followed by a best-effort \<open>denied\<close> event in a second transaction and is raised again.
  An operation maps the database its locks protect to an outcome and the database it
  leaves; the clock and the identifiers drawn at random are arguments.
\<close>

subsection \<open>Outcomes and audit payloads\<close>

record 'a mutation_outcome =
  o_value :: 'a
  o_reason_code :: string
  o_before_state :: "audit_value option"
  o_after_state :: "audit_value option"
  o_audit_target_role_id :: "uuid option"

fun role_operation_value :: "role_operation \<Rightarrow> string" where
  "role_operation_value BIND = ''bind''"
| "role_operation_value UNBIND = ''unbind''"

definition require_role_operation :: "string \<Rightarrow> failure + role_operation" where
  "require_role_operation operation =
     (if operation = ''bind'' then Inr BIND
      else if operation = ''unbind'' then Inr UNBIND
      else Inl (Value_error (''operation must be 'bind' or 'unbind'' @ [CHR 39])))"

definition a_str :: "string \<Rightarrow> audit_value" where
  "a_str s = A_Str (lit s)"

definition a_obj :: "(string \<times> audit_value) list \<Rightarrow> audit_value" where
  "a_obj members = A_Map (map (\<lambda>(k, v). (Some (lit k), v)) members)"

definition snapshot_payload :: "authority_snapshot \<Rightarrow> audit_value" where
  "snapshot_payload s = a_obj
     [(''user_id'', a_str (uuid_str (a_user_id s))),
      (''is_active'', A_Bool (a_user_is_active s)),
      (''role_ids'', A_Seq (map (\<lambda>r. a_str (uuid_str (g_role_id r))) (a_roles s))),
      (''role_keys'', A_Seq (map a_str (sort (map g_key (a_roles s))))),
      (''permissions'', A_Seq (map a_str (sorted_list_of_set (a_permissions s)))),
      (''management_tier'', A_Int (a_management_tier s)),
      (''is_protected'', A_Bool (a_is_protected s)),
      (''is_super_admin'', A_Bool (a_is_super_admin s)),
      (''authz_version'', A_Int (a_authz_version s))]"

definition role_payload :: "role_response \<Rightarrow> audit_value" where
  "role_payload r = a_obj
     [(''role_id'', a_str (uuid_str (rr_id r))),
      (''key'', a_str (rr_key r)),
      (''name'', A_Str (rr_name r)),
      (''description'', A_Str (rr_description r)),
      (''management_tier'', A_Int (rr_management_tier r)),
      (''is_active'', A_Bool (rr_is_active r)),
      (''is_system'', A_Bool (rr_is_system r)),
      (''is_deleted'', A_Bool (rr_deleted_at r \<noteq> None)),
      (''permissions'', A_Seq (map a_str (rr_permissions r))),
      (''version'', A_Int (rr_version r))]"

subsection \<open>Audited transactions\<close>

definition audit_event ::
    "unicode_db \<Rightarrow> authorization_context \<Rightarrow> string \<Rightarrow> string \<Rightarrow> string \<Rightarrow> uuid option \<Rightarrow>
     uuid option \<Rightarrow> audit_value option \<Rightarrow> audit_value option \<Rightarrow> failure + rbac_audit_event" where
  "audit_event uc ctx action decision reason target_user_id target_role_id
       before_state after_state =
     new_rbac_audit_event uc (pr_user_id (c_principal ctx)) target_user_id target_role_id
       action decision reason (audit_source_value (c_audit_source ctx))
       before_state after_state (c_request_id ctx)"

definition add_rbac_event :: "rbac_audit_event \<Rightarrow> database \<Rightarrow> database" where
  "add_rbac_event e db = db\<lparr>db_rbac_audit := db_rbac_audit db @ [e]\<rparr>"

type_synonym 'a operation = "database \<Rightarrow> failure + 'a mutation_outcome \<times> database"

definition allowed_body ::
    "unicode_db \<Rightarrow> authorization_context \<Rightarrow> string \<Rightarrow> uuid option \<Rightarrow> uuid option \<Rightarrow> 'a operation \<Rightarrow>
     database \<Rightarrow> failure + 'a \<times> database" where
  "allowed_body uc ctx action target_user_id target_role_id operation db =
     bindE (operation db) (\<lambda>(outcome, db').
     bindE (audit_event uc ctx action ''allowed'' (o_reason_code outcome) target_user_id
              (case o_audit_target_role_id outcome of None \<Rightarrow> target_role_id | Some i \<Rightarrow> Some i)
              (o_before_state outcome) (o_after_state outcome)) (\<lambda>e.
       Inr (o_value outcome, add_rbac_event e db')))"

definition denied_body ::
    "unicode_db \<Rightarrow> authorization_context \<Rightarrow> string \<Rightarrow> string \<Rightarrow> uuid option \<Rightarrow> uuid option \<Rightarrow>
     database \<Rightarrow> failure + unit \<times> database" where
  "denied_body uc ctx action reason target_user_id target_role_id db =
     bindE (audit_event uc ctx action ''denied'' reason target_user_id target_role_id
              None None) (\<lambda>e.
       Inr ((), add_rbac_event e db))"

text \<open>
  \<open>_run_audited\<close>. What the second transaction raises is logged and dropped.
\<close>

definition run_audited ::
    "unicode_db \<Rightarrow> authorization_context \<Rightarrow> string \<Rightarrow> uuid option \<Rightarrow> uuid option \<Rightarrow> 'a operation \<Rightarrow>
     database \<Rightarrow> (failure + 'a) \<times> database" where
  "run_audited uc ctx action target_user_id target_role_id operation db =
     (case transaction (allowed_body uc ctx action target_user_id target_role_id operation) db of
        (Inl (Rbac e), db') \<Rightarrow>
          (Inl (Rbac e),
           if status_code e < 500
           then snd (transaction
                  (denied_body uc ctx action (reason_code e) target_user_id target_role_id) db')
           else db')
      | result \<Rightarrow> result)"

subsection \<open>Locking an actor and a target\<close>

definition require_current_locked_actor_row ::
    "user option \<Rightarrow> authorization_context \<Rightarrow> failure + user" where
  "require_current_locked_actor_row actor_user ctx =
     (case actor_user of
        None \<Rightarrow> Inl (Rbac (unauthenticated ''actor_missing''))
      | Some u \<Rightarrow>
          if \<not> u_is_active u \<or> u_token_version u \<noteq> pr_token_version (c_principal ctx)
          then Inl (Rbac (unauthenticated ''actor_no_longer_active''))
          else Inr u)"

definition require_expected_role_version :: "role \<Rightarrow> int \<Rightarrow> failure + unit" where
  "require_expected_role_version role expected_version =
     raise_unless (r_version role = expected_version)
       (Rbac (stale_resource_version ''stale_role_version''))"

text \<open>\<open>select(UserRole.role_id)\<close> of the live assignments of some users.\<close>

definition assigned_role_ids :: "database \<Rightarrow> uuid set \<Rightarrow> uuid set" where
  "assigned_role_ids db user_ids =
     set (map ur_role_id (filter (\<lambda>ur. ur_user_id ur \<in> user_ids \<and> live_ur ur) (db_user_roles db)))"

definition lock_actor_and_target_user ::
    "database \<Rightarrow> authorization_context \<Rightarrow> uuid \<Rightarrow> permission_key \<Rightarrow> uuid set \<Rightarrow>
     failure + authority_snapshot \<times> authority_snapshot \<times> user \<times> rbac_state \<times> (uuid \<times> role) list" where
  "lock_actor_and_target_user db ctx target_user_id required_permission additional_role_ids =
     bindE (lock_rbac_state db) (\<lambda>state.
     let actor_user_id = pr_user_id (c_principal ctx);
         token_version = pr_token_version (c_principal ctx);
         user_ids = {actor_user_id, target_user_id};
         users = lock_users db user_ids
     in
     bindE (require_current_locked_actor_row (map_of users actor_user_id) ctx) (\<lambda>_.
     bindE (require_current_actor db actor_user_id token_version) (\<lambda>actor.
     bindE (raise_unless (permission_value required_permission \<in> a_permissions actor)
              (Rbac (forbidden ''missing_operation_permission''))) (\<lambda>_.
     case map_of users target_user_id of
       None \<Rightarrow> Inl (Rbac (not_found ''target_user_not_found''))
     | Some target_row \<Rightarrow>
         let locked_roles = lock_roles db (assigned_role_ids db user_ids \<union> additional_role_ids)
         in
         bindE (require_current_actor db actor_user_id token_version) (\<lambda>actor.
         bindE (load_authority_snapshot db target_user_id False) (\<lambda>visible_target.
         bindE (raise_unless (is_administrative_user_visible actor visible_target)
                  (Rbac (not_found ''target_user_not_found''))) (\<lambda>_.
         bindE (load_authority_snapshot db target_user_id True) (\<lambda>target.
           Inr (actor, target, target_row, state, locked_roles)))))))))"

text \<open>A flush writes the attributes of a loaded row back to the row with its key.\<close>

definition save_user :: "user \<Rightarrow> database \<Rightarrow> database" where
  "save_user u db = db\<lparr>db_users := update_where (\<lambda>x. u_id x = u_id u) (\<lambda>_. u) (db_users db)\<rparr>"

definition save_role :: "role \<Rightarrow> database \<Rightarrow> database" where
  "save_role r db = db\<lparr>db_roles := update_where (\<lambda>x. r_id x = r_id r) (\<lambda>_. r) (db_roles db)\<rparr>"

definition save_state :: "rbac_state \<Rightarrow> database \<Rightarrow> database" where
  "save_state s db = db\<lparr>db_state := Some s\<rparr>"

definition next_epoch :: "rbac_state \<Rightarrow> rbac_state" where
  "next_epoch s = s\<lparr>st_epoch := st_epoch s + 1\<rparr>"

definition access_view_of ::
    "database \<Rightarrow> user \<Rightarrow> uuid \<Rightarrow> authority_snapshot \<Rightarrow> failure + user_access_view" where
  "access_view_of db row target_user_id actor =
     (case map_of (load_user_access_views db [row] actor) target_user_id of
        None \<Rightarrow> Inl Key_error | Some access \<Rightarrow> Inr access)"

definition require_allowed :: "policy_decision \<Rightarrow> failure + unit" where
  "require_allowed decision =
     raise_unless (allowed decision) (Rbac (forbidden (decision_reason decision)))"

subsection \<open>User administration\<close>

definition update_user_status_operation ::
    "authorization_context \<Rightarrow> uuid \<Rightarrow> bool \<Rightarrow> user_response operation" where
  "update_user_status_operation ctx target_user_id is_active db =
     bindE (lock_actor_and_target_user db ctx target_user_id USERS_STATUS_UPDATE {})
       (\<lambda>(actor, target_before, target_row, state, _).
     bindE (require_allowed (decide_user_status_change actor target_before)) (\<lambda>_.
     let changed = (u_is_active target_row \<noteq> is_active);
         target_after = target_before\<lparr>a_user_is_active := is_active\<rparr>;
         row = (if changed
                then target_row\<lparr>u_is_active := is_active,
                       u_token_version := u_token_version target_row + 1,
                       u_authz_version := u_authz_version target_row + 1\<rparr>
                else target_row);
         db' = (if changed then save_state (next_epoch state) (save_user row db) else db);
         target_after = (if changed then target_after\<lparr>a_authz_version := u_authz_version row\<rparr>
                         else target_after)
     in bindE (access_view_of db' row target_user_id actor) (\<lambda>access.
        Inr (\<lparr>o_value = user_response access,
              o_reason_code = (if changed then ''user_status_updated'' else ''user_status_unchanged''),
              o_before_state = Some (snapshot_payload target_before),
              o_after_state = Some (snapshot_payload target_after),
              o_audit_target_role_id = None\<rparr>, db'))))"

definition update_user_status ::
    "unicode_db \<Rightarrow> authorization_context \<Rightarrow> uuid \<Rightarrow> bool \<Rightarrow> database \<Rightarrow>
     (failure + user_response) \<times> database" where
  "update_user_status uc ctx target_user_id is_active =
     run_audited uc ctx ''user.status.update'' (Some target_user_id) None
       (update_user_status_operation ctx target_user_id is_active)"

definition revoke_user_sessions_operation ::
    "authorization_context \<Rightarrow> uuid \<Rightarrow> unit operation" where
  "revoke_user_sessions_operation ctx target_user_id db =
     bindE (lock_actor_and_target_user db ctx target_user_id USERS_SESSIONS_REVOKE {})
       (\<lambda>(actor, target_before, target_row, _, _).
     bindE (require_allowed (decide_user_sessions_revoke actor target_before)) (\<lambda>_.
     let previous_version = u_token_version target_row;
         row = target_row\<lparr>u_token_version := u_token_version target_row + 1\<rparr>
     in Inr (\<lparr>o_value = (),
              o_reason_code = ''user_sessions_revoked'',
              o_before_state = Some (a_obj [(''token_version'', A_Int previous_version)]),
              o_after_state = Some (a_obj [(''token_version'', A_Int (u_token_version row))]),
              o_audit_target_role_id = None\<rparr>, save_user row db)))"

definition revoke_user_sessions ::
    "unicode_db \<Rightarrow> authorization_context \<Rightarrow> uuid \<Rightarrow> database \<Rightarrow> (failure + unit) \<times> database" where
  "revoke_user_sessions uc ctx target_user_id =
     run_audited uc ctx ''user.sessions.revoke'' (Some target_user_id) None
       (revoke_user_sessions_operation ctx target_user_id)"

subsection \<open>Binding and unbinding roles\<close>

record user_role_mutation =
  um_changed :: bool
  um_user :: user_response

definition existing_role_ids :: "database \<Rightarrow> uuid \<Rightarrow> uuid set \<Rightarrow> uuid set" where
  "existing_role_ids db target_user_id requested =
     set (map ur_role_id (filter (\<lambda>ur. ur_user_id ur = target_user_id
       \<and> ur_role_id ur \<in> requested \<and> live_ur ur) (db_user_roles db)))"

definition requested_roles ::
    "role_operation \<Rightarrow> (uuid \<times> role) list \<Rightarrow> uuid set \<Rightarrow> uuid set \<Rightarrow> failure + role list" where
  "requested_roles oper locked_roles existing_ids requested =
     mapE (\<lambda>role_id. case map_of locked_roles role_id of
         None \<Rightarrow> Inl (Rbac (not_found ''role_not_found''))
       | Some role \<Rightarrow>
           if oper = BIND \<and> role_id \<notin> existing_ids \<and> \<not> r_is_active role
           then Inl (Rbac (not_found ''role_not_found''))
           else Inr role)
       (sorted_list_of_set requested)"

definition new_assignments :: "uuid \<Rightarrow> uuid set \<Rightarrow> uuid \<Rightarrow> user_role list" where
  "new_assignments target_user_id changed_ids actor_id =
     map (\<lambda>role_id. \<lparr>ur_user_id = target_user_id, ur_role_id = role_id,
            ur_assigned_by_user_id = Some actor_id, ur_deleted_at = None,
            ur_deleted_by_user_id = None\<rparr>)
       (sorted_list_of_set changed_ids)"

definition delete_assignments ::
    "(user_role \<Rightarrow> bool) \<Rightarrow> int \<Rightarrow> uuid \<Rightarrow> user_role list \<Rightarrow> user_role list" where
  "delete_assignments p deleted_at actor_id =
     update_where (\<lambda>ur. p ur \<and> live_ur ur)
       (\<lambda>ur. ur\<lparr>ur_deleted_at := Some deleted_at, ur_deleted_by_user_id := Some actor_id\<rparr>)"

text \<open>The authority after the change, the ids it changes and the assignments it leaves.\<close>

definition roles_before_after ::
    "role_operation \<Rightarrow> authority_snapshot \<Rightarrow> role_grant list \<Rightarrow> authority_snapshot" where
  "roles_before_after oper before grants =
     (if oper = BIND then fold (\<lambda>g s. with_role s g) grants before
      else fold (\<lambda>g s. without_role s (g_role_id g)) grants before)"

definition changed_role_ids :: "role_operation \<Rightarrow> uuid set \<Rightarrow> uuid set \<Rightarrow> uuid set" where
  "changed_role_ids oper requested existing =
     (if oper = BIND then requested - existing else requested \<inter> existing)"

definition changed_assignments ::
    "database \<Rightarrow> int \<Rightarrow> role_operation \<Rightarrow> uuid \<Rightarrow> uuid set \<Rightarrow> uuid \<Rightarrow> user_role list" where
  "changed_assignments db now oper t ids actor_id =
     (if oper = BIND then db_user_roles db @ new_assignments t ids actor_id
      else delete_assignments (\<lambda>ur. ur_user_id ur = t \<and> ur_role_id ur \<in> ids) now actor_id
             (db_user_roles db))"

definition change_user_roles_operation ::
    "int \<Rightarrow> authorization_context \<Rightarrow> uuid \<Rightarrow> uuid set \<Rightarrow> role_operation \<Rightarrow>
     user_role_mutation operation" where
  "change_user_roles_operation now ctx target_user_id requested oper db =
     bindE (lock_actor_and_target_user db ctx target_user_id
              (if oper = BIND then ROLES_ASSIGN else ROLES_REVOKE) requested)
       (\<lambda>(actor, target_before, target_row, state, locked_roles).
     let existing_ids = existing_role_ids db target_user_id requested in
     bindE (requested_roles oper locked_roles existing_ids requested) (\<lambda>roles.
     bindE (mapE (\<lambda>role. case map_of (load_role_grants_for_roles db roles) (r_id role) of
               None \<Rightarrow> Inl Key_error | Some g \<Rightarrow> Inr g) roles) (\<lambda>grants.
     bindE (raise_unless (\<not> list_ex (\<lambda>g. \<not> is_administrative_role_visible actor g) grants)
              (Rbac (not_found ''role_not_found''))) (\<lambda>_.
     let target_after = roles_before_after oper target_before grants;
         changed_ids = changed_role_ids oper requested existing_ids
     in
     bindE (require_allowed (decide_role_change oper actor target_before target_after grants)) (\<lambda>_.
     bindE (raise_unless (\<not> (oper = BIND \<and> changed_ids \<noteq> {} \<and>
                count_live_user_roles db target_user_id + card changed_ids > MAX_ROLES_PER_USER))
              (Rbac (conflict ''user_role_limit_exceeded''))) (\<lambda>_.
     let changed = (changed_ids \<noteq> {});
         row = (if changed then target_row\<lparr>u_authz_version := u_authz_version target_row + 1\<rparr>
                else target_row);
         assignments = changed_assignments db now oper target_user_id changed_ids (a_user_id actor);
         db' = (if changed
                then save_state (next_epoch state)
                       (save_user row (db\<lparr>db_user_roles := assignments\<rparr>))
                else db);
         target_after = (if changed then target_after\<lparr>a_authz_version := u_authz_version row\<rparr>
                         else target_after)
     in bindE (access_view_of db' row target_user_id actor) (\<lambda>access.
        Inr (\<lparr>o_value = \<lparr>um_changed = changed, um_user = user_response access\<rparr>,
              o_reason_code =
                (if changed then (if oper = BIND then ''user_roles_bound'' else ''user_roles_unbound'')
                 else ''user_roles_unchanged''),
              o_before_state = Some (snapshot_payload target_before),
              o_after_state = Some (snapshot_payload target_after),
              o_audit_target_role_id = None\<rparr>, db'))))))))"

definition change_user_roles ::
    "unicode_db \<Rightarrow> int \<Rightarrow> authorization_context \<Rightarrow> uuid \<Rightarrow> uuid list \<Rightarrow> string \<Rightarrow> database \<Rightarrow>
     (failure + user_role_mutation) \<times> database" where
  "change_user_roles uc now ctx target_user_id role_ids operation db =
     (case require_role_operation operation of
        Inl e \<Rightarrow> (Inl e, db)
      | Inr oper \<Rightarrow>
          if set role_ids = {} then (Inl (Rbac (invalid_request ''role_ids_required'')), db)
          else run_audited uc ctx (''user.roles.'' @ role_operation_value oper)
                 (Some target_user_id) None
                 (change_user_roles_operation now ctx target_user_id (set role_ids) oper) db)"

end
