(* ===== verification/Role_Service.thy ===== *)
theory Role_Service
  imports Access_Service
begin

text \<open>
  The role operations of \<open>RbacService\<close>: creation, and the four operations on a role that
  users may share, which lock every live holder of the role and decide on all of them.
\<close>

subsection \<open>Creating a role\<close>

record role_mutation =
  rm_changed :: bool
  rm_role :: role_response

record role_create_request =
  rc_key :: string
  rc_name :: pystr
  rc_description :: pystr
  rc_management_tier :: int

definition new_role :: "uuid \<Rightarrow> role_create_request \<Rightarrow> role" where
  "new_role role_id request =
     \<lparr>r_id = role_id, r_key = rc_key request, r_name = rc_name request,
      r_description = rc_description request, r_management_tier = rc_management_tier request,
      r_is_active = True, r_is_protected = False, r_is_system = False,
      r_is_super_admin = False, r_version = 0, r_deleted_at = None,
      r_deleted_by_user_id = None\<rparr>"

definition create_role_operation ::
    "uuid \<Rightarrow> authorization_context \<Rightarrow> role_create_request \<Rightarrow> role_mutation operation" where
  "create_role_operation role_id ctx request db =
     bindE (lock_rbac_state db) (\<lambda>state.
     let actor_id = pr_user_id (c_principal ctx);
         users = lock_users db {actor_id}
     in
     bindE (require_current_locked_actor_row (map_of users actor_id) ctx) (\<lambda>_.
     bindE (require_current_actor db actor_id (pr_token_version (c_principal ctx))) (\<lambda>actor.
     bindE (require_allowed (decide_role_create actor (rc_management_tier request))) (\<lambda>_.
     bindE (raise_unless (rc_key request \<notin> RESERVED_ROLE_KEYS)
              (Rbac (conflict ''reserved_role_key''))) (\<lambda>_.
     bindE (raise_unless (\<not> list_ex (\<lambda>r. r_key r = rc_key request) (db_roles db))
              (Rbac (conflict ''role_key_exists''))) (\<lambda>_.
     let role = new_role role_id request;
         db' = save_state (next_epoch state) (db\<lparr>db_roles := db_roles db @ [role]\<rparr>);
         role_after = role_response role {}
     in Inr (\<lparr>o_value = \<lparr>rm_changed = True, rm_role = role_after\<rparr>,
              o_reason_code = ''role_created'',
              o_before_state = None,
              o_after_state = Some (role_payload role_after),
              o_audit_target_role_id = None\<rparr>, db')))))))"

definition create_role ::
    "unicode_db \<Rightarrow> uuid \<Rightarrow> authorization_context \<Rightarrow> role_create_request \<Rightarrow> database \<Rightarrow>
     (failure + role_mutation) \<times> database" where
  "create_role uc role_id ctx request =
     run_audited uc ctx ''role.create'' None (Some role_id)
       (create_role_operation role_id ctx request)"

subsection \<open>Locking a shared role\<close>

record locked_shared_role =
  l_actor :: authority_snapshot
  l_role :: role
  l_role_before :: role_grant
  l_affected_before :: "authority_snapshot list"
  l_affected_ids :: "uuid set"
  l_state :: rbac_state
  l_users :: "(uuid \<times> user) list"
  l_permission_rows :: "(string \<times> role_permission) list"

text \<open>The live users that hold a live assignment of the role.\<close>

definition holder_ids :: "database \<Rightarrow> uuid \<Rightarrow> uuid set" where
  "holder_ids db role_id =
     set (map ur_user_id (filter (\<lambda>ur. ur_role_id ur = role_id \<and> live_ur ur \<and>
       list_ex (\<lambda>u. u_id u = ur_user_id ur \<and> live_user u) (db_users db)) (db_user_roles db)))"

definition lock_shared_role_change ::
    "database \<Rightarrow> authorization_context \<Rightarrow> uuid \<Rightarrow> permission_key \<Rightarrow> bool \<Rightarrow>
     failure + locked_shared_role" where
  "lock_shared_role_change db ctx role_id required_permission include_inactive =
     bindE (lock_rbac_state db) (\<lambda>state.
     let actor_id = pr_user_id (c_principal ctx);
         affected_ids = holder_ids db role_id;
         user_ids = affected_ids \<union> {actor_id};
         users = lock_users db user_ids
     in
     bindE (require_current_locked_actor_row (map_of users actor_id) ctx) (\<lambda>_.
     let locked_roles = lock_roles db (assigned_role_ids db user_ids \<union> {role_id})
     in
     bindE (require_current_actor db actor_id (pr_token_version (c_principal ctx))) (\<lambda>actor.
     bindE (raise_unless (permission_value required_permission \<in> a_permissions actor)
              (Rbac (forbidden ''missing_operation_permission''))) (\<lambda>_.
     case map_of locked_roles role_id of
       None \<Rightarrow> Inl (Rbac (not_found ''role_not_found''))
     | Some role \<Rightarrow>
         if r_deleted_at role \<noteq> None \<or> (\<not> include_inactive \<and> \<not> r_is_active role)
         then Inl (Rbac (not_found ''role_not_found''))
         else
           let permission_rows = lock_role_permissions db role_id in
           bindE (load_role_grant db role_id True False) (\<lambda>role_before.
           bindE (raise_unless (is_administrative_role_visible actor role_before)
                    (Rbac (not_found ''role_not_found''))) (\<lambda>_.
           bindE (mapE (\<lambda>i. case map_of users i of None \<Rightarrow> Inl Key_error | Some u \<Rightarrow> Inr u)
                    (sorted_list_of_set affected_ids)) (\<lambda>affected_users.
           let by_id = load_authority_snapshots_for_users db affected_users True in
           bindE (mapE (\<lambda>u. case map_of by_id (u_id u) of None \<Rightarrow> Inl Key_error | Some s \<Rightarrow> Inr s)
                    affected_users) (\<lambda>affected_before.
             Inr \<lparr>l_actor = actor, l_role = role, l_role_before = role_before,
                  l_affected_before = affected_before, l_affected_ids = affected_ids,
                  l_state = state, l_users = users, l_permission_rows = permission_rows\<rparr>))))))))"

definition actor_holds_role :: "locked_shared_role \<Rightarrow> bool" where
  "actor_holds_role locked \<longleftrightarrow> a_user_id (l_actor locked) \<in> l_affected_ids locked"

definition require_role_administration ::
    "locked_shared_role \<Rightarrow> role_administration \<Rightarrow> failure + unit" where
  "require_role_administration locked oper =
     require_allowed (decide_role_administration oper (l_actor locked) (l_role_before locked)
       (actor_holds_role locked) (l_affected_before locked))"

text \<open>
  \<open>_bump_shared_authority\<close>: the version of the role, the authority version of every live
  holder and the epoch. \<open>role\<close> is the loaded role with its other changes.
\<close>

definition next_version :: "role \<Rightarrow> role" where
  "next_version role = role\<lparr>r_version := r_version role + 1\<rparr>"

definition bump_shared_authority :: "locked_shared_role \<Rightarrow> role \<Rightarrow> database \<Rightarrow> database" where
  "bump_shared_authority locked role db =
     save_state (next_epoch (l_state locked))
       ((save_role (next_version role) db)
          \<lparr>db_users := update_where (\<lambda>u. u_id u \<in> l_affected_ids locked)
             (\<lambda>u. u\<lparr>u_authz_version := u_authz_version u + 1\<rparr>) (db_users db)\<rparr>)"

definition role_outcome ::
    "bool \<Rightarrow> string \<Rightarrow> role_response \<Rightarrow> role_response \<Rightarrow> role_mutation mutation_outcome" where
  "role_outcome changed reason before after =
     \<lparr>o_value = \<lparr>rm_changed = changed, rm_role = after\<rparr>, o_reason_code = reason,
      o_before_state = Some (role_payload before), o_after_state = Some (role_payload after),
      o_audit_target_role_id = None\<rparr>"

subsection \<open>Updating, enabling, disabling and deleting a role\<close>

record role_update_request =
  ru_name :: "pystr option"
  ru_description :: "pystr option"

definition update_role_operation ::
    "authorization_context \<Rightarrow> uuid \<Rightarrow> role_update_request \<Rightarrow> int \<Rightarrow> role_mutation operation" where
  "update_role_operation ctx role_id request expected_version db =
     bindE (lock_shared_role_change db ctx role_id ROLES_UPDATE True) (\<lambda>locked.
     bindE (require_role_administration locked UPDATE) (\<lambda>_.
     bindE (require_expected_role_version (l_role locked) expected_version) (\<lambda>_.
     let role = l_role locked;
         permissions = g_permissions (l_role_before locked);
         role_before = role_response role permissions;
         renamed = (ru_name request \<noteq> None \<and> ru_name request \<noteq> Some (r_name role));
         role = (if renamed then role\<lparr>r_name := the (ru_name request)\<rparr> else role);
         described = (ru_description request \<noteq> None \<and>
                      ru_description request \<noteq> Some (r_description role));
         role = (if described then role\<lparr>r_description := the (ru_description request)\<rparr> else role);
         changed = (renamed \<or> described);
         role = (if changed then next_version role else role);
         db' = (if changed then save_state (next_epoch (l_state locked)) (save_role role db) else db)
     in Inr (role_outcome changed (if changed then ''role_updated'' else ''role_unchanged'')
               role_before (role_response role permissions), db'))))"

definition update_role ::
    "unicode_db \<Rightarrow> authorization_context \<Rightarrow> uuid \<Rightarrow> role_update_request \<Rightarrow> int \<Rightarrow> database \<Rightarrow>
     (failure + role_mutation) \<times> database" where
  "update_role uc ctx role_id request expected_version =
     run_audited uc ctx ''role.update'' None (Some role_id)
       (update_role_operation ctx role_id request expected_version)"

definition set_role_active_operation ::
    "authorization_context \<Rightarrow> uuid \<Rightarrow> bool \<Rightarrow> int \<Rightarrow> role_mutation operation" where
  "set_role_active_operation ctx role_id is_active expected_version db =
     bindE (lock_shared_role_change db ctx role_id ROLES_STATUS_UPDATE True) (\<lambda>locked.
     bindE (require_role_administration locked (if is_active then ENABLE else DISABLE)) (\<lambda>_.
     bindE (require_expected_role_version (l_role locked) expected_version) (\<lambda>_.
     let role = l_role locked;
         permissions = g_permissions (l_role_before locked);
         role_before = role_response role permissions;
         changed = (r_is_active role \<noteq> is_active);
         role = (if changed then role\<lparr>r_is_active := is_active\<rparr> else role);
         db' = (if changed then bump_shared_authority locked role db else db);
         role_after = role_response (if changed then next_version role else role) permissions
     in Inr (role_outcome changed
               (if changed then (if is_active then ''role_enabled'' else ''role_disabled'')
                else ''role_status_unchanged'')
               role_before role_after, db'))))"

definition set_role_active ::
    "unicode_db \<Rightarrow> authorization_context \<Rightarrow> uuid \<Rightarrow> bool \<Rightarrow> int \<Rightarrow> database \<Rightarrow>
     (failure + role_mutation) \<times> database" where
  "set_role_active uc ctx role_id is_active expected_version =
     run_audited uc ctx (if is_active then ''role.enable'' else ''role.disable'') None (Some role_id)
       (set_role_active_operation ctx role_id is_active expected_version)"

definition delete_role_permissions ::
    "(role_permission \<Rightarrow> bool) \<Rightarrow> int \<Rightarrow> uuid \<Rightarrow> role_permission list \<Rightarrow> role_permission list" where
  "delete_role_permissions p deleted_at actor_id =
     update_where (\<lambda>rp. p rp \<and> live_rp rp)
       (\<lambda>rp. rp\<lparr>rp_deleted_at := Some deleted_at, rp_deleted_by_user_id := Some actor_id\<rparr>)"

definition soft_delete_role_operation ::
    "int \<Rightarrow> authorization_context \<Rightarrow> uuid \<Rightarrow> int \<Rightarrow> role_mutation operation" where
  "soft_delete_role_operation now ctx role_id expected_version db =
     bindE (lock_shared_role_change db ctx role_id ROLES_DELETE True) (\<lambda>locked.
     bindE (require_role_administration locked DELETE) (\<lambda>_.
     bindE (require_expected_role_version (l_role locked) expected_version) (\<lambda>_.
     let actor_id = a_user_id (l_actor locked);
         role_before = role_response (l_role locked) (g_permissions (l_role_before locked));
         role = (l_role locked)\<lparr>r_is_active := False, r_deleted_at := Some now,
                   r_deleted_by_user_id := Some actor_id\<rparr>;
         db' = db\<lparr>db_user_roles := delete_assignments (\<lambda>ur. ur_role_id ur = role_id) now actor_id
                     (db_user_roles db),
                  db_role_permissions := delete_role_permissions (\<lambda>rp. rp_role_id rp = role_id) now
                     actor_id (db_role_permissions db)\<rparr>
     in Inr (role_outcome True ''role_soft_deleted'' role_before
               (role_response (next_version role) {}),
             bump_shared_authority locked role db'))))"

definition soft_delete_role ::
    "unicode_db \<Rightarrow> int \<Rightarrow> authorization_context \<Rightarrow> uuid \<Rightarrow> int \<Rightarrow> database \<Rightarrow>
     (failure + role_mutation) \<times> database" where
  "soft_delete_role uc now ctx role_id expected_version =
     run_audited uc ctx ''role.delete'' None (Some role_id)
       (soft_delete_role_operation now ctx role_id expected_version)"

subsection \<open>Changing the permissions of a role\<close>

definition new_grants :: "uuid \<Rightarrow> uuid \<Rightarrow> uuid list \<Rightarrow> role_permission list" where
  "new_grants role_id actor_id permission_ids =
     map (\<lambda>i. \<lparr>rp_role_id = role_id, rp_permission_id = i, rp_assigned_by_user_id = Some actor_id,
              rp_deleted_at = None, rp_deleted_by_user_id = None\<rparr>) permission_ids"

text \<open>The keys of the role after the change, and the grant rows it leaves.\<close>

definition permission_keys_after :: "role_operation \<Rightarrow> string set \<Rightarrow> string set \<Rightarrow> string set" where
  "permission_keys_after oper before requested =
     (if oper = BIND then before \<union> requested else before - requested)"

definition changed_grants ::
    "database \<Rightarrow> int \<Rightarrow> role_operation \<Rightarrow> uuid \<Rightarrow> uuid \<Rightarrow> uuid set \<Rightarrow> (uuid \<times> string) list \<Rightarrow>
     string set \<Rightarrow> role_permission list" where
  "changed_grants db now oper role_id actor_id requested keys_by_id existing =
     (if oper = BIND
      then db_role_permissions db @ new_grants role_id actor_id
             (map fst (filter (\<lambda>item. snd item \<notin> existing) keys_by_id))
      else delete_role_permissions
             (\<lambda>rp. rp_role_id rp = role_id \<and> rp_permission_id rp \<in> requested)
             now actor_id (db_role_permissions db))"

definition change_role_permissions_operation ::
    "int \<Rightarrow> authorization_context \<Rightarrow> uuid \<Rightarrow> uuid set \<Rightarrow> role_operation \<Rightarrow> int \<Rightarrow>
     role_mutation operation" where
  "change_role_permissions_operation now ctx role_id requested oper expected_version db =
     bindE (lock_shared_role_change db ctx role_id
              (if oper = BIND then ROLES_PERMISSIONS_BIND else ROLES_PERMISSIONS_UNBIND) False)
       (\<lambda>locked.
     let keys_by_id = load_permission_keys db requested in
     bindE (raise_unless (fst ` set keys_by_id = requested)
              (Rbac (invalid_request ''unknown_permission_id''))) (\<lambda>_.
     let requested_keys = snd ` set keys_by_id in
     bindE (raise_unless (requested_keys \<subseteq> SUPER_ADMIN_PERMISSION_KEYS)
              (Rbac (invalid_request ''permission_outside_control_plane''))) (\<lambda>_.
     let keys_before = g_permissions (l_role_before locked);
         keys_after = permission_keys_after oper keys_before requested_keys;
         replacement = (l_role_before locked)\<lparr>g_permissions := keys_after\<rparr>;
         affected_after = map (\<lambda>s. with_role s replacement) (l_affected_before locked)
     in
     bindE (require_allowed (decide_role_permissions_change oper (l_actor locked)
              (l_role_before locked) keys_after (actor_holds_role locked) affected_after)) (\<lambda>_.
     bindE (require_expected_role_version (l_role locked) expected_version) (\<lambda>_.
     let actor_id = a_user_id (l_actor locked);
         role = l_role locked;
         role_before = role_response role keys_before;
         changed = (keys_before \<noteq> keys_after);
         grants = changed_grants db now oper role_id actor_id requested keys_by_id
                    (fst ` set (l_permission_rows locked));
         db' = (if changed
                then bump_shared_authority locked role (db\<lparr>db_role_permissions := grants\<rparr>)
                else db);
         role_after = role_response (if changed then next_version role else role) keys_after
     in Inr (role_outcome changed
               (if changed
                then (if oper = BIND then ''role_permissions_bound'' else ''role_permissions_unbound'')
                else ''role_permissions_unchanged'')
               role_before role_after, db'))))))"

definition change_role_permissions ::
    "unicode_db \<Rightarrow> int \<Rightarrow> authorization_context \<Rightarrow> uuid \<Rightarrow> uuid list \<Rightarrow> string \<Rightarrow> int \<Rightarrow>
     database \<Rightarrow> (failure + role_mutation) \<times> database" where
  "change_role_permissions uc now ctx role_id permission_ids operation expected_version db =
     (case require_role_operation operation of
        Inl e \<Rightarrow> (Inl e, db)
      | Inr oper \<Rightarrow>
          if set permission_ids = {}
          then (Inl (Rbac (invalid_request ''permission_ids_required'')), db)
          else run_audited uc ctx (''role.permissions.'' @ role_operation_value oper) None
                 (Some role_id)
                 (change_role_permissions_operation now ctx role_id (set permission_ids) oper
                    expected_version) db)"

end
