(* ===== verification/Steps.thy ===== *)
theory Steps
  imports Invariants Role_Service
begin

text \<open>
  The elementary changes the services make to the tables, each shown to be sound: from a
  well-formed database it leads to a well-formed one, keeps the history of every row and
  touches no grant of a system role. An operation is a chain of such changes.
\<close>

definition sound_step :: "database \<Rightarrow> database \<Rightarrow> bool" where
  "sound_step old new \<longleftrightarrow>
     wf new \<and> evolves old new \<and> system_grants new = system_grants old \<and>
     super_admin_holders new = super_admin_holders old"

lemma sound_step_refl: "wf db \<Longrightarrow> sound_step db db"
  by (simp add: sound_step_def)

lemma sound_step_trans: "sound_step a b \<Longrightarrow> sound_step b c \<Longrightarrow> sound_step a c"
  by (auto simp: sound_step_def intro: evolves_trans)

lemma sound_step_wf: "sound_step a b \<Longrightarrow> wf b"
  by (simp add: sound_step_def)

lemma evolves_system_roles: "evolves old new \<Longrightarrow> system_roles_kept old new"
proof -
  assume "evolves old new"
  then have roles: "table_step role_step (db_roles old) (db_roles new)"
    by (simp add: evolves_def)
  have "\<exists>r' \<in> set (db_roles new). r'\<lparr>r_version := r_version r\<rparr> = r"
    if r: "r \<in> set (db_roles old)" "r_is_system r" for r
  proof -
    obtain i where i: "i < length (db_roles old)" "r = db_roles old ! i"
      using r(1) by (auto simp: in_set_conv_nth)
    then have "role_step r (db_roles new ! i)" "db_roles new ! i \<in> set (db_roles new)"
      using roles by (auto simp: table_step_iff)
    then show ?thesis using r(2) by (auto simp: role_step_def)
  qed
  then show ?thesis
    by (auto simp: system_roles_kept_def list_all_iff list_ex_iff)
qed

lemma sound_step_committable: "sound_step old new \<Longrightarrow> committable old new"
  by (auto simp: sound_step_def committable_def evolves_system_roles evolves_def)

lemma transaction_sound:
  "body db = Inr (x, db') \<Longrightarrow> sound_step db db' \<Longrightarrow> transaction body db = (Inr x, db')"
  by (simp add: transaction_commits sound_step_committable sound_step_wf)

subsection \<open>Roles with a reserved key\<close>

definition keyed :: "database \<Rightarrow> string \<Rightarrow> uuid \<Rightarrow> bool" where
  "keyed db k i \<longleftrightarrow> list_ex (\<lambda>r. r_id r = i \<and> r_key r = k \<and> live_role r) (db_roles db)"

lemma has_base_role_keyed:
  "has_base_role db uid \<longleftrightarrow>
     ((\<exists>u \<in> set (db_users db). u_id u = uid \<and> live_user u) \<longrightarrow>
      (\<exists>ur \<in> set (db_user_roles db). ur_user_id ur = uid \<and> live_ur ur \<and> keyed db ''user'' (ur_role_id ur)))"
  by (auto simp: has_base_role_def keyed_def live_assignments_def list_ex_iff)

lemma super_admin_holders_keyed:
  "super_admin_holders db =
     map ur_user_id (filter (\<lambda>ur. live_ur ur \<and> keyed db ''super_admin'' (ur_role_id ur)) (db_user_roles db))"
  by (simp add: super_admin_holders_def super_admin_assignments_def keyed_def conj_commute)

subsection \<open>Users and the state row\<close>

lemma user_update_frame:
  assumes "\<And>u. u \<in> set (db_users db) \<Longrightarrow> p u \<Longrightarrow> user_step u (f u)"
  shows "map u_id (update_where p f (db_users db)) = map u_id (db_users db)"
    and "map u_user_name (update_where p f (db_users db)) = map u_user_name (db_users db)"
    and "map (\<lambda>u. (u_id u, u_deleted_at u, u_deleted_by_user_id u)) (update_where p f (db_users db))
      = map (\<lambda>u. (u_id u, u_deleted_at u, u_deleted_by_user_id u)) (db_users db)"
  using assms by (auto intro!: map_update_where simp: user_step_def)

lemma ids_of_users: "u_id ` set us = fst ` set (map (\<lambda>u. (u_id u, u_deleted_at u, u_deleted_by_user_id u)) us)"
  by (simp add: image_image)

lemma live_users_of:
  "(\<exists>u \<in> set us. u_id u = uid \<and> live_user u) \<longleftrightarrow>
     (\<exists>t \<in> set (map (\<lambda>u. (u_id u, u_deleted_at u, u_deleted_by_user_id u)) us). fst t = uid \<and> fst (snd t) = None)"
  by auto

lemma deleters_of:
  "list_all (\<lambda>u. set_option (u_deleted_by_user_id u) \<subseteq> ids) us \<longleftrightarrow>
     list_all (\<lambda>t. set_option (snd (snd t)) \<subseteq> ids)
       (map (\<lambda>u. (u_id u, u_deleted_at u, u_deleted_by_user_id u)) us)"
  by (simp add: list_all_iff)

lemma sound_update_users:
  assumes "wf db"
    and step: "\<And>u. u \<in> set (db_users db) \<Longrightarrow> p u \<Longrightarrow> user_step u (f u) \<and> user_checks (f u)"
  shows "sound_step db (db\<lparr>db_users := update_where p f (db_users db)\<rparr>)" (is "sound_step db ?new")
proof -
  note frame = user_update_frame [of db p f, OF step [THEN conjunct1]]
  have wfs: "keys_ok db" "names_ok db" "references_ok db" "actors_ok db" "rows_ok db"
    "state_ok db" "audit_ok db" "length (super_admin_holders db) = 1"
    using \<open>wf db\<close> by (simp_all add: wf_def)
  have "keys_ok ?new" "names_ok ?new"
    using wfs frame by (simp_all add: keys_ok_def names_ok_def)
  moreover have "references_ok ?new"
    using wfs(3) by (simp add: references_ok_def ids_of_users frame(3) del: set_map)
  moreover have "actors_ok ?new"
    using wfs(4) by (simp add: actors_ok_def Let_def ids_of_users deleters_of frame(3) del: set_map)
  moreover have "rows_ok ?new"
    using wfs(5) step by (auto simp: rows_ok_def list_all_iff set_update_where)
  moreover have "state_ok ?new" "audit_ok ?new"
    using wfs by (simp_all add: state_ok_def audit_ok_def)
  moreover have "subjects_ok ?new"
  proof (rule subjects_okI)
    fix uid
    show "max_ten_live ?new uid"
      using max_ten_live_wf [OF \<open>wf db\<close>] by (simp add: max_ten_live_def live_assignments_def)
    show "has_base_role ?new uid"
      using has_base_role_wf [OF \<open>wf db\<close>, of uid]
      unfolding has_base_role_keyed live_users_of by (simp add: frame(3) keyed_def del: set_map)
  qed
  moreover have "super_admin_holders ?new = super_admin_holders db"
    by (simp add: super_admin_holders_keyed keyed_def)
  moreover have "evolves db ?new"
    using step by (simp add: evolves_def table_step_update)
  moreover have "system_grants ?new = system_grants db"
    by (simp add: system_grants_def)
  ultimately show ?thesis
    using wfs(8) by (simp add: sound_step_def wf_def)
qed

lemma sound_save_user:
  assumes "wf db" "row \<in> set (db_users db)" "user_step row row'" "user_checks row'"
  shows "sound_step db (save_user row' db)"
  unfolding save_user_def
proof (rule sound_update_users [OF assms(1)])
  fix u assume u: "u \<in> set (db_users db)" "u_id u = u_id row'"
  then have "u = row"
    using wf_same_user [OF assms(1) _ assms(2)] assms(3) by (simp add: user_step_def)
  with assms show "user_step u row' \<and> user_checks row'" by simp
qed

lemma sound_save_state:
  assumes "wf db" "db_state db = Some s" "st_epoch s \<le> st_epoch s'"
  shows "sound_step db (save_state s' db)"
  using assms
  by (auto simp: sound_step_def wf_def save_state_def keys_ok_def names_ok_def references_ok_def
      actors_ok_def rows_ok_def state_ok_def audit_ok_def subjects_ok_def state_checks_def
      max_ten_live_def live_assignments_def has_base_role_def super_admin_holders_def
      super_admin_assignments_def evolves_def state_step_def system_grants_def row_user_ids_def)

lemma sound_next_epoch:
  "wf db \<Longrightarrow> db_state db = Some s \<Longrightarrow> sound_step db (save_state (next_epoch s) db)"
  by (rule sound_save_state [where s = s]) (simp_all add: next_epoch_def)

subsection \<open>Assignments\<close>

lemma live_pairs_append [simp]:
  "live_pairs_ur (xs @ ys) = live_pairs_ur xs @ live_pairs_ur ys"
  "live_pairs_rp (as @ bs) = live_pairs_rp as @ live_pairs_rp bs"
  by (simp_all add: live_pairs_ur_def live_pairs_rp_def)

lemma live_pairs_new_assignments:
  "live_pairs_ur (new_assignments t ids a) = map (Pair t) (sorted_list_of_set ids)"
  by (simp add: live_pairs_ur_def new_assignments_def filter_map comp_def)

lemma new_assignment_row:
  "finite ids \<Longrightarrow> ur \<in> set (new_assignments t ids a) \<longleftrightarrow> (\<exists>i \<in> ids. ur =
     \<lparr>ur_user_id = t, ur_role_id = i, ur_assigned_by_user_id = Some a, ur_deleted_at = None,
      ur_deleted_by_user_id = None\<rparr>)"
  by (auto simp: new_assignments_def)

lemma wf_assignmentsI:
  assumes "wf db"
    and "distinct (live_pairs_ur urs)"
    and "list_all (\<lambda>ur. ur_user_id ur \<in> u_id ` set (db_users db) \<and> ur_role_id ur \<in> r_id ` set (db_roles db)) urs"
    and "list_all (\<lambda>ur. set_option (ur_assigned_by_user_id ur) \<subseteq> u_id ` set (db_users db) \<and>
      set_option (ur_deleted_by_user_id ur) \<subseteq> u_id ` set (db_users db)) urs"
    and "list_all user_role_checks urs"
    and "\<And>uid. length (filter (\<lambda>ur. ur_user_id ur = uid \<and> live_ur ur) urs) \<le> MAX_ROLES_PER_USER"
    and "\<And>ur. ur \<in> set (db_user_roles db) \<Longrightarrow> live_ur ur \<Longrightarrow> keyed db ''user'' (ur_role_id ur) \<Longrightarrow> ur \<in> set urs"
    and "filter (\<lambda>ur. live_ur ur \<and> keyed db ''super_admin'' (ur_role_id ur)) urs
      = filter (\<lambda>ur. live_ur ur \<and> keyed db ''super_admin'' (ur_role_id ur)) (db_user_roles db)"
  shows "wf (db\<lparr>db_user_roles := urs\<rparr>)" (is "wf ?new")
proof -
  have wfs: "keys_ok db" "names_ok db" "references_ok db" "actors_ok db" "rows_ok db"
    "state_ok db" "audit_ok db" "length (super_admin_holders db) = 1"
    using \<open>wf db\<close> by (simp_all add: wf_def)
  have keyed: "keyed ?new k i = keyed db k i" for k i
    by (simp add: keyed_def)
  have "keys_ok ?new" "names_ok ?new" "references_ok ?new" "rows_ok ?new"
    "state_ok ?new" "audit_ok ?new"
    using wfs assms(2,3,5)
    by (simp_all add: keys_ok_def names_ok_def references_ok_def rows_ok_def state_ok_def audit_ok_def)
  moreover have "actors_ok ?new"
    using wfs(4) assms(4) by (simp add: actors_ok_def Let_def)
  moreover have "subjects_ok ?new"
  proof (rule subjects_okI)
    fix uid
    show "max_ten_live ?new uid"
      using assms(6) by (simp add: max_ten_live_def live_assignments_def)
    show "has_base_role ?new uid"
      using has_base_role_wf [OF \<open>wf db\<close>, of uid] assms(7)
      by (auto simp: has_base_role_keyed keyed)
  qed
  moreover have "length (super_admin_holders ?new) = 1"
    using wfs(8) by (simp add: super_admin_holders_keyed keyed assms(8))
  ultimately show ?thesis
    by (simp add: wf_def)
qed

lemma sound_assignmentsI:
  "wf (db\<lparr>db_user_roles := urs\<rparr>) \<Longrightarrow> table_step assignment_step (db_user_roles db) urs \<Longrightarrow>
   filter (\<lambda>ur. live_ur ur \<and> keyed db ''super_admin'' (ur_role_id ur)) urs
      = filter (\<lambda>ur. live_ur ur \<and> keyed db ''super_admin'' (ur_role_id ur)) (db_user_roles db) \<Longrightarrow>
     sound_step db (db\<lparr>db_user_roles := urs\<rparr>)"
  by (simp add: sound_step_def evolves_def system_grants_def super_admin_holders_keyed keyed_def)

lemma user_id_of_wf:
  "wf db \<Longrightarrow> ur \<in> set (db_user_roles db) \<Longrightarrow> ur_user_id ur \<in> u_id ` set (db_users db) \<and>
     ur_role_id ur \<in> r_id ` set (db_roles db) \<and>
     set_option (ur_assigned_by_user_id ur) \<subseteq> u_id ` set (db_users db) \<and>
     set_option (ur_deleted_by_user_id ur) \<subseteq> u_id ` set (db_users db) \<and> user_role_checks ur"
  by (simp add: wf_def references_ok_def actors_ok_def rows_ok_def Let_def list_all_iff)

lemma sound_add_assignments:
  assumes "wf db" "t \<in> u_id ` set (db_users db)" "a \<in> u_id ` set (db_users db)"
    and "finite ids" "ids \<subseteq> r_id ` set (db_roles db)"
    and fresh: "\<And>i. i \<in> ids \<Longrightarrow> (t, i) \<notin> set (live_pairs_ur (db_user_roles db))"
    and plain: "\<And>i. i \<in> ids \<Longrightarrow> \<not> keyed db ''super_admin'' i"
    and room: "length (live_assignments db t) + card ids \<le> MAX_ROLES_PER_USER"
  shows "sound_step db (db\<lparr>db_user_roles := db_user_roles db @ new_assignments t ids a\<rparr>)"
proof (rule sound_assignmentsI)
  let ?new = "new_assignments t ids a"
  note row = new_assignment_row [OF \<open>finite ids\<close>]
  show super: "filter (\<lambda>ur. live_ur ur \<and> keyed db ''super_admin'' (ur_role_id ur)) (db_user_roles db @ ?new)
      = filter (\<lambda>ur. live_ur ur \<and> keyed db ''super_admin'' (ur_role_id ur)) (db_user_roles db)"
    using plain by (auto simp: filter_empty_conv row)
  show "wf (db\<lparr>db_user_roles := db_user_roles db @ ?new\<rparr>)"
  proof (rule wf_assignmentsI [OF \<open>wf db\<close>])
    have "distinct (live_pairs_ur (db_user_roles db))"
      using wf_keys_ok [OF \<open>wf db\<close>] by (simp add: keys_ok_def)
    then show "distinct (live_pairs_ur (db_user_roles db @ ?new))"
      using fresh \<open>finite ids\<close> by (auto simp: live_pairs_new_assignments distinct_map inj_on_def)
    show "length (filter (\<lambda>ur. ur_user_id ur = uid \<and> live_ur ur) (db_user_roles db @ ?new))
      \<le> MAX_ROLES_PER_USER" for uid
    proof (cases "uid = t")
      case True
      then have "filter (\<lambda>ur. ur_user_id ur = uid \<and> live_ur ur) ?new = ?new"
        by (auto simp: filter_id_conv row)
      then show ?thesis
        using room True by (simp add: live_assignments_def new_assignments_def)
    next
      case False
      then have "filter (\<lambda>ur. ur_user_id ur = uid \<and> live_ur ur) ?new = []"
        by (auto simp: filter_empty_conv row)
      then show ?thesis
        using max_ten_live_wf [OF \<open>wf db\<close>, of uid] by (simp add: max_ten_live_def live_assignments_def)
    qed
    have "list_all (\<lambda>ur. (ur_user_id ur \<in> u_id ` set (db_users db) \<and> ur_role_id ur \<in> r_id ` set (db_roles db)) \<and>
      (set_option (ur_assigned_by_user_id ur) \<subseteq> u_id ` set (db_users db) \<and>
       set_option (ur_deleted_by_user_id ur) \<subseteq> u_id ` set (db_users db)) \<and> user_role_checks ur)
      (db_user_roles db @ ?new)"
      using user_id_of_wf [OF \<open>wf db\<close>] assms(2,3) assms(5) [THEN subsetD]
      unfolding list_all_iff by (simp add: ball_Un) (auto simp: row user_role_checks_def simp del: image_iff)
    then show "list_all (\<lambda>ur. ur_user_id ur \<in> u_id ` set (db_users db) \<and> ur_role_id ur \<in> r_id ` set (db_roles db))
        (db_user_roles db @ ?new)"
      "list_all (\<lambda>ur. set_option (ur_assigned_by_user_id ur) \<subseteq> u_id ` set (db_users db) \<and>
        set_option (ur_deleted_by_user_id ur) \<subseteq> u_id ` set (db_users db)) (db_user_roles db @ ?new)"
      "list_all user_role_checks (db_user_roles db @ ?new)"
      unfolding list_all_iff by blast+
  qed (use super in auto)
qed simp

lemma delete_assignments_live:
  "filter (\<lambda>ur. q ur \<and> live_ur ur) (delete_assignments p d a urs) = filter (\<lambda>ur. q ur \<and> live_ur ur \<and> \<not> p ur) urs"
  by (induction urs) (auto simp: delete_assignments_def)

lemma delete_assignments_row:
  "ur' \<in> set (delete_assignments p d a urs) \<Longrightarrow> \<exists>ur \<in> set urs. assignment_step ur ur' \<and>
     (ur' = ur \<or> ur_deleted_at ur' \<noteq> None \<and> ur_deleted_by_user_id ur' = Some a)"
  by (auto simp: delete_assignments_def set_update_where assignment_step_def)

lemma sound_delete_assignments:
  assumes "wf db" "a \<in> u_id ` set (db_users db)"
    and kept: "\<And>ur. ur \<in> set (db_user_roles db) \<Longrightarrow> live_ur ur \<Longrightarrow> p ur \<Longrightarrow>
      \<not> keyed db ''user'' (ur_role_id ur) \<and> \<not> keyed db ''super_admin'' (ur_role_id ur)"
  shows "sound_step db (db\<lparr>db_user_roles := delete_assignments p d a (db_user_roles db)\<rparr>)"
proof (rule sound_assignmentsI)
  let ?urs = "db_user_roles db"
  let ?new = "delete_assignments p d a ?urs"
  have rows: "(ur_user_id ur' \<in> u_id ` set (db_users db) \<and> ur_role_id ur' \<in> r_id ` set (db_roles db)) \<and>
     (set_option (ur_assigned_by_user_id ur') \<subseteq> u_id ` set (db_users db) \<and>
     set_option (ur_deleted_by_user_id ur') \<subseteq> u_id ` set (db_users db)) \<and> user_role_checks ur'"
    if "ur' \<in> set ?new" for ur'
  proof -
    from delete_assignments_row [OF that] obtain ur where "ur \<in> set ?urs" "assignment_step ur ur'"
      "ur' = ur \<or> ur_deleted_at ur' \<noteq> None \<and> ur_deleted_by_user_id ur' = Some a" by blast
    then show ?thesis
      using user_id_of_wf [OF \<open>wf db\<close>, of ur] \<open>a \<in> _\<close>
      by (auto simp: assignment_step_def user_role_checks_def)
  qed
  have "filter (\<lambda>ur. live_ur ur \<and> keyed db ''super_admin'' (ur_role_id ur)) ?new
      = filter (\<lambda>ur. keyed db ''super_admin'' (ur_role_id ur) \<and> live_ur ur) ?new"
      by (simp add: conj_commute)
  also have "\<dots> = filter (\<lambda>ur. live_ur ur \<and> keyed db ''super_admin'' (ur_role_id ur)) ?urs"
      unfolding delete_assignments_live using kept by (intro filter_cong) auto
  finally show super: "filter (\<lambda>ur. live_ur ur \<and> keyed db ''super_admin'' (ur_role_id ur)) ?new
      = filter (\<lambda>ur. live_ur ur \<and> keyed db ''super_admin'' (ur_role_id ur)) ?urs" .
  show "wf (db\<lparr>db_user_roles := ?new\<rparr>)"
  proof (rule wf_assignmentsI [OF \<open>wf db\<close>])
    have "distinct (map (\<lambda>ur. (ur_user_id ur, ur_role_id ur)) (filter live_ur ?urs))"
      using wf_keys_ok [OF \<open>wf db\<close>] by (simp add: keys_ok_def live_pairs_ur_def)
    then have "distinct (map (\<lambda>ur. (ur_user_id ur, ur_role_id ur)) (filter (\<lambda>ur. \<not> p ur) (filter live_ur ?urs)))"
      by (rule distinct_map_filter)
    then show "distinct (live_pairs_ur ?new)"
      using delete_assignments_live [of "\<lambda>_. True" p d a ?urs]
      by (simp add: live_pairs_ur_def conj_commute)
    show "length (filter (\<lambda>ur. ur_user_id ur = uid \<and> live_ur ur) ?new) \<le> MAX_ROLES_PER_USER" for uid
    proof -
      have "length (filter (\<lambda>ur. ur_user_id ur = uid \<and> live_ur ur) ?new)
        = length (filter (\<lambda>ur. \<not> p ur) (live_assignments db uid))"
        by (simp add: delete_assignments_live live_assignments_def conj_ac)
      also have "\<dots> \<le> length (live_assignments db uid)"
        by (rule length_filter_le)
      finally show ?thesis
        using max_ten_live_wf [OF \<open>wf db\<close>, of uid] by (simp add: max_ten_live_def)
    qed
    show "ur \<in> set ?new" if "ur \<in> set ?urs" "live_ur ur" "keyed db ''user'' (ur_role_id ur)" for ur
      using kept [OF that(1,2)] that by (auto simp: delete_assignments_def set_update_where)
  qed (use rows super in \<open>auto simp: list_all_iff\<close>)
  show "table_step assignment_step ?urs ?new"
    unfolding delete_assignments_def by (rule table_step_update) (auto simp: assignment_step_def)
qed

subsection \<open>Grants of custom roles\<close>

definition system_role_id :: "database \<Rightarrow> uuid \<Rightarrow> bool" where
  "system_role_id db i \<longleftrightarrow> list_ex (\<lambda>r. r_id r = i \<and> r_is_system r) (db_roles db)"

lemma system_grants_ids:
  "system_grants db = filter (\<lambda>rp. system_role_id db (rp_role_id rp)) (db_role_permissions db)"
  by (simp add: system_grants_def system_role_id_def)

lemma custom_role_id:
  "wf db \<Longrightarrow> r \<in> set (db_roles db) \<Longrightarrow> \<not> r_is_system r \<Longrightarrow> \<not> system_role_id db (r_id r)"
  using wf_same_role by (auto simp: system_role_id_def list_ex_iff)

lemma wf_grantsI:
  assumes "wf db"
    and "distinct (live_pairs_rp rps)"
    and "list_all (\<lambda>rp. rp_role_id rp \<in> r_id ` set (db_roles db) \<and>
      rp_permission_id rp \<in> p_id ` set (db_permissions db)) rps"
    and "list_all (\<lambda>rp. set_option (rp_assigned_by_user_id rp) \<subseteq> u_id ` set (db_users db) \<and>
      set_option (rp_deleted_by_user_id rp) \<subseteq> u_id ` set (db_users db)) rps"
    and "list_all role_permission_checks rps"
  shows "wf (db\<lparr>db_role_permissions := rps\<rparr>)"
  using assms
  by (simp add: wf_def keys_ok_def names_ok_def references_ok_def rows_ok_def state_ok_def
      audit_ok_def actors_ok_def Let_def subjects_ok_def max_ten_live_def live_assignments_def
      has_base_role_def super_admin_holders_def super_admin_assignments_def row_user_ids_def)

lemma sound_grantsI:
  "wf (db\<lparr>db_role_permissions := rps\<rparr>) \<Longrightarrow> table_step grant_step (db_role_permissions db) rps \<Longrightarrow>
   filter (\<lambda>rp. system_role_id db (rp_role_id rp)) rps = system_grants db \<Longrightarrow>
     sound_step db (db\<lparr>db_role_permissions := rps\<rparr>)"
  by (simp add: sound_step_def evolves_def system_grants_ids system_role_id_def
      super_admin_holders_keyed keyed_def)

lemma grant_row_of_wf:
  "wf db \<Longrightarrow> rp \<in> set (db_role_permissions db) \<Longrightarrow> rp_role_id rp \<in> r_id ` set (db_roles db) \<and>
     rp_permission_id rp \<in> p_id ` set (db_permissions db) \<and>
     set_option (rp_assigned_by_user_id rp) \<subseteq> u_id ` set (db_users db) \<and>
     set_option (rp_deleted_by_user_id rp) \<subseteq> u_id ` set (db_users db) \<and> role_permission_checks rp"
  by (simp add: wf_def references_ok_def actors_ok_def rows_ok_def Let_def list_all_iff)

lemma live_pairs_new_grants: "live_pairs_rp (new_grants i a ids) = map (Pair i) ids"
  by (simp add: live_pairs_rp_def new_grants_def filter_map comp_def)

lemma sound_add_grants:
  assumes "wf db" "a \<in> u_id ` set (db_users db)" "r \<in> set (db_roles db)" "\<not> r_is_system r"
    and "distinct ids" "set ids \<subseteq> p_id ` set (db_permissions db)"
    and fresh: "\<And>i. i \<in> set ids \<Longrightarrow> (r_id r, i) \<notin> set (live_pairs_rp (db_role_permissions db))"
  shows "sound_step db (db\<lparr>db_role_permissions := db_role_permissions db @ new_grants (r_id r) a ids\<rparr>)"
proof (rule sound_grantsI)
  let ?new = "new_grants (r_id r) a ids"
  show "wf (db\<lparr>db_role_permissions := db_role_permissions db @ ?new\<rparr>)"
  proof (rule wf_grantsI [OF \<open>wf db\<close>])
    have "distinct (live_pairs_rp (db_role_permissions db))"
      using wf_keys_ok [OF \<open>wf db\<close>] by (simp add: keys_ok_def)
    then show "distinct (live_pairs_rp (db_role_permissions db @ ?new))"
      using fresh \<open>distinct ids\<close> by (auto simp: live_pairs_new_grants distinct_map inj_on_def)
  qed (use grant_row_of_wf [OF \<open>wf db\<close>] assms(2,3,6) in
      \<open>auto simp: list_all_iff new_grants_def role_permission_checks_def\<close>)
  have "filter (\<lambda>rp. system_role_id db (rp_role_id rp)) ?new = []"
    using custom_role_id [OF assms(1,3,4)] by (auto simp: filter_empty_conv new_grants_def)
  then show "filter (\<lambda>rp. system_role_id db (rp_role_id rp)) (db_role_permissions db @ ?new) = system_grants db"
    by (simp add: system_grants_ids)
qed simp

lemma delete_role_permissions_row:
  "rp' \<in> set (delete_role_permissions p d a rps) \<Longrightarrow> \<exists>rp \<in> set rps. grant_step rp rp' \<and>
     (rp' = rp \<or> rp_deleted_at rp' \<noteq> None \<and> rp_deleted_by_user_id rp' = Some a)"
  by (auto simp: delete_role_permissions_def set_update_where grant_step_def)

lemma delete_role_permissions_live:
  "filter live_rp (delete_role_permissions p d a rps) = filter (\<lambda>rp. \<not> p rp) (filter live_rp rps)"
  by (induction rps) (auto simp: delete_role_permissions_def)

lemma filter_update_where:
  "(\<And>x. x \<in> set xs \<Longrightarrow> p x \<Longrightarrow> \<not> q x \<and> \<not> q (f x)) \<Longrightarrow> filter q (update_where p f xs) = filter q xs"
  by (induction xs) auto

lemma sound_delete_grants:
  assumes "wf db" "a \<in> u_id ` set (db_users db)" "r \<in> set (db_roles db)" "\<not> r_is_system r"
    and only: "\<And>rp. rp \<in> set (db_role_permissions db) \<Longrightarrow> p rp \<Longrightarrow> rp_role_id rp = r_id r"
  shows "sound_step db (db\<lparr>db_role_permissions := delete_role_permissions p d a (db_role_permissions db)\<rparr>)"
proof (rule sound_grantsI)
  let ?new = "delete_role_permissions p d a (db_role_permissions db)"
  have rows: "(rp_role_id rp' \<in> r_id ` set (db_roles db) \<and> rp_permission_id rp' \<in> p_id ` set (db_permissions db)) \<and>
     (set_option (rp_assigned_by_user_id rp') \<subseteq> u_id ` set (db_users db) \<and>
     set_option (rp_deleted_by_user_id rp') \<subseteq> u_id ` set (db_users db)) \<and> role_permission_checks rp'"
    if "rp' \<in> set ?new" for rp'
  proof -
    from delete_role_permissions_row [OF that] obtain rp where "rp \<in> set (db_role_permissions db)"
      "grant_step rp rp'"
      "rp' = rp \<or> rp_deleted_at rp' \<noteq> None \<and> rp_deleted_by_user_id rp' = Some a" by blast
    then show ?thesis
      using grant_row_of_wf [OF \<open>wf db\<close>, of rp] \<open>a \<in> _\<close>
      by (auto simp: grant_step_def role_permission_checks_def)
  qed
  show "wf (db\<lparr>db_role_permissions := ?new\<rparr>)"
  proof (rule wf_grantsI [OF \<open>wf db\<close>])
    have "distinct (live_pairs_rp (db_role_permissions db))"
      using wf_keys_ok [OF \<open>wf db\<close>] by (simp add: keys_ok_def)
    then show "distinct (live_pairs_rp ?new)"
      unfolding live_pairs_rp_def delete_role_permissions_live by (rule distinct_map_filter)
  qed (use rows in \<open>auto simp: list_all_iff\<close>)
  show "table_step grant_step (db_role_permissions db) ?new"
    unfolding delete_role_permissions_def by (rule table_step_update) (auto simp: grant_step_def)
  show "filter (\<lambda>rp. system_role_id db (rp_role_id rp)) ?new = system_grants db"
    unfolding delete_role_permissions_def system_grants_ids
    using only custom_role_id [OF assms(1,3,4)] by (intro filter_update_where) auto
qed

subsection \<open>Roles\<close>

lemma wf_rolesI:
  assumes "wf db"
    and "distinct (map r_id rs)" "distinct (map r_key rs)" "list_all role_checks rs"
    and "r_id ` set (db_roles db) \<subseteq> r_id ` set rs"
    and "list_all (\<lambda>r. set_option (r_deleted_by_user_id r) \<subseteq> u_id ` set (db_users db)) rs"
    and keyed: "\<And>k i. k = ''user'' \<or> k = ''super_admin'' \<Longrightarrow> keyed (db\<lparr>db_roles := rs\<rparr>) k i = keyed db k i"
  shows "wf (db\<lparr>db_roles := rs\<rparr>)" (is "wf ?new")
proof -
  have wfs: "keys_ok db" "names_ok db" "references_ok db" "actors_ok db" "rows_ok db"
    "state_ok db" "audit_ok db" "length (super_admin_holders db) = 1"
    using \<open>wf db\<close> by (simp_all add: wf_def)
  have "keys_ok ?new" "names_ok ?new" "rows_ok ?new" "state_ok ?new" "audit_ok ?new"
    using wfs assms(2-4)
    by (simp_all add: keys_ok_def names_ok_def rows_ok_def state_ok_def audit_ok_def)
  moreover have "references_ok ?new"
    using wfs(3) assms(5) by (auto simp: references_ok_def list_all_iff)
  moreover have "actors_ok ?new"
    using wfs(4) assms(6) by (simp add: actors_ok_def Let_def)
  moreover have "subjects_ok ?new"
  proof (rule subjects_okI)
    fix uid
    show "max_ten_live ?new uid"
      using max_ten_live_wf [OF \<open>wf db\<close>] by (simp add: max_ten_live_def live_assignments_def)
    show "has_base_role ?new uid"
      using has_base_role_wf [OF \<open>wf db\<close>, of uid] by (simp add: has_base_role_keyed keyed)
  qed
  moreover have "length (super_admin_holders ?new) = 1"
    using wfs(8) by (simp add: super_admin_holders_keyed keyed)
  ultimately show ?thesis
    by (simp add: wf_def)
qed

lemma sound_rolesI:
  assumes "wf (db\<lparr>db_roles := rs\<rparr>)" "table_step role_step (db_roles db) rs"
    and "\<And>i. i \<in> r_id ` set (db_roles db) \<Longrightarrow>
      list_ex (\<lambda>r. r_id r = i \<and> r_is_system r) rs = system_role_id db i"
    and "\<And>i. keyed (db\<lparr>db_roles := rs\<rparr>) ''super_admin'' i = keyed db ''super_admin'' i"
    and "wf db"
  shows "sound_step db (db\<lparr>db_roles := rs\<rparr>)"
proof -
  have "system_grants (db\<lparr>db_roles := rs\<rparr>) = system_grants db"
    unfolding system_grants_ids using assms(3) grant_row_of_wf [OF \<open>wf db\<close>]
    by (intro filter_cong) (auto simp: system_role_id_def)
  then show ?thesis
    using assms by (simp add: sound_step_def evolves_def super_admin_holders_keyed)
qed

lemma custom_not_reserved:
  "role_checks r \<Longrightarrow> \<not> r_is_system r \<Longrightarrow> r_key r \<noteq> ''user'' \<and> r_key r \<noteq> ''super_admin'' \<and> r_key r \<noteq> ''admin''"
  using role_checks_keys role_checks_super_admin by blast

lemma list_ex_update_where:
  "(\<And>x. x \<in> set xs \<Longrightarrow> p x \<Longrightarrow> q (f x) = q x) \<Longrightarrow> list_ex q (update_where p f xs) = list_ex q xs"
  by (induction xs) auto

lemma sound_save_role:
  assumes "wf db" "r \<in> set (db_roles db)" "\<not> r_is_system r" "role_step r r'" "role_checks r'"
    and "set_option (r_deleted_by_user_id r') \<subseteq> u_id ` set (db_users db)"
  shows "sound_step db (save_role r' db)"
  unfolding save_role_def
proof (rule sound_rolesI)
  let ?p = "\<lambda>x. r_id x = r_id r'"
  let ?rs = "update_where ?p (\<lambda>_. r') (db_roles db)"
  have only: "x = r" if "x \<in> set (db_roles db)" "?p x" for x
    using that wf_same_role [OF assms(1) _ assms(2)] assms(4) by (simp add: role_step_def)
  have same: "r_id r' = r_id r" "r_key r' = r_key r" "r_is_system r' = r_is_system r"
    using assms(4) by (simp_all add: role_step_def)
  have ids: "map r_id ?rs = map r_id (db_roles db)" "map r_key ?rs = map r_key (db_roles db)"
    using only same by (auto intro!: map_update_where)
  have deleters: "list_all (\<lambda>r. set_option (r_deleted_by_user_id r) \<subseteq> u_id ` set (db_users db)) (db_roles db)"
    using \<open>wf db\<close> by (simp add: wf_def actors_ok_def Let_def)
  have keyed: "keyed (db\<lparr>db_roles := ?rs\<rparr>) k i = keyed db k i" if "k = ''user'' \<or> k = ''super_admin''" for k i
  proof -
    have "r_key r \<noteq> k"
      using custom_not_reserved [OF wf_role_checks [OF assms(1,2)] assms(3)] that by blast
    then show ?thesis
      using only same by (auto simp: keyed_def intro!: list_ex_update_where)
  qed
  show "wf (db\<lparr>db_roles := ?rs\<rparr>)"
  proof (rule wf_rolesI [OF assms(1)])
    show "distinct (map r_id ?rs)" "distinct (map r_key ?rs)"
      unfolding ids using \<open>wf db\<close> by (simp_all add: wf_def keys_ok_def names_ok_def)
    show "list_all role_checks ?rs"
      using wf_role_checks [OF assms(1)] assms(5) by (auto simp: list_all_iff set_update_where)
    show "r_id ` set (db_roles db) \<subseteq> r_id ` set ?rs"
      using arg_cong [OF ids(1), of set] by simp
    show "list_all (\<lambda>r. set_option (r_deleted_by_user_id r) \<subseteq> u_id ` set (db_users db)) ?rs"
      using deleters assms(6) by (auto simp: list_all_iff set_update_where)
  qed (use keyed in blast)
  show "table_step role_step (db_roles db) ?rs"
    using only assms(4) by (intro table_step_update) auto
  show "list_ex (\<lambda>r. r_id r = i \<and> r_is_system r) ?rs = system_role_id db i" for i
    unfolding system_role_id_def using only same by (intro list_ex_update_where) auto
  show "keyed (db\<lparr>db_roles := ?rs\<rparr>) ''super_admin'' i = keyed db ''super_admin'' i" for i
    using keyed by blast
qed fact

lemma sound_add_role:
  assumes "wf db" "r_id r \<notin> r_id ` set (db_roles db)" "r_key r \<notin> r_key ` set (db_roles db)"
    and "\<not> r_is_system r" "role_checks r" "r_deleted_by_user_id r = None"
  shows "sound_step db (db\<lparr>db_roles := db_roles db @ [r]\<rparr>)"
proof (rule sound_rolesI)
  have deleters: "list_all (\<lambda>r. set_option (r_deleted_by_user_id r) \<subseteq> u_id ` set (db_users db)) (db_roles db)"
    using \<open>wf db\<close> by (simp add: wf_def actors_ok_def Let_def)
  have keyed: "keyed (db\<lparr>db_roles := db_roles db @ [r]\<rparr>) k i = keyed db k i" if "k = ''user'' \<or> k = ''super_admin''" for k i
    using custom_not_reserved [OF assms(5,4)] that by (auto simp: keyed_def)
  show "wf (db\<lparr>db_roles := db_roles db @ [r]\<rparr>)"
  proof (rule wf_rolesI [OF assms(1)])
    show "list_all role_checks (db_roles db @ [r])"
      using \<open>wf db\<close> assms(5) by (simp add: wf_def rows_ok_def)
  qed (use \<open>wf db\<close> keyed deleters assms(2,3,6) in \<open>auto simp: wf_def keys_ok_def names_ok_def\<close>)
  show "keyed (db\<lparr>db_roles := db_roles db @ [r]\<rparr>) ''super_admin'' i = keyed db ''super_admin'' i" for i
    using keyed by blast
qed (use assms in \<open>simp_all add: system_role_id_def\<close>)

subsection \<open>Audit events\<close>

lemma sound_add_event:
  "wf db \<Longrightarrow> rbac_audit_checks e \<Longrightarrow> sound_step db (add_rbac_event e db)"
  by (auto simp: sound_step_def add_rbac_event_def wf_def keys_ok_def names_ok_def references_ok_def
      actors_ok_def rows_ok_def state_ok_def audit_ok_def subjects_ok_def max_ten_live_def
      live_assignments_def has_base_role_def super_admin_holders_def super_admin_assignments_def
      evolves_def system_grants_def row_user_ids_def)

lemma sanitize_audit_state_object:
  assumes "sanitize_audit_state uc s = Inr j"
  shows "json_object j"
proof (cases s)
  case None
  with assms show ?thesis by (simp add: sanitize_audit_state_def json_object_def)
next
  case (Some v)
  with assms obtain jv where "audit_json uc v 0 = Inr jv"
    by (auto simp: sanitize_audit_state_def bindE_Inr)
  with Some assms show ?thesis
    by (cases jv) (auto simp: sanitize_audit_state_def json_object_def bindE_Inr split: if_splits)
qed

text \<open>
  Of a payload the sanitizer accepts, a JSONB column stores one without U+0000; a surrogate
  the sanitizer refuses itself.
\<close>

fun value_storable :: "audit_value \<Rightarrow> bool" where
  "value_storable (A_Str s) \<longleftrightarrow> storable s"
| "value_storable (A_Datetime aware iso_text) \<longleftrightarrow> storable (lit (replace_utc iso_text))"
| "value_storable (A_Enum v) \<longleftrightarrow> value_storable v"
| "value_storable (A_Map items) \<longleftrightarrow>
     list_all (\<lambda>(k, v). (case k of None \<Rightarrow> True | Some key \<Rightarrow> storable key) \<and> value_storable v) items"
| "value_storable (A_Seq vs) \<longleftrightarrow> list_all value_storable vs"
| "value_storable _ \<longleftrightarrow> True"

abbreviation state_storable :: "audit_value option \<Rightarrow> bool" where
  "state_storable s \<equiv> (\<forall>v. s = Some v \<longrightarrow> value_storable v)"

lemma audit_json_storable:
  "value_storable v \<Longrightarrow> audit_json uc v d = Inr j \<Longrightarrow> json_storable j"
proof (induction uc v d arbitrary: j rule: audit_json.induct)
  case (1 u v depth)
  have deep: "\<not> depth > MAX_DEPTH"
    using 1(5) by (auto simp: audit_json.simps [of u v])
  note unfolded = 1(5) [unfolded audit_json.simps [of u v depth] if_not_P [OF deep]]
  show ?case
  proof (cases v)
    case (A_Map items)
    then obtain members where j: "j = J_Obj members" and few: "\<not> MAX_COLLECTION_ITEMS < length items"
      and m: "mapE (\<lambda>item. case fst item of
                None \<Rightarrow> Inl (Value_error ''audit state object keys must be strings'')
              | Some key \<Rightarrow> bindE (require_safe_key u key) (\<lambda>_.
                  bindE (audit_json u (snd item) (depth + 1)) (\<lambda>j. Inr (key, j)))) items = Inr members"
      using unfolded by (auto simp: bindE_Inr split: if_splits)
    have "storable (fst y) \<and> json_storable (snd y)" if mem: "y \<in> set members" for y
    proof -
      obtain item where item: "item \<in> set items" and y: "(case fst item of
                None \<Rightarrow> Inl (Value_error ''audit state object keys must be strings'')
              | Some key \<Rightarrow> bindE (require_safe_key u key) (\<lambda>_.
                  bindE (audit_json u (snd item) (depth + 1)) (\<lambda>j. Inr (key, j)))) = Inr y"
        using mapE_Inr_set [OF m mem] by blast
      obtain key where key: "fst item = Some key"
        using y by (cases "fst item") auto
      have ok: "storable key \<and> value_storable (snd item)"
        using 1(4) item key unfolding A_Map by (cases item) (auto simp: list_all_iff)
      obtain jv where "audit_json u (snd item) (depth + 1) = Inr jv" "y = (key, jv)"
        using y key by (auto simp: bindE_Inr)
      then show ?thesis
        using 1(2) [OF deep A_Map few item key conjunct2 [OF ok]] ok by simp
    qed
    then show ?thesis by (auto simp: j list_all_iff)
  next
    case (A_Seq xs)
    then obtain js where j: "j = J_List js" and few: "\<not> MAX_COLLECTION_ITEMS < length xs"
      and m: "mapE (\<lambda>x. audit_json u x (depth + 1)) xs = Inr js"
      using unfolded by (auto simp: bindE_Inr split: if_splits)
    have "json_storable y" if mem: "y \<in> set js" for y
    proof -
      obtain x where x: "x \<in> set xs" "audit_json u x (depth + 1) = Inr y"
        using mapE_Inr_set [OF m mem] by blast
      moreover have "value_storable x"
        using 1(4) x(1) unfolding A_Seq by (simp add: list_all_iff)
      ultimately show ?thesis
        using 1(3) [OF deep A_Seq few] by blast
    qed
    then show ?thesis by (simp add: j list_all_iff)
  next
    case (A_Enum x)
    show ?thesis
      using 1(1) [OF deep A_Enum] 1(4) unfolded by (simp add: A_Enum)
  next
    case (A_UUID i)
    then show ?thesis
      using unfolded storable_plain [OF uuid_str_plain] by auto
  qed (use unfolded 1(4) in \<open>auto split: if_splits\<close>)
qed

lemma sanitize_audit_state_storable:
  assumes s: "state_storable s" "sanitize_audit_state uc s = Inr j"
  shows "column_jsonb j"
proof (cases s)
  case (Some v)
  then obtain jv where jv: "audit_json uc v 0 = Inr jv"
    using s(2) by (auto simp: sanitize_audit_state_def bindE_Inr)
  then have "json_storable jv"
    using s(1) Some audit_json_storable by blast
  then show ?thesis
    using s(2) Some jv by (cases jv) (auto simp: sanitize_audit_state_def bindE_Inr split: if_splits)
qed (use s in \<open>simp add: sanitize_audit_state_def\<close>)

lemma audit_event_checks:
  assumes "audit_event uc ctx action decision reason tu tr before after = Inr e"
    and "decision = ''allowed'' \<or> decision = ''denied''"
    and "state_storable before" "state_storable after"
  shows "rbac_audit_checks e"
proof -
  have source: "audit_source_value s \<in> {''http'', ''service'', ''job'', ''operator'', ''migration''}" for s
    by (cases s) simp_all
  obtain b a where states: "sanitize_audit_state uc before = Inr b" "sanitize_audit_state uc after = Inr a"
    and e: "e = \<lparr>ev_actor_user_id = pr_user_id (c_principal ctx), ev_target_user_id = tu,
      ev_target_role_id = tr, ev_action = action, ev_decision = decision, ev_reason_code = reason,
      ev_source = audit_source_value (c_audit_source ctx), ev_schema_version = 1,
      ev_before_state = b, ev_after_state = a, ev_request_id = c_request_id ctx\<rparr>"
    and fields: "3 \<le> length action" "length action \<le> 120" "fullmatch ACTION_RE (lit action)"
      "reason_code_format reason" "request_id_format (c_request_id ctx)"
    using assms(1)
    by (auto simp: audit_event_def new_rbac_audit_event_def bindE_Inr if_Inl_eq_Inr
        validate_audit_action_def validate_audit_reason_def validate_audit_request_id_def
        request_id_format_def reason_code_format_def)
  show ?thesis
    using assms(2) source [of "c_audit_source ctx"] fields states [THEN sanitize_audit_state_object]
      sanitize_audit_state_storable [OF assms(3) states(1)] sanitize_audit_state_storable [OF assms(4) states(2)]
    unfolding e rbac_audit_checks_def by simp
qed

end
