(* ===== verification/Access_Laws.thy ===== *)
theory Access_Laws
  imports Steps
begin

text \<open>
  What the locking prologues of \<open>RbacService\<close> establish, and what each operation does to a
  well-formed database: it fails only with an \<open>RbacError\<close>, or it leaves a database that
  commits, reached by sound changes to subjects the actor strictly dominates.
\<close>

subsection \<open>Failing only with a business error\<close>

definition business_only :: "failure + 'a \<Rightarrow> bool" where
  "business_only m \<longleftrightarrow> (\<forall>e. m = Inl e \<longrightarrow> (\<exists>r. e = Rbac r))"

lemma business_only_Inr [intro!]: "business_only (Inr x)"
  by (simp add: business_only_def)

lemma business_only_Rbac [intro!]: "business_only (Inl (Rbac r))"
  by (simp add: business_only_def)

lemma business_only_raise [intro!]: "business_only (raise_unless b (Rbac r))"
  by (simp add: business_only_def raise_unless_def)

lemma business_only_bind [intro!]:
  "business_only m \<Longrightarrow> (\<And>x. m = Inr x \<Longrightarrow> business_only (f x)) \<Longrightarrow> business_only (bindE m f)"
  by (cases m) (auto simp: business_only_def)

lemma business_only_if [intro!]:
  "(b \<Longrightarrow> business_only m) \<Longrightarrow> (\<not> b \<Longrightarrow> business_only n) \<Longrightarrow> business_only (if b then m else n)"
  by simp

lemma business_only_option [intro!]:
  "(x = None \<Longrightarrow> business_only m) \<Longrightarrow> (\<And>y. x = Some y \<Longrightarrow> business_only (f y)) \<Longrightarrow>
     business_only (case x of None \<Rightarrow> m | Some y \<Rightarrow> f y)"
  by (cases x) auto

lemma business_only_Let [intro!]: "business_only (f x) \<Longrightarrow> business_only (Let x f)"
  by simp

lemma business_only_mapE:
  "(\<And>x. x \<in> set xs \<Longrightarrow> business_only (f x)) \<Longrightarrow> business_only (mapE f xs)"
  by (induction xs) auto

lemma bindE_InrE:
  "bindE m f = Inr y \<Longrightarrow> (\<And>x. m = Inr x \<Longrightarrow> f x = Inr y \<Longrightarrow> thesis) \<Longrightarrow> thesis"
  by (auto simp: bindE_Inr)

lemma case_option_InrE:
  "(case x of None \<Rightarrow> Inl e | Some a \<Rightarrow> f a) = Inr y \<Longrightarrow>
     (\<And>a. x = Some a \<Longrightarrow> f a = Inr y \<Longrightarrow> thesis) \<Longrightarrow> thesis"
  by (cases x) auto

lemma if_Inl_InrE: "(if b then Inl e else m) = Inr y \<Longrightarrow> (\<not> b \<Longrightarrow> m = Inr y \<Longrightarrow> thesis) \<Longrightarrow> thesis"
  by (cases b) auto

lemma case_prod_InrE:
  "(case x of (a, b) \<Rightarrow> f a b) = Inr y \<Longrightarrow> (\<And>a b. x = (a, b) \<Longrightarrow> f a b = Inr y \<Longrightarrow> thesis) \<Longrightarrow> thesis"
  by (cases x) auto

lemmas res_elims = case_prod_InrE bindE_InrE case_option_InrE if_Inl_InrE

lemma business_only_allowed [intro!]: "business_only (require_allowed d)"
  by (auto simp: require_allowed_def)

lemma require_allowed_Inr [res_simps]: "require_allowed d = Inr u \<longleftrightarrow> allowed d"
  by (simp add: require_allowed_def res_simps)

lemma require_version_Inr [res_simps]:
  "require_expected_role_version r v = Inr u \<longleftrightarrow> r_version r = v"
  by (simp add: require_expected_role_version_def res_simps)

lemma business_only_version [intro!]: "business_only (require_expected_role_version r v)"
  by (auto simp: require_expected_role_version_def)

subsection \<open>Locked rows\<close>

lemma map_of_keyed_rows:
  assumes "distinct (map g xs)"
  shows "map_of (map (\<lambda>x. (g x, x)) xs) k = Some x \<longleftrightarrow> x \<in> set xs \<and> g x = k"
proof -
  have "distinct (map fst (map (\<lambda>x. (g x, x)) xs))" using assms by (simp add: comp_def)
  then show ?thesis by (auto simp: map_of_eq_Some_iff)
qed

lemma lock_users_lookup:
  assumes "wf db"
  shows "map_of (lock_users db ids) i = Some u \<longleftrightarrow>
     u \<in> set (db_users db) \<and> u_id u = i \<and> i \<in> ids \<and> live_user u"
proof -
  have "distinct (map u_id (db_users db))"
    using wf_keys_ok [OF assms] by (simp add: keys_ok_def)
  then show ?thesis
    unfolding lock_users_def by (subst map_of_keyed_rows) (auto simp: distinct_map intro: inj_on_subset)
qed

lemma lock_roles_lookup:
  assumes "wf db"
  shows "map_of (lock_roles db ids) i = Some r \<longleftrightarrow>
     r \<in> set (db_roles db) \<and> r_id r = i \<and> i \<in> ids \<and> live_role r"
proof -
  have "distinct (map r_id (db_roles db))"
    using wf_keys_ok [OF assms] by (simp add: keys_ok_def)
  then show ?thesis
    unfolding lock_roles_def by (subst map_of_keyed_rows) (auto simp: distinct_map intro: inj_on_subset)
qed

lemma find_live_user:
  assumes "wf db"
  shows "find (\<lambda>u. u_id u = i \<and> live_user u) (db_users db) = Some u \<longleftrightarrow>
     u \<in> set (db_users db) \<and> u_id u = i \<and> live_user u"
proof
  assume u: "u \<in> set (db_users db) \<and> u_id u = i \<and> live_user u"
  then obtain v where v: "find (\<lambda>u. u_id u = i \<and> live_user u) (db_users db) = Some v"
    by (cases "find (\<lambda>u. u_id u = i \<and> live_user u) (db_users db)") (auto simp: find_None_iff)
  then have "v = u"
    using find_SomeD [OF v] u by (auto intro: wf_same_user [OF assms])
  with v show "find (\<lambda>u. u_id u = i \<and> live_user u) (db_users db) = Some u" by simp
qed (auto dest: find_SomeD)

lemma load_authority_snapshot_Inr:
  assumes "wf db"
  shows "load_authority_snapshot db i incl = Inr s \<longleftrightarrow>
     (\<exists>u \<in> set (db_users db). u_id u = i \<and> live_user u \<and> s = authority_spec db incl u)"
proof (cases "find (\<lambda>u. u_id u = i \<and> live_user u) (db_users db)")
  case None
  then have "\<not> (\<exists>u \<in> set (db_users db). u_id u = i \<and> live_user u)"
    by (auto simp: find_None_iff)
  with None show ?thesis
    unfolding load_authority_snapshot_spec [OF wf_keys_ok [OF assms]] by simp
next
  case (Some x)
  then have x: "x \<in> set (db_users db)" "u_id x = i" "live_user x"
    by (auto dest: find_SomeD)
  have "u = x" if "u \<in> set (db_users db)" "u_id u = i" for u
    using wf_same_user [OF assms that(1) x(1)] x(2) that(2) by simp
  then have "(\<exists>u \<in> set (db_users db). u_id u = i \<and> live_user u \<and> s = authority_spec db incl u)
    \<longleftrightarrow> s = authority_spec db incl x"
    using x by blast
  then show ?thesis
    unfolding load_authority_snapshot_spec [OF wf_keys_ok [OF assms]] Some by auto
qed

lemma business_only_snapshot [intro]: "wf db \<Longrightarrow> business_only (load_authority_snapshot db i incl)"
  by (auto simp: load_authority_snapshot_spec wf_keys_ok)

text \<open>The actor of a context: a live, active user whose sessions are still current.\<close>

definition current_actor :: "database \<Rightarrow> authorization_context \<Rightarrow> user \<Rightarrow> bool" where
  "current_actor db ctx u \<longleftrightarrow>
     u \<in> set (db_users db) \<and> live_user u \<and> u_is_active u \<and>
     u_id u = pr_user_id (c_principal ctx) \<and> u_token_version u = pr_token_version (c_principal ctx)"

lemma require_current_actor_Inr:
  assumes "wf db"
  shows "require_current_actor db (pr_user_id (c_principal ctx)) (pr_token_version (c_principal ctx)) = Inr s
    \<longleftrightarrow> (\<exists>u. current_actor db ctx u \<and> s = authority_spec db False u)"
proof (cases "find (\<lambda>u. u_id u = pr_user_id (c_principal ctx) \<and> live_user u) (db_users db)")
  case None
  then have "\<not> current_actor db ctx u" for u
    by (auto simp: current_actor_def find_None_iff)
  with None show ?thesis
    by (simp add: require_current_actor_def)
next
  case (Some x)
  then have x: "x \<in> set (db_users db)" "u_id x = pr_user_id (c_principal ctx)" "live_user x"
    by (auto dest: find_SomeD)
  have only: "u = x" if "u \<in> set (db_users db)" "u_id u = pr_user_id (c_principal ctx)" for u
    using wf_same_user [OF assms that(1) x(1)] that(2) x(2) by simp
  have load: "load_authority_snapshot db (pr_user_id (c_principal ctx)) False = Inr s
    \<longleftrightarrow> s = authority_spec db False x"
    unfolding load_authority_snapshot_Inr [OF assms] using only x by blast
  have cur: "current_actor db ctx u \<longleftrightarrow> u = x \<and> u_is_active x \<and>
      u_token_version x = pr_token_version (c_principal ctx)" for u
    using only x unfolding current_actor_def by blast
  show ?thesis
    unfolding require_current_actor_def Some option.case cur
    by (cases "u_is_active x \<and> u_token_version x = pr_token_version (c_principal ctx)")
       (auto simp: load)
qed

lemma business_only_current_actor [intro]:
  "wf db \<Longrightarrow> business_only (require_current_actor db i tv)"
  by (auto simp: require_current_actor_def)

lemma business_only_actor_row [intro!]: "business_only (require_current_locked_actor_row u ctx)"
  by (auto simp: require_current_locked_actor_row_def)

lemma business_only_lock_state [intro!]: "business_only (lock_rbac_state db)"
  by (auto simp: lock_rbac_state_def)

lemma lock_rbac_state_Inr: "lock_rbac_state db = Inr s \<longleftrightarrow> db_state db = Some s"
  by (auto simp: lock_rbac_state_def split: option.splits)

lemma actor_row_Inr:
  "require_current_locked_actor_row u ctx = Inr x \<longleftrightarrow>
     u = Some x \<and> u_is_active x \<and> u_token_version x = pr_token_version (c_principal ctx)"
  by (auto simp: require_current_locked_actor_row_def split: option.splits)

lemma current_actor_unique:
  "wf db \<Longrightarrow> current_actor db ctx u \<Longrightarrow> current_actor db ctx v \<Longrightarrow> u = v"
  by (auto simp: current_actor_def intro: wf_same_user)

subsection \<open>Locking an actor and a target\<close>

definition target_locked ::
    "database \<Rightarrow> authorization_context \<Rightarrow> uuid \<Rightarrow> permission_key \<Rightarrow> user \<Rightarrow> user \<Rightarrow> bool" where
  "target_locked db ctx target_user_id required au tu \<longleftrightarrow>
     current_actor db ctx au \<and> tu \<in> set (db_users db) \<and> u_id tu = target_user_id \<and> live_user tu \<and>
     permission_value required \<in> a_permissions (authority_spec db False au) \<and>
     is_administrative_user_visible (authority_spec db False au) (authority_spec db False tu)"

lemma lock_actor_and_target_user_Inr:
  assumes "wf db"
    and "lock_actor_and_target_user db ctx t required more_ids = Inr (actor, target, row, state, roles)"
  shows "\<exists>au. target_locked db ctx t required au row \<and> actor = authority_spec db False au \<and>
     target = authority_spec db True row \<and> db_state db = Some state \<and>
     roles = lock_roles db (assigned_role_ids db {pr_user_id (c_principal ctx), t} \<union> more_ids)"
proof -
  let ?a = "pr_user_id (c_principal ctx)" and ?tv = "pr_token_version (c_principal ctx)"
  obtain visible where state: "lock_rbac_state db = Inr state"
    and actor: "require_current_actor db ?a ?tv = Inr actor"
    and permitted: "permission_value required \<in> a_permissions actor"
    and row: "map_of (lock_users db {?a, t}) t = Some row"
    and visible: "load_authority_snapshot db t False = Inr visible"
      "is_administrative_user_visible actor visible"
    and target: "load_authority_snapshot db t True = Inr target"
    and roles: "roles = lock_roles db (assigned_role_ids db {?a, t} \<union> more_ids)"
    using assms(2) unfolding lock_actor_and_target_user_def Let_def
    by (elim res_elims) (simp add: raise_unless_Inr)
  obtain au where au: "current_actor db ctx au" "actor = authority_spec db False au"
    using actor by (auto simp: require_current_actor_Inr [OF assms(1)])
  have row': "row \<in> set (db_users db)" "u_id row = t" "live_user row"
    using row by (simp_all add: lock_users_lookup [OF assms(1)])
  have only: "u = row" if "u \<in> set (db_users db)" "u_id u = t" for u
    using wf_same_user [OF assms(1) that(1) row'(1)] that(2) row'(2) by simp
  have "visible = authority_spec db False row" "target = authority_spec db True row"
    using visible(1) target only unfolding load_authority_snapshot_Inr [OF assms(1)] by blast+
  with state au row' permitted visible(2) roles show ?thesis
    by (auto simp: target_locked_def lock_rbac_state_Inr)
qed

lemma lock_row_id:
  "wf db \<Longrightarrow> lock_actor_and_target_user db ctx t required more_ids = Inr (actor, target, row, state, roles) \<Longrightarrow>
     u_id row = t"
  using lock_actor_and_target_user_Inr by (fastforce simp: target_locked_def)

lemma business_only_lock_target [intro]:
  "wf db \<Longrightarrow> business_only (lock_actor_and_target_user db ctx t required more_ids)"
  by (auto simp: lock_actor_and_target_user_def)

subsection \<open>Administration of users\<close>

lemma business_only_prod [intro!]:
  "(\<And>a b. x = (a, b) \<Longrightarrow> business_only (f a b)) \<Longrightarrow> business_only (case x of (a, b) \<Rightarrow> f a b)"
  by (cases x) auto

lemma access_view_total: "u_id row = t \<Longrightarrow> \<exists>v. access_view_of db row t actor = Inr v"
  by (simp add: access_view_of_def load_user_access_views_def Let_def)

lemma business_only_access_view: "u_id row = t \<Longrightarrow> business_only (access_view_of db row t actor)"
  using access_view_total [of row t db actor] by auto

lemma user_checks_bump:
  "user_checks u \<Longrightarrow> user_checks (u\<lparr>u_authz_version := u_authz_version u + 1\<rparr>)"
  "user_checks u \<Longrightarrow> user_checks (u\<lparr>u_token_version := u_token_version u + 1\<rparr>)"
  "user_checks u \<Longrightarrow> live_user u \<Longrightarrow> user_checks (u\<lparr>u_is_active := b,
     u_token_version := u_token_version u + 1, u_authz_version := u_authz_version u + 1\<rparr>)"
  by (simp_all add: user_checks_def)

lemma user_step_bump [simp]:
  "user_step u (u\<lparr>u_authz_version := u_authz_version u + 1\<rparr>)"
  "user_step u (u\<lparr>u_token_version := u_token_version u + 1\<rparr>)"
  "user_step u (u\<lparr>u_is_active := b, u_token_version := u_token_version u + 1,
     u_authz_version := u_authz_version u + 1\<rparr>)"
  by (simp_all add: user_step_def)

lemma save_user_state [simp]: "db_state (save_user u db) = db_state db"
  by (simp add: save_user_def)

lemma sound_save_user_epoch:
  assumes "wf db" "row \<in> set (db_users db)" "user_step row row'" "user_checks row'" "db_state db = Some s"
  shows "sound_step db (save_state (next_epoch s) (save_user row' db))"
proof -
  have "sound_step db (save_user row' db)"
    using assms by (intro sound_save_user)
  then show ?thesis
    using sound_next_epoch [of "save_user row' db" s] assms(5)
    by (auto intro: sound_step_trans dest: sound_step_wf)
qed

definition status_changed :: "user \<Rightarrow> bool \<Rightarrow> user" where
  "status_changed row b = row\<lparr>u_is_active := b, u_token_version := u_token_version row + 1,
     u_authz_version := u_authz_version row + 1\<rparr>"

lemma update_user_status_effect:
  assumes "wf db" "update_user_status_operation ctx t b db = Inr (out, db')"
  shows "\<exists>au row state. target_locked db ctx t USERS_STATUS_UPDATE au row \<and>
     dominates (authority_spec db False au) (authority_spec db True row) \<and> db_state db = Some state \<and>
     o_reason_code out = (if u_is_active row = b then ''user_status_unchanged'' else ''user_status_updated'') \<and>
     db' = (if u_is_active row = b then db
            else save_state (next_epoch state) (save_user (status_changed row b) db))"
proof -
  obtain actor target row state roles where
    lock: "lock_actor_and_target_user db ctx t USERS_STATUS_UPDATE {} = Inr (actor, target, row, state, roles)"
    and allowed: "allowed (decide_user_status_change actor target)"
    and out: "o_reason_code out = (if u_is_active row = b then ''user_status_unchanged'' else ''user_status_updated'')"
    and db': "db' = (if u_is_active row = b then db
            else save_state (next_epoch state) (save_user (status_changed row b) db))"
    using assms(2) unfolding update_user_status_operation_def Let_def status_changed_def
    by (elim res_elims) (auto simp: require_allowed_Inr elim!: res_elims split: if_splits)
  from lock_actor_and_target_user_Inr [OF assms(1) lock] allowed out db'
  show ?thesis
    by (auto simp: user_decision_defs decide_user_administration_allowed)
qed

lemma update_user_status_sound:
  assumes "wf db" "update_user_status_operation ctx t b db = Inr (out, db')"
  shows "sound_step db db'"
proof -
  obtain au row state where *: "target_locked db ctx t USERS_STATUS_UPDATE au row" "db_state db = Some state"
    "db' = (if u_is_active row = b then db
            else save_state (next_epoch state) (save_user (status_changed row b) db))"
    using update_user_status_effect [OF assms] by blast
  have "row \<in> set (db_users db)" "live_user row"
    using *(1) by (simp_all add: target_locked_def)
  then show ?thesis
    using * assms(1) wf_user_checks [OF assms(1)]
    by (auto simp: status_changed_def sound_step_refl user_checks_bump intro!: sound_save_user_epoch)
qed

lemma update_user_status_business_only:
  "wf db \<Longrightarrow> business_only (update_user_status_operation ctx t b db)"
  unfolding update_user_status_operation_def Let_def
  by (rule business_only_bind, rule business_only_lock_target, assumption)
     (auto dest!: lock_actor_and_target_user_Inr simp: target_locked_def intro!: business_only_access_view)

lemma revoke_user_sessions_effect:
  assumes "wf db" "revoke_user_sessions_operation ctx t db = Inr (out, db')"
  shows "\<exists>au row. target_locked db ctx t USERS_SESSIONS_REVOKE au row \<and>
     dominates (authority_spec db False au) (authority_spec db True row) \<and>
     db' = save_user (row\<lparr>u_token_version := u_token_version row + 1\<rparr>) db"
proof -
  obtain actor target row state roles where
    lock: "lock_actor_and_target_user db ctx t USERS_SESSIONS_REVOKE {} = Inr (actor, target, row, state, roles)"
    and allowed: "allowed (decide_user_sessions_revoke actor target)"
    and db': "db' = save_user (row\<lparr>u_token_version := u_token_version row + 1\<rparr>) db"
    using assms(2) unfolding revoke_user_sessions_operation_def Let_def
    by (elim res_elims) (auto simp: require_allowed_Inr elim!: res_elims)
  from lock_actor_and_target_user_Inr [OF assms(1) lock] allowed db' show ?thesis
    by (auto simp: user_decision_defs decide_user_administration_allowed)
qed

lemma revoke_user_sessions_sound:
  assumes "wf db" "revoke_user_sessions_operation ctx t db = Inr (out, db')"
  shows "sound_step db db'"
proof -
  obtain au row where *: "target_locked db ctx t USERS_SESSIONS_REVOKE au row"
    "db' = save_user (row\<lparr>u_token_version := u_token_version row + 1\<rparr>) db"
    using revoke_user_sessions_effect [OF assms] by blast
  then have "row \<in> set (db_users db)" by (simp add: target_locked_def)
  then show ?thesis
    unfolding *(2) using assms(1) wf_user_checks [OF assms(1)]
    by (intro sound_save_user) (auto simp: user_checks_bump)
qed

lemma revoke_user_sessions_business_only:
  "wf db \<Longrightarrow> business_only (revoke_user_sessions_operation ctx t db)"
  unfolding revoke_user_sessions_operation_def Let_def by auto

subsection \<open>Binding and unbinding roles\<close>

lemma finite_requested [simp]: "finite (set ids :: uuid set)"
  by simp

lemma mapE_lookup:
  "(\<And>x. x \<in> set xs \<Longrightarrow> m x = Some (g x)) \<Longrightarrow>
     mapE (\<lambda>x. case m x of None \<Rightarrow> Inl e | Some y \<Rightarrow> Inr y) xs = Inr (map g xs)"
  by (induction xs) auto

lemma requested_roles_Inr:
  assumes "wf db" "finite requested"
    and "requested_roles oper (lock_roles db (ids \<union> requested)) existing requested = Inr roles"
  shows "map r_id roles = sorted_list_of_set requested"
    and "r \<in> set roles \<Longrightarrow> r \<in> set (db_roles db) \<and> live_role r \<and> r_id r \<in> requested \<and>
      (oper = BIND \<and> r_id r \<notin> existing \<longrightarrow> r_is_active r)"
proof -
  let ?P = "\<lambda>i r. r \<in> set (db_roles db) \<and> live_role r \<and> r_id r = i \<and> i \<in> ids \<union> requested \<and>
    (oper = BIND \<and> i \<notin> existing \<longrightarrow> r_is_active r)"
  have all: "list_all2 ?P (sorted_list_of_set requested) roles"
    using assms(3) unfolding requested_roles_def mapE_Inr
    by (rule list_all2_mono)
       (auto simp: lock_roles_lookup [OF assms(1)] split: option.splits if_splits)
  have ids: "map r_id roles = xs" if "list_all2 ?P xs roles" for xs
    using that by (induction rule: list_all2_induct) auto
  show eq: "map r_id roles = sorted_list_of_set requested"
    by (rule ids [OF all])
  assume r: "r \<in> set roles"
  then obtain i where "?P i r"
    using all by (auto simp: list_all2_conv_all_nth in_set_conv_nth)
  moreover have "r_id r \<in> requested"
    using r arg_cong [OF eq, of set] assms(2) by auto
  ultimately show "r \<in> set (db_roles db) \<and> live_role r \<and> r_id r \<in> requested \<and>
      (oper = BIND \<and> r_id r \<notin> existing \<longrightarrow> r_is_active r)"
    by blast
qed

lemma requested_grants:
  assumes "map r_id roles = sorted_list_of_set requested"
  shows "mapE (\<lambda>role. case map_of (load_role_grants_for_roles db roles) (r_id role) of
       None \<Rightarrow> Inl Key_error | Some g \<Rightarrow> Inr g) roles = Inr (map (role_grant_of db) roles)"
proof (rule mapE_lookup)
  fix r assume r: "r \<in> set roles"
  have d: "distinct (map r_id roles)"
    using assms by simp
  then have "distinct (map fst (map (\<lambda>r. (r_id r, role_grant_of db r)) roles))"
    by (simp add: comp_def)
  with r show "map_of (load_role_grants_for_roles db roles) (r_id r) = Some (role_grant_of db r)"
    unfolding load_role_grants_for_roles_spec [OF d] by (auto simp: map_of_eq_Some_iff)
qed

lemma requested_roles_all:
  assumes "wf db" "finite requested"
    and "requested_roles oper (lock_roles db (ids \<union> requested)) existing requested = Inr roles"
  shows "requested \<subseteq> r_id ` set roles"
  using arg_cong [OF requested_roles_Inr(1) [OF assms], of set] assms(2) by simp

lemma change_user_roles_effect:
  assumes "wf db" "finite requested"
    and "change_user_roles_operation now ctx t requested oper db = Inr (out, db')"
  shows "\<exists>au row state roles. let ids = changed_role_ids oper requested (existing_role_ids db t requested);
       actor = authority_spec db False au; before = authority_spec db True row;
       grants = map (role_grant_of db) roles in
     target_locked db ctx t (role_change_permission oper) au row \<and> db_state db = Some state \<and>
     requested = r_id ` set roles \<and>
     (\<forall>r \<in> set roles. r \<in> set (db_roles db) \<and> live_role r \<and>
        (oper = BIND \<and> r_id r \<notin> existing_role_ids db t requested \<longrightarrow> r_is_active r)) \<and>
     allowed (decide_role_change oper actor before (roles_before_after oper before grants) grants) \<and>
     \<not> (oper = BIND \<and> ids \<noteq> {} \<and> count_live_user_roles db t + card ids > MAX_ROLES_PER_USER) \<and>
     um_changed (o_value out) = (ids \<noteq> {}) \<and>
     db' = (if ids = {} then db
            else save_state (next_epoch state)
              (save_user (row\<lparr>u_authz_version := u_authz_version row + 1\<rparr>)
                (db\<lparr>db_user_roles := changed_assignments db now oper t ids (u_id au)\<rparr>)))"
proof -
  let ?ids = "changed_role_ids oper requested (existing_role_ids db t requested)"
  obtain actor before row state locked roles grants where
    lock: "lock_actor_and_target_user db ctx t (if oper = BIND then ROLES_ASSIGN else ROLES_REVOKE) requested
      = Inr (actor, before, row, state, locked)"
    and roles: "requested_roles oper locked (existing_role_ids db t requested) requested = Inr roles"
    and grants: "mapE (\<lambda>role. case map_of (load_role_grants_for_roles db roles) (r_id role) of
       None \<Rightarrow> Inl Key_error | Some g \<Rightarrow> Inr g) roles = Inr grants"
    and allowed: "allowed (decide_role_change oper actor before (roles_before_after oper before grants) grants)"
    and room: "\<not> (oper = BIND \<and> ?ids \<noteq> {} \<and> count_live_user_roles db t + card ?ids > MAX_ROLES_PER_USER)"
    and out: "um_changed (o_value out) = (?ids \<noteq> {})"
      "db' = (if ?ids = {} then db
            else save_state (next_epoch state)
              (save_user (row\<lparr>u_authz_version := u_authz_version row + 1\<rparr>)
                (db\<lparr>db_user_roles := changed_assignments db now oper t ?ids (a_user_id actor)\<rparr>)))"
    using assms(3) unfolding change_user_roles_operation_def Let_def
    by (elim res_elims) (auto simp: require_allowed_Inr raise_unless_Inr)
  obtain au where au: "target_locked db ctx t (role_change_permission oper) au row"
    "actor = authority_spec db False au" "before = authority_spec db True row" "db_state db = Some state"
    "locked = lock_roles db (assigned_role_ids db {pr_user_id (c_principal ctx), t} \<union> requested)"
    using lock_actor_and_target_user_Inr [OF assms(1) lock] by (auto simp: role_change_permission_def)
  note req = requested_roles_Inr [OF assms(1,2) roles [unfolded au(5)]]
  have grants': "grants = map (role_grant_of db) roles"
    using grants requested_grants [OF req(1)] by simp
  have requested: "requested = r_id ` set roles"
    using arg_cong [OF req(1), of set] assms(2) by simp
  have actor_id: "a_user_id actor = u_id au"
    by (simp add: au(2) authority_spec_def)
  show ?thesis
    unfolding Let_def
    by (intro exI [of _ au] exI [of _ row] exI [of _ state] exI [of _ roles] conjI ballI)
       (fact au requested room out(1) allowed [unfolded au(2,3) grants'] out(2) [unfolded actor_id]
        | use req(2) in blast)+
qed

lemma keyed_role:
  "wf db \<Longrightarrow> r \<in> set (db_roles db) \<Longrightarrow> keyed db k (r_id r) \<Longrightarrow> r_key r = k"
  using wf_same_role by (auto simp: keyed_def list_ex_iff)

lemma grantable_not_reserved:
  assumes "wf db" "r \<in> set (db_roles db)" "grantable oper actor (role_grant_of db r)"
  shows "\<not> keyed db ''super_admin'' (r_id r)" "oper = UNBIND \<Longrightarrow> \<not> keyed db ''user'' (r_id r)"
  using keyed_role [OF assms(1,2)] assms(3) by (auto simp: grantable_def)

lemma sound_changed_assignments:
  assumes "wf db" "t \<in> u_id ` set (db_users db)" "a \<in> u_id ` set (db_users db)"
    and requested: "requested = r_id ` set roles" "set roles \<subseteq> set (db_roles db)"
    and grantable: "\<And>r. r \<in> set roles \<Longrightarrow> grantable oper actor (role_grant_of db r)"
    and ids: "ids = changed_role_ids oper requested (existing_role_ids db t requested)"
    and room: "\<not> (oper = BIND \<and> ids \<noteq> {} \<and> count_live_user_roles db t + card ids > MAX_ROLES_PER_USER)"
  shows "sound_step db (db\<lparr>db_user_roles := changed_assignments db now oper t ids a\<rparr>)"
proof -
  have sub: "\<exists>r. r \<in> set roles \<and> r \<in> set (db_roles db) \<and> i = r_id r" if "i \<in> ids" for i
    using that requested by (auto simp: ids changed_role_ids_def split: if_splits)
  note reserved = grantable_not_reserved [OF assms(1) _ grantable]
  show ?thesis
  proof (cases oper)
    case BIND
    have "sound_step db (db\<lparr>db_user_roles := db_user_roles db @ new_assignments t ids a\<rparr>)"
    proof (rule sound_add_assignments [OF assms(1-3)])
      show "finite ids" by (simp add: ids BIND changed_role_ids_def requested(1))
      show "ids \<subseteq> r_id ` set (db_roles db)" using sub by blast
      show "(t, i) \<notin> set (live_pairs_ur (db_user_roles db))" if "i \<in> ids" for i
        using that by (auto simp: ids BIND changed_role_ids_def existing_role_ids_def live_pairs_ur_def)
      show "\<not> keyed db ''super_admin'' i" if "i \<in> ids" for i
        using sub [OF that] reserved(1) by blast
      show "length (live_assignments db t) + card ids \<le> MAX_ROLES_PER_USER"
        using room BIND max_ten_live_wf [OF assms(1), of t]
        by (cases "ids = {}") (auto simp: count_live_user_roles_def max_ten_live_def)
    qed
    then show ?thesis by (simp add: BIND changed_assignments_def)
  next
    case UNBIND
    show ?thesis
      unfolding changed_assignments_def UNBIND
    proof (simp, rule sound_delete_assignments [OF assms(1,3)])
      fix ur assume "ur_user_id ur = t \<and> ur_role_id ur \<in> ids"
      then obtain r where "r \<in> set roles" "r \<in> set (db_roles db)" "ur_role_id ur = r_id r"
        using sub by blast
      then show "\<not> keyed db ''user'' (ur_role_id ur) \<and> \<not> keyed db ''super_admin'' (ur_role_id ur)"
        using reserved UNBIND by simp
    qed
  qed
qed

lemma change_user_roles_sound:
  assumes "wf db" "finite requested"
    and "change_user_roles_operation now ctx t requested oper db = Inr (out, db')"
  shows "sound_step db db'"
proof -
  let ?ids = "changed_role_ids oper requested (existing_role_ids db t requested)"
  obtain au row state roles where
    locked: "target_locked db ctx t (role_change_permission oper) au row" "db_state db = Some state"
    and requested: "requested = r_id ` set roles" "set roles \<subseteq> set (db_roles db)"
    and allowed: "\<And>r. r \<in> set roles \<Longrightarrow> grantable oper (authority_spec db False au) (role_grant_of db r)"
    and room: "\<not> (oper = BIND \<and> ?ids \<noteq> {} \<and> count_live_user_roles db t + card ?ids > MAX_ROLES_PER_USER)"
    and db': "db' = (if ?ids = {} then db
            else save_state (next_epoch state)
              (save_user (row\<lparr>u_authz_version := u_authz_version row + 1\<rparr>)
                (db\<lparr>db_user_roles := changed_assignments db now oper t ?ids (u_id au)\<rparr>)))"
  proof -
    obtain au row state roles where
      r: "requested = r_id ` set roles" "\<forall>r \<in> set roles. r \<in> set (db_roles db) \<and> live_role r \<and>
          (oper = BIND \<and> r_id r \<notin> existing_role_ids db t requested \<longrightarrow> r_is_active r)"
      and g: "\<forall>role \<in> set (map (role_grant_of db) roles). grantable oper (authority_spec db False au) role"
      and rest: "target_locked db ctx t (role_change_permission oper) au row" "db_state db = Some state"
        "\<not> (oper = BIND \<and> ?ids \<noteq> {} \<and> count_live_user_roles db t + card ?ids > MAX_ROLES_PER_USER)"
        "db' = (if ?ids = {} then db
            else save_state (next_epoch state)
              (save_user (row\<lparr>u_authz_version := u_authz_version row + 1\<rparr>)
                (db\<lparr>db_user_roles := changed_assignments db now oper t ?ids (u_id au)\<rparr>)))"
      using change_user_roles_effect [OF assms] unfolding Let_def decide_role_change_allowed
      by (elim exE conjE)
    have "set roles \<subseteq> set (db_roles db)" using r(2) by blast
    moreover have "grantable oper (authority_spec db False au) (role_grant_of db r)" if "r \<in> set roles" for r
      using g that by simp
    ultimately show thesis using that rest r(1) by blast
  qed
  let ?db1 = "db\<lparr>db_user_roles := changed_assignments db now oper t ?ids (u_id au)\<rparr>"
  have users: "row \<in> set (db_users db)" "u_id row = t" "au \<in> set (db_users db)"
    using locked(1) by (simp_all add: target_locked_def current_actor_def)
  then have rows: "row \<in> set (db_users db)" "t \<in> u_id ` set (db_users db)" "u_id au \<in> u_id ` set (db_users db)"
    by blast+
  have step1: "sound_step db ?db1"
    by (rule sound_changed_assignments [OF assms(1) rows(2,3) requested allowed refl room])
  have "sound_step ?db1 (save_state (next_epoch state)
      (save_user (row\<lparr>u_authz_version := u_authz_version row + 1\<rparr>) ?db1))"
    using rows(1) locked(2) wf_user_checks [OF assms(1) rows(1)]
    by (intro sound_save_user_epoch [where row = row] sound_step_wf [OF step1])
       (simp_all add: user_checks_bump)
  then show ?thesis
    unfolding db' using step1 assms(1) by (auto intro: sound_step_trans sound_step_refl)
qed

lemma change_user_roles_business_only:
  assumes "wf db" "finite requested"
  shows "business_only (change_user_roles_operation now ctx t requested oper db)"
  unfolding change_user_roles_operation_def Let_def
proof (intro business_only_bind business_only_lock_target business_only_prod assms(1), goal_cases)
  case (1 x actor y before z row w state locked)
  then show ?case
    by (auto simp: requested_roles_def intro!: business_only_mapE)
next
  case (2 x actor y before z row w state locked roles)
  then have "map r_id roles = sorted_list_of_set requested"
    using requested_roles_Inr(1) [OF assms] lock_actor_and_target_user_Inr [OF assms(1)] by blast
  then show ?case
    by (auto simp: requested_grants)
next
  case (6 x actor y before z row w state locked roles grants u v s)
  then have "u_id row = t"
    using lock_row_id [OF assms(1)] by blast
  then show ?case
    by (intro business_only_access_view) simp
qed auto

subsection \<open>Limits on the roles of a user\<close>

lemma wf_role_limit: "wf db \<Longrightarrow> count_live_user_roles db uid \<le> MAX_ROLES_PER_USER"
  using max_ten_live_wf [of db uid] by (simp add: count_live_user_roles_def max_ten_live_def)

lemma wf_base_role:
  assumes "wf db" "u \<in> set (db_users db)" "live_user u"
  shows "\<exists>r. r \<in> set (roles_of db (\<lambda>_. True) (u_id u)) \<and> r_key r = ''user''"
proof -
  obtain ur where ur: "ur \<in> set (db_user_roles db)" "ur_user_id ur = u_id u" "live_ur ur"
    "keyed db ''user'' (ur_role_id ur)"
    using has_base_role_wf [OF assms(1), of "u_id u"] assms(2,3) unfolding has_base_role_keyed by blast
  then obtain r where "r \<in> set (db_roles db)" "r_id r = ur_role_id ur" "r_key r = ''user''" "live_role r"
    by (auto simp: keyed_def list_ex_iff)
  then show ?thesis
    using ur by (intro exI [of _ r]) (auto simp: roles_of_def assigned_def live_assignments_def)
qed

text \<open>A binding beyond the limit is refused by the operation itself.\<close>

lemma change_user_roles_full:
  assumes "wf db" "oper = BIND" "set ids - existing_role_ids db t (set ids) \<noteq> {}"
    and "count_live_user_roles db t + card (set ids - existing_role_ids db t (set ids)) > MAX_ROLES_PER_USER"
  shows "\<exists>r. change_user_roles_operation now ctx t (set ids) oper db = Inl (Rbac r)"
proof (cases "change_user_roles_operation now ctx t (set ids) oper db")
  case (Inl e)
  then show ?thesis
    using change_user_roles_business_only [OF assms(1), of "set ids" now ctx t oper]
    by (auto simp: business_only_def)
next
  case (Inr res)
  then obtain out db' where "change_user_roles_operation now ctx t (set ids) oper db = Inr (out, db')"
    by (cases res) simp
  from change_user_roles_effect [OF assms(1) _ this] assms(2-4) show ?thesis
    by (auto simp: Let_def changed_role_ids_def)
qed

end
