(* ===== verification/Role_Laws.thy ===== *)
theory Role_Laws
  imports Access_Laws
begin

text \<open>
  The role operations of \<open>RbacService\<close> on a well-formed database: what the lock of a shared
  role establishes, and that every operation fails with an \<open>RbacError\<close> or commits.
\<close>

subsection \<open>Changes of a custom role\<close>

lemma custom_role_checks:
  assumes "\<not> r_is_system r"
  shows "role_checks r \<longleftrightarrow> role_columns r \<and>
     1 \<le> r_management_tier r \<and> r_management_tier r \<le> 999 \<and> 0 \<le> r_version r \<and>
     \<not> r_is_protected r \<and> \<not> r_is_super_admin r \<and>
     r_key r \<noteq> ''super_admin'' \<and> r_key r \<noteq> ''admin'' \<and> r_key r \<noteq> ''user'' \<and>
     (r_deleted_at r = None \<or> \<not> r_is_active r) \<and>
     (r_deleted_by_user_id r = None \<or> r_deleted_at r \<noteq> None)"
  unfolding role_checks_def using assms by (simp only: simp_thms) linarith

text \<open>The columns that hold text are the key, the name and the description.\<close>

lemma role_columns_update [simp]:
  "role_columns (r\<lparr>r_version := n\<rparr>) = role_columns r"
  "role_columns (r\<lparr>r_is_active := b\<rparr>) = role_columns r"
  "role_columns (r\<lparr>r_is_active := b, r_deleted_at := d, r_deleted_by_user_id := i\<rparr>) = role_columns r"
  by (simp_all add: role_columns_def)

lemma next_version_simps [simp]:
  "role_columns (next_version r) = role_columns r"
  "r_id (next_version r) = r_id r" "r_is_system (next_version r) = r_is_system r"
  "r_deleted_at (next_version r) = r_deleted_at r"
  "r_deleted_by_user_id (next_version r) = r_deleted_by_user_id r"
  by (simp_all add: next_version_def)

lemma role_checks_next_version:
  "\<not> r_is_system r \<Longrightarrow> role_checks r \<Longrightarrow> role_checks (next_version r)"
  by (simp add: custom_role_checks) (simp add: next_version_def)

lemma role_step_next_version:
  "\<not> r_is_system r \<Longrightarrow> live_role r \<Longrightarrow> role_step r r' \<Longrightarrow> role_step r (next_version r')"
  by (auto simp: role_step_def next_version_def)

subsection \<open>Holders of a role\<close>

lemma holder_ids_live:
  "i \<in> holder_ids db role_id \<Longrightarrow> \<exists>u \<in> set (db_users db). u_id u = i \<and> live_user u"
  by (auto simp: holder_ids_def list_ex_iff)

lemma finite_holder_ids [simp]: "finite (holder_ids db role_id)"
  by (simp add: holder_ids_def)

lemma holder_ids_assigned:
  "wf db \<Longrightarrow> u \<in> set (db_users db) \<Longrightarrow> live_user u \<Longrightarrow>
     u_id u \<in> holder_ids db (r_id r) \<longleftrightarrow> assigned db (u_id u) r"
  by (auto simp: holder_ids_def assigned_def live_assignments_def list_ex_iff image_iff) metis+

definition role_locked ::
    "database \<Rightarrow> authorization_context \<Rightarrow> uuid \<Rightarrow> permission_key \<Rightarrow> bool \<Rightarrow> user \<Rightarrow> role \<Rightarrow>
     user list \<Rightarrow> locked_shared_role \<Rightarrow> bool" where
  "role_locked db ctx role_id required include_inactive au r holders locked \<longleftrightarrow>
     current_actor db ctx au \<and> r \<in> set (db_roles db) \<and> r_id r = role_id \<and> live_role r \<and>
     (include_inactive \<or> r_is_active r) \<and>
     permission_value required \<in> a_permissions (authority_spec db False au) \<and>
     is_administrative_role_visible (authority_spec db False au) (role_grant_of db r) \<and>
     map u_id holders = sorted_list_of_set (holder_ids db role_id) \<and>
     set holders \<subseteq> {u \<in> set (db_users db). live_user u} \<and>
     l_actor locked = authority_spec db False au \<and> l_role locked = r \<and>
     l_role_before locked = role_grant_of db r \<and>
     l_affected_before locked = map (authority_spec db True) holders \<and>
     l_affected_ids locked = holder_ids db role_id \<and>
     l_permission_rows locked = lock_role_permissions db role_id \<and>
     db_state db = Some (l_state locked)"

lemma locked_holders:
  assumes "wf db" "holder_ids db role_id \<subseteq> ids"
  shows "\<exists>holders. mapE (\<lambda>i. case map_of (lock_users db ids) i of None \<Rightarrow> Inl Key_error | Some u \<Rightarrow> Inr u)
      (sorted_list_of_set (holder_ids db role_id)) = Inr holders \<and>
    map u_id holders = sorted_list_of_set (holder_ids db role_id) \<and>
    set holders \<subseteq> {u \<in> set (db_users db). live_user u}"
proof -
  define row where "row i = the (map_of (lock_users db ids) i)" for i
  have row: "map_of (lock_users db ids) i = Some (row i) \<and> u_id (row i) = i \<and>
      row i \<in> set (db_users db) \<and> live_user (row i)" if i: "i \<in> holder_ids db role_id" for i
  proof -
    obtain u where "u \<in> set (db_users db)" "u_id u = i" "live_user u"
      using holder_ids_live [OF i] by blast
    then have "map_of (lock_users db ids) i = Some u"
      using i assms(2) by (auto simp: lock_users_lookup [OF assms(1)])
    then show ?thesis
      using lock_users_lookup [OF assms(1), of ids i u] by (simp add: row_def)
  qed
  let ?is = "sorted_list_of_set (holder_ids db role_id)"
  have "mapE (\<lambda>i. case map_of (lock_users db ids) i of None \<Rightarrow> Inl Key_error | Some u \<Rightarrow> Inr u) ?is
    = Inr (map row ?is)"
    using row by (intro mapE_lookup) simp
  moreover have "map u_id (map row ?is) = ?is"
    unfolding map_map comp_def by (rule map_idI) (simp add: row)
  moreover have "set (map row ?is) \<subseteq> {u \<in> set (db_users db). live_user u}"
    by (auto simp: row)
  ultimately show ?thesis by blast
qed

lemma affected_snapshots:
  assumes "wf db" "distinct (map u_id holders)"
  shows "mapE (\<lambda>u. case map_of (load_authority_snapshots_for_users db holders True) (u_id u) of
      None \<Rightarrow> Inl Key_error | Some s \<Rightarrow> Inr s) holders = Inr (map (authority_spec db True) holders)"
proof (rule mapE_lookup)
  fix u assume "u \<in> set holders"
  moreover have "distinct (map fst (map (\<lambda>u. (u_id u, authority_spec db True u)) holders))"
    using assms(2) by (simp add: comp_def)
  ultimately show "map_of (load_authority_snapshots_for_users db holders True) (u_id u)
    = Some (authority_spec db True u)"
    unfolding load_authority_snapshots_for_users_spec [OF wf_keys_ok [OF assms(1)]]
    by (auto simp: map_of_eq_Some_iff)
qed

lemma load_role_grant_live:
  assumes "wf db" "r \<in> set (db_roles db)" "live_role r"
  shows "load_role_grant db (r_id r) True False = Inr (role_grant_of db r)"
proof (cases "find (\<lambda>q. r_id q = r_id r \<and> live_role q) (db_roles db)")
  case None
  with assms(2,3) show ?thesis by (auto simp: find_None_iff)
next
  case (Some q)
  then have "q \<in> set (db_roles db)" "r_id q = r_id r"
    by (auto dest: find_SomeD)
  then have "q = r"
    using wf_same_role [OF assms(1) _ assms(2)] by blast
  with Some show ?thesis by (simp add: load_role_grant_spec)
qed

lemma lock_shared_role_change_Inr:
  assumes "wf db"
    and "lock_shared_role_change db ctx role_id required include_inactive = Inr locked"
  shows "\<exists>au r holders. role_locked db ctx role_id required include_inactive au r holders locked"
proof -
  let ?a = "pr_user_id (c_principal ctx)" and ?tv = "pr_token_version (c_principal ctx)"
  let ?ids = "holder_ids db role_id \<union> {?a}"
  obtain holders where holders:
    "mapE (\<lambda>i. case map_of (lock_users db ?ids) i of None \<Rightarrow> Inl Key_error | Some u \<Rightarrow> Inr u)
      (sorted_list_of_set (holder_ids db role_id)) = Inr holders"
    "map u_id holders = sorted_list_of_set (holder_ids db role_id)"
    "set holders \<subseteq> {u \<in> set (db_users db). live_user u}"
    using locked_holders [OF assms(1), of role_id ?ids] by blast
  obtain state actor r grant where state: "lock_rbac_state db = Inr state"
    and actor: "require_current_actor db ?a ?tv = Inr actor"
    and permitted: "permission_value required \<in> a_permissions actor"
    and r: "map_of (lock_roles db (assigned_role_ids db ?ids \<union> {role_id})) role_id = Some r"
      "include_inactive \<or> r_is_active r"
    and grant: "load_role_grant db role_id True False = Inr grant"
      "is_administrative_role_visible actor grant"
    and locked: "locked = \<lparr>l_actor = actor, l_role = r, l_role_before = grant,
      l_affected_before = map (authority_spec db True) holders, l_affected_ids = holder_ids db role_id,
      l_state = state, l_users = lock_users db ?ids, l_permission_rows = lock_role_permissions db role_id\<rparr>"
    using assms(2) affected_snapshots [OF assms(1), of holders] holders(2)
    unfolding lock_shared_role_change_def Let_def holders(1)
    by (elim res_elims) (auto simp: raise_unless_Inr)
  obtain au where au: "current_actor db ctx au" "actor = authority_spec db False au"
    using actor by (auto simp: require_current_actor_Inr [OF assms(1)])
  have r': "r \<in> set (db_roles db)" "r_id r = role_id" "live_role r"
    using r(1) by (simp_all add: lock_roles_lookup [OF assms(1)])
  have "grant = role_grant_of db r"
    using grant(1) load_role_grant_live [OF assms(1) r'(1,3)] r'(2) by simp
  then have "role_locked db ctx role_id required include_inactive au r holders locked"
    using au r' r(2) permitted grant(2) holders(2,3) state
    by (simp add: role_locked_def locked lock_rbac_state_Inr)
  then show ?thesis by blast
qed

lemma business_only_grant [intro!]: "business_only (load_role_grant db i inc del)"
  by (auto simp: load_role_grant_def)

lemma business_only_lock_role [intro]:
  assumes "wf db"
  shows "business_only (lock_shared_role_change db ctx role_id required include_inactive)"
proof -
  let ?ids = "holder_ids db role_id \<union> {pr_user_id (c_principal ctx)}"
  obtain holders where holders:
    "mapE (\<lambda>i. case map_of (lock_users db ?ids) i of None \<Rightarrow> Inl Key_error | Some u \<Rightarrow> Inr u)
      (sorted_list_of_set (holder_ids db role_id)) = Inr holders"
    "map u_id holders = sorted_list_of_set (holder_ids db role_id)"
    using locked_holders [OF assms, of role_id ?ids] by blast
  have affected: "mapE (\<lambda>u. case map_of (load_authority_snapshots_for_users db holders True) (u_id u) of
      None \<Rightarrow> Inl Key_error | Some s \<Rightarrow> Inr s) holders = Inr (map (authority_spec db True) holders)"
    using holders(2) by (intro affected_snapshots [OF assms]) simp
  show ?thesis
    unfolding lock_shared_role_change_def Let_def holders(1) bindE_simps affected
    by (intro business_only_bind business_only_lock_state business_only_actor_row
        business_only_current_actor assms business_only_raise business_only_option business_only_if
        business_only_Rbac business_only_Inr business_only_grant)
qed

subsection \<open>Soundness of a shared change\<close>

lemma bump_shared_authority_sound:
  assumes "wf db" "r \<in> set (db_roles db)" "\<not> r_is_system r" "live_role r" "role_step r r'"
    and "role_checks r'" "\<not> r_is_system r'" "set_option (r_deleted_by_user_id r') \<subseteq> u_id ` set (db_users db)"
    and "db_state db = Some (l_state locked)"
  shows "sound_step db (bump_shared_authority locked r' db)"
proof -
  let ?db1 = "save_role (next_version r') db"
  let ?p = "\<lambda>u. u_id u \<in> l_affected_ids locked"
  let ?f = "\<lambda>u. u\<lparr>u_authz_version := u_authz_version u + 1\<rparr>"
  let ?db2 = "?db1\<lparr>db_users := update_where ?p ?f (db_users ?db1)\<rparr>"
  have users: "db_users ?db1 = db_users db"
    by (simp add: save_role_def)
  have step1: "sound_step db ?db1"
    using assms by (intro sound_save_role [where r = r])
      (simp_all add: role_step_next_version role_checks_next_version)
  have step2: "sound_step ?db1 ?db2"
    using sound_step_wf [OF step1] wf_user_checks [OF sound_step_wf [OF step1]]
    by (intro sound_update_users) (simp_all add: user_checks_bump)
  have step3: "sound_step ?db2 (save_state (next_epoch (l_state locked)) ?db2)"
    using sound_step_wf [OF step2] assms(9) by (intro sound_next_epoch) (simp_all add: save_role_def)
  have "bump_shared_authority locked r' db = save_state (next_epoch (l_state locked)) ?db2"
    by (simp add: bump_shared_authority_def users)
  then show ?thesis
    using sound_step_trans [OF sound_step_trans [OF step1 step2] step3] by simp
qed

subsection \<open>Creating a role\<close>

lemma create_role_effect:
  assumes "wf db" "create_role_operation role_id ctx request db = Inr (out, db')"
  shows "\<exists>au state. current_actor db ctx au \<and> db_state db = Some state \<and>
     actor_may (authority_spec db False au) ROLES_CREATE \<and>
     1 \<le> rc_management_tier request \<and> rc_management_tier request \<le> 999 \<and>
     rc_management_tier request < a_management_tier (authority_spec db False au) \<and>
     rc_key request \<notin> RESERVED_ROLE_KEYS \<and> rc_key request \<notin> r_key ` set (db_roles db) \<and>
     db' = save_state (next_epoch state) (db\<lparr>db_roles := db_roles db @ [new_role role_id request]\<rparr>)"
proof -
  obtain state au where "db_state db = Some state" "current_actor db ctx au"
    "allowed (decide_role_create (authority_spec db False au) (rc_management_tier request))"
    "rc_key request \<notin> RESERVED_ROLE_KEYS" "\<not> list_ex (\<lambda>r. r_key r = rc_key request) (db_roles db)"
    "db' = save_state (next_epoch state) (db\<lparr>db_roles := db_roles db @ [new_role role_id request]\<rparr>)"
    using assms(2) unfolding create_role_operation_def Let_def
    by (elim res_elims)
       (auto simp: require_allowed_Inr raise_unless_Inr lock_rbac_state_Inr
          require_current_actor_Inr [OF assms(1)])
  then show ?thesis
    unfolding decide_role_create_allowed list_ex_iff by (intro exI [of _ au] exI [of _ state]) auto
qed

lemma create_role_sound:
  assumes "wf db" "role_id \<notin> r_id ` set (db_roles db)"
    and "create_role_operation role_id ctx request db = Inr (out, db')" "columns_fit db'"
  shows "sound_step db db'"
proof -
  obtain state where state: "db_state db = Some state"
    and tier: "1 \<le> rc_management_tier request" "rc_management_tier request \<le> 999"
    and key: "rc_key request \<notin> RESERVED_ROLE_KEYS" "rc_key request \<notin> r_key ` set (db_roles db)"
    and db': "db' = save_state (next_epoch state) (db\<lparr>db_roles := db_roles db @ [new_role role_id request]\<rparr>)"
    using create_role_effect [OF assms(1,3)] by blast
  let ?db1 = "db\<lparr>db_roles := db_roles db @ [new_role role_id request]\<rparr>"
  have "sound_step db ?db1"
    using assms(1,2,4) key tier
    by (intro sound_add_role) (simp_all add: db' columns_fit_def save_state_def new_role_def custom_role_checks RESERVED_ROLE_KEYS_def)
  moreover from this have "sound_step ?db1 (save_state (next_epoch state) ?db1)"
    using state by (intro sound_next_epoch sound_step_wf) simp_all
  ultimately show ?thesis
    unfolding db' by (rule sound_step_trans)
qed

lemma create_role_business_only:
  assumes "wf db"
  shows "business_only (create_role_operation role_id ctx request db)"
  unfolding create_role_operation_def Let_def
  by (intro business_only_bind business_only_lock_state business_only_actor_row
      business_only_current_actor assms business_only_allowed business_only_raise business_only_Inr)

subsection \<open>Administration of a shared role\<close>

definition administered ::
    "database \<Rightarrow> authorization_context \<Rightarrow> uuid \<Rightarrow> role_administration \<Rightarrow> user \<Rightarrow> role \<Rightarrow> user list \<Rightarrow>
     locked_shared_role \<Rightarrow> bool" where
  "administered db ctx role_id oper au r holders locked \<longleftrightarrow>
     role_locked db ctx role_id (role_administration_permission oper) True au r holders locked \<and>
     u_id au \<notin> holder_ids db role_id \<and>
     custom_role_manageable (authority_spec db False au) (role_grant_of db r) \<and>
     (\<forall>u \<in> set holders. dominates (authority_spec db False au) (authority_spec db True u))"

lemma authority_spec_id [simp]: "a_user_id (authority_spec db incl u) = u_id u"
  by (simp add: authority_spec_def)

lemma administeredI:
  assumes "wf db"
    and "lock_shared_role_change db ctx role_id (role_administration_permission oper) True = Inr locked"
    and "require_role_administration locked oper = Inr x"
  shows "\<exists>au r holders. administered db ctx role_id oper au r holders locked"
proof -
  obtain au r holders where l: "role_locked db ctx role_id (role_administration_permission oper) True au r holders locked"
    using lock_shared_role_change_Inr [OF assms(1,2)] by blast
  then have "administered db ctx role_id oper au r holders locked"
    using assms(3)
    by (auto simp: administered_def role_locked_def require_role_administration_def require_allowed_Inr
        decide_role_administration_allowed actor_holds_role_def)
  then show ?thesis by blast
qed

lemma administered_row:
  assumes "administered db ctx role_id oper au r holders locked"
  shows "r \<in> set (db_roles db)" "r_id r = role_id" "\<not> r_is_system r" "live_role r" "l_role locked = r"
    "db_state db = Some (l_state locked)" "l_affected_ids locked = holder_ids db role_id"
    "a_user_id (l_actor locked) = u_id au" "au \<in> set (db_users db)"
  using assms by (simp_all add: administered_def role_locked_def custom_role_manageable_def current_actor_def)

lemma business_only_administration [intro!]: "business_only (require_role_administration locked oper)"
  by (auto simp: require_role_administration_def)

definition rewritten :: "role \<Rightarrow> role_update_request \<Rightarrow> role" where
  "rewritten r request =
     r\<lparr>r_name := (case ru_name request of None \<Rightarrow> r_name r | Some n \<Rightarrow> n),
       r_description := (case ru_description request of None \<Rightarrow> r_description r | Some d \<Rightarrow> d)\<rparr>"

lemma rewritten_same:
  "r\<lparr>r_name := n\<rparr> = r \<longleftrightarrow> r_name r = n" "r\<lparr>r_description := d\<rparr> = r \<longleftrightarrow> r_description r = d"
  "r\<lparr>r_name := n, r_description := d\<rparr> = r \<longleftrightarrow> r_name r = n \<and> r_description r = d"
  by (cases r, auto)+

lemma update_role_effect:
  assumes "wf db" "update_role_operation ctx role_id request v db = Inr (out, db')"
  shows "\<exists>au r holders locked. administered db ctx role_id UPDATE au r holders locked \<and>
     r_version r = v \<and> rm_changed (o_value out) = (rewritten r request \<noteq> r) \<and>
     db' = (if rewritten r request = r then db
            else save_state (next_epoch (l_state locked)) (save_role (next_version (rewritten r request)) db))"
proof -
  obtain locked x where lock: "lock_shared_role_change db ctx role_id (role_administration_permission UPDATE) True = Inr locked"
    "require_role_administration locked UPDATE = Inr x"
    and version: "r_version (l_role locked) = v"
    and out: "rm_changed (o_value out) = (rewritten (l_role locked) request \<noteq> l_role locked)"
      "db' = (if rewritten (l_role locked) request = l_role locked then db
            else save_state (next_epoch (l_state locked))
              (save_role (next_version (rewritten (l_role locked) request)) db))"
    using assms(2) unfolding update_role_operation_def Let_def rewritten_def
    by (elim res_elims) (cases "ru_name request"; cases "ru_description request";
         auto simp: require_version_Inr role_outcome_def rewritten_same split: if_splits)
  from administeredI [OF assms(1) lock] version out show ?thesis
    by (metis administered_row(5))
qed

lemma wf_deleters:
  "wf db \<Longrightarrow> r \<in> set (db_roles db) \<Longrightarrow> set_option (r_deleted_by_user_id r) \<subseteq> u_id ` set (db_users db)"
  by (simp add: wf_def actors_ok_def Let_def list_all_iff)

lemma rewritten_simps [simp]:
  "r_id (rewritten r q) = r_id r" "r_is_system (rewritten r q) = r_is_system r"
  "r_deleted_at (rewritten r q) = r_deleted_at r"
  "r_deleted_by_user_id (rewritten r q) = r_deleted_by_user_id r"
  by (simp_all add: rewritten_def)

lemma role_step_rewritten: "\<not> r_is_system r \<Longrightarrow> live_role r \<Longrightarrow> role_step r (rewritten r q)"
  by (simp add: role_step_def rewritten_def)

lemma role_checks_rewritten:
  "\<not> r_is_system r \<Longrightarrow> role_checks r \<Longrightarrow> role_columns (rewritten r q) \<Longrightarrow> role_checks (rewritten r q)"
  by (simp add: custom_role_checks) (simp add: rewritten_def)

lemma saved_role_columns:
  "r \<in> set (db_roles db) \<Longrightarrow> r_id r' = r_id r \<Longrightarrow> columns_fit (save_role r' db) \<Longrightarrow> role_columns r'"
  by (auto simp: columns_fit_def save_role_def set_update_where list_all_iff)

lemma columns_fit_save_state [simp]: "columns_fit (save_state s db) = columns_fit db"
  by (simp add: columns_fit_def save_state_def)

lemma update_role_sound:
  assumes "wf db" "update_role_operation ctx role_id request v db = Inr (out, db')" "columns_fit db'"
  shows "sound_step db db'"
proof -
  obtain au r holders locked where adm: "administered db ctx role_id UPDATE au r holders locked"
    and db': "db' = (if rewritten r request = r then db
            else save_state (next_epoch (l_state locked)) (save_role (next_version (rewritten r request)) db))"
    using update_role_effect [OF assms(1,2)] by blast
  note r = administered_row [OF adm]
  let ?db1 = "save_role (next_version (rewritten r request)) db"
  show ?thesis
  proof (cases "rewritten r request = r")
    case True
    then show ?thesis using db' assms(1) by (simp add: sound_step_refl)
  next
    case False
    then have columns: "role_columns (rewritten r request)"
      using saved_role_columns [OF r(1), of "next_version (rewritten r request)"] db' assms(3) by simp
    have step: "sound_step db ?db1"
      using assms(1) r columns wf_role_checks [OF assms(1) r(1)] wf_deleters [OF assms(1) r(1)]
      by (intro sound_save_role [where r = r])
         (simp_all add: role_step_next_version role_step_rewritten role_checks_next_version role_checks_rewritten)
    have "sound_step ?db1 (save_state (next_epoch (l_state locked)) ?db1)"
      using r(6) by (intro sound_next_epoch sound_step_wf [OF step]) (simp add: save_role_def)
    then show ?thesis
      unfolding db' using False step by (auto intro: sound_step_trans)
  qed
qed

lemma update_role_business_only:
  assumes "wf db"
  shows "business_only (update_role_operation ctx role_id request v db)"
  unfolding update_role_operation_def Let_def
  by (intro business_only_bind business_only_lock_role assms business_only_administration
      business_only_version business_only_Inr)

lemma set_role_active_effect:
  assumes "wf db" "set_role_active_operation ctx role_id b v db = Inr (out, db')"
  shows "\<exists>au r holders locked. administered db ctx role_id (if b then ENABLE else DISABLE) au r holders locked \<and>
     r_version r = v \<and> rm_changed (o_value out) = (r_is_active r \<noteq> b) \<and>
     db' = (if r_is_active r = b then db else bump_shared_authority locked (r\<lparr>r_is_active := b\<rparr>) db)"
proof -
  obtain locked x where
    lock: "lock_shared_role_change db ctx role_id (role_administration_permission (if b then ENABLE else DISABLE)) True
      = Inr locked" "require_role_administration locked (if b then ENABLE else DISABLE) = Inr x"
    and version: "r_version (l_role locked) = v"
    and out: "rm_changed (o_value out) = (r_is_active (l_role locked) \<noteq> b)"
      "db' = (if r_is_active (l_role locked) = b then db
              else bump_shared_authority locked ((l_role locked)\<lparr>r_is_active := b\<rparr>) db)"
    using assms(2) unfolding set_role_active_operation_def Let_def
    by (elim res_elims) (cases b; auto simp: require_version_Inr role_outcome_def split: if_splits)
  from administeredI [OF assms(1) lock] version out show ?thesis
    by (metis administered_row(5))
qed

lemma set_role_active_sound:
  assumes "wf db" "set_role_active_operation ctx role_id b v db = Inr (out, db')"
  shows "sound_step db db'"
proof -
  obtain oper au r holders locked where adm: "administered db ctx role_id oper au r holders locked"
    and db': "db' = (if r_is_active r = b then db else bump_shared_authority locked (r\<lparr>r_is_active := b\<rparr>) db)"
    using set_role_active_effect [OF assms] by blast
  note r = administered_row [OF adm]
  let ?r' = "r\<lparr>r_is_active := b\<rparr>"
  have "role_step r ?r'" "role_checks ?r'"
    using r(3,4) wf_role_checks [OF assms(1) r(1)] by (simp_all add: role_step_def custom_role_checks)
  then have "sound_step db (bump_shared_authority locked ?r' db)"
    using r wf_deleters [OF assms(1) r(1)] assms(1)
    by (intro bump_shared_authority_sound [where r = r]) simp_all
  then show ?thesis
    unfolding db' using assms(1) by (simp add: sound_step_refl)
qed

lemma set_role_active_business_only:
  assumes "wf db"
  shows "business_only (set_role_active_operation ctx role_id b v db)"
  unfolding set_role_active_operation_def Let_def
  by (intro business_only_bind business_only_lock_role assms business_only_administration
      business_only_version business_only_Inr)

definition deleted_role :: "role \<Rightarrow> int \<Rightarrow> uuid \<Rightarrow> role" where
  "deleted_role r now actor_id =
     r\<lparr>r_is_active := False, r_deleted_at := Some now, r_deleted_by_user_id := Some actor_id\<rparr>"

definition without_rows_of_role :: "uuid \<Rightarrow> int \<Rightarrow> uuid \<Rightarrow> database \<Rightarrow> database" where
  "without_rows_of_role role_id now actor_id db =
     db\<lparr>db_user_roles := delete_assignments (\<lambda>ur. ur_role_id ur = role_id) now actor_id (db_user_roles db),
        db_role_permissions := delete_role_permissions (\<lambda>rp. rp_role_id rp = role_id) now actor_id
          (db_role_permissions db)\<rparr>"

lemma soft_delete_role_effect:
  assumes "wf db" "soft_delete_role_operation now ctx role_id v db = Inr (out, db')"
  shows "\<exists>au r holders locked. administered db ctx role_id DELETE au r holders locked \<and> r_version r = v \<and>
     db' = bump_shared_authority locked (deleted_role r now (u_id au))
             (without_rows_of_role role_id now (u_id au) db)"
proof -
  obtain locked x where
    lock: "lock_shared_role_change db ctx role_id (role_administration_permission DELETE) True
      = Inr locked" "require_role_administration locked DELETE = Inr x"
    and version: "r_version (l_role locked) = v"
    and db': "db' = bump_shared_authority locked (deleted_role (l_role locked) now (a_user_id (l_actor locked)))
             (without_rows_of_role role_id now (a_user_id (l_actor locked)) db)"
    using assms(2) unfolding soft_delete_role_operation_def Let_def
    by (elim res_elims) (auto simp: require_version_Inr deleted_role_def without_rows_of_role_def)
  from administeredI [OF assms(1) lock] version db' show ?thesis
    by (metis administered_row(5,8))
qed

lemma sound_without_rows:
  assumes "wf db" "r \<in> set (db_roles db)" "\<not> r_is_system r" "a \<in> u_id ` set (db_users db)"
  shows "sound_step db (without_rows_of_role (r_id r) now a db)"
proof -
  let ?db1 = "db\<lparr>db_user_roles := delete_assignments (\<lambda>ur. ur_role_id ur = r_id r) now a (db_user_roles db)\<rparr>"
  have key: "r_key r \<noteq> ''user''" "r_key r \<noteq> ''super_admin''"
    using custom_not_reserved [OF wf_role_checks [OF assms(1,2)] assms(3)] by simp_all
  have step: "sound_step db ?db1"
  proof (rule sound_delete_assignments [OF assms(1,4)])
    fix ur assume "ur_role_id ur = r_id r"
    then show "\<not> keyed db ''user'' (ur_role_id ur) \<and> \<not> keyed db ''super_admin'' (ur_role_id ur)"
      using keyed_role [OF assms(1,2)] key by metis
  qed
  have "sound_step ?db1 (?db1\<lparr>db_role_permissions :=
      delete_role_permissions (\<lambda>rp. rp_role_id rp = r_id r) now a (db_role_permissions ?db1)\<rparr>)"
    using assms(2-4) by (intro sound_delete_grants [where r = r] sound_step_wf [OF step]) simp_all
  then show ?thesis
    using step by (auto simp: without_rows_of_role_def intro: sound_step_trans)
qed

lemma soft_delete_role_sound:
  assumes "wf db" "soft_delete_role_operation now ctx role_id v db = Inr (out, db')"
  shows "sound_step db db'"
proof -
  obtain au r holders locked where adm: "administered db ctx role_id DELETE au r holders locked"
    and db': "db' = bump_shared_authority locked (deleted_role r now (u_id au))
             (without_rows_of_role role_id now (u_id au) db)"
    using soft_delete_role_effect [OF assms] by blast
  note r = administered_row [OF adm]
  let ?db1 = "without_rows_of_role role_id now (u_id au) db"
  have actor: "u_id au \<in> u_id ` set (db_users db)"
    using r(9) by simp
  have step: "sound_step db ?db1"
    using sound_without_rows [OF assms(1) r(1,3) actor] r(2) by simp
  have "role_step r (deleted_role r now (u_id au))" "role_checks (deleted_role r now (u_id au))"
    using r(3,4) wf_role_checks [OF assms(1) r(1)]
    by (simp_all add: role_step_def deleted_role_def custom_role_checks)
  then have "sound_step ?db1 (bump_shared_authority locked (deleted_role r now (u_id au)) ?db1)"
    using r actor sound_step_wf [OF step]
    by (intro bump_shared_authority_sound [where r = r])
       (simp_all add: without_rows_of_role_def deleted_role_def)
  with step show ?thesis
    unfolding db' by (rule sound_step_trans)
qed

lemma soft_delete_role_business_only:
  assumes "wf db"
  shows "business_only (soft_delete_role_operation now ctx role_id v db)"
  unfolding soft_delete_role_operation_def Let_def
  by (intro business_only_bind business_only_lock_role assms business_only_administration
      business_only_version business_only_Inr)

subsection \<open>Changing the permissions of a role\<close>

lemma load_permission_keys_spec:
  assumes "wf db"
  shows "load_permission_keys db ids =
    map (\<lambda>p. (p_id p, p_key p)) (filter (\<lambda>p. p_id p \<in> ids \<and> live_permission p) (db_permissions db))"
proof -
  have "distinct (map p_id (db_permissions db))"
    using wf_keys_ok [OF assms] by (simp add: keys_ok_def)
  then show ?thesis
    unfolding load_permission_keys_def by (intro fold_update_distinct_keys) (rule distinct_map_filter)
qed

lemma lock_role_permissions_keys:
  "fst ` set (lock_role_permissions db i) = permission_key_set db i"
proof -
  have "lock_role_permissions db i = fold (\<lambda>x. AList.update (fst x) (snd x))
       (concat (map (\<lambda>rp. map (\<lambda>p. (p_key p, rp)) (permission_of db rp)) (grants_of db i))) []"
    unfolding lock_role_permissions_def by (rule arg_cong [where f = "\<lambda>f. fold f _ _"]) (auto simp: fun_eq_iff)
  then show ?thesis
    by (simp only: keys_fold_update) (force simp: permission_key_set_def)
qed

lemma permission_key_set_iff:
  "k \<in> permission_key_set db i \<longleftrightarrow>
     (\<exists>rp \<in> set (db_role_permissions db). rp_role_id rp = i \<and> live_rp rp \<and>
       (\<exists>p \<in> set (db_permissions db). p_id p = rp_permission_id rp \<and> live_permission p \<and> p_key p = k))"
  by (auto simp: permission_key_set_def grants_of_def permission_of_def)

definition permissions_changed ::
    "database \<Rightarrow> authorization_context \<Rightarrow> uuid \<Rightarrow> role_operation \<Rightarrow> string set \<Rightarrow> user \<Rightarrow> role \<Rightarrow>
     user list \<Rightarrow> locked_shared_role \<Rightarrow> bool" where
  "permissions_changed db ctx role_id oper keys au r holders locked \<longleftrightarrow>
     role_locked db ctx role_id (permissions_change_permission oper) False au r holders locked \<and>
     u_id au \<notin> holder_ids db role_id \<and>
     custom_role_manageable (authority_spec db False au) (role_grant_of db r) \<and>
     keys \<subseteq> SUPER_ADMIN_PERMISSION_KEYS \<and> ''registration:configure'' \<notin> keys \<and>
     keys \<subseteq> a_permissions (authority_spec db False au) \<and>
     (\<forall>u \<in> set holders. dominates (authority_spec db False au)
        (with_role (authority_spec db True u) ((role_grant_of db r)\<lparr>g_permissions := keys\<rparr>)))"

lemma change_role_permissions_effect:
  assumes "wf db" "change_role_permissions_operation now ctx role_id requested oper v db = Inr (out, db')"
  shows "\<exists>au r holders locked. let keys_by_id = load_permission_keys db requested;
       before = permission_key_set db role_id;
       after = permission_keys_after oper before (snd ` set keys_by_id) in
     permissions_changed db ctx role_id oper after au r holders locked \<and>
     fst ` set keys_by_id = requested \<and> r_version r = v \<and>
     rm_changed (o_value out) = (before \<noteq> after) \<and>
     db' = (if before = after then db
            else bump_shared_authority locked r (db\<lparr>db_role_permissions :=
              changed_grants db now oper role_id (u_id au) requested keys_by_id before\<rparr>))"
proof -
  let ?K = "load_permission_keys db requested"
  obtain locked where
    lock: "lock_shared_role_change db ctx role_id
       (if oper = BIND then ROLES_PERMISSIONS_BIND else ROLES_PERMISSIONS_UNBIND) False = Inr locked"
    and known: "fst ` set ?K = requested"
    and allowed: "allowed (decide_role_permissions_change oper (l_actor locked) (l_role_before locked)
       (permission_keys_after oper (g_permissions (l_role_before locked)) (snd ` set ?K)) (actor_holds_role locked)
       (map (\<lambda>s. with_role s ((l_role_before locked)\<lparr>g_permissions :=
          permission_keys_after oper (g_permissions (l_role_before locked)) (snd ` set ?K)\<rparr>))
        (l_affected_before locked)))"
    and version: "r_version (l_role locked) = v"
    and out: "rm_changed (o_value out) = (g_permissions (l_role_before locked) \<noteq>
        permission_keys_after oper (g_permissions (l_role_before locked)) (snd ` set ?K))"
      "db' = (if g_permissions (l_role_before locked) =
          permission_keys_after oper (g_permissions (l_role_before locked)) (snd ` set ?K) then db
         else bump_shared_authority locked (l_role locked) (db\<lparr>db_role_permissions :=
           changed_grants db now oper role_id (a_user_id (l_actor locked)) requested ?K
             (fst ` set (l_permission_rows locked))\<rparr>))"
    using assms(2) unfolding change_role_permissions_operation_def Let_def
    by (elim res_elims) (auto simp: require_version_Inr require_allowed_Inr raise_unless_Inr role_outcome_def)
  obtain au r holders where l: "role_locked db ctx role_id (permissions_change_permission oper) False au r holders locked"
    using lock_shared_role_change_Inr [OF assms(1) lock] unfolding permissions_change_permission_def by blast
  have before: "g_permissions (l_role_before locked) = permission_key_set db role_id"
    and rows: "fst ` set (l_permission_rows locked) = permission_key_set db role_id"
    and row: "l_role locked = r" "a_user_id (l_actor locked) = u_id au"
    using l by (auto simp: role_locked_def lock_role_permissions_keys)
  have "permissions_changed db ctx role_id oper
      (permission_keys_after oper (permission_key_set db role_id) (snd ` set ?K)) au r holders locked"
    using l allowed unfolding decide_role_permissions_change_allowed before
    by (auto simp: permissions_changed_def role_locked_def actor_holds_role_def)
  with known version out show ?thesis
    unfolding Let_def before rows row by blast
qed

lemma sound_changed_grants:
  assumes "wf db" "r \<in> set (db_roles db)" "\<not> r_is_system r" "a \<in> u_id ` set (db_users db)"
  shows "sound_step db (db\<lparr>db_role_permissions := changed_grants db now oper (r_id r) a requested
      (load_permission_keys db requested) (permission_key_set db (r_id r))\<rparr>)"
proof (cases oper)
  case BIND
  let ?ids = "map fst (filter (\<lambda>item. snd item \<notin> permission_key_set db (r_id r)) (load_permission_keys db requested))"
  have keys: "distinct (map p_id (db_permissions db))"
    using wf_keys_ok [OF assms(1)] by (simp add: keys_ok_def)
  have same: "p = q" if "p \<in> set (db_permissions db)" "q \<in> set (db_permissions db)" "p_id p = p_id q" for p q
    using that keys by (auto simp: distinct_map dest: inj_onD)
  have "sound_step db (db\<lparr>db_role_permissions := db_role_permissions db @ new_grants (r_id r) a ?ids\<rparr>)"
  proof (rule sound_add_grants [OF assms(1,4,2,3)])
    show "distinct ?ids"
      unfolding load_permission_keys_spec [OF assms(1)]
      using keys by (simp add: filter_map comp_def distinct_map_filter)
    show "set ?ids \<subseteq> p_id ` set (db_permissions db)"
      by (auto simp: load_permission_keys_spec [OF assms(1)])
    show "(r_id r, i) \<notin> set (live_pairs_rp (db_role_permissions db))" if "i \<in> set ?ids" for i
    proof
      obtain p where p: "p \<in> set (db_permissions db)" "live_permission p" "i = p_id p"
        "p_key p \<notin> permission_key_set db (r_id r)"
        using \<open>i \<in> set ?ids\<close> by (auto simp: load_permission_keys_spec [OF assms(1)])
      assume "(r_id r, i) \<in> set (live_pairs_rp (db_role_permissions db))"
      then obtain rp where "rp \<in> set (db_role_permissions db)" "live_rp rp"
        "rp_role_id rp = r_id r" "rp_permission_id rp = p_id p"
        using p(3) by (auto simp: live_pairs_rp_def)
      then have "p_key p \<in> permission_key_set db (r_id r)"
        using p(1,2) unfolding permission_key_set_iff by metis
      with p(4) show False by contradiction
    qed
  qed
  then show ?thesis by (simp add: BIND changed_grants_def)
next
  case UNBIND
  have "sound_step db (db\<lparr>db_role_permissions := delete_role_permissions
      (\<lambda>rp. rp_role_id rp = r_id r \<and> rp_permission_id rp \<in> requested) now a (db_role_permissions db)\<rparr>)"
    by (rule sound_delete_grants [OF assms(1,4,2,3)]) simp
  then show ?thesis by (simp add: UNBIND changed_grants_def)
qed

lemma permissions_changed_row:
  assumes "permissions_changed db ctx role_id oper keys au r holders locked"
  shows "r \<in> set (db_roles db)" "r_id r = role_id" "\<not> r_is_system r" "live_role r" "r_is_active r"
    "db_state db = Some (l_state locked)" "l_affected_ids locked = holder_ids db role_id"
    "au \<in> set (db_users db)"
  using assms by (simp_all add: permissions_changed_def role_locked_def custom_role_manageable_def current_actor_def)

lemma change_role_permissions_sound:
  assumes "wf db" "change_role_permissions_operation now ctx role_id requested oper v db = Inr (out, db')"
  shows "sound_step db db'"
proof -
  let ?K = "load_permission_keys db requested" and ?before = "permission_key_set db role_id"
  let ?after = "permission_keys_after oper ?before (snd ` set ?K)"
  obtain au r holders locked where adm: "permissions_changed db ctx role_id oper ?after au r holders locked"
    and db': "db' = (if ?before = ?after then db
            else bump_shared_authority locked r (db\<lparr>db_role_permissions :=
              changed_grants db now oper role_id (u_id au) requested ?K ?before\<rparr>))"
    using change_role_permissions_effect [OF assms] unfolding Let_def by blast
  note r = permissions_changed_row [OF adm]
  let ?db1 = "db\<lparr>db_role_permissions := changed_grants db now oper role_id (u_id au) requested ?K ?before\<rparr>"
  have step: "sound_step db ?db1"
    using sound_changed_grants [OF assms(1) r(1,3), of "u_id au"] r(2,8) by simp
  have "sound_step ?db1 (bump_shared_authority locked r ?db1)"
    using r wf_role_checks [OF assms(1) r(1)] wf_deleters [OF assms(1) r(1)] sound_step_wf [OF step]
    by (intro bump_shared_authority_sound [where r = r]) simp_all
  then show ?thesis
    unfolding db' using step assms(1) by (auto intro: sound_step_trans sound_step_refl)
qed

lemma change_role_permissions_business_only:
  assumes "wf db"
  shows "business_only (change_role_permissions_operation now ctx role_id requested oper v db)"
  unfolding change_role_permissions_operation_def Let_def
  by (intro business_only_bind business_only_lock_role assms business_only_raise business_only_allowed
      business_only_version business_only_Inr)

end
