(* ===== verification/Payload_Laws.thy ===== *)
theory Payload_Laws
  imports Role_Laws
begin

text \<open>
  What the operations of \<open>RbacService\<close> write into the JSONB columns of their audit event. On
  a well-formed database every key, name and description a payload repeats is text a column
  already holds, or text the operation itself has just stored, so the event is refused only
  when the operation's own rows are.
\<close>

subsection \<open>Storable payloads\<close>

definition payload_storable :: "'a mutation_outcome \<Rightarrow> bool" where
  "payload_storable out \<longleftrightarrow> state_storable (o_before_state out) \<and> state_storable (o_after_state out)"

lemma value_storable_obj:
  "value_storable (a_obj members) \<longleftrightarrow> list_all (\<lambda>(k, v). storable (lit k) \<and> value_storable v) members"
  by (auto simp: a_obj_def list_all_iff)

lemma value_storable_str [simp]: "value_storable (a_str s) \<longleftrightarrow> storable (lit s)"
  by (simp add: a_str_def)

lemma storable_uuid [simp]: "storable (lit (uuid_str i))"
  by (rule storable_plain [OF uuid_str_plain])

lemma payload_keys_storable:
  "list_all (\<lambda>k. storable (lit k))
     [''user_id'', ''is_active'', ''role_ids'', ''role_keys'', ''permissions'', ''management_tier'',
      ''is_protected'', ''is_super_admin'', ''authz_version'', ''role_id'', ''key'', ''name'',
      ''description'', ''is_system'', ''is_deleted'', ''version'', ''token_version'', ''default_role_id'']"
  by code_simp

lemmas payload_key [simp] = payload_keys_storable [unfolded list.pred_inject simp_thms]

lemma set_sorted_list_subset: "set (sorted_list_of_set A) \<subseteq> A"
  by (cases "finite A") simp_all

subsection \<open>The text of an authority\<close>

definition keys_storable :: "string set \<Rightarrow> bool" where
  "keys_storable ks \<longleftrightarrow> (\<forall>k \<in> ks. storable (lit k))"

definition authority_storable :: "authority_snapshot \<Rightarrow> bool" where
  "authority_storable s \<longleftrightarrow> keys_storable (a_permissions s) \<and>
     (\<forall>g \<in> set (a_roles s). storable (lit (g_key g)) \<and> keys_storable (g_permissions g))"

lemma wf_permission_key_storable: "wf db \<Longrightarrow> p \<in> set (db_permissions db) \<Longrightarrow> storable (lit (p_key p))"
  by (auto simp: wf_def rows_ok_def list_all_iff permission_checks_def permission_text_columns_def
      dest: column_text_storable)

lemma wf_role_columns: "wf db \<Longrightarrow> r \<in> set (db_roles db) \<Longrightarrow> role_columns r"
  by (rule role_checks_columns [OF wf_role_checks])

lemma permission_key_set_storable: "wf db \<Longrightarrow> keys_storable (permission_key_set db i)"
  by (auto simp: keys_storable_def permission_key_set_iff wf_permission_key_storable)

lemma role_grant_storable:
  "wf db \<Longrightarrow> r \<in> set (db_roles db) \<Longrightarrow>
     storable (lit (g_key (role_grant_of db r))) \<and> keys_storable (g_permissions (role_grant_of db r))"
  using wf_role_columns
  by (auto simp: role_columns_def permission_key_set_storable dest: column_text_storable)

lemma replace_roles_storable:
  "(\<And>g. g \<in> set gs \<Longrightarrow> storable (lit (g_key g)) \<and> keys_storable (g_permissions g)) \<Longrightarrow>
     authority_storable (build i act prot tv av gs)"
  by (auto simp: authority_storable_def build_def keys_storable_def)

lemma authority_spec_storable: "wf db \<Longrightarrow> authority_storable (authority_spec db incl u)"
  unfolding authority_spec_def authority_with_def
  using role_grant_storable by (intro replace_roles_storable) (auto simp: roles_of_def)

lemma update_range: "snd ` set (AList.update k v acc) \<subseteq> insert v (snd ` set acc)"
  by (induction acc) auto

lemma fold_role_dict_range:
  "snd ` set (fold (\<lambda>item. AList.update (g_role_id item) item) gs acc) \<subseteq> set gs \<union> snd ` set acc"
proof (induction gs arbitrary: acc)
  case (Cons g gs)
  have "snd ` set (fold (\<lambda>item. AList.update (g_role_id item) item) (g # gs) acc)
    \<subseteq> set gs \<union> snd ` set (AList.update (g_role_id g) g acc)"
    using Cons [of "AList.update (g_role_id g) g acc"] by simp
  also have "\<dots> \<subseteq> set gs \<union> insert g (snd ` set acc)"
    by (rule Un_mono [OF subset_refl update_range])
  finally show ?case by simp
qed simp

lemma with_role_storable:
  assumes "authority_storable s" "storable (lit (g_key g))" "keys_storable (g_permissions g)"
  shows "authority_storable (with_role s g)"
proof -
  let ?d = "fold (\<lambda>item. AList.update (g_role_id item) item) (a_roles s) []"
  have "snd ` set (AList.update (g_role_id g) g ?d) \<subseteq> insert g (set (a_roles s))"
    using fold_role_dict_range [of "a_roles s @ [g]" "[]"] by auto
  then show ?thesis
    unfolding with_role_def Let_def replace_roles_def
    using assms by (intro replace_roles_storable) (auto simp: authority_storable_def)
qed

lemma without_role_storable: "authority_storable s \<Longrightarrow> authority_storable (without_role s i)"
  unfolding without_role_def replace_roles_def
  by (intro replace_roles_storable) (auto simp: authority_storable_def)

lemma roles_before_after_storable:
  assumes "authority_storable s" "\<And>g. g \<in> set gs \<Longrightarrow> storable (lit (g_key g)) \<and> keys_storable (g_permissions g)"
  shows "authority_storable (roles_before_after oper s gs)"
proof -
  have "authority_storable (fold (\<lambda>g s. with_role s g) gs s)"
    using assms by (induction gs arbitrary: s) (simp_all add: with_role_storable)
  moreover have "authority_storable (fold (\<lambda>g s. without_role s (g_role_id g)) gs s)"
    using assms by (induction gs arbitrary: s) (simp_all add: without_role_storable)
  ultimately show ?thesis by (simp add: roles_before_after_def)
qed

lemma authority_storable_update [simp]:
  "authority_storable (s\<lparr>a_user_is_active := b\<rparr>) = authority_storable s"
  "authority_storable (s\<lparr>a_authz_version := n\<rparr>) = authority_storable s"
  by (simp_all add: authority_storable_def)

lemma snapshot_payload_storable: "authority_storable s \<Longrightarrow> value_storable (snapshot_payload s)"
  using set_sorted_list_subset [of "a_permissions s"]
  by (auto simp: snapshot_payload_def value_storable_obj list_all_iff authority_storable_def keys_storable_def)

lemma role_payload_storable:
  "role_columns r \<Longrightarrow> keys_storable ks \<Longrightarrow> value_storable (role_payload (role_response r ks))"
  using set_sorted_list_subset [of ks]
  by (auto simp: role_payload_def role_response_def value_storable_obj list_all_iff role_columns_def
      keys_storable_def dest: column_text_storable)

subsection \<open>The payloads of the operations\<close>

lemma update_user_status_payload:
  assumes "wf db" "update_user_status_operation ctx t b db = Inr (out, db')"
  shows "payload_storable out"
proof -
  obtain actor target row state roles where
    lock: "lock_actor_and_target_user db ctx t USERS_STATUS_UPDATE {} = Inr (actor, target, row, state, roles)"
    and out: "authority_storable target \<Longrightarrow> payload_storable out"
    using assms(2) unfolding update_user_status_operation_def Let_def
    by (elim res_elims) (auto simp: payload_storable_def snapshot_payload_storable elim!: res_elims split: if_splits)
  show ?thesis
    using lock_actor_and_target_user_Inr [OF assms(1) lock] authority_spec_storable [OF assms(1)]
    by (intro out) auto
qed

lemma revoke_user_sessions_payload:
  assumes "revoke_user_sessions_operation ctx t db = Inr (out, db')"
  shows "payload_storable out"
  using assms unfolding revoke_user_sessions_operation_def Let_def
  by (elim res_elims) (auto simp: payload_storable_def value_storable_obj elim!: res_elims)

lemma change_user_roles_payload:
  assumes "wf db" "finite requested"
    and "change_user_roles_operation now ctx t requested oper db = Inr (out, db')"
  shows "payload_storable out"
proof -
  obtain actor before row state locked roles grants where
    lock: "lock_actor_and_target_user db ctx t (if oper = BIND then ROLES_ASSIGN else ROLES_REVOKE) requested
      = Inr (actor, before, row, state, locked)"
    and roles: "requested_roles oper locked (existing_role_ids db t requested) requested = Inr roles"
    and grants: "mapE (\<lambda>role. case map_of (load_role_grants_for_roles db roles) (r_id role) of
       None \<Rightarrow> Inl Key_error | Some g \<Rightarrow> Inr g) roles = Inr grants"
    and out: "authority_storable before \<Longrightarrow> authority_storable (roles_before_after oper before grants) \<Longrightarrow>
       payload_storable out"
    using assms(3) unfolding change_user_roles_operation_def Let_def
    by (elim res_elims) (auto simp: payload_storable_def snapshot_payload_storable)
  have locked: "locked = lock_roles db (assigned_role_ids db {pr_user_id (c_principal ctx), t} \<union> requested)"
    and before: "authority_storable before"
    using lock_actor_and_target_user_Inr [OF assms(1) lock] authority_spec_storable [OF assms(1)] by auto
  note req = requested_roles_Inr [OF assms(1,2) roles [unfolded locked]]
  have "grants = map (role_grant_of db) roles"
    using grants requested_grants [OF req(1)] by simp
  moreover have "set roles \<subseteq> set (db_roles db)"
    using req(2) by blast
  ultimately have "authority_storable (roles_before_after oper before grants)"
    using role_grant_storable [OF assms(1)] by (intro roles_before_after_storable before) auto
  with before show ?thesis by (rule out)
qed

lemma role_outcome_storable:
  "role_columns r \<Longrightarrow> role_columns r' \<Longrightarrow> keys_storable ks \<Longrightarrow> keys_storable ks' \<Longrightarrow>
     payload_storable (role_outcome ch reason (role_response r ks) (role_response r' ks'))"
  by (simp add: payload_storable_def role_outcome_def role_payload_storable)

lemma if_next_version_columns [simp]:
  "role_columns (if changed then next_version r else r) = role_columns r"
  by simp

lemma create_role_payload:
  assumes "create_role_operation role_id ctx request db = Inr (out, db')" "columns_fit db'"
  shows "payload_storable out"
proof -
  have "o_before_state out = None \<and> o_after_state out = Some (role_payload (role_response (new_role role_id request) {})) \<and>
      new_role role_id request \<in> set (db_roles db')"
    using assms(1) unfolding create_role_operation_def Let_def
    by (elim res_elims) (auto simp: save_state_def)
  then show ?thesis
    using assms(2)
    by (auto simp: payload_storable_def columns_fit_def list_all_iff keys_storable_def role_payload_storable)
qed

text \<open>The role a shared change locks, and the keys of its grants.\<close>

lemma locked_role_storable:
  assumes "wf db" "lock_shared_role_change db ctx role_id required incl = Inr locked"
  shows "l_role locked \<in> set (db_roles db) \<and> role_columns (l_role locked) \<and>
     keys_storable (g_permissions (l_role_before locked)) \<and> keys_storable {}"
proof -
  obtain au r holders where "role_locked db ctx role_id required incl au r holders locked"
    using lock_shared_role_change_Inr [OF assms] by blast
  then have "l_role locked = r" "r \<in> set (db_roles db)" "l_role_before locked = role_grant_of db r"
    by (simp_all add: role_locked_def)
  then show ?thesis
    using wf_role_columns [OF assms(1)] role_grant_storable [OF assms(1)] by (auto simp: keys_storable_def)
qed

lemma update_role_payload:
  assumes "wf db" "update_role_operation ctx role_id request v db = Inr (out, db')" "columns_fit db'"
  shows "payload_storable out"
proof -
  let ?new = "\<lambda>locked. next_version (rewritten (l_role locked) request)"
  obtain locked where
    lock: "lock_shared_role_change db ctx role_id ROLES_UPDATE True = Inr locked"
    and db': "rewritten (l_role locked) request = l_role locked \<or>
      db' = save_state (next_epoch (l_state locked)) (save_role (?new locked) db)"
    and out: "role_columns (l_role locked) \<Longrightarrow> role_columns (rewritten (l_role locked) request) \<Longrightarrow>
      keys_storable (g_permissions (l_role_before locked)) \<Longrightarrow> payload_storable out"
    using assms(2) unfolding update_role_operation_def Let_def rewritten_def
    by (elim res_elims) (cases "ru_name request"; cases "ru_description request";
         auto simp: rewritten_same role_outcome_storable split: if_splits)
  note l = locked_role_storable [OF assms(1) lock]
  have "role_columns (rewritten (l_role locked) request)"
    using db' l saved_role_columns [of "l_role locked" db "?new locked"] assms(3) by auto
  with l show ?thesis by (intro out) simp_all
qed

lemma set_role_active_payload:
  assumes "wf db" "set_role_active_operation ctx role_id b v db = Inr (out, db')"
  shows "payload_storable out"
  using assms(2) unfolding set_role_active_operation_def Let_def
  by (elim res_elims) (auto intro!: role_outcome_storable dest!: locked_role_storable [OF assms(1)])

lemma soft_delete_role_payload:
  assumes "wf db" "soft_delete_role_operation now ctx role_id v db = Inr (out, db')"
  shows "payload_storable out"
  using assms(2) unfolding soft_delete_role_operation_def Let_def
  by (elim res_elims) (auto intro!: role_outcome_storable dest!: locked_role_storable [OF assms(1)])

lemma change_role_permissions_payload:
  assumes "wf db" "change_role_permissions_operation now ctx role_id requested oper v db = Inr (out, db')"
  shows "payload_storable out"
proof -
  have keys: "keys_storable (snd ` set (load_permission_keys db requested))"
    using wf_permission_key_storable [OF assms(1)]
    by (auto simp: load_permission_keys_spec [OF assms(1)] keys_storable_def)
  have after: "keys_storable (permission_keys_after oper ks (snd ` set (load_permission_keys db requested)))"
    if "keys_storable ks" for ks
    using that keys by (auto simp: permission_keys_after_def keys_storable_def)
  obtain locked where
    lock: "lock_shared_role_change db ctx role_id
      (if oper = BIND then ROLES_PERMISSIONS_BIND else ROLES_PERMISSIONS_UNBIND) False = Inr locked"
    and out: "role_columns (l_role locked) \<Longrightarrow> keys_storable (g_permissions (l_role_before locked)) \<Longrightarrow>
      payload_storable out"
    using assms(2) unfolding change_role_permissions_operation_def Let_def
    by (elim res_elims) (clarsimp simp: role_outcome_storable after simp del: not_None_eq split del: if_split)
  show ?thesis
    using locked_role_storable [OF assms(1) lock] by (intro out) simp_all
qed

end
