(* ===== verification/Audited.thy ===== *)
theory Audited
  imports Payload_Laws
begin

text \<open>
  The contract between \<open>_run_audited\<close> and the operations it runs, as a locale, and its
  interpretation on every operation of \<open>RbacService\<close>. An operation promises to fail only
  with an \<open>RbacError\<close> and to change a well-formed database soundly as long as the text it
  stores fits its columns; \<open>_run_audited\<close> then promises that no constraint ever fires for
  any other reason, that a success leaves exactly one \<open>allowed\<close> event with it, and that a
  refusal changes nothing but the audit log.
\<close>

subsection \<open>What building an event may raise\<close>

definition value_only :: "failure + 'a \<Rightarrow> bool" where
  "value_only m \<longleftrightarrow> (\<forall>e. m = Inl e \<longrightarrow> (\<exists>msg. e = Value_error msg))"

lemma value_only_simps [simp]: "value_only (Inr x)" "value_only (Inl (Value_error msg))"
  by (simp_all add: value_only_def)

lemma value_only_bind:
  "value_only m \<Longrightarrow> (\<And>x. m = Inr x \<Longrightarrow> value_only (f x)) \<Longrightarrow> value_only (bindE m f)"
  by (cases m) (auto simp: value_only_def)

lemma value_only_mapE: "(\<And>x. x \<in> set xs \<Longrightarrow> value_only (f x)) \<Longrightarrow> value_only (mapE f xs)"
  by (induction xs) (auto intro!: value_only_bind)

lemma value_only_safe_key: "value_only (require_safe_key u k)"
  by (simp add: require_safe_key_def)

lemma value_only_audit_json: "value_only (audit_json u v depth)"
proof (induction u v depth rule: audit_json.induct)
  case (1 u v depth)
  show ?case
  proof (cases "depth > MAX_DEPTH")
    case True
    then show ?thesis by (simp add: audit_json.simps [of u v])
  next
    case False
    note unfold = audit_json.simps [of u v depth] if_not_P [OF False]
    show ?thesis
    proof (cases v)
      case (A_Map items)
      have "value_only (case fst item of None \<Rightarrow> Inl (Value_error ''audit state object keys must be strings'')
          | Some key \<Rightarrow> bindE (require_safe_key u key) (\<lambda>_.
              bindE (audit_json u (snd item) (depth + 1)) (\<lambda>j. Inr (key, j))))"
        if "item \<in> set items" "\<not> MAX_COLLECTION_ITEMS < length items" for item
        using 1(2) [OF False A_Map] that
        by (cases item; cases "fst item") (auto intro!: value_only_bind value_only_safe_key)
      then show ?thesis
        unfolding unfold unfolding A_Map audit_value.case
        by (cases "MAX_COLLECTION_ITEMS < length items") (auto intro!: value_only_bind value_only_mapE)
    next
      case (A_Seq xs)
      then show ?thesis
        unfolding unfold unfolding A_Seq audit_value.case
        using 1(3) [OF False A_Seq] by (auto intro!: value_only_bind value_only_mapE)
    next
      case (A_Enum x)
      show ?thesis
        unfolding unfold unfolding A_Enum audit_value.case by (rule 1(1) [OF False A_Enum])
    qed (simp_all add: audit_json.simps [of u _ depth])
  qed
qed

lemma value_only_sanitize: "value_only (sanitize_audit_state u s)"
proof (cases s)
  case (Some v)
  have "value_only (case j of J_Obj members \<Rightarrow> bindE (utf8_length (encode_json j)) (\<lambda>n.
      if n > MAX_STATE_BYTES then Inl (Value_error ''audit state exceeds 16 KiB'') else Inr (Some j))
    | _ \<Rightarrow> Inl (Value_error ''audit state must be a JSON object''))" for j
    by (cases j) (auto simp: utf8_length_def intro!: value_only_bind)
  then show ?thesis
    using value_only_audit_json by (auto simp: Some sanitize_audit_state_def intro!: value_only_bind)
qed (simp add: sanitize_audit_state_def)

lemma value_only_audit_event:
  "value_only (audit_event uc ctx action decision reason tu tr before after)"
  unfolding audit_event_def new_rbac_audit_event_def
  by (intro value_only_bind value_only_sanitize)
     (simp_all add: validate_audit_action_def validate_audit_reason_def validate_audit_request_id_def)

lemma audit_event_fields:
  "audit_event uc ctx action decision reason tu tr before after = Inr e \<Longrightarrow>
     ev_actor_user_id e = pr_user_id (c_principal ctx) \<and> ev_target_user_id e = tu \<and>
     ev_target_role_id e = tr \<and> ev_action e = action \<and> ev_decision e = decision \<and>
     ev_reason_code e = reason \<and> ev_request_id e = c_request_id ctx"
  by (auto simp: audit_event_def new_rbac_audit_event_def bindE_Inr validate_audit_action_def
      validate_audit_reason_def validate_audit_request_id_def if_Inl_eq_Inr)

subsection \<open>Denied events\<close>

lemma denied_event_commits:
  assumes "wf db"
  shows "snd (transaction (denied_body uc ctx action reason tu tr) db) = db \<or>
     (\<exists>e. snd (transaction (denied_body uc ctx action reason tu tr) db) = add_rbac_event e db \<and>
        rbac_audit_checks e \<and> ev_decision e = ''denied'' \<and> ev_reason_code e = reason \<and>
        ev_actor_user_id e = pr_user_id (c_principal ctx) \<and> ev_action e = action)"
proof (cases "audit_event uc ctx action ''denied'' reason tu tr None None")
  case (Inl err)
  then have "denied_body uc ctx action reason tu tr db = Inl err"
    by (simp add: denied_body_def)
  then show ?thesis by (simp add: transaction_rolls_back)
next
  case (Inr e)
  then have "denied_body uc ctx action reason tu tr db = Inr ((), add_rbac_event e db)"
    by (simp add: denied_body_def)
  moreover have checks: "rbac_audit_checks e"
    by (rule audit_event_checks [OF Inr]) simp_all
  ultimately have "transaction (denied_body uc ctx action reason tu tr) db = (Inr (), add_rbac_event e db)"
    using sound_add_event [OF assms] by (intro transaction_sound)
  then show ?thesis
    using checks audit_event_fields [OF Inr] by auto
qed

subsection \<open>The contract\<close>

definition drop_value :: "(failure + 'a) \<times> database \<Rightarrow> failure option \<times> database" where
  "drop_value res = (case fst res of Inl e \<Rightarrow> Some e | Inr _ \<Rightarrow> None, snd res)"

text \<open>
  What a caller may rely on: the database only changes soundly; a success adds exactly one
  \<open>allowed\<close> event of this actor to the log; an \<open>RbacError\<close> leaves at most a \<open>denied\<close> event
  with its reason; a \<open>ValueError\<close> (a payload the audit log refuses) and an error of the
  database (a text that does not fit its column) leave nothing; no other exception occurs.
\<close>

definition call_outcome ::
    "authorization_context \<Rightarrow> database \<Rightarrow> failure option \<Rightarrow> database \<Rightarrow> bool" where
  "call_outcome ctx db res db' \<longleftrightarrow>
     sound_step db db' \<and>
     (case res of
        None \<Rightarrow> \<exists>e. db_rbac_audit db' = db_rbac_audit db @ [e] \<and> ev_decision e = ''allowed'' \<and>
          ev_actor_user_id e = pr_user_id (c_principal ctx)
      | Some (Rbac r) \<Rightarrow> db' = db \<or>
          (status_code r < 500 \<and> (\<exists>ev. db' = add_rbac_event ev db \<and> ev_decision ev = ''denied'' \<and>
             ev_reason_code ev = reason_code r \<and> ev_actor_user_id ev = pr_user_id (c_principal ctx)))
      | Some (Value_error msg) \<Rightarrow> db' = db
      | Some (Integrity_error name) \<Rightarrow> db' = db
      | Some _ \<Rightarrow> False)"

lemma add_rbac_event_log [simp]: "db_rbac_audit (add_rbac_event e db) = db_rbac_audit db @ [e]"
  by (simp add: add_rbac_event_def)

lemma save_log [simp]:
  "db_rbac_audit (save_state s db) = db_rbac_audit db"
  "db_rbac_audit (save_user u db) = db_rbac_audit db"
  "db_rbac_audit (save_role r db) = db_rbac_audit db"
  "db_rbac_audit (bump_shared_authority locked r db) = db_rbac_audit db"
  by (simp_all add: save_state_def save_user_def save_role_def bump_shared_authority_def)

locale audited_operation =
  fixes operation :: "'q \<Rightarrow> 'a operation"
    and admissible :: "'q \<Rightarrow> database \<Rightarrow> bool"
    and storing :: "'q \<Rightarrow> bool"
  assumes business: "wf db \<Longrightarrow> business_only (operation q db)"
    and sound: "wf db \<Longrightarrow> admissible q db \<Longrightarrow> operation q db = Inr (out, db') \<Longrightarrow> columns_fit db' \<Longrightarrow>
      sound_step db db'"
    and payload: "wf db \<Longrightarrow> operation q db = Inr (out, db') \<Longrightarrow> columns_fit db' \<Longrightarrow> payload_storable out"
    and fits: "wf db \<Longrightarrow> storing q \<Longrightarrow> operation q db = Inr (out, db') \<Longrightarrow> columns_fit db'"
    and quiet: "wf db \<Longrightarrow> operation q db = Inr (out, db') \<Longrightarrow> db_rbac_audit db' = db_rbac_audit db"
begin

lemma allowed_body_result:
  assumes "wf db" "admissible q db"
  shows "case transaction (allowed_body uc ctx action tu tr (operation q)) db of
      (Inl e, db') \<Rightarrow> db' = db \<and>
        (allowed_body uc ctx action tu tr (operation q) db = Inl e \<and>
           ((\<exists>r. e = Rbac r \<and> operation q db = Inl (Rbac r)) \<or> (\<exists>msg. e = Value_error msg)) \<or>
         (\<exists>n. e = Integrity_error n \<and> \<not> storing q))
    | (Inr x, db') \<Rightarrow> \<exists>out db1 e. operation q db = Inr (out, db1) \<and> x = o_value out \<and>
        db' = add_rbac_event e db1 \<and> sound_step db db' \<and> ev_decision e = ''allowed'' \<and>
        ev_actor_user_id e = pr_user_id (c_principal ctx) \<and> ev_action e = action \<and>
        ev_reason_code e = o_reason_code out"
proof (cases "operation q db")
  case (Inl e)
  then obtain r where "e = Rbac r"
    using business [OF assms(1), of q] by (auto simp: business_only_def)
  with Inl have "allowed_body uc ctx action tu tr (operation q) db = Inl (Rbac r)"
    by (simp add: allowed_body_def)
  then show ?thesis
    using Inl \<open>e = Rbac r\<close> by (simp add: transaction_rolls_back)
next
  case (Inr res)
  obtain out db1 where res: "res = (out, db1)" by (cases res)
  let ?tr = "case o_audit_target_role_id out of None \<Rightarrow> tr | Some i \<Rightarrow> Some i"
  let ?body = "allowed_body uc ctx action tu tr (operation q)"
  show ?thesis
  proof (cases "audit_event uc ctx action ''allowed'' (o_reason_code out) tu ?tr
      (o_before_state out) (o_after_state out)")
    case Inl': (Inl err)
    then have "?body db = Inl err"
      using Inr res by (simp add: allowed_body_def)
    moreover obtain msg where "err = Value_error msg"
      using value_only_audit_event Inl' unfolding value_only_def by blast
    ultimately show ?thesis
      by (simp add: transaction_rolls_back)
  next
    case event: (Inr e)
    have body: "?body db = Inr (o_value out, add_rbac_event e db1)"
      using Inr res event by (simp add: allowed_body_def)
    show ?thesis
    proof (cases "columns_fit db1")
      case False
      then have "\<not> columns_fit (add_rbac_event e db1)" "\<not> storing q"
        using fits [OF assms(1)] Inr res by (auto simp: columns_fit_def add_rbac_event_def)
      then obtain n where "transaction ?body db = (Inl (Integrity_error n), db)"
        using transaction_refuses [of ?body db, OF body] by blast
      then show ?thesis
        using \<open>\<not> storing q\<close> by simp
    next
      case True
      have step: "sound_step db db1"
        using sound [OF assms _ True] Inr res by simp
      have "payload_storable out"
        using payload [OF assms(1) _ True] Inr res by simp
      then have "rbac_audit_checks e"
        unfolding payload_storable_def by (intro audit_event_checks [OF event]) simp_all
      then have "sound_step db (add_rbac_event e db1)"
        using sound_add_event [OF sound_step_wf [OF step]] sound_step_trans [OF step] by blast
      then show ?thesis
        using transaction_sound [where body = ?body and db = db, OF body]
          Inr res audit_event_fields [OF event] by auto
    qed
  qed
qed

text \<open>A success: the effect of the operation and one \<open>allowed\<close> event commit together.\<close>

lemma success:
  assumes "wf db" "admissible q db"
    and "run_audited uc ctx action tu tr (operation q) db = (Inr x, db')"
  shows "\<exists>out db1 e. operation q db = Inr (out, db1) \<and> x = o_value out \<and>
     db' = add_rbac_event e db1 \<and> sound_step db db' \<and> ev_decision e = ''allowed'' \<and>
     ev_actor_user_id e = pr_user_id (c_principal ctx) \<and> ev_action e = action \<and>
     ev_reason_code e = o_reason_code out"
  using allowed_body_result [OF assms(1,2), of uc ctx action tu tr] assms(3)
  by (auto simp: run_audited_def split: prod.splits sum.splits failure.splits)

text \<open>
  A failure: an \<open>RbacError\<close> the operation raised, which leaves at most a \<open>denied\<close> event
  behind, or a \<open>ValueError\<close> of the audit payload or a text no column holds, which leave
  nothing.
\<close>

lemma failure:
  assumes "wf db" "admissible q db"
    and "run_audited uc ctx action tu tr (operation q) db = (Inl e, db')"
  shows "(\<exists>r. e = Rbac r \<and> operation q db = Inl (Rbac r) \<and>
       (db' = db \<or> status_code r < 500 \<and> (\<exists>ev. db' = add_rbac_event ev db \<and> rbac_audit_checks ev \<and>
          ev_decision ev = ''denied'' \<and> ev_reason_code ev = reason_code r \<and>
          ev_actor_user_id ev = pr_user_id (c_principal ctx) \<and> ev_action ev = action))) \<or>
     (\<exists>msg. e = Value_error msg) \<and> db' = db \<or>
     (\<exists>n. e = Integrity_error n) \<and> \<not> storing q \<and> db' = db"
proof -
  obtain m db1 where t: "transaction (allowed_body uc ctx action tu tr (operation q)) db = (m, db1)"
    by fastforce
  have m: "m = Inl e"
    using assms(3) t by (auto simp: run_audited_def split: sum.splits failure.splits)
  have res: "db1 = db \<and> ((\<exists>r. e = Rbac r \<and> operation q db = Inl (Rbac r)) \<or> (\<exists>msg. e = Value_error msg) \<or>
      (\<exists>n. e = Integrity_error n \<and> \<not> storing q))"
    using allowed_body_result [OF assms(1,2), of uc ctx action tu tr] t m by auto
  then consider r where "e = Rbac r" "operation q db = Inl (Rbac r)" | msg where "e = Value_error msg"
    | n where "e = Integrity_error n" "\<not> storing q"
    by blast
  then show ?thesis
  proof cases
    case 1
    then have db': "db' = (if status_code r < 500
       then snd (transaction (denied_body uc ctx action (reason_code r) tu tr) db) else db)"
      using assms(3) t m res by (simp add: run_audited_def)
    show ?thesis
      using 1 db' denied_event_commits [OF assms(1), of uc ctx action "reason_code r" tu tr]
      by (cases "status_code r < 500") auto
  next
    case 2
    then show ?thesis
      using assms(3) t m res by (simp add: run_audited_def)
  next
    case 3
    then show ?thesis
      using assms(3) t m res by (simp add: run_audited_def)
  qed
qed

lemma run_outcome:
  assumes "wf db" "admissible q db"
    and "drop_value (run_audited uc ctx action tu tr (operation q) db) = (res, db')"
  shows "call_outcome ctx db res db' \<and> (storing q \<longrightarrow> (\<forall>n. res \<noteq> Some (Integrity_error n)))"
proof (cases "run_audited uc ctx action tu tr (operation q) db")
  case (Pair m db1)
  then have db1: "db1 = db'" and res: "res = (case m of Inl e \<Rightarrow> Some e | Inr _ \<Rightarrow> None)"
    using assms(3) by (simp_all add: drop_value_def)
  show ?thesis
  proof (cases m)
    case (Inr x)
    from success [OF assms(1,2) Pair [unfolded Inr]] db1 obtain out db2 e where
      "operation q db = Inr (out, db2)" "db' = add_rbac_event e db2" "sound_step db db'"
      "ev_decision e = ''allowed''" "ev_actor_user_id e = pr_user_id (c_principal ctx)" by blast
    then show ?thesis
      using quiet [OF assms(1)] unfolding call_outcome_def res Inr by auto
  next
    case (Inl e)
    from failure [OF assms(1,2) Pair [unfolded Inl]] db1
    consider r where "e = Rbac r" "db' = db"
      | r ev where "e = Rbac r" "status_code r < 500" "db' = add_rbac_event ev db" "rbac_audit_checks ev"
        "ev_decision ev = ''denied''" "ev_reason_code ev = reason_code r"
        "ev_actor_user_id ev = pr_user_id (c_principal ctx)"
      | msg where "e = Value_error msg" "db' = db"
      | n where "e = Integrity_error n" "\<not> storing q" "db' = db" by blast
    then show ?thesis
    proof cases
      case 1
      then show ?thesis
        using sound_step_refl [OF assms(1)] by (simp add: call_outcome_def res Inl)
    next
      case 2
      then show ?thesis
        using sound_add_event [OF assms(1)] by (auto simp: call_outcome_def res Inl)
    next
      case 3
      then show ?thesis
        using sound_step_refl [OF assms(1)] by (simp add: call_outcome_def res Inl)
    next
      case 4
      then show ?thesis
        using sound_step_refl [OF assms(1)] by (simp add: call_outcome_def res Inl)
    qed
  qed
qed

end

subsection \<open>Every operation keeps the contract\<close>

text \<open>No operation writes to the log itself.\<close>

lemma status_quiet:
  "wf db \<Longrightarrow> update_user_status_operation ctx t b db = Inr (out, db') \<Longrightarrow> db_rbac_audit db' = db_rbac_audit db"
  by (drule (1) update_user_status_effect) auto

lemma sessions_quiet:
  "wf db \<Longrightarrow> revoke_user_sessions_operation ctx t db = Inr (out, db') \<Longrightarrow> db_rbac_audit db' = db_rbac_audit db"
  by (drule (1) revoke_user_sessions_effect) auto

lemma create_quiet:
  "wf db \<Longrightarrow> create_role_operation i ctx request db = Inr (out, db') \<Longrightarrow> db_rbac_audit db' = db_rbac_audit db"
  by (drule (1) create_role_effect) auto

lemma update_quiet:
  "wf db \<Longrightarrow> update_role_operation ctx i request v db = Inr (out, db') \<Longrightarrow> db_rbac_audit db' = db_rbac_audit db"
  by (drule (1) update_role_effect) auto

lemma active_quiet:
  "wf db \<Longrightarrow> set_role_active_operation ctx i b v db = Inr (out, db') \<Longrightarrow> db_rbac_audit db' = db_rbac_audit db"
  by (drule (1) set_role_active_effect) (clarsimp simp: if_distrib [of db_rbac_audit])

lemma delete_quiet:
  "wf db \<Longrightarrow> soft_delete_role_operation now ctx i v db = Inr (out, db') \<Longrightarrow> db_rbac_audit db' = db_rbac_audit db"
  by (drule (1) soft_delete_role_effect) (auto simp: without_rows_of_role_def)

lemma permissions_quiet:
  "wf db \<Longrightarrow> change_role_permissions_operation now ctx i ids oper v db = Inr (out, db') \<Longrightarrow> db_rbac_audit db' = db_rbac_audit db"
  by (drule (1) change_role_permissions_effect) (clarsimp simp: Let_def if_distrib [of db_rbac_audit])

lemma roles_quiet:
  "wf db \<Longrightarrow> change_user_roles_operation now ctx t (set ids) oper db = Inr (out, db') \<Longrightarrow>
     db_rbac_audit db' = db_rbac_audit db"
  by (drule (1) change_user_roles_effect [OF _ finite_requested])
    (clarsimp simp: Let_def if_distrib [of db_rbac_audit])

text \<open>
  The texts of a role a request brings. Every other operation stores text that a column
  already holds.
\<close>

definition creation_storable :: "role_create_request \<Rightarrow> bool" where
  "creation_storable request \<longleftrightarrow>
     column_text 80 (lit (rc_key request)) \<and> column_text 160 (rc_name request) \<and>
     storable (rc_description request)"

definition update_storable :: "role_update_request \<Rightarrow> bool" where
  "update_storable request \<longleftrightarrow>
     (\<forall>n \<in> set_option (ru_name request). column_text 160 n) \<and>
     (\<forall>d \<in> set_option (ru_description request). storable d)"

lemma sound_columns_fit: "sound_step db db' \<Longrightarrow> columns_fit db'"
  by (rule wf_columns_fit [OF sound_step_wf])

lemma create_role_fits:
  assumes "wf db" "creation_storable request" "create_role_operation i ctx request db = Inr (out, db')"
  shows "columns_fit db'"
proof -
  have "role_columns (new_role i request)"
    using assms(2) by (simp add: creation_storable_def role_columns_def new_role_def)
  then show ?thesis
    using create_role_effect [OF assms(1,3)] wf_columns_fit [OF assms(1)]
    by (auto simp: columns_fit_def save_state_def)
qed

lemma update_role_fits:
  assumes "wf db" "update_storable request" "update_role_operation ctx i request v db = Inr (out, db')"
  shows "columns_fit db'"
proof -
  obtain au r holders locked where adm: "administered db ctx i UPDATE au r holders locked"
    and db': "db' = (if rewritten r request = r then db
            else save_state (next_epoch (l_state locked)) (save_role (next_version (rewritten r request)) db))"
    using update_role_effect [OF assms(1,3)] by blast
  have "role_columns (rewritten r request)"
    using assms(2) wf_role_columns [OF assms(1) administered_row(1) [OF adm]]
    by (auto simp: update_storable_def role_columns_def rewritten_def split: option.splits)
  then show ?thesis
    using wf_columns_fit [OF assms(1)] unfolding db'
    by (auto simp: columns_fit_def save_role_def save_state_def set_update_where list_all_iff)
qed

interpretation user_status_op: audited_operation
  "\<lambda>(ctx, t, b). update_user_status_operation ctx t b" "\<lambda>_ _. True" "\<lambda>_. True"
  by unfold_locales (auto intro: update_user_status_business_only update_user_status_sound status_quiet update_user_status_payload
      sound_columns_fit [OF update_user_status_sound])

interpretation user_sessions_op: audited_operation
  "\<lambda>(ctx, t). revoke_user_sessions_operation ctx t" "\<lambda>_ _. True" "\<lambda>_. True"
  by unfold_locales (auto intro: revoke_user_sessions_business_only revoke_user_sessions_sound sessions_quiet revoke_user_sessions_payload
      sound_columns_fit [OF revoke_user_sessions_sound])

interpretation user_roles_op: audited_operation
  "\<lambda>(now, ctx, t, ids, oper). change_user_roles_operation now ctx t (set ids) oper" "\<lambda>_ _. True" "\<lambda>_. True"
  by unfold_locales (auto intro: change_user_roles_business_only change_user_roles_sound [OF _ finite_requested] roles_quiet
      change_user_roles_payload [OF _ finite_requested]
      sound_columns_fit [OF change_user_roles_sound [OF _ finite_requested]])

interpretation create_role_op: audited_operation
  "\<lambda>(i, ctx, request). create_role_operation i ctx request"
  "\<lambda>(i, ctx, request) db. i \<notin> r_id ` set (db_roles db)" "\<lambda>(i, ctx, request). creation_storable request"
  by unfold_locales (auto intro: create_role_business_only create_role_sound create_quiet create_role_payload create_role_fits)

interpretation update_role_op: audited_operation
  "\<lambda>(ctx, i, request, v). update_role_operation ctx i request v" "\<lambda>_ _. True" "\<lambda>(ctx, i, request, v). update_storable request"
  by unfold_locales (auto intro: update_role_business_only update_role_sound update_quiet update_role_payload update_role_fits)

interpretation role_active_op: audited_operation
  "\<lambda>(ctx, i, b, v). set_role_active_operation ctx i b v" "\<lambda>_ _. True" "\<lambda>_. True"
  by unfold_locales (auto intro: set_role_active_business_only set_role_active_sound active_quiet
      set_role_active_payload sound_columns_fit [OF set_role_active_sound])

interpretation delete_role_op: audited_operation
  "\<lambda>(now, ctx, i, v). soft_delete_role_operation now ctx i v" "\<lambda>_ _. True" "\<lambda>_. True"
  by unfold_locales (auto intro: soft_delete_role_business_only soft_delete_role_sound delete_quiet
      soft_delete_role_payload sound_columns_fit [OF soft_delete_role_sound])

interpretation permissions_op: audited_operation
  "\<lambda>(now, ctx, i, ids, oper, v). change_role_permissions_operation now ctx i (set ids) oper v" "\<lambda>_ _. True" "\<lambda>_. True"
  by unfold_locales (auto intro: change_role_permissions_business_only change_role_permissions_sound permissions_quiet
      change_role_permissions_payload sound_columns_fit [OF change_role_permissions_sound])

end
