(* ===== verification/System.thy ===== *)
theory System
  imports Audited
begin

text \<open>
  The role-based access control API as a transition system over databases: \<open>run_call\<close> is
  one call of a public method of \<open>RbacService\<close> by some caller, \<open>reachable\<close> what any
  sequence of calls leads to. Every call takes the lock of the \<open>rbac_state\<close> row first, so
  concurrent calls run one after the other and a sequence of calls is an execution.
\<close>

datatype rbac_call =
    Update_user_status uuid bool
  | Revoke_user_sessions uuid
  | Change_user_roles int uuid "uuid list" string
  | Create_role uuid role_create_request
  | Update_role uuid role_update_request int
  | Set_role_active uuid bool int
  | Soft_delete_role int uuid int
  | Change_role_permissions int uuid "uuid list" string int

fun run_call :: "unicode_db \<Rightarrow> authorization_context \<Rightarrow> rbac_call \<Rightarrow> database \<Rightarrow>
    failure option \<times> database" where
  "run_call uc ctx (Update_user_status t b) db = drop_value (update_user_status uc ctx t b db)"
| "run_call uc ctx (Revoke_user_sessions t) db = drop_value (revoke_user_sessions uc ctx t db)"
| "run_call uc ctx (Change_user_roles now t ids oper) db =
     drop_value (change_user_roles uc now ctx t ids oper db)"
| "run_call uc ctx (Create_role i request) db = drop_value (create_role uc i ctx request db)"
| "run_call uc ctx (Update_role i request v) db = drop_value (update_role uc ctx i request v db)"
| "run_call uc ctx (Set_role_active i b v) db = drop_value (set_role_active uc ctx i b v db)"
| "run_call uc ctx (Soft_delete_role now i v) db = drop_value (soft_delete_role uc now ctx i v db)"
| "run_call uc ctx (Change_role_permissions now i ids oper v) db =
     drop_value (change_role_permissions uc now ctx i ids oper v db)"

text \<open>\<open>uuid.uuid4()\<close> draws an identifier no role has.\<close>

fun fresh_id :: "rbac_call \<Rightarrow> database \<Rightarrow> bool" where
  "fresh_id (Create_role i request) db \<longleftrightarrow> i \<notin> r_id ` set (db_roles db)"
| "fresh_id _ db \<longleftrightarrow> True"

lemma require_role_operation_Inl:
  "require_role_operation operation = Inl e \<Longrightarrow> \<exists>msg. e = Value_error msg"
  by (auto simp: require_role_operation_def split: if_splits)

lemma call_outcome_unchanged:
  "wf db \<Longrightarrow> call_outcome ctx db (Some (Rbac r)) db"
  "wf db \<Longrightarrow> call_outcome ctx db (Some (Value_error msg)) db"
  by (simp_all add: call_outcome_def sound_step_refl)

text \<open>Whether the texts of a call fit the columns they are stored in.\<close>

fun storable_call :: "rbac_call \<Rightarrow> bool" where
  "storable_call (Create_role i request) \<longleftrightarrow> creation_storable request"
| "storable_call (Update_role i request v) \<longleftrightarrow> update_storable request"
| "storable_call _ \<longleftrightarrow> True"

text \<open>
  Every call keeps the contract of the audited operations, and the database refuses only a
  text that does not fit.
\<close>

lemma run_call_contract:
  assumes "wf db" "fresh_id c db" "run_call uc ctx c db = (res, db')"
  shows "call_outcome ctx db res db' \<and> (storable_call c \<longrightarrow> (\<forall>n. res \<noteq> Some (Integrity_error n)))"
proof (cases c)
  case (Update_user_status t b)
  with assms show ?thesis
    using user_status_op.run_outcome [OF assms(1), where q = "(ctx, t, b)"] by (simp add: update_user_status_def)
next
  case (Revoke_user_sessions t)
  with assms show ?thesis
    using user_sessions_op.run_outcome [OF assms(1), where q = "(ctx, t)"] by (simp add: revoke_user_sessions_def)
next
  case (Change_user_roles now t ids operation)
  show ?thesis
  proof (cases "require_role_operation operation")
    case (Inl e)
    then show ?thesis
      using assms Change_user_roles require_role_operation_Inl [OF Inl] sound_step_refl [OF assms(1)]
      by (auto simp: change_user_roles_def drop_value_def call_outcome_def)
  next
    case (Inr oper)
    then show ?thesis
      using assms Change_user_roles
        user_roles_op.run_outcome [OF assms(1), where q = "(now, ctx, t, ids, oper)"]
      by (auto simp: change_user_roles_def drop_value_def call_outcome_unchanged split: if_splits)
  qed
next
  case (Create_role i request)
  with assms show ?thesis
    using create_role_op.run_outcome [OF assms(1), where q = "(i, ctx, request)"] by (simp add: create_role_def)
next
  case (Update_role i request v)
  with assms show ?thesis
    using update_role_op.run_outcome [OF assms(1), where q = "(ctx, i, request, v)"] by (simp add: update_role_def)
next
  case (Set_role_active i b v)
  with assms show ?thesis
    using role_active_op.run_outcome [OF assms(1), where q = "(ctx, i, b, v)"] by (simp add: set_role_active_def)
next
  case (Soft_delete_role now i v)
  with assms show ?thesis
    using delete_role_op.run_outcome [OF assms(1), where q = "(now, ctx, i, v)"] by (simp add: soft_delete_role_def)
next
  case (Change_role_permissions now i ids operation v)
  show ?thesis
  proof (cases "require_role_operation operation")
    case (Inl e)
    then show ?thesis
      using assms Change_role_permissions require_role_operation_Inl [OF Inl] sound_step_refl [OF assms(1)]
      by (auto simp: change_role_permissions_def drop_value_def call_outcome_def)
  next
    case (Inr oper)
    then show ?thesis
      using assms Change_role_permissions
        permissions_op.run_outcome [OF assms(1), where q = "(now, ctx, i, ids, oper, v)"]
      by (auto simp: change_role_permissions_def drop_value_def call_outcome_unchanged split: if_splits)
  qed
qed

lemmas run_call_outcome = run_call_contract [THEN conjunct1]

lemma run_call_sound:
  "wf db \<Longrightarrow> fresh_id c db \<Longrightarrow> run_call uc ctx c db = (res, db') \<Longrightarrow> sound_step db db'"
  using run_call_outcome by (auto simp: call_outcome_def)

text \<open>A call that succeeds has stored its texts, so they fit.\<close>

lemma drop_value_None: "drop_value m = (None, db') \<Longrightarrow> \<exists>x. m = (Inr x, db')"
  by (cases m) (auto simp: drop_value_def split: sum.splits)

lemma rewritten_columns:
  "role_columns (rewritten r request) \<Longrightarrow> update_storable request"
  by (auto simp: update_storable_def role_columns_def rewritten_def)

lemma success_fits:
  assumes "wf db" "fresh_id c db" "run_call uc ctx c db = (None, db')"
  shows "storable_call c"
proof (cases c)
  case (Create_role i request)
  then obtain x where x: "create_role uc i ctx request db = (Inr x, db')"
    using assms(3) drop_value_None by fastforce
  have "i \<notin> r_id ` set (db_roles db)"
    using assms(2) Create_role by simp
  then obtain out db1 e where op: "create_role_operation i ctx request db = Inr (out, db1)"
    and db': "db' = add_rbac_event e db1" "sound_step db db'"
    using create_role_op.success [where q = "(i, ctx, request)", OF assms(1), unfolded prod.case]
      x [unfolded create_role_def] by blast
  have "new_role i request \<in> set (db_roles db')"
    using create_role_effect [OF assms(1) op] by (auto simp: db'(1) save_state_def add_rbac_event_def)
  then have "role_columns (new_role i request)"
    by (rule wf_role_columns [OF sound_step_wf [OF db'(2)]])
  then show ?thesis
    by (simp add: Create_role creation_storable_def role_columns_def new_role_def)
next
  case (Update_role i request v)
  then obtain x where x: "update_role uc ctx i request v db = (Inr x, db')"
    using assms(3) drop_value_None by fastforce
  then obtain out db1 e where op: "update_role_operation ctx i request v db = Inr (out, db1)"
    and db': "db' = add_rbac_event e db1" "sound_step db db'"
    using update_role_op.success [where q = "(ctx, i, request, v)", OF assms(1) TrueI, unfolded prod.case]
      x [unfolded update_role_def] by blast
  obtain au r holders locked where adm: "administered db ctx i UPDATE au r holders locked"
    and db1: "db1 = (if rewritten r request = r then db
            else save_state (next_epoch (l_state locked)) (save_role (next_version (rewritten r request)) db))"
    using update_role_effect [OF assms(1) op] by blast
  note r = administered_row(1) [OF adm]
  have "columns_fit db1"
    using sound_columns_fit [OF db'(2)] by (simp add: db'(1) columns_fit_def add_rbac_event_def)
  then have "role_columns (rewritten r request)"
    using wf_role_columns [OF assms(1) r] saved_role_columns [OF r, of "next_version (rewritten r request)"]
    unfolding db1 by (cases "rewritten r request = r") simp_all
  then show ?thesis
    by (simp add: Update_role rewritten_columns)
qed simp_all

subsection \<open>Sequences of calls\<close>

inductive reachable :: "unicode_db \<Rightarrow> database \<Rightarrow> database \<Rightarrow> bool" for uc and db0 where
  start: "reachable uc db0 db0"
| call: "reachable uc db0 db \<Longrightarrow> fresh_id c db \<Longrightarrow> reachable uc db0 (snd (run_call uc ctx c db))"

inductive_cases reachableE: "reachable uc db0 db"

lemma reachable_sound: "reachable uc db0 db \<Longrightarrow> wf db0 \<Longrightarrow> sound_step db0 db"
proof (induction rule: reachable.induct)
  case start
  then show ?case by (rule sound_step_refl)
next
  case (call db c ctx)
  then have step: "sound_step db0 db" by blast
  have "sound_step db (snd (run_call uc ctx c db))"
    using run_call_sound [OF sound_step_wf [OF step] call.hyps(2) surjective_pairing] .
  with step show ?case by (rule sound_step_trans)
qed

subsection \<open>Expected versions\<close>

fun expected_version :: "rbac_call \<Rightarrow> (uuid \<times> int) option" where
  "expected_version (Update_role i request v) = Some (i, v)"
| "expected_version (Set_role_active i b v) = Some (i, v)"
| "expected_version (Soft_delete_role now i v) = Some (i, v)"
| "expected_version (Change_role_permissions now i ids operation v) = Some (i, v)"
| "expected_version _ = None"

lemma version_checked:
  assumes "wf db" "run_call uc ctx c db = (None, db')" "expected_version c = Some (i, v)"
  shows "\<exists>r \<in> set (db_roles db). r_id r = i \<and> r_version r = v"
proof (cases c)
  case (Update_role i' request v')
  then obtain x where x: "update_role uc ctx i request v db = (Inr x, db')"
    using assms(2,3) drop_value_None by fastforce
  then obtain out db1 where "update_role_operation ctx i request v db = Inr (out, db1)"
    using update_role_op.success [where q = "(ctx, i, request, v)", OF assms(1) TrueI, unfolded prod.case] x [unfolded update_role_def]
    by blast
  from update_role_effect [OF assms(1) this] obtain au r holders locked oper
    where "administered db ctx i oper au r holders locked" "r_version r = v" by blast
  then show ?thesis
    using administered_row(1,2) by blast
next
  case (Set_role_active i' b v')
  then obtain x where x: "set_role_active uc ctx i b v db = (Inr x, db')"
    using assms(2,3) drop_value_None by fastforce
  then obtain out db1 where "set_role_active_operation ctx i b v db = Inr (out, db1)"
    using role_active_op.success [where q = "(ctx, i, b, v)", OF assms(1) TrueI, unfolded prod.case] x [unfolded set_role_active_def]
    by blast
  from set_role_active_effect [OF assms(1) this] obtain au r holders locked oper
    where "administered db ctx i oper au r holders locked" "r_version r = v" by blast
  then show ?thesis
    using administered_row(1,2) by blast
next
  case (Soft_delete_role now i' v')
  then obtain x where x: "soft_delete_role uc now ctx i v db = (Inr x, db')"
    using assms(2,3) drop_value_None by fastforce
  then obtain out db1 where "soft_delete_role_operation now ctx i v db = Inr (out, db1)"
    using delete_role_op.success [where q = "(now, ctx, i, v)", OF assms(1) TrueI, unfolded prod.case] x [unfolded soft_delete_role_def]
    by blast
  from soft_delete_role_effect [OF assms(1) this] obtain au r holders locked oper
    where "administered db ctx i oper au r holders locked" "r_version r = v" by blast
  then show ?thesis
    using administered_row(1,2) by blast
next
  case (Change_role_permissions now i' ids operation v')
  then obtain x where x: "change_role_permissions uc now ctx i ids operation v db = (Inr x, db')"
    using assms(2,3) drop_value_None by fastforce
  then obtain oper where "require_role_operation operation = Inr oper"
    by (cases "require_role_operation operation") (auto simp: change_role_permissions_def)
  with x have "run_audited uc ctx (''role.permissions.'' @ role_operation_value oper) None (Some i)
      (change_role_permissions_operation now ctx i (set ids) oper v) db = (Inr x, db')"
    by (simp add: change_role_permissions_def split: if_splits)
  then obtain out db1 where "change_role_permissions_operation now ctx i (set ids) oper v db = Inr (out, db1)"
    using permissions_op.success [where q = "(now, ctx, i, ids, oper, v)", OF assms(1) TrueI, unfolded prod.case]
    by blast
  from change_role_permissions_effect [OF assms(1) this] obtain au r holders locked keys
    where "permissions_changed db ctx i oper keys au r holders locked" "r_version r = v"
    unfolding Let_def by blast
  then show ?thesis
    using permissions_changed_row(1,2) by blast
qed (use assms in auto)

subsection \<open>Ended sessions\<close>

lemma evolves_user:
  assumes "evolves old new" "u \<in> set (db_users old)"
  shows "\<exists>u' \<in> set (db_users new). user_step u u'"
proof -
  obtain n where n: "n < length (db_users old)" "u = db_users old ! n"
    using assms(2) by (auto simp: in_set_conv_nth)
  have "user_step (db_users old ! n) (db_users new ! n)" "n < length (db_users new)"
    using assms(1) n(1) by (auto simp: evolves_def table_step_iff)
  then show ?thesis using n(2) by auto
qed

text \<open>Once the token version of a user has moved on, no context with an older one is current again.\<close>

lemma outdated_context:
  assumes "sound_step old new" "u \<in> set (db_users old)"
    "pr_user_id (c_principal ctx) = u_id u" "pr_token_version (c_principal ctx) < u_token_version u"
  shows "\<not> current_actor new ctx v"
proof
  assume cur: "current_actor new ctx v"
  obtain u' where u': "u' \<in> set (db_users new)" "user_step u u'"
    using assms(1) evolves_user [OF _ assms(2)] unfolding sound_step_def by blast
  then have "v = u'"
    using cur wf_same_user [OF sound_step_wf [OF assms(1)]] assms(3)
    by (auto simp: current_actor_def user_step_def)
  then show False
    using cur u'(2) assms(4) by (simp add: current_actor_def user_step_def)
qed

lemma revoked_row:
  assumes "wf db" "run_call uc ctx (Revoke_user_sessions t) db = (None, db')"
    and "u \<in> set (db_users db)" "u_id u = t"
  shows "\<exists>u' \<in> set (db_users db'). u_id u' = t \<and> u_token_version u' = u_token_version u + 1"
proof -
  obtain x where x: "revoke_user_sessions uc ctx t db = (Inr x, db')"
    using assms(2) drop_value_None by fastforce
  then obtain out db1 e where "revoke_user_sessions_operation ctx t db = Inr (out, db1)"
    and db': "db' = add_rbac_event e db1"
    using user_sessions_op.success [where q = "(ctx, t)", OF assms(1) TrueI, unfolded prod.case]
      x [unfolded revoke_user_sessions_def] by blast
  then obtain au row where row: "target_locked db ctx t USERS_SESSIONS_REVOKE au row"
    and db1: "db1 = save_user (row\<lparr>u_token_version := u_token_version row + 1\<rparr>) db"
    using revoke_user_sessions_effect [OF assms(1)] by blast
  have "row = u"
    using wf_same_user [OF assms(1) _ assms(3)] row assms(4) by (simp add: target_locked_def)
  then have "u\<lparr>u_token_version := u_token_version u + 1\<rparr> \<in> set (db_users db')"
    using assms(3) by (auto simp: db' db1 save_user_def add_rbac_event_def set_update_where)
  then show ?thesis
    using assms(4) by (intro bexI [of _ "u\<lparr>u_token_version := u_token_version u + 1\<rparr>"]) simp_all
qed

end
