(* ===== verification/Escalation.thy ===== *)
theory Escalation
  imports System
begin

text \<open>
  No call escalates privileges. After any call, every active role a user holds was already
  held with at least those permissions, or it lies strictly below the actor in tier and
  within the actor's permissions, and the user is not the actor.
\<close>

subsection \<open>Containment\<close>

definition contained :: "authority_snapshot \<Rightarrow> database \<Rightarrow> database \<Rightarrow> bool" where
  "contained actor db db' \<longleftrightarrow>
     (\<forall>uid. \<forall>r' \<in> set (roles_of db' r_is_active uid).
       (\<exists>r \<in> set (roles_of db r_is_active uid). r_id r = r_id r' \<and>
          r_management_tier r = r_management_tier r' \<and>
          permission_key_set db' (r_id r') \<subseteq> permission_key_set db (r_id r)) \<or>
       (uid \<noteq> a_user_id actor \<and> r_management_tier r' < a_management_tier actor \<and>
        permission_key_set db' (r_id r') \<subseteq> a_permissions actor))"

definition same_access :: "database \<Rightarrow> database \<Rightarrow> bool" where
  "same_access db db' \<longleftrightarrow>
     db_roles db' = db_roles db \<and> db_user_roles db' = db_user_roles db \<and>
     db_role_permissions db' = db_role_permissions db \<and> db_permissions db' = db_permissions db"

lemma same_access_simps [simp]:
  "same_access db db" "same_access db (save_state s db)" "same_access db (save_user u db)"
  "same_access db (add_rbac_event e db)"
  by (simp_all add: same_access_def save_state_def save_user_def add_rbac_event_def)

lemma same_access_trans: "same_access a b \<Longrightarrow> same_access b c \<Longrightarrow> same_access a c"
  by (simp add: same_access_def)

lemma roles_of_iff:
  "r \<in> set (roles_of db keep uid) \<longleftrightarrow>
     r \<in> set (db_roles db) \<and> live_role r \<and> keep r \<and> assigned db uid r"
  by (auto simp: roles_of_def)

lemma assigned_iff:
  "assigned db uid r \<longleftrightarrow>
     (\<exists>ur \<in> set (db_user_roles db). ur_user_id ur = uid \<and> live_ur ur \<and> ur_role_id ur = r_id r)"
  by (auto simp: assigned_def live_assignments_def image_iff)

lemma same_access_frame:
  assumes "same_access db db'"
  shows "roles_of db' keep uid = roles_of db keep uid"
    and "permission_key_set db' i = permission_key_set db i"
  using assms by (simp_all add: same_access_def roles_of_def assigned_def live_assignments_def
      permission_key_set_def grants_of_def permission_of_def)

lemma contained_same_access: "same_access db db' \<Longrightarrow> contained actor db db'"
  by (auto simp: contained_def same_access_frame)

lemma contained_refl [simp]: "contained actor db db"
  by (simp add: contained_same_access)

lemma contained_frame:
  "contained actor db db1 \<Longrightarrow> same_access db1 db' \<Longrightarrow> contained actor db db'"
  by (simp add: contained_def same_access_frame)

lemma containedI:
  assumes "\<And>uid r'. r' \<in> set (db_roles db') \<Longrightarrow> live_role r' \<Longrightarrow> r_is_active r' \<Longrightarrow> assigned db' uid r' \<Longrightarrow>
      (\<exists>r \<in> set (db_roles db). live_role r \<and> r_is_active r \<and> assigned db uid r \<and> r_id r = r_id r' \<and>
          r_management_tier r = r_management_tier r' \<and>
          permission_key_set db' (r_id r') \<subseteq> permission_key_set db (r_id r)) \<or>
       (uid \<noteq> a_user_id actor \<and> r_management_tier r' < a_management_tier actor \<and>
        permission_key_set db' (r_id r') \<subseteq> a_permissions actor)"
  shows "contained actor db db'"
  unfolding contained_def
proof (intro allI ballI)
  fix uid r' assume "r' \<in> set (roles_of db' r_is_active uid)"
  then have "r' \<in> set (db_roles db')" "live_role r'" "r_is_active r'" "assigned db' uid r'"
    by (simp_all add: roles_of_iff)
  note new = assms [OF this]
  show "(\<exists>r \<in> set (roles_of db r_is_active uid). r_id r = r_id r' \<and>
          r_management_tier r = r_management_tier r' \<and>
          permission_key_set db' (r_id r') \<subseteq> permission_key_set db (r_id r)) \<or>
       (uid \<noteq> a_user_id actor \<and> r_management_tier r' < a_management_tier actor \<and>
        permission_key_set db' (r_id r') \<subseteq> a_permissions actor)"
  proof (rule disjE [OF new])
    assume "\<exists>r \<in> set (db_roles db). live_role r \<and> r_is_active r \<and> assigned db uid r \<and> r_id r = r_id r' \<and>
          r_management_tier r = r_management_tier r' \<and>
          permission_key_set db' (r_id r') \<subseteq> permission_key_set db (r_id r)"
    then obtain r where r: "r \<in> set (db_roles db)" "live_role r" "r_is_active r" "assigned db uid r"
      "r_id r = r_id r'" "r_management_tier r = r_management_tier r'"
      "permission_key_set db' (r_id r') \<subseteq> permission_key_set db (r_id r)" by blast
    then have "r \<in> set (roles_of db r_is_active uid)"
      by (simp add: roles_of_iff)
    then show ?thesis using r(5-7) by blast
  qed (rule disjI2)
qed

text \<open>What containment means for the authority of a user.\<close>

lemma contained_authority:
  assumes "contained actor db db'" "u_id u' = u_id u"
  shows "a_permissions (authority_spec db' False u') \<subseteq> a_permissions (authority_spec db False u) \<union>
      (if u_id u = a_user_id actor then {} else a_permissions actor)"
    and "t < a_management_tier (authority_spec db' False u') \<Longrightarrow> 0 \<le> t \<Longrightarrow>
      t < a_management_tier (authority_spec db False u) \<or>
      (u_id u \<noteq> a_user_id actor \<and> t + 1 < a_management_tier actor)"
proof -
  note c = assms(1) [unfolded contained_def, rule_format, of _ "u_id u"]
  show "a_permissions (authority_spec db' False u') \<subseteq> a_permissions (authority_spec db False u) \<union>
      (if u_id u = a_user_id actor then {} else a_permissions actor)"
  proof
    fix k assume "k \<in> a_permissions (authority_spec db' False u')"
    then obtain r' where r': "r' \<in> set (roles_of db' r_is_active (u_id u))" "k \<in> permission_key_set db' (r_id r')"
      using assms(2) by (auto simp: authority_spec_active)
    from c [OF r'(1)] r'(2) show "k \<in> a_permissions (authority_spec db False u) \<union>
      (if u_id u = a_user_id actor then {} else a_permissions actor)"
      by (auto simp: authority_spec_active)
  qed
  assume t: "t < a_management_tier (authority_spec db' False u')" "0 \<le> t"
  let ?rs' = "roles_of db' r_is_active (u_id u)" and ?rs = "roles_of db r_is_active (u_id u)"
  have t': "t < max_default 0 (map r_management_tier ?rs')"
    using t(1) assms(2) by (simp add: authority_spec_active authority_with_tier)
  then have "?rs' \<noteq> []"
    using t(2) by auto
  then have "max_default 0 (map r_management_tier ?rs') \<in> set (map r_management_tier ?rs')"
    by (intro max_default_in) simp
  then obtain r' where r': "r' \<in> set ?rs'" "t < r_management_tier r'"
    using t' by auto
  from c [OF r'(1)] show "t < a_management_tier (authority_spec db False u) \<or>
      (u_id u \<noteq> a_user_id actor \<and> t + 1 < a_management_tier actor)"
  proof (elim disjE)
    assume "\<exists>r \<in> set ?rs. r_id r = r_id r' \<and> r_management_tier r = r_management_tier r' \<and>
      permission_key_set db' (r_id r') \<subseteq> permission_key_set db (r_id r)"
    then obtain r where "r \<in> set ?rs" "r_management_tier r = r_management_tier r'" by blast
    then have "r_management_tier r' \<in> set (map r_management_tier ?rs)"
      by (simp add: image_iff) metis
    then have "r_management_tier r' \<le> max_default 0 (map r_management_tier ?rs)"
      by (rule max_default_upper)
    with r'(2) show ?thesis
      by (simp add: authority_spec_active authority_with_tier)
  next
    assume "u_id u \<noteq> a_user_id actor \<and> r_management_tier r' < a_management_tier actor \<and>
      permission_key_set db' (r_id r') \<subseteq> a_permissions actor"
    with r'(2) show ?thesis by simp
  qed
qed

subsection \<open>Each operation is contained\<close>

lemma grantable_within:
  "grantable oper actor (role_grant_of db r) \<Longrightarrow>
     r_management_tier r < a_management_tier actor \<and> permission_key_set db (r_id r) \<subseteq> a_permissions actor"
  by (simp add: grantable_def role_is_within_actor_authority_def)

lemma manageable_within:
  "custom_role_manageable actor (role_grant_of db r) \<Longrightarrow>
     r_management_tier r < a_management_tier actor \<and> permission_key_set db (r_id r) \<subseteq> a_permissions actor"
  by (simp add: custom_role_manageable_def role_is_within_actor_authority_def)

lemma contained_roles_unchanged:
  assumes "wf db" "db_roles db' = db_roles db" "db_role_permissions db' = db_role_permissions db"
    "db_permissions db' = db_permissions db"
    and "\<And>uid r. r \<in> set (db_roles db) \<Longrightarrow> assigned db' uid r \<Longrightarrow> assigned db uid r \<or>
      (uid \<noteq> a_user_id actor \<and> r_management_tier r < a_management_tier actor \<and>
       permission_key_set db (r_id r) \<subseteq> a_permissions actor)"
  shows "contained actor db db'"
proof (rule containedI)
  have keys: "permission_key_set db' i = permission_key_set db i" for i
    using assms(3,4) by (simp add: permission_key_set_def grants_of_def permission_of_def)
  fix uid r'
  assume "r' \<in> set (db_roles db')" "live_role r'" "r_is_active r'" "assigned db' uid r'"
  then show "(\<exists>r \<in> set (db_roles db). live_role r \<and> r_is_active r \<and> assigned db uid r \<and> r_id r = r_id r' \<and>
          r_management_tier r = r_management_tier r' \<and>
          permission_key_set db' (r_id r') \<subseteq> permission_key_set db (r_id r)) \<or>
       (uid \<noteq> a_user_id actor \<and> r_management_tier r' < a_management_tier actor \<and>
        permission_key_set db' (r_id r') \<subseteq> a_permissions actor)"
    using assms(2) assms(5) [of r' uid] unfolding keys by auto
qed

lemma delete_assignments_assigned:
  "assigned (db\<lparr>db_user_roles := delete_assignments p now a (db_user_roles db)\<rparr>) uid r \<Longrightarrow> assigned db uid r"
  by (auto simp: assigned_iff delete_assignments_def set_update_where)

lemma change_user_roles_contained:
  assumes "wf db" "finite requested"
    and "change_user_roles_operation now ctx t requested oper db = Inr (out, db')"
  shows "\<exists>au. current_actor db ctx au \<and> contained (authority_spec db False au) db db'"
proof -
  let ?ids = "changed_role_ids oper requested (existing_role_ids db t requested)"
  obtain au row state roles where
    locked: "target_locked db ctx t (role_change_permission oper) au row"
    and requested: "requested = r_id ` set roles" "set roles \<subseteq> set (db_roles db)"
    and dominated: "dominates (authority_spec db False au) (authority_spec db True row)"
    and allowed: "\<And>r. r \<in> set roles \<Longrightarrow> grantable oper (authority_spec db False au) (role_grant_of db r)"
    and db': "db' = (if ?ids = {} then db
            else save_state (next_epoch state)
              (save_user (row\<lparr>u_authz_version := u_authz_version row + 1\<rparr>)
                (db\<lparr>db_user_roles := changed_assignments db now oper t ?ids (u_id au)\<rparr>)))"
    using change_user_roles_effect [OF assms] unfolding Let_def decide_role_change_allowed
    by (elim exE conjE) (metis (no_types, lifting) image_eqI list.set_map subsetI)
  let ?actor = "authority_spec db False au"
  let ?db1 = "db\<lparr>db_user_roles := changed_assignments db now oper t ?ids (u_id au)\<rparr>"
  have other: "t \<noteq> a_user_id ?actor"
    using dominated locked by (auto simp: dominates_def target_locked_def)
  obtain ids where ids: "ids = ?ids" by simp
  have fin: "finite ids"
    using assms(2) by (simp add: ids changed_role_ids_def)
  have "contained ?actor db ?db1"
  proof (rule contained_roles_unchanged [OF assms(1)])
    fix uid r assume r: "r \<in> set (db_roles db)" and assigned: "assigned ?db1 uid r"
    show "assigned db uid r \<or> (uid \<noteq> a_user_id ?actor \<and> r_management_tier r < a_management_tier ?actor \<and>
       permission_key_set db (r_id r) \<subseteq> a_permissions ?actor)"
    proof (cases oper)
      case UNBIND
      with assigned show ?thesis
        by (auto simp: changed_assignments_def dest: delete_assignments_assigned)
    next
      case BIND
      then have "assigned db uid r \<or> (uid = t \<and> r_id r \<in> ids)"
        using assigned unfolding ids [symmetric]
        by (auto simp: assigned_iff changed_assignments_def new_assignment_row [OF fin])
      moreover have ?thesis if bound: "uid = t" "r_id r \<in> ids"
      proof -
        obtain q where "q \<in> set roles" "r_id q = r_id r"
          using bound(2) requested(1) BIND by (auto simp: ids changed_role_ids_def)
        then have "r \<in> set roles"
          using wf_same_role [OF assms(1) r] requested(2) by (metis subsetD)
        then show ?thesis
          using bound(1) other grantable_within [OF allowed] by blast
      qed
      ultimately show ?thesis by blast
    qed
  qed simp_all
  moreover have "same_access ?db1 (save_state (next_epoch state)
      (save_user (row\<lparr>u_authz_version := u_authz_version row + 1\<rparr>) ?db1))"
    by (simp add: same_access_def save_state_def save_user_def)
  ultimately have "contained ?actor db db'"
    unfolding db' by (simp add: contained_frame)
  then show ?thesis
    using locked by (auto simp: target_locked_def)
qed

lemma create_role_contained:
  assumes "wf db" "role_id \<notin> r_id ` set (db_roles db)"
    and "create_role_operation role_id ctx request db = Inr (out, db')"
  shows "\<exists>au. current_actor db ctx au \<and> contained (authority_spec db False au) db db'"
proof -
  obtain au state where au: "current_actor db ctx au"
    and db': "db' = save_state (next_epoch state) (db\<lparr>db_roles := db_roles db @ [new_role role_id request]\<rparr>)"
    using create_role_effect [OF assms(1,3)] by blast
  let ?db1 = "db\<lparr>db_roles := db_roles db @ [new_role role_id request]\<rparr>"
  have "contained (authority_spec db False au) db ?db1"
  proof (rule containedI)
    fix uid r' assume r': "r' \<in> set (db_roles ?db1)" "live_role r'" "r_is_active r'" "assigned ?db1 uid r'"
    obtain ur where ur: "ur \<in> set (db_user_roles db)" "ur_role_id ur = r_id r'"
      using r'(4) by (auto simp: assigned_iff)
    have "r_id r' \<in> r_id ` set (db_roles db)"
      using user_id_of_wf [OF assms(1) ur(1)] unfolding ur(2) by blast
    then have "r' \<in> set (db_roles db)"
      using r'(1) assms(2) by (auto simp: new_role_def)
    moreover have "permission_key_set ?db1 i = permission_key_set db i" for i
      by (simp add: permission_key_set_def grants_of_def permission_of_def)
    ultimately show "(\<exists>r \<in> set (db_roles db). live_role r \<and> r_is_active r \<and> assigned db uid r \<and> r_id r = r_id r' \<and>
          r_management_tier r = r_management_tier r' \<and>
          permission_key_set ?db1 (r_id r') \<subseteq> permission_key_set db (r_id r)) \<or>
       (uid \<noteq> a_user_id (authority_spec db False au) \<and> r_management_tier r' < a_management_tier (authority_spec db False au) \<and>
        permission_key_set ?db1 (r_id r') \<subseteq> a_permissions (authority_spec db False au))"
      using r' by (auto simp: assigned_iff)
  qed
  then have "contained (authority_spec db False au) db db'"
    unfolding db' by (rule contained_frame) simp
  with au show ?thesis by blast
qed

text \<open>A saved role is the only role that differs.\<close>

lemma contained_save_role:
  assumes "wf db" "r \<in> set (db_roles db)" "r_id q = r_id r" "r_management_tier q = r_management_tier r"
    and grants: "\<And>i. i \<noteq> r_id r \<Longrightarrow> permission_key_set db' i \<subseteq> permission_key_set db i"
    and roles: "db_roles db' = update_where (\<lambda>x. r_id x = r_id q) (\<lambda>_. q) (db_roles db)"
    and assigned: "\<And>uid r. assigned db' uid r \<Longrightarrow> assigned db uid r"
    and saved: "\<And>uid. live_role q \<Longrightarrow> r_is_active q \<Longrightarrow> assigned db uid r \<Longrightarrow>
      (live_role r \<and> r_is_active r \<and> permission_key_set db' (r_id r) \<subseteq> permission_key_set db (r_id r)) \<or>
      (uid \<noteq> a_user_id actor \<and> r_management_tier r < a_management_tier actor \<and>
       permission_key_set db' (r_id r) \<subseteq> a_permissions actor)"
  shows "contained actor db db'"
proof (rule containedI)
  fix uid r' assume r': "r' \<in> set (db_roles db')" "live_role r'" "r_is_active r'" "assigned db' uid r'"
  have was: "assigned db uid r'" by (rule assigned [OF r'(4)])
  consider "r' = q" | "r' \<in> set (db_roles db)" "r_id r' \<noteq> r_id r"
    using r'(1) assms(3) by (auto simp: roles set_update_where)
  then show "(\<exists>r \<in> set (db_roles db). live_role r \<and> r_is_active r \<and> assigned db uid r \<and> r_id r = r_id r' \<and>
          r_management_tier r = r_management_tier r' \<and>
          permission_key_set db' (r_id r') \<subseteq> permission_key_set db (r_id r)) \<or>
       (uid \<noteq> a_user_id actor \<and> r_management_tier r' < a_management_tier actor \<and>
        permission_key_set db' (r_id r') \<subseteq> a_permissions actor)"
  proof cases
    case 1
    have "assigned db uid r"
      using was 1 assms(3) by (simp add: assigned_iff)
    with saved [of uid] r'(2,3) 1 show ?thesis
      using assms(2-4) by auto
  next
    case 2
    then show ?thesis
      using r'(2,3) was grants [OF 2(2)] by auto
  qed
qed

lemma holders_not_actor:
  assumes "wf db" "current_actor db ctx au" "u_id au \<notin> holder_ids db role_id"
    and "assigned db uid r" "r_id r = role_id"
  shows "uid \<noteq> u_id au"
  using assms holder_ids_assigned [OF assms(1), of au r] by (auto simp: current_actor_def)

lemma save_bump_roles:
  "db_roles (save_role q db) = update_where (\<lambda>x. r_id x = r_id q) (\<lambda>_. q) (db_roles db)"
  "db_roles (save_state s db) = db_roles db"
  "db_roles (bump_shared_authority locked q db) = update_where (\<lambda>x. r_id x = r_id q) (\<lambda>_. next_version q) (db_roles db)"
  "db_user_roles (save_role q db) = db_user_roles db" "db_user_roles (save_state s db) = db_user_roles db"
  "db_user_roles (bump_shared_authority locked q db) = db_user_roles db"
  "permission_key_set (save_role q db) i = permission_key_set db i"
  "permission_key_set (save_state s db) i = permission_key_set db i"
  "permission_key_set (bump_shared_authority locked q db) i = permission_key_set db i"
  by (simp_all add: save_role_def save_state_def bump_shared_authority_def permission_key_set_def
      grants_of_def permission_of_def)

lemma next_version_access [simp]:
  "r_management_tier (next_version r) = r_management_tier r" "r_is_active (next_version r) = r_is_active r"
  by (simp_all add: next_version_def)

lemma update_role_contained:
  assumes "wf db" "update_role_operation ctx role_id request v db = Inr (out, db')"
  shows "\<exists>au. current_actor db ctx au \<and> contained (authority_spec db False au) db db'"
proof -
  obtain au r holders locked where adm: "administered db ctx role_id UPDATE au r holders locked"
    and db': "db' = (if rewritten r request = r then db
            else save_state (next_epoch (l_state locked)) (save_role (next_version (rewritten r request)) db))"
    using update_role_effect [OF assms] by blast
  note r = administered_row [OF adm]
  have "contained (authority_spec db False au) db
      (save_state (next_epoch (l_state locked)) (save_role (next_version (rewritten r request)) db))"
    by (rule contained_save_role [OF assms(1) r(1), where q = "next_version (rewritten r request)"])
       (auto simp: save_bump_roles assigned_iff rewritten_def r(4))
  then have "contained (authority_spec db False au) db db'"
    unfolding db' by (auto intro: contained_same_access)
  with adm show ?thesis
    by (auto simp: administered_def role_locked_def)
qed

lemma set_role_active_contained:
  assumes "wf db" "set_role_active_operation ctx role_id b v db = Inr (out, db')"
  shows "\<exists>au. current_actor db ctx au \<and> contained (authority_spec db False au) db db'"
proof -
  obtain au r holders locked oper where adm: "administered db ctx role_id oper au r holders locked"
    and db': "db' = (if r_is_active r = b then db else bump_shared_authority locked (r\<lparr>r_is_active := b\<rparr>) db)"
    using set_role_active_effect [OF assms] by blast
  note r = administered_row [OF adm]
  have au: "current_actor db ctx au" "u_id au \<notin> holder_ids db role_id"
    and manageable: "custom_role_manageable (authority_spec db False au) (role_grant_of db r)"
    using adm by (simp_all add: administered_def role_locked_def)
  have "contained (authority_spec db False au) db (bump_shared_authority locked (r\<lparr>r_is_active := b\<rparr>) db)"
    using manageable_within [OF manageable] holders_not_actor [OF assms(1) au _ r(2)]
    by (intro contained_save_role [OF assms(1) r(1), where q = "next_version (r\<lparr>r_is_active := b\<rparr>)"])
       (auto simp: save_bump_roles assigned_iff)
  then have "contained (authority_spec db False au) db db'"
    unfolding db' by simp
  with au(1) show ?thesis by blast
qed

lemma permission_key_set_mono:
  assumes "\<And>rp. rp \<in> set (db_role_permissions db') \<Longrightarrow> live_rp rp \<Longrightarrow> rp_role_id rp = i \<Longrightarrow>
      rp \<in> set (db_role_permissions db)"
    and "db_permissions db' = db_permissions db"
  shows "permission_key_set db' i \<subseteq> permission_key_set db i"
  unfolding permission_key_set_iff subset_iff assms(2) using assms(1) by blast

lemma without_rows_keys:
  "permission_key_set (without_rows_of_role role_id now a db) i \<subseteq> permission_key_set db i"
  by (rule permission_key_set_mono)
     (auto simp: without_rows_of_role_def delete_role_permissions_def set_update_where)

lemma without_rows_assigned:
  "assigned (without_rows_of_role role_id now a db) uid r \<Longrightarrow> assigned db uid r"
  by (auto simp: assigned_iff without_rows_of_role_def delete_assignments_def set_update_where)

lemma soft_delete_role_contained:
  assumes "wf db" "soft_delete_role_operation now ctx role_id v db = Inr (out, db')"
  shows "\<exists>au. current_actor db ctx au \<and> contained (authority_spec db False au) db db'"
proof -
  obtain au r holders locked where adm: "administered db ctx role_id DELETE au r holders locked"
    and db': "db' = bump_shared_authority locked (deleted_role r now (u_id au))
             (without_rows_of_role role_id now (u_id au) db)"
    using soft_delete_role_effect [OF assms] by blast
  note r = administered_row [OF adm]
  have "contained (authority_spec db False au) db db'"
  proof (rule contained_save_role [OF assms(1) r(1), where q = "next_version (deleted_role r now (u_id au))"])
    show "assigned db uid r" if "assigned db' uid r" for uid r
      using that without_rows_assigned [of role_id now "u_id au" db uid r]
      by (simp add: db' assigned_iff save_bump_roles)
    show "permission_key_set db' i \<subseteq> permission_key_set db i" for i
      using without_rows_keys by (simp add: db' save_bump_roles)
  qed (simp_all add: db' save_bump_roles deleted_role_def without_rows_of_role_def)
  with adm show ?thesis
    by (auto simp: administered_def role_locked_def)
qed

lemma changed_grants_keys:
  assumes "wf db" "r \<in> set (db_roles db)" "fst ` set (load_permission_keys db requested) = requested"
  shows "permission_key_set (db\<lparr>db_role_permissions := changed_grants db now oper (r_id r) a requested
        (load_permission_keys db requested) (permission_key_set db (r_id r))\<rparr>) i
      = (if i = r_id r then permission_keys_after oper (permission_key_set db i)
             (snd ` set (load_permission_keys db requested))
         else permission_key_set db i)" (is "permission_key_set ?new i = _")
proof (cases "i = r_id r")
  case True
  let ?K = "load_permission_keys db requested"
  have K: "k \<in> snd ` set ?K \<longleftrightarrow>
      (\<exists>p \<in> set (db_permissions db). p_id p \<in> requested \<and> live_permission p \<and> p_key p = k)" for k
    by (force simp: load_permission_keys_spec [OF assms(1)])
  have same: "p = q" if "p \<in> set (db_permissions db)" "q \<in> set (db_permissions db)" "p_key p = p_key q" for p q
    using that wf_keys_ok [OF assms(1)] by (auto simp: keys_ok_def distinct_map dest: inj_onD)
  show ?thesis
  proof (cases oper)
    case BIND
    have rows: "rp \<in> set (new_grants i a (map fst (filter (\<lambda>item. snd item \<notin> permission_key_set db i) ?K))) \<longleftrightarrow>
      (\<exists>p \<in> set (db_permissions db). p_id p \<in> requested \<and> live_permission p \<and>
         p_key p \<notin> permission_key_set db i \<and> rp = \<lparr>rp_role_id = i, rp_permission_id = p_id p,
           rp_assigned_by_user_id = Some a, rp_deleted_at = None, rp_deleted_by_user_id = None\<rparr>)" for rp
      by (force simp: new_grants_def load_permission_keys_spec [OF assms(1)])
    have ids: "p = q" if "p \<in> set (db_permissions db)" "q \<in> set (db_permissions db)" "p_id p = p_id q" for p q
      using that wf_keys_ok [OF assms(1)] by (auto simp: keys_ok_def distinct_map dest: inj_onD)
    let ?N = "new_grants i a (map fst (filter (\<lambda>item. snd item \<notin> permission_key_set db i) ?K))"
    have new: "db_role_permissions ?new = db_role_permissions db @ ?N"
      using True by (simp add: changed_grants_def BIND)
    have "k \<in> permission_key_set ?new i \<longleftrightarrow> k \<in> permission_key_set db i \<or>
        (\<exists>p \<in> set (db_permissions db). p_id p \<in> requested \<and> live_permission p \<and>
           p_key p \<notin> permission_key_set db i \<and> p_key p = k)" (is "_ \<longleftrightarrow> _ \<or> ?added k") for k
    proof -
      have "k \<in> permission_key_set ?new i \<longleftrightarrow> k \<in> permission_key_set db i \<or>
        (\<exists>rp \<in> set ?N. rp_role_id rp = i \<and> live_rp rp \<and>
           (\<exists>p \<in> set (db_permissions db). p_id p = rp_permission_id rp \<and> live_permission p \<and> p_key p = k))"
        unfolding permission_key_set_iff [of k ?new] permission_key_set_iff [of k db] new set_append bex_Un
        by simp
      also have "(\<exists>rp \<in> set ?N. rp_role_id rp = i \<and> live_rp rp \<and>
           (\<exists>p \<in> set (db_permissions db). p_id p = rp_permission_id rp \<and> live_permission p \<and> p_key p = k))
        \<longleftrightarrow> ?added k"
      proof
        assume "?added k"
        then obtain p where p: "p \<in> set (db_permissions db)" "p_id p \<in> requested" "live_permission p"
          "p_key p \<notin> permission_key_set db i" "p_key p = k" by blast
        let ?rp = "\<lparr>rp_role_id = i, rp_permission_id = p_id p, rp_assigned_by_user_id = Some a,
          rp_deleted_at = None, rp_deleted_by_user_id = None\<rparr>"
        have "?rp \<in> set ?N" unfolding rows using p by blast
        then show "\<exists>rp \<in> set ?N. rp_role_id rp = i \<and> live_rp rp \<and>
           (\<exists>p \<in> set (db_permissions db). p_id p = rp_permission_id rp \<and> live_permission p \<and> p_key p = k)"
          by (rule bexI [rotated]) (use p in auto)
      next
        assume "\<exists>rp \<in> set ?N. rp_role_id rp = i \<and> live_rp rp \<and>
           (\<exists>p \<in> set (db_permissions db). p_id p = rp_permission_id rp \<and> live_permission p \<and> p_key p = k)"
        then obtain rp q where rp: "rp \<in> set ?N" and q: "q \<in> set (db_permissions db)"
          "p_id q = rp_permission_id rp" "live_permission q" "p_key q = k" by blast
        from rp obtain p where p: "p \<in> set (db_permissions db)" "p_id p \<in> requested" "live_permission p"
          "p_key p \<notin> permission_key_set db i" "rp_permission_id rp = p_id p"
          unfolding rows by auto
        have "q = p" using ids [OF q(1) p(1)] q(2) p(5) by simp
        with p q(4) show "?added k" by blast
      qed
      finally show ?thesis .
    qed
    then have "k \<in> permission_key_set ?new i \<longleftrightarrow> k \<in> permission_key_set db i \<union> snd ` set ?K" for k
      unfolding Un_iff K by blast
    then have "permission_key_set ?new i = permission_key_set db i \<union> snd ` set ?K"
      by (rule set_eqI)
    then show ?thesis
      using True BIND by (simp add: permission_keys_after_def)
  next
    case UNBIND
    have rows: "rp \<in> set (db_role_permissions ?new) \<and> live_rp rp \<longleftrightarrow>
       rp \<in> set (db_role_permissions db) \<and> live_rp rp \<and>
       \<not> (rp_role_id rp = r_id r \<and> rp_permission_id rp \<in> requested)" for rp
      by (auto simp: changed_grants_def UNBIND delete_role_permissions_def set_update_where)
    have "k \<in> permission_key_set ?new i \<longleftrightarrow> k \<in> permission_key_set db i - snd ` set ?K" for k
    proof -
      have "k \<in> permission_key_set ?new i \<longleftrightarrow>
        (\<exists>rp \<in> set (db_role_permissions db). rp_role_id rp = i \<and> live_rp rp \<and> rp_permission_id rp \<notin> requested \<and>
          (\<exists>p \<in> set (db_permissions db). p_id p = rp_permission_id rp \<and> live_permission p \<and> p_key p = k))"
        unfolding permission_key_set_iff using rows True by auto
      also have "\<dots> \<longleftrightarrow> k \<in> permission_key_set db i - snd ` set ?K"
        unfolding Diff_iff K permission_key_set_iff
      proof (intro iffI conjI notI)
        assume "\<exists>rp \<in> set (db_role_permissions db). rp_role_id rp = i \<and> live_rp rp \<and> rp_permission_id rp \<notin> requested \<and>
          (\<exists>p \<in> set (db_permissions db). p_id p = rp_permission_id rp \<and> live_permission p \<and> p_key p = k)"
        then obtain rp p where rp: "rp \<in> set (db_role_permissions db)" "rp_role_id rp = i" "live_rp rp"
          "rp_permission_id rp \<notin> requested"
          and p: "p \<in> set (db_permissions db)" "p_id p = rp_permission_id rp" "live_permission p" "p_key p = k" by blast
        then show "\<exists>rp \<in> set (db_role_permissions db). rp_role_id rp = i \<and> live_rp rp \<and>
          (\<exists>p \<in> set (db_permissions db). p_id p = rp_permission_id rp \<and> live_permission p \<and> p_key p = k)" by blast
        assume "\<exists>p \<in> set (db_permissions db). p_id p \<in> requested \<and> live_permission p \<and> p_key p = k"
        then obtain q where q: "q \<in> set (db_permissions db)" "p_id q \<in> requested" "p_key q = k" by blast
        have "q = p" using same [OF q(1) p(1)] q(3) p(4) by simp
        with q(2) p(2) rp(4) show False by simp
      next
        assume "(\<exists>rp \<in> set (db_role_permissions db). rp_role_id rp = i \<and> live_rp rp \<and>
          (\<exists>p \<in> set (db_permissions db). p_id p = rp_permission_id rp \<and> live_permission p \<and> p_key p = k)) \<and>
          \<not> (\<exists>p \<in> set (db_permissions db). p_id p \<in> requested \<and> live_permission p \<and> p_key p = k)"
        then obtain rp p where rp: "rp \<in> set (db_role_permissions db)" "rp_role_id rp = i" "live_rp rp"
          and p: "p \<in> set (db_permissions db)" "p_id p = rp_permission_id rp" "live_permission p" "p_key p = k"
          and "p_id p \<notin> requested" by blast
        then show "\<exists>rp \<in> set (db_role_permissions db). rp_role_id rp = i \<and> live_rp rp \<and> rp_permission_id rp \<notin> requested \<and>
          (\<exists>p \<in> set (db_permissions db). p_id p = rp_permission_id rp \<and> live_permission p \<and> p_key p = k)"
          by (metis (no_types, lifting))
      qed
      finally show ?thesis .
    qed
    then have "permission_key_set ?new i = permission_key_set db i - snd ` set ?K"
      by (rule set_eqI)
    then show ?thesis
      using True UNBIND by (simp add: permission_keys_after_def)
  qed
next
  case False
  then have "filter (\<lambda>rp. rp_role_id rp = i \<and> live_rp rp) (db_role_permissions ?new)
    = filter (\<lambda>rp. rp_role_id rp = i \<and> live_rp rp) (db_role_permissions db)"
    by (cases oper)
       (auto simp: changed_grants_def delete_role_permissions_def filter_empty_conv new_grants_def
          intro!: filter_update_where)
  then have "grants_of ?new i = grants_of db i"
    by (simp add: grants_of_def)
  moreover have "permission_of ?new = permission_of db"
    by (simp add: permission_of_def fun_eq_iff)
  ultimately show ?thesis
    using False by (simp add: permission_key_set_def)
qed

lemma change_role_permissions_contained:
  assumes "wf db" "change_role_permissions_operation now ctx role_id requested oper v db = Inr (out, db')"
  shows "\<exists>au. current_actor db ctx au \<and> contained (authority_spec db False au) db db'"
proof -
  let ?K = "load_permission_keys db requested" and ?before = "permission_key_set db role_id"
  let ?after = "permission_keys_after oper ?before (snd ` set ?K)"
  obtain au r holders locked where adm: "permissions_changed db ctx role_id oper ?after au r holders locked"
    and known: "fst ` set ?K = requested"
    and db': "db' = (if ?before = ?after then db
            else bump_shared_authority locked r (db\<lparr>db_role_permissions :=
              changed_grants db now oper role_id (u_id au) requested ?K ?before\<rparr>))"
    using change_role_permissions_effect [OF assms] unfolding Let_def by blast
  note r = permissions_changed_row [OF adm]
  have au: "current_actor db ctx au" "u_id au \<notin> holder_ids db role_id"
    and manageable: "custom_role_manageable (authority_spec db False au) (role_grant_of db r)"
    and within: "?after \<subseteq> a_permissions (authority_spec db False au)"
    using adm by (simp_all add: permissions_changed_def role_locked_def)
  let ?db1 = "db\<lparr>db_role_permissions := changed_grants db now oper role_id (u_id au) requested ?K ?before\<rparr>"
  have keys: "permission_key_set ?db1 i = (if i = role_id then ?after else permission_key_set db i)" for i
    using changed_grants_keys [OF assms(1) r(1) known, of now oper "u_id au" i] r(2) by simp
  have "contained (authority_spec db False au) db (bump_shared_authority locked r ?db1)"
  proof (rule contained_save_role [OF assms(1) r(1), where q = "next_version r"])
    fix uid assume "assigned db uid r"
    then have "uid \<noteq> u_id au"
      by (rule holders_not_actor [OF assms(1) au _ r(2)])
    then show "(live_role r \<and> r_is_active r \<and>
        permission_key_set (bump_shared_authority locked r ?db1) (r_id r) \<subseteq> permission_key_set db (r_id r)) \<or>
      (uid \<noteq> a_user_id (authority_spec db False au) \<and> r_management_tier r < a_management_tier (authority_spec db False au) \<and>
       permission_key_set (bump_shared_authority locked r ?db1) (r_id r) \<subseteq> a_permissions (authority_spec db False au))"
      using manageable_within [OF manageable] within r(2) by (simp add: save_bump_roles keys)
  qed (auto simp: save_bump_roles keys r(2) assigned_iff)
  then have "contained (authority_spec db False au) db db'"
    unfolding db' by simp
  with au(1) show ?thesis by blast
qed

lemma update_user_status_contained:
  assumes "wf db" "update_user_status_operation ctx t b db = Inr (out, db')"
  shows "\<exists>au. current_actor db ctx au \<and> contained (authority_spec db False au) db db'"
proof -
  obtain au row state where au: "current_actor db ctx au"
    and db': "db' = (if u_is_active row = b then db
       else save_state (next_epoch state) (save_user (status_changed row b) db))"
    using update_user_status_effect [OF assms] unfolding target_locked_def by blast
  have "same_access db db'"
    unfolding db' by (simp add: same_access_def save_state_def save_user_def)
  with au show ?thesis by (blast intro: contained_same_access)
qed

lemma revoke_user_sessions_contained:
  assumes "wf db" "revoke_user_sessions_operation ctx t db = Inr (out, db')"
  shows "\<exists>au. current_actor db ctx au \<and> contained (authority_spec db False au) db db'"
proof -
  obtain au row where "current_actor db ctx au"
    "db' = save_user (row\<lparr>u_token_version := u_token_version row + 1\<rparr>) db"
    using revoke_user_sessions_effect [OF assms] unfolding target_locked_def by blast
  then show ?thesis
    by (metis contained_same_access same_access_simps(3))
qed

subsection \<open>Every call is contained\<close>

locale contained_operation = audited_operation operation admissible storing
  for operation :: "'q \<Rightarrow> 'a operation" and admissible :: "'q \<Rightarrow> database \<Rightarrow> bool"
    and storing :: "'q \<Rightarrow> bool" +
  fixes context_of :: "'q \<Rightarrow> authorization_context"
  assumes contained_effect: "wf db \<Longrightarrow> admissible q db \<Longrightarrow> operation q db = Inr (out, db') \<Longrightarrow>
    \<exists>au. current_actor db (context_of q) au \<and> contained (authority_spec db False au) db db'"
begin

lemma run_contained:
  assumes "wf db" "admissible q db"
    and "drop_value (run_audited uc ctx action tu tr (operation q) db) = (res, db')"
  shows "same_access db db' \<or>
     (\<exists>au. current_actor db (context_of q) au \<and> contained (authority_spec db False au) db db')"
proof (cases "run_audited uc ctx action tu tr (operation q) db")
  case (Pair m db1)
  then have db1: "db1 = db'"
    using assms(3) by (simp add: drop_value_def)
  show ?thesis
  proof (cases m)
    case (Inl e)
    from failure [OF assms(1,2) Pair [unfolded Inl]] have "db' = db \<or> (\<exists>ev. db' = add_rbac_event ev db)"
      unfolding db1 by blast
    then show ?thesis by auto
  next
    case (Inr x)
    from success [OF assms(1,2) Pair [unfolded Inr]] obtain out db2 e where
      "operation q db = Inr (out, db2)" "db' = add_rbac_event e db2"
      unfolding db1 by blast
    then show ?thesis
      using contained_effect [OF assms(1,2)] by (metis contained_frame same_access_simps(4))
  qed
qed

end

interpretation user_status_within: contained_operation
  "\<lambda>(ctx, t, b). update_user_status_operation ctx t b" "\<lambda>_ _. True" "\<lambda>_. True" "\<lambda>(ctx, t, b). ctx"
  by unfold_locales (auto intro: update_user_status_contained)

interpretation user_sessions_within: contained_operation
  "\<lambda>(ctx, t). revoke_user_sessions_operation ctx t" "\<lambda>_ _. True" "\<lambda>_. True" "\<lambda>(ctx, t). ctx"
  by unfold_locales (auto intro: revoke_user_sessions_contained)

interpretation user_roles_within: contained_operation
  "\<lambda>(now, ctx, t, ids, oper). change_user_roles_operation now ctx t (set ids) oper" "\<lambda>_ _. True" "\<lambda>_. True"
  "\<lambda>(now, ctx, t, ids, oper). ctx"
  by unfold_locales (auto intro: change_user_roles_contained [OF _ finite_requested])

interpretation create_role_within: contained_operation
  "\<lambda>(i, ctx, request). create_role_operation i ctx request"
  "\<lambda>(i, ctx, request) db. i \<notin> r_id ` set (db_roles db)" "\<lambda>(i, ctx, request). creation_storable request"
  "\<lambda>(i, ctx, request). ctx"
  by unfold_locales (auto intro: create_role_contained)

interpretation update_role_within: contained_operation
  "\<lambda>(ctx, i, request, v). update_role_operation ctx i request v" "\<lambda>_ _. True"
  "\<lambda>(ctx, i, request, v). update_storable request" "\<lambda>(ctx, i, request, v). ctx"
  by unfold_locales (auto intro: update_role_contained)

interpretation role_active_within: contained_operation
  "\<lambda>(ctx, i, b, v). set_role_active_operation ctx i b v" "\<lambda>_ _. True" "\<lambda>_. True" "\<lambda>(ctx, i, b, v). ctx"
  by unfold_locales (auto intro: set_role_active_contained)

interpretation delete_role_within: contained_operation
  "\<lambda>(now, ctx, i, v). soft_delete_role_operation now ctx i v" "\<lambda>_ _. True" "\<lambda>_. True" "\<lambda>(now, ctx, i, v). ctx"
  by unfold_locales (auto intro: soft_delete_role_contained)

interpretation permissions_within: contained_operation
  "\<lambda>(now, ctx, i, ids, oper, v). change_role_permissions_operation now ctx i (set ids) oper v" "\<lambda>_ _. True" "\<lambda>_. True"
  "\<lambda>(now, ctx, i, ids, oper, v). ctx"
  by unfold_locales (auto intro: change_role_permissions_contained)

lemma run_call_contained:
  assumes "wf db" "fresh_id c db" "run_call uc ctx c db = (res, db')"
  shows "same_access db db' \<or>
     (\<exists>au. current_actor db ctx au \<and> contained (authority_spec db False au) db db')"
proof (cases c)
  case (Update_user_status t b)
  with assms show ?thesis
    using user_status_within.run_contained [OF assms(1), where q = "(ctx, t, b)"]
    by (simp add: update_user_status_def)
next
  case (Revoke_user_sessions t)
  with assms show ?thesis
    using user_sessions_within.run_contained [OF assms(1), where q = "(ctx, t)"]
    by (simp add: revoke_user_sessions_def)
next
  case (Change_user_roles now t ids operation)
  with assms show ?thesis
    using user_roles_within.run_contained [OF assms(1), where q = "(now, ctx, t, ids, projr (require_role_operation operation))"]
    by (cases "require_role_operation operation"; cases "ids = []")
       (simp_all add: change_user_roles_def drop_value_def [of "(Inl _, db)"])
next
  case (Create_role i request)
  with assms show ?thesis
    using create_role_within.run_contained [OF assms(1), where q = "(i, ctx, request)"]
    by (simp add: create_role_def)
next
  case (Update_role i request v)
  with assms show ?thesis
    using update_role_within.run_contained [OF assms(1), where q = "(ctx, i, request, v)"]
    by (simp add: update_role_def)
next
  case (Set_role_active i b v)
  with assms show ?thesis
    using role_active_within.run_contained [OF assms(1), where q = "(ctx, i, b, v)"]
    by (simp add: set_role_active_def)
next
  case (Soft_delete_role now i v)
  with assms show ?thesis
    using delete_role_within.run_contained [OF assms(1), where q = "(now, ctx, i, v)"]
    by (simp add: soft_delete_role_def)
next
  case (Change_role_permissions now i ids operation v)
  with assms show ?thesis
    using permissions_within.run_contained [OF assms(1), where q = "(now, ctx, i, ids, projr (require_role_operation operation), v)"]
    by (cases "require_role_operation operation"; cases "ids = []")
       (simp_all add: change_role_permissions_def drop_value_def [of "(Inl _, db)"])
qed

end
