(* ===== verification/Sample.thy ===== *)
theory Sample
  imports Escalation
begin

text \<open>
  A small installation the properties are exercised on: the three system roles, one custom
  role, the super administrator \<open>root\<close>, the administrator \<open>alice\<close>, and the users \<open>bob\<close> and
  \<open>carol\<close> (who holds the custom role).
\<close>

definition ROOT :: uuid where "ROOT = UUID 1"
definition ALICE :: uuid where "ALICE = UUID 2"
definition BOB :: uuid where "BOB = UUID 3"
definition CAROL :: uuid where "CAROL = UUID 4"
definition R_SUPER :: uuid where "R_SUPER = UUID 11"
definition R_ADMIN :: uuid where "R_ADMIN = UUID 12"
definition R_USER :: uuid where "R_USER = UUID 13"
definition R_EDITOR :: uuid where "R_EDITOR = UUID 14"

lemmas sample_ids = ROOT_def ALICE_def BOB_def CAROL_def R_SUPER_def R_ADMIN_def R_USER_def R_EDITOR_def

definition sample_user :: "uuid \<Rightarrow> string \<Rightarrow> bool \<Rightarrow> user" where
  "sample_user i n prot =
     \<lparr>u_id = i, u_user_name = lit n, u_password_hash = None, u_must_change_password = False,
      u_password_changed_at = None, u_is_active = True, u_is_protected = prot,
      u_token_version = 0, u_authz_version = 0, u_deleted_at = None, u_deleted_by_user_id = None\<rparr>"

definition sample_role :: "uuid \<Rightarrow> string \<Rightarrow> int \<Rightarrow> bool \<Rightarrow> bool \<Rightarrow> role" where
  "sample_role i k tier sys super =
     \<lparr>r_id = i, r_key = k, r_name = lit k, r_description = [], r_management_tier = tier,
      r_is_active = True, r_is_protected = super, r_is_system = sys, r_is_super_admin = super,
      r_version = 0, r_deleted_at = None, r_deleted_by_user_id = None\<rparr>"

definition sample_assignment :: "uuid \<times> uuid \<Rightarrow> user_role" where
  "sample_assignment a =
     \<lparr>ur_user_id = fst a, ur_role_id = snd a, ur_assigned_by_user_id = None, ur_deleted_at = None,
      ur_deleted_by_user_id = None\<rparr>"

definition sample_grant :: "uuid \<times> uuid \<Rightarrow> role_permission" where
  "sample_grant g =
     \<lparr>rp_role_id = fst g, rp_permission_id = snd g, rp_assigned_by_user_id = None,
      rp_deleted_at = None, rp_deleted_by_user_id = None\<rparr>"

definition sample_permissions :: "(uuid \<times> string) list" where
  "sample_permissions =
     [(UUID 21, ''users:read''), (UUID 22, ''roles:assign''), (UUID 23, ''roles:revoke''),
      (UUID 24, ''users:status:update''), (UUID 25, ''users:sessions:revoke''),
      (UUID 26, ''roles:create''), (UUID 27, ''roles:update''), (UUID 28, ''roles:delete''),
      (UUID 29, ''roles:permissions:bind'')]"

definition sample_permission :: "uuid \<times> string \<Rightarrow> permission" where
  "sample_permission p =
     \<lparr>p_id = fst p, p_key = snd p, p_description = [], p_deleted_at = None, p_deleted_by_user_id = None\<rparr>"

definition sample_db :: database where
  "sample_db =
     \<lparr>db_users = [sample_user ROOT ''root'' True, sample_user ALICE ''alice'' False,
                  sample_user BOB ''bob'' False, sample_user CAROL ''carol'' False],
      db_roles = [sample_role R_SUPER ''super_admin'' 1000 True True,
                  sample_role R_ADMIN ''admin'' 500 True False,
                  sample_role R_USER ''user'' 0 True False,
                  sample_role R_EDITOR ''editor'' 100 False False],
      db_permissions = map sample_permission sample_permissions,
      db_user_roles = map sample_assignment
        [(ROOT, R_SUPER), (ROOT, R_USER), (ALICE, R_ADMIN), (ALICE, R_USER), (BOB, R_USER),
         (CAROL, R_EDITOR), (CAROL, R_USER)],
      db_role_permissions = map sample_grant
        (map (\<lambda>p. (R_SUPER, fst p)) sample_permissions @ map (\<lambda>p. (R_ADMIN, fst p)) sample_permissions @
         [(R_EDITOR, UUID 21)]),
      db_state = Some \<lparr>st_epoch = 0, st_public_registration_enabled = False\<rparr>,
      db_rbac_audit = [],
      db_account_audit = []\<rparr>"

definition sample_context :: "uuid \<Rightarrow> authorization_context" where
  "sample_context i =
     \<lparr>c_principal = \<lparr>pr_user_id = i, pr_token_version = 0, pr_token_id = UUID 99, pr_issued_at = 0,
                     pr_expires_at = 900\<rparr>,
      c_authorization_epoch = 0,
      c_authority = build i True False 0 0 [],
      c_request_id = ''req-1'',
      c_audit_source = HTTP\<rparr>"

lemma sample_wf: "wf sample_db"
  unfolding wf_def
proof (intro conjI)
  show "keys_ok sample_db" by code_simp
  show "names_ok sample_db" by code_simp
  show "references_ok sample_db" by code_simp
  show "actors_ok sample_db" by code_simp
  show "rows_ok sample_db" by code_simp
  show "state_ok sample_db" by code_simp
  show "audit_ok sample_db" by code_simp
  show "subjects_ok sample_db" by code_simp
  show "length (super_admin_holders sample_db) = 1" by code_simp
qed


subsection \<open>A successful call\<close>

text \<open>Alice, an administrator, ends the sessions of Bob.\<close>

lemma sample_revocation_operation:
  "\<exists>out db'. revoke_user_sessions_operation (sample_context ALICE) BOB sample_db = Inr (out, db') \<and>
     o_reason_code out = ''user_sessions_revoked'' \<and>
     o_before_state out = Some (a_obj [(''token_version'', A_Int 0)]) \<and>
     o_after_state out = Some (a_obj [(''token_version'', A_Int 1)]) \<and> o_audit_target_role_id out = None"
proof -
  have "case revoke_user_sessions_operation (sample_context ALICE) BOB sample_db of
      Inl e \<Rightarrow> False
    | Inr (out, db') \<Rightarrow> o_reason_code out = ''user_sessions_revoked'' \<and>
        o_before_state out = Some (a_obj [(''token_version'', A_Int 0)]) \<and>
        o_after_state out = Some (a_obj [(''token_version'', A_Int 1)]) \<and> o_audit_target_role_id out = None"
    by code_simp
  then show ?thesis by (auto split: sum.splits)
qed

lemma sample_revocation_event:
  "\<not> isl (audit_event ascii_db (sample_context ALICE) ''user.sessions.revoke'' ''allowed''
     ''user_sessions_revoked'' (Some BOB) None (Some (a_obj [(''token_version'', A_Int 0)]))
     (Some (a_obj [(''token_version'', A_Int 1)])))"
  by code_simp

lemma sample_revocation:
  "fst (run_call ascii_db (sample_context ALICE) (Revoke_user_sessions BOB) sample_db) = None"
proof -
  let ?op = "revoke_user_sessions_operation (sample_context ALICE) BOB"
  let ?body = "allowed_body ascii_db (sample_context ALICE) ''user.sessions.revoke'' (Some BOB) None ?op"
  obtain e where "audit_event ascii_db (sample_context ALICE) ''user.sessions.revoke'' ''allowed''
     ''user_sessions_revoked'' (Some BOB) None (Some (a_obj [(''token_version'', A_Int 0)]))
     (Some (a_obj [(''token_version'', A_Int 1)])) = Inr e"
    using sample_revocation_event unfolding not_isl_iff by blast
  then obtain x where body: "?body sample_db = Inr x"
    using sample_revocation_operation by (auto simp: allowed_body_def)
  have "\<exists>y db'. transaction ?body sample_db = (Inr y, db')"
    using user_sessions_op.allowed_body_result [where q = "(sample_context ALICE, BOB)" and uc = ascii_db
        and ctx = "sample_context ALICE" and action = "''user.sessions.revoke''" and tu = "Some BOB" and tr = None,
        OF sample_wf TrueI] body
    by (cases "transaction ?body sample_db"; cases "fst (transaction ?body sample_db)") auto
  then show ?thesis
    by (auto simp: revoke_user_sessions_def run_audited_def drop_value_def)
qed

subsection \<open>A role is bound\<close>

text \<open>Alice gives Bob the role of an editor.\<close>

lemma sample_lock:
  "\<exists>locked. lock_actor_and_target_user sample_db (sample_context ALICE) BOB ROLES_ASSIGN {R_EDITOR} =
     Inr (authority_spec sample_db False (sample_user ALICE ''alice'' False),
       authority_spec sample_db True (sample_user BOB ''bob'' False), sample_user BOB ''bob'' False,
       \<lparr>st_epoch = 0, st_public_registration_enabled = False\<rparr>, locked) \<and>
     locked = lock_roles sample_db (assigned_role_ids sample_db {ALICE, BOB} \<union> {R_EDITOR})"
proof -
  let ?lock = "lock_actor_and_target_user sample_db (sample_context ALICE) BOB ROLES_ASSIGN {R_EDITOR}"
  have "case ?lock of Inl e \<Rightarrow> False | Inr _ \<Rightarrow> True"
    by code_simp
  then obtain actor before row state locked where lock: "?lock = Inr (actor, before, row, state, locked)"
    by (auto split: sum.splits)
  obtain au where au: "target_locked sample_db (sample_context ALICE) BOB ROLES_ASSIGN au row"
    and eqs: "actor = authority_spec sample_db False au" "before = authority_spec sample_db True row"
      "db_state sample_db = Some state"
      "locked = lock_roles sample_db (assigned_role_ids sample_db {ALICE, BOB} \<union> {R_EDITOR})"
    using lock_actor_and_target_user_Inr [OF sample_wf lock] by (auto simp: sample_context_def)
  have "row = sample_user BOB ''bob'' False"
    using au by (intro wf_same_user [OF sample_wf]) (simp_all add: target_locked_def sample_db_def sample_user_def)
  moreover have "au = sample_user ALICE ''alice'' False"
    using au by (intro wf_same_user [OF sample_wf])
      (simp_all add: target_locked_def current_actor_def sample_context_def sample_db_def sample_user_def)
  moreover have "state = \<lparr>st_epoch = 0, st_public_registration_enabled = False\<rparr>"
    using eqs(3) by (simp add: sample_db_def)
  ultimately show ?thesis
    using lock eqs by simp
qed

lemma sample_binding:
  "\<exists>out db'. change_user_roles_operation 5 (sample_context ALICE) BOB {R_EDITOR} BIND sample_db = Inr (out, db') \<and>
     count_live_user_roles db' BOB = 2"
proof -
  let ?bob = "sample_user BOB ''bob'' False" and ?alice = "sample_user ALICE ''alice'' False"
  let ?editor = "sample_role R_EDITOR ''editor'' 100 False False"
  obtain locked where lock: "lock_actor_and_target_user sample_db (sample_context ALICE) BOB ROLES_ASSIGN {R_EDITOR} =
     Inr (authority_spec sample_db False ?alice, authority_spec sample_db True ?bob, ?bob,
       \<lparr>st_epoch = 0, st_public_registration_enabled = False\<rparr>, locked)"
    and locked: "locked = lock_roles sample_db (assigned_role_ids sample_db {ALICE, BOB} \<union> {R_EDITOR})"
    using sample_lock by blast
  have held: "existing_role_ids sample_db BOB {R_EDITOR} = {}"
    by code_simp
  have roles: "requested_roles BIND locked {} {R_EDITOR} = Inr [?editor]"
    unfolding locked by code_simp
  have grants: "load_role_grants_for_roles sample_db [?editor] = [(R_EDITOR, role_grant_of sample_db ?editor)]"
    using load_role_grants_for_roles_spec [of "[?editor]" sample_db] by (simp add: sample_role_def)
  have visible: "is_administrative_role_visible (authority_spec sample_db False ?alice) (role_grant_of sample_db ?editor)"
    by code_simp
  have allowed: "allowed (decide_role_change BIND (authority_spec sample_db False ?alice)
      (authority_spec sample_db True ?bob)
      (roles_before_after BIND (authority_spec sample_db True ?bob) [role_grant_of sample_db ?editor])
      [role_grant_of sample_db ?editor])"
    by code_simp
  have room: "count_live_user_roles sample_db BOB = 1"
    by code_simp
  have after: "count_live_user_roles (sample_db\<lparr>db_user_roles :=
      changed_assignments sample_db 5 BIND BOB {R_EDITOR} ALICE\<rparr>) BOB = 2"
    by code_simp
  have ids: "u_id ?bob = BOB" "r_id ?editor = R_EDITOR" "u_id ?alice = ALICE"
    by (simp_all add: sample_user_def sample_role_def)
  have frame: "count_live_user_roles (save_state s (save_user u db)) i = count_live_user_roles db i" for s u db i
    by (simp add: count_live_user_roles_def live_assignments_def save_state_def save_user_def)
  let ?row = "?bob\<lparr>u_authz_version := u_authz_version ?bob + 1\<rparr>"
  let ?after = "save_state (next_epoch \<lparr>st_epoch = 0, st_public_registration_enabled = False\<rparr>)
    (save_user ?row (sample_db\<lparr>db_user_roles := changed_assignments sample_db 5 BIND BOB {R_EDITOR} ALICE\<rparr>))"
  obtain v where view: "access_view_of ?after ?row BOB (authority_spec sample_db False ?alice) = Inr v"
    using access_view_total [of ?row BOB ?after "authority_spec sample_db False ?alice"] ids by auto
  show ?thesis
    unfolding change_user_roles_operation_def
    by (simp add: lock held roles grants visible allowed room ids frame after view Let_def raise_unless_def
        require_allowed_def changed_role_ids_def MAX_ROLES_PER_USER_def)
qed

end
