(* ===== verification/Text_Codec.thy ===== *)
theory Text_Codec
  imports Audit_State
begin

text \<open>
  Texts the program prints and reads back: decimal numbers, the canonical text of a UUID,
  and UTF-8. Each comes with the fact that reading undoes printing.
\<close>

subsection \<open>Decimal numbers\<close>

fun read_digits :: "nat \<Rightarrow> pystr \<Rightarrow> nat option" where
  "read_digits acc [] = Some acc"
| "read_digits acc (c # s) =
     (if is_digit c then read_digits (acc * 10 + nat (c - 48)) s else None)"

definition read_nat :: "pystr \<Rightarrow> nat option" where
  "read_nat s = (if s = [] then None else read_digits 0 s)"

text \<open>The canonical text of an integer: no sign but \<open>-\<close>, no leading zero.\<close>

definition read_int :: "pystr \<Rightarrow> int option" where
  "read_int s =
     (case (case s of c # digits \<Rightarrow> if c = 45 then map_option (\<lambda>n. - int n) (read_nat digits)
                                    else map_option int (read_nat s)
            | [] \<Rightarrow> None) of
        None \<Rightarrow> None
      | Some i \<Rightarrow> if encode_int i = s then Some i else None)"

lemma read_digits_append:
  "read_digits acc (s @ t) = (case read_digits acc s of None \<Rightarrow> None | Some n \<Rightarrow> read_digits n t)"
  by (induction acc s rule: read_digits.induct) auto

lemma decimal_not_Nil [simp]: "decimal n \<noteq> []"
  by (subst decimal.simps) simp

lemma read_digits_decimal: "read_digits 0 (decimal n) = Some n"
proof (induction n rule: decimal.induct)
  case (1 n)
  have digit: "is_digit (48 + int k)" "nat (48 + int k - 48) = k" if "k < 10" for k
    using that by (simp_all add: is_digit_def)
  show ?case
  proof (cases "n < 10")
    case True
    then show ?thesis by (subst decimal.simps) (simp add: digit)
  next
    case False
    have "n mod 10 < 10" by simp
    with 1 False show ?thesis
      by (subst decimal.simps) (simp add: read_digits_append digit)
  qed
qed

lemma hd_decimal: "is_digit (hd (decimal n))"
proof (induction n rule: decimal.induct)
  case (1 n)
  then show ?case
    by (subst decimal.simps) (auto simp: is_digit_def hd_append)
qed

lemma read_nat_decimal [simp]: "read_nat (decimal n) = Some n"
  by (simp add: read_nat_def read_digits_decimal)

lemma read_int_encode_int [simp]: "read_int (encode_int i) = Some i"
proof (cases "i < 0")
  case True
  then have "encode_int i = 45 # decimal (nat (- i))"
    by (simp add: encode_int_def)
  then show ?thesis
    using True by (simp add: read_int_def)
next
  case False
  then have i: "encode_int i = decimal (nat i)"
    by (simp add: encode_int_def)
  obtain c s where d: "decimal (nat i) = c # s"
    by (cases "decimal (nat i)") auto
  have "c \<noteq> 45"
    using hd_decimal [of "nat i"] by (auto simp: d is_digit_def)
  moreover have "read_nat (c # s) = Some (nat i)"
    by (simp flip: d)
  ultimately show ?thesis
    using False by (simp add: read_int_def i d)
qed

lemma encode_int_inject [simp]: "encode_int i = encode_int j \<longleftrightarrow> i = j"
  by (metis option.inject read_int_encode_int)

lemma read_int_Some: "read_int s = Some i \<longleftrightarrow> s = encode_int i"
proof
  assume "read_int s = Some i"
  then show "s = encode_int i"
    by (auto simp: read_int_def split: option.splits if_splits)
qed simp

subsection \<open>UUIDs\<close>

text \<open>
  \<open>uuid.UUID(text)\<close> followed by \<open>str(parsed) == text\<close>, as every caller in the program does
  it: the UUID whose canonical text this is.
\<close>

definition hex_value :: "char \<Rightarrow> nat option" where
  "hex_value c =
     (if c \<in> set ''0123456789'' then Some (of_char c - 48)
      else if c \<in> set ''abcdef'' then Some (of_char c - 87) else None)"

fun read_hex :: "nat \<Rightarrow> string \<Rightarrow> nat option" where
  "read_hex acc [] = Some acc"
| "read_hex acc (c # s) =
     (case hex_value c of None \<Rightarrow> None | Some d \<Rightarrow> read_hex (acc * 16 + d) s)"

definition uuid_of_text :: "string \<Rightarrow> uuid option" where
  "uuid_of_text s =
     (case read_hex 0 (filter (\<lambda>c. c \<noteq> CHR ''-'') s) of
        None \<Rightarrow> None
      | Some n \<Rightarrow> let u = UUID (word_of_nat n) in if uuid_str u = s then Some u else None)"

lemma read_hex_append:
  "read_hex acc (s @ t) = (case read_hex acc s of None \<Rightarrow> None | Some n \<Rightarrow> read_hex n t)"
  by (induction acc s rule: read_hex.induct) (auto split: option.splits)

lemma hex_value_digit: "n < 16 \<Longrightarrow> hex_value (hex_digit n) = Some n"
proof -
  assume "n < 16"
  moreover have "list_all (\<lambda>k. hex_value (hex_digit k) = Some k) [0..<16]"
    by code_simp
  ultimately show ?thesis by (simp add: list_all_iff)
qed

lemma read_hex_of: "n < 16 ^ w \<Longrightarrow> read_hex 0 (hex_of w n) = Some n"
proof (induction w arbitrary: n)
  case (Suc w)
  then have "n div 16 < 16 ^ w"
    by (simp add: less_mult_imp_div_less mult.commute)
  with Suc.IH show ?case
    by (simp add: read_hex_append hex_value_digit)
qed simp

lemma uuid_of_text_str [simp]: "uuid_of_text (uuid_str u) = Some u"
proof -
  have "unat (uuid_int u) < 16 ^ 32"
    using unsigned_less [of "uuid_int u", where 'a = nat] by simp
  then show ?thesis
    by (simp add: uuid_of_text_def uuid_str_filter read_hex_of Let_def)
qed

lemma uuid_of_text_Some: "uuid_of_text s = Some u \<longleftrightarrow> s = uuid_str u"
proof
  assume "uuid_of_text s = Some u"
  then show "s = uuid_str u"
    by (auto simp: uuid_of_text_def Let_def split: option.splits if_splits)
qed simp

subsection \<open>UTF-8\<close>

definition utf8_char :: "codepoint \<Rightarrow> int list" where
  "utf8_char c =
     (if c < 128 then [c]
      else if c < 2048 then [192 + c div 64, 128 + c mod 64]
      else if c < 65536 then [224 + c div 4096, 128 + c div 64 mod 64, 128 + c mod 64]
      else [240 + c div 262144, 128 + c div 4096 mod 64, 128 + c div 64 mod 64, 128 + c mod 64])"

definition utf8_encode :: "pystr \<Rightarrow> failure + int list" where
  "utf8_encode s =
     (if list_ex is_surrogate s then Inl (Value_error ''surrogates not allowed'')
      else Inr (concat (map utf8_char s)))"

lemma utf8_encode_length:
  "utf8_encode s = Inr bs \<Longrightarrow> utf8_length s = Inr (int (length bs))"
proof -
  have "int (length (concat (map utf8_char s))) = sum_list (map utf8_width s)"
    by (induction s) (auto simp: utf8_char_def utf8_width_def)
  then show "utf8_encode s = Inr bs \<Longrightarrow> ?thesis"
    by (auto simp: utf8_encode_def utf8_length_def split: if_splits)
qed

text \<open>Different texts have different encodings: the first byte tells how many follow.\<close>

fun utf8_decode :: "int list \<Rightarrow> pystr" where
  "utf8_decode [] = []"
| "utf8_decode (a # bs) =
     (if a < 128 then a # utf8_decode bs
      else if a < 224 then ((a - 192) * 64 + (bs ! 0 - 128)) # utf8_decode (drop 1 bs)
      else if a < 240
      then ((a - 224) * 4096 + (bs ! 0 - 128) * 64 + (bs ! 1 - 128)) # utf8_decode (drop 2 bs)
      else ((a - 240) * 262144 + (bs ! 0 - 128) * 4096 + (bs ! 1 - 128) * 64 + (bs ! 2 - 128))
        # utf8_decode (drop 3 bs))"

definition scalar_value :: "codepoint \<Rightarrow> bool" where
  "scalar_value c \<longleftrightarrow> 0 \<le> c \<and> c < 1114112"

lemma utf8_decode_cases:
  "a < 128 \<Longrightarrow> utf8_decode (a # bs) = a # utf8_decode bs"
  "128 \<le> a \<Longrightarrow> a < 224 \<Longrightarrow> utf8_decode (a # b # bs) = ((a - 192) * 64 + (b - 128)) # utf8_decode bs"
  "224 \<le> a \<Longrightarrow> a < 240 \<Longrightarrow> utf8_decode (a # b # c # bs) =
     ((a - 224) * 4096 + (b - 128) * 64 + (c - 128)) # utf8_decode bs"
  "240 \<le> a \<Longrightarrow> utf8_decode (a # b # c # d # bs) =
     ((a - 240) * 262144 + (b - 128) * 4096 + (c - 128) * 64 + (d - 128)) # utf8_decode bs"
  by (simp_all add: numeral_2_eq_2 numeral_3_eq_3)

declare utf8_decode.simps(2) [simp del]

lemma recombine:
  "(x :: int) = y * 64 + a \<Longrightarrow> y = z * 64 + b \<Longrightarrow> z * 4096 + b * 64 + a = x"
  "(x :: int) = y * 64 + a \<Longrightarrow> y = z * 64 + b \<Longrightarrow> z = w * 64 + d \<Longrightarrow> w * 262144 + d * 4096 + b * 64 + a = x"
  by simp_all

lemma utf8_decode_char:
  assumes "scalar_value c"
  shows "utf8_decode (utf8_char c @ bs) = c # utf8_decode bs"
proof -
  have "c div (64 * 64) = c div 64 div 64" "c div (4096 * 64) = c div 4096 div 64"
    by (rule zdiv_zmult2_eq, simp)+
  then have "c div 4096 = c div 64 div 64" "c div 262144 = c div 4096 div 64"
    by simp_all
  then have parts: "c div 64 * 64 + c mod 64 = c" "c div 4096 * 64 + c div 64 mod 64 = c div 64"
    "c div 262144 * 64 + c div 4096 mod 64 = c div 4096"
    by (simp_all only: div_mult_mod_eq)
  have "0 \<le> c" using assms by (simp add: scalar_value_def)
  then consider "c < 128" | "128 \<le> c" "c < 2048" | "2048 \<le> c" "c < 65536" | "65536 \<le> c"
    by linarith
  then show ?thesis
  proof cases
    case 1
    then show ?thesis by (simp add: utf8_char_def utf8_decode_cases)
  next
    case 2
    then have "128 \<le> 192 + c div 64" "192 + c div 64 < 224" by simp_all
    with 2 show ?thesis using parts(1) by (simp add: utf8_char_def utf8_decode_cases(2))
  next
    case 3
    then have "224 \<le> 224 + c div 4096" "224 + c div 4096 < 240"
      by simp_all
    moreover have "c div 4096 * 4096 + c div 64 mod 64 * 64 + c mod 64 = c"
      by (rule recombine(1) [OF parts(1) [symmetric] parts(2) [symmetric]])
    ultimately show ?thesis using 3 by (simp add: utf8_char_def utf8_decode_cases(3))
  next
    case 4
    have first: "240 \<le> 240 + c div 262144"
      using \<open>0 \<le> c\<close> by simp
    have "utf8_char c = [240 + c div 262144, 128 + c div 4096 mod 64, 128 + c div 64 mod 64, 128 + c mod 64]"
      using 4 by (simp add: utf8_char_def)
    then have "utf8_decode (utf8_char c @ bs) =
        ((240 + c div 262144 - 240) * 262144 + (128 + c div 4096 mod 64 - 128) * 4096
          + (128 + c div 64 mod 64 - 128) * 64 + (128 + c mod 64 - 128)) # utf8_decode bs"
      by (simp only: append_Cons append_Nil utf8_decode_cases(4) [OF first])
    also have "\<dots> = c # utf8_decode bs"
      unfolding add_diff_cancel_left'
      by (simp only: recombine(2) [OF parts(1) [symmetric] parts(2) [symmetric] parts(3) [symmetric]])
    finally show ?thesis .
  qed
qed

lemma utf8_decode_encode:
  "list_all scalar_value s \<Longrightarrow> utf8_encode s = Inr bs \<Longrightarrow> utf8_decode bs = s"
proof -
  have "list_all scalar_value s \<Longrightarrow> utf8_decode (concat (map utf8_char s)) = s"
    by (induction s) (simp_all add: utf8_decode_char)
  then show "list_all scalar_value s \<Longrightarrow> utf8_encode s = Inr bs \<Longrightarrow> ?thesis"
    by (auto simp: utf8_encode_def split: if_splits)
qed

lemma utf8_encode_inject:
  "list_all scalar_value s \<Longrightarrow> list_all scalar_value t \<Longrightarrow> utf8_encode s = Inr bs \<Longrightarrow>
     utf8_encode t = Inr bs \<Longrightarrow> s = t"
  using utf8_decode_encode by metis

end
