(* ===== verification/Redis.thy ===== *)
theory Redis
  imports Text_Codec
begin

text \<open>
  The Redis commands the Lua scripts of the program call, on an expiring store. A script
  runs atomically at one instant, given in microseconds. A string value that is the text of
  an integer is \<open>R_Int\<close>, any other \<open>R_Text\<close>. A command on a key of another type is an
  error, which ends the script without undoing what it did before.
  A client call may also fail without the script having run, or after it ran.
\<close>

subsection \<open>The store\<close>

datatype redis_value =
    R_Int int
  | R_Text pystr
  | R_Hash "(string \<times> pystr) list"
  | R_Zset "(string \<times> int) list"

type_synonym redis = "string \<Rightarrow> (redis_value \<times> int option) option"

definition ms_of :: "int \<Rightarrow> int" where
  "ms_of now = now div 1000"

definition sec_of :: "int \<Rightarrow> int" where
  "sec_of now = now div 1000000"

text \<open>A key is gone once the clock, in milliseconds, has passed its expiry.\<close>

definition r_lookup :: "int \<Rightarrow> string \<Rightarrow> redis \<Rightarrow> (redis_value \<times> int option) option" where
  "r_lookup now k s =
     (case s k of
        None \<Rightarrow> None
      | Some (v, None) \<Rightarrow> Some (v, None)
      | Some (v, Some e) \<Rightarrow> if e < ms_of now then None else Some (v, Some e))"

definition r_put :: "string \<Rightarrow> redis_value \<Rightarrow> int option \<Rightarrow> redis \<Rightarrow> redis" where
  "r_put k v e s = s(k \<mapsto> (v, e))"

definition r_del :: "string \<Rightarrow> redis \<Rightarrow> redis" where
  "r_del k s = s(k := None)"

text \<open>\<open>PTTL\<close>: -2 for a missing key, -1 for a key without expiry.\<close>

definition r_pttl :: "int \<Rightarrow> string \<Rightarrow> redis \<Rightarrow> int" where
  "r_pttl now k s =
     (case r_lookup now k s of
        None \<Rightarrow> -2 | Some (_, None) \<Rightarrow> -1 | Some (_, Some e) \<Rightarrow> e - ms_of now)"

definition r_pexpiretime :: "int \<Rightarrow> string \<Rightarrow> redis \<Rightarrow> int" where
  "r_pexpiretime now k s =
     (case r_lookup now k s of None \<Rightarrow> -2 | Some (_, None) \<Rightarrow> -1 | Some (_, Some e) \<Rightarrow> e)"

text \<open>\<open>PEXPIREAT\<close>: an instant that is not in the future deletes the key.\<close>

definition r_pexpireat :: "int \<Rightarrow> string \<Rightarrow> int \<Rightarrow> redis \<Rightarrow> redis" where
  "r_pexpireat now k at s =
     (case r_lookup now k s of
        None \<Rightarrow> s
      | Some (v, _) \<Rightarrow> if at \<le> ms_of now then r_del k s else r_put k v (Some at) s)"

definition r_expire :: "int \<Rightarrow> string \<Rightarrow> int \<Rightarrow> redis \<Rightarrow> redis" where
  "r_expire now k seconds s = r_pexpireat now k (ms_of now + seconds * 1000) s"

definition value_text :: "redis_value \<Rightarrow> pystr option" where
  "value_text v = (case v of R_Int i \<Rightarrow> Some (encode_int i) | R_Text t \<Rightarrow> Some t | _ \<Rightarrow> None)"

definition text_value :: "pystr \<Rightarrow> redis_value" where
  "text_value t = (case read_int t of Some i \<Rightarrow> R_Int i | None \<Rightarrow> R_Text t)"

definition r_get :: "int \<Rightarrow> string \<Rightarrow> redis \<Rightarrow> failure + pystr option" where
  "r_get now k s =
     (case r_lookup now k s of
        None \<Rightarrow> Inr None
      | Some (v, _) \<Rightarrow> (case value_text v of None \<Rightarrow> Inl Redis_error | Some t \<Rightarrow> Inr (Some t)))"

text \<open>\<open>SET key value EX seconds\<close> replaces whatever the key held.\<close>

definition r_set_ex :: "int \<Rightarrow> string \<Rightarrow> pystr \<Rightarrow> int \<Rightarrow> redis \<Rightarrow> redis" where
  "r_set_ex now k t seconds s = r_put k (text_value t) (Some (ms_of now + seconds * 1000)) s"

definition MAX_REDIS_INT :: int where
  "MAX_REDIS_INT = 9223372036854775807"

definition r_incr :: "int \<Rightarrow> string \<Rightarrow> redis \<Rightarrow> (failure + int) \<times> redis" where
  "r_incr now k s =
     (case r_lookup now k s of
        None \<Rightarrow> (Inr 1, r_put k (R_Int 1) None s)
      | Some (R_Int i, e) \<Rightarrow>
          if i = MAX_REDIS_INT then (Inl Redis_error, s)
          else (Inr (i + 1), r_put k (R_Int (i + 1)) e s)
      | Some _ \<Rightarrow> (Inl Redis_error, s))"

subsection \<open>Calls of a client\<close>

datatype redis_fault = Answered | Not_sent | Reply_lost

text \<open>One \<open>EVAL\<close> or \<open>GET\<close>: when it reaches the server, and what the network does to it.\<close>

record redis_io =
  io_now :: int
  io_fault :: redis_fault

type_synonym 'a script = "int \<Rightarrow> redis \<Rightarrow> (failure + 'a) \<times> redis"

definition redis_call :: "redis_io \<Rightarrow> 'a script \<Rightarrow> redis \<Rightarrow> (failure + 'a) \<times> redis" where
  "redis_call io body s =
     (case io_fault io of
        Answered \<Rightarrow> body (io_now io) s
      | Not_sent \<Rightarrow> (Inl Redis_error, s)
      | Reply_lost \<Rightarrow> (Inl Redis_error, snd (body (io_now io) s)))"

definition reliable :: "int \<Rightarrow> redis_io" where
  "reliable now = \<lparr>io_now = now, io_fault = Answered\<rparr>"

lemma reliable_simps [simp]: "io_now (reliable now) = now" "io_fault (reliable now) = Answered"
  by (simp_all add: reliable_def)

text \<open>What a script returns to the client.\<close>

datatype redis_reply =
    Nil_reply
  | Int_reply int
  | Text_reply pystr
  | List_reply "redis_reply list"

subsection \<open>Laws of the store\<close>

lemma ms_of_mono: "a \<le> b \<Longrightarrow> ms_of a \<le> ms_of b"
  by (simp add: ms_of_def zdiv_mono1)

lemma lookup_put_same [simp]:
  "r_lookup now k (r_put k v e s) =
     (case e of None \<Rightarrow> Some (v, None) | Some w \<Rightarrow> if w < ms_of now then None else Some (v, Some w))"
  by (simp add: r_lookup_def r_put_def split: option.split)

lemma lookup_put_other [simp]: "k \<noteq> k' \<Longrightarrow> r_lookup now k (r_put k' v e s) = r_lookup now k s"
  by (simp add: r_lookup_def r_put_def)

lemma lookup_del [simp]: "r_lookup now k (r_del k' s) = (if k = k' then None else r_lookup now k s)"
  by (simp add: r_lookup_def r_del_def)

lemma put_put [simp]: "r_put k v e (r_put k v' e' s) = r_put k v e s"
  by (simp add: r_put_def)

lemma lookup_expiry: "r_lookup now k s = Some (v, Some e) \<Longrightarrow> ms_of now \<le> e"
  by (auto simp: r_lookup_def split: option.splits if_splits prod.splits)

lemma value_text_value [simp]: "value_text (text_value t) = Some t"
  by (auto simp: text_value_def value_text_def read_int_Some split: option.split)

lemma redis_call_simps [simp]:
  "redis_call (reliable now) body s = body now s"
  by (simp add: redis_call_def reliable_def)

lemma redis_call_Inr:
  "redis_call io body s = (Inr x, s') \<Longrightarrow> io_fault io = Answered \<and> body (io_now io) s = (Inr x, s')"
  by (auto simp: redis_call_def split: redis_fault.splits)

end
