(* ===== verification/Procs.thy ===== *)
theory Procs
  imports Errors
begin

text \<open>
  Code that reads and changes a state and may raise: a raise keeps the changes made before
  it. \<open>handleP\<close> is \<open>try ... except\<close>.
\<close>

type_synonym ('s, 'a) proc = "'s \<Rightarrow> (failure + 'a) \<times> 's"

definition returnP :: "'a \<Rightarrow> ('s, 'a) proc" where
  "returnP x s = (Inr x, s)"

definition raiseP :: "failure \<Rightarrow> ('s, 'a) proc" where
  "raiseP e s = (Inl e, s)"

definition liftP :: "failure + 'a \<Rightarrow> ('s, 'a) proc" where
  "liftP m s = (m, s)"

definition bindP :: "('s, 'a) proc \<Rightarrow> ('a \<Rightarrow> ('s, 'b) proc) \<Rightarrow> ('s, 'b) proc" where
  "bindP m f s = (case m s of (Inl e, s') \<Rightarrow> (Inl e, s') | (Inr x, s') \<Rightarrow> f x s')"

definition handleP :: "('s, 'a) proc \<Rightarrow> (failure \<Rightarrow> ('s, 'a) proc) \<Rightarrow> ('s, 'a) proc" where
  "handleP m h s = (case m s of (Inl e, s') \<Rightarrow> h e s' | (Inr x, s') \<Rightarrow> (Inr x, s'))"

text \<open>Run code that works on a part of the state.\<close>

definition onP :: "('s \<Rightarrow> 't) \<Rightarrow> ('t \<Rightarrow> 's \<Rightarrow> 's) \<Rightarrow> ('t, 'a) proc \<Rightarrow> ('s, 'a) proc" where
  "onP get put m s = (case m (get s) of (r, t) \<Rightarrow> (r, put t s))"

text \<open>A loop over a list, for its effects.\<close>

fun each :: "('a \<Rightarrow> ('s, unit) proc) \<Rightarrow> 'a list \<Rightarrow> ('s, unit) proc" where
  "each f [] = returnP ()"
| "each f (x # xs) = bindP (f x) (\<lambda>_. each f xs)"

named_theorems proc_simps "reading off the outcome of a procedure"

lemma proc_basic [proc_simps, simp]:
  "returnP x s = (Inr x, s)" "raiseP e s = (Inl e, s)" "liftP m s = (m, s)"
  by (simp_all add: returnP_def raiseP_def liftP_def)

lemma bindP_Inr [proc_simps]:
  "bindP m f s = (Inr y, s') \<longleftrightarrow> (\<exists>x s1. m s = (Inr x, s1) \<and> f x s1 = (Inr y, s'))"
  by (auto simp: bindP_def split: prod.splits sum.splits)

lemma bindP_Inl [proc_simps]:
  "bindP m f s = (Inl e, s') \<longleftrightarrow>
     m s = (Inl e, s') \<or> (\<exists>x s1. m s = (Inr x, s1) \<and> f x s1 = (Inl e, s'))"
  by (auto simp: bindP_def split: prod.splits sum.splits)

lemma handleP_Inr [proc_simps]:
  "handleP m h s = (Inr y, s') \<longleftrightarrow>
     m s = (Inr y, s') \<or> (\<exists>e s1. m s = (Inl e, s1) \<and> h e s1 = (Inr y, s'))"
  by (auto simp: handleP_def split: prod.splits sum.splits)

lemma bindP_step [simp]:
  "m s = (Inr x, s1) \<Longrightarrow> bindP m f s = f x s1" "m s = (Inl e, s1) \<Longrightarrow> bindP m f s = (Inl e, s1)"
  by (simp_all add: bindP_def)

lemma bindP_returnP [simp]: "bindP (returnP x) f = f x" "bindP (raiseP e) f = raiseP e"
  by (auto simp: bindP_def fun_eq_iff)

lemma handleP_step [simp]:
  "m s = (Inr x, s1) \<Longrightarrow> handleP m h s = (Inr x, s1)" "m s = (Inl e, s1) \<Longrightarrow> handleP m h s = h e s1"
  by (simp_all add: handleP_def)

lemma onP_simps [simp]: "m (get s) = (r, t) \<Longrightarrow> onP get put m s = (r, put t s)"
  by (simp add: onP_def)

lemma onP_eq [proc_simps]: "onP get put m s = (r, s') \<longleftrightarrow> (\<exists>t. m (get s) = (r, t) \<and> s' = put t s)"
  by (auto simp: onP_def split: prod.splits)

text \<open>
  \<open>yields m s Q\<close>: run on \<open>s\<close>, the procedure returns, and \<open>Q\<close> holds of its result and the
  state it leaves.
\<close>

definition yields :: "('s, 'a) proc \<Rightarrow> 's \<Rightarrow> ('a \<Rightarrow> 's \<Rightarrow> bool) \<Rightarrow> bool" where
  "yields m s Q \<longleftrightarrow> (case m s of (Inr x, s') \<Rightarrow> Q x s' | (Inl _, _) \<Rightarrow> False)"

lemma yields_iff: "yields m s Q \<longleftrightarrow> (\<exists>x s'. m s = (Inr x, s') \<and> Q x s')"
  by (auto simp: yields_def split: prod.splits sum.splits)

lemma yields_bind: "yields (bindP m f) s Q \<longleftrightarrow> yields m s (\<lambda>x s'. yields (f x) s' Q)"
  by (auto simp: yields_def bindP_def split: prod.splits sum.splits)

lemma yields_return [simp]: "yields (returnP x) s Q \<longleftrightarrow> Q x s"
  by (simp add: yields_def)

lemma yields_mono: "yields m s P \<Longrightarrow> (\<And>x s'. P x s' \<Longrightarrow> Q x s') \<Longrightarrow> yields m s Q"
  by (auto simp: yields_iff)

lemma yields_each:
  assumes "I xs s" "\<And>x ys t. I (x # ys) t \<Longrightarrow> yields (f x) t (\<lambda>_ u. I ys u)"
  shows "yields (each f xs) s (\<lambda>_ t. I [] t)"
  using assms(1)
proof (induction xs arbitrary: s)
  case (Cons x xs)
  then show ?case
    using assms(2) [of x xs s] by (auto simp: yields_bind elim: yields_mono)
qed simp

end
