(* ===== verification/Redis_Collections.thy ===== *)
theory Redis_Collections
  imports Redis Procs
begin

text \<open>
  The hash and sorted-set commands of the session scripts. A sorted set is its list of
  members with their scores, in the order of \<open>ZRANGE\<close>: by score, then by member. Scores are
  integers, which a double holds exactly up to 2^53. An empty collection is no key at all, and
  a new key has no expiry. A command on a key of another type is an error.
\<close>

subsection \<open>Hashes\<close>

definition r_hash :: "int \<Rightarrow> string \<Rightarrow> (redis, (string \<times> pystr) list \<times> int option) proc" where
  "r_hash now k s =
     (case r_lookup now k s of
        None \<Rightarrow> (Inr ([], None), s)
      | Some (R_Hash h, e) \<Rightarrow> (Inr (h, e), s)
      | Some _ \<Rightarrow> (Inl Redis_error, s))"

definition write_hash :: "string \<Rightarrow> (string \<times> pystr) list \<Rightarrow> int option \<Rightarrow> (redis, unit) proc" where
  "write_hash k h e s = (Inr (), if h = [] then r_del k s else r_put k (R_Hash h) e s)"

definition r_hget :: "int \<Rightarrow> string \<Rightarrow> string \<Rightarrow> (redis, pystr option) proc" where
  "r_hget now k f = bindP (r_hash now k) (\<lambda>(h, _). returnP (map_of h f))"

definition r_hset :: "int \<Rightarrow> string \<Rightarrow> string \<Rightarrow> pystr \<Rightarrow> (redis, unit) proc" where
  "r_hset now k f v = bindP (r_hash now k) (\<lambda>(h, e). write_hash k (AList.update f v h) e)"

text \<open>\<open>HSETNX\<close>: whether it set the field.\<close>

definition r_hsetnx :: "int \<Rightarrow> string \<Rightarrow> string \<Rightarrow> pystr \<Rightarrow> (redis, bool) proc" where
  "r_hsetnx now k f v =
     bindP (r_hget now k f) (\<lambda>present.
       if present = None then bindP (r_hset now k f v) (\<lambda>_. returnP True) else returnP False)"

definition r_hdel :: "int \<Rightarrow> string \<Rightarrow> string \<Rightarrow> (redis, unit) proc" where
  "r_hdel now k f = bindP (r_hash now k) (\<lambda>(h, e).
     if f \<in> fst ` set h then write_hash k (filter (\<lambda>x. fst x \<noteq> f) h) e else returnP ())"

subsection \<open>Sorted sets\<close>

definition r_zset :: "int \<Rightarrow> string \<Rightarrow> (redis, (string \<times> int) list \<times> int option) proc" where
  "r_zset now k s =
     (case r_lookup now k s of
        None \<Rightarrow> (Inr ([], None), s)
      | Some (R_Zset z, e) \<Rightarrow> (Inr (z, e), s)
      | Some _ \<Rightarrow> (Inl Redis_error, s))"

definition write_zset :: "string \<Rightarrow> (string \<times> int) list \<Rightarrow> int option \<Rightarrow> (redis, unit) proc" where
  "write_zset k z e s = (Inr (), if z = [] then r_del k s else r_put k (R_Zset z) e s)"

definition zset_before :: "string \<Rightarrow> int \<Rightarrow> string \<times> int \<Rightarrow> bool" where
  "zset_before m score x \<longleftrightarrow> snd x < score \<or> (snd x = score \<and> fst x < m)"

definition zset_add :: "string \<Rightarrow> int \<Rightarrow> (string \<times> int) list \<Rightarrow> (string \<times> int) list" where
  "zset_add m score z =
     (let rest = filter (\<lambda>x. fst x \<noteq> m) z
      in takeWhile (zset_before m score) rest @ (m, score) # dropWhile (zset_before m score) rest)"

definition r_zadd :: "int \<Rightarrow> string \<Rightarrow> int \<Rightarrow> string \<Rightarrow> (redis, unit) proc" where
  "r_zadd now k score m = bindP (r_zset now k) (\<lambda>(z, e). write_zset k (zset_add m score z) e)"

definition r_zrem :: "int \<Rightarrow> string \<Rightarrow> string \<Rightarrow> (redis, unit) proc" where
  "r_zrem now k m = bindP (r_zset now k) (\<lambda>(z, e).
     if m \<in> fst ` set z then write_zset k (filter (\<lambda>x. fst x \<noteq> m) z) e else returnP ())"

definition r_zscore :: "int \<Rightarrow> string \<Rightarrow> string \<Rightarrow> (redis, int option) proc" where
  "r_zscore now k m = bindP (r_zset now k) (\<lambda>(z, _). returnP (map_of z m))"

text \<open>\<open>ZRANGE key 0 -1\<close>, with the scores, and \<open>ZRANGEBYSCORE key -inf bound\<close>.\<close>

definition r_zrange :: "int \<Rightarrow> string \<Rightarrow> (redis, (string \<times> int) list) proc" where
  "r_zrange now k = bindP (r_zset now k) (\<lambda>(z, _). returnP z)"

definition r_zrangebyscore :: "int \<Rightarrow> string \<Rightarrow> int \<Rightarrow> (redis, string list) proc" where
  "r_zrangebyscore now k bound =
     bindP (r_zset now k) (\<lambda>(z, _). returnP (map fst (filter (\<lambda>x. snd x \<le> bound) z)))"

definition r_zcard :: "int \<Rightarrow> string \<Rightarrow> (redis, int) proc" where
  "r_zcard now k = bindP (r_zset now k) (\<lambda>(z, _). returnP (int (length z)))"

subsection \<open>Keys\<close>

definition updateP :: "('s \<Rightarrow> 's) \<Rightarrow> ('s, unit) proc" where
  "updateP f s = (Inr (), f s)"

definition readP :: "('s \<Rightarrow> 'a) \<Rightarrow> ('s, 'a) proc" where
  "readP f s = (Inr (f s), s)"

lemma updateP_readP [simp, proc_simps]: "updateP f s = (Inr (), f s)" "readP g s = (Inr (g s), s)"
  by (simp_all add: updateP_def readP_def)

end
