(* ===== verification/Json_Text.thy ===== *)
theory Json_Text
  imports Text_Codec "HOL-Library.Multiset"
begin

text \<open>
  \<open>json.loads\<close>, and \<open>json.dumps\<close> of an object in the order of its members. The reader is a
  recursive descent over the text; its fuel is the length of the text plus one, which is enough
  because every nested value takes at least one code point. Reading undoes \<^const>\<open>encode_json\<close>.
  A number with a fraction or an exponent is kept as its text.
\<close>

subsection \<open>Reading\<close>

definition is_json_space :: "codepoint \<Rightarrow> bool" where
  "is_json_space c \<longleftrightarrow> c = 32 \<or> c = 9 \<or> c = 10 \<or> c = 13"

definition skip_ws :: "pystr \<Rightarrow> pystr" where
  "skip_ws s = dropWhile is_json_space s"

definition hex_point :: "codepoint \<Rightarrow> int option" where
  "hex_point c =
     (if is_digit c then Some (c - 48)
      else if 97 \<le> c \<and> c \<le> 102 then Some (c - 87)
      else if 65 \<le> c \<and> c \<le> 70 then Some (c - 55) else None)"

fun hex4 :: "pystr \<Rightarrow> (int \<times> pystr) option" where
  "hex4 (a # b # c # d # s) =
     (case (hex_point a, hex_point b, hex_point c, hex_point d) of
        (Some i, Some j, Some k, Some l) \<Rightarrow> Some (((i * 16 + j) * 16 + k) * 16 + l, s)
      | _ \<Rightarrow> None)"
| "hex4 _ = None"

definition simple_escape :: "codepoint \<Rightarrow> codepoint option" where
  "simple_escape c =
     (if c = 34 \<or> c = 92 \<or> c = 47 then Some c
      else if c = 98 then Some 8 else if c = 102 then Some 12 else if c = 110 then Some 10
      else if c = 114 then Some 13 else if c = 116 then Some 9 else None)"

text \<open>One character of a string literal, or \<open>None\<close> at its end or where it is malformed.\<close>

definition read_char :: "pystr \<Rightarrow> (codepoint \<times> pystr) option" where
  "read_char s =
     (case s of
        [] \<Rightarrow> None
      | c # r \<Rightarrow>
          if c = 34 \<or> c < 32 then None
          else if c \<noteq> 92 then Some (c, r)
          else (case r of
              [] \<Rightarrow> None
            | e # t \<Rightarrow>
                if e \<noteq> 117 then map_option (\<lambda>x. (x, t)) (simple_escape e)
                else (case hex4 t of
                    None \<Rightarrow> None
                  | Some (h, u) \<Rightarrow>
                      if 55296 \<le> h \<and> h \<le> 56319 \<and> take 2 u = [92, 117]
                      then (case hex4 (drop 2 u) of
                          Some (l, v) \<Rightarrow>
                            if 56320 \<le> l \<and> l \<le> 57343
                            then Some (65536 + (h - 55296) * 1024 + (l - 56320), v) else Some (h, u)
                        | None \<Rightarrow> Some (h, u))
                      else Some (h, u))))"

fun read_string :: "nat \<Rightarrow> pystr \<Rightarrow> (pystr \<times> pystr) option" where
  "read_string 0 s = None"
| "read_string (Suc n) s =
     (case s of
        [] \<Rightarrow> None
      | c # r \<Rightarrow>
          if c = 34 then Some ([], r)
          else (case read_char s of
              None \<Rightarrow> None
            | Some (x, t) \<Rightarrow> map_option (\<lambda>(xs, u). (x # xs, u)) (read_string n t)))"

text \<open>A number: its longest prefix of the JSON grammar.\<close>

definition span_digits :: "pystr \<Rightarrow> pystr \<times> pystr" where
  "span_digits s = (takeWhile is_digit s, dropWhile is_digit s)"

definition read_fraction :: "pystr \<Rightarrow> pystr \<times> pystr" where
  "read_fraction s =
     (case s of
        c # r \<Rightarrow> if c = 46 \<and> fst (span_digits r) \<noteq> [] then (46 # fst (span_digits r), snd (span_digits r))
                 else ([], s)
      | [] \<Rightarrow> ([], s))"

definition read_exponent :: "pystr \<Rightarrow> pystr \<times> pystr" where
  "read_exponent s =
     (case s of
        c # r \<Rightarrow>
          if c = 101 \<or> c = 69
          then let sign = (case r of d # _ \<Rightarrow> if d = 43 \<or> d = 45 then [d] else [] | [] \<Rightarrow> []);
                   digits = span_digits (drop (length sign) r)
               in if fst digits \<noteq> [] then (c # sign @ fst digits, snd digits) else ([], s)
          else ([], s)
      | [] \<Rightarrow> ([], s))"

definition read_number :: "pystr \<Rightarrow> (json \<times> pystr) option" where
  "read_number s =
     (let sign = (case s of c # _ \<Rightarrow> if c = 45 then [c] else [] | [] \<Rightarrow> []);
          r = drop (length sign) s;
          digits = (case r of c # t \<Rightarrow> if c = 48 then ([c], t) else span_digits r | [] \<Rightarrow> ([], []))
      in if fst digits = [] then None
         else let frac = read_fraction (snd digits); expo = read_exponent (snd frac) in
           if fst frac = [] \<and> fst expo = []
           then map_option (\<lambda>n. (J_Int (if sign = [] then int n else - int n), snd digits))
                  (read_nat (fst digits))
           else Some (J_Float (map (\<lambda>c. char_of (nat c)) (sign @ fst digits @ fst frac @ fst expo)), snd expo))"

fun read_value :: "nat \<Rightarrow> pystr \<Rightarrow> (json \<times> pystr) option"
  and read_items :: "nat \<Rightarrow> pystr \<Rightarrow> (json list \<times> pystr) option"
  and read_members :: "nat \<Rightarrow> pystr \<Rightarrow> ((pystr \<times> json) list \<times> pystr) option" where
  "read_value 0 s = None"
| "read_value (Suc n) s =
     (case s of
        [] \<Rightarrow> None
      | c # r \<Rightarrow>
          if c = 34 then map_option (\<lambda>(t, u). (J_Str t, u)) (read_string (length r) r)
          else if c = 123 then
            (case skip_ws r of
               [] \<Rightarrow> None
             | d # t \<Rightarrow> if d = 125 then Some (J_Obj [], t)
                        else map_option (\<lambda>(ms, u). (J_Obj ms, u)) (read_members n (d # t)))
          else if c = 91 then
            (case skip_ws r of
               [] \<Rightarrow> None
             | d # t \<Rightarrow> if d = 93 then Some (J_List [], t)
                        else map_option (\<lambda>(xs, u). (J_List xs, u)) (read_items n (d # t)))
          else if take 4 s = lit ''null'' then Some (J_Null, drop 4 s)
          else if take 4 s = lit ''true'' then Some (J_Bool True, drop 4 s)
          else if take 5 s = lit ''false'' then Some (J_Bool False, drop 5 s)
          else if take 3 s = lit ''NaN'' then Some (J_Float ''NaN'', drop 3 s)
          else if take 8 s = lit ''Infinity'' then Some (J_Float ''Infinity'', drop 8 s)
          else if take 9 s = lit ''-Infinity'' then Some (J_Float ''-Infinity'', drop 9 s)
          else read_number s)"
| "read_items 0 s = None"
| "read_items (Suc n) s =
     (case read_value n s of
        None \<Rightarrow> None
      | Some (x, t) \<Rightarrow>
          (case skip_ws t of
             [] \<Rightarrow> None
           | c # u \<Rightarrow>
               if c = 93 then Some ([x], u)
               else if c = 44 then map_option (\<lambda>(xs, v). (x # xs, v)) (read_items n (skip_ws u))
               else None))"
| "read_members 0 s = None"
| "read_members (Suc n) s =
     (case s of
        [] \<Rightarrow> None
      | c # r \<Rightarrow>
          if c \<noteq> 34 then None
          else (case read_string (length r) r of
              None \<Rightarrow> None
            | Some (k, t) \<Rightarrow>
                (case skip_ws t of
                   [] \<Rightarrow> None
                 | c # u \<Rightarrow>
                     if c \<noteq> 58 then None
                     else (case read_value n (skip_ws u) of
                         None \<Rightarrow> None
                       | Some (x, v) \<Rightarrow>
                           (case skip_ws v of
                              [] \<Rightarrow> None
                            | c # w \<Rightarrow>
                                if c = 125 then Some ([(k, x)], w)
                                else if c = 44
                                then map_option (\<lambda>(ms, z). ((k, x) # ms, z)) (read_members n (skip_ws w))
                                else None)))))"

definition json_loads :: "pystr \<Rightarrow> json option" where
  "json_loads s =
     (case read_value (Suc (length s)) (skip_ws s) of
        None \<Rightarrow> None
      | Some (j, r) \<Rightarrow> if skip_ws r = [] then Some j else None)"

text \<open>A later member of an object replaces an earlier one of the same key.\<close>

definition json_get :: "(pystr \<times> json) list \<Rightarrow> pystr \<Rightarrow> json option" where
  "json_get members k = map_of (rev members) k"

definition dump_object :: "(pystr \<times> json) list \<Rightarrow> pystr" where
  "dump_object members =
     [123] @ join_with 44 (map (\<lambda>(k, v). encode_string k @ [58] @ encode_json v) members) @ [125]"

subsection \<open>Reading undoes printing\<close>

fun json_fuel :: "json \<Rightarrow> nat" where
  "json_fuel (J_List xs) = Suc (sum_list (map (\<lambda>x. Suc (json_fuel x)) xs))"
| "json_fuel (J_Obj ms) = Suc (sum_list (map (\<lambda>m. Suc (json_fuel (snd m))) ms))"
| "json_fuel _ = 1"

definition plain_text :: "pystr \<Rightarrow> bool" where
  "plain_text s \<longleftrightarrow> list_all (\<lambda>c. 0 \<le> c) s"

fun plain_json :: "json \<Rightarrow> bool" where
  "plain_json (J_Str s) = plain_text s"
| "plain_json (J_Float t) = False"
| "plain_json (J_List xs) = list_all plain_json xs"
| "plain_json (J_Obj ms) = list_all (\<lambda>m. plain_text (fst m) \<and> plain_json (snd m)) ms"
| "plain_json _ = True"

text \<open>\<open>sort_keys=True\<close> orders the members of every object.\<close>

fun sorted_json :: "json \<Rightarrow> json" where
  "sorted_json (J_List xs) = J_List (map sorted_json xs)"
| "sorted_json (J_Obj ms) = J_Obj (sort_key fst (map (\<lambda>m. (fst m, sorted_json (snd m))) ms))"
| "sorted_json j = j"

lemma hex_point_digit: "k < 16 \<Longrightarrow> hex_point (of_char (hex_digit k)) = Some (int k)"
proof -
  assume "k < 16"
  moreover have "list_all (\<lambda>k. hex_point (of_char (hex_digit k)) = Some (int k)) [0..<16]"
    by code_simp
  ultimately show ?thesis by (simp add: list_all_iff)
qed

lemma int_hex_split: "int n = int (n div 16) * 16 + int (n mod 16)"
  by (metis div_mult_mod_eq of_nat_add of_nat_mult of_nat_numeral)

lemma hex4_hex_of: "n < 65536 \<Longrightarrow> hex4 (lit (hex_of 4 n) @ r) = Some (int n, r)"
proof -
  assume n: "n < 65536"
  have four: "(4 :: nat) = Suc (Suc (Suc (Suc 0)))" by simp
  have "hex_of 4 n = [hex_digit (n div 16 div 16 div 16 mod 16), hex_digit (n div 16 div 16 mod 16),
      hex_digit (n div 16 mod 16), hex_digit (n mod 16)]"
    unfolding four hex_of.simps by simp
  moreover have "n div 16 div 16 div 16 mod 16 = n div 16 div 16 div 16"
    using n by (simp add: div_mult2_eq [symmetric])
  moreover have "n div 16 div 16 div 16 < 16"
    using n by (simp add: less_mult_imp_div_less)
  moreover have "((int (n div 16 div 16 div 16) * 16 + int (n div 16 div 16 mod 16)) * 16 + int (n div 16 mod 16)) * 16
      + int (n mod 16) = int n"
    by (simp only: int_hex_split [symmetric])
  ultimately show ?thesis
    by (simp add: lit_def hex_point_digit)
qed

lemma read_char_escape:
  assumes "0 \<le> c"
  shows "read_char (escape_char c @ r) = Some (c, r) \<and> escape_char c \<noteq> [] \<and> hd (escape_char c) \<noteq> 34"
proof (cases "c < 32 \<and> c \<notin> {8, 9, 10, 12, 13}")
  case True
  then have e: "escape_char c = 92 # 117 # lit (hex_of 4 (nat c))"
    by (simp add: escape_char_def)
  have "hex4 (lit (hex_of 4 (nat c)) @ r) = Some (c, r)"
    using hex4_hex_of [of "nat c" r] True assms by (simp add: nat_less_iff)
  then show ?thesis
    using True assms by (simp add: e read_char_def)
next
  case False
  then show ?thesis
    by (auto simp: escape_char_def read_char_def lit_def simple_escape_def)
qed

lemma read_string_escaped:
  "plain_text s \<Longrightarrow> length s < n \<Longrightarrow>
     read_string n (concat (map escape_char s) @ 34 # r) = Some (s, r)"
proof (induction s arbitrary: n)
  case Nil
  then show ?case by (cases n) simp_all
next
  case (Cons c s)
  then obtain m where n: "n = Suc m" by (cases n) auto
  have c: "0 \<le> c" "plain_text s" using Cons.prems by (simp_all add: plain_text_def)
  obtain d t where d: "escape_char c = d # t" "d \<noteq> 34"
    using read_char_escape [OF c(1)] by (cases "escape_char c") auto
  have "read_char (escape_char c @ concat (map escape_char s) @ 34 # r) = Some (c, concat (map escape_char s) @ 34 # r)"
    using read_char_escape [OF c(1)] by blast
  moreover have "read_string m (concat (map escape_char s) @ 34 # r) = Some (s, r)"
    using Cons.prems n c(2) by (intro Cons.IH) simp_all
  ultimately show ?case
    by (simp add: n d)
qed

lemma length_escaped: "plain_text s \<Longrightarrow> length s \<le> length (concat (map escape_char s))"
proof (induction s)
  case (Cons c s)
  then have "escape_char c \<noteq> []"
    using read_char_escape [of c] by (simp add: plain_text_def)
  with Cons show ?case
    by (cases "escape_char c") (auto simp: plain_text_def)
qed simp

lemma read_string_encoded:
  "plain_text s \<Longrightarrow> read_string (length (concat (map escape_char s) @ 34 # r))
     (concat (map escape_char s) @ 34 # r) = Some (s, r)"
  using length_escaped by (intro read_string_escaped) (auto simp: less_Suc_eq_le trans_le_add1)

text \<open>Numbers.\<close>

definition ends_number :: "pystr \<Rightarrow> bool" where
  "ends_number r \<longleftrightarrow> (case r of [] \<Rightarrow> True | c # _ \<Rightarrow> \<not> is_digit c \<and> c \<notin> {46, 101, 69})"

lemma decimal_digits: "list_all is_digit (decimal n)"
proof (induction n rule: decimal.induct)
  case (1 n)
  have "is_digit (48 + int k)" if "k < 10" for k
    using that by (simp add: is_digit_def)
  with 1 show ?case
    by (subst decimal.simps) simp
qed

lemma hd_decimal_zero: "hd (decimal n) = 48 \<Longrightarrow> n = 0"
proof (induction n rule: decimal.induct)
  case (1 n)
  show ?case
  proof (cases "n < 10")
    case True
    with 1(2) show ?thesis by (subst (asm) decimal.simps) simp
  next
    case False
    then have "decimal n = decimal (n div 10) @ [48 + int (n mod 10)]"
      by (subst decimal.simps) simp
    with 1 False show ?thesis by (simp add: hd_append)
  qed
qed

lemma read_number_encode_int:
  assumes "ends_number r"
  shows "read_number (encode_int i @ r) = Some (J_Int i, r)"
proof -
  have rest: "read_fraction r = ([], r)" "read_exponent r = ([], r)" "span_digits r = ([], r)"
    using assms by (cases r; simp add: read_fraction_def read_exponent_def span_digits_def ends_number_def)+
  have digits: "(case decimal n @ r of c # t \<Rightarrow> if c = 48 then ([c], t) else span_digits (decimal n @ r)
      | [] \<Rightarrow> ([], [])) = (decimal n, r)" for n
  proof -
    obtain c t where d: "decimal n = c # t" by (cases "decimal n") auto
    have "span_digits (decimal n @ r) = (decimal n, r)"
      using decimal_digits [of n] rest(3) by (simp add: span_digits_def list_all_iff)
    moreover have "t = []" if "c = 48"
    proof -
      have "n = 0" using hd_decimal_zero [of n] d that by simp
      then show ?thesis using d by (simp add: decimal.simps)
    qed
    ultimately show ?thesis using d by auto
  qed
  show ?thesis
  proof (cases "i < 0")
    case True
    obtain c t where d: "decimal (nat (- i)) = c # t" by (cases "decimal (nat (- i))") auto
    show ?thesis
      using True rest digits [of "nat (- i)"] read_nat_decimal [of "nat (- i)"]
      by (cases "c = 48") (auto simp: read_number_def encode_int_def Let_def d)
  next
    case False
    obtain c t where d: "decimal (nat i) = c # t" by (cases "decimal (nat i)") auto
    have "c \<noteq> 45" using hd_decimal [of "nat i"] by (auto simp: d is_digit_def)
    then show ?thesis
      using False rest digits [of "nat i"] read_nat_decimal [of "nat i"]
      by (cases "c = 48") (auto simp: read_number_def encode_int_def Let_def d)
  qed
qed


text \<open>Values. \<open>plain_json\<close> excludes floats and code points below zero, which no text has.\<close>

lemma skip_ws_head: "r \<noteq> [] \<Longrightarrow> \<not> is_json_space (hd r) \<Longrightarrow> skip_ws r = r"
  by (cases r) (simp_all add: skip_ws_def)

lemma ends_number_sep [simp]: "ends_number (44 # r)" "ends_number (93 # r)" "ends_number (125 # r)" "ends_number []"
  by (simp_all add: ends_number_def is_digit_def)

lemma skip_ws_sep [simp]: "skip_ws (44 # r) = 44 # r" "skip_ws (93 # r) = 93 # r" "skip_ws (125 # r) = 125 # r"
  "skip_ws (34 # r) = 34 # r" "skip_ws (58 # r) = 58 # r" "skip_ws [] = []"
  by (simp_all add: skip_ws_def is_json_space_def)


lemma sort_key_map: "sort_key k (map f xs) = map f (sort_key (\<lambda>x. k (f x)) xs)"
proof (induction xs)
  case (Cons x xs)
  have "insort_key k (f y) (map f ys) = map f (insort_key (\<lambda>x. k (f x)) y ys)" for y ys
    by (induction ys) auto
  with Cons show ?case by simp
qed simp

lemma encode_int_head:
  "encode_int i \<noteq> []" "\<exists>c. hd (encode_int i @ r) = c \<and> (c = 45 \<or> is_digit c)"
  using hd_decimal by (auto simp: encode_int_def)

lemma encode_head:
  "plain_json j \<Longrightarrow> encode_json j \<noteq> [] \<and> \<not> is_json_space (hd (encode_json j)) \<and> hd (encode_json j) \<notin> {93, 125}"
proof (cases j)
  case (J_Int i)
  then show ?thesis
    using encode_int_head(1) [of i] encode_int_head(2) [of i "[]"] by (auto simp: is_json_space_def is_digit_def)
qed (auto simp: lit_def is_json_space_def encode_string_def)

lemma skip_ws_encoded: "plain_json j \<Longrightarrow> skip_ws (encode_json j @ r) = encode_json j @ r"
  using encode_head [of j] by (intro skip_ws_head) simp_all

lemma read_value_int:
  assumes "ends_number r"
  shows "read_value (Suc n) (encode_int i @ r) = Some (J_Int i, r)"
proof (cases "i < 0")
  case True
  obtain d t where d: "decimal (nat (- i)) = d # t" by (cases "decimal (nat (- i))") auto
  then have "is_digit d" using hd_decimal [of "nat (- i)"] by simp
  then have "d \<noteq> 73" by (auto simp: is_digit_def)
  with True show ?thesis
    using read_number_encode_int [OF assms, of i] by (simp add: encode_int_def d lit_def)
next
  case False
  obtain d t where d: "decimal (nat i) = d # t" by (cases "decimal (nat i)") auto
  then have "is_digit d" using hd_decimal [of "nat i"] by simp
  then have "d \<notin> {34, 123, 91, 110, 116, 102, 78, 73, 45}" by (auto simp: is_digit_def)
  with False show ?thesis
    using read_number_encode_int [OF assms, of i] by (simp add: encode_int_def d lit_def)
qed

definition reads_back :: "json \<Rightarrow> bool" where
  "reads_back j \<longleftrightarrow> plain_json j \<and> (\<forall>n r. json_fuel j \<le> n \<longrightarrow> ends_number r \<longrightarrow>
     read_value n (encode_json j @ r) = Some (sorted_json j, r))"

lemma reads_backD:
  "reads_back j \<Longrightarrow> json_fuel j \<le> n \<Longrightarrow> ends_number r \<Longrightarrow>
     read_value n (encode_json j @ r) = Some (sorted_json j, r)"
  "reads_back j \<Longrightarrow> skip_ws (encode_json j @ r) = encode_json j @ r"
  by (simp_all add: reads_back_def skip_ws_encoded)

lemma read_items_encoded:
  "list_all reads_back xs \<Longrightarrow> xs \<noteq> [] \<Longrightarrow> sum_list (map (\<lambda>x. Suc (json_fuel x)) xs) \<le> n \<Longrightarrow>
     read_items n (join_with 44 (map encode_json xs) @ 93 # r) = Some (map sorted_json xs, r)"
proof (induction xs arbitrary: n)
  case (Cons x xs)
  then obtain m where n: "n = Suc m" by (cases n) auto
  have m: "json_fuel x \<le> m" "sum_list (map (\<lambda>x. Suc (json_fuel x)) xs) \<le> m"
    using Cons.prems(3) by (simp_all add: n)
  have x: "reads_back x" using Cons.prems by simp
  show ?case
  proof (cases xs)
    case Nil
    then show ?thesis using reads_backD(1) [OF x m(1)] by (simp add: n)
  next
    case (Cons y ys)
    moreover have "join_with 44 (map encode_json (x # xs)) @ 93 # r =
        encode_json x @ 44 # join_with 44 (map encode_json xs) @ 93 # r"
      by (simp add: Cons)
    moreover have "read_items m (join_with 44 (map encode_json xs) @ 93 # r) = Some (map sorted_json xs, r)"
      using Cons.IH Cons.prems m(2) Cons by simp
    moreover have "skip_ws (join_with 44 (map encode_json xs) @ 93 # r) = join_with 44 (map encode_json xs) @ 93 # r"
      using Cons.prems Cons reads_backD(2) [of y] by (cases ys) simp_all
    ultimately show ?thesis
      using reads_backD(1) [OF x m(1)] by (simp add: n del: join_with.simps)
  qed
qed simp


definition member_text :: "pystr \<times> json \<Rightarrow> pystr" where
  "member_text m = encode_string (fst m) @ [58] @ encode_json (snd m)"

lemma encode_json_object:
  "encode_json (J_Obj ms) = 123 # join_with 44 (map member_text (sort_key fst ms)) @ [125]"
proof -
  have "map (\<lambda>(k, v). (k, encode_string k @ [58] @ encode_json v)) ms = map (\<lambda>m. (fst m, member_text m)) ms"
    by (simp add: member_text_def case_prod_unfold)
  then show ?thesis
    unfolding encode_json.simps by (simp only: sort_key_map map_map comp_def fst_conv snd_conv) simp
qed

lemma encode_string_append: "encode_string k @ t = 34 # concat (map escape_char k) @ 34 # t"
  by (simp add: encode_string_def)

lemma read_member_encoded:
  assumes "plain_text (fst m)" "reads_back (snd m)"
  shows "read_members (Suc n) (member_text m @ t) =
    (case read_value n (encode_json (snd m) @ t) of
       None \<Rightarrow> None
     | Some (x, v) \<Rightarrow>
         (case skip_ws v of
            [] \<Rightarrow> None
          | c # w \<Rightarrow>
              if c = 125 then Some ([(fst m, x)], w)
              else if c = 44 then map_option (\<lambda>(ms, z). ((fst m, x) # ms, z)) (read_members n (skip_ws w))
              else None))"
  using assms reads_backD(2) [of "snd m" t]
    read_string_encoded [of "fst m" "58 # encode_json (snd m) @ t"]
  by (simp add: member_text_def encode_string_append)

lemma read_members_encoded:
  "list_all (\<lambda>m. plain_text (fst m) \<and> reads_back (snd m)) ms \<Longrightarrow> ms \<noteq> [] \<Longrightarrow>
     sum_list (map (\<lambda>m. Suc (json_fuel (snd m))) ms) \<le> n \<Longrightarrow>
     read_members n (join_with 44 (map member_text ms) @ 125 # r)
       = Some (map (\<lambda>m. (fst m, sorted_json (snd m))) ms, r)"
proof (induction ms arbitrary: n)
  case (Cons x xs)
  then obtain m where n: "n = Suc m" by (cases n) auto
  have m: "json_fuel (snd x) \<le> m" "sum_list (map (\<lambda>m. Suc (json_fuel (snd m))) xs) \<le> m"
    using Cons.prems(3) by (simp_all add: n)
  have x: "plain_text (fst x)" "reads_back (snd x)" using Cons.prems by simp_all
  show ?case
  proof (cases xs)
    case Nil
    then show ?thesis
      using reads_backD(1) [OF x(2) m(1)] read_member_encoded [OF x]
      by (simp add: n del: read_members.simps)
  next
    case (Cons y ys)
    moreover have "join_with 44 (map member_text (x # xs)) @ 125 # r =
        member_text x @ 44 # join_with 44 (map member_text xs) @ 125 # r"
      by (simp add: Cons)
    moreover have "read_members m (join_with 44 (map member_text xs) @ 125 # r)
        = Some (map (\<lambda>m. (fst m, sorted_json (snd m))) xs, r)"
      using Cons.IH Cons.prems m(2) Cons by simp
    moreover have "skip_ws (join_with 44 (map member_text xs) @ 125 # r) = join_with 44 (map member_text xs) @ 125 # r"
      using Cons by (cases ys) (simp_all add: member_text_def encode_string_append)
    ultimately show ?thesis
      using reads_backD(1) [OF x(2) m(1)] read_member_encoded [OF x]
      by (simp add: n del: join_with.simps read_members.simps)
  qed
qed simp

lemma sum_list_sort_key: "sum_list (map f (sort_key k xs)) = (sum_list (map f xs) :: nat)"
  by (metis mset_map mset_sort sum_mset_sum_list)

lemma json_fuel_pos: "0 < json_fuel j"
  by (cases j) simp_all

lemma leaf_reads_back:
  assumes "plain_json j" "json_fuel j = 1"
    "\<And>n r. ends_number r \<Longrightarrow> read_value (Suc n) (encode_json j @ r) = Some (sorted_json j, r)"
  shows "reads_back j"
proof -
  have "read_value n (encode_json j @ r) = Some (sorted_json j, r)" if "1 \<le> n" "ends_number r" for n r
    using assms(3) [of r "n - 1"] that by simp
  with assms show ?thesis by (simp add: reads_back_def)
qed

lemma plain_reads_back: "plain_json j \<Longrightarrow> reads_back j"
proof (induction j rule: json_fuel.induct)
  case (1 xs)
  then have xs: "list_all reads_back xs" by (simp add: list_all_iff)
  have "read_value n (encode_json (J_List xs) @ r) = Some (sorted_json (J_List xs), r)"
    if fuel: "json_fuel (J_List xs) \<le> n" for n r
  proof -
    obtain m where n: "n = Suc m" using fuel by (cases n) auto
    show ?thesis
    proof (cases xs)
      case (Cons y ys)
      have "skip_ws (join_with 44 (map encode_json xs) @ 93 # r) = join_with 44 (map encode_json xs) @ 93 # r"
        using xs Cons reads_backD(2) [of y] by (cases ys) simp_all
      moreover obtain d t where d: "join_with 44 (map encode_json xs) @ 93 # r = d # t" "d \<noteq> 93"
        using xs Cons encode_head [of y] by (cases "encode_json y"; cases ys) (auto simp: reads_back_def)
      moreover have "read_items m (d # t) = Some (map sorted_json xs, r)"
        using read_items_encoded [OF xs, of m r] fuel by (simp add: n Cons flip: d(1))
      ultimately show ?thesis by (simp add: n)
    qed (simp add: n)
  qed
  with 1 show ?case by (simp add: reads_back_def)
next
  case (2 ms)
  let ?ms = "sort_key fst ms"
  from 2 have ms: "list_all (\<lambda>m. plain_text (fst m) \<and> reads_back (snd m)) ?ms"
    by (simp add: list_all_iff)
  have "read_value n (encode_json (J_Obj ms) @ r) = Some (sorted_json (J_Obj ms), r)"
    if fuel: "json_fuel (J_Obj ms) \<le> n" for n r
  proof -
    obtain m where n: "n = Suc m" using fuel by (cases n) auto
    have inner: "sum_list (map (\<lambda>m. Suc (json_fuel (snd m))) ?ms) \<le> m"
      using fuel by (simp add: n sum_list_sort_key)
    show ?thesis
    proof (cases ?ms)
      case Nil
      then have "ms = []" by (metis length_0_conv length_sort)
      then show ?thesis by (simp add: n)
    next
      case (Cons y ys)
      have "skip_ws (join_with 44 (map member_text ?ms) @ 125 # r) = join_with 44 (map member_text ?ms) @ 125 # r"
        using Cons by (cases ys) (simp_all add: member_text_def encode_string_append)
      moreover obtain d t where d: "join_with 44 (map member_text ?ms) @ 125 # r = d # t" "d \<noteq> 125"
        using Cons by (cases ys) (auto simp: member_text_def encode_string_append)
      moreover have "read_members m (d # t) = Some (map (\<lambda>m. (fst m, sorted_json (snd m))) ?ms, r)"
        using read_members_encoded [OF ms _ inner, of r] by (simp add: Cons flip: d(1))
      ultimately show ?thesis
        by (simp add: n encode_json_object sort_key_map comp_def del: encode_json.simps(7))
    qed
  qed
  with 2 show ?case by (simp add: reads_back_def)
next
  case "3_1"
  show ?case by (rule leaf_reads_back) (simp_all add: lit_def)
next
  case "3_2"
  show ?case by (rule leaf_reads_back) (simp_all add: lit_def)
next
  case "3_3"
  show ?case by (rule leaf_reads_back) (simp_all add: read_value_int del: read_value.simps)
next
  case "3_5"
  then show ?case
    by (intro leaf_reads_back) (simp_all add: encode_string_append read_string_encoded del: read_string.simps length_append list.size(4))
qed simp_all

lemma join_with_length: "length (join_with c (s # ss)) =
    length s + (if ss = [] then 0 else Suc (length (join_with c ss)))"
  by (cases ss) simp_all

lemma fuel_of_join:
  assumes "\<And>y. y \<in> set ys \<Longrightarrow> f y \<le> length (g y)"
  shows "sum_list (map (\<lambda>y. Suc (f y)) ys) \<le> Suc (length (join_with c (map g ys)))"
  using assms
proof (induction ys)
  case (Cons y ys)
  then have "f y \<le> length (g y)" "sum_list (map (\<lambda>y. Suc (f y)) ys) \<le> Suc (length (join_with c (map g ys)))"
    by simp_all
  then show ?case
    by (simp add: join_with_length del: join_with.simps)
qed simp

lemma json_fuel_bound: "plain_json j \<Longrightarrow> json_fuel j \<le> length (encode_json j)"
proof (induction j rule: json_fuel.induct)
  case (1 xs)
  then show ?case
    using fuel_of_join [of xs json_fuel encode_json 44] by (simp add: list_all_iff)
next
  case (2 ms)
  have "json_fuel (snd m) \<le> length (member_text m)" if "m \<in> set ms" for m
    using 2 that by (fastforce simp: member_text_def list_all_iff)
  then show ?case
    using fuel_of_join [of "sort_key fst ms" "\<lambda>m. json_fuel (snd m)" member_text 44]
    by (simp add: encode_json_object sum_list_sort_key del: encode_json.simps(7))
qed (simp_all add: lit_def encode_string_def Suc_leI encode_int_head)

lemma json_loads_encode:
  assumes "plain_json j"
  shows "json_loads (encode_json j) = Some (sorted_json j)"
proof -
  have "read_value (Suc (length (encode_json j))) (encode_json j @ []) = Some (sorted_json j, [])"
    using reads_backD(1) [OF plain_reads_back [OF assms], of _ "[]"] json_fuel_bound [OF assms]
    by (simp del: read_value.simps)
  then show ?thesis
    using skip_ws_encoded [OF assms, of "[]"] by (simp add: json_loads_def del: read_value.simps)
qed

end
