(* ===== verification/Config.thy ===== *)
theory Config
  imports Text_Codec
begin

text \<open>
  The settings of \<open>app/core/config.py\<close> and the validators that run when they are built.
  A setting is the value the environment gives for it; \<open>validate_settings\<close> is the
  construction of \<open>Settings\<close>, which either raises or returns the normalized settings.
  What the validators ask of the platform (how \<open>urllib\<close> splits a URL, whether a path is a
  file) is the argument \<open>platform\<close>. A float is finite, counted in nanoseconds, or not finite.
\<close>

subsection \<open>What the platform answers\<close>

record split_url =
  url_scheme :: pystr
  url_hostname :: "pystr option"
  url_port :: "failure + int option"
  url_query :: pystr
  url_fragment :: pystr
  url_path :: pystr

record platform =
  pf_unicode :: unicode_db
  pf_urlsplit :: "pystr \<Rightarrow> failure + split_url"
  pf_upper :: "pystr \<Rightarrow> pystr"
  pf_is_file :: "pystr \<Rightarrow> bool"
  pf_isdigit :: "codepoint \<Rightarrow> bool"
  pf_ip_compressed :: "pystr \<Rightarrow> pystr option"
  pf_sha256 :: "pystr \<Rightarrow> string"
  pf_hmac_sha256 :: "int list \<Rightarrow> int list \<Rightarrow> string"

datatype float_value = Finite (nanoseconds: int) | Not_finite

definition positive :: "float_value \<Rightarrow> bool" where
  "positive x \<longleftrightarrow> (case x of Finite n \<Rightarrow> 0 < n | Not_finite \<Rightarrow> False)"

definition float_within :: "int \<Rightarrow> int \<Rightarrow> float_value \<Rightarrow> bool" where
  "float_within lo hi x \<longleftrightarrow>
     (case x of Finite n \<Rightarrow> lo * 1000000000 \<le> n \<and> n \<le> hi * 1000000000 | Not_finite \<Rightarrow> False)"

subsection \<open>Text helpers\<close>

definition starts_with :: "pystr \<Rightarrow> pystr \<Rightarrow> bool" where
  "starts_with s p \<longleftrightarrow> take (length p) s = p"

text \<open>General category Cc: the C0 and C1 controls.\<close>

definition is_control :: "codepoint \<Rightarrow> bool" where
  "is_control c \<longleftrightarrow> (0 \<le> c \<and> c < 32) \<or> (127 \<le> c \<and> c < 160)"

text \<open>\<open>text.find(sub, start)\<close>: the first position from \<open>start\<close> on.\<close>

definition find_from :: "pystr \<Rightarrow> pystr \<Rightarrow> nat \<Rightarrow> nat option" where
  "find_from sub text start =
     find (\<lambda>i. take (length sub) (drop i text) = sub) [start..<length text + 1 - length sub]"

definition is_repeated_pattern :: "pystr \<Rightarrow> bool" where
  "is_repeated_pattern value =
     (if value = [] then False else find_from value (value @ value) 1 \<noteq> Some (length value))"

definition optional :: "('a \<Rightarrow> failure + 'b) \<Rightarrow> 'a option \<Rightarrow> failure + 'b option" where
  "optional f x = (case x of None \<Rightarrow> Inr None | Some v \<Rightarrow> bindE (f v) (\<lambda>y. Inr (Some y)))"

abbreviation reject :: "bool \<Rightarrow> string \<Rightarrow> failure + unit" where
  "reject b msg \<equiv> raise_unless (\<not> b) (Value_error msg)"

subsection \<open>Redis endpoints\<close>

record redis_node =
  nd_host :: pystr
  nd_port :: int

datatype redis_mode = Standalone | Sentinel | Cluster

record redis_endpoint =
  ep_mode :: redis_mode
  ep_url :: "pystr option"
  ep_nodes :: "redis_node list"
  ep_username :: "pystr option"
  ep_password :: "pystr option"
  ep_db :: int
  ep_tls :: bool
  ep_ca_file :: "pystr option"
  ep_cert_file :: "pystr option"
  ep_key_file :: "pystr option"
  ep_sentinel_master :: "pystr option"
  ep_sentinel_username :: "pystr option"
  ep_sentinel_password :: "pystr option"
  ep_sentinel_tls :: bool
  ep_sentinel_ca_file :: "pystr option"
  ep_sentinel_cert_file :: "pystr option"
  ep_sentinel_key_file :: "pystr option"

definition default_endpoint :: redis_endpoint where
  "default_endpoint =
     \<lparr>ep_mode = Standalone, ep_url = None, ep_nodes = [], ep_username = None, ep_password = None,
      ep_db = 0, ep_tls = False, ep_ca_file = None, ep_cert_file = None, ep_key_file = None,
      ep_sentinel_master = None, ep_sentinel_username = None, ep_sentinel_password = None,
      ep_sentinel_tls = False, ep_sentinel_ca_file = None, ep_sentinel_cert_file = None,
      ep_sentinel_key_file = None\<rparr>"

definition require_host_without_credentials :: "pystr \<Rightarrow> failure + unit" where
  "require_host_without_credentials value =
     reject (list_ex (\<lambda>c. is_space c \<or> chr_in ''/@?#[]'' c \<or> c < 32) value)
       ''node host must contain only a hostname or unbracketed IP''"

definition validate_redis_node :: "redis_node \<Rightarrow> failure + unit" where
  "validate_redis_node nd =
     bindE (reject (\<not> (1 \<le> length (nd_host nd) \<and> length (nd_host nd) \<le> 253)) ''host length'') (\<lambda>_.
     bindE (reject (\<not> (1 \<le> nd_port nd \<and> nd_port nd \<le> 65535)) ''port range'') (\<lambda>_.
       require_host_without_credentials (nd_host nd)))"

definition bounded_redis_url :: "platform \<Rightarrow> pystr \<Rightarrow> bool" where
  "bounded_redis_url pf value \<longleftrightarrow>
     (case pf_urlsplit pf value of
        Inl _ \<Rightarrow> False
      | Inr u \<Rightarrow>
          url_scheme u \<in> {lit ''redis'', lit ''rediss''} \<and>
          (case url_hostname u of None \<Rightarrow> False | Some h \<Rightarrow> h \<noteq> []) \<and>
          (case url_port u of Inl _ \<Rightarrow> False | Inr None \<Rightarrow> True | Inr (Some p) \<Rightarrow> 1 \<le> p \<and> p \<le> 65535) \<and>
          url_query u = [] \<and> url_fragment u = [] \<and>
          (url_path u = [] \<or> url_path u = [47] \<or>
           (tl (url_path u) \<noteq> [] \<and> list_all (pf_isdigit pf) (tl (url_path u)))) \<and>
          \<not> list_ex (\<lambda>c. is_space c \<or> c < 32) value)"

definition require_bounded_redis_url :: "platform \<Rightarrow> pystr option \<Rightarrow> failure + pystr option" where
  "require_bounded_redis_url pf url =
     (case url of None \<Rightarrow> Inr None
      | Some value \<Rightarrow>
          if bounded_redis_url pf value then Inr (Some value)
          else Inl (Value_error ''Redis URL must use redis or rediss with a host and optional /db''))"

text \<open>The TLS files of one connection: certificate and key together, and only with TLS.\<close>

definition validate_tls_files ::
    "platform \<Rightarrow> bool \<Rightarrow> pystr option \<Rightarrow> pystr option \<Rightarrow> pystr option \<Rightarrow> failure + unit" where
  "validate_tls_files pf enabled ca_file cert_file key_file =
     bindE (reject ((cert_file = None) \<noteq> (key_file = None))
              ''TLS cert_file and key_file must be configured together'') (\<lambda>_.
     bindE (mapE (\<lambda>path. case path of None \<Rightarrow> Inr ()
         | Some p \<Rightarrow>
             bindE (reject (\<not> enabled) ''TLS file settings require TLS to be enabled'') (\<lambda>_.
               reject (\<not> pf_is_file pf p) ''Redis TLS certificate/key file does not exist''))
         [ca_file, cert_file, key_file]) (\<lambda>_. Inr ()))"

definition sentinel_settings_given :: "redis_endpoint \<Rightarrow> bool" where
  "sentinel_settings_given e \<longleftrightarrow>
     ep_sentinel_master e \<noteq> None \<or> ep_sentinel_username e \<noteq> None \<or> ep_sentinel_password e \<noteq> None \<or>
     ep_sentinel_tls e \<or> ep_sentinel_ca_file e \<noteq> None \<or> ep_sentinel_cert_file e \<noteq> None \<or>
     ep_sentinel_key_file e \<noteq> None"

definition data_tls :: "redis_endpoint \<Rightarrow> bool" where
  "data_tls e \<longleftrightarrow>
     ep_tls e \<or> (case ep_url e of None \<Rightarrow> False | Some u \<Rightarrow> starts_with u (lit ''rediss://''))"

definition url_given :: "redis_endpoint \<Rightarrow> bool" where
  "url_given e \<longleftrightarrow> (case ep_url e of None \<Rightarrow> False | Some u \<Rightarrow> u \<noteq> [])"

definition require_complete_endpoint :: "platform \<Rightarrow> redis_endpoint \<Rightarrow> failure + unit" where
  "require_complete_endpoint pf e =
     bindE (if ep_mode e = Standalone
       then
         bindE (reject (\<not> url_given e \<or> ep_nodes e \<noteq> [])
                  ''standalone requires url and does not accept nodes'') (\<lambda>_.
         bindE (reject (ep_username e \<noteq> None \<or> ep_password e \<noteq> None \<or> ep_db e \<noteq> 0)
                  ''standalone credentials and db belong in url'') (\<lambda>_.
           reject (ep_tls e \<and> \<not> starts_with (the (ep_url e)) (lit ''rediss://''))
             ''standalone TLS requires a rediss URL''))
       else
         bindE (reject (ep_url e \<noteq> None \<or> ep_nodes e = [])
                  ''sentinel and cluster require nodes instead of url'') (\<lambda>_.
           reject (\<not> distinct (map (\<lambda>n. (nd_host n, nd_port n)) (ep_nodes e)))
             ''Redis discovery nodes must not contain duplicates'')) (\<lambda>_.
     bindE (if ep_mode e = Sentinel
       then reject (ep_sentinel_master e = None) ''sentinel requires sentinel_master''
       else reject (sentinel_settings_given e) ''sentinel settings require sentinel mode'') (\<lambda>_.
     bindE (reject (ep_mode e = Cluster \<and> ep_db e \<noteq> 0) ''Redis Cluster supports only db 0'') (\<lambda>_.
     bindE (validate_tls_files pf (data_tls e) (ep_ca_file e) (ep_cert_file e) (ep_key_file e)) (\<lambda>_.
       validate_tls_files pf (ep_sentinel_tls e) (ep_sentinel_ca_file e) (ep_sentinel_cert_file e)
         (ep_sentinel_key_file e)))))"

definition SENTINEL_MASTER_RE :: rx where
  "SENTINEL_MASTER_RE = Plus (Cls (\<lambda>c. is_alnum_ascii c \<or> chr_in ''_.-'' c))"

definition validate_redis_endpoint :: "platform \<Rightarrow> redis_endpoint \<Rightarrow> failure + redis_endpoint" where
  "validate_redis_endpoint pf e =
     bindE (require_bounded_redis_url pf (ep_url e)) (\<lambda>_.
     bindE (reject (length (ep_nodes e) > 32) ''too many nodes'') (\<lambda>_.
     bindE (mapE validate_redis_node (ep_nodes e)) (\<lambda>_.
     bindE (reject (ep_username e = Some [] \<or> ep_sentinel_username e = Some []) ''empty username'') (\<lambda>_.
     bindE (reject (ep_db e < 0) ''Redis db must be a nonnegative integer'') (\<lambda>_.
     bindE (reject (case ep_sentinel_master e of None \<Rightarrow> False
                    | Some m \<Rightarrow> \<not> fullmatch SENTINEL_MASTER_RE m) ''sentinel_master pattern'') (\<lambda>_.
     bindE (require_complete_endpoint pf e) (\<lambda>_. Inr e)))))))"


subsection \<open>Settings\<close>

record settings =
  s_database_url :: pystr
  s_database_pool_size :: int
  s_database_max_overflow :: int
  s_database_pool_timeout_seconds :: float_value
  s_database_connect_timeout_seconds :: float_value
  s_database_command_timeout_seconds :: float_value
  s_database_statement_timeout_ms :: int
  s_database_lock_timeout_ms :: int
  s_redis_url :: "pystr option"
  s_redis_connection :: "redis_endpoint option"
  s_app_environment :: pystr
  s_service_name :: pystr
  s_service_version :: pystr
  s_log_level :: pystr
  s_log_include_exception_details :: bool
  s_log_queue_capacity :: int
  s_log_shutdown_timeout_seconds :: float_value
  s_jwt_secret :: pystr
  s_rate_limit_hmac_key :: pystr
  s_max_active_sessions_per_user :: int
  s_admin_password_reset_temporary :: bool
  s_jwt_issuer :: "pystr option"
  s_jwt_audience :: "pystr option"
  s_jwt_access_token_ttl_seconds :: int
  s_rate_limit_enabled :: bool
  s_rate_limit_redis_url :: "pystr option"
  s_rate_limit_redis_connection :: "redis_endpoint option"
  s_rate_limit_namespace :: pystr
  s_rate_limit_captcha_create_per_five_minutes :: int
  s_rate_limit_authenticated_read_per_minute :: int
  s_rate_limit_management_read_per_minute :: int
  s_rate_limit_ordinary_write_per_minute :: int
  s_rate_limit_authorization_write_per_minute :: int
  s_rate_limit_login_ip_per_five_minutes :: int
  s_rate_limit_registration_ip_per_hour :: int
  s_rate_limit_temporary_complete_ip_per_five_minutes :: int
  s_redis_connect_timeout_seconds :: float_value
  s_redis_socket_timeout_seconds :: float_value
  s_redis_max_connections :: int
  s_readiness_timeout_seconds :: float_value
  s_sql_echo :: bool

definition APP_ENVIRONMENT_RE :: rx where
  "APP_ENVIRONMENT_RE = Cat (Cls (\<lambda>c. is_lower c \<or> is_digit c))
     (Upto 31 (Cls (\<lambda>c. is_lower c \<or> is_digit c \<or> chr_in ''_-'' c)))"

definition SERVICE_NAME_RE :: rx where
  "SERVICE_NAME_RE = Cat (Cls (\<lambda>c. is_lower c \<or> is_digit c))
     (Upto 79 (Cls (\<lambda>c. is_lower c \<or> is_digit c \<or> chr_in ''._-'' c)))"

definition RATE_LIMIT_NAMESPACE_RE :: rx where
  "RATE_LIMIT_NAMESPACE_RE = Cat (Cls (\<lambda>c. is_lower c \<or> is_digit c))
     (Upto 47 (Cls (\<lambda>c. is_lower c \<or> is_digit c \<or> chr_in ''_-'' c)))"

definition PUBLIC_SECURITY_SECRET_PLACEHOLDERS :: "pystr list" where
  "PUBLIC_SECURITY_SECRET_PLACEHOLDERS = map lit
     [''change-me-change-me-change-me-change-me'',
      ''replace-this-with-at-least-32-random-bytes'',
      ''super-secret-super-secret-super-secret'',
      ''your-secret-key-your-secret-key-your-secret-key'',
      ''replace-this-with-a-rate-limit-hmac-secret'',
      ''replace-this-with-a-verification-hmac-secret'']"

definition MINIMUM_JWT_SECRET_UNIQUE_CHARACTERS :: nat where
  "MINIMUM_JWT_SECRET_UNIQUE_CHARACTERS = 8"

definition MAXIMUM_SECURITY_SECRET_UTF8_BYTES :: int where
  "MAXIMUM_SECURITY_SECRET_UTF8_BYTES = 4096"

definition MAX_OPTIONAL_JWT_SCOPE_CHARACTERS :: nat where
  "MAX_OPTIONAL_JWT_SCOPE_CHARACTERS = 256"

definition RATE_LIMIT_DISABLE_ENVIRONMENTS :: "pystr list" where
  "RATE_LIMIT_DISABLE_ENVIRONMENTS =
     map lit [''dev'', ''development'', ''local'', ''test'', ''testing'']"

definition validate_security_secret :: "platform \<Rightarrow> pystr \<Rightarrow> failure + pystr" where
  "validate_security_secret pf secret =
     (case utf8_length secret of
        Inl _ \<Rightarrow> Inl (Value_error ''secret must contain valid UTF-8 text'')
      | Inr n \<Rightarrow>
          let normalized = uc_casefold (pf_unicode pf) (strip secret) in
          if normalized \<in> set PUBLIC_SECURITY_SECRET_PLACEHOLDERS
          then Inl (Value_error ''secret must not use the public example placeholder'')
          else if n < 32 then Inl (Value_error ''secret must contain at least 32 UTF-8 bytes'')
          else if n > MAXIMUM_SECURITY_SECRET_UTF8_BYTES
          then Inl (Value_error ''secret must contain at most 4096 UTF-8 bytes'')
          else if normalized = [] \<or> secret \<noteq> strip secret
              \<or> list_ex (\<lambda>c. is_space c \<or> is_control c) secret
              \<or> length (remdups secret) < MINIMUM_JWT_SECRET_UNIQUE_CHARACTERS
              \<or> is_repeated_pattern secret
          then Inl (Value_error ''secret is obviously weak'')
          else Inr secret)"

definition normalize_optional_token_scope :: "pystr \<Rightarrow> failure + pystr" where
  "normalize_optional_token_scope value =
     (let normalized = strip value in
      if normalized = [] then Inl (Value_error ''optional JWT issuer and audience must not be blank'')
      else if \<not> ascii normalized \<or> list_ex (\<lambda>c. is_space c \<or> \<not> (32 \<le> c \<and> c \<le> 126)) normalized
      then Inl (Value_error ''optional JWT issuer and audience must use visible ASCII characters'')
      else if length normalized > MAX_OPTIONAL_JWT_SCOPE_CHARACTERS
      then Inl (Value_error ''optional JWT issuer and audience must contain at most 256 characters'')
      else Inr normalized)"

definition normalize_log_level :: "platform \<Rightarrow> pystr \<Rightarrow> failure + pystr" where
  "normalize_log_level pf value =
     (let normalized = pf_upper pf (strip value) in
      if normalized \<notin> set (map lit [''DEBUG'', ''INFO'', ''WARNING'', ''ERROR'', ''CRITICAL''])
      then Inl (Value_error ''log_level must be a standard Python logging level'')
      else Inr normalized)"

definition require_postgresql_asyncpg :: "pystr \<Rightarrow> failure + unit" where
  "require_postgresql_asyncpg value =
     reject (\<not> starts_with value (lit ''postgresql+asyncpg://'')) ''database_url must use postgresql+asyncpg''"

definition require_redis_url :: "platform \<Rightarrow> pystr option \<Rightarrow> failure + pystr option" where
  "require_redis_url pf url =
     (case url of None \<Rightarrow> Inr None
      | Some value \<Rightarrow>
          if \<not> (starts_with value (lit ''redis://'') \<or> starts_with value (lit ''rediss://''))
          then Inl (Value_error ''must use redis or rediss'')
          else require_bounded_redis_url pf (Some value))"


text \<open>The bounds and patterns declared with the fields.\<close>

definition field_bounds_ok :: "settings \<Rightarrow> bool" where
  "field_bounds_ok s \<longleftrightarrow>
     1 \<le> s_database_pool_size s \<and> 0 \<le> s_database_max_overflow s \<and>
     positive (s_database_pool_timeout_seconds s) \<and>
     positive (s_database_connect_timeout_seconds s) \<and>
     positive (s_database_command_timeout_seconds s) \<and>
     1 \<le> s_database_statement_timeout_ms s \<and> s_database_statement_timeout_ms s \<le> 2147483647 \<and>
     1 \<le> s_database_lock_timeout_ms s \<and> s_database_lock_timeout_ms s \<le> 2147483647 \<and>
     fullmatch APP_ENVIRONMENT_RE (s_app_environment s) \<and>
     fullmatch SERVICE_NAME_RE (s_service_name s) \<and>
     1 \<le> length (s_service_version s) \<and> length (s_service_version s) \<le> 64 \<and>
     1 \<le> s_log_queue_capacity s \<and> s_log_queue_capacity s \<le> 10000 \<and>
     float_within 0 30 (s_log_shutdown_timeout_seconds s) \<and>
     1 \<le> s_max_active_sessions_per_user s \<and>
     1 \<le> s_jwt_access_token_ttl_seconds s \<and>
     fullmatch RATE_LIMIT_NAMESPACE_RE (s_rate_limit_namespace s) \<and>
     1 \<le> s_rate_limit_captcha_create_per_five_minutes s \<and>
     1 \<le> s_rate_limit_authenticated_read_per_minute s \<and>
     1 \<le> s_rate_limit_management_read_per_minute s \<and>
     1 \<le> s_rate_limit_ordinary_write_per_minute s \<and>
     1 \<le> s_rate_limit_authorization_write_per_minute s \<and>
     1 \<le> s_rate_limit_login_ip_per_five_minutes s \<and>
     1 \<le> s_rate_limit_registration_ip_per_hour s \<and>
     1 \<le> s_rate_limit_temporary_complete_ip_per_five_minutes s \<and>
     positive (s_redis_connect_timeout_seconds s) \<and>
     positive (s_redis_socket_timeout_seconds s) \<and>
     1 \<le> s_redis_max_connections s \<and>
     float_within 0 10 (s_readiness_timeout_seconds s) \<and> positive (s_readiness_timeout_seconds s)"

definition require_ordered_database_timeouts :: "settings \<Rightarrow> failure + unit" where
  "require_ordered_database_timeouts s =
     reject (s_database_lock_timeout_ms s > s_database_statement_timeout_ms s)
       ''database_lock_timeout_ms must not exceed database_statement_timeout_ms''"

definition require_complete_redis_connections :: "settings \<Rightarrow> failure + unit" where
  "require_complete_redis_connections s =
     bindE (reject ((s_redis_url s = None) = (s_redis_connection s = None))
              ''configure exactly one of redis_url or redis_connection'') (\<lambda>_.
       reject (s_rate_limit_redis_url s \<noteq> None \<and> s_rate_limit_redis_connection s \<noteq> None)
         ''configure rate_limit_redis_url or rate_limit_redis_connection, not both'')"

definition require_complete_optional_token_scope :: "settings \<Rightarrow> failure + unit" where
  "require_complete_optional_token_scope s =
     bindE (reject (\<not> s_rate_limit_enabled s \<and>
                s_app_environment s \<notin> set RATE_LIMIT_DISABLE_ENVIRONMENTS)
              ''rate limiting can be disabled only in an explicit local or test environment'') (\<lambda>_.
     bindE (reject ((s_jwt_issuer s = None) \<noteq> (s_jwt_audience s = None))
              ''jwt_issuer and jwt_audience must be configured together or omitted'') (\<lambda>_.
       reject (s_jwt_secret s = s_rate_limit_hmac_key s)
         ''JWT and rate-limit secrets must use different values''))"

text \<open>
  \<open>Settings()\<close>: the field validators, which may replace the value, then the model
  validators on the whole.
\<close>

definition validate_settings :: "platform \<Rightarrow> settings \<Rightarrow> failure + settings" where
  "validate_settings pf s =
     bindE (reject (\<not> field_bounds_ok s) ''a field is out of its bounds'') (\<lambda>_.
     bindE (require_postgresql_asyncpg (s_database_url s)) (\<lambda>_.
     bindE (require_redis_url pf (s_redis_url s)) (\<lambda>_.
     bindE (require_redis_url pf (s_rate_limit_redis_url s)) (\<lambda>_.
     bindE (optional (validate_redis_endpoint pf) (s_redis_connection s)) (\<lambda>_.
     bindE (optional (validate_redis_endpoint pf) (s_rate_limit_redis_connection s)) (\<lambda>_.
     bindE (normalize_log_level pf (s_log_level s)) (\<lambda>log_level.
     bindE (validate_security_secret pf (s_jwt_secret s)) (\<lambda>_.
     bindE (validate_security_secret pf (s_rate_limit_hmac_key s)) (\<lambda>_.
     bindE (optional normalize_optional_token_scope (s_jwt_issuer s)) (\<lambda>issuer.
     bindE (optional normalize_optional_token_scope (s_jwt_audience s)) (\<lambda>audience.
     let s' = s\<lparr>s_log_level := log_level, s_jwt_issuer := issuer, s_jwt_audience := audience\<rparr> in
     bindE (require_ordered_database_timeouts s') (\<lambda>_.
     bindE (require_complete_redis_connections s') (\<lambda>_.
     bindE (require_complete_optional_token_scope s') (\<lambda>_. Inr s'))))))))))))))"

definition effective_redis_connection :: "platform \<Rightarrow> settings \<Rightarrow> failure + redis_endpoint" where
  "effective_redis_connection pf s =
     (case s_redis_connection s of
        Some e \<Rightarrow> Inr e
      | None \<Rightarrow> validate_redis_endpoint pf (default_endpoint\<lparr>ep_url := s_redis_url s\<rparr>))"

definition effective_rate_limit_redis_connection :: "platform \<Rightarrow> settings \<Rightarrow> failure + redis_endpoint" where
  "effective_rate_limit_redis_connection pf s =
     (case s_rate_limit_redis_connection s of
        Some e \<Rightarrow> Inr e
      | None \<Rightarrow>
         (case s_rate_limit_redis_url s of
            Some u \<Rightarrow> validate_redis_endpoint pf (default_endpoint\<lparr>ep_url := Some u\<rparr>)
          | None \<Rightarrow> effective_redis_connection pf s))"

definition effective_rate_limit_redis_url :: "platform \<Rightarrow> settings \<Rightarrow> failure + pystr" where
  "effective_rate_limit_redis_url pf s =
     bindE (effective_rate_limit_redis_connection pf s) (\<lambda>e.
     case ep_url e of
       None \<Rightarrow> Inl (Value_error ''the rate-limit Redis connection does not use a single URL'')
     | Some u \<Rightarrow> Inr u)"

subsection \<open>What accepted settings promise\<close>

text \<open>
  A secret is a repeated pattern exactly when it is a shorter text written at least twice.
\<close>

lemma find_append: "find P (xs @ ys) = (case find P xs of None \<Rightarrow> find P ys | Some x \<Rightarrow> Some x)"
  by (induction xs) auto

lemma find_from_shift:
  "find_from v (v @ v) 1 \<noteq> Some (length v) \<longleftrightarrow>
     (\<exists>i. 0 < i \<and> i < length v \<and> drop i v @ take i v = v)" if "v \<noteq> []"
proof -
  have occurs: "take (length v) (drop i (v @ v)) = v \<longleftrightarrow> drop i v @ take i v = v" if "i < length v" for i
    using that by simp
  let ?p = "\<lambda>i. take (length v) (drop i (v @ v)) = v"
  have "1 \<le> length v" using \<open>v \<noteq> []\<close> by (simp add: Suc_leI)
  then have "[1..<length (v @ v) + 1 - length v] = [1..<length v] @ [length v]"
    by (simp add: upt_Suc_append)
  then have "find_from v (v @ v) 1 = find ?p ([1..<length v] @ [length v])"
    by (simp add: find_from_def)
  also have "\<dots> = (case find ?p [1..<length v] of None \<Rightarrow> Some (length v) | Some i \<Rightarrow> Some i)"
    by (simp add: find_append split: option.split)
  finally have "find_from v (v @ v) 1 = (case find ?p [1..<length v] of None \<Rightarrow> Some (length v) | Some i \<Rightarrow> Some i)" .
  moreover have "i < length v" if "find ?p [1..<length v] = Some i" for i
    using find_SomeD [OF that] by simp
  moreover have "find ?p [1..<length v] \<noteq> None \<longleftrightarrow> (\<exists>i \<in> set [1..<length v]. ?p i)"
    by (auto simp: find_None_iff)
  ultimately have "find_from v (v @ v) 1 \<noteq> Some (length v) \<longleftrightarrow> (\<exists>i \<in> set [1..<length v]. ?p i)"
    by (cases "find ?p [1..<length v]") fastforce+
  also have "\<dots> \<longleftrightarrow> (\<exists>i. 0 < i \<and> i < length v \<and> ?p i)"
    unfolding set_upt atLeastLessThan_iff Bex_def One_nat_def Suc_le_eq by blast
  also have "\<dots> \<longleftrightarrow> (\<exists>i. 0 < i \<and> i < length v \<and> drop i v @ take i v = v)"
    using occurs by blast
  finally show ?thesis .
qed

lemma repeated_pattern_iff:
  "is_repeated_pattern v \<longleftrightarrow> (\<exists>w k. w \<noteq> [] \<and> 2 \<le> k \<and> v = concat (replicate k w))"
proof (cases "v = []")
  case False
  show ?thesis
  proof
    assume "is_repeated_pattern v"
    then obtain i where i: "0 < i" "i < length v" "drop i v @ take i v = v"
      using find_from_shift [OF False] False by (auto simp: is_repeated_pattern_def)
    then have "take i v @ drop i v = drop i v @ take i v"
      by simp
    then obtain m n w where w: "concat (replicate m w) = take i v" "concat (replicate n w) = drop i v"
      using comm_append_are_replicate by blast
    have "concat (replicate (m + n) w) = v"
      by (simp add: replicate_add w)
    moreover have "take i v \<noteq> []" "drop i v \<noteq> []"
      using i(1,2) by auto
    then have "m \<noteq> 0" "n \<noteq> 0" "w \<noteq> []"
      unfolding w [symmetric] by auto
    ultimately show "\<exists>w k. w \<noteq> [] \<and> 2 \<le> k \<and> v = concat (replicate k w)"
      by (intro exI [of _ w] exI [of _ "m + n"]) auto
  next
    assume "\<exists>w k. w \<noteq> [] \<and> 2 \<le> k \<and> v = concat (replicate k w)"
    then obtain w k where w: "w \<noteq> []" "v = concat (replicate (Suc (Suc k)) w)"
      by (metis add_2_eq_Suc le_Suc_ex)
    have "concat (replicate n w) @ w = w @ concat (replicate n w)" for n
      by (induction n) simp_all
    then have "drop (length w) v @ take (length w) v = v"
      by (simp add: w(2))
    moreover have "0 < length w" "length w < length v"
      using w by simp_all
    ultimately show "is_repeated_pattern v"
      using find_from_shift [OF False] False by (auto simp: is_repeated_pattern_def)
  qed
qed (auto simp: is_repeated_pattern_def)

text \<open>The settings a program that started runs with.\<close>

definition printable :: "pystr \<Rightarrow> bool" where
  "printable s \<longleftrightarrow> list_all (\<lambda>c. 32 \<le> c \<and> c \<le> 126) s"

definition settings_ok :: "platform \<Rightarrow> settings \<Rightarrow> bool" where
  "settings_ok pf s \<longleftrightarrow>
     field_bounds_ok s \<and>
     validate_security_secret pf (s_jwt_secret s) = Inr (s_jwt_secret s) \<and>
     validate_security_secret pf (s_rate_limit_hmac_key s) = Inr (s_rate_limit_hmac_key s) \<and>
     s_jwt_secret s \<noteq> s_rate_limit_hmac_key s \<and>
     (s_jwt_issuer s = None \<longleftrightarrow> s_jwt_audience s = None) \<and>
     pred_option printable (s_jwt_issuer s) \<and> pred_option printable (s_jwt_audience s) \<and>
     (s_redis_url s = None) \<noteq> (s_redis_connection s = None) \<and>
     (s_rate_limit_redis_url s = None \<or> s_rate_limit_redis_connection s = None) \<and>
     s_database_lock_timeout_ms s \<le> s_database_statement_timeout_ms s \<and>
     (s_rate_limit_enabled s \<or> s_app_environment s \<in> set RATE_LIMIT_DISABLE_ENVIRONMENTS)"

lemma validate_security_secret_same: "validate_security_secret pf x = Inr y \<Longrightarrow> y = x"
  by (auto simp: validate_security_secret_def Let_def split: sum.splits if_splits)

lemma field_bounds_updates [simp]:
  "field_bounds_ok (s\<lparr>s_log_level := l, s_jwt_issuer := i, s_jwt_audience := a\<rparr>) = field_bounds_ok s"
  by (simp add: field_bounds_ok_def)

lemma optional_None_iff: "optional f x = Inr y \<Longrightarrow> y = None \<longleftrightarrow> x = None"
  by (auto simp: optional_def bindE_Inr split: option.splits)

lemma optional_scope_printable:
  "optional normalize_optional_token_scope x = Inr y \<Longrightarrow> pred_option printable y"
  by (auto simp: optional_def bindE_Inr normalize_optional_token_scope_def printable_def list_all_iff list_ex_iff
      Let_def split: option.splits if_splits)

lemma validate_settings_stages:
  assumes "validate_settings pf s = Inr s'"
  obtains l i a where "s' = s\<lparr>s_log_level := l, s_jwt_issuer := i, s_jwt_audience := a\<rparr>" "field_bounds_ok s"
    "\<not> isl (validate_security_secret pf (s_jwt_secret s))" "\<not> isl (validate_security_secret pf (s_rate_limit_hmac_key s))"
    "optional normalize_optional_token_scope (s_jwt_issuer s) = Inr i"
    "optional normalize_optional_token_scope (s_jwt_audience s) = Inr a"
    "require_ordered_database_timeouts s' = Inr ()" "require_complete_redis_connections s' = Inr ()"
    "require_complete_optional_token_scope s' = Inr ()"
proof -
  have "\<exists>l i a. s' = s\<lparr>s_log_level := l, s_jwt_issuer := i, s_jwt_audience := a\<rparr> \<and> field_bounds_ok s \<and>
    \<not> isl (validate_security_secret pf (s_jwt_secret s)) \<and> \<not> isl (validate_security_secret pf (s_rate_limit_hmac_key s)) \<and>
    optional normalize_optional_token_scope (s_jwt_issuer s) = Inr i \<and>
    optional normalize_optional_token_scope (s_jwt_audience s) = Inr a \<and>
    require_ordered_database_timeouts s' = Inr () \<and> require_complete_redis_connections s' = Inr () \<and>
    require_complete_optional_token_scope s' = Inr ()"
    using assms unfolding validate_settings_def Let_def bindE_Inr raise_unless_Inr not_not sum.inject
    apply (elim exE conjE)
    apply hypsubst
    apply (intro exI conjI; (assumption | rule refl | simp only: sum.disc not_False_eq_True)?)
      apply (rule arg_cong [where f = Inr], rule unit_eq)+
    done
  then show thesis using that by blast
qed

lemma secret_accepted: "\<not> isl (validate_security_secret pf x) \<Longrightarrow> validate_security_secret pf x = Inr x"
  using validate_security_secret_same [of pf x] by (cases "validate_security_secret pf x") auto

lemma validate_settings_ok:
  assumes "validate_settings pf s = Inr s'"
  shows "settings_ok pf s'"
proof (rule validate_settings_stages [OF assms])
  fix l i a
  assume s': "s' = s\<lparr>s_log_level := l, s_jwt_issuer := i, s_jwt_audience := a\<rparr>"
    and bounds: "field_bounds_ok s"
    and secrets: "\<not> isl (validate_security_secret pf (s_jwt_secret s))" "\<not> isl (validate_security_secret pf (s_rate_limit_hmac_key s))"
    and scope: "optional normalize_optional_token_scope (s_jwt_issuer s) = Inr i"
      "optional normalize_optional_token_scope (s_jwt_audience s) = Inr a"
    and whole: "require_ordered_database_timeouts s' = Inr ()" "require_complete_redis_connections s' = Inr ()"
      "require_complete_optional_token_scope s' = Inr ()"
  have "s_jwt_secret s' \<noteq> s_rate_limit_hmac_key s'" "s_jwt_issuer s' = None \<longleftrightarrow> s_jwt_audience s' = None"
      "s_rate_limit_enabled s' \<or> s_app_environment s' \<in> set RATE_LIMIT_DISABLE_ENVIRONMENTS"
    using whole(3) by (auto simp: require_complete_optional_token_scope_def bindE_Inr raise_unless_Inr)
  moreover have "(s_redis_url s' = None) \<noteq> (s_redis_connection s' = None)"
      "s_rate_limit_redis_url s' = None \<or> s_rate_limit_redis_connection s' = None"
    using whole(2) by (auto simp: require_complete_redis_connections_def bindE_Inr raise_unless_Inr)
  moreover have "s_database_lock_timeout_ms s' \<le> s_database_statement_timeout_ms s'"
    using whole(1) by (auto simp: require_ordered_database_timeouts_def raise_unless_Inr)
  moreover have "pred_option printable (s_jwt_issuer s')" "pred_option printable (s_jwt_audience s')"
    using scope [THEN optional_scope_printable] by (simp_all add: s')
  moreover have "validate_security_secret pf (s_jwt_secret s') = Inr (s_jwt_secret s')"
      "validate_security_secret pf (s_rate_limit_hmac_key s') = Inr (s_rate_limit_hmac_key s')" "field_bounds_ok s'"
    using secrets [THEN secret_accepted] bounds by (simp_all add: s')
  ultimately show ?thesis
    unfolding settings_ok_def by blast
qed

lemma accepted_secret:
  assumes "validate_security_secret pf x = Inr x"
  shows "\<exists>bs. utf8_encode x = Inr bs \<and> 32 \<le> length bs \<and> length bs \<le> 4096 \<and>
     8 \<le> card (set x) \<and> (\<forall>c \<in> set x. \<not> is_space c \<and> \<not> is_control c) \<and>
     \<not> (\<exists>w k. w \<noteq> [] \<and> 2 \<le> k \<and> x = concat (replicate k w))"
proof -
  obtain n where n: "utf8_length x = Inr n" "32 \<le> n" "n \<le> 4096"
    using assms by (auto simp: validate_security_secret_def Let_def MAXIMUM_SECURITY_SECRET_UTF8_BYTES_def
        split: sum.splits if_splits)
  then obtain bs where bs: "utf8_encode x = Inr bs"
    by (auto simp: utf8_length_def utf8_encode_def split: if_splits)
  then have "n = int (length bs)"
    using utf8_encode_length n(1) by fastforce
  moreover have "8 \<le> card (set x)" "\<forall>c \<in> set x. \<not> is_space c \<and> \<not> is_control c" "\<not> is_repeated_pattern x"
    using assms n(1) by (auto simp: validate_security_secret_def Let_def list_ex_iff
        MINIMUM_JWT_SECRET_UNIQUE_CHARACTERS_def length_remdups_card_conv split: if_splits)
  ultimately show ?thesis
    using n bs repeated_pattern_iff by auto
qed

end
