(* ===== verification/Tokens.thy ===== *)
theory Tokens
  imports Redis_Collections Json_Text Config
begin

text \<open>
  Access tokens and the registry of active sessions, \<open>app/core/security/tokens.py\<close>. A user
  has three Redis keys: a hash of session records with the token version, and two sorted sets
  that order the sessions by activation and by expiry. The four Lua scripts run on them; the
  functions of the module call the scripts. PyJWT and the JSON decoder of Redis (\<open>cjson\<close>) are
  arguments. Lua numbers are doubles; the integers of the scripts are below 2^53.
\<close>

subsection \<open>The libraries\<close>

text \<open>
  \<open>jwt_decode token secret leeway required scope now\<close> is \<open>jwt.decode\<close> with the algorithm
  HS256: the payload, or \<open>None\<close> where it raises. The scope is the audience and the issuer.
  \<open>cjson\<close> gives a number with an integral value as an integer.
\<close>

record token_libs =
  jwt_encode :: "(pystr \<times> json) list \<Rightarrow> pystr \<Rightarrow> pystr"
  jwt_decode :: "pystr \<Rightarrow> pystr \<Rightarrow> int \<Rightarrow> pystr list \<Rightarrow> (pystr \<times> pystr) option \<Rightarrow> int
      \<Rightarrow> (pystr \<times> json) list option"
  cjson_decode :: "pystr \<Rightarrow> json option"

definition MAX_BEARER_TOKEN_BYTES :: nat where "MAX_BEARER_TOKEN_BYTES = 4096"
definition JWT_CLOCK_LEEWAY_SECONDS :: int where "JWT_CLOCK_LEEWAY_SECONDS = 30"
definition JTI_ISSUANCE_ATTEMPTS :: nat where "JTI_ISSUANCE_ATTEMPTS = 2"

subsection \<open>Lua\<close>

text \<open>
  \<open>tostring\<close> of an integral number, which prints with the format \<open>%.14g\<close>: 14 significant
  digits, rounded half to even, trailing zeros dropped.
\<close>

definition round_half_even :: "nat \<Rightarrow> nat \<Rightarrow> nat" where
  "round_half_even n d =
     (let q = n div d; r = n mod d
      in if 2 * r < d \<or> (2 * r = d \<and> even q) then q else q + 1)"

definition lua_tostring_nat :: "nat \<Rightarrow> pystr" where
  "lua_tostring_nat n =
     (let digits = length (decimal n) in
      if digits \<le> 14 then decimal n
      else
        let q = round_half_even n (10 ^ (digits - 14));
            expo = (if length (decimal q) = 15 then digits else digits - 1);
            mantissa = rev (dropWhile (\<lambda>c. c = 48) (rev (decimal q)))
        in [hd mantissa] @ (if tl mantissa = [] then [] else 46 # tl mantissa)
           @ [101, 43] @ decimal expo)"

definition lua_tostring :: "int \<Rightarrow> pystr" where
  "lua_tostring i = (if i < 0 then 45 # lua_tostring_nat (nat (- i)) else lua_tostring_nat (nat i))"

text \<open>A field of a decoded record; a record is any table, also one from a JSON array.\<close>

definition lua_field :: "json \<Rightarrow> string \<Rightarrow> json option" where
  "lua_field j k = (case j of J_Obj ms \<Rightarrow> json_get ms (lit k) | _ \<Rightarrow> None)"

definition is_table :: "json \<Rightarrow> bool" where
  "is_table j = (case j of J_Obj _ \<Rightarrow> True | J_List _ \<Rightarrow> True | _ \<Rightarrow> False)"

subsection \<open>The session functions of the scripts\<close>

type_synonym session_keys = "string \<times> string \<times> string"

definition remove_session :: "int \<Rightarrow> session_keys \<Rightarrow> string \<Rightarrow> (redis, unit) proc" where
  "remove_session now keys field =
     (case keys of (records, order, expires) \<Rightarrow>
        bindP (r_hdel now records field) (\<lambda>_.
        bindP (r_zrem now order field) (\<lambda>_.
          r_zrem now expires field)))"

definition prune_expired :: "int \<Rightarrow> session_keys \<Rightarrow> (redis, unit) proc" where
  "prune_expired now keys =
     bindP (r_zrangebyscore now (snd (snd keys)) (sec_of now)) (\<lambda>expired.
       each (remove_session now keys) expired)"

text \<open>\<open>while ZCARD > maximum\<close>: each turn removes one member, so the cardinality bounds the turns.\<close>

primrec evict :: "nat \<Rightarrow> int \<Rightarrow> session_keys \<Rightarrow> int \<Rightarrow> (redis, unit) proc" where
  "evict 0 now keys maximum = returnP ()"
| "evict (Suc n) now keys maximum =
     bindP (r_zcard now (fst (snd keys))) (\<lambda>members.
       if members > maximum
       then bindP (r_zrange now (fst (snd keys))) (\<lambda>entries.
            bindP (remove_session now keys (fst (hd entries))) (\<lambda>_.
              evict n now keys maximum))
       else returnP ())"

text \<open>The end of \<open>ACTIVATE\<close>, once the session may be added: lines 68 to 82.\<close>

definition add_session ::
    "session_keys \<Rightarrow> string \<Rightarrow> pystr \<Rightarrow> int \<Rightarrow> int \<Rightarrow> int \<Rightarrow> int \<Rightarrow> int \<Rightarrow> (redis, redis_reply) proc" where
  "add_session keys field record_value expires_at incoming_version maximum deadline_ms now =
     (case keys of (records, order, expires) \<Rightarrow>
      bindP (r_hsetnx now records field record_value) (\<lambda>added.
      if \<not> added then returnP (Int_reply 0)
      else
      bindP (r_hset now records ''_version'' (encode_int incoming_version)) (\<lambda>_.
      bindP (r_zrange now order) (\<lambda>entries.
      let score = (if entries = [] then now else max now (snd (last entries) + 1)) in
      bindP (r_zadd now order score field) (\<lambda>_.
      bindP (r_zadd now expires expires_at field) (\<lambda>_.
      bindP (r_zcard now order) (\<lambda>members.
      bindP (evict (nat members) now keys maximum) (\<lambda>_.
      bindP (each (\<lambda>key. updateP (r_pexpireat now key deadline_ms)) [records, order, expires]) (\<lambda>_.
        returnP (Int_reply 1))))))))))"

definition activate_jti ::
    "session_keys \<Rightarrow> string \<Rightarrow> pystr \<Rightarrow> int \<Rightarrow> int \<Rightarrow> int \<Rightarrow> int \<Rightarrow> (redis, redis_reply) proc" where
  "activate_jti keys field record_value expires_at incoming_version maximum now =
     (case keys of (records, order, expires) \<Rightarrow>
      if maximum < 1 \<or> incoming_version < 0 \<or> expires_at \<le> sec_of now then returnP (Int_reply (-1))
      else
      bindP (r_hget now records ''_version'') (\<lambda>current_version.
      let parsed_version = (case current_version of None \<Rightarrow> Some 0 | Some v \<Rightarrow> read_int v) in
      if (case parsed_version of None \<Rightarrow> True | Some v \<Rightarrow> v < 0) then returnP (Int_reply (-1))
      else if current_version \<noteq> None \<and> the parsed_version > incoming_version
      then returnP (Int_reply (-2))
      else
      bindP (prune_expired now keys) (\<lambda>_.
      bindP (r_hget now records field) (\<lambda>present.
      if present \<noteq> None then returnP (Int_reply 0)
      else
      bindP (readP (r_pexpiretime now records)) (\<lambda>previous_deadline.
      bindP (if current_version \<noteq> Some (encode_int incoming_version)
             then updateP (\<lambda>s. r_del expires (r_del order (r_del records s))) else returnP ()) (\<lambda>_.
        add_session keys field record_value expires_at incoming_version maximum
          (max (expires_at * 1000) previous_deadline) now))))))"

definition compare_and_delete ::
    "session_keys \<Rightarrow> string \<Rightarrow> pystr \<Rightarrow> int \<Rightarrow> (redis, redis_reply) proc" where
  "compare_and_delete keys field expected now =
     (case keys of (records, order, expires) \<Rightarrow>
      bindP (r_zscore now expires field) (\<lambda>expiry.
      if (case expiry of None \<Rightarrow> True | Some e \<Rightarrow> e \<le> sec_of now)
      then bindP (remove_session now keys field) (\<lambda>_. returnP (Int_reply 0))
      else
      bindP (r_hget now records field) (\<lambda>current.
      if current = None then returnP (Int_reply 0)
      else if current \<noteq> Some expected then returnP (Int_reply (-1))
      else bindP (remove_session now keys field) (\<lambda>_. returnP (Int_reply 1)))))"

text \<open>What \<open>READ\<close> asks of the decoded record: the expiry of the set, the version of the hash.\<close>

definition record_is_active :: "json \<Rightarrow> int \<Rightarrow> pystr option \<Rightarrow> bool" where
  "record_is_active rec expiry version \<longleftrightarrow>
     is_table rec \<and> lua_field rec ''exp'' = Some (J_Int expiry) \<and>
     (case lua_field rec ''token_version'' of
        Some (J_Int v) \<Rightarrow> version = Some (lua_tostring v)
      | _ \<Rightarrow> False)"

definition read_active_jti ::
    "token_libs \<Rightarrow> session_keys \<Rightarrow> string \<Rightarrow> int \<Rightarrow> (redis, redis_reply) proc" where
  "read_active_jti libs keys field now =
     (case keys of (records, order, expires) \<Rightarrow>
      bindP (r_zscore now expires field) (\<lambda>expiry.
      case expiry of
        None \<Rightarrow> bindP (remove_session now keys field) (\<lambda>_. returnP Nil_reply)
      | Some e \<Rightarrow>
          if e \<le> sec_of now
          then bindP (remove_session now keys field) (\<lambda>_. returnP Nil_reply)
          else
          bindP (r_hget now records field) (\<lambda>stored.
          case stored of
            None \<Rightarrow> returnP Nil_reply
          | Some value \<Rightarrow>
              bindP (r_hget now records ''_version'') (\<lambda>version.
              if (case cjson_decode libs value of None \<Rightarrow> True
                  | Some rec \<Rightarrow> \<not> record_is_active rec e version)
              then returnP Nil_reply
              else
              bindP (r_zscore now order field) (\<lambda>position.
                if position = None then returnP Nil_reply else returnP (Text_reply value))))))"

text \<open>The time of issue a listed record shows, or \<open>None\<close> where the script answers with an error.\<close>

definition listed_iat :: "json \<Rightarrow> int option \<Rightarrow> int \<Rightarrow> int \<Rightarrow> int option" where
  "listed_iat rec expiry now version =
     (case (lua_field rec ''iat'', expiry) of
        (Some (J_Int iat), Some e) \<Rightarrow>
          if is_table rec \<and> 0 \<le> iat \<and> lua_field rec ''exp'' = Some (J_Int e) \<and> e > sec_of now \<and>
             (case lua_field rec ''token_version'' of
                Some (J_Int v) \<Rightarrow> lua_tostring v = encode_int version
              | Some (J_Str v) \<Rightarrow> v = encode_int version
              | _ \<Rightarrow> False)
          then Some iat else None
      | _ \<Rightarrow> None)"

fun list_entries ::
    "token_libs \<Rightarrow> session_keys \<Rightarrow> int \<Rightarrow> int \<Rightarrow> string list \<Rightarrow> (redis, redis_reply list) proc" where
  "list_entries libs keys version now [] = returnP []"
| "list_entries libs keys version now (field # others) =
     bindP (r_hget now (fst keys) field) (\<lambda>raw.
     case raw of
       None \<Rightarrow> bindP (remove_session now keys field) (\<lambda>_. list_entries libs keys version now others)
     | Some text \<Rightarrow>
         bindP (r_zscore now (snd (snd keys)) field) (\<lambda>expiry.
         case Option.bind (cjson_decode libs text) (\<lambda>rec. listed_iat rec expiry now version) of
           None \<Rightarrow> raiseP Redis_error
         | Some iat \<Rightarrow>
             bindP (list_entries libs keys version now others) (\<lambda>rest. returnP (Int_reply iat # rest))))"

definition list_user_sessions ::
    "token_libs \<Rightarrow> session_keys \<Rightarrow> int \<Rightarrow> int \<Rightarrow> (redis, redis_reply) proc" where
  "list_user_sessions libs keys version now =
     bindP (r_hget now (fst keys) ''_version'') (\<lambda>current.
     if current \<noteq> Some (encode_int version) then returnP (List_reply [])
     else
     bindP (prune_expired now keys) (\<lambda>_.
     bindP (r_zrange now (fst (snd keys))) (\<lambda>entries.
     bindP (list_entries libs keys version now (map fst entries)) (\<lambda>result.
       returnP (List_reply result)))))"

subsection \<open>Claims\<close>

record access_token_claims =
  ac_user_id :: uuid
  ac_token_id :: uuid
  ac_issued_at :: int
  ac_expires_at :: int

text \<open>\<open>_uuid4\<close>: \<open>uuid.UUID\<close> reads more than the canonical text, but the caller compares.\<close>

definition ascii_string :: "pystr \<Rightarrow> string option" where
  "ascii_string s =
     (if list_all (\<lambda>c. 0 \<le> c \<and> c < 128) s then Some (map (\<lambda>c. char_of (nat c)) s) else None)"

definition pystr_uuid :: "pystr \<Rightarrow> uuid option" where
  "pystr_uuid s = Option.bind (ascii_string s) uuid_of_text"

definition uuid4 :: "json option \<Rightarrow> failure + uuid" where
  "uuid4 j =
     (case j of
        None \<Rightarrow> Inl Key_error
      | Some (J_Str s) \<Rightarrow>
          (case pystr_uuid s of
             None \<Rightarrow> Inl (Value_error ''claim must be a canonical UUIDv4 string'')
           | Some u \<Rightarrow> if uuid_version u = Some 4 then Inr u
                       else Inl (Value_error ''claim must be a canonical UUIDv4 string''))
      | Some _ \<Rightarrow> Inl (Value_error ''claim must be a canonical UUIDv4 string''))"

definition integer_numeric_date :: "json option \<Rightarrow> failure + int" where
  "integer_numeric_date j =
     (case j of
        None \<Rightarrow> Inl Key_error
      | Some (J_Int i) \<Rightarrow> Inr i
      | Some _ \<Rightarrow> Inl (Value_error ''NumericDate claims must be integers''))"

definition REQUIRED_ACCESS_CLAIMS :: "pystr list" where
  "REQUIRED_ACCESS_CLAIMS = map lit [''sub'', ''jti'', ''iat'', ''exp'', ''token_type'']"

definition OPTIONAL_ACCESS_SCOPE_CLAIMS :: "pystr list" where
  "OPTIONAL_ACCESS_SCOPE_CLAIMS = map lit [''iss'', ''aud'']"

definition expected_access_claims :: "settings \<Rightarrow> pystr list" where
  "expected_access_claims s =
     (if s_jwt_issuer s = None then REQUIRED_ACCESS_CLAIMS
      else REQUIRED_ACCESS_CLAIMS @ OPTIONAL_ACCESS_SCOPE_CLAIMS)"

definition token_scope :: "settings \<Rightarrow> (pystr \<times> pystr) option" where
  "token_scope s =
     (case (s_jwt_audience s, s_jwt_issuer s) of (Some a, Some i) \<Rightarrow> Some (a, i) | _ \<Rightarrow> None)"

text \<open>
  What \<open>decode_access_token\<close> makes of a payload that \<open>jwt.decode\<close> returned.
\<close>

definition claims_of_payload :: "settings \<Rightarrow> (pystr \<times> json) list \<Rightarrow> failure + access_token_claims" where
  "claims_of_payload s payload =
     bindE (raise_unless (fst ` set payload = set (expected_access_claims s))
              (Value_error ''access token must contain only the configured claims'')) (\<lambda>_.
     bindE (raise_unless (json_get payload (lit ''token_type'') = Some (J_Str (lit ''access'')))
              (Value_error ''wrong token type'')) (\<lambda>_.
     bindE (integer_numeric_date (json_get payload (lit ''iat''))) (\<lambda>issued_at.
     bindE (integer_numeric_date (json_get payload (lit ''exp''))) (\<lambda>expires_at.
     bindE (raise_unless (\<not> (expires_at \<le> issued_at \<or>
              expires_at - issued_at > s_jwt_access_token_ttl_seconds s))
              (Value_error ''invalid access token lifetime'')) (\<lambda>_.
     bindE (uuid4 (json_get payload (lit ''sub''))) (\<lambda>user_id.
     bindE (uuid4 (json_get payload (lit ''jti''))) (\<lambda>token_id.
       Inr \<lparr>ac_user_id = user_id, ac_token_id = token_id, ac_issued_at = issued_at,
            ac_expires_at = expires_at\<rparr>)))))))"

text \<open>\<open>except (...) as exc: raise unauthenticated(...)\<close>: all these failures look alike.\<close>

definition or_unauthenticated :: "string \<Rightarrow> failure + 'a \<Rightarrow> failure + 'a" where
  "or_unauthenticated reason m = (case m of Inl _ \<Rightarrow> Inl (Rbac (unauthenticated reason)) | Inr x \<Rightarrow> Inr x)"

definition decode_access_token ::
    "token_libs \<Rightarrow> settings \<Rightarrow> int \<Rightarrow> pystr \<Rightarrow> failure + access_token_claims" where
  "decode_access_token libs s now token =
     or_unauthenticated ''invalid_access_token''
       (case jwt_decode libs token (s_jwt_secret s) JWT_CLOCK_LEEWAY_SECONDS
               (expected_access_claims s) (token_scope s) now of
          None \<Rightarrow> Inl (Value_error ''PyJWTError'')
        | Some payload \<Rightarrow> claims_of_payload s payload)"

subsection \<open>Keys and records of the registry\<close>

definition active_jti_field :: "platform \<Rightarrow> settings \<Rightarrow> uuid \<Rightarrow> string" where
  "active_jti_field pf s token_id = pf_sha256 pf (s_service_name s @ [0] @ lit (uuid_str token_id))"

definition session_prefix :: "platform \<Rightarrow> settings \<Rightarrow> uuid \<Rightarrow> string" where
  "session_prefix pf s user_id =
     ''auth:sessions:v2:'' @ map (\<lambda>c. char_of (nat c)) (s_app_environment s) @ '':{''
       @ pf_sha256 pf (s_service_name s @ [0] @ lit (uuid_str user_id)) @ ''}''"

definition user_session_keys :: "platform \<Rightarrow> settings \<Rightarrow> uuid \<Rightarrow> session_keys" where
  "user_session_keys pf s user_id =
     (let prefix = session_prefix pf s user_id
      in (prefix @ '':records'', prefix @ '':order'', prefix @ '':expires''))"

definition jti_record :: "access_token_claims \<Rightarrow> int \<Rightarrow> (pystr \<times> json) list" where
  "jti_record claims user_token_version =
     [(lit ''exp'', J_Int (ac_expires_at claims)),
      (lit ''iat'', J_Int (ac_issued_at claims)),
      (lit ''sub'', J_Str (lit (uuid_str (ac_user_id claims)))),
      (lit ''token_version'', J_Int user_token_version),
      (lit ''typ'', J_Str (lit ''access''))]"

definition active_jti_value :: "access_token_claims \<Rightarrow> int \<Rightarrow> pystr" where
  "active_jti_value claims user_token_version = encode_json (J_Obj (jti_record claims user_token_version))"

definition parse_active_jti_value :: "pystr \<Rightarrow> failure + uuid \<times> int \<times> int \<times> int" where
  "parse_active_jti_value value =
     (case json_loads value of
        Some (J_Obj payload) \<Rightarrow>
          bindE (raise_unless (fst ` set payload = lit ` {''exp'', ''iat'', ''sub'', ''token_version'', ''typ''})
                   (Value_error ''invalid active JTI record'')) (\<lambda>_.
          bindE (raise_unless (json_get payload (lit ''typ'') = Some (J_Str (lit ''access'')))
                   (Value_error ''invalid active JTI type'')) (\<lambda>_.
          bindE (case json_get payload (lit ''token_version'') of
                   Some (J_Int v) \<Rightarrow>
                     if v < 0 then Inl (Value_error ''invalid active JTI token version'') else Inr v
                 | _ \<Rightarrow> Inl (Value_error ''invalid active JTI token version'')) (\<lambda>token_version.
          bindE (integer_numeric_date (json_get payload (lit ''exp''))) (\<lambda>expires_at.
          bindE (integer_numeric_date (json_get payload (lit ''iat''))) (\<lambda>issued_at.
          bindE (uuid4 (json_get payload (lit ''sub''))) (\<lambda>user_id.
            Inr (user_id, token_version, issued_at, expires_at)))))))
      | _ \<Rightarrow> Inl (Value_error ''invalid active JTI record''))"

subsection \<open>Operations\<close>

text \<open>
  One attempt at a token: the clock of the process in seconds, the UUID drawn, and the call
  of the script.
\<close>

record issue_attempt =
  at_now :: int
  at_token_id :: uuid
  at_io :: redis_io

definition access_payload :: "settings \<Rightarrow> access_token_claims \<Rightarrow> (pystr \<times> json) list" where
  "access_payload s claims =
     [(lit ''sub'', J_Str (lit (uuid_str (ac_user_id claims)))),
      (lit ''jti'', J_Str (lit (uuid_str (ac_token_id claims)))),
      (lit ''iat'', J_Int (ac_issued_at claims)),
      (lit ''exp'', J_Int (ac_expires_at claims)),
      (lit ''token_type'', J_Str (lit ''access''))] @
     (case token_scope s of
        Some (a, i) \<Rightarrow> [(lit ''iss'', J_Str i), (lit ''aud'', J_Str a)]
      | None \<Rightarrow> [])"

definition new_claims :: "settings \<Rightarrow> uuid \<Rightarrow> uuid \<Rightarrow> int \<Rightarrow> access_token_claims" where
  "new_claims s user_id token_id now =
     \<lparr>ac_user_id = user_id, ac_token_id = token_id, ac_issued_at = now,
      ac_expires_at = now + s_jwt_access_token_ttl_seconds s\<rparr>"

definition encode_access_token ::
    "token_libs \<Rightarrow> settings \<Rightarrow> uuid \<Rightarrow> uuid \<Rightarrow> int \<Rightarrow> failure + pystr \<times> access_token_claims" where
  "encode_access_token libs s user_id token_id now =
     (let claims = new_claims s user_id token_id now;
          token = jwt_encode libs (access_payload s claims) (s_jwt_secret s)
      in bindE (utf8_encode token) (\<lambda>bytes.
         bindE (raise_unless (length bytes \<le> MAX_BEARER_TOKEN_BYTES)
                  (Value_error ''encoded access token exceeds the bearer token size limit'')) (\<lambda>_.
           Inr (token, claims))))"

text \<open>A \<open>RedisError\<close> is reported as an unavailable registry.\<close>

definition registry_call :: "redis_io \<Rightarrow> 'a script \<Rightarrow> (redis, 'a) proc" where
  "registry_call io body =
     handleP (redis_call io body)
       (\<lambda>e. if e = Redis_error then raiseP (Rbac (unavailable ''active_token_registry_unavailable''))
            else raiseP e)"

primrec issue_attempts ::
    "token_libs \<Rightarrow> platform \<Rightarrow> settings \<Rightarrow> uuid \<Rightarrow> int \<Rightarrow> (nat \<Rightarrow> issue_attempt) \<Rightarrow> nat \<Rightarrow> (redis, pystr) proc" where
  "issue_attempts libs pf s user_id version attempts 0 =
     raiseP (Rbac (unavailable ''access_token_issuance_conflict''))"
| "issue_attempts libs pf s user_id version attempts (Suc left) =
     (let a = attempts (JTI_ISSUANCE_ATTEMPTS - Suc left) in
      bindP (liftP (encode_access_token libs s user_id (at_token_id a) (at_now a))) (\<lambda>(token, claims).
      bindP (registry_call (at_io a) (activate_jti (user_session_keys pf s user_id)
               (active_jti_field pf s (ac_token_id claims)) (active_jti_value claims version)
               (ac_expires_at claims) version (s_max_active_sessions_per_user s))) (\<lambda>created.
      if created = Int_reply 1 then returnP token
      else if created = Int_reply (-2) then raiseP (Rbac (unauthenticated ''token_version_changed''))
      else if created \<noteq> Int_reply 0 then raiseP (Rbac (unavailable ''active_token_registry_unavailable''))
      else issue_attempts libs pf s user_id version attempts left)))"

definition issue_access_token ::
    "token_libs \<Rightarrow> platform \<Rightarrow> settings \<Rightarrow> uuid \<Rightarrow> int \<Rightarrow> (nat \<Rightarrow> issue_attempt) \<Rightarrow> (redis, pystr) proc" where
  "issue_access_token libs pf s user_id user_token_version attempts =
     (if uuid_version user_id \<noteq> Some 4 \<or> user_token_version < 0
      then raiseP (Value_error ''the issuer requires a UUIDv4 user and valid token version'')
      else issue_attempts libs pf s user_id user_token_version attempts JTI_ISSUANCE_ATTEMPTS)"

definition check_active_record :: "access_token_claims \<Rightarrow> pystr \<Rightarrow> failure + int" where
  "check_active_record claims value =
     bindE (parse_active_jti_value value) (\<lambda>(user_id, token_version, issued_at, expires_at).
     bindE (raise_unless (\<not> (user_id \<noteq> ac_user_id claims \<or> issued_at \<noteq> ac_issued_at claims \<or>
              expires_at \<noteq> ac_expires_at claims))
              (Value_error ''active JTI does not match the access token'')) (\<lambda>_.
     bindE (raise_unless (value = active_jti_value claims token_version)
              (Value_error ''active JTI record is not canonical'')) (\<lambda>_.
       Inr token_version)))"

definition require_active_jti ::
    "token_libs \<Rightarrow> platform \<Rightarrow> settings \<Rightarrow> access_token_claims \<Rightarrow> redis_io \<Rightarrow> (redis, int) proc" where
  "require_active_jti libs pf s claims io =
     bindP (registry_call io (read_active_jti libs (user_session_keys pf s (ac_user_id claims))
              (active_jti_field pf s (ac_token_id claims)))) (\<lambda>reply.
     case reply of
       Text_reply value \<Rightarrow> liftP (or_unauthenticated ''active_token_record_mismatch'' (check_active_record claims value))
     | _ \<Rightarrow> raiseP (Rbac (unauthenticated ''inactive_access_token'')))"

definition revoke_active_jti ::
    "platform \<Rightarrow> settings \<Rightarrow> access_token_claims \<Rightarrow> int \<Rightarrow> redis_io \<Rightarrow> (redis, unit) proc" where
  "revoke_active_jti pf s claims user_token_version io =
     bindP (registry_call io (compare_and_delete (user_session_keys pf s (ac_user_id claims))
              (active_jti_field pf s (ac_token_id claims)) (active_jti_value claims user_token_version))) (\<lambda>deleted.
     if deleted \<noteq> Int_reply 1 then raiseP (Rbac (unauthenticated ''inactive_access_token''))
     else returnP ())"

fun natural_replies :: "redis_reply list \<Rightarrow> int list option" where
  "natural_replies [] = Some []"
| "natural_replies (Int_reply i # rest) =
     (if i < 0 then None else map_option ((#) i) (natural_replies rest))"
| "natural_replies (_ # rest) = None"

definition list_active_sessions ::
    "token_libs \<Rightarrow> platform \<Rightarrow> settings \<Rightarrow> uuid \<Rightarrow> int \<Rightarrow> redis_io \<Rightarrow> (redis, int list) proc" where
  "list_active_sessions libs pf s user_id token_version io =
     bindP (registry_call io (list_user_sessions libs (user_session_keys pf s user_id) token_version)) (\<lambda>reply.
     case (case reply of List_reply xs \<Rightarrow> natural_replies xs | _ \<Rightarrow> None) of
       None \<Rightarrow> raiseP (Rbac (unavailable ''active_token_registry_unavailable''))
     | Some values \<Rightarrow> returnP values)"

end
