(* ===== verification/Registry.thy ===== *)
theory Registry
  imports Tokens
begin

text \<open>
  The registry of the active sessions of one user, as what it promises: a token version, the
  sessions in the order of their activation, and a deadline until which the version is
  remembered. The scripts refine the operations of this specification: \<open>stores\<close> relates the
  three Redis keys of the user to the registry they represent.
\<close>

subsection \<open>The specification\<close>

record session =
  ss_field :: string
  ss_value :: pystr
  ss_expires :: int

record registry =
  rg_version :: int
  rg_sessions :: "session list"
  rg_deadline :: int

definition unexpired :: "int \<Rightarrow> session \<Rightarrow> bool" where
  "unexpired now x \<longleftrightarrow> sec_of now < ss_expires x"

definition drop_expired :: "int \<Rightarrow> registry \<Rightarrow> registry" where
  "drop_expired now r = r\<lparr>rg_sessions := filter (unexpired now) (rg_sessions r)\<rparr>"

definition newest :: "int \<Rightarrow> 'a list \<Rightarrow> 'a list" where
  "newest maximum xs = drop (length xs - nat maximum) xs"

definition activate_spec ::
    "session \<Rightarrow> int \<Rightarrow> int \<Rightarrow> int \<Rightarrow> registry option \<Rightarrow> int \<times> registry option" where
  "activate_spec new version maximum now R =
     (if maximum < 1 \<or> version < 0 \<or> \<not> unexpired now new then (-1, R)
      else case R of
        None \<Rightarrow>
          (1, Some \<lparr>rg_version = version, rg_sessions = [new], rg_deadline = ss_expires new * 1000\<rparr>)
      | Some r \<Rightarrow>
          if rg_version r > version then (-2, R)
          else
            let kept = filter (unexpired now) (rg_sessions r) in
            if ss_field new \<in> ss_field ` set kept then (0, Some (drop_expired now r))
            else (1, Some \<lparr>rg_version = version,
              rg_sessions = newest maximum ((if rg_version r = version then kept else []) @ [new]),
              rg_deadline = max (ss_expires new * 1000) (rg_deadline r)\<rparr>))"

definition without_session :: "string \<Rightarrow> registry \<Rightarrow> registry" where
  "without_session f r = r\<lparr>rg_sessions := filter (\<lambda>x. ss_field x \<noteq> f) (rg_sessions r)\<rparr>"

definition session_of :: "string \<Rightarrow> registry \<Rightarrow> session option" where
  "session_of f r = find (\<lambda>x. ss_field x = f) (rg_sessions r)"

text \<open>At the deadline, in milliseconds, the registry is forgotten.\<close>

definition remembered :: "int \<Rightarrow> registry option \<Rightarrow> registry option" where
  "remembered now R = (case R of None \<Rightarrow> None | Some r \<Rightarrow> if rg_deadline r < ms_of now then None else Some r)"

subsection \<open>Collections in the store\<close>

definition hash_at :: "int \<Rightarrow> string \<Rightarrow> (string \<times> pystr) list \<Rightarrow> int option \<Rightarrow> redis \<Rightarrow> bool" where
  "hash_at now k h e s \<longleftrightarrow> r_lookup now k s = (if h = [] then None else Some (R_Hash h, e))"

definition zset_at :: "int \<Rightarrow> string \<Rightarrow> (string \<times> int) list \<Rightarrow> int option \<Rightarrow> redis \<Rightarrow> bool" where
  "zset_at now k z e s \<longleftrightarrow> r_lookup now k s = (if z = [] then None else Some (R_Zset z, e))"

definition in_time :: "int \<Rightarrow> int option \<Rightarrow> bool" where
  "in_time now e \<longleftrightarrow> (case e of None \<Rightarrow> True | Some t \<Rightarrow> ms_of now \<le> t)"

lemma lookup_in_time: "r_lookup now k s = Some (v, e) \<Longrightarrow> in_time now e"
  using lookup_expiry [of now k s v] by (cases e) (auto simp: in_time_def)

lemma lookup_put_in_time: "in_time now e \<Longrightarrow> r_lookup now k (r_put k v e s) = Some (v, e)"
  by (cases e) (auto simp: in_time_def)

lemma collection_at_frame:
  "k \<noteq> k' \<Longrightarrow> hash_at now k h e (r_put k' v e' s) = hash_at now k h e s"
  "k \<noteq> k' \<Longrightarrow> hash_at now k h e (r_del k' s) = hash_at now k h e s"
  "k \<noteq> k' \<Longrightarrow> zset_at now k z e (r_put k' v e' s) = zset_at now k z e s"
  "k \<noteq> k' \<Longrightarrow> zset_at now k z e (r_del k' s) = zset_at now k z e s"
  by (simp_all add: hash_at_def zset_at_def)

lemma collection_at_Nil:
  "hash_at now k [] e s \<longleftrightarrow> r_lookup now k s = None" "zset_at now k [] e s \<longleftrightarrow> r_lookup now k s = None"
  "hash_at now k [] e (r_del k s)" "zset_at now k [] e (r_del k s)"
  by (simp_all add: hash_at_def zset_at_def)

lemma collection_at_put:
  "in_time now e \<Longrightarrow> h \<noteq> [] \<Longrightarrow> hash_at now k h e (r_put k (R_Hash h) e s)"
  "in_time now e \<Longrightarrow> z \<noteq> [] \<Longrightarrow> zset_at now k z e (r_put k (R_Zset z) e s)"
  by (simp_all add: hash_at_def zset_at_def lookup_put_in_time del: lookup_put_same)

lemma read_collections:
  "hash_at now k h e s \<Longrightarrow> r_hash now k s = (Inr (h, if h = [] then None else e), s)"
  "zset_at now k z e s \<Longrightarrow> r_zset now k s = (Inr (z, if z = [] then None else e), s)"
  by (simp_all add: hash_at_def zset_at_def r_hash_def r_zset_def)

lemma collection_in_time:
  "hash_at now k h e s \<Longrightarrow> h \<noteq> [] \<Longrightarrow> in_time now e" "zset_at now k z e s \<Longrightarrow> z \<noteq> [] \<Longrightarrow> in_time now e"
  by (auto simp: hash_at_def zset_at_def intro: lookup_in_time)

lemma in_time_None [simp]: "in_time now None"
  by (simp add: in_time_def)

text \<open>The three keys of a user, next to a store \<open>s0\<close> they leave alone elsewhere.\<close>

definition distinct_keys :: "session_keys \<Rightarrow> bool" where
  "distinct_keys keys \<longleftrightarrow> (case keys of (a, b, c) \<Rightarrow> distinct [a, b, c])"

definition same_elsewhere :: "session_keys \<Rightarrow> redis \<Rightarrow> redis \<Rightarrow> bool" where
  "same_elsewhere keys s0 s \<longleftrightarrow>
     (case keys of (a, b, c) \<Rightarrow> \<forall>k. k \<notin> {a, b, c} \<longrightarrow> s k = s0 k)"

definition view ::
    "int \<Rightarrow> session_keys \<Rightarrow> (string \<times> pystr) list \<Rightarrow> int option \<Rightarrow> (string \<times> int) list \<Rightarrow> int option
      \<Rightarrow> (string \<times> int) list \<Rightarrow> int option \<Rightarrow> redis \<Rightarrow> redis \<Rightarrow> bool" where
  "view now keys h e1 z e2 x e3 s0 s \<longleftrightarrow>
     distinct_keys keys \<and> same_elsewhere keys s0 s \<and>
     (case keys of (a, b, c) \<Rightarrow> hash_at now a h e1 s \<and> zset_at now b z e2 s \<and> zset_at now c x e3 s)"

lemma viewE:
  assumes "view now (a, b, c) h e1 z e2 x e3 s0 s"
  obtains "a \<noteq> b" "a \<noteq> c" "b \<noteq> c" "hash_at now a h e1 s" "zset_at now b z e2 s" "zset_at now c x e3 s"
    "\<And>k. k \<notin> {a, b, c} \<Longrightarrow> s k = s0 k"
  using assms by (auto simp: view_def distinct_keys_def same_elsewhere_def)

lemma viewI:
  assumes "a \<noteq> b" "a \<noteq> c" "b \<noteq> c" "hash_at now a h e1 s" "zset_at now b z e2 s" "zset_at now c x e3 s"
    "\<And>k. k \<notin> {a, b, c} \<Longrightarrow> s k = s0 k"
  shows "view now (a, b, c) h e1 z e2 x e3 s0 s"
  using assms by (auto simp: view_def distinct_keys_def same_elsewhere_def)

lemma elsewhere_simps [simp]: "k \<noteq> k' \<Longrightarrow> r_del k' s k = s k" "k \<noteq> k' \<Longrightarrow> r_put k' v e s k = s k"
  by (simp_all add: r_del_def r_put_def)

lemma view_del:
  assumes "view now (a, b, c) h e1 z e2 x e3 s0 s"
  shows "view now (a, b, c) [] e z e2 x e3 s0 (r_del a s)"
    "view now (a, b, c) h e1 [] e x e3 s0 (r_del b s)"
    "view now (a, b, c) h e1 z e2 [] e s0 (r_del c s)"
  by (rule viewE [OF assms], rule viewI; simp add: collection_at_frame collection_at_Nil(3,4))+

lemma view_put:
  assumes "view now (a, b, c) h e1 z e2 x e3 s0 s" "in_time now e"
  shows "h' \<noteq> [] \<Longrightarrow> view now (a, b, c) h' e z e2 x e3 s0 (r_put a (R_Hash h') e s)"
    "z' \<noteq> [] \<Longrightarrow> view now (a, b, c) h e1 z' e x e3 s0 (r_put b (R_Zset z') e s)"
    "x' \<noteq> [] \<Longrightarrow> view now (a, b, c) h e1 z e2 x' e s0 (r_put c (R_Zset x') e s)"
  by (rule viewE [OF assms(1)], rule viewI; simp add: collection_at_frame collection_at_put assms(2))+

lemma view_in_time:
  assumes "view now (a, b, c) h e1 z e2 x e3 s0 s"
  shows "h \<noteq> [] \<Longrightarrow> in_time now e1" "z \<noteq> [] \<Longrightarrow> in_time now e2" "x \<noteq> [] \<Longrightarrow> in_time now e3"
  using assms by (auto elim!: viewE dest: collection_in_time)


subsection \<open>The commands on a view\<close>

lemma yields_simps [simp]:
  "yields (updateP f) s Q \<longleftrightarrow> Q () (f s)" "yields (readP g) s R \<longleftrightarrow> R (g s) s"
  by (simp_all add: yields_def)

lemma view_reads:
  assumes "view now (a, b, c) h e1 z e2 x e3 s0 s"
  shows "yields (r_hget now a f) s Q \<longleftrightarrow> Q (map_of h f) s"
    "yields (r_zrange now b) s Q1 \<longleftrightarrow> Q1 z s"
    "yields (r_zcard now b) s Q2 \<longleftrightarrow> Q2 (int (length z)) s"
    "yields (r_zscore now b f) s Q3 \<longleftrightarrow> Q3 (map_of z f) s"
    "yields (r_zscore now c f) s Q3 \<longleftrightarrow> Q3 (map_of x f) s"
    "yields (r_zrangebyscore now c bound) s Q4 \<longleftrightarrow> Q4 (map fst (filter (\<lambda>p. snd p \<le> bound) x)) s"
  using assms by (auto elim!: viewE simp: yields_def r_hget_def r_zrange_def r_zcard_def r_zscore_def
      r_zrangebyscore_def bindP_def read_collections)

lemma viewD:
  assumes "view now (a, b, c) h e1 z e2 x e3 s0 s"
  shows "hash_at now a h e1 s" "zset_at now b z e2 s" "zset_at now c x e3 s"
  using assms by (auto elim: viewE)

lemma delete_absent: "f \<notin> fst ` set h \<Longrightarrow> AList.delete f h = h"
  by (simp add: AList.delete_eq filter_id_conv) force

lemma filter_is_delete: "filter (\<lambda>x. fst x \<noteq> f) h = AList.delete f h"
  by (simp add: AList.delete_eq case_prod_unfold neq_commute)

lemma update_not_Nil: "AList.update f y h \<noteq> []"
  by (cases h) (auto split: if_splits)

text \<open>A write leaves a collection, or no key where it is empty.\<close>

definition put_hash :: "string \<Rightarrow> (string \<times> pystr) list \<Rightarrow> int option \<Rightarrow> redis \<Rightarrow> redis" where
  "put_hash k h e s = (if h = [] then r_del k s else r_put k (R_Hash h) e s)"

definition put_zset :: "string \<Rightarrow> (string \<times> int) list \<Rightarrow> int option \<Rightarrow> redis \<Rightarrow> redis" where
  "put_zset k z e s = (if z = [] then r_del k s else r_put k (R_Zset z) e s)"

lemma view_put_any:
  assumes "view now (a, b, c) h e1 z e2 x e3 s0 s" "in_time now e"
  shows "view now (a, b, c) h' e z e2 x e3 s0 (put_hash a h' e s)"
    "view now (a, b, c) h e1 z' e x e3 s0 (put_zset b z' e s)"
    "view now (a, b, c) h e1 z e2 x' e s0 (put_zset c x' e s)"
  using view_put [OF assms] view_del [OF assms(1)] by (auto simp: put_hash_def put_zset_def)

lemma hash_commands:
  assumes "hash_at now k h e s"
  shows "r_hset now k f y s = (Inr (), put_hash k (AList.update f y h) (if h = [] then None else e) s)"
    "r_hdel now k f s = (Inr (), if f \<in> fst ` set h then put_hash k (AList.delete f h) e s else s)"
  using read_collections(1) [OF assms]
  by (auto simp: r_hset_def r_hdel_def bindP_def write_hash_def put_hash_def filter_is_delete)

lemma zset_commands:
  assumes "zset_at now k z e s"
  shows "r_zadd now k score f s = (Inr (), put_zset k (zset_add f score z) (if z = [] then None else e) s)"
    "r_zrem now k f s = (Inr (), if f \<in> fst ` set z then put_zset k (AList.delete f z) e s else s)"
  using read_collections(2) [OF assms]
  by (auto simp: r_zadd_def r_zrem_def bindP_def write_zset_def put_zset_def filter_is_delete)

lemma view_hset:
  assumes v: "view now (a, b, c) h e1 z e2 x e3 s0 s"
  shows "yields (r_hset now a f y) s
    (\<lambda>_ t. view now (a, b, c) (AList.update f y h) (if h = [] then None else e1) z e2 x e3 s0 t)"
  using view_put_any(1) [OF v] view_in_time(1) [OF v] hash_commands(1) [OF viewD(1) [OF v]]
  by (simp add: yields_def)

lemma view_zadd:
  assumes v: "view now (a, b, c) h e1 z e2 x e3 s0 s"
  shows "yields (r_zadd now b score f) s
      (\<lambda>_ t. view now (a, b, c) h e1 (zset_add f score z) (if z = [] then None else e2) x e3 s0 t)"
    "yields (r_zadd now c score f) s
      (\<lambda>_ t. view now (a, b, c) h e1 z e2 (zset_add f score x) (if x = [] then None else e3) s0 t)"
  using view_put_any(2,3) [OF v] view_in_time(2,3) [OF v]
    zset_commands(1) [OF viewD(2) [OF v]] zset_commands(1) [OF viewD(3) [OF v]]
  by (simp_all add: yields_def)

lemma view_removals:
  assumes v: "view now (a, b, c) h e1 z e2 x e3 s0 s"
  shows "yields (r_hdel now a f) s (\<lambda>_ t. view now (a, b, c) (AList.delete f h) e1 z e2 x e3 s0 t)"
    "yields (r_zrem now b f) s (\<lambda>_ t. view now (a, b, c) h e1 (AList.delete f z) e2 x e3 s0 t)"
    "yields (r_zrem now c f) s (\<lambda>_ t. view now (a, b, c) h e1 z e2 (AList.delete f x) e3 s0 t)"
proof -
  have present: "f \<in> fst ` set ps \<Longrightarrow> ps \<noteq> []" for ps :: "(string \<times> 'z) list"
    by auto
  show "yields (r_hdel now a f) s (\<lambda>_ t. view now (a, b, c) (AList.delete f h) e1 z e2 x e3 s0 t)"
    using view_put_any(1) [OF v] view_in_time(1) [OF v present] hash_commands(2) [OF viewD(1) [OF v]] v
    by (cases "f \<in> fst ` set h") (simp_all add: yields_def delete_absent)
  show "yields (r_zrem now b f) s (\<lambda>_ t. view now (a, b, c) h e1 (AList.delete f z) e2 x e3 s0 t)"
    using view_put_any(2) [OF v] view_in_time(2) [OF v present] zset_commands(2) [OF viewD(2) [OF v]] v
    by (cases "f \<in> fst ` set z") (simp_all add: yields_def delete_absent)
  show "yields (r_zrem now c f) s (\<lambda>_ t. view now (a, b, c) h e1 z e2 (AList.delete f x) e3 s0 t)"
    using view_put_any(3) [OF v] view_in_time(3) [OF v present] zset_commands(2) [OF viewD(3) [OF v]] v
    by (cases "f \<in> fst ` set x") (simp_all add: yields_def delete_absent)
qed

lemma view_remove_session:
  assumes "view now keys h e1 z e2 x e3 s0 s"
  shows "yields (remove_session now keys f) s
    (\<lambda>_ t. view now keys (AList.delete f h) e1 (AList.delete f z) e2 (AList.delete f x) e3 s0 t)"
proof -
  obtain a b c where keys: "keys = (a, b, c)" by (cases keys)
  show ?thesis
    using assms unfolding keys remove_session_def
    by (auto simp: yields_bind intro!: yields_mono [OF view_removals(1)] yields_mono [OF view_removals(2)]
        view_removals(3))
qed

lemma view_deadline:
  assumes v: "view now (a, b, c) h e1 z e2 x e3 s0 s" and "ms_of now < d"
  shows "view now (a, b, c) h (Some d) z e2 x e3 s0 (r_pexpireat now a d s)"
    "view now (a, b, c) h e1 z (Some d) x e3 s0 (r_pexpireat now b d s)"
    "view now (a, b, c) h e1 z e2 x (Some d) s0 (r_pexpireat now c d s)"
proof -
  have d: "in_time now (Some d)" "\<not> d \<le> ms_of now" using assms(2) by (simp_all add: in_time_def)
  show "view now (a, b, c) h (Some d) z e2 x e3 s0 (r_pexpireat now a d s)"
    using view_put_any(1) [OF v d(1), of h] viewD(1) [OF v] v d(2)
    by (auto simp: r_pexpireat_def hash_at_def put_hash_def view_def split: if_splits)
  show "view now (a, b, c) h e1 z (Some d) x e3 s0 (r_pexpireat now b d s)"
    using view_put_any(2) [OF v d(1), of z] viewD(2) [OF v] v d(2)
    by (auto simp: r_pexpireat_def zset_at_def put_zset_def view_def split: if_splits)
  show "view now (a, b, c) h e1 z e2 x (Some d) s0 (r_pexpireat now c d s)"
    using view_put_any(3) [OF v d(1), of x] viewD(3) [OF v] v d(2)
    by (auto simp: r_pexpireat_def zset_at_def put_zset_def view_def split: if_splits)
qed

text \<open>The commands as steps of a proof about a script.\<close>

lemma view_steps:
  assumes v: "view now (a, b, c) h e1 z e2 x e3 s0 s"
  shows "Q1 (map_of h f) s \<Longrightarrow> yields (r_hget now a f) s Q1"
    "(\<And>t. view now (a, b, c) (AList.update f y h) (if h = [] then None else e1) z e2 x e3 s0 t \<Longrightarrow> Q2 () t)
       \<Longrightarrow> yields (r_hset now a f y) s Q2"
    "Q3 z s \<Longrightarrow> yields (r_zrange now b) s Q3"
    "(\<And>t. view now (a, b, c) h e1 (zset_add f score z) (if z = [] then None else e2) x e3 s0 t \<Longrightarrow> Q2 () t)
       \<Longrightarrow> yields (r_zadd now b score f) s Q2"
    "(\<And>t. view now (a, b, c) h e1 z e2 (zset_add f score x) (if x = [] then None else e3) s0 t \<Longrightarrow> Q2 () t)
       \<Longrightarrow> yields (r_zadd now c score f) s Q2"
    "Q4 (int (length z)) s \<Longrightarrow> yields (r_zcard now b) s Q4"
    "Q5 (map_of x f) s \<Longrightarrow> yields (r_zscore now c f) s Q5"
    "Q5 (map_of z f) s \<Longrightarrow> yields (r_zscore now b f) s Q5"
  using view_reads [OF v] yields_mono [OF view_hset [OF v]] yields_mono [OF view_zadd(1) [OF v]]
    yields_mono [OF view_zadd(2) [OF v]]
  by (simp_all)

lemma view_pexpiretime:
  assumes "view now (a, b, c) h e1 z e2 x e3 s0 s"
  shows "r_pexpiretime now a s = (if h = [] then -2 else case e1 of None \<Rightarrow> -1 | Some e \<Rightarrow> e)"
  using viewD(1) [OF assms] by (auto simp: r_pexpiretime_def hash_at_def)


subsection \<open>Sessions as the collections hold them\<close>

abbreviation by_field :: "(session \<Rightarrow> 'a) \<Rightarrow> session list \<Rightarrow> (string \<times> 'a) list" where
  "by_field g ss \<equiv> map (\<lambda>x. (ss_field x, g x)) ss"

definition tables ::
    "session list \<Rightarrow> pystr option \<Rightarrow> (string \<times> pystr) list \<Rightarrow> (string \<times> int) list \<Rightarrow> (string \<times> int) list \<Rightarrow> bool" where
  "tables ss ver h z x \<longleftrightarrow>
     distinct (map ss_field ss) \<and> ''_version'' \<notin> ss_field ` set ss \<and>
     distinct (map fst h) \<and> map_of h = (map_of (by_field ss_value ss))(''_version'' := ver) \<and>
     map fst z = map ss_field ss \<and> sorted_wrt (<) (map snd z) \<and>
     distinct (map fst x) \<and> map_of x = map_of (by_field ss_expires ss)"

lemma map_of_by_field_remove:
  "map_of (by_field g (filter (\<lambda>y. ss_field y \<noteq> f) ss)) = (map_of (by_field g ss))(f := None)"
  by (induction ss) (auto simp: fun_eq_iff)

lemma delete_map_fst: "map fst (AList.delete f z) = filter (\<lambda>m. m \<noteq> f) (map fst z)"
  by (induction z) auto

lemma sorted_delete: "sorted_wrt (<) (map snd z) \<Longrightarrow> sorted_wrt (<) (map snd (AList.delete f z))"
  by (induction z) (auto simp: AList.delete_eq)

lemma tables_remove:
  assumes "tables ss ver h z x" "f \<noteq> ''_version''"
  shows "tables (filter (\<lambda>y. ss_field y \<noteq> f) ss) ver (AList.delete f h) (AList.delete f z) (AList.delete f x)"
  using assms
  by (auto simp: tables_def map_of_by_field_remove delete_conv' distinct_delete delete_map_fst sorted_delete
      filter_map comp_def distinct_map_filter fun_upd_twist)

lemma tables_expiries:
  assumes "tables ss ver h z x"
  shows "set x = set (by_field ss_expires ss)"
  using assms map_of_inject_set [of x "by_field ss_expires ss"] by (simp add: tables_def comp_def)

lemma prune_expired_view:
  assumes v: "view now keys h e1 z e2 x e3 s0 s" and t: "tables ss ver h z x"
  shows "yields (prune_expired now keys) s (\<lambda>_ u. \<exists>h z x.
    view now keys h e1 z e2 x e3 s0 u \<and> tables (filter (unexpired now) ss) ver h z x)"
proof -
  obtain a b c where keys: "keys = (a, b, c)" by (cases keys)
  let ?left = "\<lambda>fs. filter (\<lambda>y. unexpired now y \<or> ss_field y \<in> set fs) ss"
  let ?expired = "map fst (filter (\<lambda>p. snd p \<le> sec_of now) x)"
  define I where "I fs u \<longleftrightarrow> (\<exists>h z x. view now keys h e1 z e2 x e3 s0 u \<and> tables (?left fs) ver h z x) \<and>
      distinct fs \<and> (\<forall>y \<in> set ss. ss_field y \<in> set fs \<longrightarrow> \<not> unexpired now y) \<and> ''_version'' \<notin> set fs" for fs u
  have members: "ss_field y \<in> set ?expired \<longleftrightarrow> \<not> unexpired now y" if "y \<in> set ss" for y
  proof -
    have "inj_on ss_field (set ss)"
      using t by (simp add: tables_def distinct_map)
    with that show ?thesis
      using tables_expiries [OF t] by (auto simp: unexpired_def image_iff inj_on_def)
  qed
  have all: "?left ?expired = ss"
    using members by (auto simp: filter_id_conv)
  have "set ?expired \<subseteq> ss_field ` set ss"
    using tables_expiries [OF t] by auto
  moreover have "distinct ?expired"
    using t by (simp add: tables_def distinct_map_filter)
  moreover have "tables (?left ?expired) ver h z x"
    unfolding all by (rule t)
  ultimately have start: "I ?expired s"
    using v t members by (auto simp: I_def tables_def)
  have "yields (remove_session now keys f) u (\<lambda>_ w. I fs w)" if "I (f # fs) u" for f fs u
  proof -
    from that obtain h z x where w: "view now keys h e1 z e2 x e3 s0 u" "tables (?left (f # fs)) ver h z x"
      and fs: "distinct (f # fs)" "\<forall>y \<in> set ss. ss_field y \<in> set (f # fs) \<longrightarrow> \<not> unexpired now y"
        "''_version'' \<notin> set (f # fs)"
      by (auto simp: I_def)
    have gone: "filter (\<lambda>y. ss_field y \<noteq> f) (?left (f # fs)) = ?left fs"
      unfolding filter_filter using fs by (intro filter_cong) auto
    have "f \<noteq> ''_version''" using fs(3) by auto
    then have "tables (?left fs) ver (AList.delete f h) (AList.delete f z) (AList.delete f x)"
      using tables_remove [OF w(2), of f] unfolding gone by blast
    with fs show ?thesis
      by (intro yields_mono [OF view_remove_session [OF w(1)]]) (auto simp: I_def)
  qed
  then have "yields (each (remove_session now keys) ?expired) s (\<lambda>_ u. I [] u)"
    by (rule yields_each [of I, OF start])
  then have "yields (each (remove_session now keys) ?expired) s (\<lambda>_ u. \<exists>h z x.
      view now keys h e1 z e2 x e3 s0 u \<and> tables (filter (unexpired now) ss) ver h z x)"
    by (rule yields_mono) (simp add: I_def)
  then show ?thesis
    using view_reads(6) [OF v [unfolded keys]] by (simp add: prune_expired_def keys yields_bind)
qed

lemma newest_step: "maximum < int (length ss) \<Longrightarrow> 1 \<le> maximum \<Longrightarrow> newest maximum (tl ss) = newest maximum ss"
  by (cases ss) (auto simp: newest_def Suc_diff_le)

lemma newest_all: "int (length ss) \<le> maximum \<Longrightarrow> newest maximum ss = ss"
  by (simp add: newest_def)

lemma evict_view:
  assumes "view now keys h e1 z e2 x e3 s0 s" "tables ss ver h z x" "length ss \<le> n" "1 \<le> maximum"
  shows "yields (evict n now keys maximum) s (\<lambda>_ u. \<exists>h z x.
    view now keys h e1 z e2 x e3 s0 u \<and> tables (newest maximum ss) ver h z x)"
  using assms(1-3)
proof (induction n arbitrary: h z x s ss)
  case 0
  then show ?case by (auto simp: newest_def yields_def)
next
  case (Suc n)
  obtain a b c where keys: "keys = (a, b, c)" by (cases keys)
  have same: "map fst z = map ss_field ss" using Suc.prems(2) by (simp add: tables_def)
  then have len: "length z = length ss" by (metis length_map)
  show ?case
  proof (cases "maximum < int (length ss)")
    case False
    then show ?thesis
      using Suc.prems view_reads(3) [OF Suc.prems(1) [unfolded keys]]
      by (auto simp: yields_bind keys len newest_all)
  next
    case True
    then obtain y ys where ss: "ss = y # ys" using assms(4) by (cases ss) auto
    have "z \<noteq> []" using len ss by auto
    then have first: "fst (hd z) = ss_field y" using same ss by (cases z) auto
    have "tables (filter (\<lambda>w. ss_field w \<noteq> ss_field y) ss) ver (AList.delete (ss_field y) h)
        (AList.delete (ss_field y) z) (AList.delete (ss_field y) x)"
      using Suc.prems(2) by (intro tables_remove) (auto simp: tables_def ss)
    moreover have "ss_field y \<notin> ss_field ` set ys"
      using Suc.prems(2) by (simp add: tables_def ss)
    then have "ss_field w \<noteq> ss_field y" if "w \<in> set ys" for w
      using that by (metis imageI)
    then have "filter (\<lambda>w. ss_field w \<noteq> ss_field y) ss = tl ss"
      by (simp add: ss filter_id_conv)
    ultimately have "tables (tl ss) ver (AList.delete (ss_field y) h)
        (AList.delete (ss_field y) z) (AList.delete (ss_field y) x)" by simp
    then have "yields (remove_session now keys (ss_field y)) s (\<lambda>_ u.
        yields (evict n now keys maximum) u (\<lambda>_ u. \<exists>h z x.
          view now keys h e1 z e2 x e3 s0 u \<and> tables (newest maximum (tl ss)) ver h z x))"
      using Suc.prems(3) ss
      by (intro yields_mono [OF view_remove_session [OF Suc.prems(1)]] Suc.IH) auto
    with True show ?thesis
      using view_reads(2,3) [OF Suc.prems(1) [unfolded keys]]
      by (simp add: yields_bind keys len first newest_step [OF True assms(4)])
  qed
qed


subsection \<open>The registry the keys represent\<close>

definition registry_ok :: "registry \<Rightarrow> bool" where
  "registry_ok r \<longleftrightarrow> 0 \<le> rg_version r \<and>
     (\<forall>y \<in> set (rg_sessions r). ss_expires y * 1000 \<le> rg_deadline r)"

definition stores :: "int \<Rightarrow> session_keys \<Rightarrow> registry option \<Rightarrow> redis \<Rightarrow> redis \<Rightarrow> bool" where
  "stores now keys R s0 s \<longleftrightarrow>
     (case R of
        None \<Rightarrow> view now keys [] None [] None [] None s0 s
      | Some r \<Rightarrow> registry_ok r \<and> (\<exists>h z x.
          view now keys h (Some (rg_deadline r)) z (Some (rg_deadline r)) x (Some (rg_deadline r)) s0 s \<and>
          tables (rg_sessions r) (Some (encode_int (rg_version r))) h z x))"

lemma lookup_later:
  assumes "r_lookup now k s = v" "now \<le> later"
  shows "r_lookup later k s = (case v of None \<Rightarrow> None | Some (w, e) \<Rightarrow> if in_time later e then Some (w, e) else None)"
  using assms ms_of_mono [OF assms(2)]
  by (cases "s k"; cases "snd (the (s k))") (auto simp: r_lookup_def in_time_def split: if_splits)

lemma collection_later:
  "hash_at now k h e s \<Longrightarrow> now \<le> later \<Longrightarrow> hash_at later k (if in_time later e then h else []) e s"
  "zset_at now k z e s \<Longrightarrow> now \<le> later \<Longrightarrow> zset_at later k (if in_time later e then z else []) e s"
  unfolding hash_at_def zset_at_def by (drule (1) lookup_later, simp)+

lemma view_later:
  assumes "view now keys h e1 z e2 x e3 s0 s" "now \<le> later"
  shows "view later keys (if in_time later e1 then h else []) e1 (if in_time later e2 then z else []) e2
    (if in_time later e3 then x else []) e3 s0 s"
proof -
  obtain a b c where keys: "keys = (a, b, c)" by (cases keys)
  show ?thesis
    using assms(1) unfolding keys
    by (auto elim!: viewE intro!: viewI collection_later [OF _ assms(2)] simp del: if_split
        dest: collection_later [OF _ assms(2)])
qed

lemma view_Nil: "view now keys [] e1 [] e2 [] e3 s0 s \<Longrightarrow> view now keys [] e1' [] e2' [] e3' s0 s"
  by (simp add: view_def collection_at_Nil split: prod.splits)

text \<open>With time the keys only lose the registry, at its deadline.\<close>

lemma stores_later:
  assumes "stores now keys R s0 s" "now \<le> later"
  shows "stores later keys (remembered later R) s0 s"
proof (cases R)
  case None
  with assms view_later [of now keys "[]" None "[]" None "[]" None s0 s later] show ?thesis
    by (simp add: stores_def remembered_def)
next
  case (Some r)
  then obtain h z x where v: "view now keys h (Some (rg_deadline r)) z (Some (rg_deadline r)) x (Some (rg_deadline r)) s0 s"
    and t: "tables (rg_sessions r) (Some (encode_int (rg_version r))) h z x" and ok: "registry_ok r"
    using assms(1) by (auto simp: stores_def)
  show ?thesis
  proof (cases "rg_deadline r < ms_of later")
    case True
    then have "\<not> in_time later (Some (rg_deadline r))" by (simp add: in_time_def)
    then have "view later keys [] None [] None [] None s0 s"
      using view_later [OF v assms(2)] by (auto intro: view_Nil)
    with True Some show ?thesis by (simp add: stores_def remembered_def)
  next
    case False
    then have "in_time later (Some (rg_deadline r))" by (simp add: in_time_def)
    then have "view later keys h (Some (rg_deadline r)) z (Some (rg_deadline r)) x (Some (rg_deadline r)) s0 s"
      using view_later [OF v assms(2)] by auto
    with False Some t ok show ?thesis by (auto simp: stores_def remembered_def)
  qed
qed


subsection \<open>The scripts refine the specification\<close>

lemma zset_add_last:
  assumes "f \<notin> fst ` set z" "\<And>p. p \<in> set z \<Longrightarrow> snd p < score"
  shows "zset_add f score z = z @ [(f, score)]"
proof -
  have "filter (\<lambda>x. fst x \<noteq> f) z = z" using assms(1) by (force simp: filter_id_conv)
  moreover have "takeWhile (zset_before f score) z = z" "dropWhile (zset_before f score) z = []"
    using assms(2) by (auto simp: zset_before_def takeWhile_eq_all_conv)
  ultimately show ?thesis by (simp add: zset_add_def)
qed

lemma map_of_middle: "f \<notin> fst ` set l \<Longrightarrow> map_of (l @ (f, v) # r) = (map_of (l @ r))(f \<mapsto> v)"
  by (induction l) (auto simp: fun_upd_twist)

lemma zset_add_map_of:
  assumes "f \<notin> fst ` set z" "distinct (map fst z)"
  shows "map_of (zset_add f score z) = (map_of z)(f \<mapsto> score)" "distinct (map fst (zset_add f score z))"
proof -
  have z: "filter (\<lambda>x. fst x \<noteq> f) z = z" using assms(1) by (force simp: filter_id_conv)
  obtain l r where lr: "z = l @ r" "zset_add f score z = l @ (f, score) # r"
    using takeWhile_dropWhile_id [of "zset_before f score" z] by (metis z zset_add_def)
  have "f \<notin> fst ` set l" using assms(1) by (auto simp: lr)
  then show "map_of (zset_add f score z) = (map_of z)(f \<mapsto> score)"
    unfolding lr(2) unfolding lr(1) by (rule map_of_middle)
  show "distinct (map fst (zset_add f score z))"
    using assms unfolding lr(2) unfolding lr(1) by auto
qed

lemma map_of_by_field_snoc:
  "ss_field y \<notin> ss_field ` set ss \<Longrightarrow>
     map_of (by_field g ss @ [(ss_field y, g y)]) = (map_of (by_field g ss))(ss_field y \<mapsto> g y)"
  using map_of_middle [of "ss_field y" "by_field g ss" "g y" "[]"] by (simp add: image_image)

lemma tables_add:
  assumes t: "tables ss ver h z x" and new: "ss_field y \<notin> ss_field ` set ss" "ss_field y \<noteq> ''_version''"
    and score: "\<And>p. p \<in> set z \<Longrightarrow> snd p < score"
  shows "tables (ss @ [y]) (Some v) (AList.update ''_version'' v (AList.update (ss_field y) (ss_value y) h))
    (zset_add (ss_field y) score z) (zset_add (ss_field y) (ss_expires y) x)"
proof -
  have dom: "fst ` set z = ss_field ` set ss" using t by (metis list.set_map tables_def)
  have domx: "fst ` set x = ss_field ` set ss" using tables_expiries [OF t] by (force simp: image_iff)
  have "zset_add (ss_field y) score z = z @ [(ss_field y, score)]"
    using new(1) score by (intro zset_add_last) (auto simp: dom)
  moreover note zset_add_map_of [of "ss_field y" x "ss_expires y"]
  ultimately show ?thesis
    using t new score domx
    by (auto simp: tables_def update_conv' distinct_update sorted_wrt_append fun_upd_twist map_of_by_field_snoc
        simp del: map_of_append)
qed


lemma tables_last_score:
  assumes "tables ss ver h z x" "p \<in> set z"
  shows "snd p < (if z = [] then now else max now (snd (last z) + 1))"
proof -
  have "z \<noteq> []" using assms(2) by auto
  have "snd p \<le> snd (last z)"
  proof -
    obtain i where i: "i < length z" "p = z ! i" using assms(2) by (metis in_set_conv_nth)
    have "i < length z - 1 \<Longrightarrow> snd (z ! i) < snd (z ! (length z - 1))"
      using assms(1) sorted_wrt_nth_less [of "(<)" "map snd z" i "length z - 1"] by (simp add: tables_def)
    moreover have "i = length z - 1 \<or> i < length z - 1" using i(1) by linarith
    ultimately show ?thesis using i \<open>z \<noteq> []\<close> by (auto simp: last_conv_nth)
  qed
  then show ?thesis using \<open>z \<noteq> []\<close> by auto
qed

lemma set_newest: "set (newest n xs) \<subseteq> set xs"
  by (auto simp: newest_def dest: in_set_dropD)

lemma add_session_view:
  assumes v: "view now keys h e1 z e2 x e3 s0 s" and t: "tables ss ver h z x"
    and new: "ss_field y \<notin> ss_field ` set ss" "ss_field y \<noteq> ''_version''"
    and maximum: "1 \<le> maximum" and d: "ms_of now < d"
  shows "yields (add_session keys (ss_field y) (ss_value y) (ss_expires y) version maximum d now) s
    (\<lambda>reply u. reply = Int_reply 1 \<and> (\<exists>h z x. view now keys h (Some d) z (Some d) x (Some d) s0 u \<and>
       tables (newest maximum (ss @ [y])) (Some (encode_int version)) h z x))"
proof -
  obtain a b c where keys: "keys = (a, b, c)" by (cases keys)
  note v = v [unfolded keys]
  have absent: "map_of h (ss_field y) = None"
    using t new by (simp add: tables_def map_of_eq_None_iff image_image)
  let ?h1 = "AList.update (ss_field y) (ss_value y) h"
  let ?h2 = "AList.update ''_version'' (encode_int version) ?h1"
  let ?score = "if z = [] then now else max now (snd (last z) + 1)"
  have tables2: "tables (ss @ [y]) (Some (encode_int version)) ?h2 (zset_add (ss_field y) ?score z)
      (zset_add (ss_field y) (ss_expires y) x)"
    by (rule tables_add [OF t new tables_last_score [OF t]])
  have "map fst (zset_add (ss_field y) ?score z) = map ss_field (ss @ [y])"
    using tables2 unfolding tables_def by (elim conjE)
  from arg_cong [OF this, of length] have "length (zset_add (ss_field y) ?score z) = length (ss @ [y])"
    by simp
  then have count: "length (ss @ [y]) \<le> nat (int (length (zset_add (ss_field y) ?score z)))"
    by simp
  let ?Q = "\<lambda>u. \<exists>h z x. view now (a, b, c) h (Some d) z (Some d) x (Some d) s0 u \<and>
       tables (newest maximum (ss @ [y])) (Some (encode_int version)) h z x"
  have last: "?Q (r_pexpireat now c d (r_pexpireat now b d (r_pexpireat now a d u)))"
    if "view now (a, b, c) h' e1' z' e2' x' e3' s0 u"
      "tables (newest maximum (ss @ [y])) (Some (encode_int version)) h' z' x'" for u h' e1' z' e2' x' e3'
    using view_deadline(3) [OF view_deadline(2) [OF view_deadline(1) [OF that(1) d] d] d] that(2) by blast
  have evicted: "yields (evict (nat (int (length (zset_add (ss_field y) ?score z)))) now (a, b, c) maximum) u
      (\<lambda>_ w. ?Q (r_pexpireat now c d (r_pexpireat now b d (r_pexpireat now a d w))))"
    if "view now (a, b, c) ?h2 e1' (zset_add (ss_field y) ?score z) e2'
         (zset_add (ss_field y) (ss_expires y) x) e3' s0 u" for u e1' e2' e3'
    by (rule yields_mono [OF evict_view [OF that tables2 count maximum]]) (elim exE conjE, rule last)
  show ?thesis
    unfolding add_session_def keys prod.case r_hsetnx_def Let_def yields_bind
    apply (rule view_steps(1) [OF v])
    apply (simp only: absent simp_thms if_True yields_bind)
    apply (rule view_steps(2) [OF v])
    apply (simp only: yields_return simp_thms if_False not_True_eq_False yields_bind)
    apply (rule view_steps(2), assumption)
    apply (rule view_steps(3), assumption)
    apply (rule view_steps(4), assumption)
    apply (rule view_steps(5), assumption)
    apply (rule view_steps(6), assumption)
    apply (simp only: each.simps yields_bind yields_simps yields_return)
    apply (rule evicted, assumption)
    done
qed


lemma tables_not_Nil: "tables ss (Some v) h z x \<Longrightarrow> h \<noteq> []"
proof -
  assume "tables ss (Some v) h z x"
  then have "map_of h ''_version'' = Some v" by (simp add: tables_def)
  then show "h \<noteq> []" by auto
qed

lemma stores_viewE:
  assumes "stores now keys R s0 s"
  obtains "R = None" "view now keys [] None [] None [] None s0 s"
  | r h z x where "R = Some r" "registry_ok r" "ms_of now \<le> rg_deadline r" "h \<noteq> []"
      "view now keys h (Some (rg_deadline r)) z (Some (rg_deadline r)) x (Some (rg_deadline r)) s0 s"
      "tables (rg_sessions r) (Some (encode_int (rg_version r))) h z x"
proof (cases R)
  case None
  with assms that(1) show ?thesis by (simp add: stores_def)
next
  case (Some r)
  then obtain h z x where v: "registry_ok r"
      "view now keys h (Some (rg_deadline r)) z (Some (rg_deadline r)) x (Some (rg_deadline r)) s0 s"
      "tables (rg_sessions r) (Some (encode_int (rg_version r))) h z x"
    using assms by (auto simp: stores_def)
  then have h: "h \<noteq> []" by (blast dest: tables_not_Nil)
  obtain a b c where keys: "keys = (a, b, c)" by (cases keys)
  have "ms_of now \<le> rg_deadline r"
    using view_in_time(1) [OF v(2) [unfolded keys] h] by (simp add: in_time_def)
  with Some v h that(2) show ?thesis by blast
qed

lemma tables_field:
  assumes "tables ss ver h z x"
  shows "map_of h f = (if f = ''_version'' then ver else map_option ss_value (find (\<lambda>y. ss_field y = f) ss))"
    "map_of x f = map_option ss_expires (find (\<lambda>y. ss_field y = f) ss)"
    "map_of z f = None \<longleftrightarrow> f \<notin> ss_field ` set ss"
proof -
  have m: "map_of (by_field g ss) f = map_option g (find (\<lambda>y. ss_field y = f) ss)" for g :: "session \<Rightarrow> 'z"
    by (induction ss) auto
  show "map_of h f = (if f = ''_version'' then ver else map_option ss_value (find (\<lambda>y. ss_field y = f) ss))"
    "map_of x f = map_option ss_expires (find (\<lambda>y. ss_field y = f) ss)"
    using assms by (auto simp: tables_def m)
  have "fst ` set z = ss_field ` set ss"
    using assms unfolding tables_def by (metis list.set_map)
  then show "map_of z f = None \<longleftrightarrow> f \<notin> ss_field ` set ss"
    by (simp add: map_of_eq_None_iff)
qed

lemma tables_nil: "tables [] None [] [] []"
  by (auto simp: tables_def)

lemma pruned_ok: "registry_ok r \<Longrightarrow> registry_ok (drop_expired now r)"
  by (auto simp: registry_ok_def drop_expired_def)

lemma future_ms: "sec_of now < e \<Longrightarrow> ms_of now < e * 1000"
  by (simp add: sec_of_def ms_of_def)

lemma find_field_None: "find (\<lambda>y. ss_field y = f) ss = None \<longleftrightarrow> f \<notin> ss_field ` set ss"
  by (auto simp: find_None_iff)

lemma storesI:
  assumes "view now keys h (Some (rg_deadline r)) z (Some (rg_deadline r)) x (Some (rg_deadline r)) s0 s"
    "tables (rg_sessions r) (Some (encode_int (rg_version r))) h z x" "registry_ok r"
  shows "stores now keys (Some r) s0 s"
  using assms by (auto simp: stores_def)

lemma view_del_all:
  "view now (a, b, c) h e1 z e2 x e3 s0 s \<Longrightarrow>
     view now (a, b, c) [] None [] None [] None s0 (r_del c (r_del b (r_del a s)))"
  by (intro view_del)

definition answers :: "(redis, redis_reply) proc \<Rightarrow> redis \<Rightarrow> int \<Rightarrow> session_keys \<Rightarrow> redis \<Rightarrow> int \<times> registry option \<Rightarrow> bool" where
  "answers m s now keys s0 answer \<longleftrightarrow>
     yields m s (\<lambda>reply u. reply = Int_reply (fst answer) \<and> stores now keys (snd answer) s0 u)"

lemma add_session_answers:
  assumes "view now keys h e1 z e2 x e3 s0 s" "tables ss ver h z x"
    "ss_field y \<notin> ss_field ` set ss" "ss_field y \<noteq> ''_version''" "1 \<le> maximum" "0 \<le> version"
    "unexpired now y" "\<And>w. w \<in> set ss \<Longrightarrow> ss_expires w * 1000 \<le> d" "ss_expires y * 1000 \<le> d"
  shows "answers (add_session keys (ss_field y) (ss_value y) (ss_expires y) version maximum d now) s now keys s0
    (1, Some \<lparr>rg_version = version, rg_sessions = newest maximum (ss @ [y]), rg_deadline = d\<rparr>)"
proof -
  let ?r = "\<lparr>rg_version = version, rg_sessions = newest maximum (ss @ [y]), rg_deadline = d\<rparr>"
  have d: "ms_of now < d" using assms(7,9) future_ms [of now "ss_expires y"] by (simp add: unexpired_def)
  have "registry_ok ?r"
    using assms(6,8,9) set_newest [of maximum "ss @ [y]"] by (auto simp: registry_ok_def)
  then show ?thesis
    unfolding answers_def
    by (intro yields_mono [OF add_session_view [OF assms(1-5) d]]) (auto intro!: storesI [of _ _ _ ?r])
qed

lemma tables_none_Nil: "tables [] None h z x \<Longrightarrow> h = [] \<and> z = [] \<and> x = []"
  by (auto simp: tables_def)

lemma answers_add_session:
  "answers (bindP (updateP f) (\<lambda>_. m)) s now keys s0 r \<longleftrightarrow> answers m (f s) now keys s0 r"
  "answers (bindP (returnP x) (\<lambda>_. m)) s now keys s0 r \<longleftrightarrow> answers m s now keys s0 r"
  "yields m s (\<lambda>reply u. reply = Int_reply (fst r) \<and> stores now keys (snd r) s0 u) \<longleftrightarrow> answers m s now keys s0 r"
  by (simp_all add: answers_def yields_bind)

lemma activate_empty:
  assumes v: "view now (a, b, c) [] None [] None [] None s0 s" and field: "ss_field y \<noteq> ''_version''"
    and ok: "1 \<le> maximum" "0 \<le> version" "unexpired now y" and "0 \<le> now"
  shows "answers (activate_jti (a, b, c) (ss_field y) (ss_value y) (ss_expires y) version maximum now) s now (a, b, c) s0
    (1, Some \<lparr>rg_version = version, rg_sessions = [y], rg_deadline = ss_expires y * 1000\<rparr>)"
proof -
  have "0 \<le> sec_of now" using assms(6) by (simp add: sec_of_def)
  then have d: "max (ss_expires y * 1000) (-2) = ss_expires y * 1000"
    using ok(3) by (simp add: unexpired_def)
  have one: "newest maximum [y] = [y]" using ok(1) by (simp add: newest_def)
  have rest: "answers (add_session (a, b, c) (ss_field y) (ss_value y) (ss_expires y) version maximum
      (ss_expires y * 1000) now) (r_del c (r_del b (r_del a u))) now (a, b, c) s0
      (1, Some \<lparr>rg_version = version, rg_sessions = [y], rg_deadline = ss_expires y * 1000\<rparr>)"
    if "view now (a, b, c) h e1 z e2 x e3 s0 u" for u h e1 z e2 x e3
    using add_session_answers [OF view_del_all [OF that] tables_nil _ field ok] one by simp
  have "yields (prune_expired now (a, b, c)) s (\<lambda>_ u. view now (a, b, c) [] None [] None [] None s0 u)"
    by (rule yields_mono [OF prune_expired_view [OF v tables_nil]]) (auto dest!: tables_none_Nil)
  then show ?thesis
    using ok unfolding answers_def activate_jti_def
    apply (simp add: unexpired_def yields_bind view_reads [OF v] del: r_del_def)
    apply (erule yields_mono)
    apply (simp add: view_reads yields_bind view_pexpiretime d)
    apply (drule rest)
    apply (simp add: answers_def)
    done
qed

lemma activate_existing:
  assumes v: "view now (a, b, c) h (Some (rg_deadline r)) z (Some (rg_deadline r)) x (Some (rg_deadline r)) s0 s"
    and t: "tables (rg_sessions r) (Some (encode_int (rg_version r))) h z x" and r: "registry_ok r"
    and field: "ss_field y \<noteq> ''_version''" and ok: "1 \<le> maximum" "0 \<le> version" "unexpired now y"
  shows "answers (activate_jti (a, b, c) (ss_field y) (ss_value y) (ss_expires y) version maximum now) s now (a, b, c) s0
    (activate_spec y version maximum now (Some r))"
proof (cases "version < rg_version r")
  case True
  then show ?thesis
    using ok r storesI [OF v t r] tables_field(1) [OF t]
    by (auto simp: answers_def activate_jti_def activate_spec_def unexpired_def yields_bind view_reads [OF v]
        registry_ok_def)
next
  case False
  let ?kept = "filter (unexpired now) (rg_sessions r)"
  let ?d = "max (ss_expires y * 1000) (rg_deadline r)"
  have bound: "ss_expires w * 1000 \<le> ?d" if "w \<in> set ?kept" for w
    using r that by (auto simp: registry_ok_def le_max_iff_disj)
  have after: "yields (prune_expired now (a, b, c)) s (\<lambda>_ u. \<exists>h z x.
      view now (a, b, c) h (Some (rg_deadline r)) z (Some (rg_deadline r)) x (Some (rg_deadline r)) s0 u \<and>
      tables ?kept (Some (encode_int (rg_version r))) h z x)"
    by (rule prune_expired_view [OF v t])
  have rest: "answers (bindP (r_hget now a (ss_field y)) (\<lambda>present.
      if present \<noteq> None then returnP (Int_reply 0)
      else bindP (readP (r_pexpiretime now a)) (\<lambda>previous_deadline.
      bindP (if Some (encode_int (rg_version r)) \<noteq> Some (encode_int version)
             then updateP (\<lambda>s. r_del c (r_del b (r_del a s))) else returnP ()) (\<lambda>_.
        add_session (a, b, c) (ss_field y) (ss_value y) (ss_expires y) version maximum
          (max (ss_expires y * 1000) previous_deadline) now)))) u now (a, b, c) s0
      (activate_spec y version maximum now (Some r))"
    if v: "view now (a, b, c) h (Some (rg_deadline r)) z (Some (rg_deadline r)) x (Some (rg_deadline r)) s0 u"
      and t: "tables ?kept (Some (encode_int (rg_version r))) h z x" for u h z x
  proof (cases "ss_field y \<in> ss_field ` set ?kept")
    case True
    then have "map_of h (ss_field y) \<noteq> None"
      using tables_field(1) [OF t] field find_field_None [of "ss_field y" ?kept] by auto
    moreover have "stores now (a, b, c) (Some (drop_expired now r)) s0 u"
      using storesI [where r = "drop_expired now r" and now = now] v t pruned_ok [OF r] by (simp add: drop_expired_def)
    ultimately show ?thesis
      using True False ok
      by (auto simp: answers_def activate_spec_def yields_bind view_reads [OF v])
  next
    case absent: False
    then have "map_of h (ss_field y) = None"
      using tables_field(1) [OF t] field find_field_None [of "ss_field y" ?kept] by auto
    moreover have "h \<noteq> []" using t by (rule tables_not_Nil)
    ultimately have "answers (bindP (if Some (encode_int (rg_version r)) \<noteq> Some (encode_int version)
             then updateP (\<lambda>s. r_del c (r_del b (r_del a s))) else returnP ()) (\<lambda>_.
        add_session (a, b, c) (ss_field y) (ss_value y) (ss_expires y) version maximum ?d now)) u now (a, b, c) s0
        (activate_spec y version maximum now (Some r)) \<Longrightarrow> ?thesis"
      by (simp add: answers_def yields_bind view_reads [OF v] view_pexpiretime [OF v])
    moreover have "activate_spec y version maximum now (Some r) = (1, Some \<lparr>rg_version = version,
        rg_sessions = newest maximum ((if rg_version r = version then ?kept else []) @ [y]), rg_deadline = ?d\<rparr>)"
      using False absent ok by (simp add: activate_spec_def)
    ultimately show ?thesis
      using add_session_answers [OF v t absent field ok bound]
        add_session_answers [OF view_del_all [OF v] tables_nil _ field ok]
      by (cases "rg_version r = version") (simp_all add: answers_add_session)
  qed
  have "yields (prune_expired now (a, b, c)) s (\<lambda>_ u. answers (bindP (r_hget now a (ss_field y)) (\<lambda>present.
      if present \<noteq> None then returnP (Int_reply 0)
      else bindP (readP (r_pexpiretime now a)) (\<lambda>previous_deadline.
      bindP (if Some (encode_int (rg_version r)) \<noteq> Some (encode_int version)
             then updateP (\<lambda>s. r_del c (r_del b (r_del a s))) else returnP ()) (\<lambda>_.
        add_session (a, b, c) (ss_field y) (ss_value y) (ss_expires y) version maximum
          (max (ss_expires y * 1000) previous_deadline) now)))) u now (a, b, c) s0
      (activate_spec y version maximum now (Some r)))"
    by (rule yields_mono [OF after]) (elim exE conjE, rule rest)
  moreover have "\<not> (maximum < 1 \<or> version < 0 \<or> ss_expires y \<le> sec_of now)" "\<not> rg_version r < 0"
    using ok r by (auto simp: unexpired_def registry_ok_def)
  ultimately show ?thesis
    using False tables_field(1) [OF t, of "''_version''"]
    by (simp only: answers_def refl activate_jti_def yields_bind view_reads [OF v] prod.case if_False simp_thms if_True
        Let_def option.case read_int_encode_int option.sel option.distinct)
qed

theorem activate_refines:
  assumes "stores now keys R s0 s" "0 \<le> now" and field: "ss_field y \<noteq> ''_version''"
  shows "answers (activate_jti keys (ss_field y) (ss_value y) (ss_expires y) version maximum now) s now keys s0
    (activate_spec y version maximum now R)"
proof -
  obtain a b c where keys: "keys = (a, b, c)" by (cases keys)
  show ?thesis
  proof (cases "maximum < 1 \<or> version < 0 \<or> \<not> unexpired now y")
    case True
    then have "maximum < 1 \<or> version < 0 \<or> ss_expires y \<le> sec_of now" by (auto simp: unexpired_def)
    with True assms(1) show ?thesis
      by (auto simp: answers_def activate_jti_def activate_spec_def keys yields_def)
  next
    case False
    then have ok: "1 \<le> maximum" "0 \<le> version" "unexpired now y" by auto
    show ?thesis
      using assms(1)
    proof (cases rule: stores_viewE)
      case 1
      then show ?thesis
        using activate_empty [OF _ field ok assms(2)] False by (simp add: keys activate_spec_def)
    next
      case (2 r h z x)
      then show ?thesis
        using activate_existing [OF _ _ _ field ok] by (simp add: keys)
    qed
  qed
qed


text \<open>Reading, revoking and listing.\<close>

definition read_spec ::
    "token_libs \<Rightarrow> string \<Rightarrow> int \<Rightarrow> registry option \<Rightarrow> redis_reply \<times> registry option" where
  "read_spec libs f now R =
     (case R of
        None \<Rightarrow> (Nil_reply, None)
      | Some r \<Rightarrow>
          (case session_of f r of
             None \<Rightarrow> (Nil_reply, Some r)
           | Some y \<Rightarrow>
               if \<not> unexpired now y then (Nil_reply, Some (without_session f r))
               else if (case cjson_decode libs (ss_value y) of None \<Rightarrow> False
                        | Some rec \<Rightarrow> record_is_active rec (ss_expires y) (Some (encode_int (rg_version r))))
               then (Text_reply (ss_value y), Some r) else (Nil_reply, Some r)))"

definition revoke_spec :: "string \<Rightarrow> pystr \<Rightarrow> int \<Rightarrow> registry option \<Rightarrow> int \<times> registry option" where
  "revoke_spec f expected now R =
     (case R of
        None \<Rightarrow> (0, None)
      | Some r \<Rightarrow>
          (case session_of f r of
             None \<Rightarrow> (0, Some r)
           | Some y \<Rightarrow>
               if \<not> unexpired now y then (0, Some (without_session f r))
               else if ss_value y \<noteq> expected then (-1, Some r)
               else (1, Some (without_session f r))))"

lemma without_ok: "registry_ok r \<Longrightarrow> registry_ok (without_session f r)"
  by (auto simp: registry_ok_def without_session_def)

lemma without_absent: "session_of f r = None \<Longrightarrow> without_session f r = r"
  by (auto simp: session_of_def without_session_def find_None_iff filter_id_conv)

lemma remove_session_stores:
  assumes "stores now keys R s0 s" "f \<noteq> ''_version''"
  shows "yields (remove_session now keys f) s
    (\<lambda>_ u. stores now keys (map_option (without_session f) R) s0 u)"
  using assms(1)
proof (cases rule: stores_viewE)
  case 1
  then show ?thesis
    using view_remove_session [OF 1(2), of f] by (simp add: stores_def)
next
  case (2 r h z x)
  then have "tables (rg_sessions (without_session f r)) (Some (encode_int (rg_version (without_session f r))))
      (AList.delete f h) (AList.delete f z) (AList.delete f x)"
    using tables_remove [OF 2(6) assms(2)] by (simp add: without_session_def)
  moreover have "rg_deadline (without_session f r) = rg_deadline r"
    by (simp add: without_session_def)
  ultimately show ?thesis
    using 2(1) without_ok [OF 2(2)]
    by (intro yields_mono [OF view_remove_session [OF 2(5)]]) (auto intro: storesI)
qed

lemma session_of_tables:
  assumes "tables (rg_sessions r) ver h z x" "f \<noteq> ''_version''"
  shows "map_of h f = map_option ss_value (session_of f r)" "map_of x f = map_option ss_expires (session_of f r)"
    "map_of z f = None \<longleftrightarrow> session_of f r = None" "map_of h ''_version'' = ver"
  using tables_field [OF assms(1)] assms(2) find_field_None [of f "rg_sessions r"]
  by (simp_all add: session_of_def)

theorem read_refines:
  assumes st: "stores now keys R s0 s" and f: "f \<noteq> ''_version''"
  shows "yields (read_active_jti libs keys f now) s
    (\<lambda>reply u. reply = fst (read_spec libs f now R) \<and> stores now keys (snd (read_spec libs f now R)) s0 u)"
proof -
  obtain a b c where keys: "keys = (a, b, c)" by (cases keys)
  note gone = remove_session_stores [OF st f, unfolded keys]
  from st show ?thesis
  proof (cases rule: stores_viewE)
    case 1
    then show ?thesis
      using yields_mono [OF gone] view_reads(5) [OF 1(2) [unfolded keys]]
      by (simp add: keys read_active_jti_def read_spec_def yields_bind)
  next
    case (2 r h z x)
    note v = 2(5) [unfolded keys] and t = session_of_tables [OF 2(6) f]
    show ?thesis
    proof (cases "session_of f r")
      case None
      then show ?thesis
        using yields_mono [OF gone] t 2(1) without_absent [OF None]
        by (simp add: keys read_active_jti_def read_spec_def yields_bind view_reads [OF v])
    next
      case (Some y)
      then obtain p where p: "map_of z f = Some p" using t(3) by auto
      show ?thesis
      proof (cases "unexpired now y")
        case True
        then show ?thesis
          using Some t p st 2(1)
          by (auto simp: keys read_active_jti_def read_spec_def yields_bind view_reads [OF v] unexpired_def
              split: option.splits)
      next
        case False
        then show ?thesis
          using yields_mono [OF gone] Some t 2(1)
          by (simp add: keys read_active_jti_def read_spec_def yields_bind view_reads [OF v] unexpired_def)
      qed
    qed
  qed
qed

theorem revoke_refines:
  assumes st: "stores now keys R s0 s" and f: "f \<noteq> ''_version''"
  shows "answers (compare_and_delete keys f expected now) s now keys s0 (revoke_spec f expected now R)"
proof -
  obtain a b c where keys: "keys = (a, b, c)" by (cases keys)
  note gone = remove_session_stores [OF st f, unfolded keys]
  from st show ?thesis
  proof (cases rule: stores_viewE)
    case 1
    then show ?thesis
      using yields_mono [OF gone] view_reads(5) [OF 1(2) [unfolded keys]]
      by (simp add: keys answers_def compare_and_delete_def revoke_spec_def yields_bind)
  next
    case (2 r h z x)
    note v = 2(5) [unfolded keys] and t = session_of_tables [OF 2(6) f]
    show ?thesis
    proof (cases "session_of f r")
      case None
      then show ?thesis
        using yields_mono [OF gone] t 2(1) without_absent [OF None]
        by (simp add: keys answers_def compare_and_delete_def revoke_spec_def yields_bind view_reads [OF v])
    next
      case (Some y)
      then show ?thesis
        using yields_mono [OF gone] st t 2(1)
        by (cases "unexpired now y"; cases "ss_value y = expected")
          (simp_all add: keys answers_def compare_and_delete_def revoke_spec_def yields_bind view_reads [OF v]
              unexpired_def)
    qed
  qed
qed

definition list_spec :: "token_libs \<Rightarrow> int \<Rightarrow> int \<Rightarrow> registry option \<Rightarrow> (int list option) \<times> registry option" where
  "list_spec libs version now R =
     (case R of
        None \<Rightarrow> (Some [], None)
      | Some r \<Rightarrow>
          if rg_version r \<noteq> version then (Some [], Some r)
          else let r' = drop_expired now r in
            (those (map (\<lambda>y. Option.bind (cjson_decode libs (ss_value y))
                     (\<lambda>rec. listed_iat rec (Some (ss_expires y)) now version)) (rg_sessions r')), Some r'))"


lemma tables_not_version:
  assumes "tables ss ver h z x" "y \<in> set ss"
  shows "ss_field y \<noteq> ''_version''"
proof -
  have "''_version'' \<notin> ss_field ` set ss" using assms(1) by (simp add: tables_def)
  with assms(2) show ?thesis by (metis imageI)
qed

lemma find_field: "distinct (map f xs) \<Longrightarrow> y \<in> set xs \<Longrightarrow> find (\<lambda>w. f w = f y) xs = Some y"
  by (induction xs) (auto simp: image_iff)

lemma list_entries_view:
  assumes v: "view now (a, b, c) h e1 z e2 x e3 s0 s" and t: "tables ss ver h z x"
    and "set ys \<subseteq> set ss"
    and "those (map (\<lambda>y. Option.bind (cjson_decode libs (ss_value y))
           (\<lambda>rec. listed_iat rec (Some (ss_expires y)) now version)) ys) = Some iats"
  shows "list_entries libs (a, b, c) version now (map ss_field ys) s = (Inr (map Int_reply iats), s)"
  using assms(3,4)
proof (induction ys arbitrary: iats)
  case (Cons y ys)
  then obtain i rest where i: "Option.bind (cjson_decode libs (ss_value y))
      (\<lambda>rec. listed_iat rec (Some (ss_expires y)) now version) = Some i" "iats = i # rest"
      "those (map (\<lambda>y. Option.bind (cjson_decode libs (ss_value y))
           (\<lambda>rec. listed_iat rec (Some (ss_expires y)) now version)) ys) = Some rest"
    by (auto split: option.splits)
  have y: "y \<in> set ss" "ss_field y \<noteq> ''_version''" using Cons.prems(1) tables_not_version [OF t] by auto
  have "find (\<lambda>w. ss_field w = ss_field y) ss = Some y"
    using find_field [of ss_field ss y] y(1) t by (simp add: tables_def)
  then have "map_of h (ss_field y) = Some (ss_value y)" "map_of x (ss_field y) = Some (ss_expires y)"
    using tables_field(1,2) [OF t, of "ss_field y"] y(2) by simp_all
  moreover have "r_hget now a f s = (Inr (map_of h f), s)" "r_zscore now c f s = (Inr (map_of x f), s)" for f
    using viewD(1,3) [OF v] by (auto simp: r_hget_def r_zscore_def bindP_def read_collections)
  ultimately show ?case
    using Cons.IH [OF _ i(3)] Cons.prems(1) i by (simp add: bindP_def)
qed simp

theorem list_refines:
  assumes st: "stores now keys R s0 s" and ok: "fst (list_spec libs version now R) = Some iats"
  shows "yields (list_user_sessions libs keys version now) s
    (\<lambda>reply u. reply = List_reply (map Int_reply iats) \<and> stores now keys (snd (list_spec libs version now R)) s0 u)"
proof -
  obtain a b c where keys: "keys = (a, b, c)" by (cases keys)
  from st show ?thesis
  proof (cases rule: stores_viewE)
    case 1
    then show ?thesis
      using st ok view_reads(1) [OF 1(2) [unfolded keys]]
      by (simp add: keys list_user_sessions_def list_spec_def yields_bind)
  next
    case (2 r h z x)
    note v = 2(5) [unfolded keys]
    have cur: "map_of h ''_version'' = Some (encode_int (rg_version r))"
      using tables_field(1) [OF 2(6), of "''_version''"] by simp
    show ?thesis
    proof (cases "rg_version r = version")
      case False
      then show ?thesis
        using st ok 2(1) cur
        by (simp add: keys list_user_sessions_def list_spec_def yields_bind view_reads [OF v])
    next
      case True
      let ?kept = "filter (unexpired now) (rg_sessions r)"
      have those: "those (map (\<lambda>y. Option.bind (cjson_decode libs (ss_value y))
             (\<lambda>rec. listed_iat rec (Some (ss_expires y)) now version)) ?kept) = Some iats"
        using ok True 2(1) by (simp add: list_spec_def drop_expired_def Let_def)
      have rest: "yields (bindP (r_zrange now b) (\<lambda>entries.
          bindP (list_entries libs (a, b, c) version now (map fst entries)) (\<lambda>result.
            returnP (List_reply result)))) u
          (\<lambda>reply u. reply = List_reply (map Int_reply iats) \<and> stores now (a, b, c) (Some (drop_expired now r)) s0 u)"
        if v: "view now (a, b, c) h (Some (rg_deadline r)) z (Some (rg_deadline r)) x (Some (rg_deadline r)) s0 u"
          and t: "tables ?kept (Some (encode_int (rg_version r))) h z x" for u h z x
      proof -
        have "map fst z = map ss_field ?kept" using t by (simp add: tables_def)
        moreover have "stores now (a, b, c) (Some (drop_expired now r)) s0 u"
          using storesI [where r = "drop_expired now r" and now = now] v t pruned_ok [OF 2(2)]
          by (simp add: drop_expired_def)
        ultimately show ?thesis
          using list_entries_view [OF v t subset_refl those]
          by (simp add: yields_bind view_reads [OF v]) (simp add: yields_def)
      qed
      have "yields (prune_expired now (a, b, c)) s (\<lambda>_ u. yields (bindP (r_zrange now b) (\<lambda>entries.
          bindP (list_entries libs (a, b, c) version now (map fst entries)) (\<lambda>result.
            returnP (List_reply result)))) u
          (\<lambda>reply u. reply = List_reply (map Int_reply iats) \<and> stores now (a, b, c) (Some (drop_expired now r)) s0 u))"
        by (rule yields_mono [OF prune_expired_view [OF v 2(6)]]) (elim exE conjE, rule rest)
      then show ?thesis
        using True 2(1) cur
        by (simp add: keys list_user_sessions_def list_spec_def yields_bind view_reads [OF v] Let_def)
    qed
  qed
qed

end
