(* ===== verification/Session_Laws.thy ===== *)
theory Session_Laws
  imports Registry
begin

text \<open>
  What the session registry guarantees to the rest of the program: records read back, the
  states a user's registry can reach, the bound on active sessions, and the operations of
  \<open>tokens.py\<close> as operations on the registry.
\<close>

subsection \<open>Records read back\<close>

lemma of_char_nonneg: "(0 :: int) \<le> of_char c"
  by (metis of_nat_0_le_iff of_nat_of_char)

lemma char_of_nat_of_char: "char_of (nat (of_char c)) = c"
  by (metis char_of_char nat_int of_nat_of_char)

lemma ascii_string_lit: "list_all plain_char s \<Longrightarrow> ascii_string (lit s) = Some s"
  by (auto simp: ascii_string_def lit_def plain_char_def list_all_iff comp_def char_of_nat_of_char of_char_nonneg)

lemma pystr_uuid_str [simp]: "pystr_uuid (lit (uuid_str u)) = Some u"
  by (simp add: pystr_uuid_def ascii_string_lit uuid_str_plain)

lemma plain_text_lit: "plain_text (lit s)"
  by (simp add: plain_text_def lit_def list_all_iff of_char_nonneg)

lemma jti_record_plain: "plain_json (J_Obj (jti_record c v))"
  by (simp add: jti_record_def plain_text_lit)

lemma jti_record_sorted: "sorted (map fst (jti_record c v))"
  by (simp add: jti_record_def lit_def)

lemma sorted_flat_json:
  assumes "sorted (map fst ms)" "\<And>m. m \<in> set ms \<Longrightarrow> sorted_json (snd m) = snd m"
  shows "sorted_json (J_Obj ms) = J_Obj ms"
proof -
  have "map (\<lambda>m. (fst m, sorted_json (snd m))) ms = ms"
    using assms(2) by (simp add: map_idI)
  then show ?thesis
    using assms(1) by (simp add: sort_key_id_if_sorted)
qed

lemma json_loads_record: "json_loads (active_jti_value c v) = Some (J_Obj (jti_record c v))"
proof -
  have "sorted_json (J_Obj (jti_record c v)) = J_Obj (jti_record c v)"
    by (rule sorted_flat_json [OF jti_record_sorted]) (auto simp: jti_record_def)
  with json_loads_encode [OF jti_record_plain] show ?thesis
    by (simp add: active_jti_value_def)
qed

lemma lit_distinct [simp]: "lit s = lit t \<longleftrightarrow> s = t"
  by (rule lit_inject)

lemma jti_record_get:
  "json_get (jti_record c v) (lit ''exp'') = Some (J_Int (ac_expires_at c))"
  "json_get (jti_record c v) (lit ''iat'') = Some (J_Int (ac_issued_at c))"
  "json_get (jti_record c v) (lit ''sub'') = Some (J_Str (lit (uuid_str (ac_user_id c))))"
  "json_get (jti_record c v) (lit ''token_version'') = Some (J_Int v)"
  "json_get (jti_record c v) (lit ''typ'') = Some (J_Str (lit ''access''))"
  by (simp_all add: json_get_def jti_record_def)

lemma parse_active_jti_value_canonical:
  "parse_active_jti_value (active_jti_value c v) =
     (if v < 0 then Inl (Value_error ''invalid active JTI token version'')
      else if uuid_version (ac_user_id c) = Some 4
      then Inr (ac_user_id c, v, ac_issued_at c, ac_expires_at c)
      else Inl (Value_error ''claim must be a canonical UUIDv4 string''))"
proof -
  have "fst ` set (jti_record c v) = lit ` {''exp'', ''iat'', ''sub'', ''token_version'', ''typ''}"
    by (simp add: jti_record_def)
  then show ?thesis
    by (simp add: parse_active_jti_value_def json_loads_record jti_record_get integer_numeric_date_def uuid4_def)
qed

lemma active_jti_value_inject:
  assumes "active_jti_value c v = active_jti_value d w"
  shows "v = w" "ac_user_id c = ac_user_id d" "ac_issued_at c = ac_issued_at d" "ac_expires_at c = ac_expires_at d"
proof -
  have "jti_record c v = jti_record d w"
    using json_loads_record [of c v] json_loads_record [of d w] assms by simp
  then show "v = w" "ac_user_id c = ac_user_id d" "ac_issued_at c = ac_issued_at d" "ac_expires_at c = ac_expires_at d"
    by (simp_all add: jti_record_def uuid_str_inject)
qed

text \<open>The stored record is accepted exactly when it is the canonical record of the claims.\<close>

lemma check_active_record_iff:
  "check_active_record c value = Inr v \<longleftrightarrow>
     value = active_jti_value c v \<and> 0 \<le> v \<and> uuid_version (ac_user_id c) = Some 4"
  by (auto simp: check_active_record_def bindE_Inr raise_unless_Inr parse_active_jti_value_canonical split: if_splits)


subsection \<open>What is documented of the libraries\<close>

text \<open>
  \<open>cjson.decode\<close> reads the JSON text of a flat object of short integers and printable ASCII
  strings; a digest is not the name of the version field.
\<close>

definition small_member :: "pystr \<times> json \<Rightarrow> bool" where
  "small_member m \<longleftrightarrow> list_all (\<lambda>c. 32 \<le> c \<and> c < 128) (fst m) \<and>
     (case snd m of
        J_Int i \<Rightarrow> \<bar>i\<bar> < 9007199254740992
      | J_Str s \<Rightarrow> list_all (\<lambda>c. 32 \<le> c \<and> c < 128) s
      | _ \<Rightarrow> False)"

definition cjson_ok :: "token_libs \<Rightarrow> bool" where
  "cjson_ok libs \<longleftrightarrow>
     (\<forall>ms. sorted (map fst ms) \<longrightarrow> distinct (map fst ms) \<longrightarrow> list_all small_member ms \<longrightarrow>
        cjson_decode libs (encode_json (J_Obj ms)) = Some (J_Obj ms))"

definition digest_ok :: "platform \<Rightarrow> bool" where
  "digest_ok pf \<longleftrightarrow> (\<forall>x. length (pf_sha256 pf x) = 64)"

lemma small_member_plain:
  "small_member m \<Longrightarrow> plain_text (fst m) \<and> plain_json (snd m) \<and> sorted_json (snd m) = snd m"
  by (cases "snd m") (auto simp: small_member_def plain_text_def list_all_iff)

lemma json_loads_cjson: "cjson_decode libs = json_loads \<Longrightarrow> cjson_ok libs"
proof -
  assume libs: "cjson_decode libs = json_loads"
  have "json_loads (encode_json (J_Obj ms)) = Some (J_Obj ms)"
    if "sorted (map fst ms)" "list_all small_member ms" for ms
  proof -
    have "sorted_json (J_Obj ms) = J_Obj ms"
      using that small_member_plain by (intro sorted_flat_json) (auto simp: list_all_iff)
    moreover have "plain_json (J_Obj ms)"
      using that(2) small_member_plain by (auto simp: list_all_iff)
    ultimately show ?thesis using json_loads_encode by metis
  qed
  then show ?thesis by (simp add: cjson_ok_def libs)
qed

lemma field_not_version: "digest_ok pf \<Longrightarrow> active_jti_field pf s u \<noteq> ''_version''"
proof
  assume "digest_ok pf" "active_jti_field pf s u = ''_version''"
  then have "length ''_version'' = (64 :: nat)" by (metis digest_ok_def active_jti_field_def)
  then show False by simp
qed

lemma user_keys_distinct: "distinct_keys (user_session_keys pf s u)"
  by (simp add: distinct_keys_def user_session_keys_def Let_def)

lemma decimal_length: "n < 10 ^ k \<Longrightarrow> 0 < k \<Longrightarrow> length (decimal n) \<le> k"
proof (induction k arbitrary: n)
  case (Suc k)
  show ?case
  proof (cases "n < 10")
    case False
    then have "k \<noteq> 0" using Suc.prems(1) by (cases k) auto
    moreover have "n div 10 < 10 ^ k" using Suc.prems(1) by (simp add: less_mult_imp_div_less mult.commute)
    ultimately have "length (decimal (n div 10)) \<le> k" using Suc.IH by simp
    with False show ?thesis by (subst decimal.simps) simp
  qed (subst decimal.simps, simp)
qed simp

lemma lua_tostring_small: "0 \<le> v \<Longrightarrow> v < 100000000000000 \<Longrightarrow> lua_tostring v = encode_int v"
proof -
  assume v: "0 \<le> v" "v < 100000000000000"
  then have "nat v < 10 ^ 14" by simp
  then have "length (decimal (nat v)) \<le> 14" by (rule decimal_length) simp
  with v show ?thesis by (simp add: lua_tostring_def lua_tostring_nat_def encode_int_def Let_def)
qed

subsection \<open>The sessions a user's registry holds\<close>

definition session_for :: "platform \<Rightarrow> settings \<Rightarrow> access_token_claims \<Rightarrow> int \<Rightarrow> session" where
  "session_for pf s c v =
     \<lparr>ss_field = active_jti_field pf s (ac_token_id c), ss_value = active_jti_value c v,
      ss_expires = ac_expires_at c\<rparr>"

lemma session_for_simps [simp]:
  "ss_field (session_for pf s c v) = active_jti_field pf s (ac_token_id c)"
  "ss_value (session_for pf s c v) = active_jti_value c v"
  "ss_expires (session_for pf s c v) = ac_expires_at c"
  by (simp_all add: session_for_def)

definition short_version :: "int \<Rightarrow> bool" where
  "short_version v \<longleftrightarrow> 0 \<le> v \<and> v < 100000000000000"

text \<open>The claims a user's sessions are issued with, at times a double holds.\<close>

definition issuable :: "settings \<Rightarrow> uuid \<Rightarrow> access_token_claims \<Rightarrow> bool" where
  "issuable s u c \<longleftrightarrow> ac_user_id c = u \<and> 0 \<le> ac_issued_at c \<and>
     ac_expires_at c = ac_issued_at c + s_jwt_access_token_ttl_seconds s \<and>
     1 \<le> s_jwt_access_token_ttl_seconds s \<and> ac_expires_at c < 9007199254740992"

definition registry_wf :: "platform \<Rightarrow> settings \<Rightarrow> uuid \<Rightarrow> registry \<Rightarrow> bool" where
  "registry_wf pf s u r \<longleftrightarrow> short_version (rg_version r) \<and> distinct (map ss_field (rg_sessions r)) \<and>
     (\<forall>y \<in> set (rg_sessions r). \<exists>c. issuable s u c \<and> y = session_for pf s c (rg_version r))"

lemma decode_active:
  assumes "cjson_ok libs" "issuable s u c" "short_version v"
  shows "cjson_decode libs (active_jti_value c v) = Some (J_Obj (jti_record c v))"
proof -
  have uuid: "list_all (\<lambda>i. 32 \<le> i \<and> i < (128 :: int)) (lit (uuid_str w))" for w
    using uuid_str_plain [of w] by (auto simp: list_all_iff lit_def plain_char_def)
  have "list_all small_member (jti_record c v)"
    using assms(2,3) uuid [of "ac_user_id c"]
    by (simp add: jti_record_def small_member_def issuable_def short_version_def) (simp add: lit_def)
  moreover have "distinct (map fst (jti_record c v))"
    by (simp add: jti_record_def)
  ultimately show ?thesis
    using assms(1) jti_record_sorted by (simp add: cjson_ok_def active_jti_value_def)
qed

lemma record_is_active_iff:
  assumes "short_version v"
  shows "record_is_active (J_Obj (jti_record c v)) e (Some (encode_int w)) \<longleftrightarrow> ac_expires_at c = e \<and> w = v"
  using assms by (auto simp: record_is_active_def is_table_def lua_field_def jti_record_get short_version_def
      lua_tostring_small)

lemma listed_iat_record:
  assumes "issuable s u c" "short_version v" "sec_of now < ac_expires_at c"
  shows "listed_iat (J_Obj (jti_record c v)) (Some (ac_expires_at c)) now v = Some (ac_issued_at c)"
  using assms by (simp add: listed_iat_def is_table_def lua_field_def jti_record_get short_version_def
      lua_tostring_small issuable_def)


subsection \<open>The states a registry can reach\<close>

text \<open>One step: time passes, or one of the four scripts runs. \<open>T\<close> are the token ids issued.\<close>

inductive session_step ::
    "token_libs \<Rightarrow> platform \<Rightarrow> settings \<Rightarrow> uuid \<Rightarrow> uuid set \<Rightarrow> int \<times> registry option \<Rightarrow> int \<times> registry option \<Rightarrow> bool"
  for libs pf s u T where
  wait: "t \<le> t' \<Longrightarrow> session_step libs pf s u T (t, R) (t', remembered t' R)"
| activate: "issuable s u c \<Longrightarrow> ac_token_id c \<in> T \<Longrightarrow> short_version v \<Longrightarrow>
    session_step libs pf s u T (t, R)
      (t, snd (activate_spec (session_for pf s c v) v (s_max_active_sessions_per_user s) t R))"
| read: "session_step libs pf s u T (t, R) (t, snd (read_spec libs f t R))"
| revoke: "session_step libs pf s u T (t, R) (t, snd (revoke_spec f expected t R))"
| list: "session_step libs pf s u T (t, R) (t, snd (list_spec libs v t R))"

definition registry_inv :: "platform \<Rightarrow> settings \<Rightarrow> uuid \<Rightarrow> registry option \<Rightarrow> bool" where
  "registry_inv pf s u R \<longleftrightarrow>
     (case R of
        None \<Rightarrow> True
      | Some r \<Rightarrow> registry_wf pf s u r \<and> int (length (rg_sessions r)) \<le> s_max_active_sessions_per_user s)"

lemma registry_inv_simps [simp]:
  "registry_inv pf s u None"
  "registry_inv pf s u (Some r) \<longleftrightarrow>
     registry_wf pf s u r \<and> int (length (rg_sessions r)) \<le> s_max_active_sessions_per_user s"
  by (simp_all add: registry_inv_def)

lemma distinct_fields_filter: "distinct (map ss_field xs) \<Longrightarrow> distinct (map ss_field (filter P xs))"
  by (simp add: distinct_map_filter)

lemma inv_filter:
  assumes "registry_inv pf s u (Some r)"
  shows "registry_inv pf s u (Some (r\<lparr>rg_sessions := filter P (rg_sessions r)\<rparr>))"
proof -
  have "int (length (filter P (rg_sessions r))) \<le> s_max_active_sessions_per_user s"
    using assms length_filter_le [of P "rg_sessions r"] by (simp del: length_filter_le)
  with assms show ?thesis by (auto simp: registry_wf_def distinct_fields_filter)
qed

lemma inv_drop_expired: "registry_inv pf s u (Some r) \<Longrightarrow> registry_inv pf s u (Some (drop_expired now r))"
  unfolding drop_expired_def by (rule inv_filter)

lemma inv_without: "registry_inv pf s u (Some r) \<Longrightarrow> registry_inv pf s u (Some (without_session f r))"
  unfolding without_session_def by (rule inv_filter)

lemma inv_remembered: "registry_inv pf s u R \<Longrightarrow> registry_inv pf s u (remembered t R)"
  by (cases R) (auto simp: remembered_def)

lemma newest_length: "1 \<le> n \<Longrightarrow> int (length (newest n xs)) \<le> n"
  by (auto simp: newest_def)

lemma inv_newest:
  assumes "list_all (\<lambda>y. \<exists>c. issuable s u c \<and> y = session_for pf s c v) ys" "distinct (map ss_field ys)"
    "short_version v" "1 \<le> s_max_active_sessions_per_user s"
  shows "registry_inv pf s u (Some \<lparr>rg_version = v,
    rg_sessions = newest (s_max_active_sessions_per_user s) ys, rg_deadline = d\<rparr>)"
proof -
  have "distinct (map ss_field (newest (s_max_active_sessions_per_user s) ys))"
    using assms(2) by (simp add: newest_def drop_map [symmetric])
  moreover have "\<exists>c. issuable s u c \<and> y = session_for pf s c v"
    if "y \<in> set (newest (s_max_active_sessions_per_user s) ys)" for y
    using assms(1) set_newest that by (fastforce simp: list_all_iff)
  ultimately show ?thesis
    using newest_length [OF assms(4), of ys] assms(3) by (simp add: registry_wf_def)
qed

lemma inv_activate:
  assumes inv: "registry_inv pf s u R" and c: "issuable s u c" "short_version v"
  shows "registry_inv pf s u (snd (activate_spec (session_for pf s c v) v (s_max_active_sessions_per_user s) t R))"
proof (cases "s_max_active_sessions_per_user s < 1 \<or> v < 0 \<or> \<not> unexpired t (session_for pf s c v)")
  case True
  with inv show ?thesis by (auto simp: activate_spec_def)
next
  case ok: False
  then have one: "1 \<le> s_max_active_sessions_per_user s" by simp
  show ?thesis
  proof (cases R)
    case None
    have "registry_inv pf s u (Some \<lparr>rg_version = v,
        rg_sessions = newest (s_max_active_sessions_per_user s) [session_for pf s c v],
        rg_deadline = ac_expires_at c * 1000\<rparr>)"
      using c one by (intro inv_newest) auto
    then show ?thesis
      using ok None one by (simp add: activate_spec_def newest_def)
  next
    case (Some r)
    let ?base = "if rg_version r = v then filter (unexpired t) (rg_sessions r) else []"
    have "registry_inv pf s u (Some \<lparr>rg_version = v,
        rg_sessions = newest (s_max_active_sessions_per_user s) (?base @ [session_for pf s c v]),
        rg_deadline = max (ac_expires_at c * 1000) (rg_deadline r)\<rparr>)"
      if "active_jti_field pf s (ac_token_id c) \<notin> ss_field ` set (filter (unexpired t) (rg_sessions r))"
      using c one inv that Some by (intro inv_newest) (auto simp: list_all_iff registry_wf_def distinct_fields_filter)
    then show ?thesis
      using ok inv Some inv_drop_expired [of pf s u r t] by (auto simp: activate_spec_def Let_def)
  qed
qed

lemma session_step_inv:
  assumes "session_step libs pf s u T x y" "registry_inv pf s u (snd x)"
  shows "registry_inv pf s u (snd y)"
  using assms
proof (cases rule: session_step.cases)
  case wait
  with assms(2) show ?thesis by (simp add: inv_remembered)
next
  case activate
  with assms(2) show ?thesis by (simp add: inv_activate)
next
  case (read t R f)
  with assms(2) inv_without [of pf s u _ f] show ?thesis
    by (cases R) (auto simp: read_spec_def split: option.split)
next
  case (revoke t R f)
  with assms(2) inv_without [of pf s u _ f] show ?thesis
    by (cases R) (auto simp: revoke_spec_def split: option.split)
next
  case (list t R v)
  with assms(2) inv_drop_expired [of pf s u _ t] show ?thesis
    by (cases R) (auto simp: list_spec_def Let_def)
qed

lemma session_steps_inv:
  "(session_step libs pf s u T)\<^sup>*\<^sup>* x y \<Longrightarrow> registry_inv pf s u (snd x) \<Longrightarrow> registry_inv pf s u (snd y)"
  by (induction rule: rtranclp_induct) (auto dest: session_step_inv)


text \<open>A session that is gone stays gone until its token id is issued again.\<close>

definition absent :: "string \<Rightarrow> registry option \<Rightarrow> bool" where
  "absent f R \<longleftrightarrow> (case R of None \<Rightarrow> True | Some r \<Rightarrow> f \<notin> ss_field ` set (rg_sessions r))"

lemma absent_simps [simp]: "absent f None" "absent f (Some r) \<longleftrightarrow> f \<notin> ss_field ` set (rg_sessions r)"
  by (simp_all add: absent_def)

lemma absent_filter: "absent f (Some r) \<Longrightarrow> absent f (Some (without_session g r))"
  "absent f (Some r) \<Longrightarrow> absent f (Some (drop_expired now r))"
  by (auto simp: without_session_def drop_expired_def)

lemma absent_without: "absent f (Some (without_session f r))"
  by (auto simp: without_session_def)

lemma absent_activate:
  assumes "absent f R" "ss_field y \<noteq> f"
  shows "absent f (snd (activate_spec y v m t R))"
proof (cases "m < 1 \<or> v < 0 \<or> \<not> unexpired t y")
  case True
  with assms show ?thesis by (auto simp: activate_spec_def)
next
  case ok: False
  show ?thesis
  proof (cases R)
    case None
    with ok assms show ?thesis by (auto simp: activate_spec_def)
  next
    case (Some r)
    let ?kept = "filter (unexpired t) (rg_sessions r)"
    have "f \<notin> ss_field ` set (newest m ((if rg_version r = v then ?kept else []) @ [y]))"
      using assms Some set_newest [of m "(if rg_version r = v then ?kept else []) @ [y]"] by (auto split: if_splits)
    then show ?thesis
      using ok assms Some absent_filter(2) [of f r t] by (auto simp: activate_spec_def Let_def)
  qed
qed

lemma session_step_absent:
  assumes "session_step libs pf s u T x y" "absent f (snd x)" "\<And>i. i \<in> T \<Longrightarrow> active_jti_field pf s i \<noteq> f"
  shows "absent f (snd y)"
  using assms(1)
proof (cases rule: session_step.cases)
  case (wait t t' R)
  with assms(2) show ?thesis by (cases R) (auto simp: remembered_def)
next
  case (activate c v t R)
  with assms(2,3) absent_activate [of f R "session_for pf s c v"] show ?thesis by simp
next
  case (read t R g)
  with assms(2) absent_filter(1) [of f _ g] show ?thesis
    by (cases R) (auto simp: read_spec_def split: option.split)
next
  case (revoke t R g)
  with assms(2) absent_filter(1) [of f _ g] show ?thesis
    by (cases R) (auto simp: revoke_spec_def split: option.split)
next
  case (list t R v)
  with assms(2) absent_filter(2) [of f _ t] show ?thesis
    by (cases R) (auto simp: list_spec_def Let_def)
qed

lemma session_steps_absent:
  assumes "(session_step libs pf s u T)\<^sup>*\<^sup>* x y" "absent f (snd x)" "\<And>i. i \<in> T \<Longrightarrow> active_jti_field pf s i \<noteq> f"
  shows "absent f (snd y)"
  using assms(1,2) by (induction rule: rtranclp_induct) (auto dest: session_step_absent [OF _ _ assms(3)])

text \<open>
  The version is a high-water mark: until the deadline it never falls, and the deadline is
  never brought forward.
\<close>

definition at_least :: "int \<Rightarrow> int \<Rightarrow> int \<times> registry option \<Rightarrow> bool" where
  "at_least v d x \<longleftrightarrow> d < ms_of (fst x) \<or> (\<exists>r. snd x = Some r \<and> v \<le> rg_version r \<and> d \<le> rg_deadline r)"

lemma at_least_drop: "at_least v d (t, Some r) \<Longrightarrow> at_least v d (t, Some (drop_expired now r))"
  "at_least v d (t, Some r) \<Longrightarrow> at_least v d (t, Some (without_session f r))"
  by (auto simp: at_least_def drop_expired_def without_session_def)

lemma at_least_activate:
  assumes "at_least v d (t, R)"
  shows "at_least v d (t, snd (activate_spec y w m t R))"
proof (cases "m < 1 \<or> w < 0 \<or> \<not> unexpired t y")
  case True
  with assms show ?thesis by (auto simp: activate_spec_def)
next
  case ok: False
  show ?thesis
    using assms ok at_least_drop(1) [of v d t _ t]
    by (cases R) (auto simp: activate_spec_def Let_def at_least_def)
qed

lemma session_step_at_least:
  assumes "session_step libs pf s u T x y" "at_least v d x"
  shows "at_least v d y"
  using assms(1)
proof (cases rule: session_step.cases)
  case (wait t t' R)
  then have "ms_of t \<le> ms_of t'" by (intro ms_of_mono)
  with wait assms(2) show ?thesis by (cases R) (auto simp: at_least_def remembered_def)
next
  case activate
  with assms(2) show ?thesis by (simp add: at_least_activate)
next
  case (read t R g)
  with assms(2) at_least_drop(2) [of v d t _ g] show ?thesis
    by (cases R) (auto simp: read_spec_def split: option.split)
next
  case (revoke t R g)
  with assms(2) at_least_drop(2) [of v d t _ g] show ?thesis
    by (cases R) (auto simp: revoke_spec_def split: option.split)
next
  case (list t R w)
  with assms(2) at_least_drop(1) [of v d t _ t] show ?thesis
    by (cases R) (auto simp: list_spec_def Let_def)
qed

lemma session_steps_at_least:
  "(session_step libs pf s u T)\<^sup>*\<^sup>* x y \<Longrightarrow> at_least v d x \<Longrightarrow> at_least v d y"
  by (induction rule: rtranclp_induct) (auto dest: session_step_at_least)

lemma session_step_clock: "session_step libs pf s u T x y \<Longrightarrow> fst x \<le> fst y"
  by (auto elim: session_step.cases)

end
