(* ===== verification/Sessions.thy ===== *)
theory Sessions
  imports Session_Laws
begin

text \<open>
  The functions of \<open>app/core/security/tokens.py\<close> on Redis, as steps of the abstract registry:
  whatever the network does to a call, the keys of the user afterwards represent a registry
  that the specification reaches, and an answer is the answer of the specification.
\<close>

subsection \<open>One call of a script\<close>

abbreviation registry_unavailable :: failure where
  "registry_unavailable \<equiv> Rbac (unavailable ''active_token_registry_unavailable'')"

lemma registry_call_answered:
  assumes "yields (body (io_now io)) st (\<lambda>x w. x = a \<and> P w)" "io_fault io = Answered"
  shows "\<exists>w. registry_call io body st = (Inr a, w) \<and> P w"
  using assms by (auto simp: yields_iff registry_call_def redis_call_def handleP_def)

lemma registry_call_failed:
  assumes "yields (body (io_now io)) st (\<lambda>x w. x = a \<and> P w)" "io_fault io \<noteq> Answered"
  shows "\<exists>w. registry_call io body st = (Inl registry_unavailable, w) \<and> (w = st \<or> P w)"
  using assms by (cases "io_fault io") (auto simp: yields_iff registry_call_def redis_call_def handleP_def)

definition keeps ::
    "token_libs \<Rightarrow> platform \<Rightarrow> settings \<Rightarrow> uuid \<Rightarrow> uuid set \<Rightarrow> redis \<Rightarrow> int \<times> registry option \<Rightarrow> int \<Rightarrow> redis \<Rightarrow> bool" where
  "keeps libs pf s u T s0 x t w \<longleftrightarrow>
     (\<exists>R. (session_step libs pf s u T)\<^sup>*\<^sup>* x (t, R) \<and> stores t (user_session_keys pf s u) R s0 w)"

lemma keepsI:
  "(session_step libs pf s u T)\<^sup>*\<^sup>* x (t, R) \<Longrightarrow> stores t (user_session_keys pf s u) R s0 w \<Longrightarrow> keeps libs pf s u T s0 x t w"
  by (auto simp: keeps_def)

lemma waited:
  assumes "stores t keys R s0 st" "t \<le> now"
  shows "(session_step libs pf s u T)\<^sup>*\<^sup>* (t, R) (now, remembered now R)" "stores now keys (remembered now R) s0 st"
  using assms by (auto intro: session_step.wait stores_later)

lemma waited_step:
  assumes "t \<le> now" "session_step libs pf s u T (now, remembered now R) y"
  shows "(session_step libs pf s u T)\<^sup>*\<^sup>* (t, R) y"
  by (rule converse_rtranclp_into_rtranclp [where r = "session_step libs pf s u T",
      OF session_step.wait [OF assms(1)] r_into_rtranclp [where r = "session_step libs pf s u T", OF assms(2)]])

text \<open>A script that refines a step of the specification, called by a client.\<close>

lemma call_keeps:
  assumes st: "stores t (user_session_keys pf s u) R s0 st" "t \<le> io_now io"
    and y: "yields (body (io_now io)) st (\<lambda>x w. x = a \<and> stores (io_now io) (user_session_keys pf s u) R' s0 w)"
    and step: "session_step libs pf s u T (io_now io, remembered (io_now io) R) (io_now io, R')"
  obtains w where "keeps libs pf s u T s0 (t, R) (io_now io) w"
    "io_fault io = Answered \<Longrightarrow> registry_call io body st = (Inr a, w) \<and> stores (io_now io) (user_session_keys pf s u) R' s0 w"
    "io_fault io \<noteq> Answered \<Longrightarrow> registry_call io body st = (Inl registry_unavailable, w)"
proof (cases "io_fault io = Answered")
  case True
  then obtain w where "registry_call io body st = (Inr a, w)" "stores (io_now io) (user_session_keys pf s u) R' s0 w"
    using registry_call_answered [of body io, OF y] by blast
  with True waited_step [OF st(2) step] show ?thesis by (intro that) (auto intro: keepsI)
next
  case False
  then obtain w where "registry_call io body st = (Inl registry_unavailable, w)"
      "w = st \<or> stores (io_now io) (user_session_keys pf s u) R' s0 w"
    using registry_call_failed [of body io, OF y] by blast
  with False waited_step [OF st(2) step] waited(1) [OF st, of libs pf s u T] waited(2) [OF st]
  show ?thesis by (intro that) (auto intro: keepsI)
qed

subsection \<open>Which tokens are accepted\<close>

definition accepts :: "platform \<Rightarrow> settings \<Rightarrow> access_token_claims \<Rightarrow> int \<Rightarrow> registry option \<Rightarrow> int \<Rightarrow> bool" where
  "accepts pf s c now R v \<longleftrightarrow>
     (case R of
        None \<Rightarrow> False
      | Some r \<Rightarrow>
          (case session_of (active_jti_field pf s (ac_token_id c)) r of
             None \<Rightarrow> False
           | Some y \<Rightarrow> unexpired now y \<and> ss_value y = active_jti_value c v))"

lemma session_of_Some: "session_of f r = Some y \<Longrightarrow> y \<in> set (rg_sessions r) \<and> ss_field y = f"
  by (auto simp: session_of_def dest: find_SomeD)

lemma registry_session:
  assumes "registry_inv pf s u (Some r)" "session_of f r = Some y"
  obtains c where "issuable s u c" "y = session_for pf s c (rg_version r)"
  using assms session_of_Some by (fastforce simp: registry_wf_def)

lemma read_spec_active:
  assumes "cjson_ok libs" "registry_inv pf s u R"
  shows "fst (read_spec libs f now R) =
    (case R of
       None \<Rightarrow> Nil_reply
     | Some r \<Rightarrow>
         (case session_of f r of
            None \<Rightarrow> Nil_reply
          | Some y \<Rightarrow> if unexpired now y then Text_reply (ss_value y) else Nil_reply))"
proof (cases R)
  case (Some r)
  show ?thesis
  proof (cases "session_of f r")
    case (Some y)
    then obtain c where c: "issuable s u c" "y = session_for pf s c (rg_version r)"
      using registry_session assms(2) \<open>R = Some r\<close> by blast
    have v: "short_version (rg_version r)" using assms(2) \<open>R = Some r\<close> by (simp add: registry_wf_def)
    show ?thesis
      using Some \<open>R = Some r\<close> c decode_active [OF assms(1) c(1) v] record_is_active_iff [OF v]
      by (simp add: read_spec_def)
  qed (simp add: read_spec_def Some)
qed (simp add: read_spec_def)

lemma accepts_version:
  assumes "registry_inv pf s u R" "accepts pf s c now R v"
  shows "\<exists>r. R = Some r \<and> rg_version r = v \<and> ac_user_id c = u \<and> now < ac_expires_at c * 1000000 + 1000000 \<and> short_version v"
proof -
  obtain r y where r: "R = Some r" "session_of (active_jti_field pf s (ac_token_id c)) r = Some y"
      "unexpired now y" "ss_value y = active_jti_value c v"
    using assms(2) by (auto simp: accepts_def split: option.splits)
  then obtain d where d: "issuable s u d" "y = session_for pf s d (rg_version r)"
    using registry_session assms(1) by blast
  then have same: "active_jti_value d (rg_version r) = active_jti_value c v"
    using r(4) by simp
  have "sec_of now < ac_expires_at c"
    using r(3) d active_jti_value_inject(4) [OF same] by (simp add: unexpired_def)
  then show ?thesis
    using r(1) d(1) active_jti_value_inject(1,2) [OF same] assms(1)
    by (auto simp: issuable_def sec_of_def registry_wf_def)
qed

text \<open>
  \<open>require_active_jti\<close> answers exactly what the registry says, whatever it answers it keeps
  the registry, and where Redis does not answer it refuses.
\<close>

theorem require_active_jti_outcome:
  assumes libs: "cjson_ok libs" "digest_ok pf" and inv: "registry_inv pf s u R"
    and st: "stores t (user_session_keys pf s u) R s0 st" "t \<le> io_now io"
    and c: "ac_user_id c = u" "uuid_version u = Some 4"
  obtains res w where "require_active_jti libs pf s c io st = (res, w)"
    "keeps libs pf s u T s0 (t, R) (io_now io) w"
    "\<And>v. res = Inr v \<longleftrightarrow> io_fault io = Answered \<and> accepts pf s c (io_now io) (remembered (io_now io) R) v"
    "\<And>e. res = Inl e \<Longrightarrow> e = registry_unavailable \<and> io_fault io \<noteq> Answered \<or>
       e = Rbac (unauthenticated ''inactive_access_token'') \<or> e = Rbac (unauthenticated ''active_token_record_mismatch'')"
proof -
  let ?f = "active_jti_field pf s (ac_token_id c)" and ?now = "io_now io" and ?R = "remembered (io_now io) R"
  have inv': "registry_inv pf s u ?R" using inv by (rule inv_remembered)
  obtain w where w: "keeps libs pf s u T s0 (t, R) ?now w"
    "io_fault io = Answered \<Longrightarrow> registry_call io (read_active_jti libs (user_session_keys pf s u) ?f) st
       = (Inr (fst (read_spec libs ?f ?now ?R)), w) \<and> stores ?now (user_session_keys pf s u) (snd (read_spec libs ?f ?now ?R)) s0 w"
    "io_fault io \<noteq> Answered \<Longrightarrow> registry_call io (read_active_jti libs (user_session_keys pf s u) ?f) st
       = (Inl registry_unavailable, w)"
    by (rule call_keeps [where body = "read_active_jti libs (user_session_keys pf s u) ?f", OF st
          read_refines [OF waited(2) [OF st] field_not_version [OF libs(2)], of libs s "ac_token_id c"] session_step.read]) (rule that; blast)
  show ?thesis
  proof (cases "io_fault io = Answered")
    case False
    then show ?thesis
      using w(1) w(3) by (intro that [of "Inl registry_unavailable" w]) (auto simp: require_active_jti_def c(1))
  next
    case True
    note spec = read_spec_active [OF libs(1) inv', of ?f ?now]
    show ?thesis
    proof (cases "\<exists>r y. ?R = Some r \<and> session_of ?f r = Some y \<and> unexpired ?now y")
      case False
      then have none: "fst (read_spec libs ?f ?now ?R) = Nil_reply" "\<not> accepts pf s c ?now ?R v" for v
        by (auto simp: spec accepts_def split: option.splits)
      show ?thesis
        using w(1) w(2) [OF True] none
        by (intro that [of "Inl (Rbac (unauthenticated ''inactive_access_token''))" w])
          (auto simp: require_active_jti_def c(1))
    next
      case active: True
      then obtain r y where y: "?R = Some r" "session_of ?f r = Some y" "unexpired ?now y" by blast
      have reply: "fst (read_spec libs ?f ?now ?R) = Text_reply (ss_value y)"
        unfolding spec by (simp add: y)
      have accept: "accepts pf s c ?now ?R v \<longleftrightarrow> ss_value y = active_jti_value c v" for v
        by (simp add: accepts_def y)
      let ?res = "or_unauthenticated ''active_token_record_mismatch'' (check_active_record c (ss_value y))"
      have res: "require_active_jti libs pf s c io st = (?res, w)"
        using w(2) [OF True] by (simp add: require_active_jti_def c(1) reply)
      have nonneg: "0 \<le> v" if "ss_value y = active_jti_value c v" for v
        using accepts_version [OF inv', of c ?now v] that accept by (auto simp: short_version_def)
      have "?res = Inr v \<longleftrightarrow> check_active_record c (ss_value y) = Inr v" for v
        by (simp add: or_unauthenticated_def split: sum.split)
      then have "?res = Inr v \<longleftrightarrow> ss_value y = active_jti_value c v" for v
        using nonneg c by (auto simp: check_active_record_iff)
      moreover have "?res = Inl e \<Longrightarrow> e = Rbac (unauthenticated ''active_token_record_mismatch'')" for e
        by (auto simp: or_unauthenticated_def split: sum.splits)
      ultimately show ?thesis
        using w(1) True by (intro that [OF res]) (auto simp: accept)
    qed
  qed
qed


text \<open>Revocation: it succeeds exactly on an accepted token, and then the session is gone.\<close>

lemma absent_session_of: "absent f (Some r) \<longleftrightarrow> session_of f r = None"
  by (auto simp: session_of_def find_None_iff)

lemma revoke_spec_accepts:
  "fst (revoke_spec (active_jti_field pf s (ac_token_id c)) (active_jti_value c v) now R) = 1 \<longleftrightarrow> accepts pf s c now R v"
  by (auto simp: revoke_spec_def accepts_def split: option.split)

lemma revoke_spec_absent:
  "fst (revoke_spec f expected now R) = 1 \<Longrightarrow> absent f (snd (revoke_spec f expected now R))"
  by (auto simp: revoke_spec_def without_session_def split: option.splits if_splits)

lemma answersD: "answers m st now keys s0 (a, R) \<Longrightarrow> yields m st (\<lambda>x w. x = Int_reply a \<and> stores now keys R s0 w)"
  by (simp add: answers_def)

theorem revoke_active_jti_outcome:
  assumes libs: "digest_ok pf"
    and st: "stores t (user_session_keys pf s u) R s0 st" "t \<le> io_now io" and c: "ac_user_id c = u"
  obtains res w where "revoke_active_jti pf s c v io st = (res, w)"
    "keeps libs pf s u T s0 (t, R) (io_now io) w"
    "res = Inr () \<longleftrightarrow> io_fault io = Answered \<and> accepts pf s c (io_now io) (remembered (io_now io) R) v"
    "res = Inr () \<Longrightarrow> \<exists>R'. stores (io_now io) (user_session_keys pf s u) R' s0 w \<and>
       absent (active_jti_field pf s (ac_token_id c)) R' \<and> (session_step libs pf s u T)\<^sup>*\<^sup>* (t, R) (io_now io, R')"
    "\<And>e. res = Inl e \<Longrightarrow> e = registry_unavailable \<and> io_fault io \<noteq> Answered \<or>
       e = Rbac (unauthenticated ''inactive_access_token'')"
proof -
  let ?f = "active_jti_field pf s (ac_token_id c)" and ?now = "io_now io" and ?R = "remembered (io_now io) R"
  let ?spec = "revoke_spec ?f (active_jti_value c v) ?now ?R"
  have refined: "answers (compare_and_delete (user_session_keys pf s u) ?f (active_jti_value c v) ?now) st ?now
      (user_session_keys pf s u) s0 ?spec"
    by (rule revoke_refines [OF waited(2) [OF st] field_not_version [OF libs]])
  obtain w where w: "keeps libs pf s u T s0 (t, R) ?now w"
    "io_fault io = Answered \<Longrightarrow> registry_call io (compare_and_delete (user_session_keys pf s u) ?f (active_jti_value c v)) st
       = (Inr (Int_reply (fst ?spec)), w) \<and> stores ?now (user_session_keys pf s u) (snd ?spec) s0 w"
    "io_fault io \<noteq> Answered \<Longrightarrow> registry_call io (compare_and_delete (user_session_keys pf s u) ?f (active_jti_value c v)) st
       = (Inl registry_unavailable, w)"
    by (rule call_keeps [where body = "compare_and_delete (user_session_keys pf s u) ?f (active_jti_value c v)", OF st
          refined [unfolded answers_def] session_step.revoke]) (rule that; blast)
  show ?thesis
  proof (cases "io_fault io = Answered")
    case False
    then show ?thesis
      using w(1) w(3) by (intro that [of "Inl registry_unavailable" w]) (auto simp: revoke_active_jti_def c(1))
  next
    case True
    have steps: "(session_step libs pf s u T)\<^sup>*\<^sup>* (t, R) (?now, snd ?spec)"
      by (rule waited_step [OF st(2) session_step.revoke])
    show ?thesis
    proof (cases "fst ?spec = 1")
      case one: True
      then show ?thesis
        using w(1) w(2) [OF True] True steps revoke_spec_absent [OF one] revoke_spec_accepts [of pf s c v ?now ?R]
        by (intro that [of "Inr ()" w]) (auto simp: revoke_active_jti_def c(1))
    next
      case False
      then show ?thesis
        using w(1) w(2) [OF True] revoke_spec_accepts [of pf s c v ?now ?R]
        by (intro that [of "Inl (Rbac (unauthenticated ''inactive_access_token''))" w])
          (auto simp: revoke_active_jti_def c(1))
    qed
  qed
qed


subsection \<open>Issuing\<close>

lemma accepts_simps [simp]: "\<not> accepts pf s c now None v"
  by (simp add: accepts_def)

lemma newest_last: "1 \<le> m \<Longrightarrow> \<exists>ys. newest m (xs @ [y]) = ys @ [y] \<and> set ys \<subseteq> set xs"
proof -
  assume "1 \<le> m"
  then have "length (xs @ [y]) - nat m \<le> length xs" by (simp add: nat_le_iff le_nat_iff)
  then have "newest m (xs @ [y]) = drop (length (xs @ [y]) - nat m) xs @ [y]"
    by (simp add: newest_def)
  then show ?thesis using set_drop_subset by metis
qed

lemma find_snoc: "(\<And>x. x \<in> set xs \<Longrightarrow> \<not> P x) \<Longrightarrow> P y \<Longrightarrow> find P (xs @ [y]) = Some y"
  by (induction xs) auto

lemma activate_spec_accepts:
  assumes "fst (activate_spec (session_for pf s c v) v m now R) = 1"
  shows "accepts pf s c now (snd (activate_spec (session_for pf s c v) v m now R)) v"
proof -
  let ?y = "session_for pf s c v"
  have ok: "\<not> (m < 1 \<or> v < 0 \<or> \<not> unexpired now ?y)"
    using assms by (rule contrapos_pn) (simp add: activate_spec_def)
  show ?thesis
  proof (cases R)
    case None
    with ok show ?thesis by (simp add: activate_spec_def accepts_def session_of_def)
  next
    case (Some r)
    let ?kept = "filter (unexpired now) (rg_sessions r)"
    let ?base = "if rg_version r = v then ?kept else []"
    have new: "\<not> rg_version r > v" "ss_field ?y \<notin> ss_field ` set ?kept"
      using assms ok Some by (auto simp: activate_spec_def Let_def split: if_splits)
    obtain ys where ys: "newest m (?base @ [?y]) = ys @ [?y]" "set ys \<subseteq> set ?base"
      using newest_last [of m ?base ?y] ok by auto
    have "ss_field x \<noteq> ss_field ?y" if "x \<in> set ys" for x
    proof -
      have "x \<in> set ?kept" using that ys(2) by (auto split: if_splits)
      with new(2) show ?thesis by (metis imageI)
    qed
    then have "find (\<lambda>x. ss_field x = ss_field ?y) (ys @ [?y]) = Some ?y"
      by (intro find_snoc) auto
    then show ?thesis
      using ok new Some ys(1) by (simp add: activate_spec_def accepts_def session_of_def)
  qed
qed

lemma activate_spec_refused:
  "fst (activate_spec y v m now R) = -2 \<Longrightarrow> \<exists>r. R = Some r \<and> v < rg_version r"
  by (auto simp: activate_spec_def Let_def split: option.splits if_splits)

lemma activate_spec_codes: "fst (activate_spec y v m now R) \<in> {1, 0, -1, -2}"
  by (auto simp: activate_spec_def Let_def split: option.splits)

definition attempt_claims :: "settings \<Rightarrow> uuid \<Rightarrow> issue_attempt \<Rightarrow> access_token_claims" where
  "attempt_claims s u a = new_claims s u (at_token_id a) (at_now a)"

text \<open>What is left of an issued token: its session is in the registry.\<close>

definition issued ::
    "token_libs \<Rightarrow> platform \<Rightarrow> settings \<Rightarrow> uuid \<Rightarrow> uuid set \<Rightarrow> redis \<Rightarrow> int \<Rightarrow> int \<times> registry option
      \<Rightarrow> issue_attempt \<Rightarrow> pystr \<Rightarrow> redis \<Rightarrow> bool" where
  "issued libs pf s u T s0 v x a token w \<longleftrightarrow>
     encode_access_token libs s u (at_token_id a) (at_now a) = Inr (token, attempt_claims s u a) \<and>
     (\<exists>R. (session_step libs pf s u T)\<^sup>*\<^sup>* x (io_now (at_io a), R) \<and>
        stores (io_now (at_io a)) (user_session_keys pf s u) R s0 w \<and>
        accepts pf s (attempt_claims s u a) (io_now (at_io a)) R v)"

definition attempt_ok :: "settings \<Rightarrow> uuid \<Rightarrow> uuid set \<Rightarrow> issue_attempt \<Rightarrow> bool" where
  "attempt_ok s u T a \<longleftrightarrow> issuable s u (attempt_claims s u a) \<and> at_token_id a \<in> T \<and> 0 \<le> io_now (at_io a)"

lemma encode_access_token_claims:
  "encode_access_token libs s u i n = Inr (token, c) \<Longrightarrow> c = new_claims s u i n"
  by (auto simp: encode_access_token_def Let_def bindE_Inr)

lemma new_claims_simps [simp]:
  "ac_user_id (new_claims s u i n) = u" "ac_token_id (new_claims s u i n) = i"
  "ac_issued_at (new_claims s u i n) = n" "ac_expires_at (new_claims s u i n) = n + s_jwt_access_token_ttl_seconds s"
  by (simp_all add: new_claims_def)

lemma issue_attempt_outcome:
  assumes libs: "digest_ok pf" and v: "short_version v"
    and st: "stores t (user_session_keys pf s u) R s0 st" "t \<le> io_now (at_io a)"
    and a: "a = attempts (JTI_ISSUANCE_ATTEMPTS - Suc left)" "attempt_ok s u T a"
  obtains (stop) res w where "issue_attempts libs pf s u v attempts (Suc left) st = (res, w)"
      "keeps libs pf s u T s0 (t, R) (io_now (at_io a)) w"
      "\<And>token. res = Inr token \<Longrightarrow> issued libs pf s u T s0 v (t, R) a token w"
  | (retry) R' w where "issue_attempts libs pf s u v attempts (Suc left) st = issue_attempts libs pf s u v attempts left w"
      "(session_step libs pf s u T)\<^sup>*\<^sup>* (t, R) (io_now (at_io a), R')"
      "stores (io_now (at_io a)) (user_session_keys pf s u) R' s0 w"
proof (cases "encode_access_token libs s u (at_token_id a) (at_now a)")
  case (Inl e)
  then show ?thesis
    using waited(1) [OF st, of libs pf s u T] waited(2) [OF st] a(1)
    by (intro stop [of "Inl e" st]) (auto intro: keepsI)
next
  case (Inr tc)
  then obtain token where enc: "encode_access_token libs s u (at_token_id a) (at_now a) = Inr (token, attempt_claims s u a)"
    using encode_access_token_claims by (cases tc) (auto simp: attempt_claims_def)
  let ?c = "attempt_claims s u a" and ?now = "io_now (at_io a)" and ?R = "remembered (io_now (at_io a)) R"
  let ?m = "s_max_active_sessions_per_user s"
  let ?spec = "activate_spec (session_for pf s ?c v) v ?m ?now ?R"
  let ?body = "activate_jti (user_session_keys pf s u) (active_jti_field pf s (ac_token_id ?c)) (active_jti_value ?c v)
      (ac_expires_at ?c) v ?m"
  have now: "0 \<le> ?now" and c: "issuable s u ?c" "ac_token_id ?c \<in> T"
    using a(2) by (simp_all add: attempt_ok_def attempt_claims_def)
  have refined: "answers (?body ?now) st ?now (user_session_keys pf s u) s0 ?spec"
    using activate_refines [OF waited(2) [OF st] now, of "session_for pf s ?c v"] field_not_version [OF libs] by simp
  obtain w where w: "keeps libs pf s u T s0 (t, R) ?now w"
    "io_fault (at_io a) = Answered \<Longrightarrow> registry_call (at_io a) ?body st
       = (Inr (Int_reply (fst ?spec)), w) \<and> stores ?now (user_session_keys pf s u) (snd ?spec) s0 w"
    "io_fault (at_io a) \<noteq> Answered \<Longrightarrow> registry_call (at_io a) ?body st = (Inl registry_unavailable, w)"
    by (rule call_keeps [where body = ?body, OF st refined [unfolded answers_def] session_step.activate [OF c v]])
      (rule that; blast)
  have unfold: "issue_attempts libs pf s u v attempts (Suc left) st =
      bindP (registry_call (at_io a) ?body) (\<lambda>created.
      if created = Int_reply 1 then returnP token
      else if created = Int_reply (-2) then raiseP (Rbac (unauthenticated ''token_version_changed''))
      else if created \<noteq> Int_reply 0 then raiseP (Rbac (unavailable ''active_token_registry_unavailable''))
      else issue_attempts libs pf s u v attempts left) st"
    using enc by (simp add: a(1) [symmetric] Let_def bindP_def)
  show ?thesis
  proof (cases "io_fault (at_io a) = Answered")
    case False
    then show ?thesis
      using w(1) w(3) unfold by (intro stop [of "Inl registry_unavailable" w]) simp_all
  next
    case True
    have steps: "(session_step libs pf s u T)\<^sup>*\<^sup>* (t, R) (?now, snd ?spec)"
      by (rule waited_step [OF st(2) session_step.activate [OF c v]])
    note call = w(2) [OF True, THEN conjunct1] and stored = w(2) [OF True, THEN conjunct2]
    consider "fst ?spec = 1" | "fst ?spec = 0" | "fst ?spec = -2" | "fst ?spec = -1"
      using activate_spec_codes [of "session_for pf s ?c v" v ?m ?now ?R] by blast
    then show ?thesis
    proof cases
      case 1
      then have "issued libs pf s u T s0 v (t, R) a token w"
        using enc steps stored activate_spec_accepts [OF 1] unfolding issued_def by blast
      with 1 w(1) call unfold show ?thesis
        by (intro stop [of "Inr token" w]) simp_all
    next
      case 2
      with steps stored call unfold show ?thesis by (intro retry [of w "snd ?spec"]) simp_all
    next
      case 3
      with w(1) call unfold show ?thesis
        by (intro stop [of "Inl (Rbac (unauthenticated ''token_version_changed''))" w]) simp_all
    next
      case 4
      with w(1) call unfold show ?thesis
        by (intro stop [of "Inl registry_unavailable" w]) simp_all
    qed
  qed
qed


lemma keeps_trans:
  assumes "(session_step libs pf s u T)\<^sup>*\<^sup>* x y" "keeps libs pf s u T s0 y t w"
  shows "keeps libs pf s u T s0 x t w"
  using assms by (auto simp: keeps_def intro: rtranclp_trans)

lemma issued_trans:
  assumes "(session_step libs pf s u T)\<^sup>*\<^sup>* x y" "issued libs pf s u T s0 v y a token w"
  shows "issued libs pf s u T s0 v x a token w"
  using assms unfolding issued_def by (meson rtranclp_trans)

lemma keeps_later:
  assumes "keeps libs pf s u T s0 x t w" "t \<le> t'"
  shows "keeps libs pf s u T s0 x t' w"
proof -
  obtain R where R: "(session_step libs pf s u T)\<^sup>*\<^sup>* x (t, R)" "stores t (user_session_keys pf s u) R s0 w"
    using assms(1) by (auto simp: keeps_def)
  have "(session_step libs pf s u T)\<^sup>*\<^sup>* x (t', remembered t' R)"
    using R(1) waited(1) [OF R(2) assms(2), of libs pf s u T] by (rule rtranclp_trans)
  then show ?thesis
    using waited(2) [OF R(2) assms(2)] by (rule keepsI)
qed

lemma two_attempts: "JTI_ISSUANCE_ATTEMPTS = Suc (Suc 0)"
  by (simp add: JTI_ISSUANCE_ATTEMPTS_def)

text \<open>
  \<open>issue_access_token\<close> leaves the registry in a state the specification reaches, and a token it
  returns is one of its two attempts, active from then on.
\<close>

theorem issue_access_token_outcome:
  assumes libs: "digest_ok pf" and u: "uuid_version u = Some 4" and v: "short_version v"
    and st: "stores t (user_session_keys pf s u) R s0 st" "t \<le> io_now (at_io (attempts 0))"
      "io_now (at_io (attempts 0)) \<le> io_now (at_io (attempts 1))"
    and ok: "attempt_ok s u T (attempts 0)" "attempt_ok s u T (attempts 1)"
  obtains res w where "issue_access_token libs pf s u v attempts st = (res, w)"
    "keeps libs pf s u T s0 (t, R) (io_now (at_io (attempts 1))) w"
    "\<And>token. res = Inr token \<Longrightarrow> \<exists>i < 2. issued libs pf s u T s0 v (t, R) (attempts i) token w"
proof -
  let ?n1 = "io_now (at_io (attempts 1))"
  have start: "issue_access_token libs pf s u v attempts st = issue_attempts libs pf s u v attempts (Suc (Suc 0)) st"
    using u v by (simp add: issue_access_token_def two_attempts short_version_def del: issue_attempts.simps)
  have first: "attempts 0 = attempts (JTI_ISSUANCE_ATTEMPTS - Suc (Suc 0))"
    and second: "attempts 1 = attempts (JTI_ISSUANCE_ATTEMPTS - Suc 0)"
    by (simp_all add: two_attempts)
  from libs v st(1,2) first ok(1) show ?thesis
  proof (cases rule: issue_attempt_outcome [where libs = libs])
    case (stop res w)
    show ?thesis
      using stop(1,3) keeps_later [OF stop(2) st(3)] start by (intro that [of res w]) (auto intro: exI [of _ 0])
  next
    case (retry R1 w1)
    from libs v retry(3) st(3) second ok(2) show ?thesis
    proof (cases rule: issue_attempt_outcome [where libs = libs])
      case (stop res w)
      have "\<exists>i < 2. issued libs pf s u T s0 v (t, R) (attempts i) token w" if "res = Inr token" for token
        using issued_trans [OF retry(2) stop(3) [OF that]] by (intro exI [of _ 1]) simp
      then show ?thesis
        using stop(1) keeps_trans [OF retry(2) stop(2)] retry(1) start by (intro that [of res w]) simp_all
    next
      case again: (retry R2 w2)
      have "keeps libs pf s u T s0 (t, R) ?n1 w2"
        using again(2,3) retry(2) by (auto intro!: keepsI elim: rtranclp_trans)
      then show ?thesis
        using retry(1) again(1) start
        by (intro that [of "Inl (Rbac (unavailable ''access_token_issuance_conflict''))" w2]) simp_all
    qed
  qed
qed


subsection \<open>Listing\<close>

lemma natural_replies_ints: "list_all (\<lambda>i. 0 \<le> i) is \<Longrightarrow> natural_replies (map Int_reply is) = Some is"
  by (induction "is") auto

lemma those_map_Some: "(\<And>y. y \<in> set ys \<Longrightarrow> f y = Some (g y)) \<Longrightarrow> those (map f ys) = Some (map g ys)"
  by (induction ys) auto

lemma list_spec_active:
  assumes libs: "cjson_ok libs" and inv: "registry_inv pf s u R"
  obtains iats where "fst (list_spec libs v now R) = Some iats" "list_all (\<lambda>i. 0 \<le> i) iats"
    "int (length iats) \<le> max 0 (s_max_active_sessions_per_user s)"
proof (cases "\<exists>r. R = Some r \<and> rg_version r = v")
  case False
  then have "fst (list_spec libs v now R) = Some []"
    by (cases R) (auto simp: list_spec_def)
  then show ?thesis by (rule that) simp_all
next
  case True
  then obtain r where r: "R = Some r" "rg_version r = v" by blast
  let ?kept = "filter (unexpired now) (rg_sessions r)"
  let ?f = "\<lambda>y. Option.bind (cjson_decode libs (ss_value y)) (\<lambda>rec. listed_iat rec (Some (ss_expires y)) now v)"
  have v: "short_version v" using inv r by (simp add: registry_wf_def)
  have "\<exists>i. ?f y = Some i \<and> 0 \<le> i" if y: "y \<in> set ?kept" for y
  proof -
    obtain c where c: "issuable s u c" "y = session_for pf s c v"
      using inv r y by (auto simp: registry_wf_def)
    have "sec_of now < ac_expires_at c" using y c(2) by (simp add: unexpired_def)
    then have "?f y = Some (ac_issued_at c)"
      using c(2) decode_active [OF libs c(1) v] listed_iat_record [OF c(1) v] by simp
    then show ?thesis using c(1) by (simp add: issuable_def)
  qed
  then have "\<forall>y \<in> set ?kept. \<exists>i. ?f y = Some i \<and> 0 \<le> i" by blast
  then obtain iat where iat: "\<forall>y \<in> set ?kept. ?f y = Some (iat y) \<and> 0 \<le> iat y"
    using bchoice [of "set ?kept" "\<lambda>y i. ?f y = Some i \<and> 0 \<le> i"] by blast
  then have "fst (list_spec libs v now R) = Some (map iat ?kept)"
    using r those_map_Some [of ?kept ?f iat] by (simp add: list_spec_def Let_def drop_expired_def)
  moreover have "list_all (\<lambda>i. 0 \<le> i) (map iat ?kept)"
    using iat by (auto simp: list_all_iff)
  moreover have "int (length ?kept) \<le> s_max_active_sessions_per_user s"
    using inv r length_filter_le [of "unexpired now" "rg_sessions r"] by (simp del: length_filter_le)
  ultimately show ?thesis by (intro that) auto
qed

theorem list_active_sessions_outcome:
  assumes libs: "cjson_ok libs" and inv: "registry_inv pf s u R"
    and st: "stores t (user_session_keys pf s u) R s0 st" "t \<le> io_now io"
  obtains res w where "list_active_sessions libs pf s u v io st = (res, w)"
    "keeps libs pf s u T s0 (t, R) (io_now io) w"
    "io_fault io = Answered \<Longrightarrow> \<exists>times. res = Inr times \<and>
       int (length times) \<le> max 0 (s_max_active_sessions_per_user s)"
    "io_fault io \<noteq> Answered \<Longrightarrow> res = Inl registry_unavailable"
proof -
  let ?now = "io_now io" and ?R = "remembered (io_now io) R"
  obtain iats where iats: "fst (list_spec libs v ?now ?R) = Some iats" "list_all (\<lambda>i. 0 \<le> i) iats"
    "int (length iats) \<le> max 0 (s_max_active_sessions_per_user s)"
    by (rule list_spec_active [OF libs inv_remembered [OF inv]])
  obtain w where w: "keeps libs pf s u T s0 (t, R) ?now w"
    "io_fault io = Answered \<Longrightarrow> registry_call io (list_user_sessions libs (user_session_keys pf s u) v) st
       = (Inr (List_reply (map Int_reply iats)), w) \<and> stores ?now (user_session_keys pf s u) (snd (list_spec libs v ?now ?R)) s0 w"
    "io_fault io \<noteq> Answered \<Longrightarrow> registry_call io (list_user_sessions libs (user_session_keys pf s u) v) st
       = (Inl registry_unavailable, w)"
    by (rule call_keeps [where body = "list_user_sessions libs (user_session_keys pf s u) v", OF st
          list_refines [OF waited(2) [OF st] iats(1)] session_step.list]) (rule that; blast)
  show ?thesis
  proof (cases "io_fault io = Answered")
    case True
    then have "list_active_sessions libs pf s u v io st = (Inr iats, w)"
      using w(2) natural_replies_ints [OF iats(2)] by (simp add: list_active_sessions_def)
    with True w(1) iats(3) show ?thesis by (intro that) auto
  next
    case False
    then have "list_active_sessions libs pf s u v io st = (Inl registry_unavailable, w)"
      using w(3) by (simp add: list_active_sessions_def)
    with False w(1) show ?thesis by (intro that) auto
  qed
qed

subsection \<open>Histories of calls\<close>

datatype session_call =
    Issue_call int "nat \<Rightarrow> issue_attempt"
  | Require_call access_token_claims redis_io
  | Revoke_call access_token_claims int redis_io
  | List_call int redis_io

text \<open>The store a call leaves, whatever it answers.\<close>

fun run_session_call :: "token_libs \<Rightarrow> platform \<Rightarrow> settings \<Rightarrow> uuid \<Rightarrow> session_call \<Rightarrow> redis \<Rightarrow> redis" where
  "run_session_call libs pf s u (Issue_call v attempts) st = snd (issue_access_token libs pf s u v attempts st)"
| "run_session_call libs pf s u (Require_call c io) st = snd (require_active_jti libs pf s c io st)"
| "run_session_call libs pf s u (Revoke_call c v io) st = snd (revoke_active_jti pf s c v io st)"
| "run_session_call libs pf s u (List_call v io) st = snd (list_active_sessions libs pf s u v io st)"

fun run_session_calls :: "token_libs \<Rightarrow> platform \<Rightarrow> settings \<Rightarrow> uuid \<Rightarrow> session_call list \<Rightarrow> redis \<Rightarrow> redis" where
  "run_session_calls libs pf s u [] st = st"
| "run_session_calls libs pf s u (x # xs) st = run_session_calls libs pf s u xs (run_session_call libs pf s u x st)"

fun call_end :: "session_call \<Rightarrow> int" where
  "call_end (Issue_call v attempts) = io_now (at_io (attempts 1))"
| "call_end (Require_call c io) = io_now io"
| "call_end (Revoke_call c v io) = io_now io"
| "call_end (List_call v io) = io_now io"

text \<open>Calls for one user, in the order of the server's clock, issuing token ids of \<open>T\<close>.\<close>

fun session_call_ok :: "settings \<Rightarrow> uuid \<Rightarrow> uuid set \<Rightarrow> int \<Rightarrow> session_call \<Rightarrow> bool" where
  "session_call_ok s u T t (Issue_call v attempts) \<longleftrightarrow>
     short_version v \<and> t \<le> io_now (at_io (attempts 0)) \<and>
     io_now (at_io (attempts 0)) \<le> io_now (at_io (attempts 1)) \<and>
     attempt_ok s u T (attempts 0) \<and> attempt_ok s u T (attempts 1)"
| "session_call_ok s u T t (Require_call c io) \<longleftrightarrow> ac_user_id c = u \<and> t \<le> io_now io"
| "session_call_ok s u T t (Revoke_call c v io) \<longleftrightarrow> ac_user_id c = u \<and> t \<le> io_now io"
| "session_call_ok s u T t (List_call v io) \<longleftrightarrow> t \<le> io_now io"

fun session_calls_ok :: "settings \<Rightarrow> uuid \<Rightarrow> uuid set \<Rightarrow> int \<Rightarrow> session_call list \<Rightarrow> bool" where
  "session_calls_ok s u T t [] \<longleftrightarrow> True"
| "session_calls_ok s u T t (x # xs) \<longleftrightarrow> session_call_ok s u T t x \<and> session_calls_ok s u T (call_end x) xs"

fun calls_end :: "int \<Rightarrow> session_call list \<Rightarrow> int" where
  "calls_end t [] = t"
| "calls_end t (x # xs) = calls_end (call_end x) xs"

definition token_env :: "token_libs \<Rightarrow> platform \<Rightarrow> uuid \<Rightarrow> bool" where
  "token_env libs pf u \<longleftrightarrow> cjson_ok libs \<and> digest_ok pf \<and> uuid_version u = Some 4"

lemma session_call_keeps:
  assumes env: "token_env libs pf u" and inv: "registry_inv pf s u R"
    and st: "stores t (user_session_keys pf s u) R s0 st" and ok: "session_call_ok s u T t x"
  shows "keeps libs pf s u T s0 (t, R) (call_end x) (run_session_call libs pf s u x st)"
proof (cases x)
  case (Issue_call v attempts)
  with env ok show ?thesis
    by (auto simp: token_env_def intro: issue_access_token_outcome [where libs = libs, OF _ _ _ st])
next
  case (Require_call c io)
  with env ok show ?thesis
    by (auto simp: token_env_def intro: require_active_jti_outcome [OF _ _ inv st])
next
  case (Revoke_call c v io)
  then have c: "ac_user_id c = u" "t \<le> io_now io" and pf: "digest_ok pf"
    using env ok by (simp_all add: token_env_def)
  obtain res w where "revoke_active_jti pf s c v io st = (res, w)" "keeps libs pf s u T s0 (t, R) (io_now io) w"
    by (rule revoke_active_jti_outcome [OF pf st c(2,1)])
  then show ?thesis by (simp add: Revoke_call)
next
  case (List_call v io)
  then have libs: "cjson_ok libs" and now: "t \<le> io_now io"
    using env ok by (simp_all add: token_env_def)
  obtain res w where "list_active_sessions libs pf s u v io st = (res, w)" "keeps libs pf s u T s0 (t, R) (io_now io) w"
    by (rule list_active_sessions_outcome [OF libs inv st now])
  then show ?thesis by (simp add: List_call)
qed

theorem session_history:
  assumes env: "token_env libs pf u"
  shows "registry_inv pf s u R \<Longrightarrow> stores t (user_session_keys pf s u) R s0 st \<Longrightarrow>
    session_calls_ok s u T t xs \<Longrightarrow>
    keeps libs pf s u T s0 (t, R) (calls_end t xs) (run_session_calls libs pf s u xs st)"
proof (induction xs arbitrary: t R st)
  case Nil
  then show ?case by (auto intro: keepsI)
next
  case (Cons x xs)
  then obtain R' where R': "(session_step libs pf s u T)\<^sup>*\<^sup>* (t, R) (call_end x, R')"
      "stores (call_end x) (user_session_keys pf s u) R' s0 (run_session_call libs pf s u x st)"
    using session_call_keeps [OF env] by (force simp: keeps_def)
  then have "registry_inv pf s u R'" using session_steps_inv [OF R'(1)] Cons.prems(1) by simp
  then show ?case
    using Cons.IH [OF _ R'(2)] Cons.prems(3) keeps_trans [OF R'(1)] by simp
qed

end
