(* ===== verification/Access_Tokens.thy ===== *)
theory Access_Tokens
  imports Sessions
begin

text \<open>
  The signed token itself: \<open>decode_access_token\<close> reads back what \<open>_encode_access_token\<close> wrote.
  PyJWT is used as documented: decoding with the secret of the encoding returns the same
  dictionary, provided the required claims are there, the token is in its time and the scope
  matches.
\<close>

subsection \<open>PyJWT\<close>

definition claim_in_time :: "(pystr \<times> json) list \<Rightarrow> int \<Rightarrow> int \<Rightarrow> bool" where
  "claim_in_time payload leeway now \<longleftrightarrow>
     (case (map_of payload (lit ''exp''), map_of payload (lit ''iat'')) of
        (Some (J_Int e), Some (J_Int i)) \<Rightarrow> now < e + leeway \<and> i \<le> now + leeway
      | _ \<Rightarrow> False)"

definition claim_in_scope :: "(pystr \<times> json) list \<Rightarrow> (pystr \<times> pystr) option \<Rightarrow> bool" where
  "claim_in_scope payload scope \<longleftrightarrow>
     (case scope of
        None \<Rightarrow> map_of payload (lit ''aud'') = None
      | Some (a, i) \<Rightarrow> map_of payload (lit ''aud'') = Some (J_Str a) \<and> map_of payload (lit ''iss'') = Some (J_Str i))"

text \<open>
  What PyJWT documents of HS256. It refuses a key that looks like a PEM or an SSH key, a
  subject or token id that is not a string, and a token before its \<open>nbf\<close>; the payloads of
  this program have no \<open>nbf\<close>, so nothing is assumed of one that has.
\<close>

definition mentions :: "string \<Rightarrow> pystr \<Rightarrow> bool" where
  "mentions w s \<longleftrightarrow> list_ex (\<lambda>i. take (length w) (drop i s) = lit w) [0..<Suc (length s)]"

definition hmac_secret :: "pystr \<Rightarrow> bool" where
  "hmac_secret s \<longleftrightarrow> plain_text s \<and> \<not> mentions ''BEGIN '' s \<and> \<not> mentions ''ssh-'' s \<and> \<not> mentions ''ecdsa-'' s"

definition text_claim :: "(pystr \<times> json) list \<Rightarrow> string \<Rightarrow> bool" where
  "text_claim payload k \<longleftrightarrow>
     (case map_of payload (lit k) of None \<Rightarrow> True | Some (J_Str _) \<Rightarrow> True | Some _ \<Rightarrow> False)"

definition claim_types :: "(pystr \<times> json) list \<Rightarrow> bool" where
  "claim_types payload \<longleftrightarrow>
     map_of payload (lit ''nbf'') = None \<and> text_claim payload ''sub'' \<and> text_claim payload ''jti''"

definition jwt_ok :: "token_libs \<Rightarrow> bool" where
  "jwt_ok libs \<longleftrightarrow>
     (\<forall>payload secret leeway required scope now.
        distinct (map fst payload) \<longrightarrow> list_all small_member payload \<longrightarrow> claim_types payload \<longrightarrow>
        hmac_secret secret \<longrightarrow> secret \<noteq> [] \<longrightarrow>
        set required \<subseteq> fst ` set payload \<longrightarrow> claim_in_time payload leeway now \<longrightarrow> claim_in_scope payload scope \<longrightarrow>
        (\<exists>p. jwt_decode libs (jwt_encode libs payload secret) secret leeway required scope now = Some p \<and>
             distinct (map fst p) \<and> set p = set payload))"

subsection \<open>Reading back a token\<close>

lemma json_get_iff: "distinct (map fst p) \<Longrightarrow> json_get p k = Some v \<longleftrightarrow> (k, v) \<in> set p"
proof -
  assume "distinct (map fst p)"
  then have "distinct (map fst (rev p))" by (simp add: rev_map [symmetric])
  then show ?thesis by (simp add: json_get_def map_of_eq_Some_iff)
qed

lemma json_get_same:
  assumes "distinct (map fst p)" "distinct (map fst q)" "set p = set q"
  shows "json_get p k = json_get q k"
proof (rule option.expand)
  show "(json_get p k = None) = (json_get q k = None)"
    using json_get_iff [OF assms(1), of k] json_get_iff [OF assms(2), of k] assms(3) by force
  show "json_get p k \<noteq> None \<Longrightarrow> json_get q k \<noteq> None \<Longrightarrow> the (json_get p k) = the (json_get q k)"
    using json_get_iff [OF assms(1), of k] json_get_iff [OF assms(2), of k] assms(3) by fastforce
qed

lemma claims_of_payload_same:
  "distinct (map fst p) \<Longrightarrow> distinct (map fst q) \<Longrightarrow> set p = set q \<Longrightarrow> claims_of_payload s p = claims_of_payload s q"
  using json_get_same [of p q] by (simp add: claims_of_payload_def)

lemma access_payload_distinct: "distinct (map fst (access_payload s c))"
  by (auto simp: access_payload_def split: option.split)

lemma token_scope_iff:
  assumes "settings_ok pf s"
  shows "token_scope s = None \<longleftrightarrow> s_jwt_issuer s = None"
    "token_scope s = Some (a, i) \<Longrightarrow> printable a \<and> printable i"
proof -
  have "s_jwt_issuer s = None \<longleftrightarrow> s_jwt_audience s = None" "pred_option printable (s_jwt_issuer s)"
      "pred_option printable (s_jwt_audience s)"
    using assms by (simp_all add: settings_ok_def)
  then show "token_scope s = None \<longleftrightarrow> s_jwt_issuer s = None"
      "token_scope s = Some (a, i) \<Longrightarrow> printable a \<and> printable i"
    by (auto simp: token_scope_def split: option.splits)
qed

lemma access_payload_keys:
  assumes "settings_ok pf s"
  shows "fst ` set (access_payload s c) = set (expected_access_claims s)"
  using token_scope_iff(1) [OF assms]
  by (cases "token_scope s") (auto simp: access_payload_def expected_access_claims_def REQUIRED_ACCESS_CLAIMS_def
      OPTIONAL_ACCESS_SCOPE_CLAIMS_def image_iff)

lemma access_payload_get:
  "json_get (access_payload s c) (lit ''token_type'') = Some (J_Str (lit ''access''))"
  "json_get (access_payload s c) (lit ''iat'') = Some (J_Int (ac_issued_at c))"
  "json_get (access_payload s c) (lit ''exp'') = Some (J_Int (ac_expires_at c))"
  "json_get (access_payload s c) (lit ''sub'') = Some (J_Str (lit (uuid_str (ac_user_id c))))"
  "json_get (access_payload s c) (lit ''jti'') = Some (J_Str (lit (uuid_str (ac_token_id c))))"
  by (simp_all only: json_get_iff [OF access_payload_distinct]) (simp_all add: access_payload_def)

lemma claims_of_access_payload:
  assumes "settings_ok pf s" "issuable s u c" "uuid_version u = Some 4" "uuid_version (ac_token_id c) = Some 4"
  shows "claims_of_payload s (access_payload s c) = Inr c"
  using assms(2-4) access_payload_keys [OF assms(1), of c]
  by (simp add: claims_of_payload_def access_payload_get integer_numeric_date_def uuid4_def issuable_def)

lemma access_payload_small:
  assumes "settings_ok pf s" "issuable s u c"
  shows "list_all small_member (access_payload s c)"
proof -
  have uuid: "list_all (\<lambda>i. 32 \<le> i \<and> i < (128 :: int)) (lit (uuid_str w))" for w
    using uuid_str_plain [of w] by (auto simp: list_all_iff lit_def plain_char_def)
  have scoped: "list_all (\<lambda>i. 32 \<le> i \<and> i < (128 :: int)) a" if "printable a" for a
    using that by (auto simp: printable_def list_all_iff)
  have fixed: "list_all (\<lambda>i. 32 \<le> i \<and> i < (128 :: int)) (lit t)"
    if "t \<in> {''sub'', ''jti'', ''iat'', ''exp'', ''token_type'', ''access'', ''iss'', ''aud''}" for t
    using that by (auto simp: lit_def)
  show ?thesis
    using assms(2) uuid scoped token_scope_iff(2) [OF assms(1)]
    by (auto simp: access_payload_def small_member_def fixed issuable_def split: option.split)
qed

lemma access_payload_time:
  assumes "ac_issued_at c \<le> now + leeway" "now < ac_expires_at c + leeway"
  shows "claim_in_time (access_payload s c) leeway now"
proof -
  have "map_of (access_payload s c) (lit ''exp'') = Some (J_Int (ac_expires_at c))"
      "map_of (access_payload s c) (lit ''iat'') = Some (J_Int (ac_issued_at c))"
    by (simp_all add: access_payload_def)
  with assms show ?thesis by (simp add: claim_in_time_def)
qed

lemma access_payload_scope: "claim_in_scope (access_payload s c) (token_scope s)"
  by (auto simp: claim_in_scope_def access_payload_def split: option.split)

lemma access_payload_types: "claim_types (access_payload s c)"
proof -
  have "map_of (access_payload s c) (lit ''nbf'') = None"
    by (auto simp: access_payload_def lit_inject split: option.split)
  then show ?thesis
    by (simp add: claim_types_def text_claim_def access_payload_def)
qed

lemma strong_secret: "settings_ok pf s \<Longrightarrow> s_jwt_secret s \<noteq> []"
  using accepted_secret [of pf "s_jwt_secret s"] by (auto simp: settings_ok_def)

theorem decode_encoded:
  assumes libs: "jwt_ok libs" and s: "settings_ok pf s" "hmac_secret (s_jwt_secret s)"
    and c: "issuable s u (new_claims s u i n)" "uuid_version u = Some 4" "uuid_version i = Some 4"
    and token: "encode_access_token libs s u i n = Inr (token, c)"
    and now: "n \<le> now + JWT_CLOCK_LEEWAY_SECONDS"
      "now < n + s_jwt_access_token_ttl_seconds s + JWT_CLOCK_LEEWAY_SECONDS"
  shows "decode_access_token libs s now token = Inr c"
proof -
  have c': "c = new_claims s u i n" "token = jwt_encode libs (access_payload s c) (s_jwt_secret s)"
    using token by (auto simp: encode_access_token_def Let_def bindE_Inr)
  have "set (expected_access_claims s) \<subseteq> fst ` set (access_payload s c)"
    using access_payload_keys [OF s(1)] by blast
  moreover have "claim_in_time (access_payload s c) JWT_CLOCK_LEEWAY_SECONDS now"
    using now c'(1) by (intro access_payload_time) simp_all
  ultimately obtain p where p: "jwt_decode libs token (s_jwt_secret s) JWT_CLOCK_LEEWAY_SECONDS
        (expected_access_claims s) (token_scope s) now = Some p"
      "distinct (map fst p)" "set p = set (access_payload s c)"
    using libs access_payload_distinct [of s c] access_payload_small [OF s(1)] c(1) c' s(2) strong_secret [OF s(1)]
      access_payload_scope [of s c] access_payload_types [of s c] unfolding jwt_ok_def by blast
  have "claims_of_payload s p = Inr c"
    using claims_of_payload_same [OF p(2) access_payload_distinct p(3)] claims_of_access_payload [OF s(1)] c c'(1)
    by simp
  then show ?thesis
    by (simp add: decode_access_token_def p(1) or_unauthenticated_def)
qed

end
