(* ===== verification/Sample_Platform.thy ===== *)
theory Sample_Platform
  imports Access_Tokens
begin

text \<open>
  A platform, settings and libraries the witnesses run on: a digest that is the reversed
  text padded to 64 characters, and tokens that are JSON texts holding the secret.
\<close>

definition sample_digest :: "pystr \<Rightarrow> string" where
  "sample_digest s = take 64 (map (\<lambda>c. char_of (nat c)) (rev s) @ replicate 64 CHR ''0'')"

definition sample_platform :: platform where
  "sample_platform =
     \<lparr>pf_unicode = ascii_db,
      pf_urlsplit = (\<lambda>u. Inr \<lparr>url_scheme = takeWhile (\<lambda>c. c \<noteq> 58) u, url_hostname = Some (lit ''cache''),
        url_port = Inr None, url_query = [], url_fragment = [], url_path = []\<rparr>),
      pf_upper = map (\<lambda>c. if is_lower c then c - 32 else c),
      pf_is_file = (\<lambda>_. False),
      pf_isdigit = is_digit,
      pf_ip_compressed = (\<lambda>ip. if ip = [] then None else Some ip),
      pf_sha256 = sample_digest,
      pf_hmac_sha256 = (\<lambda>key message. map (\<lambda>b. char_of (nat b)) message)\<rparr>"

definition sample_settings :: settings where
  "sample_settings =
     \<lparr>s_database_url = lit ''postgresql+asyncpg://db/app'',
      s_database_pool_size = 5, s_database_max_overflow = 5,
      s_database_pool_timeout_seconds = Finite 5000000000,
      s_database_connect_timeout_seconds = Finite 5000000000,
      s_database_command_timeout_seconds = Finite 20000000000,
      s_database_statement_timeout_ms = 15000, s_database_lock_timeout_ms = 3000,
      s_redis_url = Some (lit ''redis://cache''), s_redis_connection = None,
      s_app_environment = lit ''test'', s_service_name = lit ''rbac'', s_service_version = lit ''1'',
      s_log_level = lit ''INFO'', s_log_include_exception_details = False, s_log_queue_capacity = 1000,
      s_log_shutdown_timeout_seconds = Finite 2000000000,
      s_jwt_secret = lit ''k3Vt9QxLw7ZpR2mYc8HsB4nGf6JdT1aE'',
      s_rate_limit_hmac_key = lit ''u5Nq1WzKe8XrP3tMv7CyA2hDg9FbS6jL'',
      s_max_active_sessions_per_user = 2, s_admin_password_reset_temporary = False,
      s_jwt_issuer = None, s_jwt_audience = None, s_jwt_access_token_ttl_seconds = 86400,
      s_rate_limit_enabled = True, s_rate_limit_redis_url = None, s_rate_limit_redis_connection = None,
      s_rate_limit_namespace = lit ''app'',
      s_rate_limit_captcha_create_per_five_minutes = 10,
      s_rate_limit_authenticated_read_per_minute = 600,
      s_rate_limit_management_read_per_minute = 300,
      s_rate_limit_ordinary_write_per_minute = 120,
      s_rate_limit_authorization_write_per_minute = 60,
      s_rate_limit_login_ip_per_five_minutes = 20,
      s_rate_limit_registration_ip_per_hour = 5,
      s_rate_limit_temporary_complete_ip_per_five_minutes = 20,
      s_redis_connect_timeout_seconds = Finite 500000000, s_redis_socket_timeout_seconds = Finite 500000000,
      s_redis_max_connections = 50, s_readiness_timeout_seconds = Finite 1000000000, s_sql_echo = False\<rparr>"

definition sample_libs :: token_libs where
  "sample_libs =
     \<lparr>jwt_encode = (\<lambda>payload secret. encode_json (J_List [J_Str secret, J_Obj payload])),
      jwt_decode = (\<lambda>token secret leeway required scope now.
        case json_loads token of
          Some (J_List [J_Str key, J_Obj payload]) \<Rightarrow>
            if key = secret \<and> set required \<subseteq> fst ` set payload \<and> claim_in_time payload leeway now
               \<and> claim_in_scope payload scope
            then Some payload else None
        | _ \<Rightarrow> None),
      cjson_decode = json_loads\<rparr>"

lemma sample_digest_ok: "digest_ok sample_platform"
  by (auto simp: digest_ok_def sample_platform_def sample_digest_def min_def)

lemma sample_cjson_ok: "cjson_ok sample_libs"
  by (rule json_loads_cjson) (simp add: sample_libs_def)

lemma map_of_permuted: "distinct (map fst p) \<Longrightarrow> set p = set q \<Longrightarrow> distinct (map fst q) \<Longrightarrow> map_of p = map_of q"
  using map_of_inject_set by blast

lemma sample_jwt_ok: "jwt_ok sample_libs"
  unfolding jwt_ok_def
proof (intro allI impI)
  fix payload secret leeway required scope now
  assume p: "distinct (map fst payload)" "list_all small_member payload" "hmac_secret secret"
    and req: "set required \<subseteq> fst ` set payload" "claim_in_time payload leeway now" "claim_in_scope payload scope"
  let ?q = "sort_key fst payload"
  have small: "plain_text (fst m) \<and> plain_json (snd m) \<and> sorted_json (snd m) = snd m" if "m \<in> set payload" for m
    using small_member_plain p(2) that by (auto simp: list_all_iff)
  then have "map (\<lambda>m. (fst m, sorted_json (snd m))) payload = payload"
    by (simp add: map_idI)
  then have "json_loads (encode_json (J_List [J_Str secret, J_Obj payload])) = Some (J_List [J_Str secret, J_Obj ?q])"
    using json_loads_encode [of "J_List [J_Str secret, J_Obj payload]"] small p(3) [unfolded hmac_secret_def]
    by (simp add: list_all_iff del: encode_json.simps)
  moreover have q: "distinct (map fst ?q)" "set ?q = set payload"
    using p(1) by (metis distinct_map distinct_sort set_sort, simp)
  then have same: "map_of ?q = map_of payload"
    using map_of_permuted p(1) by metis
  have "claim_in_time ?q leeway now" "claim_in_scope ?q scope"
    using req(2,3) unfolding claim_in_time_def claim_in_scope_def same by simp_all
  ultimately show "\<exists>p. jwt_decode sample_libs (jwt_encode sample_libs payload secret) secret leeway required scope now = Some p \<and>
      distinct (map fst p) \<and> set p = set payload"
    using req(1) q by (simp add: sample_libs_def)
qed

lemma sample_settings_valid: "validate_settings sample_platform sample_settings = Inr sample_settings"
  by code_simp

lemma sample_settings_ok: "settings_ok sample_platform sample_settings"
  using validate_settings_ok [OF sample_settings_valid] .


lemma hex_of_numeral:
  "hex_of (numeral k) n = hex_of (pred_numeral k) (n div 16) @ [hex_digit (n mod 16)]" "hex_of 1 n = [hex_digit (n mod 16)]"
  by (subst numeral_eq_Suc, simp) (simp add: One_nat_def)

end
