(* ===== verification/Session_Properties.thy ===== *)
theory Session_Properties
  imports Sample_Platform
begin

text \<open>
  The properties of the session registry and of access tokens. A history is a sequence of
  calls for one user, in the order of the clock of the Redis server, that starts from a store
  in which the user has no keys; any call may be lost on its way or lose its answer.
\<close>

definition no_sessions :: "platform \<Rightarrow> settings \<Rightarrow> uuid \<Rightarrow> redis \<Rightarrow> bool" where
  "no_sessions pf s u st \<longleftrightarrow>
     (case user_session_keys pf s u of (a, b, c) \<Rightarrow> st a = None \<and> st b = None \<and> st c = None)"

lemma stores_none: "no_sessions pf s u st \<Longrightarrow> stores t (user_session_keys pf s u) None st st"
  using user_keys_distinct [of pf s u]
  by (auto simp: no_sessions_def stores_def view_def same_elsewhere_def hash_at_def zset_at_def r_lookup_def
      split: prod.splits)

text \<open>The registry after a history.\<close>

lemma after_history:
  assumes "token_env libs pf u" "no_sessions pf s u s0" "session_calls_ok s u T 0 xs"
  obtains R where "(session_step libs pf s u T)\<^sup>*\<^sup>* (0, None) (calls_end 0 xs, R)" "registry_inv pf s u R"
    "stores (calls_end 0 xs) (user_session_keys pf s u) R s0 (run_session_calls libs pf s u xs s0)"
proof -
  obtain R where R: "(session_step libs pf s u T)\<^sup>*\<^sup>* (0, None) (calls_end 0 xs, R)"
      "stores (calls_end 0 xs) (user_session_keys pf s u) R s0 (run_session_calls libs pf s u xs s0)"
    using session_history [OF assms(1) _ stores_none [OF assms(2)] assms(3)] by (auto simp: keeps_def)
  moreover have "registry_inv pf s u R" using session_steps_inv [OF R(1)] by simp
  ultimately show ?thesis using that by blast
qed

lemma session_calls_ok_append:
  "session_calls_ok s u T t (xs @ ys) \<longleftrightarrow> session_calls_ok s u T t xs \<and> session_calls_ok s u T (calls_end t xs) ys"
  by (induction xs arbitrary: t) auto

section \<open>The scripts and the registry\<close>

text \<open>
  C13: The four Lua scripts refine the operations of the abstract registry: run on keys that
  represent a registry they answer what the specification answers, leave keys that represent
  the registry the specification leaves, and touch no other key.
\<close>

theorem session_scripts_refine_the_registry:
  assumes "stores now keys R s0 s" "0 \<le> now" "ss_field y \<noteq> ''_version''"
  shows "answers (activate_jti keys (ss_field y) (ss_value y) (ss_expires y) version maximum now) s now keys s0
      (activate_spec y version maximum now R) \<and>
    answers (compare_and_delete keys (ss_field y) (ss_value y) now) s now keys s0
      (revoke_spec (ss_field y) (ss_value y) now R) \<and>
    yields (read_active_jti libs keys (ss_field y) now) s
      (\<lambda>reply u. reply = fst (read_spec libs (ss_field y) now R) \<and>
         stores now keys (snd (read_spec libs (ss_field y) now R)) s0 u) \<and>
    (case fst (list_spec libs version now R) of
       None \<Rightarrow> True
     | Some iats \<Rightarrow> yields (list_user_sessions libs keys version now) s
         (\<lambda>reply u. reply = List_reply (map Int_reply iats) \<and>
            stores now keys (snd (list_spec libs version now R)) s0 u))"
  using activate_refines [OF assms] revoke_refines [OF assms(1,3)] read_refines [OF assms(1,3)] list_refines [OF assms(1)]
  by (auto split: option.split)

definition sample_user_id :: uuid where
  "sample_user_id = UUID 0x11111111111141118111111111111111"

definition sample_token_id :: "nat \<Rightarrow> uuid" where
  "sample_token_id i = UUID (0x22222222222242228222222222222200 + word_of_nat i)"

abbreviation sample_keys :: session_keys where
  "sample_keys \<equiv> user_session_keys sample_platform sample_settings sample_user_id"

definition sample_session :: session where
  "sample_session = session_for sample_platform sample_settings
     (new_claims sample_settings sample_user_id (sample_token_id 1) 10) 0"

lemma sample_env: "token_env sample_libs sample_platform sample_user_id"
proof -
  have "uuid_version sample_user_id = Some 4" by code_simp
  then show ?thesis by (simp add: token_env_def sample_cjson_ok sample_digest_ok)
qed

lemma sample_empty: "no_sessions sample_platform sample_settings u (\<lambda>_. None)"
  by (simp add: no_sessions_def split: prod.split)

lemma sample_session_unexpired: "unexpired 10000000 sample_session"
  by (simp add: sample_session_def unexpired_def sec_of_def sample_settings_def)

lemma activate_spec_first:
  "unexpired now y \<Longrightarrow> 1 \<le> m \<Longrightarrow> 0 \<le> v \<Longrightarrow>
     activate_spec y v m now None = (1, Some \<lparr>rg_version = v, rg_sessions = [y], rg_deadline = ss_expires y * 1000\<rparr>)"
  by (simp add: activate_spec_def)

theorem session_scripts_witness:
  "answers (activate_jti sample_keys (ss_field sample_session) (ss_value sample_session) (ss_expires sample_session)
      0 2 10000000) (\<lambda>_. None) 10000000 sample_keys (\<lambda>_. None)
      (1, Some \<lparr>rg_version = 0, rg_sessions = [sample_session], rg_deadline = ss_expires sample_session * 1000\<rparr>)"
proof -
  have *: "stores 10000000 sample_keys None (\<lambda>_. None) (\<lambda>_. None)"
    by (rule stores_none [OF sample_empty])
  have "ss_field sample_session \<noteq> ''_version''"
    unfolding sample_session_def session_for_simps by (rule field_not_version [OF sample_digest_ok])
  then have "answers (activate_jti sample_keys (ss_field sample_session) (ss_value sample_session) (ss_expires sample_session)
      0 2 10000000) (\<lambda>_. None) 10000000 sample_keys (\<lambda>_. None) (activate_spec sample_session 0 2 10000000 None)"
    by (rule session_scripts_refine_the_registry [OF *, THEN conjunct1, rotated]) simp
  then show ?thesis
    unfolding activate_spec_first [OF sample_session_unexpired, of 2 0, simplified] .
qed

section \<open>Issued tokens\<close>

lemma require_accepts:
  assumes env: "token_env libs pf u" and R: "registry_inv pf s u R" "stores t (user_session_keys pf s u) R s0 st"
    and io: "t \<le> io_now io" and c: "ac_user_id c = u"
  shows "fst (require_active_jti libs pf s c io st) = Inr v \<longleftrightarrow>
    io_fault io = Answered \<and> accepts pf s c (io_now io) (remembered (io_now io) R) v"
proof -
  have libs: "cjson_ok libs" "digest_ok pf" "uuid_version u = Some 4" using env by (simp_all add: token_env_def)
  show ?thesis
    by (rule require_active_jti_outcome [where T = "{}", OF libs(1,2) R io c libs(3)]) simp
qed

lemma revoke_accepts:
  assumes env: "token_env libs pf u" and R: "stores t (user_session_keys pf s u) R s0 st"
    and io: "t \<le> io_now io" and c: "ac_user_id c = u"
  shows "fst (revoke_active_jti pf s c v io st) = Inr () \<longleftrightarrow>
    io_fault io = Answered \<and> accepts pf s c (io_now io) (remembered (io_now io) R) v"
proof -
  have pf: "digest_ok pf" using env by (simp add: token_env_def)
  show ?thesis
    by (rule revoke_active_jti_outcome [where libs = libs and T = "{}" and v = v, OF pf R io c]) simp
qed

lemma registry_expiry:
  assumes "registry_inv pf s u (Some r)" "session_of f r = Some y" "ss_value y = active_jti_value c v"
  shows "rg_version r = v \<and> ss_expires y = ac_expires_at c"
proof -
  obtain d where "y = session_for pf s d (rg_version r)"
    using registry_session [OF assms(1,2)] by blast
  then have "active_jti_value d (rg_version r) = active_jti_value c v" "ss_expires y = ac_expires_at d"
    using assms(3) by simp_all
  then show ?thesis using active_jti_value_inject(1,4) [of d "rg_version r" c v] by simp
qed

lemma accepted_deadline:
  assumes "stores t keys R s0 st" "accepts pf s c t R v" "registry_inv pf s u R"
  shows "\<exists>r. R = Some r \<and> rg_version r = v \<and> ac_expires_at c * 1000 \<le> rg_deadline r"
proof -
  obtain r y where r: "R = Some r" "session_of (active_jti_field pf s (ac_token_id c)) r = Some y"
      "ss_value y = active_jti_value c v"
    using assms(2) by (auto simp: accepts_def split: option.splits)
  note e = registry_expiry [OF assms(3) [unfolded r(1)] r(2,3)]
  have "registry_ok r" using assms(1) r(1) by (auto simp: stores_def)
  then show ?thesis
    using session_of_Some [OF r(2)] r(1) e by (auto simp: registry_ok_def)
qed

lemma unexpired_remembered:
  assumes "stores t keys R s0 st" "accepts pf s c t R v" "sec_of t' < ac_expires_at c" "registry_inv pf s u R"
  shows "accepts pf s c t' (remembered t' R) v"
proof -
  obtain r where r: "R = Some r" "ac_expires_at c * 1000 \<le> rg_deadline r"
    using accepted_deadline [OF assms(1,2,4)] by blast
  moreover have "ms_of t' < ac_expires_at c * 1000"
    using assms(3) by (auto simp: sec_of_def ms_of_def)
  ultimately have now: "remembered t' R = Some r" by (simp add: remembered_def)
  obtain y where y: "session_of (active_jti_field pf s (ac_token_id c)) r = Some y" "ss_value y = active_jti_value c v"
    using assms(2) r(1) by (auto simp: accepts_def split: option.splits)
  then show ?thesis
    using assms(2,3) r(1) now registry_expiry [OF assms(4) [unfolded r(1)] y(1)] by (simp add: accepts_def unexpired_def)
qed

text \<open>What the store holds once a token is returned.\<close>

lemma after_issue:
  assumes env: "token_env libs pf u"
    and before: "no_sessions pf s u s0" "session_calls_ok s u T 0 xs"
    and call: "session_call_ok s u T (calls_end 0 xs) (Issue_call v attempts)"
    and res: "issue_access_token libs pf s u v attempts (run_session_calls libs pf s u xs s0) = (Inr token, st)"
  obtains i R where "i < 2" "attempt_ok s u T (attempts i)"
    "encode_access_token libs s u (at_token_id (attempts i)) (at_now (attempts i)) = Inr (token, attempt_claims s u (attempts i))"
    "registry_inv pf s u R" "stores (io_now (at_io (attempts i))) (user_session_keys pf s u) R s0 st"
    "accepts pf s (attempt_claims s u (attempts i)) (io_now (at_io (attempts i))) R v"
proof -
  have libs: "digest_ok pf" "uuid_version u = Some 4" using env by (simp_all add: token_env_def)
  obtain R where R: "registry_inv pf s u R"
      "stores (calls_end 0 xs) (user_session_keys pf s u) R s0 (run_session_calls libs pf s u xs s0)"
    by (rule after_history [OF env before])
  have ok: "short_version v" "calls_end 0 xs \<le> io_now (at_io (attempts 0))"
      "io_now (at_io (attempts 0)) \<le> io_now (at_io (attempts 1))" "attempt_ok s u T (attempts 0)" "attempt_ok s u T (attempts 1)"
    using call by simp_all
  obtain i where i: "i < 2" and issued: "issued libs pf s u T s0 v (calls_end 0 xs, R) (attempts i) token st"
    by (rule issue_access_token_outcome [where libs = libs, OF libs ok(1) R(2) ok(2-5)]) (use res in auto)
  have "i = 0 \<or> i = 1" using i by auto
  then have a: "attempt_ok s u T (attempts i)" using ok(4,5) by auto
  obtain R' where R': "(session_step libs pf s u T)\<^sup>*\<^sup>* (calls_end 0 xs, R) (io_now (at_io (attempts i)), R')"
      "stores (io_now (at_io (attempts i))) (user_session_keys pf s u) R' s0 st"
      "accepts pf s (attempt_claims s u (attempts i)) (io_now (at_io (attempts i))) R' v"
    using issued by (auto simp: issued_def)
  have "registry_inv pf s u R'" using session_steps_inv [OF R'(1)] R(1) by simp
  with i a R'(2,3) issued show ?thesis by (intro that) (simp_all add: issued_def)
qed

text \<open>
  C14: A token that \<open>issue_access_token\<close> returned after any history is accepted, under a
  signing secret PyJWT does not take for a PEM or SSH key. The token
  decodes to the claims of one of the two attempts, at any time of its life, with thirty
  seconds of leeway; and while it is not expired \<open>require_active_jti\<close> answers with the version
  it was issued for.
\<close>

theorem issued_token_is_accepted:
  assumes env: "token_env libs pf u" "jwt_ok libs" "settings_ok pf s" "hmac_secret (s_jwt_secret s)"
    and before: "no_sessions pf s u s0" "session_calls_ok s u T 0 xs" "\<forall>i \<in> T. uuid_version i = Some 4"
    and call: "session_call_ok s u T (calls_end 0 xs) (Issue_call v attempts)"
    and res: "issue_access_token libs pf s u v attempts (run_session_calls libs pf s u xs s0) = (Inr token, st)"
  shows "\<exists>i < 2. let c = attempt_claims s u (attempts i); n = at_now (attempts i) in
    (\<forall>now. n - 30 \<le> now \<and> now < n + s_jwt_access_token_ttl_seconds s + 30 \<longrightarrow> decode_access_token libs s now token = Inr c) \<and>
    (\<forall>io. io_fault io = Answered \<and> io_now (at_io (attempts i)) \<le> io_now io \<and> sec_of (io_now io) < ac_expires_at c \<longrightarrow>
       fst (require_active_jti libs pf s c io st) = Inr v)"
proof -
  obtain i R where i: "i < 2" and a: "attempt_ok s u T (attempts i)"
      "encode_access_token libs s u (at_token_id (attempts i)) (at_now (attempts i)) = Inr (token, attempt_claims s u (attempts i))"
    and R: "registry_inv pf s u R" "stores (io_now (at_io (attempts i))) (user_session_keys pf s u) R s0 st"
      "accepts pf s (attempt_claims s u (attempts i)) (io_now (at_io (attempts i))) R v"
    by (rule after_issue [OF env(1) before(1,2) call res])
  let ?a = "attempts i"
  let ?c = "attempt_claims s u ?a"
  have u: "uuid_version u = Some 4" using env(1) by (simp add: token_env_def)
  have c: "issuable s u ?c" "uuid_version (at_token_id ?a) = Some 4"
    using before(3) a(1) by (simp_all add: attempt_ok_def)
  have decoded: "decode_access_token libs s now token = Inr ?c"
    if "at_now ?a - 30 \<le> now" "now < at_now ?a + s_jwt_access_token_ttl_seconds s + 30" for now
    using decode_encoded [OF env(2-4) _ u c(2)] c(1) a(2) that
    by (simp add: attempt_claims_def JWT_CLOCK_LEEWAY_SECONDS_def)
  have active: "fst (require_active_jti libs pf s ?c io st) = Inr v"
    if io: "io_fault io = Answered" "io_now (at_io ?a) \<le> io_now io" "sec_of (io_now io) < ac_expires_at ?c" for io
    using require_accepts [OF env(1) R(1,2) io(2)] io(1) unexpired_remembered [OF R(2,3) io(3) R(1)]
    by (simp add: attempt_claims_def)
  show ?thesis
    unfolding Let_def
  proof (intro exI conjI allI impI)
    show "i < 2" by (rule i)
    show "decode_access_token libs s now token = Inr ?c"
      if "at_now ?a - 30 \<le> now \<and> now < at_now ?a + s_jwt_access_token_ttl_seconds s + 30" for now
      using that by (intro decoded) simp_all
    show "fst (require_active_jti libs pf s ?c io st) = Inr v"
      if "io_fault io = Answered \<and> io_now (at_io ?a) \<le> io_now io \<and> sec_of (io_now io) < ac_expires_at ?c" for io
      using that by (intro active) simp_all
  qed
qed

text \<open>The first token of a user, by evaluation.\<close>

lemma first_issue:
  assumes env: "token_env libs pf u" and none: "no_sessions pf s u st" and v: "0 \<le> v"
    and enc: "encode_access_token libs s u (at_token_id (attempts 0)) (at_now (attempts 0)) = Inr (token, c)"
    and io: "at_io (attempts 0) = reliable now" "0 \<le> now" "1 \<le> s_max_active_sessions_per_user s" "sec_of now < ac_expires_at c"
  shows "\<exists>w. issue_access_token libs pf s u v attempts st = (Inr token, w)"
proof -
  have libs: "digest_ok pf" "uuid_version u = Some 4" using env by (simp_all add: token_env_def)
  have c: "c = new_claims s u (at_token_id (attempts 0)) (at_now (attempts 0))"
    by (rule encode_access_token_claims [OF enc])
  let ?y = "session_for pf s c v"
  let ?body = "activate_jti (user_session_keys pf s u) (active_jti_field pf s (ac_token_id c)) (active_jti_value c v)
      (ac_expires_at c) v (s_max_active_sessions_per_user s)"
  have "answers (?body now) st now (user_session_keys pf s u) st (activate_spec ?y v (s_max_active_sessions_per_user s) now None)"
    using activate_refines [OF stores_none [OF none] io(2), of ?y] field_not_version [OF libs(1)] by simp
  then have "yields (?body now) st (\<lambda>x w. x = Int_reply 1 \<and> True)"
    using io(3,4) v by (auto simp: activate_spec_first unexpired_def answers_def elim: yields_mono)
  then obtain w where w: "registry_call (reliable now) ?body st = (Inr (Int_reply 1), w)"
    using registry_call_answered [of ?body "reliable now" st "Int_reply 1" "\<lambda>_. True"] by (auto simp: reliable_def)
  then show ?thesis
    using enc libs(2) v io(1) by (simp add: issue_access_token_def two_attempts Let_def bindP_def)
qed

lemma sample_ids:
  "uuid_str sample_user_id = ''11111111-1111-4111-8111-111111111111''"
  "uuid_str (sample_token_id 1) = ''22222222-2222-4222-8222-222222222201''"
  by (simp_all add: uuid_str_def Let_def sample_user_id_def sample_token_id_def hex_of_numeral hex_digit_def del: One_nat_def)

lemma sample_payload:
  "access_payload sample_settings (new_claims sample_settings sample_user_id (sample_token_id 1) 10) =
    [(lit ''sub'', J_Str (lit ''11111111-1111-4111-8111-111111111111'')),
     (lit ''jti'', J_Str (lit ''22222222-2222-4222-8222-222222222201'')),
     (lit ''iat'', J_Int 10), (lit ''exp'', J_Int 86410), (lit ''token_type'', J_Str (lit ''access''))]"
  by (simp add: access_payload_def sample_ids token_scope_def sample_settings_def del: One_nat_def)

definition sample_token :: pystr where
  "sample_token = encode_json (J_List [J_Str (s_jwt_secret sample_settings),
    J_Obj (access_payload sample_settings (new_claims sample_settings sample_user_id (sample_token_id 1) 10))])"

lemma length_fold: "int (length xs) = fold (\<lambda>_ n. n + 1) xs 0"
proof -
  have "fold (\<lambda>_ n. n + 1) xs k = k + int (length xs)" for k
    by (induction xs arbitrary: k) auto
  then show ?thesis by simp
qed

lemma sample_token_text: "list_all (\<lambda>c. 0 \<le> c \<and> c < 128) sample_token \<and> fold (\<lambda>_ n. n + 1) sample_token (0 :: int) < 4000"
proof -
  have expiry: "encode_int 86410 = lit ''86410''"
    by (simp add: encode_int_def decimal.simps lit_def)
  show ?thesis
    unfolding sample_token_def sample_payload encode_json.simps list.map prod.case expiry by code_simp
qed

lemma utf8_encode_ascii: "list_all (\<lambda>c. 0 \<le> c \<and> c < 128) s \<Longrightarrow> utf8_encode s = Inr s"
proof -
  assume s: "list_all (\<lambda>c. 0 \<le> c \<and> c < 128) s"
  then have "concat (map utf8_char s) = s" "\<not> list_ex is_surrogate s"
    by (induction s) (auto simp: utf8_char_def is_surrogate_def)
  then show ?thesis by (simp add: utf8_encode_def)
qed

lemma sample_encoded:
  "encode_access_token sample_libs sample_settings sample_user_id (sample_token_id 1) 10 =
     Inr (sample_token, new_claims sample_settings sample_user_id (sample_token_id 1) 10)"
proof -
  have "jwt_encode sample_libs (access_payload sample_settings (new_claims sample_settings sample_user_id (sample_token_id 1) 10))
      (s_jwt_secret sample_settings) = sample_token"
    by (simp only: sample_libs_def token_libs.simps sample_token_def)
  moreover have "length sample_token \<le> MAX_BEARER_TOKEN_BYTES"
    using sample_token_text length_fold [of sample_token] by (simp add: MAX_BEARER_TOKEN_BYTES_def)
  ultimately show ?thesis
    using utf8_encode_ascii sample_token_text by (simp add: encode_access_token_def Let_def raise_unless_def)
qed

definition sample_attempts :: "nat \<Rightarrow> issue_attempt" where
  "sample_attempts i = \<lparr>at_now = 10, at_token_id = sample_token_id 1, at_io = reliable 10000000\<rparr>"

lemma sample_limits:
  "s_jwt_access_token_ttl_seconds sample_settings = 86400" "s_max_active_sessions_per_user sample_settings = 2"
  by (simp_all add: sample_settings_def)

definition sample_store :: "int \<Rightarrow> redis" where
  "sample_store v = snd (issue_access_token sample_libs sample_platform sample_settings sample_user_id v sample_attempts (\<lambda>_. None))"

definition sample_claims :: access_token_claims where
  "sample_claims = new_claims sample_settings sample_user_id (sample_token_id 1) 10"

lemma sample_claims_simps [simp]:
  "ac_user_id sample_claims = sample_user_id" "ac_token_id sample_claims = sample_token_id 1"
  "ac_expires_at sample_claims = 86410"
  by (simp_all add: sample_claims_def sample_limits)

lemma sample_attempt_claims: "attempt_claims sample_settings sample_user_id (sample_attempts i) = sample_claims"
  by (simp add: attempt_claims_def sample_attempts_def sample_claims_def)

lemma sample_attempt:
  "at_now (sample_attempts i) = 10" "at_io (sample_attempts i) = reliable 10000000" "at_token_id (sample_attempts i) = sample_token_id 1"
  by (simp_all add: sample_attempts_def)

lemma sample_issue:
  assumes "0 \<le> v"
  shows "issue_access_token sample_libs sample_platform sample_settings sample_user_id v sample_attempts (\<lambda>_. None)
    = (Inr sample_token, sample_store v)"
proof -
  have "\<exists>w. issue_access_token sample_libs sample_platform sample_settings sample_user_id v sample_attempts (\<lambda>_. None)
    = (Inr sample_token, w)"
  proof (rule first_issue [OF sample_env sample_empty assms])
    show "encode_access_token sample_libs sample_settings sample_user_id (at_token_id (sample_attempts 0)) (at_now (sample_attempts 0)) =
        Inr (sample_token, new_claims sample_settings sample_user_id (sample_token_id 1) 10)"
      using sample_encoded by (simp add: sample_attempts_def)
    show "at_io (sample_attempts 0) = reliable 10000000" by (simp add: sample_attempts_def)
    show "sec_of 10000000 < ac_expires_at (new_claims sample_settings sample_user_id (sample_token_id 1) 10)"
      by (simp add: sec_of_def sample_limits)
  qed (simp_all add: sample_limits)
  then show ?thesis by (auto simp: sample_store_def)
qed

lemma sample_issue_ok:
  "short_version v \<Longrightarrow> session_call_ok sample_settings sample_user_id {sample_token_id 1} 0 (Issue_call v sample_attempts)"
  by (simp add: attempt_ok_def attempt_claims_def issuable_def sample_attempts_def reliable_def sample_limits)

theorem issued_token_witness:
  "decode_access_token sample_libs sample_settings 86430 sample_token = Inr sample_claims \<and>
   fst (require_active_jti sample_libs sample_platform sample_settings sample_claims (reliable 86409000000) (sample_store 3)) = Inr 3"
proof -
  have v4: "uuid_version (sample_token_id 1) = Some 4" by code_simp
  have secret: "hmac_secret (s_jwt_secret sample_settings)" by code_simp
  have "\<exists>i < 2. let c = attempt_claims sample_settings sample_user_id (sample_attempts i); n = at_now (sample_attempts i) in
    (\<forall>now. n - 30 \<le> now \<and> now < n + s_jwt_access_token_ttl_seconds sample_settings + 30 \<longrightarrow>
       decode_access_token sample_libs sample_settings now sample_token = Inr c) \<and>
    (\<forall>io. io_fault io = Answered \<and> io_now (at_io (sample_attempts i)) \<le> io_now io \<and> sec_of (io_now io) < ac_expires_at c \<longrightarrow>
       fst (require_active_jti sample_libs sample_platform sample_settings c io (sample_store 3)) = Inr 3)"
  proof (rule issued_token_is_accepted [where xs = "[]" and T = "{sample_token_id 1}", OF sample_env sample_jwt_ok sample_settings_ok secret sample_empty])
    show "session_call_ok sample_settings sample_user_id {sample_token_id 1} (calls_end 0 []) (Issue_call 3 sample_attempts)"
      using sample_issue_ok [of 3] by (simp add: short_version_def)
    show "issue_access_token sample_libs sample_platform sample_settings sample_user_id 3 sample_attempts
        (run_session_calls sample_libs sample_platform sample_settings sample_user_id [] (\<lambda>_. None)) = (Inr sample_token, sample_store 3)"
      using sample_issue [of 3] by simp
  qed (use v4 in simp_all)
  then have A: "\<forall>now. 10 - 30 \<le> now \<and> now < 10 + s_jwt_access_token_ttl_seconds sample_settings + 30 \<longrightarrow>
       decode_access_token sample_libs sample_settings now sample_token = Inr sample_claims"
    and B: "\<forall>io. io_fault io = Answered \<and> io_now (reliable 10000000) \<le> io_now io \<and> sec_of (io_now io) < ac_expires_at sample_claims \<longrightarrow>
       fst (require_active_jti sample_libs sample_platform sample_settings sample_claims io (sample_store 3)) = Inr 3"
    unfolding sample_attempt_claims sample_attempt Let_def by blast+
  have "sec_of 86409000000 < ac_expires_at sample_claims"
    by (simp add: sample_claims_def sec_of_def sample_limits)
  then show ?thesis
    using A [rule_format, of 86430] B [rule_format, of "reliable 86409000000"] by (simp add: sample_limits reliable_def)
qed

section \<open>Revocation, versions and the number of sessions\<close>

lemma later_calls:
  assumes "token_env libs pf u" "registry_inv pf s u R" "stores t (user_session_keys pf s u) R s0 st"
    "session_calls_ok s u T t ys"
  obtains R' where "(session_step libs pf s u T)\<^sup>*\<^sup>* (t, R) (calls_end t ys, R')" "registry_inv pf s u R'"
    "stores (calls_end t ys) (user_session_keys pf s u) R' s0 (run_session_calls libs pf s u ys st)"
proof -
  obtain R' where R': "(session_step libs pf s u T)\<^sup>*\<^sup>* (t, R) (calls_end t ys, R')"
      "stores (calls_end t ys) (user_session_keys pf s u) R' s0 (run_session_calls libs pf s u ys st)"
    using session_history [OF assms] by (auto simp: keeps_def)
  moreover have "registry_inv pf s u R'" using session_steps_inv [OF R'(1)] assms(2) by simp
  ultimately show ?thesis using that by blast
qed

lemma absent_not_accepted: "absent (active_jti_field pf s (ac_token_id c)) R \<Longrightarrow> \<not> accepts pf s c now R v"
  using absent_session_of [of "active_jti_field pf s (ac_token_id c)"] by (cases R) (simp_all add: accepts_def)

lemma absent_remembered: "absent f R \<Longrightarrow> absent f (remembered now R)"
  by (cases R) (auto simp: remembered_def)

lemma accepted_at_least:
  assumes "stores t keys R s0 st" "accepts pf s c t R v" "registry_inv pf s u R"
  shows "at_least v (ac_expires_at c * 1000) (t, R)"
  using accepted_deadline [OF assms] by (auto simp: at_least_def)

lemma version_bound:
  assumes "at_least v d (t, R)" "(session_step libs pf s u T)\<^sup>*\<^sup>* (t, R) (now, R')" "registry_inv pf s u R"
    "accepts pf s c now R' x" "ms_of now \<le> d"
  shows "v \<le> x"
proof -
  have "registry_inv pf s u R'" using session_steps_inv [OF assms(2)] assms(3) by simp
  moreover have "at_least v d (now, R')" by (rule session_steps_at_least [OF assms(2,1)])
  ultimately show ?thesis
    using accepts_version [OF _ assms(4)] assms(5) by (fastforce simp: at_least_def)
qed

text \<open>
  C15: Once \<open>revoke_active_jti\<close> has succeeded on a token, no later call accepts it or revokes it
  again, whatever is issued, checked, revoked or listed in between, as long as no new token has
  the digest of its id. Where Redis does not answer nothing is accepted at all.
\<close>

theorem revoked_token_is_refused:
  assumes env: "token_env libs pf u"
    and before: "no_sessions pf s u s0" "session_calls_ok s u T 0 xs" "calls_end 0 xs \<le> io_now io" "ac_user_id c = u"
    and revoked: "revoke_active_jti pf s c v io (run_session_calls libs pf s u xs s0) = (Inr (), s1)"
    and after: "session_calls_ok s u T' (io_now io) ys" "\<forall>i \<in> T'. active_jti_field pf s i \<noteq> active_jti_field pf s (ac_token_id c)"
    and later: "calls_end (io_now io) ys \<le> io_now io'" "ac_user_id d = u" "ac_token_id d = ac_token_id c"
  shows "isl (fst (require_active_jti libs pf s d io' (run_session_calls libs pf s u ys s1))) \<and>
    isl (fst (revoke_active_jti pf s d w io' (run_session_calls libs pf s u ys s1)))"
proof -
  have pf: "digest_ok pf" using env by (simp add: token_env_def)
  let ?f = "active_jti_field pf s (ac_token_id c)" and ?keys = "user_session_keys pf s u"
  obtain R where R: "registry_inv pf s u R" "stores (calls_end 0 xs) ?keys R s0 (run_session_calls libs pf s u xs s0)"
    by (rule after_history [OF env before(1,2)])
  obtain R1 where R1: "stores (io_now io) ?keys R1 s0 s1" "absent ?f R1"
      "(session_step libs pf s u T)\<^sup>*\<^sup>* (calls_end 0 xs, R) (io_now io, R1)"
    by (rule revoke_active_jti_outcome [where T = T and libs = libs and v = v, OF pf R(2) before(3,4)]) (use revoked in auto)
  have inv1: "registry_inv pf s u R1" using session_steps_inv [OF R1(3)] R(1) by simp
  obtain R2 where R2: "(session_step libs pf s u T')\<^sup>*\<^sup>* (io_now io, R1) (calls_end (io_now io) ys, R2)" "registry_inv pf s u R2"
      "stores (calls_end (io_now io) ys) ?keys R2 s0 (run_session_calls libs pf s u ys s1)"
    by (rule later_calls [OF env inv1 R1(1) after(1)])
  have "absent ?f R2" using session_steps_absent [OF R2(1)] R1(2) after(2) by fastforce
  then have none: "\<not> accepts pf s d now (remembered now R2) x" for now x
    using absent_not_accepted absent_remembered later(3) by metis
  have "fst (require_active_jti libs pf s d io' (run_session_calls libs pf s u ys s1)) \<noteq> Inr x" for x
    using require_accepts [OF env R2(2,3) later(1,2)] none by simp
  moreover have "fst (revoke_active_jti pf s d w io' (run_session_calls libs pf s u ys s1)) \<noteq> Inr ()"
    using revoke_accepts [OF env R2(3) later(1,2)] none by simp
  ultimately show ?thesis
    by (cases "fst (require_active_jti libs pf s d io' (run_session_calls libs pf s u ys s1))";
        cases "fst (revoke_active_jti pf s d w io' (run_session_calls libs pf s u ys s1))") auto
qed

text \<open>
  C16: Issuing a token for a token version ends the sessions of every lower version: until the
  token expires no token of a lower version is accepted, and no call issues one, whatever the
  history in between.
\<close>

theorem token_version_never_falls:
  assumes env: "token_env libs pf u"
    and before: "no_sessions pf s u s0" "session_calls_ok s u T 0 xs"
    and call: "session_call_ok s u T (calls_end 0 xs) (Issue_call v attempts)"
    and res: "issue_access_token libs pf s u v attempts (run_session_calls libs pf s u xs s0) = (Inr token, s1)"
    and after: "session_calls_ok s u T (io_now (at_io (attempts 1))) ys" "ac_user_id d = u"
    and expiry: "\<forall>i < 2. ms_of (io_now io) \<le> ac_expires_at (attempt_claims s u (attempts i)) * 1000"
  shows "(calls_end (io_now (at_io (attempts 1))) ys \<le> io_now io \<and>
       fst (require_active_jti libs pf s d io (run_session_calls libs pf s u ys s1)) = Inr w \<longrightarrow> v \<le> w) \<and>
    (session_call_ok s u T (calls_end (io_now (at_io (attempts 1))) ys) (Issue_call w others) \<and>
       io_now (at_io (others 1)) \<le> io_now io \<and>
       fst (issue_access_token libs pf s u w others (run_session_calls libs pf s u ys s1)) = Inr token' \<longrightarrow> v \<le> w)"
proof -
  have pf: "digest_ok pf" "uuid_version u = Some 4" using env by (simp_all add: token_env_def)
  let ?keys = "user_session_keys pf s u" and ?t = "io_now (at_io (attempts 1))"
  let ?after = "calls_end ?t ys" and ?st = "run_session_calls libs pf s u ys s1"
  obtain i R where i: "i < 2"
    and R: "registry_inv pf s u R" "stores (io_now (at_io (attempts i))) ?keys R s0 s1"
      "accepts pf s (attempt_claims s u (attempts i)) (io_now (at_io (attempts i))) R v"
    by (rule after_issue [OF env before call res])
  let ?d = "ac_expires_at (attempt_claims s u (attempts i)) * 1000"
  have "i = 0 \<or> i = 1" using i by auto
  then have le: "io_now (at_io (attempts i)) \<le> ?t" using call by auto
  have start: "at_least v ?d (?t, remembered ?t R)"
    by (rule session_step_at_least [OF session_step.wait [OF le] accepted_at_least [OF R(2,3,1)]])
  obtain R2 where R2: "(session_step libs pf s u T)\<^sup>*\<^sup>* (?t, remembered ?t R) (?after, R2)" "registry_inv pf s u R2"
      "stores ?after ?keys R2 s0 ?st"
    by (rule later_calls [OF env inv_remembered [OF R(1)] waited(2) [OF R(2) le] after(1)])
  have at_least: "at_least v ?d (?after, R2)" by (rule session_steps_at_least [OF R2(1) start])
  have deadline: "ms_of now \<le> ?d" if "now \<le> io_now io" for now
    using ms_of_mono [OF that] expiry i by fastforce
  have "v \<le> w" if "?after \<le> io_now io" "fst (require_active_jti libs pf s d io ?st) = Inr w"
    using that(2) require_accepts [OF env R2(2,3) that(1) after(2)]
    by (intro version_bound [OF at_least waited(1) [OF R2(3) that(1), of libs pf s u T] R2(2) _ deadline]) auto
  moreover have "v \<le> w" if ok: "session_call_ok s u T ?after (Issue_call w others)"
    and io: "io_now (at_io (others 1)) \<le> io_now io"
    and res: "fst (issue_access_token libs pf s u w others ?st) = Inr token'"
  proof -
    have c: "short_version w" "?after \<le> io_now (at_io (others 0))" "io_now (at_io (others 0)) \<le> io_now (at_io (others 1))"
        "attempt_ok s u T (others 0)" "attempt_ok s u T (others 1)"
      using ok by simp_all
    obtain st' j where j: "j < 2" "issued libs pf s u T s0 w (?after, R2) (others j) token' st'"
      by (rule issue_access_token_outcome [where libs = libs, OF pf c(1) R2(3) c(2-5)]) (use res in auto)
    then obtain R3 where R3: "(session_step libs pf s u T)\<^sup>*\<^sup>* (?after, R2) (io_now (at_io (others j)), R3)"
        "accepts pf s (attempt_claims s u (others j)) (io_now (at_io (others j))) R3 w"
      by (auto simp: issued_def)
    have "j = 0 \<or> j = 1" using j(1) by auto
    then have "io_now (at_io (others j)) \<le> io_now io" using c(3) io by auto
    then show ?thesis
      by (rule version_bound [OF at_least R3(1) R2(2) R3(2) deadline])
  qed
  ultimately show ?thesis by blast
qed

text \<open>
  C17: After any history the tokens of a user that are accepted at one time have at most
  \<open>max_active_sessions_per_user\<close> different ids, and \<open>list_active_sessions\<close> lists no more.
\<close>

theorem active_sessions_are_bounded:
  assumes env: "token_env libs pf u"
    and before: "no_sessions pf s u s0" "session_calls_ok s u T 0 xs" "calls_end 0 xs \<le> io_now io"
  shows "int (card {active_jti_field pf s (ac_token_id c) | c. ac_user_id c = u \<and>
      \<not> isl (fst (require_active_jti libs pf s c io (run_session_calls libs pf s u xs s0)))})
      \<le> max 0 (s_max_active_sessions_per_user s) \<and>
    (case fst (list_active_sessions libs pf s u v io (run_session_calls libs pf s u xs s0)) of
       Inl e \<Rightarrow> io_fault io \<noteq> Answered
     | Inr starts \<Rightarrow> int (length starts) \<le> max 0 (s_max_active_sessions_per_user s))"
proof -
  have libs: "cjson_ok libs" using env by (simp add: token_env_def)
  let ?st = "run_session_calls libs pf s u xs s0"
  obtain R where R: "registry_inv pf s u R" "stores (calls_end 0 xs) (user_session_keys pf s u) R s0 ?st"
    by (rule after_history [OF env before(1,2)])
  let ?A = "{active_jti_field pf s (ac_token_id c) | c. ac_user_id c = u \<and> \<not> isl (fst (require_active_jti libs pf s c io ?st))}"
  let ?R = "remembered (io_now io) R"
  have inv: "registry_inv pf s u ?R" by (rule inv_remembered [OF R(1)])
  have sub: "?A \<subseteq> (case ?R of None \<Rightarrow> {} | Some r \<Rightarrow> ss_field ` set (rg_sessions r))"
  proof
    fix f assume "f \<in> ?A"
    then obtain c v where c: "f = active_jti_field pf s (ac_token_id c)" "ac_user_id c = u"
        "fst (require_active_jti libs pf s c io ?st) = Inr v"
      by (auto simp: not_isl_iff)
    then have "accepts pf s c (io_now io) ?R v"
      using require_accepts [OF env R before(3) c(2)] by blast
    then have "\<not> absent f ?R" unfolding c(1) using absent_not_accepted by blast
    then show "f \<in> (case ?R of None \<Rightarrow> {} | Some r \<Rightarrow> ss_field ` set (rg_sessions r))"
      by (cases ?R) simp_all
  qed
  have "int (card ?A) \<le> max 0 (s_max_active_sessions_per_user s)"
  proof (cases ?R)
    case (Some r)
    then have "card ?A \<le> card (ss_field ` set (rg_sessions r))" using sub by (intro card_mono) auto
    also have "\<dots> \<le> length (rg_sessions r)" by (metis card_length length_map list.set_map)
    finally show ?thesis using inv Some by simp
  next
    case None
    then have "?A = {}" using sub by simp
    then show ?thesis unfolding \<open>?A = {}\<close> by simp
  qed
  moreover have "case fst (list_active_sessions libs pf s u v io ?st) of Inl e \<Rightarrow> io_fault io \<noteq> Answered
     | Inr starts \<Rightarrow> int (length starts) \<le> max 0 (s_max_active_sessions_per_user s)"
    by (rule list_active_sessions_outcome [where v = v and T = "{}", OF libs R before(3)])
      (cases "io_fault io = Answered"; auto)
  ultimately show ?thesis ..
qed

text \<open>One history for the three properties: two tokens are issued, the first is revoked.\<close>

lemma sample_history:
  "session_calls_ok sample_settings sample_user_id {sample_token_id 1} 0 [Issue_call 3 sample_attempts]"
  "calls_end 0 [Issue_call 3 sample_attempts] = 10000000"
  "run_session_calls sample_libs sample_platform sample_settings sample_user_id [Issue_call 3 sample_attempts] (\<lambda>_. None)
     = sample_store 3"
  using sample_issue_ok [of 3] sample_issue [of 3] by (simp_all add: short_version_def sample_attempt reliable_def)

lemma sample_active:
  obtains R where "registry_inv sample_platform sample_settings sample_user_id R"
    "stores 10000000 (user_session_keys sample_platform sample_settings sample_user_id) R (\<lambda>_. None) (sample_store 3)"
    "accepts sample_platform sample_settings sample_claims 10000000 R 3"
proof -
  have call: "session_call_ok sample_settings sample_user_id {sample_token_id 1} (calls_end 0 []) (Issue_call 3 sample_attempts)"
    using sample_issue_ok [of 3] by (simp add: short_version_def)
  show ?thesis
    by (rule after_issue [where xs = "[]", OF sample_env sample_empty _ call])
      (use that sample_issue [of 3] in \<open>auto simp: sample_attempt sample_attempt_claims\<close>)
qed

definition sample_revoked :: redis where
  "sample_revoked = snd (revoke_active_jti sample_platform sample_settings sample_claims 3 (reliable 11000000) (sample_store 3))"

lemma sample_revoke:
  "revoke_active_jti sample_platform sample_settings sample_claims 3 (reliable 11000000) (sample_store 3) = (Inr (), sample_revoked)"
proof -
  obtain R where R: "registry_inv sample_platform sample_settings sample_user_id R"
    "stores 10000000 (user_session_keys sample_platform sample_settings sample_user_id) R (\<lambda>_. None) (sample_store 3)"
    "accepts sample_platform sample_settings sample_claims 10000000 R 3"
    by (rule sample_active)
  have now: "(10000000 :: int) \<le> io_now (reliable 11000000)" "sec_of 11000000 < ac_expires_at sample_claims"
      "ac_user_id sample_claims = sample_user_id"
    by (simp_all add: sec_of_def)
  have "accepts sample_platform sample_settings sample_claims 11000000 (remembered 11000000 R) 3"
    by (rule unexpired_remembered [OF R(2,3) now(2) R(1)])
  then have "fst (revoke_active_jti sample_platform sample_settings sample_claims 3 (reliable 11000000) (sample_store 3)) = Inr ()"
    using revoke_accepts [OF sample_env R(2) now(1,3), of 3] by simp
  then show ?thesis by (simp add: sample_revoked_def prod_eq_iff)
qed

theorem revoked_token_witness:
  "isl (fst (require_active_jti sample_libs sample_platform sample_settings sample_claims (reliable 12000000) sample_revoked))"
proof -
  have "isl (fst (require_active_jti sample_libs sample_platform sample_settings sample_claims (reliable 12000000)
        (run_session_calls sample_libs sample_platform sample_settings sample_user_id [] sample_revoked))) \<and>
      isl (fst (revoke_active_jti sample_platform sample_settings sample_claims 3 (reliable 12000000)
        (run_session_calls sample_libs sample_platform sample_settings sample_user_id [] sample_revoked)))"
    by (rule revoked_token_is_refused [where ys = "[]" and T' = "{}" and c = sample_claims and io = "reliable 11000000" and v = 3, OF sample_env sample_empty sample_history(1)])
      (use sample_revoke sample_history(2,3) in \<open>simp_all del: run_session_calls.simps(2) calls_end.simps(2)\<close>)
  then show ?thesis by simp
qed

theorem token_version_witness:
  "fst (require_active_jti sample_libs sample_platform sample_settings sample_claims (reliable 12000000) (sample_store 3)) \<noteq> Inr 2"
proof -
  have "(calls_end (io_now (at_io (sample_attempts 1))) [] \<le> io_now (reliable 12000000) \<and>
       fst (require_active_jti sample_libs sample_platform sample_settings sample_claims (reliable 12000000)
         (run_session_calls sample_libs sample_platform sample_settings sample_user_id [] (sample_store 3))) = Inr 2 \<longrightarrow> 3 \<le> (2 :: int)) \<and>
    (session_call_ok sample_settings sample_user_id {sample_token_id 1} (calls_end (io_now (at_io (sample_attempts 1))) []) (Issue_call 2 sample_attempts) \<and>
       io_now (at_io (sample_attempts 1)) \<le> io_now (reliable 12000000) \<and>
       fst (issue_access_token sample_libs sample_platform sample_settings sample_user_id 2 sample_attempts
         (run_session_calls sample_libs sample_platform sample_settings sample_user_id [] (sample_store 3))) = Inr [] \<longrightarrow> 3 \<le> (2 :: int))"
  proof (rule token_version_never_falls [where xs = "[]", OF sample_env sample_empty])
    show "issue_access_token sample_libs sample_platform sample_settings sample_user_id 3 sample_attempts
        (run_session_calls sample_libs sample_platform sample_settings sample_user_id [] (\<lambda>_. None)) = (Inr sample_token, sample_store 3)"
      using sample_issue [of 3] by simp
    show "\<forall>i < 2. ms_of (io_now (reliable 12000000)) \<le> ac_expires_at (attempt_claims sample_settings sample_user_id (sample_attempts i)) * 1000"
      by (simp add: sample_attempt_claims ms_of_def)
  qed (use sample_issue_ok [of 3] in \<open>simp_all add: short_version_def\<close>)
  then show ?thesis by (simp add: sample_attempt)
qed

theorem active_sessions_witness:
  "case fst (list_active_sessions sample_libs sample_platform sample_settings sample_user_id 3 (reliable 12000000) (sample_store 3)) of
     Inl e \<Rightarrow> False | Inr starts \<Rightarrow> length starts \<le> 2"
proof -
  have later: "calls_end 0 [Issue_call 3 sample_attempts] \<le> io_now (reliable 12000000)"
    unfolding sample_history(2) by simp
  show ?thesis
    using active_sessions_are_bounded [of sample_libs sample_platform sample_user_id, OF sample_env sample_empty sample_history(1) later, of 3, unfolded sample_history(3)]
    by (simp add: sample_limits split: sum.splits)
qed

end
