(* ===== verification/Rate_Limit.thy ===== *)
theory Rate_Limit
  imports Redis Procs Config
begin

text \<open>
  Fixed-window quotas: \<open>app/core/security/rate_limit.py\<close> with its two Lua scripts, the
  policies of \<open>app/core/security/policies.py\<close>, the admission service of
  \<open>app/core/security/abuse_defense.py\<close> and the headers of \<open>app/core/middleware/rate_limit.py\<close>.
\<close>

subsection \<open>Policies and keys\<close>

definition RATE_LIMIT_KEY_PREFIX :: string where "RATE_LIMIT_KEY_PREFIX = ''rl:v2''"
definition MAX_LIMIT :: int where "MAX_LIMIT = 1000000"
definition MAX_WINDOW_SECONDS :: int where "MAX_WINDOW_SECONDS = 30 * 86400"
definition MAX_SUBJECT_BYTES :: nat where "MAX_SUBJECT_BYTES = 1024"

definition IDENTIFIER_RE :: rx where
  "IDENTIFIER_RE = Cat (Cls is_lower)
     (Upto 63 (Cls (\<lambda>c. is_lower c \<or> is_digit c \<or> chr_in ''._-'' c)))"

record rate_policy =
  q_name :: string
  q_limit :: int
  q_window_seconds :: int

definition require_positive_integer :: "int \<Rightarrow> int \<Rightarrow> failure + unit" where
  "require_positive_integer value maximum =
     raise_unless (1 \<le> value \<and> value \<le> maximum) (Value_error ''must be an integer between 1 and a maximum'')"

definition require_identifier :: "string \<Rightarrow> failure + string" where
  "require_identifier value =
     (if \<not> fullmatch IDENTIFIER_RE (lit value)
      then Inl (Value_error ''must be a static lowercase ASCII identifier'') else Inr value)"

text \<open>\<open>RateLimitPolicy(...)\<close>\<close>

definition new_rate_policy :: "string \<Rightarrow> int \<Rightarrow> int \<Rightarrow> failure + rate_policy" where
  "new_rate_policy name limit window_seconds =
     bindE (require_identifier name) (\<lambda>_.
     bindE (require_positive_integer limit MAX_LIMIT) (\<lambda>_.
     bindE (require_positive_integer window_seconds MAX_WINDOW_SECONDS) (\<lambda>_.
       Inr \<lparr>q_name = name, q_limit = limit, q_window_seconds = window_seconds\<rparr>)))"

definition subject_bytes :: "pystr \<Rightarrow> failure + int list" where
  "subject_bytes subject =
     (case utf8_encode subject of
        Inl _ \<Rightarrow> Inl (Value_error ''subject must be a non-empty bounded string'')
      | Inr encoded \<Rightarrow>
          if encoded = [] \<or> length encoded > MAX_SUBJECT_BYTES
          then Inl (Value_error ''subject must be a non-empty bounded string'')
          else Inr encoded)"

text \<open>\<open>b"\0".join(...)\<close> of the prefix, the namespace, the policy, the subject type and the subject.\<close>

definition key_message :: "string \<Rightarrow> string \<Rightarrow> string \<Rightarrow> int list \<Rightarrow> int list" where
  "key_message namespace name subject_type subject =
     lit RATE_LIMIT_KEY_PREFIX @ [0] @ lit namespace @ [0] @ lit name @ [0] @ lit subject_type
       @ [0] @ subject"

definition build_rate_limit_key ::
    "platform \<Rightarrow> string \<Rightarrow> rate_policy \<Rightarrow> string \<Rightarrow> pystr \<Rightarrow> int list \<Rightarrow> failure + string" where
  "build_rate_limit_key pf namespace policy subject_type subject key_secret =
     bindE (require_identifier namespace) (\<lambda>safe_namespace.
     bindE (require_identifier subject_type) (\<lambda>safe_subject_type.
     bindE (subject_bytes subject) (\<lambda>bytes.
     bindE (raise_unless (32 \<le> length key_secret)
              (Value_error ''rate-limit key secret must contain at least 32 bytes'')) (\<lambda>_.
       Inr (RATE_LIMIT_KEY_PREFIX @ '':'' @ safe_namespace @ '':'' @ q_name policy @ '':''
            @ safe_subject_type @ '':''
            @ pf_hmac_sha256 pf key_secret
                (key_message safe_namespace (q_name policy) safe_subject_type bytes))))))"

subsection \<open>The scripts\<close>

definition fixed_window_script :: "string \<Rightarrow> int \<Rightarrow> int \<Rightarrow> redis_reply script" where
  "fixed_window_script key limit window now s =
     (if limit < 1 \<or> window < 1 then (Inl Redis_error, s)
      else if r_pttl now key s = -1 then (Inl Redis_error, s)
      else (case r_incr now key s of
          (Inl e, s') \<Rightarrow> (Inl e, s')
        | (Inr n, s1) \<Rightarrow>
            let s2 = (if n = 1 then r_expire now key window s1 else s1);
                remaining_ms = r_pttl now key s2
            in if remaining_ms \<le> 0 then (Inl Redis_error, s2)
               else (Inr (List_reply [Int_reply n, Int_reply remaining_ms]), s2)))"

definition inspect_fixed_window_script :: "string \<Rightarrow> redis_reply script" where
  "inspect_fixed_window_script key now s =
     (case r_get now key s of
        Inl e \<Rightarrow> (Inl e, s)
      | Inr None \<Rightarrow> (Inr (List_reply [Int_reply 0, Int_reply (-2)]), s)
      | Inr (Some raw_count) \<Rightarrow>
          (case read_int raw_count of
             None \<Rightarrow> (Inl Redis_error, s)
           | Some n \<Rightarrow>
               if n < 1 then (Inl Redis_error, s)
               else let remaining_ms = r_pttl now key s in
                 if remaining_ms \<le> 0 then (Inl Redis_error, s)
                 else (Inr (List_reply [Int_reply n, Int_reply remaining_ms]), s)))"

subsection \<open>Decisions\<close>

fun two_integers :: "redis_reply \<Rightarrow> (int \<times> int) option" where
  "two_integers (List_reply [Int_reply n, Int_reply ttl_ms]) = Some (n, ttl_ms)"
| "two_integers _ = None"

definition decision_for :: "bool \<Rightarrow> rate_policy \<Rightarrow> int \<Rightarrow> int \<Rightarrow> rate_limit_result" where
  "decision_for allowed policy n ttl_ms =
     Rate_limit_result allowed (q_limit policy) (max 0 (q_limit policy - n))
       (if allowed then 0 else ttl_ms) ttl_ms"

definition parse_result :: "redis_reply \<Rightarrow> rate_policy \<Rightarrow> failure + rate_limit_result" where
  "parse_result raw policy =
     (case two_integers raw of
        None \<Rightarrow> Inl Rate_limit_unavailable
      | Some (n, ttl_ms) \<Rightarrow>
          if n < 1 \<or> \<not> (0 < ttl_ms \<and> ttl_ms \<le> q_window_seconds policy * 1000)
          then Inl Rate_limit_unavailable
          else Inr (decision_for (n \<le> q_limit policy) policy n ttl_ms))"

definition parse_inspection :: "redis_reply \<Rightarrow> rate_policy \<Rightarrow> failure + rate_limit_result" where
  "parse_inspection raw policy =
     (case two_integers raw of
        None \<Rightarrow> Inl Rate_limit_unavailable
      | Some (n, ttl_ms) \<Rightarrow>
          if n = 0 \<and> ttl_ms = -2
          then Inr (Rate_limit_result True (q_limit policy) (q_limit policy) 0 0)
          else if n < 1 \<or> \<not> (0 < ttl_ms \<and> ttl_ms \<le> q_window_seconds policy * 1000)
          then Inl Rate_limit_unavailable
          else Inr (decision_for (n < q_limit policy) policy n ttl_ms))"

text \<open>A \<open>RedisError\<close> is no decision.\<close>

definition store_answer :: "redis_io \<Rightarrow> redis_reply script \<Rightarrow> (redis, redis_reply) proc" where
  "store_answer io body =
     handleP (redis_call io body)
       (\<lambda>e. if e = Redis_error then raiseP Rate_limit_unavailable else raiseP e)"

definition check_rate_limit ::
    "platform \<Rightarrow> redis_io \<Rightarrow> string \<Rightarrow> rate_policy \<Rightarrow> string \<Rightarrow> pystr \<Rightarrow> int list \<Rightarrow>
     (redis, rate_limit_result) proc" where
  "check_rate_limit pf io namespace policy subject_type subject key_secret =
     bindP (liftP (build_rate_limit_key pf namespace policy subject_type subject key_secret)) (\<lambda>key.
     bindP (store_answer io (fixed_window_script key (q_limit policy) (q_window_seconds policy))) (\<lambda>raw.
       liftP (parse_result raw policy)))"

definition inspect_rate_limit ::
    "platform \<Rightarrow> redis_io \<Rightarrow> string \<Rightarrow> rate_policy \<Rightarrow> string \<Rightarrow> pystr \<Rightarrow> int list \<Rightarrow>
     (redis, rate_limit_result) proc" where
  "inspect_rate_limit pf io namespace policy subject_type subject key_secret =
     bindP (liftP (build_rate_limit_key pf namespace policy subject_type subject key_secret)) (\<lambda>key.
     bindP (store_answer io (inspect_fixed_window_script key)) (\<lambda>raw.
       liftP (parse_inspection raw policy)))"


subsection \<open>Quotas from the settings\<close>

record security_policies =
  pol_captcha_create :: rate_policy
  pol_login :: rate_policy
  pol_registration :: rate_policy
  pol_temporary_complete :: rate_policy
  pol_authenticated_read :: rate_policy
  pol_management_read :: rate_policy
  pol_ordinary_write :: rate_policy
  pol_authorization_write :: rate_policy

definition security_policies_from :: "settings \<Rightarrow> failure + security_policies" where
  "security_policies_from s =
     bindE (new_rate_policy ''captcha_create'' (s_rate_limit_captcha_create_per_five_minutes s) 300) (\<lambda>captcha.
     bindE (new_rate_policy ''login'' (s_rate_limit_login_ip_per_five_minutes s) 300) (\<lambda>login.
     bindE (new_rate_policy ''register'' (s_rate_limit_registration_ip_per_hour s) 3600) (\<lambda>registration.
     bindE (new_rate_policy ''temporary_complete''
              (s_rate_limit_temporary_complete_ip_per_five_minutes s) 300) (\<lambda>temporary.
     bindE (new_rate_policy ''authenticated_read'' (s_rate_limit_authenticated_read_per_minute s) 60) (\<lambda>auth_read.
     bindE (new_rate_policy ''management_read'' (s_rate_limit_management_read_per_minute s) 60) (\<lambda>mgmt_read.
     bindE (new_rate_policy ''ordinary_write'' (s_rate_limit_ordinary_write_per_minute s) 60) (\<lambda>ordinary.
     bindE (new_rate_policy ''authorization_write''
              (s_rate_limit_authorization_write_per_minute s) 60) (\<lambda>authorization.
       Inr \<lparr>pol_captcha_create = captcha, pol_login = login, pol_registration = registration,
            pol_temporary_complete = temporary, pol_authenticated_read = auth_read,
            pol_management_read = mgmt_read, pol_ordinary_write = ordinary,
            pol_authorization_write = authorization\<rparr>))))))))"

subsection \<open>Admission\<close>

definition key_secret_of :: "settings \<Rightarrow> failure + int list" where
  "key_secret_of s = utf8_encode (s_rate_limit_hmac_key s)"

text \<open>A setting that passed its ASCII pattern, as an identifier.\<close>

definition ident :: "pystr \<Rightarrow> string" where
  "ident s = map (\<lambda>c. char_of (nat c)) s"

definition canonical_client_ip :: "platform \<Rightarrow> pystr \<Rightarrow> failure + pystr" where
  "canonical_client_ip pf value =
     (case pf_ip_compressed pf value of None \<Rightarrow> Inl Rate_limit_unavailable | Some ip \<Rightarrow> Inr ip)"

text \<open>\<open>AbuseDefenseService(redis, settings)\<close>\<close>

record abuse_defense =
  ad_policies :: security_policies
  ad_key_secret :: "int list"
  ad_namespace :: string

definition new_abuse_defense :: "settings \<Rightarrow> failure + abuse_defense" where
  "new_abuse_defense s =
     bindE (security_policies_from s) (\<lambda>policies.
     bindE (key_secret_of s) (\<lambda>secret.
       Inr \<lparr>ad_policies = policies, ad_key_secret = secret,
            ad_namespace = ident (s_rate_limit_namespace s)\<rparr>))"

text \<open>\<open>AbuseDefenseService._check\<close>\<close>

definition admit ::
    "platform \<Rightarrow> abuse_defense \<Rightarrow> redis_io \<Rightarrow> rate_policy \<Rightarrow> string \<Rightarrow> pystr \<Rightarrow> (redis, unit) proc" where
  "admit pf ad io policy subject_type subject =
     bindP (check_rate_limit pf io (ad_namespace ad) policy subject_type subject (ad_key_secret ad)) (\<lambda>result.
       if \<not> rl_allowed result then raiseP (Rate_limit_exceeded (q_name policy) result) else returnP ())"

definition check_login_attempt :: "platform \<Rightarrow> abuse_defense \<Rightarrow> redis_io \<Rightarrow> pystr \<Rightarrow> (redis, unit) proc" where
  "check_login_attempt pf ad io client_ip =
     bindP (liftP (canonical_client_ip pf client_ip)) (\<lambda>ip.
       admit pf ad io (pol_login (ad_policies ad)) ''ip'' ip)"

definition check_registration_attempt ::
    "platform \<Rightarrow> abuse_defense \<Rightarrow> redis_io \<Rightarrow> pystr \<Rightarrow> (redis, unit) proc" where
  "check_registration_attempt pf ad io client_ip =
     bindP (liftP (canonical_client_ip pf client_ip)) (\<lambda>ip.
       admit pf ad io (pol_registration (ad_policies ad)) ''ip'' ip)"

definition check_temporary_password_completion ::
    "platform \<Rightarrow> abuse_defense \<Rightarrow> redis_io \<Rightarrow> pystr \<Rightarrow> (redis, unit) proc" where
  "check_temporary_password_completion pf ad io client_ip =
     bindP (liftP (canonical_client_ip pf client_ip)) (\<lambda>ip.
       admit pf ad io (pol_temporary_complete (ad_policies ad)) ''ip'' ip)"

definition PUBLIC_CAPTCHA_SCENES :: "string list" where
  "PUBLIC_CAPTCHA_SCENES = [''login'', ''register'']"

definition PRIVATE_CAPTCHA_SCENES :: "string list" where
  "PRIVATE_CAPTCHA_SCENES = [''admin_create'', ''admin_reset'', ''self_change'']"

definition bounded_subject :: "pystr \<Rightarrow> failure + bool" where
  "bounded_subject u =
     (if u = [] then Inr False else bindE (utf8_length u) (\<lambda>n. Inr (n \<le> 1024)))"

definition captcha_subject ::
    "platform \<Rightarrow> string \<Rightarrow> pystr option \<Rightarrow> pystr option \<Rightarrow> failure + string \<times> pystr" where
  "captcha_subject pf scene client_ip user_id =
     (case (client_ip, user_id) of
        (Some ip, None) \<Rightarrow>
          if scene \<in> set PUBLIC_CAPTCHA_SCENES
          then bindE (canonical_client_ip pf ip) (\<lambda>ip. Inr (''ip'', ip))
          else Inl (Value_error ''captcha scene and authenticated subject do not match'')
      | (None, Some u) \<Rightarrow>
          if scene \<in> set PRIVATE_CAPTCHA_SCENES
          then bindE (bounded_subject u) (\<lambda>ok.
            if ok then Inr (''actor'', u)
            else Inl (Value_error ''captcha scene and authenticated subject do not match''))
          else Inl (Value_error ''captcha scene and authenticated subject do not match'')
      | _ \<Rightarrow> Inl (Value_error ''captcha scene and authenticated subject do not match''))"

definition check_captcha_create ::
    "platform \<Rightarrow> abuse_defense \<Rightarrow> redis_io \<Rightarrow> string \<Rightarrow> pystr option \<Rightarrow> pystr option \<Rightarrow> (redis, unit) proc" where
  "check_captcha_create pf ad io scene client_ip user_id =
     bindP (liftP (captcha_subject pf scene client_ip user_id)) (\<lambda>(subject_type, subject).
     bindP (liftP (new_rate_policy (''captcha_create_'' @ scene)
              (q_limit (pol_captcha_create (ad_policies ad)))
              (q_window_seconds (pol_captcha_create (ad_policies ad))))) (\<lambda>policy.
       admit pf ad io policy subject_type subject))"

definition rejected_captcha_subject ::
    "platform \<Rightarrow> pystr option \<Rightarrow> pystr option \<Rightarrow> failure + string \<times> pystr" where
  "rejected_captcha_subject pf client_ip user_id =
     (case (client_ip, user_id) of
        (Some ip, None) \<Rightarrow> bindE (canonical_client_ip pf ip) (\<lambda>ip. Inr (''ip'', ip))
      | (None, Some u) \<Rightarrow>
          bindE (bounded_subject u) (\<lambda>ok.
            if ok then Inr (''actor'', u)
            else Inl (Value_error ''rejected captcha needs one trusted subject''))
      | _ \<Rightarrow> Inl (Value_error ''rejected captcha needs one trusted subject''))"

definition check_rejected_captcha_scene ::
    "platform \<Rightarrow> abuse_defense \<Rightarrow> redis_io \<Rightarrow> pystr option \<Rightarrow> pystr option \<Rightarrow> (redis, unit) proc" where
  "check_rejected_captcha_scene pf ad io client_ip user_id =
     bindP (liftP (rejected_captcha_subject pf client_ip user_id)) (\<lambda>(subject_type, subject).
     bindP (liftP (new_rate_policy ''captcha_rejected_scene''
              (q_limit (pol_captcha_create (ad_policies ad)))
              (q_window_seconds (pol_captcha_create (ad_policies ad))))) (\<lambda>policy.
       admit pf ad io policy subject_type subject))"

subsection \<open>Headers\<close>

text \<open>\<open>max(1, math.ceil(ms / 1000))\<close>\<close>

definition header_seconds :: "int \<Rightarrow> int" where
  "header_seconds ms = max 1 (- ((- ms) div 1000))"

definition rate_limit_headers :: "rate_limit_result \<Rightarrow> bool \<Rightarrow> (string \<times> pystr) list" where
  "rate_limit_headers result include_retry_after =
     [(''RateLimit-Limit'', encode_int (rl_limit result)),
      (''RateLimit-Remaining'', encode_int (rl_remaining result)),
      (''RateLimit-Reset'', encode_int (header_seconds (rl_reset_after_ms result))),
      (''Cache-Control'', lit ''no-store'')] @
     (if include_retry_after
      then [(''Retry-After'', encode_int (header_seconds (rl_retry_after_ms result)))] else [])"

definition semantic_rate_limit_headers :: "rate_limit_result \<Rightarrow> (string \<times> pystr) list" where
  "semantic_rate_limit_headers result = rate_limit_headers result True"

definition trusted_client_ip :: "platform \<Rightarrow> pystr option \<Rightarrow> pystr" where
  "trusted_client_ip pf client =
     (case pf_ip_compressed pf (case client of None \<Rightarrow> [] | Some h \<Rightarrow> h) of None \<Rightarrow> [] | Some ip \<Rightarrow> ip)"

end
