(* ===== verification/Rate_Limit_Laws.thy ===== *)
theory Rate_Limit_Laws
  imports Rate_Limit
begin

text \<open>
  The laws of the quotas: what one check makes of the key of a quota, how many calls a window
  admits whatever the network does, and that the keys of different quotas differ.
\<close>

subsection \<open>One key\<close>

definition policy_ok :: "rate_policy \<Rightarrow> bool" where
  "policy_ok q \<longleftrightarrow> fullmatch IDENTIFIER_RE (lit (q_name q)) \<and>
     1 \<le> q_limit q \<and> q_limit q \<le> MAX_LIMIT \<and>
     1 \<le> q_window_seconds q \<and> q_window_seconds q \<le> MAX_WINDOW_SECONDS"

lemma new_rate_policy_ok: "new_rate_policy n l w = Inr q \<Longrightarrow> policy_ok q \<and> q_name q = n \<and> q_limit q = l \<and> q_window_seconds q = w"
  by (auto simp: new_rate_policy_def policy_ok_def require_identifier_def require_positive_integer_def
      bindE_Inr raise_unless_Inr split: if_splits)

definition window_ms :: "rate_policy \<Rightarrow> int" where
  "window_ms q = q_window_seconds q * 1000"

text \<open>A check on the key of a quota, and the state of that key the script maintains.\<close>

definition check_key :: "string \<Rightarrow> rate_policy \<Rightarrow> redis_io \<Rightarrow> (redis, rate_limit_result) proc" where
  "check_key key q io =
     bindP (store_answer io (fixed_window_script key (q_limit q) (q_window_seconds q))) (\<lambda>raw.
       liftP (parse_result raw q))"

definition window_of :: "int \<Rightarrow> string \<Rightarrow> redis \<Rightarrow> (int \<times> int) option" where
  "window_of now key s =
     (case r_lookup now key s of Some (R_Int n, Some e) \<Rightarrow> Some (n, e) | _ \<Rightarrow> None)"

definition quota_key_ok :: "int \<Rightarrow> string \<Rightarrow> rate_policy \<Rightarrow> redis \<Rightarrow> bool" where
  "quota_key_ok now key q s \<longleftrightarrow>
     (r_lookup now key s = None \<or>
      (\<exists>n e. r_lookup now key s = Some (R_Int n, Some e) \<and> 1 \<le> n \<and> e \<le> ms_of now + window_ms q))"

text \<open>The script on a fresh key and on a running window.\<close>

lemma script_fresh:
  assumes "policy_ok q" "r_lookup now key s = None"
  shows "fixed_window_script key (q_limit q) (q_window_seconds q) now s =
    (Inr (List_reply [Int_reply 1, Int_reply (window_ms q)]),
     r_put key (R_Int 1) (Some (ms_of now + window_ms q)) s)"
  using assms
  by (simp add: fixed_window_script_def r_pttl_def r_incr_def r_expire_def r_pexpireat_def Let_def
      policy_ok_def window_ms_def)

lemma script_running:
  assumes "policy_ok q" "r_lookup now key s = Some (R_Int n, Some e)" "1 \<le> n"
  shows "fixed_window_script key (q_limit q) (q_window_seconds q) now s =
    (if n = MAX_REDIS_INT then (Inl Redis_error, s)
     else (if e - ms_of now \<le> 0 then Inl Redis_error
           else Inr (List_reply [Int_reply (n + 1), Int_reply (e - ms_of now)]),
           r_put key (R_Int (n + 1)) (Some e) s))"
  using assms lookup_expiry [OF assms(2)]
  by (simp add: fixed_window_script_def r_pttl_def r_incr_def Let_def policy_ok_def MAX_REDIS_INT_def)

lemma store_answer_eq:
  "store_answer io body s =
     (case io_fault io of
        Not_sent \<Rightarrow> (Inl Rate_limit_unavailable, s)
      | Reply_lost \<Rightarrow> (Inl Rate_limit_unavailable, snd (body (io_now io) s))
      | Answered \<Rightarrow> (case body (io_now io) s of
            (Inl e, s') \<Rightarrow> (Inl (if e = Redis_error then Rate_limit_unavailable else e), s')
          | r \<Rightarrow> r))"
  by (auto simp: store_answer_def handleP_def redis_call_def raiseP_def
      split: redis_fault.splits prod.splits sum.splits)

lemma parse_result_ok:
  "policy_ok q \<Longrightarrow> 1 \<le> n \<Longrightarrow> 0 < ttl \<Longrightarrow> ttl \<le> window_ms q \<Longrightarrow>
     parse_result (List_reply [Int_reply n, Int_reply ttl]) q = Inr (decision_for (n \<le> q_limit q) q n ttl)"
  by (simp add: parse_result_def window_ms_def)

lemma decision_for_simps [simp]:
  "rl_allowed (decision_for b q n ttl) = b" "rl_reset_after_ms (decision_for b q n ttl) = ttl"
  "rl_remaining (decision_for b q n ttl) = max 0 (q_limit q - n)" "rl_limit (decision_for b q n ttl) = q_limit q"
  "rl_retry_after_ms (decision_for b q n ttl) = (if b then 0 else ttl)"
  by (simp_all add: decision_for_def)

definition admitted :: "failure + rate_limit_result \<Rightarrow> bool" where
  "admitted r \<longleftrightarrow> (case r of Inl _ \<Rightarrow> False | Inr d \<Rightarrow> rl_allowed d)"

lemma admitted_simps [simp]: "\<not> admitted (Inl e)" "admitted (Inr d) = rl_allowed d"
  by (simp_all add: admitted_def)

text \<open>
  One check, whatever happens to the call: it leaves the key alone, opens a window, or
  counts in the running one; it admits only when it counted, and only up to the limit.
\<close>

lemma check_key_cases:
  assumes "policy_ok q" "quota_key_ok (io_now io) key q s" "check_key key q io s = (r, s')"
  obtains (same) "s' = s" "\<not> admitted r"
    | (opened) "r_lookup (io_now io) key s = None"
        "s' = r_put key (R_Int 1) (Some (ms_of (io_now io) + window_ms q)) s"
    | (counted) n e where "r_lookup (io_now io) key s = Some (R_Int n, Some e)" "1 \<le> n"
        "s' = r_put key (R_Int (n + 1)) (Some e) s" "admitted r \<Longrightarrow> n + 1 \<le> q_limit q"
proof (cases "r_lookup (io_now io) key s")
  case None
  show ?thesis
  proof (cases "io_fault io")
    case Not_sent
    then show ?thesis
      using same assms(3) by (auto simp: check_key_def store_answer_eq bindP_def)
  next
    case Reply_lost
    then show ?thesis
      using opened [OF None] assms(3)
      by (simp add: check_key_def store_answer_eq bindP_def script_fresh [OF assms(1) None])
  next
    case Answered
    then show ?thesis
      using opened [OF None] assms(3)
      by (simp add: check_key_def store_answer_eq bindP_def script_fresh [OF assms(1) None])
  qed
next
  case (Some a)
  then obtain n e where a: "r_lookup (io_now io) key s = Some (R_Int n, Some e)" "1 \<le> n"
      "e \<le> ms_of (io_now io) + window_ms q"
    using assms(2) by (auto simp: quota_key_ok_def)
  note run = script_running [OF assms(1) a(1,2)]
  show ?thesis
  proof (cases "io_fault io = Not_sent \<or> n = MAX_REDIS_INT")
    case True
    then show ?thesis
      using same assms(3)
      by (auto simp: check_key_def store_answer_eq bindP_def run split: redis_fault.splits)
  next
    case False
    then have "s' = r_put key (R_Int (n + 1)) (Some e) s"
      using assms(3)
      by (auto simp: check_key_def store_answer_eq bindP_def run split: redis_fault.splits if_splits)
    moreover have "n + 1 \<le> q_limit q" if "admitted r"
      using that assms(3) False a
      by (auto simp: check_key_def store_answer_eq bindP_def run parse_result_def decision_for_def
          split: redis_fault.splits if_splits)
    ultimately show ?thesis
      using counted [OF a(1,2)] by blast
  qed
qed


lemma quota_key_ok_later:
  assumes "quota_key_ok now key q s" "now \<le> later"
  shows "quota_key_ok later key q s"
proof (cases "r_lookup later key s")
  case (Some a)
  then have "r_lookup now key s = Some a"
    using ms_of_mono [OF assms(2)] by (auto simp: r_lookup_def split: option.splits if_splits)
  then show ?thesis
    using assms(1) Some ms_of_mono [OF assms(2)] by (auto simp: quota_key_ok_def)
qed (simp add: quota_key_ok_def)

lemma expired_quota:
  assumes "quota_key_ok now key q s" "ms_of now + window_ms q < ms_of later" "0 \<le> window_ms q"
  shows "r_lookup later key s = None"
proof (rule ccontr)
  assume "r_lookup later key s \<noteq> None"
  then obtain v e where later: "r_lookup later key s = Some (v, e)" by auto
  then have "r_lookup now key s = Some (v, e)"
    using assms(2,3) by (auto simp: r_lookup_def split: option.splits if_splits)
  then have "\<exists>d. e = Some d \<and> d \<le> ms_of now + window_ms q"
    using assms(1) by (auto simp: quota_key_ok_def)
  then show False using lookup_expiry [of later key s v] later assms(2) by auto
qed

lemma check_key_keeps_ok:
  assumes "policy_ok q" "quota_key_ok (io_now io) key q s" "check_key key q io s = (r, s')"
  shows "quota_key_ok (io_now io) key q s'"
  using assms
proof (cases rule: check_key_cases)
  case (counted n e)
  then show ?thesis
    using assms(2) lookup_expiry [OF counted(1)] by (auto simp: quota_key_ok_def)
next
  case opened
  then show ?thesis
    using assms(1) by (simp add: quota_key_ok_def policy_ok_def window_ms_def)
qed (use assms(2) in simp)

text \<open>
  The quota a key still has until the instant \<open>last\<close>: the rest of the running window and a
  full limit for every further window that can open and end before.
\<close>

definition windows_after :: "rate_policy \<Rightarrow> int \<Rightarrow> int \<Rightarrow> int" where
  "windows_after q e last_ms = max 0 ((last_ms - e + window_ms q) div (window_ms q + 1))"

definition quota_left :: "rate_policy \<Rightarrow> int \<Rightarrow> int \<Rightarrow> string \<Rightarrow> redis \<Rightarrow> int" where
  "quota_left q last_ms now key s =
     (case window_of now key s of
        None \<Rightarrow> q_limit q * (windows_after q (ms_of now + window_ms q) last_ms + 1)
      | Some (n, e) \<Rightarrow> max 0 (q_limit q - n) + q_limit q * windows_after q e last_ms)"

lemma windows_after_nonneg [simp]: "0 \<le> windows_after q e l"
  by (simp add: windows_after_def)

lemma windows_after_mono: "0 \<le> window_ms q \<Longrightarrow> e \<le> e' \<Longrightarrow> windows_after q e' l \<le> windows_after q e l"
  unfolding windows_after_def by (intro max.mono zdiv_mono1) auto

text \<open>A window that opens after \<open>e\<close>, and before \<open>last\<close>, uses up one of those counted from \<open>e\<close>.\<close>

lemma windows_after_open:
  assumes "0 \<le> window_ms q" "e < t" "t \<le> l"
  shows "windows_after q (t + window_ms q) l + 1 \<le> windows_after q e l"
proof -
  let ?w = "window_ms q + 1"
  have "(l - (t + window_ms q) + window_ms q) div ?w + 1 = (l - t + ?w) div ?w"
    using assms(1) div_add_self2 [of ?w "l - t"] by simp
  also have "\<dots> \<le> (l - e + window_ms q) div ?w"
    using assms by (intro zdiv_mono1) auto
  finally have "(l - (t + window_ms q) + window_ms q) div ?w + 1 \<le> (l - e + window_ms q) div ?w" .
  moreover have "1 \<le> (l - e + window_ms q) div ?w"
    using zdiv_mono1 [of ?w "l - e + window_ms q" ?w] assms by simp
  ultimately show ?thesis
    by (simp add: windows_after_def max_def)
qed

fun run_checks :: "string \<Rightarrow> rate_policy \<Rightarrow> redis_io list \<Rightarrow> redis \<Rightarrow> (failure + rate_limit_result) list" where
  "run_checks key q [] s = []"
| "run_checks key q (io # ios) s = (let (r, s') = check_key key q io s in r # run_checks key q ios s')"

definition admissions :: "(failure + rate_limit_result) list \<Rightarrow> int" where
  "admissions rs = int (length (filter admitted rs))"

lemma admissions_simps [simp]:
  "admissions [] = 0" "admissions (r # rs) = (if admitted r then 1 else 0) + admissions rs"
  by (simp_all add: admissions_def)

lemma window_of_put [simp]:
  "ms_of now \<le> e \<Longrightarrow> window_of now key (r_put key (R_Int n) (Some e) s) = Some (n, e)"
  by (simp add: window_of_def)

text \<open>Waiting never adds to the quota, and one check uses what it admits.\<close>

lemma quota_left_later:
  assumes q: "policy_ok q" and ok: "quota_key_ok now key q s" and "now \<le> later" "ms_of later \<le> l"
  shows "quota_left q l later key s \<le> quota_left q l now key s"
proof -
  have w: "0 \<le> window_ms q" "1 \<le> q_limit q" using q by (simp_all add: policy_ok_def window_ms_def)
  note mono = ms_of_mono [OF assms(3)]
  show ?thesis
  proof (cases "r_lookup now key s")
    case None
    then have "r_lookup later key s = None"
      using mono by (auto simp: r_lookup_def split: option.splits if_splits prod.splits)
    then show ?thesis
      using None windows_after_mono [OF w(1), of "ms_of now + window_ms q" "ms_of later + window_ms q" l] w mono
      by (simp add: quota_left_def window_of_def)
  next
    case (Some a)
    then obtain n e where a: "r_lookup now key s = Some (R_Int n, Some e)" "1 \<le> n"
      using ok by (auto simp: quota_key_ok_def)
    show ?thesis
    proof (cases "e < ms_of later")
      case True
      then have "r_lookup later key s = None"
        using a by (auto simp: r_lookup_def split: option.splits if_splits prod.splits)
      moreover have "windows_after q (ms_of later + window_ms q) l + 1 \<le> windows_after q e l"
        using windows_after_open [OF w(1) True assms(4)] .
      then have "q_limit q * (windows_after q (ms_of later + window_ms q) l + 1) \<le> q_limit q * windows_after q e l"
        using w(2) by (intro mult_left_mono) auto
      ultimately show ?thesis
        using a by (simp add: quota_left_def window_of_def)
    next
      case False
      then have "r_lookup later key s = Some (R_Int n, Some e)"
        using a by (auto simp: r_lookup_def split: option.splits if_splits prod.splits)
      then show ?thesis
        using a by (simp add: quota_left_def window_of_def)
    qed
  qed
qed

lemma check_key_uses_quota:
  assumes q: "policy_ok q" and ok: "quota_key_ok (io_now io) key q s" and step: "check_key key q io s = (r, s')"
  shows "(if admitted r then 1 else 0) + quota_left q l (io_now io) key s' \<le> quota_left q l (io_now io) key s"
  using q ok step
proof (cases rule: check_key_cases)
  case opened
  have w: "0 \<le> window_ms q" "1 \<le> q_limit q" using q by (simp_all add: policy_ok_def window_ms_def)
  then show ?thesis
    using opened by (simp add: quota_left_def window_of_def [of _ _ s] algebra_simps)
next
  case (counted n e)
  have "ms_of (io_now io) \<le> e"
    using lookup_expiry [OF counted(1)] .
  then show ?thesis
    using counted by (auto simp: quota_left_def window_of_def [of _ _ s])
qed simp

lemma admissions_within_quota:
  assumes "policy_ok q" "quota_key_ok now key q s" "sorted (map io_now ios)"
    "\<forall>io \<in> set ios. now \<le> io_now io \<and> ms_of (io_now io) \<le> l" "0 \<le> quota_left q l now key s"
  shows "admissions (run_checks key q ios s) \<le> quota_left q l now key s"
  using assms(2-5)
proof (induction ios arbitrary: now s)
  case (Cons io ios)
  obtain r s' where step: "check_key key q io s = (r, s')" by fastforce
  have io: "now \<le> io_now io" "ms_of (io_now io) \<le> l" using Cons.prems by auto
  have ok: "quota_key_ok (io_now io) key q s"
    using quota_key_ok_later [OF Cons.prems(1) io(1)] .
  have ok': "quota_key_ok (io_now io) key q s'"
    using check_key_keeps_ok [OF assms(1) ok step] .
  have pos: "0 \<le> quota_left q l (io_now io) key s'"
    using assms(1) by (auto simp: quota_left_def policy_ok_def split: option.split)
  have "admissions (run_checks key q ios s') \<le> quota_left q l (io_now io) key s'"
    using Cons.prems by (intro Cons.IH [OF ok' _ _ pos]) auto
  moreover have "(if admitted r then 1 else 0) + quota_left q l (io_now io) key s' \<le> quota_left q l (io_now io) key s"
    using check_key_uses_quota [OF assms(1) ok step] .
  ultimately show ?case
    using quota_left_later [OF assms(1) Cons.prems(1) io] by (simp add: step)
qed simp


subsection \<open>Calls\<close>

lemma check_rate_limit_key:
  "build_rate_limit_key pf ns q st subj secret = Inr key \<Longrightarrow>
     check_rate_limit pf io ns q st subj secret = check_key key q io"
  by (simp add: check_rate_limit_def check_key_def fun_eq_iff bindP_def)

subsection \<open>Keys\<close>

definition identifier_char :: "codepoint \<Rightarrow> bool" where
  "identifier_char c \<longleftrightarrow> is_lower c \<or> is_digit c \<or> chr_in ''._-'' c"

lemma require_identifier_chars:
  "require_identifier v = Inr x \<Longrightarrow> x = v \<and> v \<noteq> [] \<and> list_all identifier_char (lit v)"
  by (auto simp: require_identifier_def IDENTIFIER_RE_def fullmatch_Cls_Upto identifier_char_def lit_def
      list_all_iff split: if_splits)

lemma identifier_no_separator:
  "list_all identifier_char (lit v) \<Longrightarrow> CHR '':'' \<notin> set v \<and> 0 \<notin> set (lit v)"
  by (auto simp: list_all_iff identifier_char_def lit_def is_lower_def is_digit_def chr_in_def)

lemma split_at_separator:
  "a \<notin> set xs \<Longrightarrow> a \<notin> set ys \<Longrightarrow> xs @ a # us = ys @ a # vs \<longleftrightarrow> xs = ys \<and> us = vs"
proof (induction xs arbitrary: ys)
  case (Cons x xs)
  then show ?case by (cases ys) auto
qed (auto simp: Cons_eq_append_conv)

lemma keys_separate_quotas:
  assumes "policy_ok q" "policy_ok q'"
    and "build_rate_limit_key pf ns q st subj secret = Inr key"
    and "build_rate_limit_key pf ns' q' st' subj' secret' = Inr key"
  shows "ns = ns' \<and> q_name q = q_name q' \<and> st = st'"
proof -
  have sep: "CHR '':'' \<notin> set x" if "require_identifier x = Inr y" for x y
    using that require_identifier_chars identifier_no_separator by blast
  have name: "require_identifier (q_name p) = Inr (q_name p)" if "policy_ok p" for p
    using that by (simp add: policy_ok_def require_identifier_def)
  obtain h where k: "key = RATE_LIMIT_KEY_PREFIX @ '':'' @ ns @ '':'' @ q_name q @ '':'' @ st @ '':'' @ h"
      "require_identifier ns = Inr ns" "require_identifier st = Inr st"
    using assms(3) by (auto simp: build_rate_limit_key_def bindE_Inr dest!: require_identifier_chars
        simp: require_identifier_def split: if_splits)
  obtain h' where k': "key = RATE_LIMIT_KEY_PREFIX @ '':'' @ ns' @ '':'' @ q_name q' @ '':'' @ st' @ '':'' @ h'"
      "require_identifier ns' = Inr ns'" "require_identifier st' = Inr st'"
    using assms(4) by (auto simp: build_rate_limit_key_def bindE_Inr dest!: require_identifier_chars
        simp: require_identifier_def split: if_splits)
  have "ns @ CHR '':'' # (q_name q @ CHR '':'' # (st @ CHR '':'' # h))
      = ns' @ CHR '':'' # (q_name q' @ CHR '':'' # (st' @ CHR '':'' # h'))"
    using k(1) k'(1) by simp
  then show ?thesis
    using sep [OF k(2)] sep [OF k'(2)] sep [OF name [OF assms(1)]] sep [OF name [OF assms(2)]]
      sep [OF k(3)] sep [OF k'(3)]
    by (simp add: split_at_separator)
qed

text \<open>The message under the HMAC determines everything that goes into it.\<close>

lemma key_message_inject:
  assumes "0 \<notin> set (lit ns)" "0 \<notin> set (lit ns')" "0 \<notin> set (lit name)" "0 \<notin> set (lit name')"
    "0 \<notin> set (lit st)" "0 \<notin> set (lit st')"
  shows "key_message ns name st bs = key_message ns' name' st' bs' \<longleftrightarrow>
     ns = ns' \<and> name = name' \<and> st = st' \<and> bs = bs'"
  using assms by (auto simp: key_message_def split_at_separator lit_inject)

subsection \<open>Headers\<close>

lemma header_seconds_covers: "1 \<le> header_seconds ms \<and> ms \<le> header_seconds ms * 1000 \<and>
    (0 < ms \<longrightarrow> (header_seconds ms - 1) * 1000 < ms)"
  by (auto simp: header_seconds_def max_def)

end
