(* ===== verification/Quota_Properties.thy ===== *)
theory Quota_Properties
  imports Rate_Limit_Laws Sample_Platform
begin

text \<open>
  The properties of the quotas, of the settings they come from, and of the records the session
  registry stores.
\<close>

section \<open>Quotas\<close>

fun run_admits ::
    "platform \<Rightarrow> abuse_defense \<Rightarrow> rate_policy \<Rightarrow> string \<Rightarrow> pystr \<Rightarrow> redis_io list \<Rightarrow> redis \<Rightarrow> (failure + unit) list \<times> redis" where
  "run_admits pf ad q st subj [] s = ([], s)"
| "run_admits pf ad q st subj (io # ios) s =
     (let (r, s') = admit pf ad io q st subj s; (rs, s'') = run_admits pf ad q st subj ios s' in (r # rs, s''))"

definition passes :: "(failure + unit) list \<Rightarrow> int" where
  "passes rs = int (length (filter (\<lambda>r. \<not> isl r) rs))"

lemma passes_simps [simp]: "passes [] = 0" "passes (r # rs) = (if isl r then 0 else 1) + passes rs"
  by (simp_all add: passes_def)

lemma admit_as_check:
  assumes "build_rate_limit_key pf (ad_namespace ad) q st subj (ad_key_secret ad) = Inr key"
    "check_key key q io s = (r, s')"
  shows "\<exists>r'. admit pf ad io q st subj s = (r', s') \<and> (isl r' \<longleftrightarrow> \<not> admitted r)"
  using assms by (cases r) (auto simp: admit_def check_rate_limit_key bindP_def raiseP_def returnP_def)

lemma admit_without_key:
  assumes "build_rate_limit_key pf (ad_namespace ad) q st subj (ad_key_secret ad) = Inl e"
  shows "admit pf ad io q st subj s = (Inl e, s)"
  using assms by (simp add: admit_def check_rate_limit_def bindP_def)

lemma run_admits_as_checks:
  assumes "build_rate_limit_key pf (ad_namespace ad) q st subj (ad_key_secret ad) = Inr key"
  shows "passes (fst (run_admits pf ad q st subj ios s)) = admissions (run_checks key q ios s)"
proof (induction ios arbitrary: s)
  case (Cons io ios)
  obtain r s' where r: "check_key key q io s = (r, s')" by fastforce
  then obtain r' where "admit pf ad io q st subj s = (r', s')" "isl r' \<longleftrightarrow> \<not> admitted r"
    using admit_as_check [OF assms] by blast
  then show ?case using Cons.IH [of s'] r by (simp add: case_prod_beta)
qed simp

lemma run_admits_without_key:
  "build_rate_limit_key pf (ad_namespace ad) q st subj (ad_key_secret ad) = Inl e \<Longrightarrow>
     passes (fst (run_admits pf ad q st subj ios s)) = 0"
  by (induction ios arbitrary: s) (simp_all add: admit_without_key case_prod_beta)

text \<open>
  C18: The calls \<open>AbuseDefenseService\<close> lets through for one quota and one subject are at most
  the limit times the number of windows that can open in the time: \<open>limit\<close> for every started
  period of window plus one millisecond, whatever calls are lost or lose their answer.
\<close>

theorem quota_bounds_admissions:
  assumes "policy_ok q" "sorted (map io_now ios)" "ms_of begin_us \<le> last_ms"
    "\<forall>io \<in> set ios. begin_us \<le> io_now io \<and> ms_of (io_now io) \<le> last_ms"
    "\<forall>key. build_rate_limit_key pf (ad_namespace ad) q st subj (ad_key_secret ad) = Inr key \<longrightarrow>
       r_lookup begin_us key s = None"
  shows "passes (fst (run_admits pf ad q st subj ios s)) \<le>
    q_limit q * ((last_ms - ms_of begin_us) div (q_window_seconds q * 1000 + 1) + 1)"
proof -
  have w: "0 \<le> window_ms q" "1 \<le> q_limit q" using assms(1) by (simp_all add: policy_ok_def window_ms_def)
  have windows: "0 \<le> (last_ms - ms_of begin_us) div (window_ms q + 1)"
    using assms(3) w(1) by (simp add: pos_imp_zdiv_nonneg_iff)
  show ?thesis
  proof (cases "build_rate_limit_key pf (ad_namespace ad) q st subj (ad_key_secret ad)")
    case (Inl e)
    then show ?thesis
      using w windows by (simp add: run_admits_without_key window_ms_def)
  next
    case (Inr key)
    then have none: "r_lookup begin_us key s = None" using assms(5) by blast
    then have left: "quota_left q last_ms begin_us key s = q_limit q * ((last_ms - ms_of begin_us) div (window_ms q + 1) + 1)"
      using windows by (simp add: quota_left_def window_of_def windows_after_def)
    have "admissions (run_checks key q ios s) \<le> quota_left q last_ms begin_us key s"
    proof (rule admissions_within_quota [OF assms(1) _ assms(2,4)])
      show "quota_key_ok begin_us key q s" using none by (simp add: quota_key_ok_def)
      show "0 \<le> quota_left q last_ms begin_us key s" unfolding left using w windows by simp
    qed
    then show ?thesis
      unfolding left run_admits_as_checks [OF Inr] by (simp add: window_ms_def)
  qed
qed

text \<open>
  C19: An inspection changes nothing, and it admits exactly when the check that follows it does.
\<close>

theorem inspection_foretells_check:
  assumes "policy_ok q" "build_rate_limit_key pf ns q st subj secret = Inr key" "quota_key_ok now key q s"
  shows "snd (inspect_rate_limit pf (reliable now) ns q st subj secret s) = s \<and>
    (admitted (fst (inspect_rate_limit pf (reliable now) ns q st subj secret s)) \<longleftrightarrow>
     admitted (fst (check_rate_limit pf (reliable now) ns q st subj secret s)))"
proof (cases "r_lookup now key s")
  case None
  have "1 \<le> q_limit q" "0 < window_ms q" "window_ms q \<le> window_ms q"
    using assms(1) by (simp_all add: policy_ok_def window_ms_def)
  then show ?thesis
    using assms(1) None
    by (simp add: check_rate_limit_key [OF assms(2)] inspect_rate_limit_def assms(2) bindP_def store_answer_def
        handleP_def check_key_def inspect_fixed_window_script_def r_get_def parse_inspection_def
        script_fresh parse_result_ok)
next
  case (Some a)
  then obtain n e where a: "r_lookup now key s = Some (R_Int n, Some e)" "1 \<le> n" "e \<le> ms_of now + window_ms q"
    using assms(3) by (auto simp: quota_key_ok_def)
  have "q_limit q < MAX_REDIS_INT"
    using assms(1) by (simp add: policy_ok_def MAX_LIMIT_def MAX_REDIS_INT_def)
  moreover have "ms_of now \<le> e" using lookup_expiry [OF a(1)] .
  ultimately show ?thesis
    using assms(1) a
    by (auto simp: check_rate_limit_key [OF assms(2)] inspect_rate_limit_def assms(2) bindP_def store_answer_def
        handleP_def check_key_def inspect_fixed_window_script_def r_get_def value_text_def r_pttl_def Let_def
        parse_inspection_def script_running parse_result_def decision_for_def window_ms_def raiseP_def)
qed

text \<open>
  The quotas fail closed: a check admits only when Redis answered, with a count between
  one and the limit. A lost call, an error of the store or an odd answer admits nobody.
\<close>

lemma admission_needs_an_answer:
  assumes "check_rate_limit pf io ns q st subj secret s = (r, s')" "admitted r"
  shows "io_fault io = Answered \<and> (\<exists>key n ttl. build_rate_limit_key pf ns q st subj secret = Inr key \<and>
     fixed_window_script key (q_limit q) (q_window_seconds q) (io_now io) s
       = (Inr (List_reply [Int_reply n, Int_reply ttl]), s') \<and> 1 \<le> n \<and> n \<le> q_limit q)"
proof -
  obtain d where r: "r = Inr d" "rl_allowed d"
    using assms(2) by (cases r) auto
  then obtain key raw where key: "build_rate_limit_key pf ns q st subj secret = Inr key"
    and raw: "store_answer io (fixed_window_script key (q_limit q) (q_window_seconds q)) s = (Inr raw, s')"
    and d: "parse_result raw q = Inr d"
    using assms(1) unfolding check_rate_limit_def by (auto simp: bindP_Inr)
  have "redis_call io (fixed_window_script key (q_limit q) (q_window_seconds q)) s = (Inr raw, s')"
    using raw by (auto simp: store_answer_def handleP_Inr split: if_splits)
  from redis_call_Inr [OF this] have "io_fault io = Answered"
    "fixed_window_script key (q_limit q) (q_window_seconds q) (io_now io) s = (Inr raw, s')" by simp_all
  moreover obtain n ttl where "raw = List_reply [Int_reply n, Int_reply ttl]" "1 \<le> n" "n \<le> q_limit q"
    using d r(2) by (auto simp: parse_result_def decision_for_def split: option.splits if_splits
        elim!: two_integers.elims)
  ultimately show ?thesis
    using key by blast
qed

text \<open>
  Two quotas or two subjects never share a key of Redis: the key determines the namespace,
  the quota and the type of the subject, and where the HMAC has no collision on the two
  messages also the subject.
\<close>

lemma keys_separate_subjects:
  assumes "policy_ok q" "policy_ok q'"
    and key: "build_rate_limit_key pf ns q st subj secret = Inr key" "build_rate_limit_key pf ns' q' st' subj' secret = Inr key"
    and text_ok: "list_all scalar_value subj" "list_all scalar_value subj'"
    and hmac: "\<And>bs bs'. utf8_encode subj = Inr bs \<Longrightarrow> utf8_encode subj' = Inr bs' \<Longrightarrow>
      pf_hmac_sha256 pf secret (key_message ns (q_name q) st bs) = pf_hmac_sha256 pf secret (key_message ns (q_name q) st bs') \<Longrightarrow>
      key_message ns (q_name q) st bs = key_message ns (q_name q) st bs'"
  shows "ns = ns' \<and> q_name q = q_name q' \<and> st = st' \<and> subj = subj'"
proof -
  have same: "ns = ns'" "q_name q = q_name q'" "st = st'"
    using keys_separate_quotas [OF assms(1,2) key] by simp_all
  obtain bs where bs: "utf8_encode subj = Inr bs" "require_identifier ns = Inr ns" "require_identifier st = Inr st"
      "key = RATE_LIMIT_KEY_PREFIX @ '':'' @ ns @ '':'' @ q_name q @ '':'' @ st @ '':'' @
        pf_hmac_sha256 pf secret (key_message ns (q_name q) st bs)"
    using key(1) by (auto simp: build_rate_limit_key_def bindE_Inr subject_bytes_def require_identifier_def
        split: sum.splits if_splits)
  obtain bs' where bs': "utf8_encode subj' = Inr bs'"
      "key = RATE_LIMIT_KEY_PREFIX @ '':'' @ ns @ '':'' @ q_name q @ '':'' @ st @ '':'' @
        pf_hmac_sha256 pf secret (key_message ns (q_name q) st bs')"
    using key(2) unfolding same [symmetric] by (auto simp: same(2) build_rate_limit_key_def bindE_Inr subject_bytes_def require_identifier_def
        split: sum.splits if_splits)
  have "key_message ns (q_name q) st bs = key_message ns (q_name q) st bs'"
    using hmac [OF bs(1) bs'(1)] bs(4) bs'(2) by simp
  then have "bs = bs'" by (simp add: key_message_def)
  then show ?thesis
    using same utf8_encode_inject [OF text_ok bs(1)] bs'(1) by simp
qed

text \<open>
  C22: A quota never locks a subject out for longer than one window: after any calls up to some
  time, an answered call more than a window later passes.
\<close>

theorem readmission_after_a_window:
  assumes "policy_ok q" "build_rate_limit_key pf (ad_namespace ad) q st subj (ad_key_secret ad) = Inr key"
    "quota_key_ok begin_us key q s" "sorted (map io_now ios)" "\<forall>x \<in> set ios. begin_us \<le> io_now x \<and> io_now x \<le> last_us"
    "begin_us \<le> last_us" "ms_of last_us + q_window_seconds q * 1000 < ms_of (io_now io)" "io_fault io = Answered"
  shows "fst (admit pf ad io q st subj (snd (run_admits pf ad q st subj ios s))) = Inr ()"
proof -
  have "quota_key_ok last_us key q (snd (run_admits pf ad q st subj ios s))"
    using assms(3-6)
  proof (induction ios arbitrary: begin_us s)
    case Nil
    then show ?case using quota_key_ok_later by simp
  next
    case (Cons x xs)
    obtain r s' where r: "check_key key q x s = (r, s')" by fastforce
    have "quota_key_ok (io_now x) key q s" using quota_key_ok_later [OF Cons.prems(1)] Cons.prems(3) by simp
    then have "quota_key_ok (io_now x) key q s'" using check_key_keeps_ok [OF assms(1) _ r] by simp
    then have "quota_key_ok last_us key q (snd (run_admits pf ad q st subj xs s'))"
      using Cons.prems by (intro Cons.IH) auto
    then show ?case
      using admit_as_check [OF assms(2) r] by (auto split: prod.split)
  qed
  then have "r_lookup (io_now io) key (snd (run_admits pf ad q st subj ios s)) = None"
    using assms(1,7) by (intro expired_quota) (auto simp: window_ms_def policy_ok_def)
  then have "admitted (fst (check_key key q io (snd (run_admits pf ad q st subj ios s))))"
    using assms(1,8) by (simp add: check_key_def store_answer_eq script_fresh bindP_def parse_result_ok policy_ok_def window_ms_def)
  moreover obtain r s' where r: "check_key key q io (snd (run_admits pf ad q st subj ios s)) = (r, s')" by fastforce
  ultimately show ?thesis
    using admit_as_check [OF assms(2) r] by (auto simp: not_isl_iff)
qed

section \<open>Settings\<close>

lemma strip_no_space: "list_all (\<lambda>c. \<not> is_space c) s \<Longrightarrow> strip s = s"
proof -
  assume "list_all (\<lambda>c. \<not> is_space c) s"
  then have "dropWhile is_space s = s" "dropWhile is_space (rev s) = rev s"
    by (auto simp: list_all_iff dropWhile_eq_self_iff hd_rev)
  then show ?thesis by (simp add: strip_def)
qed

lemma optional_idem:
  assumes "optional f x = Inr y" "\<And>v w. f v = Inr w \<Longrightarrow> f w = Inr w"
  shows "optional f y = Inr y"
  using assms by (auto simp: optional_def bindE_Inr split: option.splits)

lemma token_scope_idem: "normalize_optional_token_scope v = Inr w \<Longrightarrow> normalize_optional_token_scope w = Inr w"
proof -
  assume v: "normalize_optional_token_scope v = Inr w"
  then have "strip w = w"
    by (intro strip_no_space) (auto simp: normalize_optional_token_scope_def Let_def list_all_iff list_ex_iff split: if_splits)
  with v show ?thesis
    by (auto simp: normalize_optional_token_scope_def Let_def split: if_splits)
qed

definition upper_ok :: "platform \<Rightarrow> bool" where
  "upper_ok pf \<longleftrightarrow> (\<forall>l \<in> {''DEBUG'', ''INFO'', ''WARNING'', ''ERROR'', ''CRITICAL''}. pf_upper pf (lit l) = lit l)"

lemma log_level_idem:
  assumes "upper_ok pf" "normalize_log_level pf v = Inr w"
  shows "normalize_log_level pf w = Inr w"
proof -
  have w: "w \<in> set (map lit [''DEBUG'', ''INFO'', ''WARNING'', ''ERROR'', ''CRITICAL''])"
    using assms(2) by (auto simp: normalize_log_level_def Let_def split: if_splits)
  moreover have "\<forall>l \<in> {''DEBUG'', ''INFO'', ''WARNING'', ''ERROR'', ''CRITICAL''}. strip (lit l) = lit l"
    by code_simp
  ultimately have "strip w = w" "pf_upper pf w = w" using assms(1) by (auto simp: upper_ok_def)
  with w show ?thesis by (simp add: normalize_log_level_def)
qed

text \<open>
  C23: Accepted settings are normalized and safe: built again they are accepted unchanged; the
  two secrets differ, encode to 32 to 4096 bytes, have eight different characters and no
  spaces or controls, and are not a shorter text repeated; and nowhere but in a development or test
  environment the rate limits are on.
\<close>

theorem accepted_settings:
  assumes "validate_settings pf s = Inr s'" "upper_ok pf"
  shows "validate_settings pf s' = Inr s' \<and> s_jwt_secret s' \<noteq> s_rate_limit_hmac_key s' \<and>
    (\<forall>x \<in> {s_jwt_secret s', s_rate_limit_hmac_key s'}. \<exists>bs. utf8_encode x = Inr bs \<and>
       32 \<le> length bs \<and> length bs \<le> 4096 \<and> 8 \<le> card (set x) \<and> (\<forall>c \<in> set x. \<not> is_space c \<and> \<not> is_control c) \<and>
       \<not> (\<exists>w k. w \<noteq> [] \<and> 2 \<le> k \<and> x = concat (replicate k w))) \<and>
    (s_rate_limit_enabled s' \<or> s_app_environment s' \<in> set RATE_LIMIT_DISABLE_ENVIRONMENTS)"
proof -
  have ok: "settings_ok pf s'" by (rule validate_settings_ok [OF assms(1)])
  have "validate_settings pf s' = Inr s'"
    using assms(1) optional_idem [OF _ token_scope_idem] log_level_idem [OF assms(2)]
    by (auto simp: validate_settings_def bindE_Inr Let_def)
  then show ?thesis
    using ok accepted_secret [of pf] by (auto simp: settings_ok_def)
qed

text \<open>
  The quotas of accepted settings. A name of the namespace pattern may begin with a digit, which
  no key accepts; a number of calls has no upper bound in the settings, but in a policy.
\<close>

lemma accepted_namespace_without_keys:
  "\<not> isl (validate_settings sample_platform (sample_settings\<lparr>s_rate_limit_namespace := lit ''1app''\<rparr>)) \<and>
   isl (build_rate_limit_key sample_platform ''1app'' q st subj secret)"
proof
  show "\<not> isl (validate_settings sample_platform (sample_settings\<lparr>s_rate_limit_namespace := lit ''1app''\<rparr>))"
    by code_simp
  have "\<not> fullmatch IDENTIFIER_RE (lit ''1app'')" by code_simp
  then show "isl (build_rate_limit_key sample_platform ''1app'' q st subj secret)"
    by (simp add: build_rate_limit_key_def require_identifier_def)
qed

lemma accepted_limit_without_policies:
  "\<not> isl (validate_settings sample_platform (sample_settings\<lparr>s_rate_limit_login_ip_per_five_minutes := 1000001\<rparr>)) \<and>
   isl (new_abuse_defense (sample_settings\<lparr>s_rate_limit_login_ip_per_five_minutes := 1000001\<rparr>))"
  by code_simp

section \<open>Session records\<close>

text \<open>
  C24: The JSON records of the session registry read back, and no other text is accepted for a
  token: the record written for some claims and a token version parses to exactly these, and
  \<open>require_active_jti\<close> accepts for the claims only the canonical record.
\<close>

theorem session_record_round_trip:
  assumes "0 \<le> v" "uuid_version (ac_user_id c) = Some 4"
  shows "parse_active_jti_value (active_jti_value c v) = Inr (ac_user_id c, v, ac_issued_at c, ac_expires_at c) \<and>
    (\<forall>value. check_active_record c value = Inr v \<longleftrightarrow> value = active_jti_value c v)"
  using assms by (simp add: parse_active_jti_value_canonical check_active_record_iff)

theorem session_record_witness:
  "parse_active_jti_value (active_jti_value \<lparr>ac_user_id = UUID 0x11111111111141118111111111111111,
      ac_token_id = UUID 0, ac_issued_at = 10, ac_expires_at = 20\<rparr> 7) =
    Inr (UUID 0x11111111111141118111111111111111, 7, 10, 20)"
proof -
  have "uuid_version (UUID 0x11111111111141118111111111111111) = Some 4" by code_simp
  then show ?thesis
    using session_record_round_trip [of 7 "\<lparr>ac_user_id = UUID 0x11111111111141118111111111111111,
      ac_token_id = UUID 0, ac_issued_at = 10, ac_expires_at = 20\<rparr>"] by simp
qed

section \<open>Witnesses\<close>

definition sample_quota :: rate_policy where
  "sample_quota = \<lparr>q_name = ''login'', q_limit = 2, q_window_seconds = 300\<rparr>"

definition sample_defense :: abuse_defense where
  "sample_defense =
     \<lparr>ad_policies = \<lparr>pol_captcha_create = sample_quota, pol_login = sample_quota, pol_registration = sample_quota,
        pol_temporary_complete = sample_quota, pol_authenticated_read = sample_quota,
        pol_management_read = sample_quota, pol_ordinary_write = sample_quota,
        pol_authorization_write = sample_quota\<rparr>,
      ad_key_secret = replicate 32 7, ad_namespace = ''app''\<rparr>"

lemma sample_quota_ok: "policy_ok sample_quota"
  unfolding policy_ok_def by code_simp

lemma sample_key: "\<exists>key. build_rate_limit_key sample_platform ''app'' sample_quota ''ip'' (lit ''10.0.0.1'') (replicate 32 7) = Inr key"
proof -
  have "\<not> isl (build_rate_limit_key sample_platform ''app'' sample_quota ''ip'' (lit ''10.0.0.1'') (replicate 32 7))"
    by code_simp
  then show ?thesis by (simp add: not_isl_iff)
qed

theorem quota_bounds_admissions_witness:
  "passes (fst (run_admits sample_platform sample_defense sample_quota ''ip'' (lit ''10.0.0.1'')
      [reliable 1000000, reliable 2000000, reliable 3000000, reliable 4000000] (\<lambda>_. None))) \<le> 2"
  using quota_bounds_admissions [OF sample_quota_ok,
      of "[reliable 1000000, reliable 2000000, reliable 3000000, reliable 4000000]" 1000000 4000 sample_platform
        sample_defense "''ip''" "lit ''10.0.0.1''" "\<lambda>_. None"]
  by (simp add: sample_quota_def ms_of_def r_lookup_def)

theorem readmission_witness:
  "fst (admit sample_platform sample_defense (reliable 302000000) sample_quota ''ip'' (lit ''10.0.0.1'')
     (snd (run_admits sample_platform sample_defense sample_quota ''ip'' (lit ''10.0.0.1'')
       [reliable 1000000, reliable 1000000, reliable 1000000] (\<lambda>_. None)))) = Inr ()"
proof -
  obtain key where "build_rate_limit_key sample_platform ''app'' sample_quota ''ip'' (lit ''10.0.0.1'') (replicate 32 7) = Inr key"
    using sample_key by blast
  then show ?thesis
    by (intro readmission_after_a_window [OF sample_quota_ok, where key = key and begin_us = 1000000 and last_us = 1000000])
      (simp_all add: sample_defense_def sample_quota_def quota_key_ok_def r_lookup_def ms_of_def)
qed

theorem inspection_witness:
  "admitted (fst (inspect_rate_limit sample_platform (reliable 5) ''app'' sample_quota ''ip'' (lit ''10.0.0.1'') (replicate 32 7) (\<lambda>_. None)))
   \<longleftrightarrow> admitted (fst (check_rate_limit sample_platform (reliable 5) ''app'' sample_quota ''ip'' (lit ''10.0.0.1'') (replicate 32 7) (\<lambda>_. None)))"
proof -
  obtain key where key: "build_rate_limit_key sample_platform ''app'' sample_quota ''ip'' (lit ''10.0.0.1'') (replicate 32 7) = Inr key"
    using sample_key by blast
  have "quota_key_ok 5 key sample_quota (\<lambda>_. None)" by (simp add: quota_key_ok_def r_lookup_def)
  then show ?thesis using inspection_foretells_check [OF sample_quota_ok key] by blast
qed

lemma admission_witness:
  "\<not> admitted (fst (check_rate_limit sample_platform \<lparr>io_now = 5, io_fault = Reply_lost\<rparr> ''app'' sample_quota ''ip''
      (lit ''10.0.0.1'') (replicate 32 7) (\<lambda>_. None)))"
  using admission_needs_an_answer [OF surjective_pairing,
      of sample_platform "\<lparr>io_now = 5, io_fault = Reply_lost\<rparr>" "''app''" sample_quota "''ip''" "lit ''10.0.0.1''" "replicate 32 7" "\<lambda>_. None"]
  by auto

lemma keys_witness:
  "build_rate_limit_key sample_platform ''app'' sample_quota ''ip'' (lit ''10.0.0.1'') (replicate 32 7) \<noteq>
   build_rate_limit_key sample_platform ''app'' sample_quota ''ip'' (lit ''10.0.0.2'') (replicate 32 7)"
proof
  assume same: "build_rate_limit_key sample_platform ''app'' sample_quota ''ip'' (lit ''10.0.0.1'') (replicate 32 7) =
   build_rate_limit_key sample_platform ''app'' sample_quota ''ip'' (lit ''10.0.0.2'') (replicate 32 7)"
  obtain key where key: "build_rate_limit_key sample_platform ''app'' sample_quota ''ip'' (lit ''10.0.0.1'') (replicate 32 7) = Inr key"
    using sample_key by blast
  have scalars: "list_all scalar_value (lit ''10.0.0.1'')" "list_all scalar_value (lit ''10.0.0.2'')" by code_simp+
  have digests: "pf_hmac_sha256 sample_platform (replicate 32 7) (key_message ''app'' (q_name sample_quota) ''ip'' (lit ''10.0.0.1'')) \<noteq>
      pf_hmac_sha256 sample_platform (replicate 32 7) (key_message ''app'' (q_name sample_quota) ''ip'' (lit ''10.0.0.2''))"
    by code_simp
  have bytes: "utf8_encode (lit ''10.0.0.1'') = Inr (lit ''10.0.0.1'')" "utf8_encode (lit ''10.0.0.2'') = Inr (lit ''10.0.0.2'')"
    by code_simp+
  have "lit ''10.0.0.1'' = lit ''10.0.0.2''"
    using keys_separate_subjects [OF sample_quota_ok sample_quota_ok key key [unfolded same] scalars] digests bytes by auto
  then show False by simp
qed

theorem accepted_settings_witness: "validate_settings sample_platform sample_settings = Inr sample_settings"
proof -
  have "upper_ok sample_platform" unfolding upper_ok_def by code_simp
  then show ?thesis using accepted_settings [OF sample_settings_valid] by blast
qed

end
