(* ===== verification/Identity.thy ===== *)
theory Identity
  imports Config Access_Service
begin

text \<open>
  Identities and passwords: \<open>app/core/security/identity.py\<close>, \<open>app/core/security/passwords.py\<close>,
  and \<open>app/services/provisioning.py\<close>, which creates a user with its base role. Argon2 is an
  argument: what it hashes, verifies and reads off an encoded hash. A hash is drawn with a salt.
  The bounded worker threads that run it are left out.
\<close>

subsection \<open>User names\<close>

definition RESERVED_USER_NAMES :: "pystr list" where
  "RESERVED_USER_NAMES =
     map lit [''admin'', ''administrator'', ''root'', ''superadmin'', ''super_admin'', ''sysadmin'',
       ''system'', ''support'', ''user'', ''test'', ''guest'', ''ceshi'']"

definition normalize_identity :: "unicode_db \<Rightarrow> pystr option \<Rightarrow> failure + pystr" where
  "normalize_identity uc value =
     (case value of
        None \<Rightarrow> Inl (Value_error ''user_name is required'')
      | Some v \<Rightarrow>
          let normalized = strip v in
          if \<not> fullmatch USER_NAME_RE normalized
          then Inl (Value_error ''user_name must be 3-32 ASCII letters, digits, or underscores'')
          else if uc_casefold uc normalized \<in> set RESERVED_USER_NAMES
          then Inl (Value_error ''reserved_user_name'')
          else Inr normalized)"

subsection \<open>Argon2\<close>

record argon2_parameters =
  ap_is_argon2id :: bool
  ap_version :: int
  ap_memory_cost :: int
  ap_time_cost :: int
  ap_parallelism :: int
  ap_salt_len :: int
  ap_hash_len :: int

datatype hash_check = Verified | Mismatch | Unusable

text \<open>\<open>pl_parameters\<close> is \<open>extract_parameters\<close>, \<open>None\<close> where it raises.\<close>

record password_libs =
  pl_hash :: "argon2_parameters \<Rightarrow> string \<Rightarrow> pystr \<Rightarrow> string"
  pl_verify :: "string \<Rightarrow> pystr \<Rightarrow> hash_check"
  pl_needs_rehash :: "argon2_parameters \<Rightarrow> string \<Rightarrow> bool"
  pl_parameters :: "string \<Rightarrow> argon2_parameters option"

definition ARGON2_MEMORY_COST_KIB :: int where "ARGON2_MEMORY_COST_KIB = 65536"
definition ARGON2_TIME_COST :: int where "ARGON2_TIME_COST = 3"
definition ARGON2_PARALLELISM :: int where "ARGON2_PARALLELISM = 4"
definition ARGON2_HASH_LENGTH :: int where "ARGON2_HASH_LENGTH = 32"
definition ARGON2_SALT_LENGTH :: int where "ARGON2_SALT_LENGTH = 16"
definition MIN_PASSWORD_CHARACTERS :: nat where "MIN_PASSWORD_CHARACTERS = 8"
definition MAX_PASSWORD_CHARACTERS :: nat where "MAX_PASSWORD_CHARACTERS = 60"
definition MAX_PASSWORD_UTF8_BYTES :: int where "MAX_PASSWORD_UTF8_BYTES = 1024"

definition DUMMY_PASSWORD_HASH :: string where
  "DUMMY_PASSWORD_HASH =
     ''$argon2id$v=19$m=65536,t=3,p=4$LXt4vIgFZ6WkGw0A38ssxg$'' @
     ''FHhivkBqhiWg1sDCem36CG0Ob137XKSwAlPuAVbeAp8''"

definition password_hasher :: argon2_parameters where
  "password_hasher =
     \<lparr>ap_is_argon2id = True, ap_version = 19, ap_memory_cost = ARGON2_MEMORY_COST_KIB,
      ap_time_cost = ARGON2_TIME_COST, ap_parallelism = ARGON2_PARALLELISM,
      ap_salt_len = ARGON2_SALT_LENGTH, ap_hash_len = ARGON2_HASH_LENGTH\<rparr>"

subsection \<open>Password rules\<close>

definition comparison_form :: "unicode_db \<Rightarrow> pystr \<Rightarrow> pystr" where
  "comparison_form uc value = uc_casefold uc (uc_nfkc uc value)"

definition validate_login_password_input :: "pystr \<Rightarrow> failure + pystr" where
  "validate_login_password_input password =
     (if password = [] then Inl (Password_policy_error ''password_empty'')
      else if length password > MAX_PASSWORD_CHARACTERS
      then Inl (Password_policy_error ''password_too_long'')
      else
        (case utf8_length password of
           Inl _ \<Rightarrow> Inl (Password_policy_error ''password_invalid_unicode'')
         | Inr n \<Rightarrow>
             if n > MAX_PASSWORD_UTF8_BYTES then Inl (Password_policy_error ''password_too_large'')
             else Inr password))"

definition identity_fragments :: "unicode_db \<Rightarrow> pystr list \<Rightarrow> pystr list" where
  "identity_fragments uc identity_values = map (comparison_form uc) identity_values"

text \<open>\<open>ord(right) - ord(left)\<close> of neighbours.\<close>

definition steps_of :: "pystr \<Rightarrow> int list" where
  "steps_of s = map (\<lambda>(left, right). right - left) (zip s (tl s))"

text \<open>
  Digits only or letters only, in a run that goes up or down by one:
  \<open>isascii() and isalnum() and (isdecimal() or isalpha())\<close> and one step of plus or minus one.
\<close>

definition is_simple_run :: "pystr \<Rightarrow> bool" where
  "is_simple_run folded \<longleftrightarrow>
     length folded > 1 \<and> ascii folded \<and>
     (list_all is_digit folded \<or> list_all (\<lambda>c. is_lower c \<or> is_upper c) folded) \<and>
     length (remdups (steps_of folded)) = 1 \<and> hd (steps_of folded) \<in> {-1, 1}"

definition validate_new_password :: "unicode_db \<Rightarrow> pystr \<Rightarrow> pystr list \<Rightarrow> failure + pystr" where
  "validate_new_password uc password identity_values =
     bindE (validate_login_password_input password) (\<lambda>_.
     if length password < MIN_PASSWORD_CHARACTERS then Inl (Password_policy_error ''password_too_short'')
     else if list_ex is_control password
     then Inl (Password_policy_error ''password_contains_control_character'')
     else
       let folded = comparison_form uc password in
       if length (remdups folded) = 1 then Inl (Password_policy_error ''password_common_or_weak'')
       else if is_simple_run folded then Inl (Password_policy_error ''password_common_or_weak'')
       else if folded \<in> set (identity_fragments uc identity_values)
       then Inl (Password_policy_error ''password_same_as_user_name'')
       else Inr password)"

subsection \<open>Hashing\<close>

definition hash_new_password ::
    "password_libs \<Rightarrow> unicode_db \<Rightarrow> string \<Rightarrow> pystr \<Rightarrow> pystr list \<Rightarrow> failure + string" where
  "hash_new_password libs uc salt password identity_values =
     bindE (validate_new_password uc password identity_values) (\<lambda>validated.
       Inr (pl_hash libs password_hasher salt validated))"

definition hash_verified_password :: "password_libs \<Rightarrow> string \<Rightarrow> pystr \<Rightarrow> failure + string" where
  "hash_verified_password libs salt password =
     bindE (validate_login_password_input password) (\<lambda>validated.
       Inr (pl_hash libs password_hasher salt validated))"

record password_verification =
  pv_verified :: bool
  pv_needs_rehash :: bool
  pv_used_dummy :: bool

definition safe_parameters :: "argon2_parameters \<Rightarrow> bool" where
  "safe_parameters p \<longleftrightarrow>
     ap_is_argon2id p \<and> ap_version p = 19 \<and> ap_memory_cost p \<le> ARGON2_MEMORY_COST_KIB \<and>
     ap_time_cost p \<le> ARGON2_TIME_COST \<and> ap_parallelism p \<le> ARGON2_PARALLELISM \<and>
     ap_salt_len p \<le> 64 \<and> ap_hash_len p \<le> 64"

definition verify_or_dummy ::
    "password_libs \<Rightarrow> pystr \<Rightarrow> string option \<Rightarrow> failure + password_verification" where
  "verify_or_dummy libs password password_hash =
     bindE (validate_login_password_input password) (\<lambda>validated.
     let used_dummy = (password_hash = None);
         encoded_hash = (case password_hash of None \<Rightarrow> DUMMY_PASSWORD_HASH | Some h \<Rightarrow> h) in
     case pl_parameters libs encoded_hash of
       None \<Rightarrow> Inl Password_hash_error
     | Some parameters \<Rightarrow>
         if \<not> safe_parameters parameters then Inl Password_hash_error
         else
           bindE (case pl_verify libs encoded_hash validated of
                    Mismatch \<Rightarrow> Inr (False, False)
                  | Unusable \<Rightarrow> Inl Password_hash_error
                  | Verified \<Rightarrow> Inr (True, pl_needs_rehash libs password_hasher encoded_hash))
             (\<lambda>(verified, needs_rehash).
               Inr \<lparr>pv_verified = verified \<and> \<not> used_dummy,
                    pv_needs_rehash = needs_rehash \<and> \<not> used_dummy,
                    pv_used_dummy = used_dummy\<rparr>))"

subsection \<open>Provisioning\<close>

definition new_user_id :: "uuid option \<Rightarrow> uuid \<Rightarrow> failure + uuid" where
  "new_user_id value drawn =
     (let user_id = (case value of Some v \<Rightarrow> v | None \<Rightarrow> drawn) in
      if uuid_version user_id \<noteq> Some 4 then Inl (Value_error ''user_id must be a UUIDv4 value'')
      else Inr user_id)"

definition new_user :: "uuid \<Rightarrow> pystr \<Rightarrow> user" where
  "new_user user_id user_name =
     \<lparr>u_id = user_id, u_user_name = user_name, u_password_hash = None, u_must_change_password = False,
      u_password_changed_at = None, u_is_active = True, u_is_protected = False, u_token_version = 0,
      u_authz_version = 1, u_deleted_at = None, u_deleted_by_user_id = None\<rparr>"

definition default_role_contract :: "role \<Rightarrow> bool" where
  "default_role_contract r \<longleftrightarrow>
     r_is_system r \<and> r_is_protected r = spec_is_protected (SYSTEM_ROLE_SPECS USER) \<and>
     \<not> r_is_super_admin r \<and> r_is_active r \<and>
     r_management_tier r = spec_management_tier (SYSTEM_ROLE_SPECS USER) \<and> r_deleted_at r = None"

definition default_role_row :: "database \<Rightarrow> failure + role" where
  "default_role_row db =
     (case find (\<lambda>r. r_key r = system_role_value USER) (db_roles db) of
        None \<Rightarrow> Inl (Rbac (not_found ''default_user_role_missing''))
      | Some found \<Rightarrow>
          (case map_of (lock_roles db {r_id found}) (r_id found) of
             None \<Rightarrow> Inl Key_error
           | Some r \<Rightarrow>
               if \<not> default_role_contract r
               then Inl (Runtime_error ''default user role does not match the migrated contract'')
               else Inr r))"

definition provision_payload :: "user \<Rightarrow> role \<Rightarrow> audit_value" where
  "provision_payload u r = a_obj
     [(''user_id'', a_str (uuid_str (u_id u))),
      (''default_role_id'', a_str (uuid_str (r_id r))),
      (''authz_version'', A_Int (u_authz_version u))]"

definition create_user_with_default_role ::
    "unicode_db \<Rightarrow> uuid \<Rightarrow> pystr \<Rightarrow> uuid option \<Rightarrow> uuid option \<Rightarrow> string \<Rightarrow> database \<Rightarrow>
     failure + user \<times> database" where
  "create_user_with_default_role uc drawn user_name user_id assigned_by request_id db =
     bindE (normalize_identity uc (Some user_name)) (\<lambda>normalized_user_name.
     bindE (new_user_id user_id drawn) (\<lambda>new_id.
     bindE (lock_rbac_state db) (\<lambda>state.
     bindE (case assigned_by of
              None \<Rightarrow> Inr ()
            | Some a \<Rightarrow> raise_unless (a \<in> fst ` set (lock_users db {a}))
                          (Rbac (not_found ''provisioning_actor_not_found''))) (\<lambda>_.
     bindE (raise_unless
              (\<not> list_ex (\<lambda>u. u_id u = new_id \<or> u_user_name u = normalized_user_name) (db_users db))
              (Rbac (conflict ''user_identity_exists''))) (\<lambda>_.
     let user = new_user new_id normalized_user_name;
         db1 = db\<lparr>db_users := db_users db @ [user]\<rparr> in
     bindE (default_role_row db1) (\<lambda>user_role.
     let assignment = \<lparr>ur_user_id = u_id user, ur_role_id = r_id user_role,
           ur_assigned_by_user_id = assigned_by, ur_deleted_at = None, ur_deleted_by_user_id = None\<rparr>;
         db2 = save_state (next_epoch state) (db1\<lparr>db_user_roles := db_user_roles db1 @ [assignment]\<rparr>) in
     bindE (new_rbac_audit_event uc (case assigned_by of Some a \<Rightarrow> a | None \<Rightarrow> u_id user)
              (Some (u_id user)) (Some (r_id user_role)) ''user.provision'' ''allowed''
              ''default_user_role_assigned'' (audit_source_value SERVICE) None
              (Some (provision_payload user user_role)) request_id) (\<lambda>event.
       Inr (user, add_rbac_event event db2))))))))"

end
