(* ===== verification/World.thy ===== *)
theory World
  imports Rate_Limit Redis_Collections Identity
begin

text \<open>
  The state a request works on: the database, the Redis of the session registry and of the
  captchas, and the Redis of the quotas. A transaction and a script run on their part of it.
  Between two of them other requests run; what they do to the state is an argument.
\<close>

record world =
  w_db :: database
  w_sessions :: redis
  w_limits :: redis

definition in_db :: "(database, 'a) proc \<Rightarrow> (world, 'a) proc" where
  "in_db = onP w_db (\<lambda>d w. w\<lparr>w_db := d\<rparr>)"

definition in_sessions :: "(redis, 'a) proc \<Rightarrow> (world, 'a) proc" where
  "in_sessions = onP w_sessions (\<lambda>s w. w\<lparr>w_sessions := s\<rparr>)"

definition in_limits :: "(redis, 'a) proc \<Rightarrow> (world, 'a) proc" where
  "in_limits = onP w_limits (\<lambda>s w. w\<lparr>w_limits := s\<rparr>)"

type_synonym others = "nat \<Rightarrow> world \<Rightarrow> world"

definition meanwhile :: "others \<Rightarrow> nat \<Rightarrow> (world, unit) proc" where
  "meanwhile others i = updateP (others i)"

lemma in_parts [simp]:
  "in_db m w = (case m (w_db w) of (r, d) \<Rightarrow> (r, w\<lparr>w_db := d\<rparr>))"
  "in_sessions n w = (case n (w_sessions w) of (r', s) \<Rightarrow> (r', w\<lparr>w_sessions := s\<rparr>))"
  "in_limits k w = (case k (w_limits w) of (r'', s) \<Rightarrow> (r'', w\<lparr>w_limits := s\<rparr>))"
  by (simp_all add: in_db_def in_sessions_def in_limits_def onP_def)

lemma meanwhile_step [simp]: "meanwhile others i w = (Inr (), others i w)"
  by (simp add: meanwhile_def)

subsection \<open>Admission before identity work\<close>

text \<open>
  \<open>IdentityAbuseFlow\<close> of \<open>app/services/abuse_flow.py\<close>: the quota of the client's address,
  then the check of the captcha if there is one, then the callback.
\<close>

record abuse_flow =
  af_defense :: abuse_defense
  af_io :: redis_io
  af_post_admission_check :: "(world, unit) proc option"

definition check_admitted_request :: "abuse_flow \<Rightarrow> (world, unit) proc" where
  "check_admitted_request flow =
     (case af_post_admission_check flow of None \<Rightarrow> returnP () | Some check \<Rightarrow> check)"

definition valid_credentials :: "(world, 'a option) proc \<Rightarrow> (world, 'a) proc" where
  "valid_credentials verify =
     bindP verify (\<lambda>result.
       case result of None \<Rightarrow> raiseP Invalid_login_credentials | Some x \<Rightarrow> returnP x)"

definition verify_admitted_credentials :: "abuse_flow \<Rightarrow> (world, 'a option) proc \<Rightarrow> (world, 'a) proc" where
  "verify_admitted_credentials flow verify =
     bindP (check_admitted_request flow) (\<lambda>_. valid_credentials verify)"

definition flow_authenticate ::
    "platform \<Rightarrow> abuse_flow \<Rightarrow> pystr \<Rightarrow> (world, 'a option) proc \<Rightarrow> (world, 'a) proc" where
  "flow_authenticate pf flow client_ip verify =
     bindP (in_limits (check_login_attempt pf (af_defense flow) (af_io flow) client_ip)) (\<lambda>_.
       verify_admitted_credentials flow verify)"

definition flow_complete_temporary_password_reset ::
    "platform \<Rightarrow> abuse_flow \<Rightarrow> pystr \<Rightarrow> (world, 'a option) proc \<Rightarrow> (world, 'a) proc" where
  "flow_complete_temporary_password_reset pf flow client_ip verify =
     bindP (in_limits (check_temporary_password_completion pf (af_defense flow) (af_io flow) client_ip)) (\<lambda>_.
       verify_admitted_credentials flow verify)"

definition flow_register ::
    "platform \<Rightarrow> abuse_flow \<Rightarrow> pystr \<Rightarrow> (world, 'a) proc \<Rightarrow> (world, 'a) proc" where
  "flow_register pf flow client_ip registration_action =
     bindP (in_limits (check_registration_attempt pf (af_defense flow) (af_io flow) client_ip)) (\<lambda>_.
     bindP (check_admitted_request flow) (\<lambda>_. registration_action))"

end
