(* ===== verification/Authentication.thy ===== *)
theory Authentication
  imports World
begin

text \<open>
  \<open>LocalAuthenticationService\<close> of \<open>app/services/authentication.py\<close>. Argon2 runs between the
  transactions of an operation, so an operation is a sequence of transactions with the work of
  other requests in between: \<open>meanwhile others i\<close> is what happens before the \<open>i\<close>-th further
  transaction. Clocks, salts and drawn identifiers are arguments.
\<close>

subsection \<open>Errors\<close>

definition password_policy_response :: "string \<Rightarrow> rbac_error" where
  "password_policy_response reason =
     (if reason = ''password_same_as_user_name''
      then \<lparr>status_code = 400, business_code = BAD_REQUEST,
            message_key = ERROR_PASSWORD_SAME_AS_USER_NAME, reason_code = reason\<rparr>
      else if reason = ''password_common_or_weak''
      then \<lparr>status_code = 400, business_code = BAD_REQUEST,
            message_key = ERROR_PASSWORD_COMMON_OR_WEAK, reason_code = reason\<rparr>
      else invalid_request reason)"

definition username_exists :: rbac_error where
  "username_exists =
     \<lparr>status_code = 409, business_code = CONFLICT, message_key = ERROR_USER_NAME_TAKEN,
      reason_code = ''user_identity_exists''\<rparr>"

definition registration_closed :: rbac_error where
  "registration_closed =
     \<lparr>status_code = 403, business_code = ACCESS_FORBIDDEN, message_key = ERROR_REGISTRATION_CLOSED,
      reason_code = ''public_registration_closed''\<rparr>"

text \<open>\<open>except PasswordPolicyError as exc: raise _password_policy_response(exc)\<close>\<close>

definition policy_checked :: "failure + 'a \<Rightarrow> failure + 'a" where
  "policy_checked m =
     (case m of Inl (Password_policy_error reason) \<Rightarrow> Inl (Rbac (password_policy_response reason))
      | result \<Rightarrow> result)"

text \<open>The clauses that turn a taken name into \<open>_username_exists()\<close>.\<close>

definition is_identity_conflict :: "string \<Rightarrow> bool" where
  "is_identity_conflict constraint_name \<longleftrightarrow> constraint_name = ''uq_users_user_name''"

definition taken_name_response :: "failure \<Rightarrow> failure" where
  "taken_name_response e =
     (case e of
        Integrity_error name \<Rightarrow> if is_identity_conflict name then Rbac username_exists else e
      | Rbac r \<Rightarrow> if reason_code r = ''user_identity_exists'' then Rbac username_exists else e
      | _ \<Rightarrow> e)"

subsection \<open>Accounts\<close>

record authenticated_password_user =
  au_user_id :: uuid
  au_token_version :: int
  au_must_change_password :: bool

record password_snapshot =
  ps_user_id :: uuid
  ps_user_name :: pystr
  ps_is_active :: bool
  ps_is_deleted :: bool
  ps_token_version :: int
  ps_password_hash :: "string option"
  ps_password_changed_at :: "int option"
  ps_must_change_password :: bool

definition identity_values :: "password_snapshot \<Rightarrow> pystr list" where
  "identity_values s = [ps_user_name s]"

definition snapshot_from_user :: "user \<Rightarrow> password_snapshot" where
  "snapshot_from_user u =
     \<lparr>ps_user_id = u_id u, ps_user_name = u_user_name u, ps_is_active = u_is_active u,
      ps_is_deleted = (u_deleted_at u \<noteq> None), ps_token_version = u_token_version u,
      ps_password_hash = u_password_hash u, ps_password_changed_at = u_password_changed_at u,
      ps_must_change_password = u_must_change_password u\<rparr>"

definition same_identity :: "user \<Rightarrow> password_snapshot \<Rightarrow> bool" where
  "same_identity u s \<longleftrightarrow> u_id u = ps_user_id s \<and> u_user_name u = ps_user_name s \<and> u_deleted_at u = None"

definition same_login_user_state :: "user \<Rightarrow> password_snapshot \<Rightarrow> bool" where
  "same_login_user_state u s \<longleftrightarrow>
     same_identity u s \<and> u_is_active u = ps_is_active s \<and> u_token_version u = ps_token_version s \<and>
     u_password_changed_at u = ps_password_changed_at s"

definition same_password_state :: "user \<Rightarrow> password_snapshot \<Rightarrow> bool" where
  "same_password_state u s \<longleftrightarrow>
     u_password_hash u \<noteq> None \<and> u_password_hash u = ps_password_hash s \<and>
     u_must_change_password u = ps_must_change_password s"

definition authenticated_user :: "user \<Rightarrow> authenticated_password_user" where
  "authenticated_user u =
     \<lparr>au_user_id = u_id u, au_token_version = u_token_version u,
      au_must_change_password = u_must_change_password u\<rparr>"

definition rotate_password :: "int \<Rightarrow> string \<Rightarrow> bool \<Rightarrow> user \<Rightarrow> user" where
  "rotate_password changed_at password_hash must_change u =
     u\<lparr>u_password_hash := Some password_hash, u_must_change_password := must_change,
       u_password_changed_at := Some changed_at\<rparr>"

definition add_account_event :: "account_event \<Rightarrow> database \<Rightarrow> database" where
  "add_account_event e db = db\<lparr>db_account_audit := db_account_audit db @ [e]\<rparr>"

definition load_snapshot_by_user_name :: "pystr \<Rightarrow> database \<Rightarrow> password_snapshot option" where
  "load_snapshot_by_user_name user_name db =
     map_option snapshot_from_user (find (\<lambda>u. u_user_name u = user_name) (db_users db))"

definition load_snapshot_by_user_id :: "uuid \<Rightarrow> database \<Rightarrow> password_snapshot option" where
  "load_snapshot_by_user_id user_id db =
     map_option snapshot_from_user (find (\<lambda>u. u_id u = user_id) (db_users db))"

text \<open>\<open>_verify_password_details\<close>\<close>

definition verify_password_details ::
    "password_libs \<Rightarrow> pystr \<Rightarrow> string option \<Rightarrow> failure + password_verification" where
  "verify_password_details libs password password_hash =
     (case verify_or_dummy libs password password_hash of
        Inl (Password_policy_error _) \<Rightarrow> Inl Invalid_login_credentials
      | Inl Password_hash_error \<Rightarrow> Inl (Rbac (unavailable ''password_credential_unavailable''))
      | result \<Rightarrow> result)"

definition verify_password :: "password_libs \<Rightarrow> pystr \<Rightarrow> string option \<Rightarrow> failure + bool" where
  "verify_password libs password password_hash =
     bindE (verify_password_details libs password password_hash) (\<lambda>v. Inr (pv_verified v))"

definition snapshot_hash :: "password_snapshot option \<Rightarrow> string option" where
  "snapshot_hash s = (case s of None \<Rightarrow> None | Some x \<Rightarrow> ps_password_hash x)"

subsection \<open>Events\<close>

definition succeeded_event ::
    "string \<Rightarrow> string \<Rightarrow> account_actor_type \<Rightarrow> uuid option \<Rightarrow> uuid option \<Rightarrow> audit_source \<Rightarrow> string \<Rightarrow>
     database \<Rightarrow> failure + database" where
  "succeeded_event action reason actor_type actor target source request_id db =
     bindE (new_account_event action SUCCEEDED reason actor_type actor target source request_id) (\<lambda>e.
       Inr (add_account_event e db))"

text \<open>\<open>_write_denied_event\<close>: what it raises is logged and dropped.\<close>

definition denied_event_body ::
    "string \<Rightarrow> string \<Rightarrow> uuid \<Rightarrow> uuid \<Rightarrow> audit_source \<Rightarrow> string \<Rightarrow> database \<Rightarrow> failure + unit \<times> database" where
  "denied_event_body action reason actor target source request_id db =
     bindE (new_account_event action DENIED reason USER_ACTOR (Some actor) (Some target) source request_id) (\<lambda>e.
       Inr ((), add_account_event e db))"

definition write_denied_event ::
    "string \<Rightarrow> string \<Rightarrow> uuid \<Rightarrow> uuid \<Rightarrow> audit_source \<Rightarrow> string \<Rightarrow> (database, unit) proc" where
  "write_denied_event action reason actor target source request_id =
     handleP (transaction (denied_event_body action reason actor target source request_id)) (\<lambda>_. returnP ())"

definition write_client_denial ::
    "rbac_error \<Rightarrow> string \<Rightarrow> uuid \<Rightarrow> uuid \<Rightarrow> audit_source \<Rightarrow> string \<Rightarrow> (database, unit) proc" where
  "write_client_denial error action actor target source request_id =
     (if status_code error \<ge> 500 then returnP ()
      else write_denied_event action (reason_code error) actor target source request_id)"

subsection \<open>The registration setting\<close>

definition registration_enabled :: "(database, bool) proc" where
  "registration_enabled =
     bindP (readP db_state) (\<lambda>state.
       case state of
         None \<Rightarrow> raiseP (Rbac (unavailable ''registration_setting_unavailable''))
       | Some s \<Rightarrow> returnP (st_public_registration_enabled s))"

definition set_registration_body ::
    "authorization_context \<Rightarrow> bool \<Rightarrow> database \<Rightarrow> failure + unit \<times> database" where
  "set_registration_body ctx enabled db =
     bindE (lock_rbac_state db) (\<lambda>state.
     bindE (require_current_actor db (pr_user_id (c_principal ctx)) (pr_token_version (c_principal ctx))) (\<lambda>actor.
     bindE (raise_unless
              (a_is_super_admin actor \<and> permission_value REGISTRATION_CONFIGURE \<in> a_permissions actor)
              (Rbac (forbidden ''registration_setting_requires_super_admin''))) (\<lambda>_.
     if st_public_registration_enabled state \<noteq> enabled
     then
       bindE (succeeded_event ''account_security.registration.setting_updated''
                ''registration_setting_updated'' USER_ACTOR (Some (pr_user_id (c_principal ctx))) None
                (c_audit_source ctx) (c_request_id ctx)
                (save_state (state\<lparr>st_public_registration_enabled := enabled\<rparr>) db)) (\<lambda>db'.
         Inr ((), db'))
     else Inr ((), db))))"

definition set_registration_enabled :: "authorization_context \<Rightarrow> bool \<Rightarrow> (database, bool) proc" where
  "set_registration_enabled ctx enabled =
     bindP (transaction (set_registration_body ctx enabled)) (\<lambda>_. returnP enabled)"

subsection \<open>New users\<close>

definition register_body ::
    "unicode_db \<Rightarrow> uuid \<Rightarrow> int \<Rightarrow> pystr \<Rightarrow> string \<Rightarrow> string \<Rightarrow> database \<Rightarrow> failure + uuid \<times> database" where
  "register_body uc drawn now user_name password_hash request_id db =
     bindE (lock_rbac_state db) (\<lambda>state.
     bindE (raise_unless (st_public_registration_enabled state) (Rbac registration_closed)) (\<lambda>_.
     bindE (create_user_with_default_role uc drawn user_name None None request_id db) (\<lambda>(user, db1).
     bindE (succeeded_event ''account_security.registration.completed'' ''registration_completed''
              ANONYMOUS_ACTOR None (Some (u_id user)) HTTP request_id
              (save_user (rotate_password now password_hash False user) db1)) (\<lambda>db2.
       Inr (u_id user, db2)))))"

definition registration_action ::
    "password_libs \<Rightarrow> unicode_db \<Rightarrow> others \<Rightarrow> string \<Rightarrow> uuid \<Rightarrow> int \<Rightarrow> pystr \<Rightarrow> pystr \<Rightarrow> string \<Rightarrow> (world, uuid) proc" where
  "registration_action libs uc others salt drawn now user_name password request_id =
     bindP (liftP (policy_checked (hash_new_password libs uc salt password [user_name]))) (\<lambda>password_hash.
     bindP (meanwhile others 0) (\<lambda>_.
       handleP (in_db (transaction (register_body uc drawn now user_name password_hash request_id)))
         (\<lambda>e. raiseP (taken_name_response e))))"

definition register ::
    "password_libs \<Rightarrow> platform \<Rightarrow> others \<Rightarrow> abuse_flow option \<Rightarrow> pystr \<Rightarrow> string \<Rightarrow> uuid \<Rightarrow> int \<Rightarrow>
     pystr \<Rightarrow> pystr \<Rightarrow> string \<Rightarrow> (world, uuid) proc" where
  "register libs pf others flow client_ip salt drawn now user_name password request_id =
     (let action = registration_action libs (pf_unicode pf) others salt drawn now user_name password request_id in
      case flow of None \<Rightarrow> action | Some f \<Rightarrow> flow_register pf f client_ip action)"

definition create_user_body ::
    "unicode_db \<Rightarrow> authorization_context \<Rightarrow> uuid \<Rightarrow> int \<Rightarrow> pystr \<Rightarrow> string \<Rightarrow> database \<Rightarrow> failure + uuid \<times> database" where
  "create_user_body uc ctx drawn now user_name password_hash db =
     bindE (lock_rbac_state db) (\<lambda>_.
     bindE (require_current_actor db (pr_user_id (c_principal ctx)) (pr_token_version (c_principal ctx))) (\<lambda>actor.
     bindE (raise_unless (permission_value USERS_CREATE \<in> a_permissions actor)
              (Rbac (forbidden ''missing_operation_permission''))) (\<lambda>_.
     bindE (create_user_with_default_role uc drawn user_name None (Some (pr_user_id (c_principal ctx)))
              (c_request_id ctx) db) (\<lambda>(user, db1).
     bindE (succeeded_event ''account_security.registration.admin_created'' ''temporary_password_set''
              USER_ACTOR (Some (pr_user_id (c_principal ctx))) (Some (u_id user)) (c_audit_source ctx)
              (c_request_id ctx) (save_user (rotate_password now password_hash True user) db1)) (\<lambda>db2.
       Inr (u_id user, db2))))))"

definition create_user_by_administrator ::
    "password_libs \<Rightarrow> unicode_db \<Rightarrow> others \<Rightarrow> authorization_context \<Rightarrow> string \<Rightarrow> uuid \<Rightarrow> int \<Rightarrow> pystr \<Rightarrow> pystr \<Rightarrow>
     (world, uuid) proc" where
  "create_user_by_administrator libs uc others ctx salt drawn now user_name temporary_password =
     bindP (liftP (policy_checked (hash_new_password libs uc salt temporary_password [user_name]))) (\<lambda>password_hash.
     bindP (meanwhile others 0) (\<lambda>_.
       handleP (in_db (transaction (create_user_body uc ctx drawn now user_name password_hash)))
         (\<lambda>e. raiseP (taken_name_response e))))"

subsection \<open>Login\<close>

text \<open>What the first transaction of a login settles, or the account it has to verify again.\<close>

datatype login_step = Settled "authenticated_password_user option" | Verify_again password_snapshot

definition usable_snapshot :: "bool \<Rightarrow> password_snapshot \<Rightarrow> bool" where
  "usable_snapshot require_temporary s \<longleftrightarrow>
     ps_password_hash s \<noteq> None \<and> \<not> ps_is_deleted s \<and> ps_is_active s \<and>
     (require_temporary \<longrightarrow> ps_must_change_password s)"

definition login_body ::
    "bool \<Rightarrow> password_snapshot \<Rightarrow> string option \<Rightarrow> database \<Rightarrow> failure + login_step \<times> database" where
  "login_body require_temporary snapshot replacement_hash db =
     (case map_of (lock_users db {ps_user_id snapshot}) (ps_user_id snapshot) of
        None \<Rightarrow> Inr (Settled None, db)
      | Some user \<Rightarrow>
          if \<not> same_login_user_state user snapshot
             \<or> u_must_change_password user \<noteq> ps_must_change_password snapshot
          then Inr (Settled None, db)
          else if require_temporary \<and> \<not> u_must_change_password user then Inr (Settled None, db)
          else if u_password_hash user = ps_password_hash snapshot
          then
            (case replacement_hash of
               None \<Rightarrow> Inr (Settled (Some (authenticated_user user)), db)
             | Some h \<Rightarrow> Inr (Settled (Some (authenticated_user user)),
                 save_user (user\<lparr>u_password_hash := Some h\<rparr>) db))
          else if replacement_hash = None \<or> u_password_hash user = None
          then Inr (Settled None, db)
          else Inr (Verify_again (snapshot_from_user user), db))"

definition login_again_body ::
    "bool \<Rightarrow> uuid \<Rightarrow> password_snapshot \<Rightarrow> database \<Rightarrow> failure + authenticated_password_user option \<times> database" where
  "login_again_body require_temporary user_id snapshot db =
     (case map_of (lock_users db {user_id}) user_id of
        None \<Rightarrow> Inr (None, db)
      | Some user \<Rightarrow>
          if \<not> same_login_user_state user snapshot \<or> \<not> same_password_state user snapshot
          then Inr (None, db)
          else if require_temporary \<and> \<not> u_must_change_password user then Inr (None, db)
          else Inr (Some (authenticated_user user), db))"

text \<open>Another login of the account replaced the hash in the meantime: verify the new one.\<close>

definition verify_concurrent_rehash ::
    "password_libs \<Rightarrow> others \<Rightarrow> pystr \<Rightarrow> bool \<Rightarrow> uuid \<Rightarrow> password_snapshot \<Rightarrow>
     (world, authenticated_password_user option) proc" where
  "verify_concurrent_rehash libs others password require_temporary user_id again =
     bindP (liftP (verify_password_details libs password (ps_password_hash again))) (\<lambda>concurrent.
     if \<not> pv_verified concurrent \<or> pv_needs_rehash concurrent \<or> pv_used_dummy concurrent
     then returnP None
     else
     bindP (meanwhile others 1) (\<lambda>_.
       in_db (transaction (login_again_body require_temporary user_id again))))"

definition verify_login_snapshot ::
    "password_libs \<Rightarrow> others \<Rightarrow> string \<Rightarrow> pystr \<Rightarrow> pystr \<Rightarrow> bool \<Rightarrow> (world, authenticated_password_user option) proc" where
  "verify_login_snapshot libs others salt user_name password require_temporary =
     bindP (in_db (readP (load_snapshot_by_user_name user_name))) (\<lambda>found.
     bindP (liftP (verify_password_details libs password (snapshot_hash found))) (\<lambda>verification.
     case found of
       None \<Rightarrow> returnP None
     | Some snapshot \<Rightarrow>
         if \<not> pv_verified verification \<or> pv_used_dummy verification \<or> \<not> usable_snapshot require_temporary snapshot
         then returnP None
         else
         bindP (if pv_needs_rehash verification
                then bindP (liftP (hash_verified_password libs salt password)) (\<lambda>h. returnP (Some h))
                else returnP None) (\<lambda>replacement_hash.
         bindP (meanwhile others 0) (\<lambda>_.
         bindP (in_db (transaction (login_body require_temporary snapshot replacement_hash))) (\<lambda>step.
         case step of
           Settled result \<Rightarrow> returnP result
         | Verify_again again \<Rightarrow>
             verify_concurrent_rehash libs others password require_temporary (ps_user_id snapshot) again)))))"

definition authenticate ::
    "password_libs \<Rightarrow> platform \<Rightarrow> others \<Rightarrow> abuse_flow option \<Rightarrow> pystr \<Rightarrow> string \<Rightarrow> pystr \<Rightarrow> pystr \<Rightarrow>
     (world, authenticated_password_user) proc" where
  "authenticate libs pf others flow client_ip salt user_name password =
     (let verify_credentials = verify_login_snapshot libs others salt user_name password False in
      case flow of
        None \<Rightarrow> valid_credentials verify_credentials
      | Some f \<Rightarrow> flow_authenticate pf f client_ip verify_credentials)"

subsection \<open>Changing a password\<close>

definition verify_current_password ::
    "password_libs \<Rightarrow> authorization_context \<Rightarrow> pystr \<Rightarrow> (world, password_snapshot option) proc" where
  "verify_current_password libs ctx current_password =
     bindP (in_db (readP (load_snapshot_by_user_id (pr_user_id (c_principal ctx))))) (\<lambda>found.
     bindP (liftP (verify_password libs current_password (snapshot_hash found))) (\<lambda>verification.
     case found of
       None \<Rightarrow> returnP None
     | Some snapshot \<Rightarrow>
         if \<not> verification \<or> ps_password_hash snapshot = None \<or> ps_is_deleted snapshot
            \<or> \<not> ps_is_active snapshot \<or> ps_must_change_password snapshot
            \<or> ps_token_version snapshot \<noteq> pr_token_version (c_principal ctx)
         then returnP None
         else returnP (Some snapshot)))"

definition reauthenticate_actor ::
    "password_libs \<Rightarrow> others \<Rightarrow> authorization_context \<Rightarrow> pystr \<Rightarrow> string \<Rightarrow> uuid \<Rightarrow> (world, password_snapshot) proc" where
  "reauthenticate_actor libs others ctx current_password action target_user_id =
     handleP (valid_credentials (verify_current_password libs ctx current_password))
       (\<lambda>e. if e = Invalid_login_credentials
            then bindP (meanwhile others 0) (\<lambda>_.
                 bindP (in_db (write_denied_event action ''current_password_invalid''
                   (pr_user_id (c_principal ctx)) target_user_id (c_audit_source ctx) (c_request_id ctx))) (\<lambda>_.
                   raiseP (Rbac (forbidden ''current_password_invalid''))))
            else raiseP e)"

definition change_password_body ::
    "authorization_context \<Rightarrow> int \<Rightarrow> password_snapshot \<Rightarrow> string \<Rightarrow> database \<Rightarrow> failure + unit \<times> database" where
  "change_password_body ctx now snapshot new_hash db =
     bindE (lock_rbac_state db) (\<lambda>_.
     let me = pr_user_id (c_principal ctx) in
     case map_of (lock_users db {me}) me of
       None \<Rightarrow> Inl (Rbac (forbidden ''current_credential_changed''))
     | Some user \<Rightarrow>
         if \<not> u_is_active user \<or> u_token_version user \<noteq> pr_token_version (c_principal ctx)
            \<or> \<not> same_identity user snapshot
         then Inl (Rbac (forbidden ''current_credential_changed''))
         else if \<not> same_password_state user snapshot
         then Inl (Rbac (forbidden ''current_credential_changed''))
         else
         let rotated = rotate_password now new_hash False user;
             row = rotated\<lparr>u_token_version := u_token_version rotated + 1\<rparr> in
         bindE (succeeded_event ''account_security.password.changed'' ''password_changed'' USER_ACTOR
                  (Some (u_id user)) (Some (u_id user)) (c_audit_source ctx) (c_request_id ctx)
                  (save_user row db)) (\<lambda>db'. Inr ((), db')))"

definition change_password ::
    "password_libs \<Rightarrow> unicode_db \<Rightarrow> others \<Rightarrow> authorization_context \<Rightarrow> string \<Rightarrow> int \<Rightarrow> pystr \<Rightarrow> pystr \<Rightarrow>
     (world, bool) proc" where
  "change_password libs uc others ctx salt now current_password new_password =
     (if current_password = new_password then raiseP (Rbac (invalid_request ''new_password_must_differ''))
      else
      bindP (reauthenticate_actor libs others ctx current_password ''account_security.password.changed''
               (pr_user_id (c_principal ctx))) (\<lambda>snapshot.
      bindP (liftP (policy_checked (hash_new_password libs uc salt new_password (identity_values snapshot)))) (\<lambda>new_hash.
      bindP (meanwhile others 1) (\<lambda>_.
      bindP (in_db (transaction (change_password_body ctx now snapshot new_hash))) (\<lambda>_. returnP True)))))"

subsection \<open>Resets\<close>

definition lock_authorized_reset_target ::
    "authorization_context \<Rightarrow> uuid \<Rightarrow> database \<Rightarrow> failure + user" where
  "lock_authorized_reset_target ctx target_user_id db =
     bindE (lock_rbac_state db) (\<lambda>_.
     let users = lock_users db {pr_user_id (c_principal ctx), target_user_id} in
     bindE (require_current_actor db (pr_user_id (c_principal ctx)) (pr_token_version (c_principal ctx))) (\<lambda>actor.
     bindE (raise_unless (permission_value USERS_PASSWORD_RESET \<in> a_permissions actor)
              (Rbac (forbidden ''missing_operation_permission''))) (\<lambda>_.
     case map_of users target_user_id of
       None \<Rightarrow> Inl (Rbac (not_found ''user_not_found''))
     | Some target_user \<Rightarrow>
         bindE (load_authority_snapshot db target_user_id True) (\<lambda>target.
         bindE (raise_unless (is_administrative_user_visible actor target)
                  (Rbac (not_found ''user_not_found''))) (\<lambda>_.
         let decision = decide_user_password_reset actor target in
         bindE (raise_unless (allowed decision) (Rbac (forbidden (decision_reason decision)))) (\<lambda>_.
           Inr target_user))))))"

definition reset_password_body ::
    "unicode_db \<Rightarrow> authorization_context \<Rightarrow> int \<Rightarrow> uuid \<Rightarrow> pystr \<Rightarrow> bool \<Rightarrow> string \<Rightarrow> database \<Rightarrow> failure + unit \<times> database" where
  "reset_password_body uc ctx now target_user_id new_password require_change new_hash db =
     bindE (lock_authorized_reset_target ctx target_user_id db) (\<lambda>target_user.
     bindE (policy_checked (validate_new_password uc new_password [u_user_name target_user])) (\<lambda>_.
     let rotated = rotate_password now new_hash require_change target_user;
         row = rotated\<lparr>u_token_version := u_token_version rotated + 1\<rparr> in
     bindE (succeeded_event ''account_security.password.admin_reset''
              (if require_change then ''temporary_password_set'' else ''permanent_password_set'') USER_ACTOR
              (Some (pr_user_id (c_principal ctx))) (Some (u_id target_user)) (c_audit_source ctx)
              (c_request_id ctx) (save_user row db)) (\<lambda>db'. Inr ((), db'))))"

text \<open>An \<open>RbacError\<close> of a phase is recorded as a denial and raised again.\<close>

definition recording_denial ::
    "others \<Rightarrow> nat \<Rightarrow> authorization_context \<Rightarrow> uuid \<Rightarrow> (world, 'a) proc \<Rightarrow> (world, 'a) proc" where
  "recording_denial others i ctx target_user_id m =
     handleP m (\<lambda>e.
       case e of
         Rbac error \<Rightarrow>
           bindP (meanwhile others i) (\<lambda>_.
           bindP (in_db (write_client_denial error ''account_security.password.admin_reset''
             (pr_user_id (c_principal ctx)) target_user_id (c_audit_source ctx) (c_request_id ctx))) (\<lambda>_.
             raiseP e))
       | _ \<Rightarrow> raiseP e)"

definition reset_user_password ::
    "password_libs \<Rightarrow> unicode_db \<Rightarrow> others \<Rightarrow> authorization_context \<Rightarrow> string \<Rightarrow> int \<Rightarrow> uuid \<Rightarrow> pystr \<Rightarrow> bool \<Rightarrow>
     (world, bool) proc" where
  "reset_user_password libs uc others ctx salt now target_user_id new_password temporary =
     bindP (recording_denial others 0 ctx target_user_id
              (in_db (transaction (\<lambda>db.
                 bindE (lock_authorized_reset_target ctx target_user_id db) (\<lambda>u. Inr (u, db)))))) (\<lambda>target_user.
     bindP (liftP (policy_checked (hash_new_password libs uc salt new_password
              (filter (\<lambda>v. v \<noteq> []) [u_user_name target_user])))) (\<lambda>new_hash.
     bindP (meanwhile others 1) (\<lambda>_.
     bindP (recording_denial others 2 ctx target_user_id
              (in_db (transaction (reset_password_body uc ctx now target_user_id new_password temporary new_hash)))) (\<lambda>_.
       returnP True))))"

definition verify_temporary_snapshot ::
    "password_libs \<Rightarrow> pystr \<Rightarrow> pystr \<Rightarrow> (world, password_snapshot option) proc" where
  "verify_temporary_snapshot libs user_name password =
     bindP (in_db (readP (load_snapshot_by_user_name user_name))) (\<lambda>found.
     bindP (liftP (verify_password libs password (snapshot_hash found))) (\<lambda>verified.
     case found of
       None \<Rightarrow> returnP None
     | Some snapshot \<Rightarrow>
         if \<not> verified \<or> \<not> usable_snapshot True snapshot then returnP None
         else returnP (Some snapshot)))"

definition complete_reset_body ::
    "int \<Rightarrow> password_snapshot \<Rightarrow> string \<Rightarrow> string \<Rightarrow> database \<Rightarrow> failure + unit \<times> database" where
  "complete_reset_body now snapshot new_hash request_id db =
     bindE (lock_rbac_state db) (\<lambda>_.
     case map_of (lock_users db {ps_user_id snapshot}) (ps_user_id snapshot) of
       None \<Rightarrow> Inl Invalid_login_credentials
     | Some user \<Rightarrow>
         if \<not> u_is_active user \<or> \<not> same_identity user snapshot then Inl Invalid_login_credentials
         else if \<not> same_login_user_state user snapshot \<or> \<not> same_password_state user snapshot
         then Inl Invalid_login_credentials
         else if \<not> u_must_change_password user then Inl Invalid_login_credentials
         else
         let rotated = rotate_password now new_hash False user;
             row = rotated\<lparr>u_token_version := u_token_version rotated + 1\<rparr> in
         bindE (succeeded_event ''account_security.password.reset_completed'' ''temporary_password_completed''
                  USER_ACTOR (Some (u_id user)) (Some (u_id user)) HTTP request_id (save_user row db)) (\<lambda>db'.
           Inr ((), db')))"

definition complete_password_reset ::
    "password_libs \<Rightarrow> platform \<Rightarrow> others \<Rightarrow> abuse_flow option \<Rightarrow> pystr \<Rightarrow> string \<Rightarrow> int \<Rightarrow> pystr \<Rightarrow> pystr \<Rightarrow> pystr \<Rightarrow>
     string \<Rightarrow> (world, bool) proc" where
  "complete_password_reset libs pf others flow client_ip salt now user_name temporary_password new_password request_id =
     (if temporary_password = new_password then raiseP (Rbac (invalid_request ''new_password_must_differ''))
      else
      bindP (let verify_temporary = verify_temporary_snapshot libs user_name temporary_password in
             case flow of
               None \<Rightarrow> valid_credentials verify_temporary
             | Some f \<Rightarrow> flow_complete_temporary_password_reset pf f client_ip verify_temporary) (\<lambda>snapshot.
      bindP (liftP (policy_checked (hash_new_password libs (pf_unicode pf) salt new_password (identity_values snapshot)))) (\<lambda>new_hash.
      bindP (meanwhile others 0) (\<lambda>_.
      bindP (in_db (transaction (complete_reset_body now snapshot new_hash request_id))) (\<lambda>_. returnP True)))))"

definition operator_reset_body ::
    "unicode_db \<Rightarrow> int \<Rightarrow> uuid \<Rightarrow> pystr \<Rightarrow> string \<Rightarrow> string \<Rightarrow> database \<Rightarrow> failure + unit \<times> database" where
  "operator_reset_body uc now user_id temporary_password temporary_hash request_id db =
     bindE (lock_rbac_state db) (\<lambda>_.
     case map_of (lock_users db {user_id}) user_id of
       None \<Rightarrow> Inl (Rbac (not_found ''user_not_found''))
     | Some user \<Rightarrow>
         if \<not> u_is_active user then Inl (Rbac (not_found ''user_not_found''))
         else
         bindE (raise_unless (load_live_super_admin_holder_ids db = {user_id})
                  (Rbac (conflict ''operator_reset_requires_sole_super_admin''))) (\<lambda>_.
         bindE (load_authority_snapshot db user_id True) (\<lambda>authority.
         bindE (raise_unless (a_is_super_admin authority)
                  (Rbac (forbidden ''operator_reset_requires_super_admin''))) (\<lambda>_.
         bindE (policy_checked (validate_new_password uc temporary_password [u_user_name user])) (\<lambda>_.
         let rotated = rotate_password now temporary_hash True user;
             row = rotated\<lparr>u_token_version := u_token_version rotated + 1\<rparr> in
         bindE (succeeded_event ''account_security.password.operator_reset'' ''operator_temporary_password_set''
                  OPERATOR_ACTOR None (Some (u_id user)) OPERATOR request_id (save_user row db)) (\<lambda>db'.
           Inr ((), db')))))))"

definition operator_reset_super_admin_password ::
    "password_libs \<Rightarrow> unicode_db \<Rightarrow> others \<Rightarrow> string \<Rightarrow> int \<Rightarrow> uuid \<Rightarrow> pystr \<Rightarrow> string \<Rightarrow> (world, bool) proc" where
  "operator_reset_super_admin_password libs uc others salt now user_id temporary_password request_id =
     bindP (liftP (policy_checked (hash_new_password libs uc salt temporary_password []))) (\<lambda>temporary_hash.
     bindP (meanwhile others 0) (\<lambda>_.
     bindP (in_db (transaction (operator_reset_body uc now user_id temporary_password temporary_hash request_id))) (\<lambda>_.
       returnP True)))"

end
