(* ===== verification/Account_Laws.thy ===== *)
theory Account_Laws
  imports Authentication Access_Laws System
begin

text \<open>
  The transactions of the authentication service on the tables: each changes them soundly, so
  no constraint of the schema ever stops one of them, and its effect on the row of the account
  is stated once. Argon2 is assumed to produce hashes of the shape the schema asks for that
  verify exactly the password they were made from.
\<close>

definition argon2_ok :: "password_libs \<Rightarrow> bool" where
  "argon2_ok libs \<longleftrightarrow>
     (\<forall>salt password.
        fullmatch PASSWORD_HASH_RE (lit (pl_hash libs password_hasher salt password)) \<and>
        pl_parameters libs (pl_hash libs password_hasher salt password) = Some password_hasher \<and>
        \<not> pl_needs_rehash libs password_hasher (pl_hash libs password_hasher salt password) \<and>
        (\<forall>tried. pl_verify libs (pl_hash libs password_hasher salt password) tried =
           (if tried = password then Verified else Mismatch)))"

lemma argon2_shape: "argon2_ok libs \<Longrightarrow> fullmatch PASSWORD_HASH_RE (lit (pl_hash libs password_hasher salt p))"
  by (simp add: argon2_ok_def)

lemma argon2_verify:
  "argon2_ok libs \<Longrightarrow> pl_verify libs (pl_hash libs password_hasher salt p) q = (if q = p then Verified else Mismatch)"
  by (simp add: argon2_ok_def)

subsection \<open>Account events\<close>

lemma sound_add_account_event:
  "wf db \<Longrightarrow> account_audit_checks e \<Longrightarrow> sound_step db (add_account_event e db)"
  by (auto simp: sound_step_def add_account_event_def wf_def keys_ok_def names_ok_def references_ok_def
      actors_ok_def rows_ok_def state_ok_def audit_ok_def subjects_ok_def max_ten_live_def
      live_assignments_def has_base_role_def super_admin_holders_def super_admin_assignments_def
      evolves_def system_grants_def row_user_ids_def)

lemma new_account_event_Inr:
  "new_account_event action outcome reason actor_type actor target source request_id = Inr e \<longleftrightarrow>
     20 \<le> length action \<and> length action \<le> 120 \<and> fullmatch ACCOUNT_SECURITY_ACTION_RE (lit action) \<and>
     reason_code_format reason \<and> request_id_format request_id \<and>
     e = \<lparr>ae_action = action, ae_outcome = outcome, ae_reason_code = reason,
          ae_actor_type = actor_type, ae_actor_user_id = actor, ae_target_user_id = target,
          ae_source = source, ae_schema_version = 1, ae_request_id = request_id\<rparr>"
  by (auto simp: new_account_event_def bindE_Inr validate_account_action_def validate_audit_reason_def
      validate_audit_request_id_def reason_code_format_def request_id_format_def if_Inl_eq_Inr)

text \<open>A success is recorded: the event of the action is the last of the log.\<close>

definition recorded :: "string \<Rightarrow> string \<Rightarrow> uuid option \<Rightarrow> uuid option \<Rightarrow> database \<Rightarrow> database \<Rightarrow> bool" where
  "recorded action reason actor target db db' \<longleftrightarrow>
     (\<exists>e. db' = add_account_event e db \<and> account_audit_checks e \<and> ae_action e = action \<and>
        ae_outcome e = SUCCEEDED \<and> ae_reason_code e = reason \<and> ae_actor_user_id e = actor \<and>
        ae_target_user_id e = target)"

lemma succeeded_event_Inr:
  assumes "succeeded_event action reason actor_type actor target source request_id db = Inr db'"
    and "actor_type = USER_ACTOR \<longleftrightarrow> actor \<noteq> None"
  shows "recorded action reason actor target db db'"
  using assms
  by (auto simp: succeeded_event_def bindE_Inr new_account_event_Inr recorded_def account_audit_checks_def)

lemma recorded_sound: "sound_step a b \<Longrightarrow> recorded action reason actor target b c \<Longrightarrow> sound_step a c"
  using sound_step_trans sound_add_account_event sound_step_wf unfolding recorded_def by blast

lemma recorded_tables:
  "recorded action reason actor target db db' \<Longrightarrow>
     db_users db' = db_users db \<and> db_roles db' = db_roles db \<and> db_user_roles db' = db_user_roles db \<and>
     db_role_permissions db' = db_role_permissions db \<and> db_permissions db' = db_permissions db \<and>
     db_state db' = db_state db \<and> db_rbac_audit db' = db_rbac_audit db"
  by (auto simp: recorded_def add_account_event_def)

subsection \<open>A new password\<close>

definition hash_shape :: "string \<Rightarrow> bool" where
  "hash_shape h \<longleftrightarrow> fullmatch PASSWORD_HASH_RE (lit h)"

lemma user_step_rotated [simp]:
  "user_step u (rotate_password now h m u)"
  "user_step u ((rotate_password now h m u)\<lparr>u_token_version := u_token_version u + 1\<rparr>)"
  "user_step u (u\<lparr>u_password_hash := p\<rparr>)"
  by (simp_all add: user_step_def rotate_password_def)

lemma user_checks_rotated:
  "user_checks u \<Longrightarrow> live_user u \<Longrightarrow> hash_shape h \<Longrightarrow>
     user_checks ((rotate_password now h m u)\<lparr>u_token_version := u_token_version u + 1\<rparr>) \<and>
     user_checks (rotate_password now h m u)"
  by (simp add: user_checks_def rotate_password_def hash_shape_def)

lemma user_checks_rehashed:
  "user_checks u \<Longrightarrow> live_user u \<Longrightarrow> hash_shape h \<Longrightarrow> u_password_hash u \<noteq> None \<Longrightarrow>
     user_checks (u\<lparr>u_password_hash := Some h\<rparr>)"
  by (simp add: user_checks_def hash_shape_def)

lemma rotate_fields [simp]:
  "u_id (rotate_password now h m u) = u_id u" "u_token_version (rotate_password now h m u) = u_token_version u"
  "u_user_name (rotate_password now h m u) = u_user_name u"
  by (simp_all add: rotate_password_def)

definition password_set :: "int \<Rightarrow> string \<Rightarrow> bool \<Rightarrow> user \<Rightarrow> database \<Rightarrow> database" where
  "password_set now h m u db =
     save_user ((rotate_password now h m u)\<lparr>u_token_version := u_token_version u + 1\<rparr>) db"

lemma sound_password_set:
  assumes "wf db" "u \<in> set (db_users db)" "live_user u" "hash_shape h"
  shows "sound_step db (password_set now h m u db)"
  unfolding password_set_def
  using user_checks_rotated [OF wf_user_checks [OF assms(1,2)] assms(3,4)]
  by (intro sound_save_user [OF assms(1,2)]) simp_all

lemma lock_one_user:
  "wf db \<Longrightarrow> map_of (lock_users db {i}) i = Some u \<longleftrightarrow> u \<in> set (db_users db) \<and> u_id u = i \<and> live_user u"
  by (simp add: lock_users_lookup)


subsection \<open>A new user\<close>

definition with_user :: "user \<Rightarrow> user_role \<Rightarrow> database \<Rightarrow> database" where
  "with_user u ur db = db\<lparr>db_users := db_users db @ [u], db_user_roles := db_user_roles db @ [ur]\<rparr>"

lemma with_user_fields [simp]:
  "db_users (with_user u ur db) = db_users db @ [u]"
  "db_user_roles (with_user u ur db) = db_user_roles db @ [ur]"
  "db_roles (with_user u ur db) = db_roles db" "db_permissions (with_user u ur db) = db_permissions db"
  "db_role_permissions (with_user u ur db) = db_role_permissions db"
  "db_state (with_user u ur db) = db_state db" "db_rbac_audit (with_user u ur db) = db_rbac_audit db"
  "db_account_audit (with_user u ur db) = db_account_audit db"
  by (simp_all add: with_user_def)

lemma keyed_with_user [simp]: "keyed (with_user u ur db) k i = keyed db k i"
  by (simp add: keyed_def)

lemma keyed_role_key: "wf db \<Longrightarrow> r \<in> set (db_roles db) \<Longrightarrow> keyed db k (r_id r) \<longleftrightarrow> r_key r = k \<and> live_role r"
  by (auto simp: keyed_def list_ex_iff dest: wf_same_role)

lemma no_rows_of_fresh_user:
  "wf db \<Longrightarrow> i \<notin> u_id ` set (db_users db) \<Longrightarrow> ur \<in> set (db_user_roles db) \<Longrightarrow> ur_user_id ur \<noteq> i"
  by (auto simp: wf_def references_ok_def list_all_iff)

lemma wf_with_user:
  assumes "wf db" "user_checks u" "u_id u \<notin> u_id ` set (db_users db)"
    and "u_user_name u \<notin> u_user_name ` set (db_users db)" "u_deleted_by_user_id u = None"
    and "r \<in> set (db_roles db)" "r_key r = ''user''" "live_role r"
    and "set_option by_user \<subseteq> u_id ` set (db_users db)"
  shows "wf (with_user u \<lparr>ur_user_id = u_id u, ur_role_id = r_id r, ur_assigned_by_user_id = by_user,
    ur_deleted_at = None, ur_deleted_by_user_id = None\<rparr> db)" (is "wf (with_user u ?ur db)")
proof -
  let ?new = "with_user u ?ur db"
  have wfs: "keys_ok db" "names_ok db" "references_ok db" "actors_ok db" "rows_ok db"
    "state_ok db" "audit_ok db" "length (super_admin_holders db) = 1"
    using \<open>wf db\<close> by (simp_all add: wf_def)
  note fresh = no_rows_of_fresh_user [OF assms(1,3)]
  have "(u_id u, r_id r) \<notin> set (live_pairs_ur (db_user_roles db))"
    by (auto simp: live_pairs_ur_def dest: fresh)
  then have "keys_ok ?new"
    using wfs(1) assms(3) by (simp add: keys_ok_def) (simp add: live_pairs_ur_def)
  moreover have "names_ok ?new"
    using wfs(2) assms(4) by (simp add: names_ok_def)
  moreover have "references_ok ?new"
    using wfs(3) assms(6) by (auto simp: references_ok_def list_all_iff)
  moreover have "actors_ok ?new"
    using wfs(4) assms(5,9) by (simp add: actors_ok_def Let_def list_all_iff) blast
  moreover have "rows_ok ?new"
    using wfs(5) assms(2) by (simp add: rows_ok_def user_role_checks_def)
  moreover have "state_ok ?new" "audit_ok ?new"
    using wfs by (simp_all add: state_ok_def audit_ok_def)
  moreover have "subjects_ok ?new"
  proof (rule subjects_okI)
    fix uid
    show "max_ten_live ?new uid"
    proof (cases "uid = u_id u")
      case True
      then have "live_assignments db uid = []"
        by (auto simp: live_assignments_def filter_empty_conv dest: fresh)
      then show ?thesis
        by (simp add: max_ten_live_def live_assignments_def MAX_ROLES_PER_USER_def)
    next
      case False
      then show ?thesis
        using max_ten_live_wf [OF assms(1), of uid] by (simp add: max_ten_live_def live_assignments_def)
    qed
    show "has_base_role ?new uid"
      using has_base_role_wf [OF assms(1), of uid] keyed_role_key [OF assms(1,6)] assms(7,8)
      by (auto simp: has_base_role_keyed)
  qed
  moreover have "length (super_admin_holders ?new) = 1"
    using wfs(8) assms(7) by (simp add: super_admin_holders_keyed keyed_role_key [OF assms(1,6)])
  ultimately show ?thesis
    by (simp add: wf_def)
qed

lemma sound_with_user:
  assumes "wf db" "wf (with_user u ur db)" "\<not> keyed db ''super_admin'' (ur_role_id ur)"
  shows "sound_step db (with_user u ur db)"
  using assms by (simp add: sound_step_def evolves_def system_grants_def super_admin_holders_keyed)


text \<open>What \<open>create_user_with_default_role\<close> leaves: a user whose only role is the base role.\<close>

definition provisioned :: "uuid option \<Rightarrow> user \<Rightarrow> database \<Rightarrow> database \<Rightarrow> bool" where
  "provisioned by_user u db db' \<longleftrightarrow>
     (\<exists>r e s. r \<in> set (db_roles db) \<and> r_key r = ''user'' \<and> live_role r \<and> db_state db = Some s \<and>
        u_id u \<notin> u_id ` set (db_users db) \<and> u_user_name u \<notin> u_user_name ` set (db_users db) \<and>
        fullmatch USER_NAME_RE (u_user_name u) \<and> u = new_user (u_id u) (u_user_name u) \<and>
        set_option by_user \<subseteq> u_id ` set (db_users db) \<and> rbac_audit_checks e \<and>
        db' = add_rbac_event e (save_state (next_epoch s) (with_user u
          \<lparr>ur_user_id = u_id u, ur_role_id = r_id r, ur_assigned_by_user_id = by_user,
           ur_deleted_at = None, ur_deleted_by_user_id = None\<rparr> db)))"

lemma new_user_fields [simp]:
  "u_id (new_user i n) = i" "u_user_name (new_user i n) = n" "u_deleted_at (new_user i n) = None"
  "u_deleted_by_user_id (new_user i n) = None" "u_is_active (new_user i n)"
  by (simp_all add: new_user_def)

lemma new_user_checks: "fullmatch USER_NAME_RE n \<Longrightarrow> user_checks (new_user i n)"
  by (simp add: user_checks_def new_user_def)

lemma normalize_identity_Inr:
  "normalize_identity uc (Some v) = Inr n \<longleftrightarrow>
     n = strip v \<and> fullmatch USER_NAME_RE n \<and> uc_casefold uc n \<notin> set RESERVED_USER_NAMES"
  by (auto simp: normalize_identity_def Let_def if_Inl_eq_Inr)

lemma system_role_value_user: "system_role_value USER = ''user''"
  by simp

lemma default_role_row_Inr:
  assumes "default_role_row db = Inr r"
  shows "r \<in> set (db_roles db) \<and> live_role r \<and> (distinct (map r_id (db_roles db)) \<longrightarrow> r_key r = ''user'')"
proof -
  obtain f where f: "find (\<lambda>r. r_key r = system_role_value USER) (db_roles db) = Some f"
    and r: "map_of (lock_roles db {r_id f}) (r_id f) = Some r" "default_role_contract r"
    using assms by (auto simp: default_role_row_def split: option.splits if_splits)
  have "r \<in> set (db_roles db)" "r_id r = r_id f" "live_role r"
    using map_of_SomeD [OF r(1)] by (auto simp: lock_roles_def)
  moreover have "f \<in> set (db_roles db)" "r_key f = ''user''"
    using find_SomeD [OF f] by simp_all
  ultimately show ?thesis
    by (auto simp: distinct_map dest: inj_onD)
qed

lemma new_rbac_event_checks:
  assumes "new_rbac_audit_event uc actor tu tr action decision reason (audit_source_value s) before after request_id = Inr e"
    and "decision = ''allowed'' \<or> decision = ''denied''" "state_storable before" "state_storable after"
  shows "rbac_audit_checks e"
proof -
  let ?ctx = "\<lparr>c_principal = \<lparr>pr_user_id = actor, pr_token_version = 0, pr_token_id = actor,
      pr_issued_at = 0, pr_expires_at = 0\<rparr>, c_authorization_epoch = 0,
      c_authority = build actor True False 0 0 [], c_request_id = request_id, c_audit_source = s\<rparr>"
  have "audit_event uc ?ctx action decision reason tu tr before after = Inr e"
    using assms(1) by (simp add: audit_event_def)
  then show ?thesis
    using assms(2-4) by (rule audit_event_checks)
qed

lemma create_user_Inr:
  assumes "wf db"
    and "create_user_with_default_role uc drawn name given by_user request_id db = Inr (u, db')"
  shows "provisioned by_user u db db' \<and> u_user_name u = strip name \<and>
     uc_casefold uc (strip name) \<notin> set RESERVED_USER_NAMES"
proof -
  obtain n i s v r e where n: "normalize_identity uc (Some name) = Inr n"
    and i: "new_user_id given drawn = Inr i" and s: "lock_rbac_state db = Inr s"
    and assigner: "(case by_user of None \<Rightarrow> Inr ()
            | Some a \<Rightarrow> raise_unless (a \<in> fst ` set (lock_users db {a}))
                          (Rbac (not_found ''provisioning_actor_not_found''))) = Inr v"
    and new: "\<not> list_ex (\<lambda>u. u_id u = i \<or> u_user_name u = n) (db_users db)"
    and r: "default_role_row (db\<lparr>db_users := db_users db @ [new_user i n]\<rparr>) = Inr r"
    and e: "new_rbac_audit_event uc (case by_user of Some a \<Rightarrow> a | None \<Rightarrow> u_id (new_user i n))
      (Some (u_id (new_user i n))) (Some (r_id r)) ''user.provision'' ''allowed'' ''default_user_role_assigned''
      (audit_source_value SERVICE) None (Some (provision_payload (new_user i n) r)) request_id = Inr e"
    and res: "(new_user i n, add_rbac_event e (save_state (next_epoch s) (db\<lparr>db_users := db_users db @ [new_user i n],
       db_user_roles := db_user_roles (db\<lparr>db_users := db_users db @ [new_user i n]\<rparr>) @
         [\<lparr>ur_user_id = u_id (new_user i n), ur_role_id = r_id r, ur_assigned_by_user_id = by_user,
           ur_deleted_at = None, ur_deleted_by_user_id = None\<rparr>]\<rparr>))) = (u, db')"
    using assms(2) unfolding create_user_with_default_role_def Let_def bindE_Inr raise_unless_Inr
      sum.inject(2) by blast
  have u: "u = new_user i n" and db': "db' = add_rbac_event e (save_state (next_epoch s) (with_user u
          \<lparr>ur_user_id = i, ur_role_id = r_id r, ur_assigned_by_user_id = by_user,
           ur_deleted_at = None, ur_deleted_by_user_id = None\<rparr> db))"
    using res by (auto simp: with_user_def)
  have "r \<in> set (db_roles db)" "live_role r" "r_key r = ''user''"
    using default_role_row_Inr [OF r] assms(1) by (simp_all add: wf_def keys_ok_def)
  moreover have "set_option by_user \<subseteq> u_id ` set (db_users db)"
    using assigner by (auto simp: raise_unless_Inr lock_users_def split: option.splits)
  moreover have "rbac_audit_checks e"
    by (rule new_rbac_event_checks [OF e]) (simp_all add: provision_payload_def value_storable_obj)
  ultimately have "provisioned by_user u db db'"
    unfolding provisioned_def using n s new u db'
    by (intro exI [of _ r] exI [of _ e] exI [of _ s])
       (auto simp: normalize_identity_Inr lock_rbac_state_Inr list_ex_iff)
  then show ?thesis
    using n u by (auto simp: normalize_identity_Inr)
qed

lemma provisioned_sound:
  assumes "wf db" "provisioned by_user u db db'"
  shows "sound_step db db'"
proof -
  obtain r e s where r: "r \<in> set (db_roles db)" "r_key r = ''user''" "live_role r"
    and s: "db_state db = Some s"
    and u: "u_id u \<notin> u_id ` set (db_users db)" "u_user_name u \<notin> u_user_name ` set (db_users db)"
      "fullmatch USER_NAME_RE (u_user_name u)" "u = new_user (u_id u) (u_user_name u)"
    and assigner: "set_option by_user \<subseteq> u_id ` set (db_users db)" and e: "rbac_audit_checks e"
    and db': "db' = add_rbac_event e (save_state (next_epoch s) (with_user u
          \<lparr>ur_user_id = u_id u, ur_role_id = r_id r, ur_assigned_by_user_id = by_user,
           ur_deleted_at = None, ur_deleted_by_user_id = None\<rparr> db))"
    using assms(2) unfolding provisioned_def by blast
  let ?new = "with_user u \<lparr>ur_user_id = u_id u, ur_role_id = r_id r, ur_assigned_by_user_id = by_user,
           ur_deleted_at = None, ur_deleted_by_user_id = None\<rparr> db"
  have checks: "user_checks u" "u_deleted_by_user_id u = None"
    by (metis u(3,4) new_user_checks, metis u(4) new_user_fields(4))
  have "wf ?new"
    by (rule wf_with_user [OF assms(1) checks(1) u(1,2) checks(2) r assigner])
  then have "sound_step db ?new"
    by (rule sound_with_user [OF assms(1)]) (simp add: keyed_role_key [OF assms(1) r(1)] r(2))
  moreover have "sound_step ?new (save_state (next_epoch s) ?new)"
    by (rule sound_next_epoch [OF \<open>wf ?new\<close>]) (simp add: s)
  ultimately show ?thesis
    unfolding db' using sound_step_trans sound_step_wf sound_add_event [OF _ e] by blast
qed


text \<open>A provisioned user that gets its first password.\<close>

lemma sound_first_password:
  assumes "wf db" "provisioned by_user u db db'" "hash_shape h"
  shows "sound_step db (save_user (rotate_password now h m u) db')" and "live_user u" "u \<in> set (db_users db')"
proof -
  have step: "sound_step db db'"
    by (rule provisioned_sound [OF assms(1,2)])
  show u: "u \<in> set (db_users db')"
    using assms(2) by (auto simp: provisioned_def add_rbac_event_def save_state_def)
  show "live_user u"
    using assms(2) unfolding provisioned_def by (metis new_user_fields(3))
  then have "sound_step db' (save_user (rotate_password now h m u) db')"
    using user_checks_rotated [OF wf_user_checks [OF sound_step_wf [OF step] u] _ assms(3)]
    by (intro sound_save_user [OF sound_step_wf [OF step] u]) simp_all
  with step show "sound_step db (save_user (rotate_password now h m u) db')"
    by (rule sound_step_trans)
qed

subsection \<open>The effect of each transaction\<close>

lemma policy_checked_Inr: "policy_checked m = Inr x \<longleftrightarrow> m = Inr x"
  by (auto simp: policy_checked_def split: sum.splits failure.splits)

lemma validate_new_password_same: "validate_new_password uc p ids = Inr x \<Longrightarrow> x = p"
  by (auto simp: validate_new_password_def bindE_Inr Let_def if_Inl_eq_Inr)

lemma hash_new_password_Inr:
  "hash_new_password libs uc salt p ids = Inr h \<longleftrightarrow>
     \<not> isl (validate_new_password uc p ids) \<and> h = pl_hash libs password_hasher salt p"
  by (cases "validate_new_password uc p ids")
     (auto simp: hash_new_password_def dest: validate_new_password_same)

definition authorized_reset ::
    "database \<Rightarrow> authorization_context \<Rightarrow> user \<Rightarrow> user \<Rightarrow> bool" where
  "authorized_reset db ctx au tu \<longleftrightarrow>
     current_actor db ctx au \<and> tu \<in> set (db_users db) \<and> live_user tu \<and>
     permission_value USERS_PASSWORD_RESET \<in> a_permissions (authority_spec db False au) \<and>
     dominates (authority_spec db False au) (authority_spec db True tu)"

lemma authorized_reset_target:
  assumes "wf db" "lock_authorized_reset_target ctx t db = Inr u"
  shows "u_id u = t \<and> (\<exists>au. authorized_reset db ctx au u)"
proof -
  let ?a = "pr_user_id (c_principal ctx)"
  obtain actor target where actor: "require_current_actor db ?a (pr_token_version (c_principal ctx)) = Inr actor"
    and permitted: "permission_value USERS_PASSWORD_RESET \<in> a_permissions actor"
    and row: "map_of (lock_users db {?a, t}) t = Some u"
    and target: "load_authority_snapshot db t True = Inr target"
    and decision: "allowed (decide_user_password_reset actor target)"
    using assms(2) unfolding lock_authorized_reset_target_def Let_def
    by (elim res_elims) (simp add: raise_unless_Inr)
  have u: "u \<in> set (db_users db)" "u_id u = t" "live_user u"
    using row by (simp_all add: lock_users_lookup [OF assms(1)])
  obtain au where au: "current_actor db ctx au" "actor = authority_spec db False au"
    using actor by (auto simp: require_current_actor_Inr [OF assms(1)])
  have only: "v = u" if "v \<in> set (db_users db)" "u_id v = t" for v
    using wf_same_user [OF assms(1) that(1) u(1)] that(2) u(2) by simp
  have "target = authority_spec db True u"
    using target only unfolding load_authority_snapshot_Inr [OF assms(1)] by blast
  then have "dominates (authority_spec db False au) (authority_spec db True u)"
    using decision au(2) by (auto simp: user_decision_defs decide_user_administration_allowed)
  then show ?thesis
    using u au permitted by (auto simp: authorized_reset_def)
qed

lemma change_password_body_Inr:
  assumes "change_password_body ctx now snapshot h db = Inr ((), db')"
  shows "\<exists>u. u \<in> set (db_users db) \<and> live_user u \<and> u_id u = pr_user_id (c_principal ctx) \<and> u_is_active u \<and>
     u_token_version u = pr_token_version (c_principal ctx) \<and> same_identity u snapshot \<and>
     same_password_state u snapshot \<and>
     recorded ''account_security.password.changed'' ''password_changed'' (Some (u_id u)) (Some (u_id u))
       (password_set now h False u db) db'"
proof -
  let ?me = "pr_user_id (c_principal ctx)"
  obtain u where row: "map_of (lock_users db {?me}) ?me = Some u"
    and u: "u_is_active u" "u_token_version u = pr_token_version (c_principal ctx)" "same_identity u snapshot"
      "same_password_state u snapshot"
    and e: "succeeded_event ''account_security.password.changed'' ''password_changed'' USER_ACTOR
         (Some (u_id u)) (Some (u_id u)) (c_audit_source ctx) (c_request_id ctx) (password_set now h False u db) = Inr db'"
    using assms unfolding change_password_body_def Let_def password_set_def
    by (auto simp: bindE_Inr split: option.splits if_splits)
  have "u \<in> set (db_users db)" "live_user u" "u_id u = ?me"
    using map_of_SomeD [OF row] by (auto simp: lock_users_def)
  then show ?thesis
    using u succeeded_event_Inr [OF e] by auto
qed

lemma reset_password_body_Inr:
  assumes "reset_password_body uc ctx now t p temporary h db = Inr ((), db')"
  shows "\<exists>u. lock_authorized_reset_target ctx t db = Inr u \<and>
     \<not> isl (validate_new_password uc p [u_user_name u]) \<and>
     recorded ''account_security.password.admin_reset''
       (if temporary then ''temporary_password_set'' else ''permanent_password_set'')
       (Some (pr_user_id (c_principal ctx))) (Some (u_id u)) (password_set now h temporary u db) db'"
  using assms unfolding reset_password_body_def Let_def password_set_def
  by (auto simp: bindE_Inr policy_checked_Inr dest!: succeeded_event_Inr)

lemma complete_reset_body_Inr:
  assumes "complete_reset_body now snapshot h request_id db = Inr ((), db')"
  shows "\<exists>u. u \<in> set (db_users db) \<and> live_user u \<and> u_is_active u \<and> u_must_change_password u \<and>
     same_login_user_state u snapshot \<and> same_password_state u snapshot \<and>
     recorded ''account_security.password.reset_completed'' ''temporary_password_completed''
       (Some (u_id u)) (Some (u_id u)) (password_set now h False u db) db'"
proof -
  obtain u where row: "map_of (lock_users db {ps_user_id snapshot}) (ps_user_id snapshot) = Some u"
    and u: "u_is_active u" "same_login_user_state u snapshot" "same_password_state u snapshot"
      "u_must_change_password u"
    and e: "succeeded_event ''account_security.password.reset_completed'' ''temporary_password_completed'' USER_ACTOR
         (Some (u_id u)) (Some (u_id u)) HTTP request_id (password_set now h False u db) = Inr db'"
    using assms unfolding complete_reset_body_def Let_def password_set_def
    by (auto simp: bindE_Inr split: option.splits if_splits)
  have "u \<in> set (db_users db)" "live_user u"
    using map_of_SomeD [OF row] by (auto simp: lock_users_def)
  then show ?thesis
    using u succeeded_event_Inr [OF e] by auto
qed

lemma operator_reset_body_Inr:
  assumes "operator_reset_body uc now i p h request_id db = Inr ((), db')"
  shows "\<exists>u. u \<in> set (db_users db) \<and> u_id u = i \<and> live_user u \<and> u_is_active u \<and>
     load_live_super_admin_holder_ids db = {i} \<and> \<not> isl (validate_new_password uc p [u_user_name u]) \<and>
     recorded ''account_security.password.operator_reset'' ''operator_temporary_password_set''
       None (Some (u_id u)) (password_set now h True u db) db'"
proof -
  obtain u where row: "map_of (lock_users db {i}) i = Some u"
    and u: "u_is_active u" "load_live_super_admin_holder_ids db = {i}"
      "\<not> isl (validate_new_password uc p [u_user_name u])"
    and e: "succeeded_event ''account_security.password.operator_reset'' ''operator_temporary_password_set''
         OPERATOR_ACTOR None (Some (u_id u)) OPERATOR request_id (password_set now h True u db) = Inr db'"
    using assms unfolding operator_reset_body_def Let_def password_set_def
    by (auto simp: bindE_Inr raise_unless_Inr policy_checked_Inr split: option.splits if_splits)
  have "u \<in> set (db_users db)" "u_id u = i" "live_user u"
    using map_of_SomeD [OF row] by (auto simp: lock_users_def)
  then show ?thesis
    using u succeeded_event_Inr [OF e] by auto
qed

lemma register_body_Inr:
  assumes "wf db" "register_body uc drawn now name h request_id db = Inr (i, db')"
  shows "\<exists>u s db1. provisioned None u db db1 \<and> i = u_id u \<and> u_user_name u = strip name \<and>
     db_state db = Some s \<and> st_public_registration_enabled s \<and>
     recorded ''account_security.registration.completed'' ''registration_completed'' None (Some (u_id u))
       (save_user (rotate_password now h False u) db1) db'"
  using assms(2) unfolding register_body_def
  by (auto simp: bindE_Inr raise_unless_Inr lock_rbac_state_Inr split: prod.splits
      dest!: succeeded_event_Inr create_user_Inr [OF assms(1)])

lemma create_user_body_Inr:
  assumes "wf db" "create_user_body uc ctx drawn now name h db = Inr (i, db')"
  shows "\<exists>u au db1. provisioned (Some (pr_user_id (c_principal ctx))) u db db1 \<and> i = u_id u \<and>
     u_user_name u = strip name \<and> current_actor db ctx au \<and>
     permission_value USERS_CREATE \<in> a_permissions (authority_spec db False au) \<and>
     recorded ''account_security.registration.admin_created'' ''temporary_password_set''
       (Some (pr_user_id (c_principal ctx))) (Some (u_id u))
       (save_user (rotate_password now h True u) db1) db'"
  using assms(2) unfolding create_user_body_def
  by (auto simp: bindE_Inr raise_unless_Inr require_current_actor_Inr [OF assms(1)] split: prod.splits
      dest!: succeeded_event_Inr create_user_Inr [OF assms(1)])

end
