(* ===== verification/Account_Operations.thy ===== *)
theory Account_Operations
  imports Account_Laws
begin

text \<open>
  The contract of a transaction of the authentication service as a locale, interpreted on each
  of them, and the operations of the service as sequences of such transactions: whatever other
  requests do in between, an operation changes the tables soundly and no constraint of the
  schema stops it.
\<close>

subsection \<open>Errors of the code itself\<close>

definition plain :: "failure + 'a \<Rightarrow> bool" where
  "plain m \<longleftrightarrow> (\<forall>n. m \<noteq> Inl (Integrity_error n))"

named_theorems plain_intros "computations that raise no constraint violation"

lemma plain_basic [simp]: "plain (Inr x)" "plain (Inl e) \<longleftrightarrow> (\<forall>n. e \<noteq> Integrity_error n)"
  by (simp_all add: plain_def)

lemma plain_bind [plain_intros]: "plain m \<Longrightarrow> (\<And>x. m = Inr x \<Longrightarrow> plain (f x)) \<Longrightarrow> plain (bindE m f)"
  by (cases m) (auto simp: plain_def bindE_def)

lemma plain_raise [plain_intros]: "plain (Inl e :: failure + unit) \<Longrightarrow> plain (raise_unless b e)"
  by (simp add: raise_unless_def)

lemma plain_if [plain_intros]: "(b \<Longrightarrow> plain m) \<Longrightarrow> (\<not> b \<Longrightarrow> plain k) \<Longrightarrow> plain (if b then m else k)"
  by simp

lemma plain_option [plain_intros]:
  "plain m \<Longrightarrow> (\<And>x. v = Some x \<Longrightarrow> plain (f x)) \<Longrightarrow> plain (case v of None \<Rightarrow> m | Some x \<Rightarrow> f x)"
  by (cases v) simp_all

lemma plain_Let [plain_intros]: "plain (f x) \<Longrightarrow> plain (Let x f)"
  by (simp add: Let_def)

lemma plain_prod [plain_intros]: "(\<And>a b. x = (a, b) \<Longrightarrow> plain (f a b)) \<Longrightarrow> plain (case x of (a, b) \<Rightarrow> f a b)"
  by (cases x) simp

lemma plain_business: "business_only m \<Longrightarrow> plain m"
  by (auto simp: business_only_def plain_def)

lemma plain_value: "value_only m \<Longrightarrow> plain m"
  by (auto simp: value_only_def plain_def)

lemma plain_lookups [plain_intros]:
  "plain (lock_rbac_state db)"
  "wf db \<Longrightarrow> plain (require_current_actor db i tv)"
  "wf db \<Longrightarrow> plain (load_authority_snapshot db i incl)"
  by (auto intro!: plain_business)

lemma plain_login_input [plain_intros]: "plain (validate_login_password_input p)"
  by (auto simp: validate_login_password_input_def split: sum.splits)

lemma plain_new_password [plain_intros]: "plain (validate_new_password uc p ids)"
  unfolding validate_new_password_def by (intro plain_intros) simp_all

lemma plain_policy_checked [plain_intros]: "plain m \<Longrightarrow> plain (policy_checked m)"
  by (auto simp: policy_checked_def plain_def split: sum.splits failure.splits)

lemma plain_hash [plain_intros]:
  "plain (hash_new_password libs uc salt p ids)" "plain (hash_verified_password libs salt p)"
  unfolding hash_new_password_def hash_verified_password_def by (intro plain_intros; simp)+

lemma plain_verify [plain_intros]: "plain (verify_or_dummy libs p h)"
  unfolding verify_or_dummy_def
  by (intro plain_intros; simp split: hash_check.split)

lemma plain_verify_details [plain_intros]: "plain (verify_password_details libs p h)" "plain (verify_password libs p h)"
proof -
  show "plain (verify_password_details libs p h)"
    using plain_verify [of libs p h]
    by (auto simp: verify_password_details_def plain_def split: sum.splits failure.splits)
  then show "plain (verify_password libs p h)"
    unfolding verify_password_def by (intro plain_intros; simp)
qed

lemma plain_validators [plain_intros]:
  "plain (validate_account_action a)" "plain (validate_audit_reason r)" "plain (validate_audit_request_id q)"
  by (auto simp: validate_account_action_def validate_audit_reason_def validate_audit_request_id_def)

lemma plain_events [plain_intros]:
  "plain (new_account_event a out r at ac tg s q)" "plain (succeeded_event a r at ac tg s q db)"
proof -
  show "plain (new_account_event a out r at ac tg s q)" for out
    unfolding new_account_event_def by (intro plain_intros; simp)
  then show "plain (succeeded_event a r at ac tg s q db)"
    unfolding succeeded_event_def by (intro plain_intros; simp)
qed

lemma plain_create_user [plain_intros]:
  "plain (create_user_with_default_role uc drawn name given by_user request_id db)"
proof -
  have "plain (normalize_identity uc v)" for v
    by (auto simp: normalize_identity_def Let_def split: option.splits)
  moreover have "plain (new_user_id given drawn)"
    by (auto simp: new_user_id_def Let_def)
  moreover have "plain (default_role_row d)" for d
    by (auto simp: default_role_row_def split: option.splits)
  moreover have "plain (new_rbac_audit_event uc a tu tr ac d r s b af q)" for a tu tr ac d r s b af q
    unfolding new_rbac_audit_event_def
    by (intro plain_intros plain_value [OF value_only_sanitize]; simp add: validate_audit_action_def)
  ultimately show ?thesis
    unfolding create_user_with_default_role_def by (intro plain_intros; simp)
qed


subsection \<open>The contract of a transaction\<close>

locale account_transaction =
  fixes body :: "'q \<Rightarrow> database \<Rightarrow> failure + 'a \<times> database"
    and admissible :: "'q \<Rightarrow> bool"
  assumes sound: "wf db \<Longrightarrow> admissible q \<Longrightarrow> body q db = Inr (x, db') \<Longrightarrow> sound_step db db'"
    and plain: "wf db \<Longrightarrow> plain (body q db)"
begin

text \<open>It commits what the body did, or nothing; no constraint has a say in it.\<close>

lemma commits:
  assumes "wf db" "admissible q"
  shows "transaction (body q) db =
     (case body q db of Inl e \<Rightarrow> (Inl e, db) | Inr (x, db') \<Rightarrow> (Inr x, db'))"
proof (cases "body q db")
  case (Inr r)
  obtain x db' where r: "body q db = Inr (x, db')"
    using Inr by (cases r) simp
  then show ?thesis
    using transaction_sound [where body = "body q", OF r sound [OF assms r]] by simp
qed (simp add: transaction_rolls_back)

lemma Inr_iff:
  "wf db \<Longrightarrow> admissible q \<Longrightarrow> transaction (body q) db = (Inr x, db') \<longleftrightarrow> body q db = Inr (x, db')"
  by (auto simp: commits split: sum.splits prod.splits)

lemma steps:
  assumes "wf db" "admissible q"
  shows "sound_step db (snd (transaction (body q) db))" and "plain (fst (transaction (body q) db))"
  using assms sound plain [OF assms(1), of q] sound_step_refl
  by (auto simp: commits plain_def split: sum.splits prod.splits)

end

lemma sound_user_saved:
  "wf db \<Longrightarrow> u \<in> set (db_users db) \<Longrightarrow> live_user u \<Longrightarrow> u_password_hash u \<noteq> None \<Longrightarrow> hash_shape h \<Longrightarrow>
     sound_step db (save_user (u\<lparr>u_password_hash := Some h\<rparr>) db)"
  using user_checks_rehashed wf_user_checks by (intro sound_save_user) auto

interpretation registration_setting: account_transaction
  "\<lambda>(ctx, enabled). set_registration_body ctx enabled" "\<lambda>_. True"
proof (unfold_locales, clarsimp)
  fix db :: database and db' ctx enabled
  assume "wf db" "set_registration_body ctx enabled db = Inr ((), db')"
  then obtain s where s: "db_state db = Some s"
    and "db' = db \<or> recorded ''account_security.registration.setting_updated'' ''registration_setting_updated''
      (Some (pr_user_id (c_principal ctx))) None (save_state (s\<lparr>st_public_registration_enabled := enabled\<rparr>) db) db'"
    unfolding set_registration_body_def
    by (auto simp: bindE_Inr raise_unless_Inr lock_rbac_state_Inr split: if_splits dest!: succeeded_event_Inr)
  then show "sound_step db db'"
    using \<open>wf db\<close> sound_step_refl recorded_sound sound_save_state [OF \<open>wf db\<close> s, of "s\<lparr>st_public_registration_enabled := enabled\<rparr>"]
    by auto
qed (auto simp: set_registration_body_def intro!: plain_intros)

interpretation registration: account_transaction
  "\<lambda>(uc, drawn, now, name, h, request_id). register_body uc drawn now name h request_id"
  "\<lambda>(uc, drawn, now, name, h, request_id). hash_shape h"
proof (unfold_locales, clarsimp)
  fix uc drawn now name h request_id i and db db' :: database
  assume "wf db" "hash_shape h" "register_body uc drawn now name h request_id db = Inr (i, db')"
  then show "sound_step db db'"
    using register_body_Inr recorded_sound sound_first_password(1) by meson
qed (auto simp: register_body_def intro!: plain_intros)

interpretation user_creation: account_transaction
  "\<lambda>(uc, ctx, drawn, now, name, h). create_user_body uc ctx drawn now name h"
  "\<lambda>(uc, ctx, drawn, now, name, h). hash_shape h"
proof (unfold_locales, clarsimp)
  fix uc ctx drawn now name h i and db db' :: database
  assume "wf db" "hash_shape h" "create_user_body uc ctx drawn now name h db = Inr (i, db')"
  then show "sound_step db db'"
    using create_user_body_Inr recorded_sound sound_first_password(1) by meson
qed (auto simp: create_user_body_def intro!: plain_intros)

interpretation denial: account_transaction
  "\<lambda>(action, reason, actor, tg, source, request_id). denied_event_body action reason actor tg source request_id"
  "\<lambda>_. True"
  by unfold_locales
    (auto simp: denied_event_body_def bindE_Inr new_account_event_Inr account_audit_checks_def
       intro!: sound_add_account_event plain_intros)

interpretation login: account_transaction
  "\<lambda>(temporary, s, replacement). login_body temporary s replacement"
  "\<lambda>(temporary, s, replacement). (\<forall>h. replacement = Some h \<longrightarrow> hash_shape h) \<and> ps_password_hash s \<noteq> None"
proof (unfold_locales, clarsimp)
  fix temporary s replacement x y and db db' :: database
  assume wf: "wf db" and h: "\<forall>h. replacement = Some h \<longrightarrow> hash_shape h"
    and s: "ps_password_hash s = Some y"
    and run: "login_body temporary s replacement db = Inr (x, db')"
  have "db' = db \<or> (\<exists>u h. map_of (lock_users db {ps_user_id s}) (ps_user_id s) = Some u \<and>
      u_password_hash u = ps_password_hash s \<and> replacement = Some h \<and>
      db' = save_user (u\<lparr>u_password_hash := Some h\<rparr>) db)"
    using run by (auto simp: login_body_def split: option.splits if_splits)
  then show "sound_step db db'"
    using wf h s by (auto simp: lock_one_user [OF wf] intro!: sound_step_refl sound_user_saved)
qed (auto simp: login_body_def split: option.splits)

interpretation login_again: account_transaction
  "\<lambda>(temporary, i, s). login_again_body temporary i s" "\<lambda>_. True"
  by unfold_locales (auto simp: login_again_body_def sound_step_refl split: option.splits if_splits)

interpretation password_change: account_transaction
  "\<lambda>(ctx, now, s, h). change_password_body ctx now s h" "\<lambda>(ctx, now, s, h). hash_shape h"
proof (unfold_locales, clarsimp)
  fix ctx now s h and db db' :: database
  assume "wf db" "hash_shape h" "change_password_body ctx now s h db = Inr ((), db')"
  then show "sound_step db db'"
    using change_password_body_Inr recorded_sound sound_password_set by meson
qed (auto simp: change_password_body_def intro!: plain_intros)

lemma plain_lock_reset [plain_intros]: "wf db \<Longrightarrow> plain (lock_authorized_reset_target ctx t db)"
  unfolding lock_authorized_reset_target_def by (intro plain_intros; simp)

interpretation reset_check: account_transaction
  "\<lambda>(ctx, t) db. bindE (lock_authorized_reset_target ctx t db) (\<lambda>u. Inr (u, db))" "\<lambda>_. True"
  by unfold_locales (auto simp: bindE_Inr sound_step_refl intro!: plain_intros)

interpretation password_reset: account_transaction
  "\<lambda>(uc, ctx, now, t, p, temporary, h). reset_password_body uc ctx now t p temporary h"
  "\<lambda>(uc, ctx, now, t, p, temporary, h). hash_shape h"
proof (unfold_locales, clarsimp)
  fix uc ctx now t p temporary h and db db' :: database
  assume "wf db" "hash_shape h" "reset_password_body uc ctx now t p temporary h db = Inr ((), db')"
  then show "sound_step db db'"
    using reset_password_body_Inr authorized_reset_target recorded_sound sound_password_set
    unfolding authorized_reset_def by meson
qed (auto simp: reset_password_body_def intro!: plain_intros)

interpretation reset_completion: account_transaction
  "\<lambda>(now, s, h, request_id). complete_reset_body now s h request_id" "\<lambda>(now, s, h, request_id). hash_shape h"
proof (unfold_locales, clarsimp)
  fix now s h request_id and db db' :: database
  assume "wf db" "hash_shape h" "complete_reset_body now s h request_id db = Inr ((), db')"
  then show "sound_step db db'"
    using complete_reset_body_Inr recorded_sound sound_password_set by meson
qed (auto simp: complete_reset_body_def intro!: plain_intros)

interpretation operator_reset: account_transaction
  "\<lambda>(uc, now, i, p, h, request_id). operator_reset_body uc now i p h request_id"
  "\<lambda>(uc, now, i, p, h, request_id). hash_shape h"
proof (unfold_locales, clarsimp)
  fix uc now i p h request_id and db db' :: database
  assume "wf db" "hash_shape h" "operator_reset_body uc now i p h request_id db = Inr ((), db')"
  then show "sound_step db db'"
    using operator_reset_body_Inr recorded_sound sound_password_set by meson
qed (auto simp: operator_reset_body_def intro!: plain_intros)

end
