(* ===== verification/Account_Interleaving.thy ===== *)
theory Account_Interleaving
  imports Account_Operations
begin

text \<open>
  The operations of the authentication service, run while other requests work on the same
  state: each changes the database soundly and is never stopped by a constraint of the schema.
\<close>

subsection \<open>Procedures that keep the installation sound\<close>

definition keeps_sound :: "(world, 'a) proc \<Rightarrow> bool" where
  "keeps_sound m \<longleftrightarrow>
     (\<forall>w. wf (w_db w) \<longrightarrow> sound_step (w_db w) (w_db (snd (m w))) \<and> plain (fst (m w)))"

definition sound_others :: "others \<Rightarrow> bool" where
  "sound_others others \<longleftrightarrow> (\<forall>i w. wf (w_db w) \<longrightarrow> sound_step (w_db w) (w_db (others i w)))"

definition sound_flow :: "abuse_flow option \<Rightarrow> bool" where
  "sound_flow flow \<longleftrightarrow>
     (\<forall>f check. flow = Some f \<longrightarrow> af_post_admission_check f = Some check \<longrightarrow> keeps_sound check)"

lemma keeps_soundI:
  "(\<And>w r w'. wf (w_db w) \<Longrightarrow> m w = (r, w') \<Longrightarrow> sound_step (w_db w) (w_db w') \<and> plain r) \<Longrightarrow> keeps_sound m"
  unfolding keeps_sound_def by (metis prod.collapse)

lemma keeps_soundD:
  "keeps_sound m \<Longrightarrow> wf (w_db w) \<Longrightarrow> m w = (r, w') \<Longrightarrow> sound_step (w_db w) (w_db w') \<and> plain r"
  by (metis keeps_sound_def fst_conv snd_conv)

named_theorems sound_intros "procedures that keep the installation sound"

lemma sound_return [sound_intros]: "keeps_sound (returnP x)"
  by (simp add: keeps_sound_def sound_step_refl)

lemma sound_raise [sound_intros]: "plain (Inl e :: failure + unit) \<Longrightarrow> keeps_sound (raiseP e)"
  by (simp add: keeps_sound_def sound_step_refl)

lemma sound_lift [sound_intros]: "plain m \<Longrightarrow> keeps_sound (liftP m)"
  by (simp add: keeps_sound_def sound_step_refl)

lemma sound_bind:
  assumes "keeps_sound m" "\<And>x w w'. m w = (Inr x, w') \<Longrightarrow> keeps_sound (f x)"
  shows "keeps_sound (bindP m f)"
proof (rule keeps_soundI)
  fix w r w' assume wf: "wf (w_db w)" and run: "bindP m f w = (r, w')"
  obtain q w1 where m: "m w = (q, w1)" by fastforce
  note step = keeps_soundD [OF assms(1) wf m]
  show "sound_step (w_db w) (w_db w') \<and> plain r"
  proof (cases q)
    case (Inl e)
    with step run m show ?thesis by (auto simp: plain_def)
  next
    case (Inr x)
    then have "f x w1 = (r, w')" "keeps_sound (f x)"
      using run m assms(2) by auto
    then show ?thesis
      using keeps_soundD [OF _ sound_step_wf] sound_step_trans step by blast
  qed
qed

lemma sound_handle:
  assumes "keeps_sound m" "\<And>e. plain (Inl e :: failure + unit) \<Longrightarrow> keeps_sound (h e)"
  shows "keeps_sound (handleP m h)"
proof (rule keeps_soundI)
  fix w r w' assume wf: "wf (w_db w)" and run: "handleP m h w = (r, w')"
  obtain q w1 where m: "m w = (q, w1)" by fastforce
  note step = keeps_soundD [OF assms(1) wf m]
  show "sound_step (w_db w) (w_db w') \<and> plain r"
  proof (cases q)
    case (Inr x)
    with step run m show ?thesis by auto
  next
    case (Inl e)
    then have "h e w1 = (r, w')" "keeps_sound (h e)"
      using run m assms(2) step by (auto simp: plain_def)
    then show ?thesis
      using keeps_soundD [OF _ sound_step_wf] sound_step_trans step by blast
  qed
qed

lemma sound_cases [sound_intros]:
  "(b \<Longrightarrow> keeps_sound m) \<Longrightarrow> (\<not> b \<Longrightarrow> keeps_sound k) \<Longrightarrow> keeps_sound (if b then m else k)"
  "(v = None \<Longrightarrow> keeps_sound m) \<Longrightarrow> (\<And>x. v = Some x \<Longrightarrow> keeps_sound (f x)) \<Longrightarrow>
     keeps_sound (case v of None \<Rightarrow> m | Some x \<Rightarrow> f x)"
  by (auto split: option.split)

lemma sound_meanwhile [sound_intros]: "sound_others others \<Longrightarrow> keeps_sound (meanwhile others i)"
  by (simp add: keeps_sound_def sound_others_def)

lemma sound_read [sound_intros]: "keeps_sound (in_db (readP f))"
  by (simp add: keeps_sound_def sound_step_refl)

lemma sound_in_limits: "(\<And>s. plain (fst (k s))) \<Longrightarrow> keeps_sound (in_limits k)"
  by (auto simp: keeps_sound_def sound_step_refl split: prod.split) (metis fst_conv)

context account_transaction begin

lemma keeps_sound_run:
  "admissible q \<Longrightarrow> keeps_sound (in_db (transaction (body q)))"
  using steps by (auto simp: keeps_sound_def split: prod.split) (metis fst_conv snd_conv)+

end


lemmas run_rules =
  registration_setting.keeps_sound_run [where q = "(ctx, enabled)" for ctx enabled, simplified]
  registration.keeps_sound_run [where q = "(uc, drawn, now, name, h, request_id)" for uc drawn now name h request_id, simplified]
  user_creation.keeps_sound_run [where q = "(uc, ctx, drawn, now, name, h)" for uc ctx drawn now name h, simplified]
  denial.keeps_sound_run [where q = "(action, reason, actor, tg, source, request_id)" for action reason actor tg source request_id, simplified]
  login.keeps_sound_run [where q = "(temporary, s, replacement)" for temporary s replacement, simplified]
  login_again.keeps_sound_run [where q = "(temporary, i, s)" for temporary i s, simplified]
  password_change.keeps_sound_run [where q = "(ctx, now, s, h)" for ctx now s h, simplified]
  reset_check.keeps_sound_run [where q = "(ctx, t)" for ctx t, simplified]
  password_reset.keeps_sound_run [where q = "(uc, ctx, now, t, p, temporary, h)" for uc ctx now t p temporary h, simplified]
  reset_completion.keeps_sound_run [where q = "(now, s, h, request_id)" for now s h request_id, simplified]
  operator_reset.keeps_sound_run [where q = "(uc, now, i, p, h, request_id)" for uc now i p h request_id, simplified]

subsection \<open>Admission\<close>

lemma plain_proc_bind:
  "(\<And>s. plain (fst (m s))) \<Longrightarrow> (\<And>x s. plain (fst (f x s))) \<Longrightarrow> plain (fst (bindP m f s))"
  unfolding bindP_def by (auto simp: plain_def split: prod.split sum.split) (metis fst_conv)+

lemma plain_window_script: "plain (fst (fixed_window_script key limit window now s))"
  by (auto simp: fixed_window_script_def r_incr_def Let_def split: option.split redis_value.split)

lemma plain_check_rate_limit: "plain (fst (check_rate_limit pf io ns policy ty subject secret s))"
  unfolding check_rate_limit_def
proof (intro plain_proc_bind)
  show "plain (fst (liftP (build_rate_limit_key pf ns policy ty subject secret) s))" for s :: redis
    by (auto simp: build_rate_limit_key_def require_identifier_def subject_bytes_def
        intro!: plain_intros split: sum.split)
  show "plain (fst (store_answer io (fixed_window_script key l w) s))" for key l w s
    using plain_window_script
    by (auto simp: store_answer_def redis_call_def handleP_def plain_def
        split: redis_fault.split prod.split sum.split) (metis fst_conv)+
  show "plain (fst (liftP (parse_result raw policy) s))" for raw and s :: redis
    by (auto simp: parse_result_def split: option.split)
qed

lemma plain_admit: "plain (fst (admit pf ad io policy ty subject s))"
  unfolding admit_def by (intro plain_proc_bind plain_check_rate_limit) simp

lemma plain_attempts:
  "plain (fst (check_login_attempt pf ad io ip s))" "plain (fst (check_registration_attempt pf ad io ip s))"
  "plain (fst (check_temporary_password_completion pf ad io ip s))"
  unfolding check_login_attempt_def check_registration_attempt_def check_temporary_password_completion_def
  by (intro plain_proc_bind plain_admit; simp add: canonical_client_ip_def split: option.split)+

lemma sound_valid_credentials: "keeps_sound m \<Longrightarrow> keeps_sound (valid_credentials m)"
  unfolding valid_credentials_def by (intro sound_bind sound_intros; simp)

lemma sound_admitted_check:
  "sound_flow (Some f) \<Longrightarrow> keeps_sound (check_admitted_request f)"
  unfolding check_admitted_request_def by (intro sound_intros) (simp add: sound_flow_def)

lemma sound_flow_authenticate:
  "sound_flow (Some f) \<Longrightarrow> keeps_sound m \<Longrightarrow> keeps_sound (flow_authenticate pf f ip m)"
  unfolding flow_authenticate_def verify_admitted_credentials_def
  by (intro sound_bind sound_in_limits plain_attempts sound_admitted_check sound_valid_credentials)

lemma sound_flow_completion:
  "sound_flow (Some f) \<Longrightarrow> keeps_sound m \<Longrightarrow> keeps_sound (flow_complete_temporary_password_reset pf f ip m)"
  unfolding flow_complete_temporary_password_reset_def verify_admitted_credentials_def
  by (intro sound_bind sound_in_limits plain_attempts sound_admitted_check sound_valid_credentials)

lemma sound_flow_register:
  "sound_flow (Some f) \<Longrightarrow> keeps_sound m \<Longrightarrow> keeps_sound (flow_register pf f ip m)"
  unfolding flow_register_def
  by (intro sound_bind sound_in_limits plain_attempts sound_admitted_check)

subsection \<open>The operations\<close>

lemma hash_shape_new:
  "argon2_ok libs \<Longrightarrow> policy_checked (hash_new_password libs uc salt p ids) = Inr h \<Longrightarrow> hash_shape h"
  by (auto simp: policy_checked_Inr hash_new_password_Inr hash_shape_def argon2_shape)

lemma hash_shape_verified:
  "argon2_ok libs \<Longrightarrow> hash_verified_password libs salt p = Inr h \<Longrightarrow> hash_shape h"
  by (auto simp: hash_verified_password_def bindE_Inr hash_shape_def argon2_shape)

lemma sound_denied: "keeps_sound (in_db (write_denied_event a r ac tg s q))"
proof (rule keeps_soundI)
  fix w x w'
  assume wf: "wf (w_db w)" and run: "in_db (write_denied_event a r ac tg s q) w = (x, w')"
  obtain y d where t: "transaction (denied_event_body a r ac tg s q) (w_db w) = (y, d)" by fastforce
  have "sound_step (w_db w) d"
    using denial.steps(1) [where q = "(a, r, ac, tg, s, q)", OF wf] t by simp
  then show "sound_step (w_db w) (w_db w') \<and> plain x"
    using run t by (auto simp: write_denied_event_def handleP_def split: sum.splits)
qed

lemma sound_client_denial: "keeps_sound (in_db (write_client_denial e a ac tg s q))"
  using sound_denied sound_return [of "()"]
  by (auto simp: write_client_denial_def keeps_sound_def sound_step_refl)

lemma sound_login_step:
  "(\<And>x. v = Settled x \<Longrightarrow> keeps_sound (f x)) \<Longrightarrow> (\<And>x. v = Verify_again x \<Longrightarrow> keeps_sound (g x)) \<Longrightarrow>
     keeps_sound (case v of Settled x \<Rightarrow> f x | Verify_again x \<Rightarrow> g x)"
  by (cases v) simp_all

lemma sound_verify_login:
  assumes "argon2_ok libs" "sound_others others"
  shows "keeps_sound (verify_login_snapshot libs others salt name p temporary)"
  unfolding verify_login_snapshot_def verify_concurrent_rehash_def
  by (intro sound_bind sound_intros sound_login_step run_rules plain_intros assms)
     (auto simp: usable_snapshot_def proc_simps split: if_splits dest: hash_shape_verified [OF assms(1)])

lemma sound_authenticate:
  assumes "argon2_ok libs" "sound_others others" "sound_flow flow"
  shows "keeps_sound (authenticate libs pf others flow ip salt name p)"
  unfolding authenticate_def Let_def using sound_verify_login [OF assms(1,2)] assms(3)
  by (auto intro!: sound_intros sound_valid_credentials sound_flow_authenticate)

lemma sound_reauthenticate:
  assumes "sound_others others"
  shows "keeps_sound (reauthenticate_actor libs others ctx p a tg)"
proof -
  have "keeps_sound (verify_current_password libs ctx p)"
    unfolding verify_current_password_def by (intro sound_bind sound_intros plain_intros)
  then show ?thesis
    unfolding reauthenticate_actor_def
    by (intro sound_handle sound_bind sound_intros sound_valid_credentials sound_denied assms; simp)
qed

lemma sound_change_password:
  assumes "argon2_ok libs" "sound_others others"
  shows "keeps_sound (change_password libs uc others ctx salt now p new)"
  unfolding change_password_def
  by (intro sound_bind sound_intros sound_reauthenticate plain_intros run_rules assms)
     (auto dest: hash_shape_new [OF assms(1)])

lemma sound_failure_case:
  "(\<And>r. e = Rbac r \<Longrightarrow> keeps_sound (f r)) \<Longrightarrow> keeps_sound k \<Longrightarrow>
     keeps_sound (case e of Rbac r \<Rightarrow> f r | _ \<Rightarrow> k)"
  by (cases e) simp_all

lemma sound_recording:
  assumes "sound_others others" "keeps_sound m"
  shows "keeps_sound (recording_denial others i ctx tg m)"
  unfolding recording_denial_def
  by (intro sound_handle sound_failure_case sound_bind sound_intros sound_client_denial assms)

lemma sound_reset_user_password:
  assumes "argon2_ok libs" "sound_others others"
  shows "keeps_sound (reset_user_password libs uc others ctx salt now t p temporary)"
  unfolding reset_user_password_def
  by (intro sound_bind sound_intros sound_recording plain_intros run_rules assms)
     (auto dest: hash_shape_new [OF assms(1)])

lemma sound_verify_temporary: "keeps_sound (verify_temporary_snapshot libs name p)"
  unfolding verify_temporary_snapshot_def by (intro sound_bind sound_intros plain_intros)

lemma sound_complete_reset:
  assumes "argon2_ok libs" "sound_others others" "sound_flow flow"
  shows "keeps_sound (complete_password_reset libs pf others flow ip salt now name p new request_id)"
proof -
  have "keeps_sound (case flow of None \<Rightarrow> valid_credentials (verify_temporary_snapshot libs name p)
     | Some f \<Rightarrow> flow_complete_temporary_password_reset pf f ip (verify_temporary_snapshot libs name p))"
    using assms(3) by (auto intro!: sound_intros sound_valid_credentials sound_flow_completion sound_verify_temporary)
  then show ?thesis
    unfolding complete_password_reset_def Let_def
    by (intro sound_bind sound_intros plain_intros run_rules assms)
       (auto dest: hash_shape_new [OF assms(1)])
qed

lemma sound_operator_reset:
  assumes "argon2_ok libs" "sound_others others"
  shows "keeps_sound (operator_reset_super_admin_password libs uc others salt now i p request_id)"
  unfolding operator_reset_super_admin_password_def
  by (intro sound_bind sound_intros plain_intros run_rules assms)
     (auto dest: hash_shape_new [OF assms(1)])

lemma plain_taken_name: "plain (Inl e :: failure + unit) \<Longrightarrow> plain (Inl (taken_name_response e) :: failure + unit)"
  by (auto simp: taken_name_response_def split: failure.splits)

lemma sound_register:
  assumes "argon2_ok libs" "sound_others others" "sound_flow flow"
  shows "keeps_sound (register libs pf others flow ip salt drawn now name p request_id)"
proof -
  have "keeps_sound (registration_action libs uc others salt drawn now name p request_id)" for uc
    unfolding registration_action_def
    by (intro sound_bind sound_handle sound_intros plain_intros run_rules plain_taken_name assms)
       (auto dest: hash_shape_new [OF assms(1)])
  then show ?thesis
    unfolding register_def Let_def using assms(3) by (auto intro!: sound_intros sound_flow_register)
qed

lemma sound_create_user:
  assumes "argon2_ok libs" "sound_others others"
  shows "keeps_sound (create_user_by_administrator libs uc others ctx salt drawn now name p)"
  unfolding create_user_by_administrator_def
  by (intro sound_bind sound_handle sound_intros plain_intros run_rules plain_taken_name assms)
     (auto dest: hash_shape_new [OF assms(1)])

lemma sound_set_registration: "keeps_sound (in_db (set_registration_enabled ctx enabled))"
proof (rule keeps_soundI)
  fix w r w'
  assume wf: "wf (w_db w)" and run: "in_db (set_registration_enabled ctx enabled) w = (r, w')"
  obtain y d where t: "transaction (set_registration_body ctx enabled) (w_db w) = (y, d)" by fastforce
  have "sound_step (w_db w) d" "plain y"
    using registration_setting.steps [where q = "(ctx, enabled)", OF wf] t by simp_all
  then show "sound_step (w_db w) (w_db w') \<and> plain r"
    using run t by (auto simp: set_registration_enabled_def bindP_def plain_def split: sum.splits)
qed

end
