(* ===== verification/Account_Logins.thy ===== *)
theory Account_Logins
  imports Account_Interleaving
begin

text \<open>
  Reading off the operations of the authentication service: what a result says of the rows it
  came from, whatever happened in between, and what a login returns that nobody interferes with.
\<close>

subsection \<open>Reading off the operations\<close>

lemma transaction_Inr: "transaction body db = (Inr x, db') \<Longrightarrow> body db = Inr (x, db')"
  by (auto simp: transaction_def split: sum.splits option.splits)

lemma transaction_Inl: "transaction body db = (Inl e, db') \<Longrightarrow> db' = db"
  by (auto simp: transaction_def split: sum.splits option.splits)

lemma in_db_eq [proc_simps]: "in_db m w = (r, w') \<longleftrightarrow> (\<exists>d. m (w_db w) = (r, d) \<and> w' = w\<lparr>w_db := d\<rparr>)"
  by (auto split: prod.split)

lemma valid_credentials_Inr: "valid_credentials m w = (Inr x, w') \<longleftrightarrow> m w = (Inr (Some x), w')"
  by (auto simp: valid_credentials_def proc_simps split: option.splits)

lemma verify_password_details_Inr:
  "verify_password_details libs p h = Inr v \<Longrightarrow>
     pv_verified v \<longrightarrow> (\<exists>g. h = Some g \<and> pl_verify libs g p = Verified \<and> \<not> isl (validate_login_password_input p))"
  by (auto simp: verify_password_details_def verify_or_dummy_def Let_def bindE_Inr
      validate_login_password_input_def isl_def
      split: sum.splits failure.splits option.splits if_splits hash_check.splits)

lemma verify_password_Inr:
  "verify_password libs p h = Inr True \<Longrightarrow> \<exists>g. h = Some g \<and> pl_verify libs g p = Verified"
  by (auto simp: verify_password_def bindE_Inr dest!: verify_password_details_Inr)

lemma snapshot_of_user [simp]:
  "ps_user_id (snapshot_from_user u) = u_id u" "ps_user_name (snapshot_from_user u) = u_user_name u"
  "ps_password_hash (snapshot_from_user u) = u_password_hash u" "ps_is_active (snapshot_from_user u) = u_is_active u"
  "ps_is_deleted (snapshot_from_user u) \<longleftrightarrow> \<not> live_user u"
  "ps_token_version (snapshot_from_user u) = u_token_version u"
  "ps_must_change_password (snapshot_from_user u) = u_must_change_password u"
  "ps_password_changed_at (snapshot_from_user u) = u_password_changed_at u"
  by (simp_all add: snapshot_from_user_def)

lemma verify_current_password_Inr:
  assumes "verify_current_password libs ctx p w = (Inr (Some s), w')"
  shows "w' = w \<and> (\<exists>h. ps_password_hash s = Some h \<and> pl_verify libs h p = Verified) \<and>
     \<not> ps_must_change_password s \<and> ps_user_id s = pr_user_id (c_principal ctx)"
proof -
  obtain v where s: "load_snapshot_by_user_id (pr_user_id (c_principal ctx)) (w_db w) = Some s"
    and v: "verify_password libs p (snapshot_hash (Some s)) = Inr v" "v" "w' = w" "\<not> ps_must_change_password s"
    using assms by (auto simp: verify_current_password_def proc_simps split: option.splits if_splits)
  have "ps_user_id s = pr_user_id (c_principal ctx)"
    using s by (auto simp: load_snapshot_by_user_id_def dest!: find_SomeD)
  then show ?thesis
    using v verify_password_Inr [of libs p "snapshot_hash (Some s)"] by (auto simp: snapshot_hash_def)
qed

lemma reauthenticate_Inr:
  assumes "reauthenticate_actor libs others ctx p a tg w = (Inr s, w')"
  shows "verify_current_password libs ctx p w = (Inr (Some s), w')"
  using assms by (auto simp: reauthenticate_actor_def proc_simps valid_credentials_Inr split: if_splits)

lemma recording_denial_Inr:
  "recording_denial others i ctx tg m w = (Inr x, w') \<longleftrightarrow> m w = (Inr x, w')"
  by (auto simp: recording_denial_def proc_simps split: failure.splits) (metis failure.exhaust)

text \<open>A login that ends with an account: it is the account of the name, and its hash verifies the password.\<close>

definition admitted_account :: "password_libs \<Rightarrow> pystr \<Rightarrow> pystr \<Rightarrow> database \<Rightarrow> user \<Rightarrow> bool" where
  "admitted_account libs name p db u \<longleftrightarrow>
     u \<in> set (db_users db) \<and> u_user_name u = name \<and> live_user u \<and> u_is_active u \<and>
     (\<exists>h. u_password_hash u = Some h \<and> pl_verify libs h p = Verified)"

lemma load_by_name:
  "load_snapshot_by_user_name name db = Some s \<Longrightarrow>
     \<exists>u \<in> set (db_users db). u_user_name u = name \<and> s = snapshot_from_user u"
  by (auto simp: load_snapshot_by_user_name_def dest!: find_SomeD)

lemma login_body_settled:
  assumes "login_body temporary s replacement db = Inr (Settled (Some a), db')"
  shows "\<exists>u. u \<in> set (db_users db) \<and> u_id u = ps_user_id s \<and> live_user u \<and> same_login_user_state u s \<and>
     u_password_hash u = ps_password_hash s \<and> a = authenticated_user u \<and>
     db' = (case replacement of None \<Rightarrow> db | Some h \<Rightarrow> save_user (u\<lparr>u_password_hash := Some h\<rparr>) db)"
proof -
  obtain u where row: "map_of (lock_users db {ps_user_id s}) (ps_user_id s) = Some u"
    and rest: "same_login_user_state u s \<and> u_password_hash u = ps_password_hash s \<and> a = authenticated_user u \<and>
     db' = (case replacement of None \<Rightarrow> db | Some h \<Rightarrow> save_user (u\<lparr>u_password_hash := Some h\<rparr>) db)"
    using assms by (auto simp: login_body_def split: option.splits if_splits)
  have "u \<in> set (db_users db)" "u_id u = ps_user_id s" "live_user u"
    using map_of_SomeD [OF row] by (auto simp: lock_users_def)
  with rest show ?thesis by blast
qed

lemma login_body_again:
  assumes "login_body temporary s replacement db = Inr (Verify_again g, db')"
  shows "\<exists>u. same_login_user_state u s \<and> g = snapshot_from_user u"
  using assms by (auto simp: login_body_def split: option.splits if_splits)

lemma login_again_body_Inr:
  assumes "login_again_body temporary i g db = Inr (Some a, db')"
  shows "db' = db \<and> (\<exists>u. u \<in> set (db_users db) \<and> live_user u \<and> same_login_user_state u g \<and>
     same_password_state u g \<and> a = authenticated_user u)"
proof -
  obtain u where row: "map_of (lock_users db {i}) i = Some u"
    and rest: "db' = db \<and> same_login_user_state u g \<and> same_password_state u g \<and> a = authenticated_user u"
    using assms by (auto simp: login_again_body_def split: option.splits if_splits)
  have "u \<in> set (db_users db)" "live_user u"
    using map_of_SomeD [OF row] by (auto simp: lock_users_def)
  with rest show ?thesis by blast
qed

lemma saved_user_in: "u \<in> set (db_users db) \<Longrightarrow> u_id v = u_id u \<Longrightarrow> v \<in> set (db_users (save_user v db))"
  by (auto simp: save_user_def set_update_where)

lemma verify_login_first:
  assumes "argon2_ok libs" "\<forall>g. replacement = Some g \<longrightarrow> (\<exists>salt. hash_verified_password libs salt p = Inr g)"
    and "login_body temporary s replacement db = Inr (Settled (Some a), db')"
    and "ps_password_hash s = Some h" "pl_verify libs h p = Verified" "ps_user_name s = name" "ps_is_active s"
  shows "\<exists>u. admitted_account libs name p db' u \<and> a = authenticated_user u"
proof -
  obtain u where u: "u \<in> set (db_users db)" "live_user u" "same_login_user_state u s"
    "u_password_hash u = Some h" "a = authenticated_user u"
    and db': "db' = (case replacement of None \<Rightarrow> db | Some h \<Rightarrow> save_user (u\<lparr>u_password_hash := Some h\<rparr>) db)"
    using login_body_settled [OF assms(3)] assms(4) by auto
  have state: "u_user_name u = name" "u_is_active u"
    using u(3) assms(6,7) by (simp_all add: same_login_user_state_def same_identity_def)
  show ?thesis
  proof (cases replacement)
    case None
    then show ?thesis
      using u state db' assms(5) by (auto simp: admitted_account_def)
  next
    case (Some g)
    then obtain salt where "g = pl_hash libs password_hasher salt p"
      using assms(2) by (auto simp: hash_verified_password_def bindE_Inr validate_login_password_input_def
          if_Inl_eq_Inr split: sum.splits)
    then have "admitted_account libs name p db' (u\<lparr>u_password_hash := Some g\<rparr>)"
      using u state db' Some saved_user_in [OF u(1), of "u\<lparr>u_password_hash := Some g\<rparr>"]
      by (simp add: admitted_account_def argon2_verify [OF assms(1)])
    then show ?thesis
      using u(5) by (intro exI [of _ "u\<lparr>u_password_hash := Some g\<rparr>"]) (simp add: authenticated_user_def)
  qed
qed

lemma verify_login_second:
  assumes "login_again_body temporary i g db = Inr (Some a, db')"
    and "ps_password_hash g = Some h" "pl_verify libs h p = Verified" "ps_user_name g = name" "ps_is_active g"
  shows "\<exists>u. admitted_account libs name p db' u \<and> a = authenticated_user u"
  using login_again_body_Inr [OF assms(1)] assms(2-5)
  by (auto simp: admitted_account_def same_login_user_state_def same_identity_def same_password_state_def)

lemma verify_concurrent_Inr:
  assumes "verify_concurrent_rehash libs others p temporary i again w = (Inr (Some a), w')"
    and "ps_user_name again = name" "ps_is_active again"
  shows "\<exists>u. admitted_account libs name p (w_db w') u \<and> a = authenticated_user u"
proof -
  obtain v d where v: "verify_password_details libs p (ps_password_hash again) = Inr v" "pv_verified v"
    and d: "transaction (login_again_body temporary i again) (w_db (others 1 w)) = (Inr (Some a), d)"
      "w' = (others 1 w)\<lparr>w_db := d\<rparr>"
    using assms(1) by (auto simp: verify_concurrent_rehash_def proc_simps simp del: in_parts split: if_splits)
  obtain g where g: "ps_password_hash again = Some g" "pl_verify libs g p = Verified"
    using verify_password_details_Inr [OF v(1)] v(2) by blast
  show ?thesis
    using verify_login_second [OF transaction_Inr [OF d(1)] g assms(2,3)] d(2) by simp
qed

lemma bindP_InrE:
  assumes "bindP m f s = (Inr y, s')"
  obtains x s1 where "m s = (Inr x, s1)" "f x s1 = (Inr y, s')"
  using assms unfolding bindP_Inr by blast

lemma verify_login_Inr:
  assumes "argon2_ok libs" "verify_login_snapshot libs others salt name p temporary w = (Inr (Some a), w')"
  shows "\<exists>u. admitted_account libs name p (w_db w') u \<and> a = authenticated_user u"
proof -
  obtain s v where s: "load_snapshot_by_user_name name (w_db w) = Some s"
    and v: "verify_password_details libs p (snapshot_hash (Some s)) = Inr v" "pv_verified v"
      "usable_snapshot temporary s"
    and rest: "bindP (if pv_needs_rehash v
                then bindP (liftP (hash_verified_password libs salt p)) (\<lambda>h. returnP (Some h))
                else returnP None) (\<lambda>replacement_hash.
         bindP (meanwhile others 0) (\<lambda>_.
         bindP (in_db (transaction (login_body temporary s replacement_hash))) (\<lambda>step.
         case step of
           Settled result \<Rightarrow> returnP result
         | Verify_again again \<Rightarrow> verify_concurrent_rehash libs others p temporary (ps_user_id s) again))) w
       = (Inr (Some a), w')"
    using assms(2) unfolding verify_login_snapshot_def
    by (elim bindP_InrE) (auto split: option.splits if_splits)
  obtain replacement step d where rep: "\<forall>g. replacement = Some g \<longrightarrow> (\<exists>salt. hash_verified_password libs salt p = Inr g)"
    and first: "login_body temporary s replacement (w_db (others 0 w)) = Inr (step, d)"
    and last: "(case step of Settled result \<Rightarrow> returnP result
         | Verify_again again \<Rightarrow> verify_concurrent_rehash libs others p temporary (ps_user_id s) again)
        ((others 0 w)\<lparr>w_db := d\<rparr>) = (Inr (Some a), w')"
    using rest by (elim bindP_InrE)
      (auto simp: proc_simps simp del: in_parts split: if_splits dest!: transaction_Inr, blast)
  obtain h where h: "ps_password_hash s = Some h" "pl_verify libs h p = Verified"
    using verify_password_details_Inr [OF v(1)] v(2) by (auto simp: snapshot_hash_def)
  have s': "ps_user_name s = name" "ps_is_active s"
    using load_by_name [OF s] v(3) by (auto simp: usable_snapshot_def)
  show ?thesis
  proof (cases step)
    case (Settled result)
    then show ?thesis
      using verify_login_first [OF assms(1) rep _ h s'] first last by auto
  next
    case (Verify_again again)
    have "ps_user_name again = name" "ps_is_active again"
      using login_body_again [OF first [unfolded Verify_again]] s'
      by (auto simp: same_login_user_state_def same_identity_def)
    then show ?thesis
      using verify_concurrent_Inr last Verify_again by auto
  qed
qed


subsection \<open>A login nobody interferes with\<close>

definition undisturbed :: others where
  "undisturbed i w = w"

lemma undisturbed_simp [simp]: "undisturbed i w = w"
  by (simp add: undisturbed_def)

text \<open>A hash Argon2 can work with: its parameters are safe and it does verify or mismatch.\<close>

definition readable_hash :: "password_libs \<Rightarrow> pystr \<Rightarrow> string \<Rightarrow> bool" where
  "readable_hash libs p h \<longleftrightarrow>
     (\<exists>params. pl_parameters libs h = Some params \<and> safe_parameters params) \<and> pl_verify libs h p \<noteq> Unusable"

definition readable_account :: "password_libs \<Rightarrow> pystr \<Rightarrow> pystr \<Rightarrow> database \<Rightarrow> bool" where
  "readable_account libs p name db \<longleftrightarrow>
     readable_hash libs p (case snapshot_hash (load_snapshot_by_user_name name db) of
       None \<Rightarrow> DUMMY_PASSWORD_HASH | Some h \<Rightarrow> h)"

lemma argon2_readable: "argon2_ok libs \<Longrightarrow> readable_hash libs q (pl_hash libs password_hasher salt p)"
  by (simp add: argon2_ok_def readable_hash_def safe_parameters_def password_hasher_def
      ARGON2_MEMORY_COST_KIB_def ARGON2_TIME_COST_def ARGON2_PARALLELISM_def ARGON2_SALT_LENGTH_def
      ARGON2_HASH_LENGTH_def)

lemma verify_details_readable:
  assumes "readable_hash libs p (case h of None \<Rightarrow> DUMMY_PASSWORD_HASH | Some g \<Rightarrow> g)"
  shows "verify_password_details libs p h =
     (if isl (validate_login_password_input p) then Inl Invalid_login_credentials
      else let g = (case h of None \<Rightarrow> DUMMY_PASSWORD_HASH | Some g \<Rightarrow> g) in
        Inr \<lparr>pv_verified = (pl_verify libs g p = Verified \<and> h \<noteq> None),
             pv_needs_rehash = (pl_verify libs g p = Verified \<and> pl_needs_rehash libs password_hasher g \<and> h \<noteq> None),
             pv_used_dummy = (h = None)\<rparr>)"
proof (cases "validate_login_password_input p")
  case (Inl e)
  then obtain r where "e = Password_policy_error r"
    by (auto simp: validate_login_password_input_def split: if_splits sum.splits)
  with Inl show ?thesis
    by (simp add: verify_password_details_def verify_or_dummy_def)
next
  case (Inr q)
  then have "q = p"
    by (auto simp: validate_login_password_input_def split: if_splits sum.splits)
  then show ?thesis
    using Inr assms
    by (cases "pl_verify libs (case h of None \<Rightarrow> DUMMY_PASSWORD_HASH | Some g \<Rightarrow> g) p"; cases h)
       (auto simp: verify_password_details_def verify_or_dummy_def readable_hash_def Let_def)
qed

lemma find_user_name:
  assumes "wf db"
  shows "find (\<lambda>u. u_user_name u = name) (db_users db) = Some u \<longleftrightarrow> u \<in> set (db_users db) \<and> u_user_name u = name"
proof
  assume u: "u \<in> set (db_users db) \<and> u_user_name u = name"
  then obtain v where v: "find (\<lambda>u. u_user_name u = name) (db_users db) = Some v"
    by (cases "find (\<lambda>u. u_user_name u = name) (db_users db)") (auto simp: find_None_iff)
  have "inj_on u_user_name (set (db_users db))"
    using assms by (simp add: wf_def names_ok_def distinct_map)
  then have "v = u"
    using find_SomeD [OF v] u by (auto dest: inj_onD)
  with v show "find (\<lambda>u. u_user_name u = name) (db_users db) = Some u" by simp
qed (auto dest: find_SomeD)

lemma login_body_undisturbed:
  assumes "wf db" "u \<in> set (db_users db)" "live_user u" "\<not> temporary"
  shows "login_body temporary (snapshot_from_user u) replacement db =
     Inr (Settled (Some (authenticated_user u)),
       case replacement of None \<Rightarrow> db | Some h \<Rightarrow> save_user (u\<lparr>u_password_hash := Some h\<rparr>) db)"
proof -
  have "map_of (lock_users db {u_id u}) (u_id u) = Some u"
    using assms by (simp add: lock_one_user)
  moreover have "same_login_user_state u (snapshot_from_user u)"
    using assms(3) by (simp add: same_login_user_state_def same_identity_def)
  ultimately show ?thesis
    using assms(4) by (auto simp: login_body_def split: option.split)
qed

definition login_replacement :: "password_libs \<Rightarrow> string \<Rightarrow> pystr \<Rightarrow> user \<Rightarrow> string option" where
  "login_replacement libs salt p u =
     (if pl_needs_rehash libs password_hasher (the (u_password_hash u))
      then Some (pl_hash libs password_hasher salt p) else None)"

lemma admitted_login:
  assumes "wf (w_db w)" "argon2_ok libs" "readable_account libs p name (w_db w)"
    and "admitted_account libs name p (w_db w) u" "\<not> isl (validate_login_password_input p)"
  shows "fst (authenticate libs pf undisturbed None ip salt name p w) = Inr (authenticated_user u)"
proof -
  obtain h where u: "u \<in> set (db_users (w_db w))" "u_user_name u = name" "live_user u" "u_is_active u"
    and h: "u_password_hash u = Some h" "pl_verify libs h p = Verified"
    using assms(4) by (auto simp: admitted_account_def)
  have load: "load_snapshot_by_user_name name (w_db w) = Some (snapshot_from_user u)"
    using find_user_name [OF assms(1), of name u] u by (simp add: load_snapshot_by_user_name_def)
  have readable: "readable_hash libs p (case Some h of None \<Rightarrow> DUMMY_PASSWORD_HASH | Some g \<Rightarrow> g)"
    using assms(3) load h(1) by (simp add: readable_account_def snapshot_hash_def)
  have valid: "hash_verified_password libs salt p = Inr (pl_hash libs password_hasher salt p)"
    using assms(5) by (cases "validate_login_password_input p")
      (auto simp: hash_verified_password_def validate_login_password_input_def split: if_splits sum.splits)
  let ?rep = "login_replacement libs salt p u"
  have body: "transaction (login_body False (snapshot_from_user u) ?rep) (w_db w) =
      (Inr (Settled (Some (authenticated_user u))),
       case ?rep of None \<Rightarrow> w_db w | Some h \<Rightarrow> save_user (u\<lparr>u_password_hash := Some h\<rparr>) (w_db w))"
    using login.Inr_iff [where q = "(False, snapshot_from_user u, ?rep)", OF assms(1)]
      login_body_undisturbed [OF assms(1) u(1,3), of False ?rep] argon2_shape [OF assms(2)] h(1)
    by (auto simp: login_replacement_def hash_shape_def)
  show ?thesis
    using load verify_details_readable [OF readable] assms(5) h u valid body
    by (cases "pl_needs_rehash libs password_hasher h")
       (simp_all add: authenticate_def valid_credentials_def verify_login_snapshot_def bindP_def
          snapshot_hash_def usable_snapshot_def login_replacement_def Let_def)
qed

lemma refused_login:
  assumes "readable_account libs p name (w_db w)"
    and "\<not> (\<exists>u. admitted_account libs name p (w_db w) u) \<or> isl (validate_login_password_input p)"
  shows "authenticate libs pf undisturbed None ip salt name p w = (Inl Invalid_login_credentials, w)"
proof -
  let ?s = "load_snapshot_by_user_name name (w_db w)"
  have readable: "readable_hash libs p (case snapshot_hash ?s of None \<Rightarrow> DUMMY_PASSWORD_HASH | Some g \<Rightarrow> g)"
    using assms(1) by (simp add: readable_account_def)
  have none: "\<not> (\<exists>u. u \<in> set (db_users (w_db w)) \<and> u_user_name u = name \<and> live_user u \<and> u_is_active u \<and>
      (\<exists>h. u_password_hash u = Some h \<and> pl_verify libs h p = Verified))"
    if "\<not> isl (validate_login_password_input p)"
    using assms(2) that unfolding admitted_account_def by blast
  show ?thesis
    using none verify_details_readable [OF readable]
    by (cases "isl (validate_login_password_input p)"; cases ?s)
       (auto simp: authenticate_def valid_credentials_def verify_login_snapshot_def bindP_def
          snapshot_hash_def usable_snapshot_def Let_def dest!: load_by_name)
qed


subsection \<open>Password changes and resets\<close>

text \<open>What the four operations that set a password have in common.\<close>

definition password_rotated :: "uuid \<Rightarrow> database \<Rightarrow> database \<Rightarrow> bool" where
  "password_rotated t db db' \<longleftrightarrow>
     (\<exists>u now h m action reason actor. u \<in> set (db_users db) \<and> u_id u = t \<and> live_user u \<and>
        recorded action reason actor (Some t) (password_set now h m u db) db')"

lemma change_password_Inr:
  assumes "change_password libs uc others ctx salt now p new w = (Inr r, w')"
  shows "\<exists>u h. u \<in> set (db_users (w_db (others 1 w))) \<and> live_user u \<and> u_is_active u \<and>
     u_id u = pr_user_id (c_principal ctx) \<and> u_token_version u = pr_token_version (c_principal ctx) \<and>
     \<not> u_must_change_password u \<and> u_password_hash u = Some h \<and> pl_verify libs h p = Verified \<and> p \<noteq> new \<and>
     \<not> isl (validate_new_password uc new [u_user_name u]) \<and>
     recorded ''account_security.password.changed'' ''password_changed'' (Some (u_id u)) (Some (u_id u))
       (password_set now (pl_hash libs password_hasher salt new) False u (w_db (others 1 w))) (w_db w')"
proof -
  obtain s w1 h d where new: "p \<noteq> new"
    and s: "reauthenticate_actor libs others ctx p ''account_security.password.changed''
      (pr_user_id (c_principal ctx)) w = (Inr s, w1)"
    and h: "policy_checked (hash_new_password libs uc salt new (identity_values s)) = Inr h"
    and run: "transaction (change_password_body ctx now s h) (w_db (others 1 w1)) = (Inr (), d)"
      "w' = (others 1 w1)\<lparr>w_db := d\<rparr>"
    using assms unfolding change_password_def
    by (auto simp: proc_simps simp del: in_parts split: if_splits)
  obtain g where w1: "w1 = w" and g: "ps_password_hash s = Some g" "pl_verify libs g p = Verified"
    "\<not> ps_must_change_password s"
    using verify_current_password_Inr [OF reauthenticate_Inr [OF s]] by blast
  have hash: "h = pl_hash libs password_hasher salt new" "\<not> isl (validate_new_password uc new (identity_values s))"
    using h by (simp_all add: policy_checked_Inr hash_new_password_Inr)
  obtain u where u: "u \<in> set (db_users (w_db (others 1 w)))" "live_user u"
     "u_id u = pr_user_id (c_principal ctx)" "u_is_active u"
     "u_token_version u = pr_token_version (c_principal ctx)" "same_identity u s" "same_password_state u s"
     "recorded ''account_security.password.changed'' ''password_changed'' (Some (u_id u)) (Some (u_id u))
       (password_set now h False u (w_db (others 1 w))) d"
    using change_password_body_Inr [OF transaction_Inr [OF run(1)]] w1 by blast
  then show ?thesis
    using g new hash run(2) by (auto simp: same_password_state_def same_identity_def identity_values_def)
qed

lemma reset_user_password_Inr:
  assumes "argon2_ok libs" "wf (w_db (others 1 w))"
    and "reset_user_password libs uc others ctx salt now t new temporary w = (Inr r, w')"
  shows "\<exists>au u. authorized_reset (w_db (others 1 w)) ctx au u \<and> u_id u = t \<and>
     \<not> isl (validate_new_password uc new [u_user_name u]) \<and>
     recorded ''account_security.password.admin_reset''
       (if temporary then ''temporary_password_set'' else ''permanent_password_set'')
       (Some (pr_user_id (c_principal ctx))) (Some t)
       (password_set now (pl_hash libs password_hasher salt new) temporary u (w_db (others 1 w))) (w_db w')"
proof -
  obtain u0 w1 h d where first: "transaction (\<lambda>db. bindE (lock_authorized_reset_target ctx t db) (\<lambda>u. Inr (u, db))) (w_db w) = (Inr u0, w1)"
    and h: "policy_checked (hash_new_password libs uc salt new (filter (\<lambda>v. v \<noteq> []) [u_user_name u0])) = Inr h"
    and run: "transaction (reset_password_body uc ctx now t new temporary h) (w_db (others 1 (w\<lparr>w_db := w1\<rparr>))) = (Inr (), d)"
      "w' = (others 1 (w\<lparr>w_db := w1\<rparr>))\<lparr>w_db := d\<rparr>"
    using assms(3) unfolding reset_user_password_def
    by (auto simp: proc_simps recording_denial_Inr simp del: in_parts filter.simps)
  have "w1 = w_db w"
    using transaction_Inr [OF first] by (auto simp: bindE_Inr)
  then have w1: "w\<lparr>w_db := w1\<rparr> = w" by simp
  have hash: "h = pl_hash libs password_hasher salt new"
    using h by (simp add: policy_checked_Inr hash_new_password_Inr del: filter.simps)
  obtain u where u: "lock_authorized_reset_target ctx t (w_db (others 1 w)) = Inr u"
    "\<not> isl (validate_new_password uc new [u_user_name u])"
    "recorded ''account_security.password.admin_reset''
       (if temporary then ''temporary_password_set'' else ''permanent_password_set'')
       (Some (pr_user_id (c_principal ctx))) (Some (u_id u)) (password_set now h temporary u (w_db (others 1 w))) d"
    using reset_password_body_Inr [OF transaction_Inr [OF run(1)]] unfolding w1 by blast
  obtain au where "u_id u = t" "authorized_reset (w_db (others 1 w)) ctx au u"
    using authorized_reset_target [OF assms(2) u(1)] by blast
  then show ?thesis
    using u(2,3) hash run(2) by (intro exI [of _ au] exI [of _ u]) simp
qed

lemma complete_password_reset_Inr:
  assumes "complete_password_reset libs pf others None ip salt now name p new request_id w = (Inr r, w')"
  shows "\<exists>u h. u \<in> set (db_users (w_db (others 0 w))) \<and> live_user u \<and> u_is_active u \<and> u_user_name u = name \<and>
     u_must_change_password u \<and> u_password_hash u = Some h \<and> pl_verify libs h p = Verified \<and> p \<noteq> new \<and>
     \<not> isl (validate_new_password (pf_unicode pf) new [u_user_name u]) \<and>
     recorded ''account_security.password.reset_completed'' ''temporary_password_completed''
       (Some (u_id u)) (Some (u_id u))
       (password_set now (pl_hash libs password_hasher salt new) False u (w_db (others 0 w))) (w_db w')"
proof -
  obtain s w1 h d where new: "p \<noteq> new"
    and s: "verify_temporary_snapshot libs name p w = (Inr (Some s), w1)"
    and h: "policy_checked (hash_new_password libs (pf_unicode pf) salt new (identity_values s)) = Inr h"
    and run: "transaction (complete_reset_body now s h request_id) (w_db (others 0 w1)) = (Inr (), d)"
      "w' = (others 0 w1)\<lparr>w_db := d\<rparr>"
    using assms unfolding complete_password_reset_def
    by (auto simp: proc_simps valid_credentials_Inr simp del: in_parts split: if_splits)
  obtain g where w1: "w1 = w" and g: "ps_password_hash s = Some g" "pl_verify libs g p = Verified" "ps_user_name s = name"
    using s verify_password_Inr [of libs p "snapshot_hash (Some s)"] load_by_name [of name "w_db w" s]
    by (auto simp: verify_temporary_snapshot_def proc_simps snapshot_hash_def simp del: in_parts
        split: option.splits if_splits)
  have hash: "h = pl_hash libs password_hasher salt new" "\<not> isl (validate_new_password (pf_unicode pf) new (identity_values s))"
    using h by (simp_all add: policy_checked_Inr hash_new_password_Inr)
  show ?thesis
    using complete_reset_body_Inr [OF transaction_Inr [OF run(1)]] w1 g new hash run(2)
    by (auto simp: same_login_user_state_def same_password_state_def same_identity_def identity_values_def)
qed

lemma operator_reset_Inr:
  assumes "operator_reset_super_admin_password libs uc others salt now i p request_id w = (Inr r, w')"
  shows "\<exists>u. u \<in> set (db_users (w_db (others 0 w))) \<and> u_id u = i \<and> live_user u \<and> u_is_active u \<and>
     load_live_super_admin_holder_ids (w_db (others 0 w)) = {i} \<and>
     recorded ''account_security.password.operator_reset'' ''operator_temporary_password_set'' None (Some i)
       (password_set now (pl_hash libs password_hasher salt p) True u (w_db (others 0 w))) (w_db w')"
proof -
  obtain h d where h: "policy_checked (hash_new_password libs uc salt p []) = Inr h"
    and run: "transaction (operator_reset_body uc now i p h request_id) (w_db (others 0 w)) = (Inr (), d)"
      "w' = (others 0 w)\<lparr>w_db := d\<rparr>"
    using assms unfolding operator_reset_super_admin_password_def
    by (auto simp: proc_simps simp del: in_parts)
  then show ?thesis
    using operator_reset_body_Inr [OF transaction_Inr [OF run(1)]]
    by (auto simp: policy_checked_Inr hash_new_password_Inr)
qed


subsection \<open>New users\<close>

text \<open>A user that was just added: its password, its only role, and what stays as it was.\<close>

definition base_account :: "database \<Rightarrow> database \<Rightarrow> uuid \<Rightarrow> pystr \<Rightarrow> string \<Rightarrow> bool \<Rightarrow> bool" where
  "base_account db db' i name h m \<longleftrightarrow>
     i \<notin> u_id ` set (db_users db) \<and> name \<notin> u_user_name ` set (db_users db) \<and>
     (\<exists>u. set (db_users db') = insert u (set (db_users db)) \<and> u_id u = i \<and> u_user_name u = name \<and>
        live_user u \<and> u_is_active u \<and> \<not> u_is_protected u \<and> u_password_hash u = Some h \<and>
        u_must_change_password u = m \<and> u_token_version u = 0) \<and>
     map r_key (roles_of db' (\<lambda>_. True) i) = [''user''] \<and>
     (\<forall>v. v \<noteq> i \<longrightarrow> roles_of db' (\<lambda>_. True) v = roles_of db (\<lambda>_. True) v) \<and>
     db_roles db' = db_roles db \<and> db_role_permissions db' = db_role_permissions db"

lemma filter_single:
  "distinct (map f xs) \<Longrightarrow> x \<in> set xs \<Longrightarrow> filter (\<lambda>y. f y = f x) xs = [x]"
  by (induction xs) (auto simp: filter_empty_conv image_iff)

lemma provisioned_base_account:
  assumes "wf db" "provisioned by_user u db db1"
    and "recorded action reason actor target (save_user (rotate_password now h m u) db1) db'"
  shows "base_account db db' (u_id u) (u_user_name u) h m"
proof -
  obtain r e s where r: "r \<in> set (db_roles db)" "r_key r = ''user''" "live_role r"
    and u: "u_id u \<notin> u_id ` set (db_users db)" "u_user_name u \<notin> u_user_name ` set (db_users db)"
      "u = new_user (u_id u) (u_user_name u)"
    and db1: "db1 = add_rbac_event e (save_state (next_epoch s) (with_user u
          \<lparr>ur_user_id = u_id u, ur_role_id = r_id r, ur_assigned_by_user_id = by_user,
           ur_deleted_at = None, ur_deleted_by_user_id = None\<rparr> db))"
    using assms(2) unfolding provisioned_def by blast
  note tables = recorded_tables [OF assms(3)]
  have users: "set (db_users db') = insert (rotate_password now h m u) (set (db_users db))"
    using tables u(1) by (auto simp: db1 save_user_def set_update_where add_rbac_event_def save_state_def image_iff)
  have new: "u_is_active u" "live_user u" "\<not> u_is_protected u" "u_token_version u = 0"
    by (subst u(3), simp add: new_user_def)+
  have urs: "db_user_roles db' = db_user_roles db @
      [\<lparr>ur_user_id = u_id u, ur_role_id = r_id r, ur_assigned_by_user_id = by_user,
        ur_deleted_at = None, ur_deleted_by_user_id = None\<rparr>]" "db_roles db' = db_roles db"
      "db_role_permissions db' = db_role_permissions db"
    using tables by (simp_all add: db1 save_user_def add_rbac_event_def save_state_def)
  have "assigned db' (u_id u) q \<longleftrightarrow> r_id q = r_id r" for q
    using no_rows_of_fresh_user [OF assms(1) u(1)]
    by (auto simp: assigned_def live_assignments_def urs image_iff)
  then have "roles_of db' (\<lambda>_. True) (u_id u) = filter (\<lambda>q. live_role q \<and> r_id q = r_id r) (db_roles db)"
    by (simp add: roles_of_def urs)
  also have "\<dots> = filter live_role (filter (\<lambda>q. r_id q = r_id r) (db_roles db))"
    by (simp add: conj_commute)
  also have "\<dots> = [r]"
    using filter_single [of r_id "db_roles db" r] assms(1) r by (simp add: wf_def keys_ok_def)
  finally have roles: "map r_key (roles_of db' (\<lambda>_. True) (u_id u)) = [''user'']"
    using r(2) by simp
  have "roles_of db' (\<lambda>_. True) v = roles_of db (\<lambda>_. True) v" if "v \<noteq> u_id u" for v
    using that by (simp add: roles_of_def assigned_def live_assignments_def urs)
  then show ?thesis
    using u(1,2) users new urs roles unfolding base_account_def
    by (auto simp: rotate_password_def)
qed

text \<open>The admission that runs before the registration itself.\<close>

definition registration_admission :: "platform \<Rightarrow> abuse_flow option \<Rightarrow> pystr \<Rightarrow> (world, unit) proc" where
  "registration_admission pf flow ip =
     (case flow of None \<Rightarrow> returnP ()
      | Some f \<Rightarrow> bindP (in_limits (check_registration_attempt pf (af_defense f) (af_io f) ip))
          (\<lambda>_. check_admitted_request f))"

lemma register_split:
  "register libs pf others flow ip salt drawn now name p request_id =
     bindP (registration_admission pf flow ip)
       (\<lambda>_. registration_action libs (pf_unicode pf) others salt drawn now name p request_id)"
  by (cases flow) (auto simp: register_def registration_admission_def flow_register_def bindP_def returnP_def
      fun_eq_iff split: prod.splits sum.splits)

lemma registration_admission_sound:
  assumes "registration_admission pf flow ip w = (Inr (), w1)" "sound_flow flow" "wf (w_db w)"
  shows "sound_step (w_db w) (w_db w1)"
proof (cases flow)
  case None
  then show ?thesis
    using assms(1) sound_step_refl [OF assms(3)] by (simp add: registration_admission_def returnP_def)
next
  case (Some f)
  obtain w2 where 1: "in_limits (check_registration_attempt pf (af_defense f) (af_io f) ip) w = (Inr (), w2)"
    and 2: "check_admitted_request f w2 = (Inr (), w1)"
    using assms(1) unfolding registration_admission_def Some by (auto elim!: bindP_InrE)
  have step: "sound_step (w_db w) (w_db w2)"
    using 1 sound_step_refl [OF assms(3)] by (auto split: prod.splits)
  have "sound_step (w_db w2) (w_db w1)"
    using keeps_soundD [OF sound_admitted_check [OF assms(2) [unfolded Some]] sound_step_wf [OF step] 2] by simp
  with step show ?thesis by (rule sound_step_trans)
qed

lemma registration_action_Inr:
  assumes "argon2_ok libs" "sound_others others" "wf (w_db w)"
    and "registration_action libs uc others salt drawn now name p request_id w = (Inr i, w')"
  shows "\<exists>s. db_state (w_db (others 0 w)) = Some s \<and> st_public_registration_enabled s \<and>
     base_account (w_db (others 0 w)) (w_db w') i (strip name) (pl_hash libs password_hasher salt p) False"
proof -
  obtain h d where h: "policy_checked (hash_new_password libs uc salt p [name]) = Inr h"
    and run: "transaction (register_body uc drawn now name h request_id) (w_db (others 0 w)) = (Inr i, d)"
      "w' = (others 0 w)\<lparr>w_db := d\<rparr>"
    using assms(4) unfolding registration_action_def
    by (auto simp: proc_simps simp del: in_parts)
  have wf: "wf (w_db (others 0 w))"
    using assms(2,3) sound_step_wf unfolding sound_others_def by blast
  have "h = pl_hash libs password_hasher salt p"
    using h by (simp add: policy_checked_Inr hash_new_password_Inr)
  then show ?thesis
    using register_body_Inr [OF wf transaction_Inr [OF run(1)]] provisioned_base_account [OF wf] run(2)
    by fastforce
qed

lemma register_Inr:
  assumes "argon2_ok libs" "sound_others others" "sound_flow flow" "wf (w_db w)"
    and "register libs pf others flow ip salt drawn now name p request_id w = (Inr i, w')"
  shows "\<exists>w1 s. registration_admission pf flow ip w = (Inr (), w1) \<and> sound_step (w_db w) (w_db (others 0 w1)) \<and>
     db_state (w_db (others 0 w1)) = Some s \<and> st_public_registration_enabled s \<and>
     base_account (w_db (others 0 w1)) (w_db w') i (strip name) (pl_hash libs password_hasher salt p) False"
proof -
  let ?action = "registration_action libs (pf_unicode pf) others salt drawn now name p request_id"
  obtain w1 where adm: "registration_admission pf flow ip w = (Inr (), w1)" and act: "?action w1 = (Inr i, w')"
    using assms(5) unfolding register_split by (auto elim!: bindP_InrE)
  have step: "sound_step (w_db w) (w_db w1)"
    by (rule registration_admission_sound [OF adm assms(3,4)])
  have "sound_step (w_db w1) (w_db (others 0 w1))"
    using assms(2) sound_step_wf [OF step] by (simp add: sound_others_def)
  then show ?thesis
    using registration_action_Inr [OF assms(1,2) sound_step_wf [OF step] act] sound_step_trans [OF step] adm
    by blast
qed

lemma create_user_by_administrator_Inr:
  assumes "argon2_ok libs" "sound_others others" "wf (w_db w)"
    and "create_user_by_administrator libs uc others ctx salt drawn now name p w = (Inr i, w')"
  shows "\<exists>au. current_actor (w_db (others 0 w)) ctx au \<and>
     permission_value USERS_CREATE \<in> a_permissions (authority_spec (w_db (others 0 w)) False au) \<and>
     base_account (w_db (others 0 w)) (w_db w') i (strip name) (pl_hash libs password_hasher salt p) True"
proof -
  obtain h d where h: "policy_checked (hash_new_password libs uc salt p [name]) = Inr h"
    and run: "transaction (create_user_body uc ctx drawn now name h) (w_db (others 0 w)) = (Inr i, d)"
      "w' = (others 0 w)\<lparr>w_db := d\<rparr>"
    using assms(4) unfolding create_user_by_administrator_def
    by (auto simp: proc_simps simp del: in_parts)
  have wf: "wf (w_db (others 0 w))"
    using assms(2,3) sound_step_wf unfolding sound_others_def by blast
  have "h = pl_hash libs password_hasher salt p"
    using h by (simp add: policy_checked_Inr hash_new_password_Inr)
  then show ?thesis
    using create_user_body_Inr [OF wf transaction_Inr [OF run(1)]] provisioned_base_account [OF wf] run(2)
    by fastforce
qed


subsection \<open>Operations nobody interferes with\<close>

lemma succeeded_event_total:
  assumes "20 \<le> length action \<and> length action \<le> 120 \<and> fullmatch ACCOUNT_SECURITY_ACTION_RE (lit action)"
    and "reason_code_format reason" "request_id_format request_id"
  shows "\<exists>e. succeeded_event action reason actor_type actor target source request_id db = Inr (add_account_event e db)"
  using assms by (auto simp: succeeded_event_def bindE_def new_account_event_Inr split: sum.split)
    (metis Inr_Inl_False new_account_event_Inr)+

lemma account_actions:
  "20 \<le> length ''account_security.password.changed'' \<and> length ''account_security.password.changed'' \<le> 120 \<and>
   fullmatch ACCOUNT_SECURITY_ACTION_RE (lit ''account_security.password.changed'')"
  "20 \<le> length ''account_security.password.admin_reset'' \<and> length ''account_security.password.admin_reset'' \<le> 120 \<and>
   fullmatch ACCOUNT_SECURITY_ACTION_RE (lit ''account_security.password.admin_reset'')"
  "20 \<le> length ''account_security.registration.completed'' \<and> length ''account_security.registration.completed'' \<le> 120 \<and>
   fullmatch ACCOUNT_SECURITY_ACTION_RE (lit ''account_security.registration.completed'')"
  by code_simp+

lemma account_reasons:
  "reason_code_format ''password_changed''" "reason_code_format ''temporary_password_set''"
  "reason_code_format ''permanent_password_set''" "reason_code_format ''registration_completed''"
  by code_simp+

lemma hash_new_password_total:
  "\<not> isl (validate_new_password uc p ids) \<Longrightarrow>
     hash_new_password libs uc salt p ids = Inr (pl_hash libs password_hasher salt p)"
  by (simp add: hash_new_password_Inr)

lemma change_password_body_total:
  assumes "wf db" "current_actor db ctx u" "u_password_hash u \<noteq> None" "request_id_format (c_request_id ctx)"
  shows "\<exists>e. change_password_body ctx now (snapshot_from_user u) h db =
     Inr ((), add_account_event e (password_set now h False u db))"
proof -
  have u: "map_of (lock_users db {pr_user_id (c_principal ctx)}) (pr_user_id (c_principal ctx)) = Some u"
    "u_is_active u" "u_token_version u = pr_token_version (c_principal ctx)" "live_user u"
    using assms(2) by (simp_all add: lock_one_user [OF assms(1)] current_actor_def)
  obtain s where s: "lock_rbac_state db = Inr s"
    using assms(1) by (auto simp: wf_def state_ok_def lock_rbac_state_def split: option.splits)
  obtain e where "succeeded_event ''account_security.password.changed'' ''password_changed'' USER_ACTOR
      (Some (u_id u)) (Some (u_id u)) (c_audit_source ctx) (c_request_id ctx) (password_set now h False u db) =
      Inr (add_account_event e (password_set now h False u db))"
    using succeeded_event_total [OF account_actions(1) account_reasons(1) assms(4)] by blast
  then show ?thesis
    using u s assms(3)
    by (auto simp: change_password_body_def same_identity_def same_password_state_def password_set_def)
qed

lemma change_password_total:
  assumes "wf (w_db w)" "argon2_ok libs" "current_actor (w_db w) ctx u" "\<not> u_must_change_password u"
    and "u_password_hash u = Some h" "readable_hash libs p h" "pl_verify libs h p = Verified"
    and "\<not> isl (validate_login_password_input p)" "p \<noteq> new"
    and "\<not> isl (validate_new_password uc new [u_user_name u])" "request_id_format (c_request_id ctx)"
  shows "\<exists>e. change_password libs uc undisturbed ctx salt now p new w =
     (Inr True, w\<lparr>w_db := add_account_event e
       (password_set now (pl_hash libs password_hasher salt new) False u (w_db w))\<rparr>)"
proof -
  let ?me = "pr_user_id (c_principal ctx)" and ?h = "pl_hash libs password_hasher salt new"
  have u: "u \<in> set (db_users (w_db w))" "u_id u = ?me" "live_user u" "u_is_active u"
    "u_token_version u = pr_token_version (c_principal ctx)"
    using assms(3) by (simp_all add: current_actor_def)
  have "find (\<lambda>u. u_id u = ?me) (db_users (w_db w)) = Some u"
    using u(1,2) by (cases "find (\<lambda>u. u_id u = ?me) (db_users (w_db w))")
      (auto simp: find_None_iff dest!: find_SomeD intro: wf_same_user [OF assms(1)])
  then have load: "load_snapshot_by_user_id ?me (w_db w) = Some (snapshot_from_user u)"
    by (simp add: load_snapshot_by_user_id_def)
  have verify: "verify_password libs p (Some h) = Inr True"
    using verify_details_readable [of libs p "Some h"] assms(6-8) by (simp add: verify_password_def)
  have re: "reauthenticate_actor libs undisturbed ctx p ''account_security.password.changed'' ?me w =
      (Inr (snapshot_from_user u), w)"
    using load verify u assms(4,5)
    by (simp add: reauthenticate_actor_def valid_credentials_def verify_current_password_def bindP_def
        snapshot_hash_def handleP_def)
  obtain e where "change_password_body ctx now (snapshot_from_user u) ?h (w_db w) =
      Inr ((), add_account_event e (password_set now ?h False u (w_db w)))"
    using change_password_body_total [OF assms(1,3)] assms(5,11) by blast
  then have "transaction (change_password_body ctx now (snapshot_from_user u) ?h) (w_db w) =
      (Inr (), add_account_event e (password_set now ?h False u (w_db w)))"
    using password_change.Inr_iff [where q = "(ctx, now, snapshot_from_user u, ?h)", OF assms(1)]
      argon2_shape [OF assms(2)] by (simp add: hash_shape_def)
  then show ?thesis
    using assms(9,10) re
    by (auto simp: change_password_def bindP_def hash_new_password_total identity_values_def policy_checked_def)
qed


lemma reset_password_body_total:
  assumes "lock_authorized_reset_target ctx t db = Inr u" "request_id_format (c_request_id ctx)"
    and "\<not> isl (validate_new_password uc new [u_user_name u])"
  shows "\<exists>e. reset_password_body uc ctx now t new temporary h db =
     Inr ((), add_account_event e (password_set now h temporary u db))"
proof -
  obtain e where "succeeded_event ''account_security.password.admin_reset''
      (if temporary then ''temporary_password_set'' else ''permanent_password_set'') USER_ACTOR
      (Some (pr_user_id (c_principal ctx))) (Some (u_id u)) (c_audit_source ctx) (c_request_id ctx)
      (password_set now h temporary u db) = Inr (add_account_event e (password_set now h temporary u db))"
    using succeeded_event_total [OF account_actions(2) _ assms(2), of
        "if temporary then ''temporary_password_set'' else ''permanent_password_set''"] account_reasons(2,3)
    by (cases temporary) (simp_all, blast+)
  moreover have "policy_checked (validate_new_password uc new [u_user_name u]) = Inr new"
    using assms(3) by (cases "validate_new_password uc new [u_user_name u]")
      (auto simp: policy_checked_def dest: validate_new_password_same)
  ultimately show ?thesis
    using assms(1) by (auto simp: reset_password_body_def password_set_def)
qed

lemma reset_password_total:
  assumes "wf (w_db w)" "argon2_ok libs" "lock_authorized_reset_target ctx t (w_db w) = Inr u"
    and "\<not> isl (validate_new_password uc new [u_user_name u])" "u_user_name u \<noteq> []"
    and "request_id_format (c_request_id ctx)"
  shows "\<exists>e. reset_user_password libs uc undisturbed ctx salt now t new temporary w =
     (Inr True, w\<lparr>w_db := add_account_event e
       (password_set now (pl_hash libs password_hasher salt new) temporary u (w_db w))\<rparr>)"
proof -
  let ?h = "pl_hash libs password_hasher salt new"
  obtain e where "reset_password_body uc ctx now t new temporary ?h (w_db w) =
      Inr ((), add_account_event e (password_set now ?h temporary u (w_db w)))"
    using reset_password_body_total [OF assms(3,6,4)] by blast
  then have commit: "transaction (reset_password_body uc ctx now t new temporary ?h) (w_db w) =
      (Inr (), add_account_event e (password_set now ?h temporary u (w_db w)))"
    using password_reset.Inr_iff [where q = "(uc, ctx, now, t, new, temporary, ?h)", OF assms(1)]
      argon2_shape [OF assms(2)] by (simp add: hash_shape_def)
  have check: "transaction (\<lambda>db. bindE (lock_authorized_reset_target ctx t db) (\<lambda>u. Inr (u, db))) (w_db w) = (Inr u, w_db w)"
    using reset_check.Inr_iff [where q = "(ctx, t)", OF assms(1)] assms(3) by simp
  show ?thesis
    using commit check assms(4,5)
    by (auto simp: reset_user_password_def recording_denial_def bindP_def handleP_def
        hash_new_password_total policy_checked_def)
qed

text \<open>The admission flow of a completed reset runs before the reset itself.\<close>

lemma complete_reset_after_flow:
  assumes "complete_password_reset libs pf others flow ip salt now name p new request_id w = (Inr r, w')"
    and "sound_flow flow" "wf (w_db w)"
  shows "\<exists>w1. sound_step (w_db w) (w_db w1) \<and>
     complete_password_reset libs pf others None ip salt now name p new request_id w1 = (Inr r, w')"
proof (cases flow)
  case None
  then show ?thesis
    using assms(1) sound_step_refl [OF assms(3)] by blast
next
  case (Some f)
  let ?verify = "verify_temporary_snapshot libs name p"
  obtain s w3 where new: "p \<noteq> new"
    and run: "flow_complete_temporary_password_reset pf f ip ?verify w = (Inr s, w3)"
    and rest: "bindP (liftP (policy_checked (hash_new_password libs (pf_unicode pf) salt new (identity_values s)))) (\<lambda>new_hash.
      bindP (meanwhile others 0) (\<lambda>_.
      bindP (in_db (transaction (complete_reset_body now s new_hash request_id))) (\<lambda>_. returnP True))) w3 = (Inr r, w')"
    using assms(1) Some unfolding complete_password_reset_def Let_def
    by (auto split: if_splits elim!: bindP_InrE [where m = "flow_complete_temporary_password_reset pf f ip ?verify"])
  obtain w1 w2 where 1: "in_limits (check_temporary_password_completion pf (af_defense f) (af_io f) ip) w = (Inr (), w1)"
    and 2: "check_admitted_request f w1 = (Inr (), w2)" and 3: "valid_credentials ?verify w2 = (Inr s, w3)"
    using run unfolding flow_complete_temporary_password_reset_def verify_admitted_credentials_def
    by (auto elim!: bindP_InrE)
  have "sound_step (w_db w) (w_db w1)"
    using 1 sound_step_refl [OF assms(3)] by (auto split: prod.splits)
  moreover have "sound_step (w_db w1) (w_db w2)"
    using keeps_soundD [OF sound_admitted_check [OF assms(2) [unfolded Some]] sound_step_wf [OF calculation] 2] by simp
  moreover have "complete_password_reset libs pf others None ip salt now name p new request_id w2 = (Inr r, w')"
    using new 3 rest by (simp add: complete_password_reset_def)
  ultimately show ?thesis
    using sound_step_trans by blast
qed


subsection \<open>Logging in with a new password\<close>

lemma account_by_name:
  assumes "wf db" "u \<in> set (db_users db)"
  shows "load_snapshot_by_user_name (u_user_name u) db = Some (snapshot_from_user u)"
  using find_user_name [OF assms(1), of "u_user_name u" u] assms(2) by (simp add: load_snapshot_by_user_name_def)

lemma validated_login_input:
  "\<not> isl (validate_new_password uc p ids) \<Longrightarrow> \<not> isl (validate_login_password_input p)"
  by (cases "validate_login_password_input p") (auto simp: validate_new_password_def)

lemma hashed_account_logins:
  assumes "wf (w_db w)" "argon2_ok libs" "u \<in> set (db_users (w_db w))" "live_user u" "u_is_active u"
    and "u_password_hash u = Some (pl_hash libs password_hasher salt new)"
    and "\<not> isl (validate_login_password_input new)"
  shows "fst (authenticate libs pf undisturbed None ip salt' (u_user_name u) new w) = Inr (authenticated_user u)"
    and "p \<noteq> new \<Longrightarrow> authenticate libs pf undisturbed None ip salt' (u_user_name u) p w = (Inl Invalid_login_credentials, w)"
proof -
  have readable: "readable_account libs q (u_user_name u) (w_db w)" for q
    using argon2_readable [OF assms(2)] assms(6)
    by (simp add: readable_account_def account_by_name [OF assms(1,3)] snapshot_hash_def)
  show "fst (authenticate libs pf undisturbed None ip salt' (u_user_name u) new w) = Inr (authenticated_user u)"
    using assms(3-6) argon2_verify [OF assms(2)]
    by (intro admitted_login [OF assms(1,2) readable _ assms(7)]) (simp add: admitted_account_def)
  have "\<not> admitted_account libs (u_user_name u) p (w_db w) v" if "p \<noteq> new" for v
  proof
    assume v: "admitted_account libs (u_user_name u) p (w_db w) v"
    then have "v = u"
      using find_user_name [OF assms(1), of "u_user_name u"] assms(3)
      unfolding admitted_account_def by (metis option.inject)
    then show False
      using v assms(6) that argon2_verify [OF assms(2)] by (auto simp: admitted_account_def)
  qed
  then show "authenticate libs pf undisturbed None ip salt' (u_user_name u) p w = (Inl Invalid_login_credentials, w)"
    if "p \<noteq> new"
    using that by (intro refused_login readable) blast
qed

end
