(* ===== verification/Sample_Accounts.thy ===== *)
theory Sample_Accounts
  imports Account_Logins Sample Json_Text
begin

text \<open>
  Sample passwords: an Argon2 that writes the password down in the shape of an encoded hash,
  which meets every assumption made of the real one, and the sample installation with the
  password of Alice set.
\<close>

subsection \<open>Texts a pattern reads in one piece\<close>

definition reads :: "rx \<Rightarrow> pystr \<Rightarrow> bool" where
  "reads r t \<longleftrightarrow> (\<forall>b s. \<exists>b'. matches (\<lambda>_. False) r (b, t @ s) (b', s))"

lemma reads_fullmatch: "reads r t \<Longrightarrow> fullmatch r t"
  unfolding fullmatch_iff reads_def by (metis append_Nil2)

lemma reads_Cls: "f c \<Longrightarrow> reads (Cls f) [c]"
  by (auto simp: reads_def intro: matches.cls)

lemma reads_Eps: "reads Eps []"
  by (auto simp: reads_def intro: matches.eps)

lemma reads_Cat: "reads r t \<Longrightarrow> reads r' u \<Longrightarrow> reads (Cat r r') (t @ u)"
  unfolding reads_def by (metis append.assoc matches.cat)

lemma reads_Star: "list_all f t \<Longrightarrow> reads (Star (Cls f)) t"
proof (induction t)
  case Nil
  show ?case by (auto simp: reads_def intro: matches.star_done)
next
  case (Cons c t)
  then show ?case
    unfolding reads_def by simp (metis matches.star_more matches.cls)
qed

lemma reads_Rep: "list_all f t \<Longrightarrow> length t = n \<Longrightarrow> reads (Rep n n (Cls f)) t"
  unfolding reads_def matches_Rep_Cls by auto

lemma reads_Seq: "reads r t \<Longrightarrow> reads (Seq (q # rs)) u \<Longrightarrow> reads (Seq (r # q # rs)) (t @ u)"
  by (simp add: reads_Cat)

lemma reads_Word: "reads (Word s) (lit s)"
proof (induction s)
  case (Cons c s)
  then show ?case
    using reads_Cls [of "\<lambda>d. d = of_char c" "of_char c"] reads_Cat [of "Cls (\<lambda>d. d = of_char c)" "[of_char c]"]
    by (cases s) (auto simp: reads_Eps lit_def)
qed (simp add: reads_Eps lit_def)

subsection \<open>A readable Argon2\<close>

definition sample_code :: "int \<Rightarrow> pystr" where
  "sample_code c = (if c < 0 then 43 # decimal (nat (- c)) else decimal (nat c))"

definition sample_blob :: "pystr \<Rightarrow> pystr" where
  "sample_blob s = replicate 16 120 @ concat (map (\<lambda>c. sample_code c @ [47]) s)"

definition sample_prefix :: string where
  "sample_prefix = ''$argon2id$v=19$m=65536,t=3,p=4$0123456789abcdef$''"

definition sample_hash :: "pystr \<Rightarrow> string" where
  "sample_hash s = sample_prefix @ ident (sample_blob s)"

definition sample_argon2 :: password_libs where
  "sample_argon2 =
     \<lparr>pl_hash = (\<lambda>params salt s. sample_hash s),
      pl_verify = (\<lambda>h s. if h = sample_hash s then Verified else Mismatch),
      pl_needs_rehash = (\<lambda>params h. False),
      pl_parameters = (\<lambda>h. Some password_hasher)\<rparr>"

definition sample_decode :: "pystr \<Rightarrow> int" where
  "sample_decode t = (if hd t = 43 then - int (the (read_nat (tl t))) else int (the (read_nat t)))"

lemma sample_decode_code [simp]: "sample_decode (sample_code c) = c"
proof -
  have "hd (decimal n) \<noteq> 43" for n
    using hd_decimal [of n] by (auto simp: is_digit_def)
  then show ?thesis
    by (simp add: sample_decode_def sample_code_def)
qed

lemma sample_code_inj: "sample_code c = sample_code d \<longleftrightarrow> c = d"
  by (metis sample_decode_code)

lemma sample_code_chars: "x \<in> set (sample_code c) \<Longrightarrow> x = 43 \<or> is_digit x"
  using decimal_digits by (auto simp: sample_code_def list_all_iff split: if_splits)

lemma separated_inj:
  "concat (map (\<lambda>c. sample_code c @ [47]) s) = concat (map (\<lambda>c. sample_code c @ [47]) t) \<Longrightarrow> s = t"
proof (induction s arbitrary: t)
  case (Cons c s)
  then obtain d t' where t: "t = d # t'" by (cases t) auto
  let ?r = "concat (map (\<lambda>c. sample_code c @ [47]) s)" and ?r' = "concat (map (\<lambda>c. sample_code c @ [47]) t')"
  have eq: "sample_code c @ 47 # ?r = sample_code d @ 47 # ?r'"
    using Cons.prems t by simp
  have "takeWhile (\<lambda>x. x \<noteq> 47) (sample_code c @ 47 # r) = sample_code c" for c r
    by (subst takeWhile_append2) (auto dest!: sample_code_chars simp: is_digit_def)
  then have "sample_code c = sample_code d"
    using eq by metis
  then show ?case
    using eq t Cons.IH [of t'] by (auto simp: sample_code_inj)
qed (cases t, auto)


lemma sample_blob_inj: "sample_blob s = sample_blob t \<longleftrightarrow> s = t"
  using separated_inj by (auto simp: sample_blob_def)

lemma sample_blob_chars: "c \<in> set (sample_blob s) \<Longrightarrow> 0 \<le> c \<and> c < 128 \<and> (is_alnum_ascii c \<or> chr_in ''+/'' c)"
  by (auto simp: sample_blob_def is_alnum_ascii_def is_lower_def chr_in_def lit_def is_digit_def
      split: if_splits dest!: sample_code_chars)

lemma lit_ident: "(\<And>c. c \<in> set t \<Longrightarrow> 0 \<le> c \<and> c < 256) \<Longrightarrow> lit (ident t) = t"
proof (induction t)
  case (Cons c t)
  then have c: "0 \<le> c" "c < 256" by simp_all
  have "(of_char (char_of (nat c) :: char) :: int) = int (of_char (char_of (nat c) :: char) :: nat)"
    by (simp only: of_nat_of_char)
  also have "(of_char (char_of (nat c) :: char) :: nat) = nat c"
    using c by (simp add: nat_less_iff)
  finally show ?case
    using Cons c by (simp add: lit_def ident_def)
qed (simp add: lit_def ident_def)

lemma lit_sample_blob: "lit (ident (sample_blob s)) = sample_blob s"
  using sample_blob_chars by (intro lit_ident) fastforce

lemma sample_hash_inj: "sample_hash s = sample_hash t \<longleftrightarrow> s = t"
  using lit_sample_blob sample_blob_inj by (metis sample_hash_def same_append_eq)

lemma reads_blob:
  assumes "list_all f (t @ u)" "length t = 16"
  shows "reads (Cat (Rep 16 16 (Cls f)) (Star (Cls f))) (t @ u)"
  using assms by (intro reads_Cat reads_Rep reads_Star) simp_all

lemma sample_hash_shape: "fullmatch PASSWORD_HASH_RE (lit (sample_hash s))"
proof -
  let ?b = "\<lambda>c. is_alnum_ascii c \<or> chr_in ''+/'' c"
  let ?number = "Cat (Cls (\<lambda>c. 49 \<le> c \<and> c \<le> 57)) (Star (Cls is_digit))"
  let ?blob = "Cat (Rep 16 16 (Cls ?b)) (Star (Cls ?b))"
  have number: "reads ?number (lit ''65536'')" "reads ?number (lit ''3'')" "reads ?number (lit ''4'')"
    using reads_Cat [OF reads_Cls reads_Star, of "\<lambda>c. 49 \<le> c \<and> c \<le> 57" 54 is_digit "lit ''5536''"]
      reads_Cat [OF reads_Cls reads_Star, of "\<lambda>c. 49 \<le> c \<and> c \<le> 57" 51 is_digit "[]"]
      reads_Cat [OF reads_Cls reads_Star, of "\<lambda>c. 49 \<le> c \<and> c \<le> 57" 52 is_digit "[]"]
    by (simp_all add: lit_def is_digit_def)
  have salt: "reads ?blob (lit ''0123456789abcdef'')"
    using reads_blob [of ?b "lit ''0123456789abcdef''" "[]"] by (simp add: lit_def) (simp add: is_alnum_ascii_def is_digit_def is_lower_def)
  have blob: "reads ?blob (sample_blob s)"
    using reads_blob [of ?b "replicate 16 120" "concat (map (\<lambda>c. sample_code c @ [47]) s)"] sample_blob_chars [of _ s]
    unfolding sample_blob_def list_all_iff by simp
  have "reads PASSWORD_HASH_RE (lit ''$argon2id$v=19$m='' @ lit ''65536'' @ lit '',t='' @ lit ''3'' @
      lit '',p='' @ lit ''4'' @ lit ''$'' @ lit ''0123456789abcdef'' @ lit ''$'' @ sample_blob s)"
    unfolding PASSWORD_HASH_RE_def Let_def
    by (intro reads_Seq reads_Word number salt) (simp add: blob)
  moreover have "lit ''$argon2id$v=19$m='' @ lit ''65536'' @ lit '',t='' @ lit ''3'' @
      lit '',p='' @ lit ''4'' @ lit ''$'' @ lit ''0123456789abcdef'' @ lit ''$'' @ sample_blob s = lit (sample_hash s)"
    using lit_sample_blob [of s] by (simp add: sample_hash_def sample_prefix_def lit_def)
  ultimately show ?thesis
    by (metis reads_fullmatch)
qed

lemma sample_argon2_ok: "argon2_ok sample_argon2"
  using sample_hash_shape sample_hash_inj by (auto simp: argon2_ok_def sample_argon2_def)

lemma sample_readable: "readable_hash sample_argon2 p h"
  by (auto simp: readable_hash_def sample_argon2_def safe_parameters_def password_hasher_def
      ARGON2_MEMORY_COST_KIB_def ARGON2_TIME_COST_def ARGON2_PARALLELISM_def ARGON2_SALT_LENGTH_def
      ARGON2_HASH_LENGTH_def)


subsection \<open>An installation with passwords\<close>

definition sample_base :: database where
  "sample_base = sample_db\<lparr>
     db_permissions := db_permissions sample_db @ map sample_permission
       [(UUID 30, ''users:password:reset''), (UUID 31, ''users:create'')],
     db_role_permissions := db_role_permissions sample_db @ map sample_grant
       [(R_SUPER, UUID 30), (R_ADMIN, UUID 30), (R_SUPER, UUID 31), (R_ADMIN, UUID 31)],
     db_state := Some \<lparr>st_epoch = 0, st_public_registration_enabled = True\<rparr>\<rparr>"

definition OLD_SECRET :: pystr where "OLD_SECRET = lit ''Correct7Horse''"
definition NEW_SECRET :: pystr where "NEW_SECRET = lit ''Battery9Staple''"

definition alice_row :: user where
  "alice_row = rotate_password 0 (sample_hash OLD_SECRET) False (sample_user ALICE ''alice'' False)"

definition sample_accounts :: database where
  "sample_accounts = save_user alice_row sample_base"

definition sample_world :: world where
  "sample_world = \<lparr>w_db = sample_accounts, w_sessions = (\<lambda>_. None), w_limits = (\<lambda>_. None)\<rparr>"

lemma sample_world_db [simp]: "w_db sample_world = sample_accounts"
  by (simp add: sample_world_def)

lemma sample_base_wf: "wf sample_base"
  unfolding wf_def
proof (intro conjI)
  show "keys_ok sample_base" by code_simp
  show "names_ok sample_base" by code_simp
  show "references_ok sample_base" by code_simp
  show "actors_ok sample_base" by code_simp
  show "rows_ok sample_base" by code_simp
  show "state_ok sample_base" by code_simp
  show "audit_ok sample_base" by code_simp
  show "subjects_ok sample_base" by code_simp
  show "length (super_admin_holders sample_base) = 1" by code_simp
qed

lemma alice_in: "alice_row \<in> set (db_users sample_accounts)"
  unfolding sample_accounts_def
  by (rule saved_user_in [where u = "sample_user ALICE ''alice'' False"])
    (simp_all add: alice_row_def sample_base_def sample_db_def)

lemma sample_accounts_wf: "wf sample_accounts"
proof -
  have row: "sample_user ALICE ''alice'' False \<in> set (db_users sample_base)"
    by (simp add: sample_base_def sample_db_def)
  have "sound_step sample_base sample_accounts"
    unfolding sample_accounts_def alice_row_def
    using user_checks_rotated [OF wf_user_checks [OF sample_base_wf row], of "sample_hash OLD_SECRET" 0 False]
      sample_hash_shape
    by (intro sound_save_user [OF sample_base_wf row]) (simp_all add: hash_shape_def sample_user_def)
  then show ?thesis by (rule sound_step_wf)
qed

lemma alice_fields [simp]:
  "u_id alice_row = ALICE" "u_user_name alice_row = lit ''alice''" "live_user alice_row" "u_is_active alice_row"
  "u_token_version alice_row = 0" "u_password_hash alice_row = Some (sample_hash OLD_SECRET)"
  "\<not> u_must_change_password alice_row"
  by (simp_all add: alice_row_def sample_user_def rotate_password_def)

lemma alice_current: "current_actor sample_accounts (sample_context ALICE) alice_row"
  using alice_in by (simp add: current_actor_def sample_context_def)

lemma alice_admitted: "admitted_account sample_argon2 (lit ''alice'') OLD_SECRET sample_accounts alice_row"
  using alice_in by (simp add: admitted_account_def sample_argon2_def)

lemma secrets_valid:
  "\<not> isl (validate_login_password_input OLD_SECRET)" "\<not> isl (validate_login_password_input NEW_SECRET)"
  "\<not> isl (validate_new_password ascii_db NEW_SECRET [lit ''alice''])"
  "\<not> isl (validate_new_password ascii_db NEW_SECRET [lit ''bob''])"
  "OLD_SECRET \<noteq> NEW_SECRET" "request_id_format ''req-1''"
  by code_simp+

lemma undisturbed_sound: "sound_others undisturbed"
  by (simp add: sound_others_def sound_step_refl)

lemma no_flow_sound: "sound_flow None"
  by (simp add: sound_flow_def)

lemma sample_readable_account: "readable_account sample_argon2 p name db"
  by (simp add: readable_account_def sample_readable)

text \<open>What is read off the installation does not depend on the hash.\<close>

lemma bob_reset_target_any:
  "lock_authorized_reset_target (sample_context ALICE) BOB
     (save_user (rotate_password 0 h False (sample_user ALICE ''alice'' False)) sample_base) =
     Inr (sample_user BOB ''bob'' False)"
  by code_simp

lemma bob_reset_target:
  "lock_authorized_reset_target (sample_context ALICE) BOB sample_accounts = Inr (sample_user BOB ''bob'' False)"
  unfolding sample_accounts_def alice_row_def by (rule bob_reset_target_any)

end
