(* ===== verification/Account_Properties.thy ===== *)
theory Account_Properties
  imports Sample_Accounts Sample_Platform
begin

text \<open>
  What the authentication service promises: that its operations keep the installation in order
  whatever runs in between, whom a login admits, what a change or a reset of a password needs
  and does, and what a new user gets; with the sample accounts the promises are exercised on.
\<close>

subsection \<open>Calls of the service\<close>

datatype account_call =
    Set_registration authorization_context bool
  | Register pystr string uuid int pystr pystr string
  | Create_user authorization_context string uuid int pystr pystr
  | Authenticate pystr string pystr pystr
  | Change_password authorization_context string int pystr pystr
  | Reset_password authorization_context string int uuid pystr bool
  | Complete_reset pystr string int pystr pystr pystr string
  | Operator_reset string int uuid pystr string

definition outcome :: "(failure + 'a) \<times> world \<Rightarrow> failure option \<times> world" where
  "outcome res = (case res of (Inl e, w) \<Rightarrow> (Some e, w) | (Inr _, w) \<Rightarrow> (None, w))"

fun run_account_call ::
    "password_libs \<Rightarrow> platform \<Rightarrow> others \<Rightarrow> abuse_flow option \<Rightarrow> account_call \<Rightarrow> world \<Rightarrow> failure option \<times> world" where
  "run_account_call libs pf others flow (Set_registration ctx enabled) w =
     outcome (in_db (set_registration_enabled ctx enabled) w)"
| "run_account_call libs pf others flow (Register ip salt drawn now name p request_id) w =
     outcome (register libs pf others flow ip salt drawn now name p request_id w)"
| "run_account_call libs pf others flow (Create_user ctx salt drawn now name p) w =
     outcome (create_user_by_administrator libs (pf_unicode pf) others ctx salt drawn now name p w)"
| "run_account_call libs pf others flow (Authenticate ip salt name p) w =
     outcome (authenticate libs pf others flow ip salt name p w)"
| "run_account_call libs pf others flow (Change_password ctx salt now p new) w =
     outcome (change_password libs (pf_unicode pf) others ctx salt now p new w)"
| "run_account_call libs pf others flow (Reset_password ctx salt now t p temporary) w =
     outcome (reset_user_password libs (pf_unicode pf) others ctx salt now t p temporary w)"
| "run_account_call libs pf others flow (Complete_reset ip salt now name p new request_id) w =
     outcome (complete_password_reset libs pf others flow ip salt now name p new request_id w)"
| "run_account_call libs pf others flow (Operator_reset salt now i p request_id) w =
     outcome (operator_reset_super_admin_password libs (pf_unicode pf) others salt now i p request_id w)"

lemma outcome_sound:
  assumes "keeps_sound m" "wf (w_db w)" "outcome (m w) = (r, w')"
  shows "sound_step (w_db w) (w_db w') \<and> (\<forall>n. r \<noteq> Some (Integrity_error n))"
proof -
  obtain q w1 where m: "m w = (q, w1)" by fastforce
  show ?thesis
    using keeps_soundD [OF assms(1,2) m] assms(3) m
    by (auto simp: outcome_def plain_def split: sum.splits)
qed

lemma run_account_call_sound:
  assumes "argon2_ok libs" "sound_others others" "sound_flow flow" "wf (w_db w)"
    and "run_account_call libs pf others flow c w = (r, w')"
  shows "sound_step (w_db w) (w_db w') \<and> (\<forall>n. r \<noteq> Some (Integrity_error n))"
proof (cases c)
  case (Set_registration ctx enabled)
  then show ?thesis
    using outcome_sound [OF sound_set_registration assms(4)] assms(5) by simp
next
  case (Register ip salt drawn now name p request_id)
  then show ?thesis
    using outcome_sound [OF sound_register [OF assms(1-3)] assms(4)] assms(5) by simp
next
  case (Create_user ctx salt drawn now name p)
  then show ?thesis
    using outcome_sound [OF sound_create_user [OF assms(1,2)] assms(4)] assms(5) by simp
next
  case (Authenticate ip salt name p)
  then show ?thesis
    using outcome_sound [OF sound_authenticate [OF assms(1-3)] assms(4)] assms(5) by simp
next
  case (Change_password ctx salt now p new)
  then show ?thesis
    using outcome_sound [OF sound_change_password [OF assms(1,2)] assms(4)] assms(5) by simp
next
  case (Reset_password ctx salt now t p temporary)
  then show ?thesis
    using outcome_sound [OF sound_reset_user_password [OF assms(1,2)] assms(4)] assms(5) by simp
next
  case (Complete_reset ip salt now name p new request_id)
  then show ?thesis
    using outcome_sound [OF sound_complete_reset [OF assms(1-3)] assms(4)] assms(5) by simp
next
  case (Operator_reset salt now i p request_id)
  then show ?thesis
    using outcome_sound [OF sound_operator_reset [OF assms(1,2)] assms(4)] assms(5) by simp
qed

subsection \<open>Ended sessions\<close>

text \<open>The user whose password a successful call has set, if any.\<close>

fun password_owner :: "account_call \<Rightarrow> database \<Rightarrow> uuid option" where
  "password_owner (Change_password ctx salt now p new) db = Some (pr_user_id (c_principal ctx))"
| "password_owner (Reset_password ctx salt now t p temporary) db = Some t"
| "password_owner (Complete_reset ip salt now name p new request_id) db =
     map_option u_id (find (\<lambda>u. u_user_name u = name) (db_users db))"
| "password_owner (Operator_reset salt now i p request_id) db = Some i"
| "password_owner _ db = None"

lemma outcome_None: "outcome res = (None, w') \<Longrightarrow> \<exists>x. res = (Inr x, w')"
  by (auto simp: outcome_def split: prod.splits sum.splits)

lemma rotated_token:
  assumes "recorded a r ac tg (password_set now h m u db) db'" "u \<in> set (db_users db)"
  shows "\<exists>u' \<in> set (db_users db'). u_id u' = u_id u \<and> u_token_version u' = u_token_version u + 1"
proof -
  let ?row = "(rotate_password now h m u)\<lparr>u_token_version := u_token_version u + 1\<rparr>"
  have "?row \<in> set (db_users db')"
    using recorded_tables [OF assms(1)] saved_user_in [OF assms(2), of ?row] by (simp add: password_set_def)
  then show ?thesis
    by (intro bexI [of _ ?row]) simp_all
qed


lemma sound_others_step: "sound_others others \<Longrightarrow> wf (w_db w) \<Longrightarrow> sound_step (w_db w) (w_db (others i w))"
  by (simp add: sound_others_def)

lemma user_of_later:
  assumes "sound_step old new" "v \<in> set (db_users old)" "u \<in> set (db_users new)" "u_id u = u_id v"
  shows "user_step v u"
proof -
  obtain v' where v': "v' \<in> set (db_users new)" "user_step v v'"
    using evolves_user [OF _ assms(2)] assms(1) unfolding sound_step_def by blast
  then have "v' = u"
    using wf_same_user [OF sound_step_wf [OF assms(1)] v'(1) assms(3)] assms(4) by (simp add: user_step_def)
  with v' show ?thesis by simp
qed

definition token_moved :: "uuid \<Rightarrow> database \<Rightarrow> database \<Rightarrow> bool" where
  "token_moved t db db' \<longleftrightarrow>
     (\<exists>u \<in> set (db_users db). u_id u = t \<and>
        (\<exists>u' \<in> set (db_users db'). u_id u' = t \<and> u_token_version u' = u_token_version u + 1))"

lemma token_movedI:
  "recorded a r ac tg (password_set now h m u db) db' \<Longrightarrow> u \<in> set (db_users db) \<Longrightarrow> u_id u = t \<Longrightarrow> token_moved t db db'"
  using rotated_token by (fastforce simp: token_moved_def)

lemma completed_owner:
  assumes "sound_step (w_db w) db" "u \<in> set (db_users db)" "u_user_name u = name"
    and "find (\<lambda>u. u_user_name u = name) (db_users (w_db w)) = Some v"
  shows "u_id u = u_id v"
proof -
  have v: "v \<in> set (db_users (w_db w))" "u_user_name v = name"
    using find_SomeD [OF assms(4)] by auto
  then obtain v' where v': "v' \<in> set (db_users db)" "user_step v v'"
    using evolves_user [OF _ v(1)] assms(1) unfolding sound_step_def by blast
  have "inj_on u_user_name (set (db_users db))"
    using sound_step_wf [OF assms(1)] by (simp add: wf_def names_ok_def distinct_map)
  moreover have "u_user_name v' = u_user_name u"
    using v'(2) v(2) assms(3) by (simp add: user_step_def)
  ultimately have "v' = u"
    using v'(1) assms(2) by (auto dest: inj_onD)
  with v' show ?thesis by (simp add: user_step_def)
qed

lemma password_owner_moved:
  assumes "argon2_ok libs" "sound_others others" "sound_flow flow" "wf (w_db w)"
    and "run_account_call libs pf others flow c w = (None, w')" "password_owner c (w_db w) = Some t"
  shows "\<exists>db. sound_step (w_db w) db \<and> token_moved t db (w_db w')"
proof (cases c)
  case (Change_password ctx salt now p new)
  then obtain x where "change_password libs (pf_unicode pf) others ctx salt now p new w = (Inr x, w')"
    using assms(5) by (auto dest!: outcome_None)
  from change_password_Inr [OF this] show ?thesis
    using assms(6) Change_password sound_others_step [OF assms(2,4), of 1] by (auto intro: token_movedI)
next
  case (Reset_password ctx salt now t' p temporary)
  then obtain x where x: "reset_user_password libs (pf_unicode pf) others ctx salt now t' p temporary w = (Inr x, w')"
    using assms(5) by (auto dest!: outcome_None)
  have "wf (w_db (others 1 w))"
    using sound_others_step [OF assms(2,4)] sound_step_wf by blast
  from reset_user_password_Inr [OF assms(1) this x] show ?thesis
    using assms(6) Reset_password sound_others_step [OF assms(2,4), of 1]
    by (auto simp: authorized_reset_def intro: token_movedI)
next
  case (Complete_reset ip salt now name p new request_id)
  then obtain x where x: "complete_password_reset libs pf others flow ip salt now name p new request_id w = (Inr x, w')"
    using assms(5) by (auto dest!: outcome_None)
  obtain w1 where w1: "sound_step (w_db w) (w_db w1)"
    "complete_password_reset libs pf others None ip salt now name p new request_id w1 = (Inr x, w')"
    using complete_reset_after_flow [OF x assms(3,4)] by blast
  have step: "sound_step (w_db w) (w_db (others 0 w1))"
    using w1(1) sound_others_step [OF assms(2) sound_step_wf [OF w1(1)]] sound_step_trans by blast
  from complete_password_reset_Inr [OF w1(2)] show ?thesis
    using assms(6) Complete_reset completed_owner [OF step] step by (fastforce intro: token_movedI)
next
  case (Operator_reset salt now i p request_id)
  then obtain x where "operator_reset_super_admin_password libs (pf_unicode pf) others salt now i p request_id w = (Inr x, w')"
    using assms(5) by (auto dest!: outcome_None)
  from operator_reset_Inr [OF this] show ?thesis
    using assms(6) Operator_reset sound_others_step [OF assms(2,4), of 0] by (auto intro: token_movedI)
qed (use assms(6) in simp_all)

lemma moved_ends_contexts:
  assumes "sound_step old db" "token_moved t db db'" "current_actor old ctx v" "pr_user_id (c_principal ctx) = t"
    and "sound_step db' later"
  shows "\<not> current_actor later ctx v'"
proof -
  obtain u u' where u: "u \<in> set (db_users db)" "u_id u = t" "u' \<in> set (db_users db')" "u_id u' = t"
    "u_token_version u' = u_token_version u + 1"
    using assms(2) unfolding token_moved_def by blast
  have v: "v \<in> set (db_users old)" "u_id v = t" "u_token_version v = pr_token_version (c_principal ctx)"
    using assms(3,4) by (simp_all add: current_actor_def)
  have "u_token_version v \<le> u_token_version u"
    using user_of_later [OF assms(1) v(1) u(1)] u(2) v(2) by (simp add: user_step_def)
  then show ?thesis
    using outdated_context [OF assms(5) u(3)] u(4,5) v(3) assms(4) by simp
qed


subsection \<open>The promises\<close>

text \<open>
  C25: Whatever other requests do between its transactions, as long as they keep the
  installation in order, every operation of the authentication service keeps it in order too:
  the database stays well-formed, rows keep their history, the super administrator and the
  grants of the system roles stay what they were, and no constraint of the schema is ever what
  stops a call.
\<close>

theorem accounts_keep_the_installation:
  assumes "argon2_ok libs" "sound_others others" "sound_flow flow" "wf (w_db w)"
    and "run_account_call libs pf others flow c w = (r, w')"
  shows "wf (w_db w') \<and> evolves (w_db w) (w_db w') \<and>
     super_admin_holders (w_db w') = super_admin_holders (w_db w) \<and>
     system_grants (w_db w') = system_grants (w_db w) \<and> (\<forall>n. r \<noteq> Some (Integrity_error n))"
  using run_account_call_sound [OF assms] by (simp add: sound_step_def)

theorem accounts_keep_the_installation_witness:
  "\<exists>r w'. run_account_call sample_argon2 sample_platform undisturbed None
       (Register (lit ''10.0.0.1'') ''salt'' (UUID 50) 7 (lit ''dora'') NEW_SECRET ''req-1'') sample_world = (r, w') \<and>
     wf (w_db w') \<and> super_admin_holders (w_db w') = super_admin_holders sample_accounts"
proof -
  obtain r w' where run: "run_account_call sample_argon2 sample_platform undisturbed None
       (Register (lit ''10.0.0.1'') ''salt'' (UUID 50) 7 (lit ''dora'') NEW_SECRET ''req-1'') sample_world = (r, w')"
    by fastforce
  show ?thesis
    using accounts_keep_the_installation [OF sample_argon2_ok undisturbed_sound no_flow_sound _ run]
      run sample_accounts_wf by auto
qed

text \<open>
  C26: A login that succeeds, whatever happened in between and with or without a rehash, names
  an account of the database it leaves: live, active, of the given user name, with the token
  version and the change flag of the answer and a hash that verifies the given password.
\<close>

theorem login_admits_only_the_password:
  assumes "argon2_ok libs" "authenticate libs pf others flow ip salt name p w = (Inr a, w')"
  shows "\<exists>u \<in> set (db_users (w_db w')). u_user_name u = name \<and> live_user u \<and> u_is_active u \<and>
     (\<exists>h. u_password_hash u = Some h \<and> pl_verify libs h p = Verified) \<and>
     a = \<lparr>au_user_id = u_id u, au_token_version = u_token_version u,
          au_must_change_password = u_must_change_password u\<rparr>"
proof -
  obtain w1 where "verify_login_snapshot libs others salt name p False w1 = (Inr (Some a), w')"
    using assms(2) by (cases flow)
      (auto simp: authenticate_def Let_def valid_credentials_Inr flow_authenticate_def
        verify_admitted_credentials_def proc_simps simp del: in_parts)
  from verify_login_Inr [OF assms(1) this] show ?thesis
    unfolding admitted_account_def authenticated_user_def by blast
qed

theorem login_witness:
  "\<exists>a w'. authenticate sample_argon2 sample_platform undisturbed None (lit ''10.0.0.1'') ''salt''
       (lit ''alice'') OLD_SECRET sample_world = (Inr a, w') \<and>
     (\<exists>u \<in> set (db_users (w_db w')). u_user_name u = lit ''alice'')"
proof -
  obtain a w' where run: "authenticate sample_argon2 sample_platform undisturbed None (lit ''10.0.0.1'')
      ''salt'' (lit ''alice'') OLD_SECRET sample_world = (Inr a, w')"
    using admitted_login [of sample_world sample_argon2 OLD_SECRET "lit ''alice''" alice_row sample_platform
        "lit ''10.0.0.1''" "''salt''"] sample_accounts_wf sample_argon2_ok sample_readable_account
      alice_admitted secrets_valid(1) by (metis prod.collapse sample_world_db)
  show ?thesis
    using login_admits_only_the_password [OF sample_argon2_ok run] run by blast
qed

text \<open>
  C27: A login nobody interferes with succeeds exactly for a live and active account of that
  name whose hash verifies the password. Every other login (no such user, a wrong password, an
  inactive or deleted account, an account without a password, a malformed password) ends in one
  and the same error and changes nothing.
\<close>

theorem failed_logins_are_alike:
  assumes "wf (w_db w)" "argon2_ok libs" "readable_account libs p name (w_db w)"
  shows "if \<not> isl (validate_login_password_input p) \<and> (\<exists>u. admitted_account libs name p (w_db w) u)
     then \<exists>u. admitted_account libs name p (w_db w) u \<and>
       fst (authenticate libs pf undisturbed None ip salt name p w) = Inr (authenticated_user u)
     else authenticate libs pf undisturbed None ip salt name p w = (Inl Invalid_login_credentials, w)"
  using admitted_login [OF assms] refused_login [OF assms(3)] by auto

theorem failed_logins_witness:
  "authenticate sample_argon2 sample_platform undisturbed None (lit ''10.0.0.1'') ''salt'' (lit ''alice'')
     NEW_SECRET sample_world = (Inl Invalid_login_credentials, sample_world)"
proof -
  have "\<not> admitted_account sample_argon2 (lit ''alice'') NEW_SECRET sample_accounts u" for u
  proof
    assume "admitted_account sample_argon2 (lit ''alice'') NEW_SECRET sample_accounts u"
    then have u: "u \<in> set (db_users sample_accounts)" "u_user_name u = lit ''alice''"
      "u_password_hash u = Some (sample_hash NEW_SECRET)"
      by (auto simp: admitted_account_def sample_argon2_def split: if_splits)
    have "find (\<lambda>u. u_user_name u = lit ''alice'') (db_users sample_accounts) = Some u"
      "find (\<lambda>u. u_user_name u = lit ''alice'') (db_users sample_accounts) = Some alice_row"
      using u alice_in by (simp_all add: find_user_name [OF sample_accounts_wf])
    then show False
      using u(3) secrets_valid(5) by (simp add: sample_hash_inj)
  qed
  then show ?thesis
    using failed_logins_are_alike [of sample_world sample_argon2 NEW_SECRET "lit ''alice''" sample_platform
        "lit ''10.0.0.1''" "''salt''"] sample_accounts_wf sample_argon2_ok sample_readable_account by simp
qed

text \<open>
  C28: A password change succeeds only for the account of the context as it is when the change
  commits: live, active, with the token version of the context, no temporary password, and
  still with a hash that verifies the current password, whatever other requests did since it
  was verified. It replaces the hash and ends the sessions of that row, and records one event;
  everything else is as the other requests left it.
\<close>

theorem change_needs_the_current_password:
  assumes "change_password libs uc others ctx salt now p new w = (Inr r, w')"
  shows "\<exists>u h. u \<in> set (db_users (w_db (others 1 w))) \<and> live_user u \<and> u_is_active u \<and>
     u_id u = pr_user_id (c_principal ctx) \<and> u_token_version u = pr_token_version (c_principal ctx) \<and>
     \<not> u_must_change_password u \<and> u_password_hash u = Some h \<and> pl_verify libs h p = Verified \<and> p \<noteq> new \<and>
     \<not> isl (validate_new_password uc new [u_user_name u]) \<and>
     recorded ''account_security.password.changed'' ''password_changed'' (Some (u_id u)) (Some (u_id u))
       (save_user (u\<lparr>u_password_hash := Some (pl_hash libs password_hasher salt new),
          u_must_change_password := False, u_password_changed_at := Some now,
          u_token_version := u_token_version u + 1\<rparr>) (w_db (others 1 w))) (w_db w')"
  using change_password_Inr [OF assms] unfolding password_set_def rotate_password_def by simp

lemma sample_change:
  "\<exists>e. change_password sample_argon2 ascii_db undisturbed (sample_context ALICE) ''salt'' 7 OLD_SECRET NEW_SECRET
     sample_world = (Inr True, sample_world\<lparr>w_db := add_account_event e
       (password_set 7 (sample_hash NEW_SECRET) False alice_row sample_accounts)\<rparr>)"
proof -
  have "pl_hash sample_argon2 password_hasher ''salt'' NEW_SECRET = sample_hash NEW_SECRET"
    by (simp add: sample_argon2_def)
  then show ?thesis
    using change_password_total [of sample_world sample_argon2 "sample_context ALICE" alice_row
        "sample_hash OLD_SECRET" OLD_SECRET NEW_SECRET ascii_db "''salt''" 7]
      sample_accounts_wf sample_argon2_ok alice_current sample_readable secrets_valid
    by (simp add: sample_context_def sample_argon2_def)
qed

theorem change_witness:
  "\<exists>w'. change_password sample_argon2 ascii_db undisturbed (sample_context ALICE) ''salt'' 7 OLD_SECRET NEW_SECRET
     sample_world = (Inr True, w') \<and>
     (\<exists>u h. u \<in> set (db_users sample_accounts) \<and> u_id u = ALICE \<and> u_password_hash u = Some h \<and>
        pl_verify sample_argon2 h OLD_SECRET = Verified)"
proof -
  obtain w' where run: "change_password sample_argon2 ascii_db undisturbed (sample_context ALICE) ''salt'' 7
      OLD_SECRET NEW_SECRET sample_world = (Inr True, w')"
    using sample_change by blast
  then show ?thesis
    using change_needs_the_current_password [OF run] by (fastforce simp: sample_context_def)
qed

text \<open>
  C29: A reset of a password succeeds only when, in the state it commits on, the acting user is
  current, holds the permission to reset passwords and strictly dominates the target: another
  user of a lower tier, not protected, whose permissions are all within its own. The password
  of the acting user is not asked for. The reset stores the new hash, ends the sessions of the
  target and records one event.
\<close>

theorem reset_needs_authority:
  assumes "argon2_ok libs" "sound_others others" "wf (w_db w)"
    and "reset_user_password libs uc others ctx salt now t new temporary w = (Inr r, w')"
  shows "\<exists>au u. authorized_reset (w_db (others 1 w)) ctx au u \<and> u_id u = t \<and>
     \<not> isl (validate_new_password uc new [u_user_name u]) \<and>
     recorded ''account_security.password.admin_reset''
       (if temporary then ''temporary_password_set'' else ''permanent_password_set'')
       (Some (pr_user_id (c_principal ctx))) (Some t)
       (password_set now (pl_hash libs password_hasher salt new) temporary u (w_db (others 1 w))) (w_db w')"
  using reset_user_password_Inr [OF assms(1) _ assms(4)] assms(2,3) sound_others_step sound_step_wf by blast

theorem reset_witness:
  "\<exists>w'. reset_user_password sample_argon2 ascii_db undisturbed (sample_context ALICE) ''salt'' 7 BOB NEW_SECRET True
     sample_world = (Inr True, w') \<and>
     (\<exists>au u. authorized_reset sample_accounts (sample_context ALICE) au u \<and> u_id u = BOB)"
proof -
  obtain w' where run: "reset_user_password sample_argon2 ascii_db undisturbed (sample_context ALICE) ''salt'' 7 BOB
      NEW_SECRET True sample_world = (Inr True, w')"
    using reset_password_total [of sample_world sample_argon2 "sample_context ALICE" BOB _ ascii_db NEW_SECRET
        "''salt''" 7 True, OF _ sample_argon2_ok] sample_accounts_wf bob_reset_target secrets_valid(4,6)
    by (fastforce simp: sample_user_def sample_context_def lit_def)
  show ?thesis
    using reset_needs_authority [OF sample_argon2_ok undisturbed_sound _ run] run sample_accounts_wf by auto
qed

text \<open>
  C30: Setting a password ends the sessions of its owner for good: after a successful change,
  reset, completed reset or operator reset, no context of that user that was current before the
  call is current in any later state of the installation.
\<close>

theorem new_password_ends_sessions:
  assumes "argon2_ok libs" "sound_others others" "sound_flow flow" "wf (w_db w)"
    and "run_account_call libs pf others flow c w = (None, w')" "password_owner c (w_db w) = Some t"
    and "current_actor (w_db w) ctx v" "pr_user_id (c_principal ctx) = t" "sound_step (w_db w') later"
  shows "isl (require_current_actor later t (pr_token_version (c_principal ctx)))"
proof -
  obtain db where "sound_step (w_db w) db" "token_moved t db (w_db w')"
    using password_owner_moved [OF assms(1-6)] by blast
  then have "\<not> current_actor later ctx v'" for v'
    using moved_ends_contexts assms(7-9) by blast
  then show ?thesis
    using require_current_actor_Inr [OF sound_step_wf [OF assms(9)], of ctx] assms(8)
    by (cases "require_current_actor later t (pr_token_version (c_principal ctx))") auto
qed

theorem new_password_witness:
  "\<exists>w'. run_account_call sample_argon2 sample_platform undisturbed None
       (Change_password (sample_context ALICE) ''salt'' 7 OLD_SECRET NEW_SECRET) sample_world = (None, w') \<and>
     isl (require_current_actor (w_db w') ALICE 0)"
proof -
  let ?c = "Change_password (sample_context ALICE) ''salt'' 7 OLD_SECRET NEW_SECRET"
  have [simp]: "pf_unicode sample_platform = ascii_db" by (simp add: sample_platform_def)
  obtain w' where run: "run_account_call sample_argon2 sample_platform undisturbed None ?c sample_world = (None, w')"
    using sample_change by (fastforce simp: outcome_def)
  have wf: "wf (w_db sample_world)" using sample_accounts_wf by simp
  have wf': "wf (w_db w')"
    using run_account_call_sound [OF sample_argon2_ok undisturbed_sound no_flow_sound wf run] sound_step_wf by blast
  have principal: "pr_user_id (c_principal (sample_context ALICE)) = ALICE"
    "pr_token_version (c_principal (sample_context ALICE)) = 0"
    by (simp_all add: sample_context_def)
  have "isl (require_current_actor (w_db w') ALICE (pr_token_version (c_principal (sample_context ALICE))))"
    by (rule new_password_ends_sessions [OF sample_argon2_ok undisturbed_sound no_flow_sound wf run])
      (use alice_current sound_step_refl [OF wf'] principal in simp_all)
  then show ?thesis
    using run principal by auto
qed


text \<open>
  C31: The new password is the one that counts: right after a password change a login with the
  new password names the account, with its new token version, and a login with any other
  password, the old one among them, fails and changes nothing.
\<close>

theorem changed_password_round_trip:
  assumes "argon2_ok libs" "sound_others others" "wf (w_db w)"
    and "change_password libs uc others ctx salt now p new w = (Inr r, w')"
    and "u \<in> set (db_users (w_db w'))" "u_id u = pr_user_id (c_principal ctx)"
  shows "fst (authenticate libs pf undisturbed None ip salt' (u_user_name u) new w') =
       Inr \<lparr>au_user_id = u_id u, au_token_version = pr_token_version (c_principal ctx) + 1,
            au_must_change_password = False\<rparr> \<and>
     p \<noteq> new \<and>
     (\<forall>q. q \<noteq> new \<longrightarrow>
        authenticate libs pf undisturbed None ip salt' (u_user_name u) q w' = (Inl Invalid_login_credentials, w'))"
proof -
  have wf': "wf (w_db w')"
    using keeps_soundD [OF sound_change_password [OF assms(1,2)] assms(3,4)] sound_step_wf by blast
  obtain v where v: "v \<in> set (db_users (w_db (others 1 w)))" "live_user v" "u_is_active v"
     "u_id v = pr_user_id (c_principal ctx)" "u_token_version v = pr_token_version (c_principal ctx)" "p \<noteq> new"
     "\<not> isl (validate_new_password uc new [u_user_name v])"
     "recorded ''account_security.password.changed'' ''password_changed'' (Some (u_id v)) (Some (u_id v))
       (password_set now (pl_hash libs password_hasher salt new) False v (w_db (others 1 w))) (w_db w')"
    using change_password_Inr [OF assms(4)] by blast
  let ?row = "(rotate_password now (pl_hash libs password_hasher salt new) False v)\<lparr>u_token_version := u_token_version v + 1\<rparr>"
  have "?row \<in> set (db_users (w_db w'))"
    using recorded_tables [OF v(8)] saved_user_in [OF v(1), of ?row] by (simp add: password_set_def)
  then have u: "u = ?row"
    using wf_same_user [OF wf' assms(5)] v(4) assms(6) by simp
  have row: "live_user u" "u_is_active u" "u_password_hash u = Some (pl_hash libs password_hasher salt new)"
    "authenticated_user u = \<lparr>au_user_id = u_id u, au_token_version = pr_token_version (c_principal ctx) + 1,
            au_must_change_password = False\<rparr>"
    using v(2,3,5) by (simp_all add: u rotate_password_def authenticated_user_def)
  note logins = hashed_account_logins [OF wf' assms(1,5) row(1-3) validated_login_input [OF v(7)]]
  show ?thesis
    using logins row(4) v(6) by simp
qed

theorem round_trip_witness:
  "\<exists>w' u. change_password sample_argon2 ascii_db undisturbed (sample_context ALICE) ''salt'' 7 OLD_SECRET NEW_SECRET
     sample_world = (Inr True, w') \<and> u \<in> set (db_users (w_db w')) \<and> u_id u = ALICE \<and>
     authenticate sample_argon2 sample_platform undisturbed None (lit ''10.0.0.1'') ''salt'' (u_user_name u)
       OLD_SECRET w' = (Inl Invalid_login_credentials, w')"
proof -
  let ?row = "(rotate_password 7 (sample_hash NEW_SECRET) False alice_row)\<lparr>u_token_version := u_token_version alice_row + 1\<rparr>"
  obtain e where e: "change_password sample_argon2 ascii_db undisturbed (sample_context ALICE) ''salt'' 7 OLD_SECRET
      NEW_SECRET sample_world = (Inr True, sample_world\<lparr>w_db := add_account_event e
       (password_set 7 (sample_hash NEW_SECRET) False alice_row sample_accounts)\<rparr>)"
    using sample_change by blast
  let ?w = "sample_world\<lparr>w_db := add_account_event e
       (password_set 7 (sample_hash NEW_SECRET) False alice_row sample_accounts)\<rparr>"
  have row: "?row \<in> set (db_users (w_db ?w))"
    using saved_user_in [OF alice_in, of ?row] by (simp add: password_set_def add_account_event_def)
  have wf: "wf (w_db sample_world)" and id: "u_id ?row = pr_user_id (c_principal (sample_context ALICE))"
    using sample_accounts_wf by (simp_all add: sample_context_def)
  show ?thesis
  proof (intro exI conjI)
    show "change_password sample_argon2 ascii_db undisturbed (sample_context ALICE) ''salt'' 7 OLD_SECRET
      NEW_SECRET sample_world = (Inr True, ?w)" by (fact e)
    show "?row \<in> set (db_users (w_db ?w))" by (fact row)
    show "u_id ?row = ALICE" by simp
    show "authenticate sample_argon2 sample_platform undisturbed None (lit ''10.0.0.1'') ''salt''
      (u_user_name ?row) OLD_SECRET ?w = (Inl Invalid_login_credentials, ?w)"
      using changed_password_round_trip [OF sample_argon2_ok undisturbed_sound wf e row id, THEN conjunct2]
      by blast
  qed
qed

text \<open>
  C32: A registration succeeds only when its admission passed and, in the state its transaction
  finds, registration is open and the name and the identifier are free. Compared with that state
  it adds a live account with the password, whose only role is the base role \<open>user\<close>; the other
  accounts, the roles of everybody else, the roles themselves and their grants are the same.
\<close>

theorem registration_gives_the_base_role:
  assumes "argon2_ok libs" "sound_others others" "sound_flow flow" "wf (w_db w)"
    and "register libs pf others flow ip salt drawn now name p request_id w = (Inr i, w')"
  shows "fst (registration_admission pf flow ip w) = Inr () \<and>
     (let db = w_db (others 0 (snd (registration_admission pf flow ip w))) in
       (\<exists>s. db_state db = Some s \<and> st_public_registration_enabled s) \<and>
       i \<notin> u_id ` set (db_users db) \<and> strip name \<notin> u_user_name ` set (db_users db) \<and>
       (\<exists>u. set (db_users (w_db w')) = insert u (set (db_users db)) \<and> u_id u = i \<and> u_user_name u = strip name \<and>
          live_user u \<and> u_is_active u \<and> \<not> u_is_protected u \<and>
          u_password_hash u = Some (pl_hash libs password_hasher salt p) \<and>
          u_must_change_password u = False \<and> u_token_version u = 0) \<and>
       map r_key (roles_of (w_db w') (\<lambda>_. True) i) = [''user''] \<and>
       (\<forall>v. v \<noteq> i \<longrightarrow> roles_of (w_db w') (\<lambda>_. True) v = roles_of db (\<lambda>_. True) v) \<and>
       db_roles (w_db w') = db_roles db \<and> db_role_permissions (w_db w') = db_role_permissions db)"
proof -
  obtain w1 s where adm: "registration_admission pf flow ip w = (Inr (), w1)"
    and s: "db_state (w_db (others 0 w1)) = Some s" "st_public_registration_enabled s"
    and account: "base_account (w_db (others 0 w1)) (w_db w') i (strip name) (pl_hash libs password_hasher salt p) False"
    using register_Inr [OF assms] by blast
  then show ?thesis
    unfolding adm fst_conv snd_conv Let_def base_account_def by blast
qed

definition DORA_ID :: uuid where "DORA_ID = UUID 302240678275694148452402"

lemma dora_id_version: "uuid_version DORA_ID = Some 4"
  by (simp add: DORA_ID_def uuid_version_def)

lemma dora_free: "\<not> list_ex (\<lambda>u. u_id u = DORA_ID \<or> u_user_name u = lit ''dora'')
    (db_users (save_user (rotate_password 0 h False (sample_user ALICE ''alice'' False)) sample_base))"
  by code_simp

lemma dora_role:
  "default_role_row ((save_user (rotate_password 0 h False (sample_user ALICE ''alice'' False)) sample_base)\<lparr>db_users := us\<rparr>)
     = Inr (sample_role R_USER ''user'' 0 True False)"
  by code_simp

lemma dora_id_text: "uuid_str DORA_ID = ''00000000-0000-4000-8000-000000000032''"
  by (simp add: uuid_str_def Let_def DORA_ID_def hex_of_numeral hex_digit_def del: One_nat_def)

lemma dora_event:
  "\<exists>e. new_rbac_audit_event ascii_db i (Some i) (Some R_USER) ''user.provision'' ''allowed''
     ''default_user_role_assigned'' (audit_source_value SERVICE) None
     (Some (provision_payload (new_user DORA_ID (lit ''dora'')) (sample_role R_USER ''user'' 0 True False))) ''req-1'' = Inr e"
proof -
  have "\<not> isl (new_rbac_audit_event ascii_db i (Some i) (Some R_USER) ''user.provision'' ''allowed''
     ''default_user_role_assigned'' (audit_source_value SERVICE) None
     (Some (a_obj [(''user_id'', a_str ''00000000-0000-4000-8000-000000000032''),
       (''default_role_id'', a_str (uuid_str R_USER)), (''authz_version'', A_Int 1)])) ''req-1'')"
    by code_simp
  then show ?thesis
    by (auto simp: provision_payload_def dora_id_text new_user_def sample_role_def isl_def simp del: uuid_str_def
        split: sum.splits) (metis sumE)
qed

lemma sample_register_body:
  "\<exists>d. register_body ascii_db DORA_ID 7 (lit ''dora'') (sample_hash NEW_SECRET) ''req-1'' sample_accounts = Inr (DORA_ID, d)"
proof -
  let ?db = "save_user (rotate_password 0 (sample_hash OLD_SECRET) False (sample_user ALICE ''alice'' False)) sample_base"
  have db: "sample_accounts = ?db"
    by (simp add: sample_accounts_def alice_row_def)
  have state: "lock_rbac_state sample_accounts = Inr \<lparr>st_epoch = 0, st_public_registration_enabled = True\<rparr>"
    by (simp add: lock_rbac_state_def sample_accounts_def sample_base_def)
  have name: "normalize_identity ascii_db (Some (lit ''dora'')) = Inr (lit ''dora'')"
    by code_simp
  have role: "r_id (sample_role R_USER ''user'' 0 True False) = R_USER"
    by (simp add: sample_role_def)
  obtain e where e: "new_rbac_audit_event ascii_db DORA_ID (Some DORA_ID) (Some R_USER) ''user.provision'' ''allowed''
     ''default_user_role_assigned'' (audit_source_value SERVICE) None
     (Some (provision_payload (new_user DORA_ID (lit ''dora'')) (sample_role R_USER ''user'' 0 True False))) ''req-1'' = Inr e"
    using dora_event by blast
  obtain d where create: "create_user_with_default_role ascii_db DORA_ID (lit ''dora'') None None ''req-1'' sample_accounts
      = Inr (new_user DORA_ID (lit ''dora''), d)"
    using state name e dora_free [where h = "sample_hash OLD_SECRET"] dora_role [where h = "sample_hash OLD_SECRET"] dora_id_version
    by (simp add: create_user_with_default_role_def new_user_id_def role Let_def flip: db)
  obtain e' where "succeeded_event ''account_security.registration.completed'' ''registration_completed''
      ANONYMOUS_ACTOR None (Some DORA_ID) HTTP ''req-1''
      (save_user (rotate_password 7 (sample_hash NEW_SECRET) False (new_user DORA_ID (lit ''dora''))) d) =
      Inr (add_account_event e' (save_user (rotate_password 7 (sample_hash NEW_SECRET) False (new_user DORA_ID (lit ''dora''))) d))"
    using succeeded_event_total [OF account_actions(3) account_reasons(4) secrets_valid(6)] by blast
  then show ?thesis
    using state create by (simp add: register_body_def)
qed

theorem registration_witness:
  "\<exists>w'. register sample_argon2 sample_platform undisturbed None (lit ''10.0.0.1'') ''salt''
       DORA_ID 7 (lit ''dora'') NEW_SECRET ''req-1'' sample_world = (Inr DORA_ID, w') \<and>
     map r_key (roles_of (w_db w') (\<lambda>_. True) DORA_ID) = [''user'']"
proof -
  let ?h = "sample_hash NEW_SECRET"
  obtain d where body: "register_body ascii_db DORA_ID 7 (lit ''dora'') ?h ''req-1'' sample_accounts = Inr (DORA_ID, d)"
    using sample_register_body by blast
  then have commit: "transaction (register_body ascii_db DORA_ID 7 (lit ''dora'') ?h ''req-1'') sample_accounts = (Inr DORA_ID, d)"
    using registration.Inr_iff [where q = "(ascii_db, DORA_ID, 7, lit ''dora'', ?h, ''req-1'')", OF sample_accounts_wf]
      sample_hash_shape by (simp add: hash_shape_def)
  have "\<not> isl (validate_new_password ascii_db NEW_SECRET [lit ''dora''])"
    by code_simp
  then have hash: "policy_checked (hash_new_password sample_argon2 ascii_db ''salt'' NEW_SECRET [lit ''dora'']) = Inr ?h"
    by (simp add: hash_new_password_total policy_checked_def) (simp add: sample_argon2_def)
  have run: "register sample_argon2 sample_platform undisturbed None (lit ''10.0.0.1'') ''salt'' DORA_ID 7
      (lit ''dora'') NEW_SECRET ''req-1'' sample_world = (Inr DORA_ID, sample_world\<lparr>w_db := d\<rparr>)"
    using commit hash by (simp add: register_def registration_action_def bindP_def handleP_def sample_platform_def)
  show ?thesis
    using registration_gives_the_base_role [OF sample_argon2_ok undisturbed_sound no_flow_sound _ run]
      sample_accounts_wf run by (auto simp: Let_def)
qed

end
