(* ===== verification/Captcha.thy ===== *)
theory Captcha
  imports Tokens
begin

text \<open>
  The graphical challenges of \<open>app/core/security/captcha.py\<close>. A challenge is a JSON record in
  Redis that expires; a challenge of a signed-in user also has a pointer key for its scene and
  owner. Two Lua scripts issue and consume challenges. The JSON decoder of Redis, the image
  library, the random choices and the other clients of Redis are arguments.
\<close>

definition CAPTCHA_TTL_SECONDS :: int where "CAPTCHA_TTL_SECONDS = 300"
definition ALPHABET :: string where "ALPHABET = ''ABCDEFGHJKLMNPQRSTUVWXYZ23456789''"
definition SCENES :: "string list" where
  "SCENES = [''login'', ''register'', ''admin_create'', ''admin_reset'', ''self_change'']"
definition PRIVATE_SCENES :: "string list" where
  "PRIVATE_SCENES = [''admin_create'', ''admin_reset'', ''self_change'']"
definition POINTER_ATTEMPTS :: nat where "POINTER_ATTEMPTS = 3"

definition captcha_invalid :: rbac_error where
  "captcha_invalid =
     \<lparr>status_code = 400, business_code = BAD_REQUEST, message_key = ERROR_CAPTCHA_INVALID,
      reason_code = ''captcha_invalid_or_expired''\<rparr>"

subsection \<open>The scripts\<close>

type_synonym lua_json = "pystr \<Rightarrow> json option"

definition r_getP :: "int \<Rightarrow> string \<Rightarrow> (redis, pystr option) proc" where
  "r_getP now k s = (r_get now k s, s)"

definition field_is :: "json \<Rightarrow> string \<Rightarrow> string \<Rightarrow> bool" where
  "field_is rec k v \<longleftrightarrow> lua_field rec k = Some (J_Str (lit v))"

text \<open>The end of \<open>_ISSUE\<close>: both \<open>SET\<close> commands.\<close>

definition write_challenge ::
    "string \<Rightarrow> string \<Rightarrow> string \<Rightarrow> string \<Rightarrow> pystr \<Rightarrow> int \<Rightarrow> int \<Rightarrow> (redis, redis_reply) proc" where
  "write_challenge new_key index_key owner new_id record_text ttl now =
     bindP (updateP (r_set_ex now new_key record_text ttl)) (\<lambda>_.
     bindP (if owner \<noteq> [] then updateP (r_set_ex now index_key (lit new_id) ttl) else returnP ()) (\<lambda>_.
       returnP (Int_reply 1)))"

text \<open>
  \<open>_ISSUE\<close> with its four keys: the new challenge, the previous one, the pointer, the challenge
  the pointer was seen to name.
\<close>

definition issue_script ::
    "lua_json \<Rightarrow> string \<times> string \<times> string \<times> string \<Rightarrow> string \<Rightarrow> string \<Rightarrow> string \<Rightarrow> string \<Rightarrow> pystr \<Rightarrow>
     int \<Rightarrow> string \<Rightarrow> int \<Rightarrow> (redis, redis_reply) proc" where
  "issue_script cjson keys previous scene owner new_id record_text ttl current now =
     (case keys of (new_key, previous_key, index_key, current_key) \<Rightarrow>
      bindP (if previous = [] \<and> owner \<noteq> []
             then bindP (r_getP now index_key) (\<lambda>pointer.
                    returnP ((case pointer of None \<Rightarrow> [] | Some p \<Rightarrow> p) \<noteq> lit current))
             else returnP False) (\<lambda>changed.
      if changed then returnP (Int_reply 2)
      else if previous \<noteq> [] then
        bindP (r_getP now previous_key) (\<lambda>raw.
        case raw of
          None \<Rightarrow> returnP (Int_reply 0)
        | Some text \<Rightarrow>
            (case cjson text of
               None \<Rightarrow> returnP (Int_reply (-1))
             | Some rec \<Rightarrow>
                 if \<not> is_table rec then returnP (Int_reply (-1))
                 else if \<not> field_is rec ''scene'' scene \<or> \<not> field_is rec ''owner'' owner
                 then returnP (Int_reply 0)
                 else
                 bindP (if owner \<noteq> [] then r_getP now index_key else returnP (Some (lit previous))) (\<lambda>pointer.
                 if pointer \<noteq> Some (lit previous) then returnP (Int_reply 0)
                 else bindP (updateP (r_del previous_key)) (\<lambda>_.
                        write_challenge new_key index_key owner new_id record_text ttl now))))
      else
        bindP (if owner \<noteq> [] \<and> current \<noteq> [] then updateP (r_del current_key) else returnP ()) (\<lambda>_.
          write_challenge new_key index_key owner new_id record_text ttl now)))"

text \<open>\<open>record.index and record.index ~= ''\<close>: neither missing, nor \<open>false\<close>, nor empty.\<close>

definition has_index :: "json \<Rightarrow> bool" where
  "has_index rec \<longleftrightarrow> lua_field rec ''index'' \<notin> {None, Some (J_Bool False), Some (J_Str [])}"

text \<open>\<open>_CONSUME\<close>: the challenge goes before the answer is looked at.\<close>

definition consume_script ::
    "lua_json \<Rightarrow> string \<times> string \<Rightarrow> string \<Rightarrow> string \<Rightarrow> string \<Rightarrow> string \<Rightarrow> pystr \<Rightarrow> int \<Rightarrow>
     (redis, redis_reply) proc" where
  "consume_script cjson keys captcha_id scene owner digest expected now =
     (case keys of (key, index_key) \<Rightarrow>
      bindP (r_getP now key) (\<lambda>raw.
      case raw of
        None \<Rightarrow> returnP (Int_reply 0)
      | Some text \<Rightarrow>
          if text \<noteq> expected then returnP (Int_reply 0)
          else
          (case cjson text of
             None \<Rightarrow> returnP (Int_reply (-1))
           | Some rec \<Rightarrow>
               if \<not> is_table rec then returnP (Int_reply (-1))
               else
               bindP (updateP (r_del key)) (\<lambda>_.
               bindP (if has_index rec
                      then bindP (r_getP now index_key) (\<lambda>pointer.
                             if pointer = Some (lit captcha_id) then updateP (r_del index_key) else returnP ())
                      else returnP ()) (\<lambda>_.
                 returnP (Int_reply
                   (if field_is rec ''scene'' scene \<and> field_is rec ''owner'' owner \<and> field_is rec ''digest'' digest
                    then 1 else 0)))))))"

subsection \<open>Keys, digests and records\<close>

definition captcha_prefix :: "platform \<Rightarrow> settings \<Rightarrow> string" where
  "captcha_prefix pf s =
     ''captcha:{'' @ take 24 (pf_sha256 pf (s_app_environment s @ [58] @ s_service_name s)) @ ''}:''"

definition captcha_key :: "platform \<Rightarrow> settings \<Rightarrow> uuid \<Rightarrow> string" where
  "captcha_key pf s captcha_id = captcha_prefix pf s @ uuid_str captcha_id"

definition captcha_index :: "platform \<Rightarrow> settings \<Rightarrow> string \<Rightarrow> uuid option \<Rightarrow> string" where
  "captcha_index pf s scene owner_id =
     (case owner_id of
        None \<Rightarrow> captcha_prefix pf s @ ''anonymous''
      | Some u \<Rightarrow> captcha_prefix pf s @ ''owner:'' @ scene @ '':'' @ uuid_str u)"

text \<open>\<open>encode("utf-8", "backslashreplace")\<close>: a lone surrogate becomes its escape.\<close>

definition encode_backslashreplace :: "pystr \<Rightarrow> int list" where
  "encode_backslashreplace s =
     concat (map (\<lambda>c. if is_surrogate c then lit ([CHR 92, CHR ''u''] @ hex_of 4 (nat c)) else utf8_char c) s)"

definition captcha_digest :: "platform \<Rightarrow> settings \<Rightarrow> uuid \<Rightarrow> pystr \<Rightarrow> failure + string" where
  "captcha_digest pf s captcha_id answer =
     bindE (utf8_encode (s_rate_limit_hmac_key s)) (\<lambda>secret.
       Inr (pf_hmac_sha256 pf secret
              (encode_backslashreplace (lit (uuid_str captcha_id) @ [58] @ pf_upper pf answer))))"

definition captcha_owner :: "string \<Rightarrow> uuid option \<Rightarrow> failure + string" where
  "captcha_owner scene owner_id =
     (if scene \<notin> set SCENES \<or> (scene \<in> set PRIVATE_SCENES) \<noteq> (owner_id \<noteq> None)
      then Inl (Rbac captcha_invalid)
      else Inr (case owner_id of None \<Rightarrow> [] | Some u \<Rightarrow> uuid_str u))"

definition captcha_record :: "string \<Rightarrow> string \<Rightarrow> string \<Rightarrow> string \<Rightarrow> (pystr \<times> json) list" where
  "captcha_record scene owner digest index =
     [(lit ''scene'', J_Str (lit scene)), (lit ''owner'', J_Str (lit owner)),
      (lit ''digest'', J_Str (lit digest)), (lit ''index'', J_Str (lit index))]"

text \<open>The answer, from the five positions \<open>secrets.choice\<close> draws.\<close>

definition drawn_answer :: "(nat \<Rightarrow> nat) \<Rightarrow> pystr" where
  "drawn_answer choice = map (\<lambda>i. lit ALPHABET ! (choice i mod length ALPHABET)) [0, 1, 2, 3, 4]"

subsection \<open>The service\<close>

text \<open>One \<open>GET\<close> and one \<open>EVAL\<close> of a call, and what other clients do to Redis in between.\<close>

record captcha_call =
  cc_get :: redis_io
  cc_meanwhile :: "redis \<Rightarrow> redis"
  cc_eval :: redis_io

text \<open>\<open>except ... as exc: raise unavailable("captcha_store_unavailable")\<close>\<close>

definition store_unavailable :: "(redis, 'a) proc \<Rightarrow> (redis, 'a) proc" where
  "store_unavailable m =
     handleP m (\<lambda>e. case e of
         Redis_error \<Rightarrow> raiseP (Rbac (unavailable ''captcha_store_unavailable''))
       | Value_error _ \<Rightarrow> raiseP (Rbac (unavailable ''captcha_store_unavailable''))
       | _ \<Rightarrow> raiseP e)"

definition text_or_empty :: "uuid option \<Rightarrow> string" where
  "text_or_empty u = (case u of None \<Rightarrow> [] | Some i \<Rightarrow> uuid_str i)"

definition read_pointer :: "redis_io \<Rightarrow> string \<Rightarrow> (redis, uuid option) proc" where
  "read_pointer io index =
     bindP (redis_call io (\<lambda>now. r_getP now index)) (\<lambda>pointer.
     case pointer of
       None \<Rightarrow> returnP None
     | Some p \<Rightarrow>
         (case pystr_uuid p of
            None \<Rightarrow> raiseP (Value_error ''invalid captcha pointer'')
          | Some u \<Rightarrow> if uuid_version u = Some 4 then returnP (Some u)
                      else raiseP (Value_error ''invalid captcha pointer'')))"

text \<open>One turn of the loop of \<open>issue\<close>.\<close>

definition issue_captcha_attempt ::
    "lua_json \<Rightarrow> platform \<Rightarrow> settings \<Rightarrow> captcha_call \<Rightarrow> uuid \<Rightarrow> string \<Rightarrow> uuid option \<Rightarrow> string \<Rightarrow> uuid option \<Rightarrow>
     pystr \<Rightarrow> (redis, redis_reply) proc" where
  "issue_captcha_attempt cjson pf s c captcha_id scene owner_id owner previous record_text =
     bindP (if owner \<noteq> [] \<and> previous = None
            then read_pointer (cc_get c) (captcha_index pf s scene owner_id) else returnP None) (\<lambda>current.
     bindP (updateP (cc_meanwhile c)) (\<lambda>_.
       redis_call (cc_eval c)
         (issue_script cjson
            (captcha_key pf s captcha_id,
             captcha_key pf s (case previous of None \<Rightarrow> captcha_id | Some p \<Rightarrow> p),
             captcha_index pf s scene owner_id,
             captcha_key pf s (case current of None \<Rightarrow> captcha_id | Some u \<Rightarrow> u))
            (text_or_empty previous) scene owner (uuid_str captcha_id) record_text CAPTCHA_TTL_SECONDS
            (text_or_empty current))))"

primrec issue_captcha_attempts ::
    "lua_json \<Rightarrow> platform \<Rightarrow> settings \<Rightarrow> (nat \<Rightarrow> captcha_call) \<Rightarrow> uuid \<Rightarrow> string \<Rightarrow> uuid option \<Rightarrow> string \<Rightarrow>
     uuid option \<Rightarrow> pystr \<Rightarrow> nat \<Rightarrow> (redis, redis_reply) proc" where
  "issue_captcha_attempts cjson pf s calls captcha_id scene owner_id owner previous record_text 0 =
     raiseP (Rbac (unavailable ''captcha_store_unavailable''))"
| "issue_captcha_attempts cjson pf s calls captcha_id scene owner_id owner previous record_text (Suc left) =
     bindP (issue_captcha_attempt cjson pf s (calls (POINTER_ATTEMPTS - Suc left)) captcha_id scene owner_id owner
              previous record_text) (\<lambda>reply.
     if reply \<noteq> Int_reply 2 then returnP reply
     else issue_captcha_attempts cjson pf s calls captcha_id scene owner_id owner previous record_text left)"

definition issue_captcha ::
    "lua_json \<Rightarrow> platform \<Rightarrow> settings \<Rightarrow> (pystr \<Rightarrow> pystr) \<Rightarrow> (nat \<Rightarrow> captcha_call) \<Rightarrow> uuid \<Rightarrow> (nat \<Rightarrow> nat) \<Rightarrow>
     string \<Rightarrow> uuid option \<Rightarrow> uuid option \<Rightarrow> (redis, uuid \<times> pystr) proc" where
  "issue_captcha cjson pf s captcha_image calls captcha_id choice scene owner_id previous =
     bindP (liftP (captcha_owner scene owner_id)) (\<lambda>owner.
     let answer = drawn_answer choice;
         index = (if owner \<noteq> [] then captcha_index pf s scene owner_id else []) in
     bindP (liftP (captcha_digest pf s captcha_id answer)) (\<lambda>digest.
     let record_text = dump_object (captcha_record scene owner digest index) in
     bindP (store_unavailable (issue_captcha_attempts cjson pf s calls captcha_id scene owner_id owner
              previous record_text POINTER_ATTEMPTS)) (\<lambda>reply.
     if reply = Int_reply 0 then raiseP (Rbac captcha_invalid)
     else if reply \<noteq> Int_reply 1 then raiseP (Rbac (unavailable ''captcha_store_unavailable''))
     else returnP (captcha_id, captcha_image answer))))"

definition is_lower_hex :: "codepoint \<Rightarrow> bool" where
  "is_lower_hex c \<longleftrightarrow> c \<in> set (lit ''0123456789abcdef'')"

definition invalid_record :: "failure + 'a" where
  "invalid_record = Inl (Value_error ''invalid captcha record'')"

text \<open>
  The checks \<open>consume\<close> makes of a stored record, and the index it then has: empty, or the
  pointer key of its scene and owner. Every failure here is caught by the same handler.
\<close>

definition checked_index :: "platform \<Rightarrow> settings \<Rightarrow> pystr \<Rightarrow> failure + string" where
  "checked_index pf s raw =
     (case json_loads raw of
        Some (J_Obj ms) \<Rightarrow>
          if fst ` set ms \<noteq> lit ` {''scene'', ''owner'', ''digest'', ''index''} then invalid_record
          else
          (case (find (\<lambda>sc. json_get ms (lit ''scene'') = Some (J_Str (lit sc))) SCENES,
                 json_get ms (lit ''owner''), json_get ms (lit ''index''), json_get ms (lit ''digest'')) of
             (Some scene, Some (J_Str owner), Some (J_Str index), Some (J_Str digest)) \<Rightarrow>
               if length digest \<noteq> 64 \<or> \<not> list_all is_lower_hex digest then invalid_record
               else if scene \<in> set PRIVATE_SCENES then
                 (case pystr_uuid owner of
                    None \<Rightarrow> invalid_record
                  | Some u \<Rightarrow>
                      if uuid_version u = Some 4 \<and> index = lit (captcha_index pf s scene (Some u))
                      then Inr (captcha_index pf s scene (Some u)) else invalid_record)
               else if owner \<noteq> [] \<or> index \<noteq> [] then invalid_record
               else Inr []
           | _ \<Rightarrow> invalid_record)
      | _ \<Rightarrow> invalid_record)"

definition consume_captcha ::
    "lua_json \<Rightarrow> platform \<Rightarrow> settings \<Rightarrow> captcha_call \<Rightarrow> uuid \<Rightarrow> pystr \<Rightarrow> string \<Rightarrow> uuid option \<Rightarrow>
     (redis, unit) proc" where
  "consume_captcha cjson pf s c captcha_id answer scene owner_id =
     bindP (liftP (captcha_owner scene owner_id)) (\<lambda>owner.
     let key = captcha_key pf s captcha_id in
     bindP (store_unavailable (
       bindP (redis_call (cc_get c) (\<lambda>now. r_getP now key)) (\<lambda>raw.
       case raw of
         None \<Rightarrow> raiseP (Rbac captcha_invalid)
       | Some text \<Rightarrow>
           bindP (liftP (checked_index pf s text)) (\<lambda>index.
           bindP (liftP (captcha_digest pf s captcha_id answer)) (\<lambda>digest.
           bindP (updateP (cc_meanwhile c)) (\<lambda>_.
             redis_call (cc_eval c)
               (consume_script cjson (key, if index \<noteq> [] then index else key) (uuid_str captcha_id)
                  scene owner digest text))))))) (\<lambda>reply.
     if reply = Int_reply 1 then returnP ()
     else if reply = Int_reply 0 then raiseP (Rbac captcha_invalid)
     else raiseP (Rbac (unavailable ''captcha_store_unavailable''))))"

end
