(* ===== verification/Captcha_Laws.thy ===== *)
theory Captcha_Laws
  imports Captcha Session_Laws
begin

text \<open>
  The states the challenges reach: every history of the two scripts, run with the arguments the
  service gives them and interleaved with anything that leaves the challenge keys alone. A
  challenge in Redis was issued, no guess has been made at it, and a private challenge that is
  alive is the one its pointer names.
\<close>

subsection \<open>Keys\<close>

lemma length_uuid_str [simp]: "length (uuid_str u) = 36"
  by (simp add: uuid_str_def Let_def)

lemma captcha_key_inject [simp]: "captcha_key pf st u = captcha_key pf st v \<longleftrightarrow> u = v"
  by (simp add: captcha_key_def uuid_str_inject)

lemma captcha_index_inject [simp]:
  "captcha_index pf st sc (Some u) = captcha_index pf st sc' (Some u') \<longleftrightarrow> sc = sc' \<and> u = u'"
proof -
  have "sc @ '':'' @ uuid_str u = sc' @ '':'' @ uuid_str u' \<longleftrightarrow> sc = sc' \<and> u = u'"
    using append_eq_append_conv [of sc sc' "'':'' @ uuid_str u" "'':'' @ uuid_str u'"] uuid_str_inject by auto
  then show ?thesis by (simp add: captcha_index_def)
qed

lemma captcha_key_not_index [simp]:
  "captcha_key pf st u \<noteq> captcha_index pf st sc (Some v)" "captcha_index pf st sc (Some v) \<noteq> captcha_key pf st u"
  by (auto simp: captcha_key_def captcha_index_def dest: arg_cong [where f = length])

definition captcha_owned :: "platform \<Rightarrow> settings \<Rightarrow> string \<Rightarrow> bool" where
  "captcha_owned pf st k \<longleftrightarrow>
     (\<exists>u. k = captcha_key pf st u) \<or> (\<exists>sc u. k = captcha_index pf st sc (Some u))"

lemma captcha_owned_keys [simp]:
  "captcha_owned pf st (captcha_key pf st u)" "captcha_owned pf st (captcha_index pf st sc (Some u))"
  by (auto simp: captcha_owned_def)

lemma captcha_owner_Inr:
  "captcha_owner sc ow = Inr t \<longleftrightarrow> sc \<in> set SCENES \<and> (sc \<in> set PRIVATE_SCENES \<longleftrightarrow> ow \<noteq> None) \<and> t = text_or_empty ow"
  by (auto simp: captcha_owner_def text_or_empty_def split: option.splits)

lemma text_or_empty_Nil [simp]: "text_or_empty ow = [] \<longleftrightarrow> ow = None"
  by (auto simp: text_or_empty_def dest: arg_cong [where f = length] split: option.splits)

lemma text_or_empty_inject [simp]: "text_or_empty a = text_or_empty b \<longleftrightarrow> a = b"
  by (auto simp: text_or_empty_def uuid_str_inject dest: arg_cong [where f = length] split: option.splits)

subsection \<open>Records\<close>

definition hex_text :: "string \<Rightarrow> bool" where
  "hex_text t \<longleftrightarrow> set t \<subseteq> set ''0123456789abcdef''"

text \<open>\<open>hexdigest()\<close> is 64 lower-case hexadecimal digits.\<close>

definition hex_digests :: "platform \<Rightarrow> bool" where
  "hex_digests pf \<longleftrightarrow>
     (\<forall>x. length (pf_sha256 pf x) = 64 \<and> hex_text (pf_sha256 pf x)) \<and>
     (\<forall>k m. length (pf_hmac_sha256 pf k m) = 64 \<and> hex_text (pf_hmac_sha256 pf k m))"

text \<open>
  \<open>cjson.decode\<close> of a flat object of short integers and printable ASCII strings: a table with
  the same fields.
\<close>

definition cjson_flat :: "lua_json \<Rightarrow> bool" where
  "cjson_flat cjson \<longleftrightarrow>
     (\<forall>ms. ms \<noteq> [] \<longrightarrow> distinct (map fst ms) \<longrightarrow> list_all small_member ms \<longrightarrow>
        (\<exists>ms'. cjson (dump_object ms) = Some (J_Obj ms') \<and> json_get ms' = json_get ms))"

lemma hex_text_plain: "hex_text t \<Longrightarrow> list_all plain_char t"
proof -
  have "list_all plain_char ''0123456789abcdef''" by code_simp
  then show "hex_text t \<Longrightarrow> list_all plain_char t" by (auto simp: hex_text_def list_all_iff)
qed

lemma hex_text_lower: "hex_text t \<Longrightarrow> list_all is_lower_hex (lit t)"
  by (auto simp: hex_text_def list_all_iff is_lower_hex_def lit_def)

lemma small_member_lit: "list_all plain_char k \<Longrightarrow> list_all plain_char t \<Longrightarrow> small_member (lit k, J_Str (lit t))"
  by (auto simp: small_member_def list_all_iff lit_def plain_char_def)

lemma plain_scenes: "sc \<in> set SCENES \<Longrightarrow> list_all plain_char sc"
proof -
  have "list_all (list_all plain_char) SCENES" by code_simp
  then show "sc \<in> set SCENES \<Longrightarrow> list_all plain_char sc" by (simp add: list_all_iff)
qed

lemma plain_index:
  assumes "hex_digests pf" "sc \<in> set SCENES"
  shows "list_all plain_char (captcha_index pf st sc (Some u))"
proof -
  have "list_all plain_char ''captcha:{''" "list_all plain_char ''}:''" "list_all plain_char ''owner:''"
    "plain_char CHR '':''" by code_simp+
  moreover have "list_all plain_char (take 24 (pf_sha256 pf x))" for x
    using assms(1) hex_text_plain [THEN list_all_part(1)] by (simp add: hex_digests_def)
  ultimately show ?thesis
    using plain_scenes [OF assms(2)] uuid_str_plain by (simp add: captcha_index_def captcha_prefix_def)
qed

definition index_text :: "platform \<Rightarrow> settings \<Rightarrow> string \<Rightarrow> uuid option \<Rightarrow> string" where
  "index_text pf st sc ow = (if ow = None then [] else captcha_index pf st sc ow)"

definition challenge_text :: "platform \<Rightarrow> settings \<Rightarrow> string \<Rightarrow> uuid option \<Rightarrow> string \<Rightarrow> pystr" where
  "challenge_text pf st sc ow digest =
     dump_object (captcha_record sc (text_or_empty ow) digest (index_text pf st sc ow))"

lemma record_small:
  assumes "hex_digests pf" "sc \<in> set SCENES" "hex_text digest"
  shows "list_all small_member (captcha_record sc (text_or_empty ow) digest (index_text pf st sc ow))"
proof -
  have keys: "list_all plain_char ''scene''" "list_all plain_char ''owner''" "list_all plain_char ''digest''"
    "list_all plain_char ''index''" by code_simp+
  have "list_all plain_char (text_or_empty ow)" "list_all plain_char (index_text pf st sc ow)"
    using plain_index [OF assms(1,2)] uuid_str_plain
    by (auto simp: text_or_empty_def index_text_def split: option.split)
  with keys plain_scenes [OF assms(2)] hex_text_plain [OF assms(3)] show ?thesis
    by (simp add: captcha_record_def small_member_lit)
qed

lemma record_get:
  "json_get (captcha_record sc t digest index) (lit ''scene'') = Some (J_Str (lit sc))"
  "json_get (captcha_record sc t digest index) (lit ''owner'') = Some (J_Str (lit t))"
  "json_get (captcha_record sc t digest index) (lit ''digest'') = Some (J_Str (lit digest))"
  "json_get (captcha_record sc t digest index) (lit ''index'') = Some (J_Str (lit index))"
  by (simp_all add: json_get_def captcha_record_def)

lemma record_keys:
  "distinct (map fst (captcha_record sc t digest index))" "captcha_record sc t digest index \<noteq> []"
  "fst ` set (captcha_record sc t digest index) = lit ` {''scene'', ''owner'', ''digest'', ''index''}"
  by (simp_all add: captcha_record_def)

lemma json_loads_dump:
  assumes "ms \<noteq> []" "list_all small_member ms"
  shows "json_loads (dump_object ms) = Some (J_Obj ms)"
proof -
  let ?body = "join_with 44 (map member_text ms)"
  have dump: "dump_object ms = 123 # ?body @ [125]"
    by (simp add: dump_object_def member_text_def case_prod_unfold cong: map_cong)
  have small: "plain_text (fst m) \<and> reads_back (snd m) \<and> plain_json (snd m) \<and> sorted_json (snd m) = snd m" if "m \<in> set ms" for m
    using small_member_plain plain_reads_back assms(2) that by (auto simp: list_all_iff)
  have same: "map (\<lambda>m. (fst m, sorted_json (snd m))) ms = ms"
    using small by (simp add: map_idI)
  have "json_fuel (snd m) \<le> length (member_text m)" if "m \<in> set ms" for m
    using json_fuel_bound small [OF that] by (fastforce simp: member_text_def)
  then have fuel: "sum_list (map (\<lambda>m. Suc (json_fuel (snd m))) ms) \<le> Suc (Suc (length ?body))"
    using fuel_of_join [of ms "\<lambda>m. json_fuel (snd m)" member_text 44] by simp
  have body: "read_members (Suc (Suc (length ?body))) (?body @ [125]) = Some (ms, [])"
    using read_members_encoded [of ms "Suc (Suc (length ?body))" "[]"] assms(1) small fuel
    by (simp add: list_all_iff same del: read_members.simps)
  obtain d t where d: "?body @ [125] = 34 # t"
    using assms(1) by (cases ms; cases "tl ms") (auto simp: member_text_def encode_string_append)
  have "json_loads (dump_object ms) =
      (case read_value (Suc (Suc (Suc (length ?body)))) (123 # ?body @ [125]) of
         None \<Rightarrow> None | Some (j, r) \<Rightarrow> if skip_ws r = [] then Some j else None)"
    by (simp add: json_loads_def dump skip_ws_head is_json_space_def del: read_value.simps)
  also have "read_value (Suc (Suc (Suc (length ?body)))) (123 # ?body @ [125]) = Some (J_Obj ms, [])"
    using body by (simp add: d skip_ws_head is_json_space_def del: read_members.simps)
  finally show ?thesis by (simp add: skip_ws_def)
qed

lemma cjson_challenge:
  assumes "cjson_flat cjson" "hex_digests pf" "sc \<in> set SCENES" "hex_text digest"
  shows "\<exists>rec. cjson (challenge_text pf st sc ow digest) = Some rec \<and> is_table rec \<and>
     (\<forall>x. field_is rec ''scene'' x \<longleftrightarrow> x = sc) \<and> (\<forall>x. field_is rec ''owner'' x \<longleftrightarrow> x = text_or_empty ow) \<and>
     (\<forall>x. field_is rec ''digest'' x \<longleftrightarrow> x = digest) \<and> (has_index rec \<longleftrightarrow> ow \<noteq> None)"
proof -
  let ?r = "captcha_record sc (text_or_empty ow) digest (index_text pf st sc ow)"
  obtain ms where ms: "cjson (dump_object ?r) = Some (J_Obj ms)" "json_get ms = json_get ?r"
    using assms(1) record_small [OF assms(2-4), of ow st] record_keys(1,2)
    unfolding cjson_flat_def by metis
  have "index_text pf st sc ow = [] \<longleftrightarrow> ow = None"
    by (auto simp: index_text_def captcha_index_def captcha_prefix_def split: option.split)
  then have index: "has_index (J_Obj ms) \<longleftrightarrow> ow \<noteq> None"
    by (simp add: has_index_def lua_field_def ms(2) record_get) (simp add: lit_def)
  have fields: "lua_field (J_Obj ms) k = json_get ?r (lit k)" for k
    by (simp add: lua_field_def ms(2))
  have "field_is (J_Obj ms) ''scene'' x \<longleftrightarrow> x = sc" "field_is (J_Obj ms) ''owner'' x \<longleftrightarrow> x = text_or_empty ow"
    "field_is (J_Obj ms) ''digest'' x \<longleftrightarrow> x = digest" for x
    by (auto simp: field_is_def fields record_get)
  then show ?thesis
    using ms(1) index by (intro exI [of _ "J_Obj ms"]) (simp add: challenge_text_def is_table_def)
qed

end
