(* ===== verification/Captcha_Runs.thy ===== *)
theory Captcha_Runs
  imports Captcha_Laws
begin

text \<open>
  Histories of the challenge store. The log names the challenges issued, with the drawn answer
  and the instant, and the guesses made: a challenge that was there and is gone after a run of
  the consuming script. Clocks do not run backwards and an identifier is drawn once.
\<close>

datatype captcha_event =
    Issued uuid string "uuid option" pystr int
  | Tried uuid

fun issued_id :: "captcha_event \<Rightarrow> uuid option" where
  "issued_id (Issued u sc ow a t) = Some u"
| "issued_id (Tried u) = None"

definition key_or :: "platform \<Rightarrow> settings \<Rightarrow> uuid \<Rightarrow> uuid option \<Rightarrow> string" where
  "key_or pf st u v = captcha_key pf st (case v of None \<Rightarrow> u | Some w \<Rightarrow> w)"

text \<open>The scripts with the arguments the service gives them.\<close>

definition issuing ::
    "lua_json \<Rightarrow> platform \<Rightarrow> settings \<Rightarrow> uuid \<Rightarrow> string \<Rightarrow> uuid option \<Rightarrow> string \<Rightarrow> uuid option \<Rightarrow> uuid option \<Rightarrow>
     int \<Rightarrow> (redis, redis_reply) proc" where
  "issuing cjson pf st u sc ow digest previous current now =
     issue_script cjson
       (captcha_key pf st u, key_or pf st u previous, captcha_index pf st sc ow, key_or pf st u current)
       (text_or_empty previous) sc (text_or_empty ow) (uuid_str u) (challenge_text pf st sc ow digest)
       CAPTCHA_TTL_SECONDS (text_or_empty current) now"

definition consuming ::
    "lua_json \<Rightarrow> platform \<Rightarrow> settings \<Rightarrow> uuid \<Rightarrow> string \<Rightarrow> string \<Rightarrow> string \<Rightarrow> string \<Rightarrow> pystr \<Rightarrow> int \<Rightarrow>
     (redis, redis_reply) proc" where
  "consuming cjson pf st u index sc owner digest raw now =
     consume_script cjson (captcha_key pf st u, if index \<noteq> [] then index else captcha_key pf st u)
       (uuid_str u) sc owner digest raw now"

inductive captcha_run ::
    "lua_json \<Rightarrow> platform \<Rightarrow> settings \<Rightarrow> captcha_event list \<Rightarrow> int \<Rightarrow> redis \<Rightarrow> bool"
  for cjson :: lua_json and pf :: platform and st :: settings where
  start: "(\<And>k. captcha_owned pf st k \<Longrightarrow> s k = None) \<Longrightarrow> captcha_run cjson pf st [] now s"
| later: "captcha_run cjson pf st log now s \<Longrightarrow> now \<le> now' \<Longrightarrow> captcha_run cjson pf st log now' s"
| elsewhere: "captcha_run cjson pf st log now s \<Longrightarrow> (\<And>k. captcha_owned pf st k \<Longrightarrow> s' k = s k) \<Longrightarrow>
    captcha_run cjson pf st log now s'"
| issue: "captcha_run cjson pf st log now s \<Longrightarrow> Some u \<notin> issued_id ` set log \<Longrightarrow>
    captcha_owner sc ow = Inr owner \<Longrightarrow> captcha_digest pf st u a = Inr digest \<Longrightarrow>
    issuing cjson pf st u sc ow digest previous current now s = (r, s') \<Longrightarrow>
    captcha_run cjson pf st (if r = Inr (Int_reply 1) then Issued u sc ow a now # log else log) now s'"
| consume: "captcha_run cjson pf st log now s \<Longrightarrow> checked_index pf st raw = Inr index \<Longrightarrow>
    consuming cjson pf st u index sc owner digest raw now s = (r, s') \<Longrightarrow>
    captcha_run cjson pf st
      (if s (captcha_key pf st u) \<noteq> None \<and> s' (captcha_key pf st u) = None then Tried u # log else log) now s'"

subsection \<open>What the scripts do\<close>

definition set_challenge ::
    "platform \<Rightarrow> settings \<Rightarrow> uuid \<Rightarrow> string \<Rightarrow> uuid option \<Rightarrow> string \<Rightarrow> int \<Rightarrow> redis \<Rightarrow> redis" where
  "set_challenge pf st u sc ow digest now s =
     (let s1 = r_set_ex now (captcha_key pf st u) (challenge_text pf st sc ow digest) CAPTCHA_TTL_SECONDS s
      in if ow = None then s1
         else r_set_ex now (captcha_index pf st sc ow) (lit (uuid_str u)) CAPTCHA_TTL_SECONDS s1)"

lemma uuid_str_not_Nil [simp]:
  "uuid_str u \<noteq> []" "[] \<noteq> uuid_str u" "lit x = [] \<longleftrightarrow> x = []" "[] = lit x \<longleftrightarrow> x = []"
  by (auto simp: lit_def dest: arg_cong [where f = length])

lemma text_or_empty_simps [simp]: "text_or_empty None = []" "text_or_empty (Some u) = uuid_str u"
  by (simp_all add: text_or_empty_def)

lemma write_challenge_eq [simp]:
  "write_challenge (captcha_key pf st u) index [] (uuid_str u) (challenge_text pf st sc None digest)
     CAPTCHA_TTL_SECONDS now s = (Inr (Int_reply 1), set_challenge pf st u sc None digest now s)"
  "write_challenge (captcha_key pf st u) (captcha_index pf st sc (Some w)) (uuid_str w) (uuid_str u)
     (challenge_text pf st sc (Some w) digest) CAPTCHA_TTL_SECONDS now s
   = (Inr (Int_reply 1), set_challenge pf st u sc (Some w) digest now s)"
  by (simp_all add: write_challenge_def set_challenge_def bindP_def Let_def)

text \<open>The challenge that a successful issue replaces.\<close>

definition replaces ::
    "platform \<Rightarrow> settings \<Rightarrow> string \<Rightarrow> uuid option \<Rightarrow> uuid option \<Rightarrow> uuid option \<Rightarrow> int \<Rightarrow> redis \<Rightarrow> bool" where
  "replaces pf st sc ow previous current now s \<longleftrightarrow>
     (case previous of
        Some p \<Rightarrow> ow \<noteq> None \<longrightarrow> r_get now (captcha_index pf st sc ow) s = Inr (Some (lit (uuid_str p)))
      | None \<Rightarrow> ow \<noteq> None \<longrightarrow> r_get now (captcha_index pf st sc ow) s =
          Inr (map_option (\<lambda>u. lit (uuid_str u)) current) \<or>
          current = None \<and> r_get now (captcha_index pf st sc ow) s = Inr (Some []))"

definition replaced_gone :: "platform \<Rightarrow> settings \<Rightarrow> uuid option \<Rightarrow> uuid option \<Rightarrow> uuid option \<Rightarrow> redis \<Rightarrow> redis" where
  "replaced_gone pf st ow previous current s =
     (case previous of
        Some p \<Rightarrow> r_del (captcha_key pf st p) s
      | None \<Rightarrow> (case current of Some c \<Rightarrow> if ow = None then s else r_del (captcha_key pf st c) s | None \<Rightarrow> s))"

lemma issuing_cases:
  assumes "issuing cjson pf st u sc ow digest previous current now s = (r, s')"
  shows "(r \<noteq> Inr (Int_reply 1) \<and> s' = s) \<or>
     (r = Inr (Int_reply 1) \<and> replaces pf st sc ow previous current now s \<and>
      s' = set_challenge pf st u sc ow digest now (replaced_gone pf st ow previous current s))"
proof (cases previous)
  case [simp]: None
  show ?thesis
  proof (cases ow)
    case [simp]: (Some w)
    show ?thesis
    proof (cases "r_get now (captcha_index pf st sc ow) s")
      case (Inr pointer)
      then show ?thesis
        using assms by (cases current; cases pointer)
          (auto simp: issuing_def issue_script_def key_or_def r_getP_def bindP_def replaces_def replaced_gone_def
            split: if_splits)
    qed (use assms in \<open>auto simp: issuing_def issue_script_def r_getP_def bindP_def\<close>)
  qed (use assms in \<open>auto simp: issuing_def issue_script_def bindP_def replaces_def replaced_gone_def split: option.splits\<close>)
next
  case [simp]: (Some p)
  note unfold = issuing_def issue_script_def key_or_def r_getP_def bindP_def replaces_def replaced_gone_def
  show ?thesis
  proof (cases "r_get now (captcha_key pf st p) s")
    case (Inr raw)
    then show ?thesis
      using assms by (cases ow; cases "r_get now (captcha_index pf st sc ow) s")
        (auto simp: unfold split: if_splits option.splits)
  qed (use assms in \<open>auto simp: unfold\<close>)
qed

lemma checked_index_form: "checked_index pf st raw = Inr index \<Longrightarrow> index = [] \<or> (\<exists>sc w. index = captcha_index pf st sc (Some w))"
  by (auto simp: checked_index_def invalid_record_def split: option.splits json.splits if_splits)

definition index_or_key :: "platform \<Rightarrow> settings \<Rightarrow> uuid \<Rightarrow> string \<Rightarrow> string" where
  "index_or_key pf st u index = (if index \<noteq> [] then index else captcha_key pf st u)"

lemma consuming_cases:
  assumes "consuming cjson pf st u index sc owner digest raw now s = (r, s')"
  shows "(r \<noteq> Inr (Int_reply 1) \<and> s' = s) \<or>
     (\<exists>rec. r_get now (captcha_key pf st u) s = Inr (Some raw) \<and> cjson raw = Some rec \<and>
        (r = Inr (Int_reply 1) \<longrightarrow> field_is rec ''scene'' sc \<and> field_is rec ''owner'' owner \<and> field_is rec ''digest'' digest) \<and>
        (s' = r_del (captcha_key pf st u) s \<or>
         s' = r_del (index_or_key pf st u index) (r_del (captcha_key pf st u) s) \<and>
           r_get now (index_or_key pf st u index) (r_del (captcha_key pf st u) s) = Inr (Some (lit (uuid_str u)))))"
proof -
  note unfold = consuming_def consume_script_def r_getP_def bindP_def index_or_key_def
  show ?thesis
  proof (cases "r_get now (captcha_key pf st u) s")
    case (Inr found)
    show ?thesis
    proof (cases "found = Some raw")
      case True
      then show ?thesis
        using assms Inr
        by (cases "r_get now (index_or_key pf st u index) (r_del (captcha_key pf st u) s)")
          (auto simp: unfold split: option.splits if_splits)
    qed (use assms Inr in \<open>auto simp: unfold split: option.splits if_splits\<close>)
  qed (use assms in \<open>auto simp: unfold\<close>)
qed

subsection \<open>The invariant\<close>

definition issued_as ::
    "platform \<Rightarrow> settings \<Rightarrow> captcha_event list \<Rightarrow> uuid \<Rightarrow> string \<Rightarrow> uuid option \<Rightarrow> string \<Rightarrow> int \<Rightarrow> bool" where
  "issued_as pf st log u sc ow digest t \<longleftrightarrow>
     (\<exists>a owner. Issued u sc ow a t \<in> set log \<and> captcha_owner sc ow = Inr owner \<and> captcha_digest pf st u a = Inr digest)"

definition stored_challenges :: "platform \<Rightarrow> settings \<Rightarrow> captcha_event list \<Rightarrow> redis \<Rightarrow> bool" where
  "stored_challenges pf st log s \<longleftrightarrow>
     (\<forall>u v e. s (captcha_key pf st u) = Some (v, e) \<longrightarrow> Tried u \<notin> set log \<and>
        (\<exists>sc ow digest t. issued_as pf st log u sc ow digest t \<and>
           v = text_value (challenge_text pf st sc ow digest) \<and> e = Some (ms_of t + CAPTCHA_TTL_SECONDS * 1000)))"

definition pointed :: "platform \<Rightarrow> settings \<Rightarrow> captcha_event list \<Rightarrow> int \<Rightarrow> redis \<Rightarrow> bool" where
  "pointed pf st log now s \<longleftrightarrow>
     (\<forall>u sc w a t. Issued u sc (Some w) a t \<in> set log \<longrightarrow> s (captcha_key pf st u) \<noteq> None \<longrightarrow>
        ms_of now \<le> ms_of t + CAPTCHA_TTL_SECONDS * 1000 \<longrightarrow>
        s (captcha_index pf st sc (Some w)) =
          Some (text_value (lit (uuid_str u)), Some (ms_of t + CAPTCHA_TTL_SECONDS * 1000)))"

definition log_ok :: "captcha_event list \<Rightarrow> bool" where
  "log_ok log \<longleftrightarrow>
     (\<forall>x \<in> set log. \<forall>y \<in> set log. issued_id x = issued_id y \<longrightarrow> issued_id x \<noteq> None \<longrightarrow> x = y) \<and>
     (\<forall>u. count_list log (Tried u) \<le> 1 \<and> (Tried u \<in> set log \<longrightarrow> Some u \<in> issued_id ` set log))"

definition board_ok :: "platform \<Rightarrow> settings \<Rightarrow> captcha_event list \<Rightarrow> int \<Rightarrow> redis \<Rightarrow> bool" where
  "board_ok pf st log now s \<longleftrightarrow> log_ok log \<and> stored_challenges pf st log s \<and> pointed pf st log now s"

lemma set_challenge_at [simp]:
  "set_challenge pf st u sc ow digest now s (captcha_key pf st v) =
     (if v = u then Some (text_value (challenge_text pf st sc ow digest), Some (ms_of now + CAPTCHA_TTL_SECONDS * 1000))
      else s (captcha_key pf st v))"
  "set_challenge pf st u sc ow digest now s (captcha_index pf st sc' (Some w)) =
     (if sc' = sc \<and> ow = Some w
      then Some (text_value (lit (uuid_str u)), Some (ms_of now + CAPTCHA_TTL_SECONDS * 1000))
      else s (captcha_index pf st sc' (Some w)))"
  by (cases ow; simp add: set_challenge_def r_set_ex_def r_put_def)+

lemma r_del_at: "r_del k s k' = (if k' = k then None else s k')"
  by (simp add: r_del_def)

lemma replaced_gone_at:
  "replaced_gone pf st ow previous current s (captcha_key pf st v) \<in> {None, s (captcha_key pf st v)}"
  "replaced_gone pf st ow previous current s (captcha_index pf st sc (Some w)) = s (captcha_index pf st sc (Some w))"
  by (auto simp: replaced_gone_def r_del_at split: option.splits)

lemma get_live_text:
  "s k = Some (text_value x, Some e) \<Longrightarrow> ms_of now \<le> e \<Longrightarrow> r_get now k s = Inr (Some x)"
  by (simp add: r_get_def r_lookup_def)

lemma issued_as_Cons: "issued_as pf st log u sc ow digest t \<Longrightarrow> issued_as pf st (e # log) u sc ow digest t"
  by (auto simp: issued_as_def)

lemma replaced_pointed_gone:
  assumes "replaces pf st sc (Some w) previous current now s"
    and "r_get now (captcha_index pf st sc (Some w)) s = Inr (Some (lit (uuid_str v)))"
  shows "replaced_gone pf st (Some w) previous current s (captcha_key pf st v) = None"
  using assms by (auto simp: replaces_def replaced_gone_def r_del_at uuid_str_inject split: option.splits)

lemma log_ok_Issued:
  assumes "log_ok log" "Some u \<notin> issued_id ` set log"
  shows "log_ok (Issued u sc ow a t # log)"
proof -
  have "issued_id x \<noteq> issued_id (Issued u sc ow a t)" if "x \<in> set log" for x
    using assms(2) that by force
  then show ?thesis
    using assms(1) by (auto simp: log_ok_def)
qed

lemma log_ok_Tried:
  "log_ok log \<Longrightarrow> Tried u \<notin> set log \<Longrightarrow> Some u \<in> issued_id ` set log \<Longrightarrow> log_ok (Tried u # log)"
  by (auto simp: log_ok_def)

lemma board_ok_issue:
  assumes ok: "board_ok pf st log now s" and fresh: "Some u \<notin> issued_id ` set log"
    and owner: "captcha_owner sc ow = Inr owner" and digest: "captcha_digest pf st u a = Inr digest"
    and rep: "replaces pf st sc ow previous current now s"
  shows "board_ok pf st (Issued u sc ow a now # log) now
    (set_challenge pf st u sc ow digest now (replaced_gone pf st ow previous current s))"
    (is "board_ok pf st ?log now ?s")
proof -
  have log: "log_ok log" and stored: "stored_challenges pf st log s" and pointed: "pointed pf st log now s"
    using ok by (simp_all add: board_ok_def)
  have untried: "Tried u \<notin> set log" using log fresh by (auto simp: log_ok_def)
  have new: "issued_as pf st ?log u sc ow digest now"
    using owner digest by (auto simp: issued_as_def)
  have "log_ok ?log"
    using log_ok_Issued [OF log fresh] .
  moreover have "stored_challenges pf st ?log ?s"
    unfolding stored_challenges_def
  proof (intro allI impI)
    fix v x e assume v: "?s (captcha_key pf st v) = Some (x, e)"
    show "Tried v \<notin> set ?log \<and> (\<exists>sc ow digest t. issued_as pf st ?log v sc ow digest t \<and>
        x = text_value (challenge_text pf st sc ow digest) \<and> e = Some (ms_of t + CAPTCHA_TTL_SECONDS * 1000))"
    proof (cases "v = u")
      case True
      then show ?thesis using v new untried by auto
    next
      case False
      then have "s (captcha_key pf st v) = Some (x, e)"
        using v replaced_gone_at(1) [of pf st ow previous current s v] by auto
      then show ?thesis
        using stored issued_as_Cons unfolding stored_challenges_def by (metis captcha_event.distinct(1) set_ConsD)
    qed
  qed
  moreover have "pointed pf st ?log now ?s"
    unfolding pointed_def
  proof (intro allI impI)
    fix v sc' w a' t
    assume ev: "Issued v sc' (Some w) a' t \<in> set ?log" and there: "?s (captcha_key pf st v) \<noteq> None"
      and live: "ms_of now \<le> ms_of t + CAPTCHA_TTL_SECONDS * 1000"
    show "?s (captcha_index pf st sc' (Some w)) =
        Some (text_value (lit (uuid_str v)), Some (ms_of t + CAPTCHA_TTL_SECONDS * 1000))"
    proof (cases "v = u")
      case True
      then show ?thesis using ev fresh by (force dest: imageI [where f = issued_id])
    next
      case False
      then have old: "Issued v sc' (Some w) a' t \<in> set log" "s (captcha_key pf st v) \<noteq> None"
        using ev there replaced_gone_at(1) [of pf st ow previous current s v] by auto
      then have ptr: "s (captcha_index pf st sc' (Some w)) =
          Some (text_value (lit (uuid_str v)), Some (ms_of t + CAPTCHA_TTL_SECONDS * 1000))"
        using pointed live by (simp add: pointed_def)
      have "\<not> (sc' = sc \<and> ow = Some w)"
        using replaced_pointed_gone [of pf st sc w previous current now s v] rep get_live_text [where s = s, OF ptr live] there False
        by auto
      then show ?thesis using ptr by (auto simp: replaced_gone_at(2))
    qed
  qed
  ultimately show ?thesis by (simp add: board_ok_def)
qed

lemma board_ok_consume:
  assumes ok: "board_ok pf st log now s" and index: "checked_index pf st raw = Inr index"
    and run: "consuming cjson pf st u index sc owner digest raw now s = (r, s')"
    and log': "log' = (if s (captcha_key pf st u) \<noteq> None \<and> s' (captcha_key pf st u) = None then Tried u # log else log)"
  shows "board_ok pf st log' now s'"
proof (cases "s' = s")
  case False
  let ?k = "captcha_key pf st u" and ?i = "index_or_key pf st u index"
  have log: "log_ok log" and stored: "stored_challenges pf st log s" and pointed: "pointed pf st log now s"
    using ok by (simp_all add: board_ok_def)
  have found: "r_get now ?k s = Inr (Some raw)"
    and s': "s' = r_del ?k s \<or> s' = r_del ?i (r_del ?k s) \<and> r_get now ?i (r_del ?k s) = Inr (Some (lit (uuid_str u)))"
    using consuming_cases [OF run] False by auto
  have there: "s ?k \<noteq> None" using found by (auto simp: r_get_def r_lookup_def split: option.splits)
  have gone: "s' ?k = None" using s' by (auto simp: r_del_at)
  have keys: "s' (captcha_key pf st v) = (if v = u then None else s (captcha_key pf st v))" for v
    using s' checked_index_form [OF index] by (auto simp: r_del_at index_or_key_def)
  have log'_eq: "log' = Tried u # log" using log' there gone by simp
  have tried: "Tried u \<notin> set log" "Some u \<in> issued_id ` set log"
    using stored there by (auto simp: stored_challenges_def issued_as_def) force
  have "log_ok log'"
    using log_ok_Tried [OF log tried] by (simp add: log'_eq)
  moreover have "stored_challenges pf st log' s'"
    using stored issued_as_Cons unfolding stored_challenges_def log'_eq keys
    by (metis captcha_event.inject(2) option.distinct(1) set_ConsD)
  moreover have "pointed pf st log' now s'"
    unfolding pointed_def
  proof (intro allI impI)
    fix v sc' w a t
    assume v: "Issued v sc' (Some w) a t \<in> set log'" "s' (captcha_key pf st v) \<noteq> None"
      "ms_of now \<le> ms_of t + CAPTCHA_TTL_SECONDS * 1000"
    then have ptr: "s (captcha_index pf st sc' (Some w)) =
        Some (text_value (lit (uuid_str v)), Some (ms_of t + CAPTCHA_TTL_SECONDS * 1000))" and "v \<noteq> u"
      using pointed by (auto simp: pointed_def log'_eq keys split: if_splits)
    then have "?i = captcha_index pf st sc' (Some w) \<Longrightarrow> r_get now ?i (r_del ?k s) \<noteq> Inr (Some (lit (uuid_str u)))"
      using get_live_text [where s = s, OF ptr v(3)] by (auto simp: r_get_def r_lookup_def r_del_at uuid_str_inject)
    then show "s' (captcha_index pf st sc' (Some w)) =
        Some (text_value (lit (uuid_str v)), Some (ms_of t + CAPTCHA_TTL_SECONDS * 1000))"
      using s' ptr by (auto simp: r_del_at)
  qed
  ultimately show ?thesis by (simp add: board_ok_def)
qed (use assms in auto)

lemma captcha_run_ok: "captcha_run cjson pf st log now s \<Longrightarrow> board_ok pf st log now s"
proof (induction rule: captcha_run.induct)
  case (start s now)
  then show ?case by (simp add: board_ok_def log_ok_def stored_challenges_def pointed_def)
next
  case (later log now s now')
  then show ?case
    using ms_of_mono [of now now'] by (fastforce simp: board_ok_def pointed_def)
next
  case (elsewhere log now s s')
  then show ?case by (simp add: board_ok_def stored_challenges_def pointed_def)
next
  case (issue log now s u sc ow owner a digest previous current r s')
  then show ?case
    using issuing_cases [OF issue(5)] board_ok_issue [OF issue.IH issue(2-4)] by auto
next
  case (consume log now s raw index u sc owner digest r s')
  then show ?case
    using board_ok_consume by blast
qed

end
