(* ===== verification/Captcha_Calls.thy ===== *)
theory Captcha_Calls
  imports Captcha_Runs
begin

text \<open>
  The calls of the service in terms of the scripts: what a consuming call was answered, what a
  stored challenge was issued as, and what an issuing call leaves in Redis.
\<close>

subsection \<open>The calls of the service and the scripts\<close>

lemma captcha_errors_differ [simp]:
  "captcha_invalid \<noteq> unavailable x" "unavailable x \<noteq> captcha_invalid"
  by (simp_all add: captcha_invalid_def unavailable_def)

lemma store_unavailable_simps [simp]:
  "store_unavailable m s = (Inr x, s') \<longleftrightarrow> m s = (Inr x, s')"
  "store_unavailable m s = (Inl (Rbac captcha_invalid), s') \<longleftrightarrow> m s = (Inl (Rbac captcha_invalid), s')"
  by (auto simp: store_unavailable_def handleP_def split: prod.splits sum.splits failure.splits)

lemma redis_call_failure: "redis_call io (\<lambda>now. r_getP now k) s = (r, s') \<Longrightarrow> s' = s"
  by (auto simp: redis_call_def r_getP_def split: redis_fault.splits)

lemma redis_call_get:
  "redis_call io (\<lambda>now. r_getP now k) s = (Inr x, s') \<longleftrightarrow>
     io_fault io = Answered \<and> r_get (io_now io) k s = Inr x \<and> s' = s"
  by (auto simp: redis_call_def r_getP_def split: redis_fault.splits)

definition consumed_with ::
    "lua_json \<Rightarrow> platform \<Rightarrow> settings \<Rightarrow> captcha_call \<Rightarrow> uuid \<Rightarrow> pystr \<Rightarrow> string \<Rightarrow> string \<Rightarrow> redis \<Rightarrow> int \<Rightarrow> redis \<Rightarrow> bool" where
  "consumed_with cjson pf st c u answer sc owner s reply s' \<longleftrightarrow>
     (\<exists>raw index digest. r_get (io_now (cc_get c)) (captcha_key pf st u) s = Inr (Some raw) \<and>
        checked_index pf st raw = Inr index \<and> captcha_digest pf st u answer = Inr digest \<and>
        consuming cjson pf st u index sc owner digest raw (io_now (cc_eval c)) (cc_meanwhile c s)
          = (Inr (Int_reply reply), s'))"

lemma bindP_liftP [simp]: "bindP (liftP (Inr x)) f = f x" "bindP (liftP (Inl e)) f = raiseP e"
  by (auto simp: bindP_def)

text \<open>No step but the missing challenge itself raises an error that is not an outage.\<close>

lemma only_outages [simp]:
  "redis_call io (\<lambda>now. r_getP now k) s \<noteq> (Inl (Rbac e), s')"
  "checked_index pf st raw \<noteq> Inl (Rbac e)"
  "captcha_digest pf st u a \<noteq> Inl (Rbac e)"
  "redis_call io (consuming cjson pf st u index sc owner digest raw) s \<noteq> (Inl (Rbac e), s')"
proof -
  show "redis_call io (\<lambda>now. r_getP now k) s \<noteq> (Inl (Rbac e), s')"
    by (auto simp: redis_call_def r_getP_def r_get_def split: redis_fault.splits option.splits prod.splits)
  show "checked_index pf st raw \<noteq> Inl (Rbac e)"
    by (auto simp: checked_index_def invalid_record_def split: option.splits json.splits if_splits)
  show "captcha_digest pf st u a \<noteq> Inl (Rbac e)"
    by (auto simp: captcha_digest_def bindE_def utf8_encode_def split: sum.splits if_splits)
  have "consuming cjson pf st u index sc owner digest raw now t \<noteq> (Inl (Rbac e), s')" for now t
    by (auto simp: consuming_def consume_script_def bindP_def r_getP_def r_get_def
        split: if_splits option.splits prod.splits sum.splits)
  then show "redis_call io (consuming cjson pf st u index sc owner digest raw) s \<noteq> (Inl (Rbac e), s')"
    by (auto simp: redis_call_def split: redis_fault.splits)
qed

lemma consuming_eq:
  "consuming cjson pf st u index sc owner digest raw =
     consume_script cjson (captcha_key pf st u, if index \<noteq> [] then index else captcha_key pf st u)
       (uuid_str u) sc owner digest raw"
  by (simp add: consuming_def fun_eq_iff)

lemma consume_captcha_answered:
  assumes run: "consume_captcha cjson pf st c u answer sc ow s = (r, s')"
    and owner: "captcha_owner sc ow = Inr owner" and r: "r = Inr () \<or> r = Inl (Rbac captcha_invalid)"
  shows "(r = Inl (Rbac captcha_invalid) \<and> r_get (io_now (cc_get c)) (captcha_key pf st u) s = Inr None \<and> s' = s) \<or>
     consumed_with cjson pf st c u answer sc owner s (if r = Inr () then 1 else 0) s'"
proof -
  let ?key = "captcha_key pf st u"
  define inner where "inner = bindP (redis_call (cc_get c) (\<lambda>now. r_getP now ?key)) (\<lambda>raw.
       case raw of
         None \<Rightarrow> raiseP (Rbac captcha_invalid)
       | Some raw \<Rightarrow>
           bindP (liftP (checked_index pf st raw)) (\<lambda>index.
           bindP (liftP (captcha_digest pf st u answer)) (\<lambda>digest.
           bindP (updateP (cc_meanwhile c)) (\<lambda>_.
             redis_call (cc_eval c) (consuming cjson pf st u index sc owner digest raw)))))"
  have outer: "bindP (store_unavailable inner) (\<lambda>reply.
     if reply = Int_reply 1 then returnP ()
     else if reply = Int_reply 0 then raiseP (Rbac captcha_invalid)
     else raiseP (Rbac (unavailable ''captcha_store_unavailable''))) s = (r, s')"
    using run unfolding consume_captcha_def owner consuming_eq Let_def bindP_liftP inner_def .
  have raised: "inner s = (Inl (Rbac captcha_invalid), s') \<Longrightarrow> r_get (io_now (cc_get c)) ?key s = Inr None \<and> s' = s"
    by (auto simp: inner_def bindP_Inl redis_call_get split: option.splits)
  have answered: "inner s = (Inr (Int_reply n), s') \<Longrightarrow> consumed_with cjson pf st c u answer sc owner s n s'" for n
    by (auto simp: inner_def bindP_Inr redis_call_get consumed_with_def split: option.splits dest!: redis_call_Inr)
  show ?thesis
    using r outer
    by (auto simp: bindP_Inr bindP_Inl split: if_splits dest!: raised answered)
qed

subsection \<open>What a stored challenge was issued as\<close>

lemma stored_text:
  assumes "captcha_run cjson pf st log now s" "r_get now (captcha_key pf st u) s = Inr (Some raw)"
  shows "Tried u \<notin> set log \<and> (\<exists>sc ow digest t. issued_as pf st log u sc ow digest t \<and>
     raw = challenge_text pf st sc ow digest \<and> ms_of now \<le> ms_of t + CAPTCHA_TTL_SECONDS * 1000)"
proof -
  have stored: "stored_challenges pf st log s"
    using captcha_run_ok [OF assms(1)] by (simp add: board_ok_def)
  obtain v e where v: "s (captcha_key pf st u) = Some (v, e)"
    using assms(2) by (auto simp: r_get_def r_lookup_def split: option.splits)
  then obtain sc ow digest t where c: "Tried u \<notin> set log" "issued_as pf st log u sc ow digest t"
    "v = text_value (challenge_text pf st sc ow digest)" "e = Some (ms_of t + CAPTCHA_TTL_SECONDS * 1000)"
    using stored unfolding stored_challenges_def by blast
  then have "raw = challenge_text pf st sc ow digest" "ms_of now \<le> ms_of t + CAPTCHA_TTL_SECONDS * 1000"
    using assms(2) v by (auto simp: r_get_def r_lookup_def split: if_splits)
  with c show ?thesis by blast
qed

lemma issued_as_parts:
  assumes "hex_digests pf" "issued_as pf st log u sc ow digest t"
  shows "sc \<in> set SCENES" "hex_text digest" "length digest = 64" "sc \<in> set PRIVATE_SCENES \<longleftrightarrow> ow \<noteq> None"
  using assms by (auto simp: issued_as_def captcha_owner_Inr captcha_digest_def bindE_Inr hex_digests_def)

lemma issued_once:
  assumes "captcha_run cjson pf st log now s" "issued_as pf st log u sc ow digest t" "issued_as pf st log u sc' ow' digest' t'"
  shows "sc' = sc \<and> ow' = ow \<and> digest' = digest"
proof -
  have log: "log_ok log" using captcha_run_ok [OF assms(1)] by (simp add: board_ok_def)
  obtain a a' where a: "Issued u sc ow a t \<in> set log" "captcha_digest pf st u a = Inr digest"
    "Issued u sc' ow' a' t' \<in> set log" "captcha_digest pf st u a' = Inr digest'"
    using assms(2,3) by (auto simp: issued_as_def)
  then have "Issued u sc ow a t = Issued u sc' ow' a' t'"
    using log unfolding log_ok_def by fastforce
  with a show ?thesis by auto
qed

lemma consuming_guess:
  assumes "r_get now (captcha_key pf st u) s = Inr (Some raw)" "cjson raw = Some rec" "is_table rec"
    and "consuming cjson pf st u index sc owner digest raw now s = (r, s')"
  shows "s' (captcha_key pf st u) = None"
  using assms by (auto simp: consuming_def consume_script_def r_getP_def bindP_def r_del_at
      split: if_splits sum.splits prod.splits)

lemma same_text:
  assumes "hex_digests pf" "captcha_run cjson pf st log now s" "captcha_run cjson pf st (new @ log) now' s'"
    and "r_get now (captcha_key pf st u) s = Inr (Some raw)" "r_get now' (captcha_key pf st u) s' = Inr (Some raw')"
  shows "raw' = raw"
proof -
  obtain sc ow d t where first: "issued_as pf st log u sc ow d t" "raw = challenge_text pf st sc ow d"
    using stored_text [OF assms(2,4)] by blast
  obtain sc' ow' d' t' where second: "issued_as pf st (new @ log) u sc' ow' d' t'" "raw' = challenge_text pf st sc' ow' d'"
    using stored_text [OF assms(3,5)] by blast
  have "issued_as pf st (new @ log) u sc ow d t"
    using first(1) unfolding issued_as_def by auto
  from issued_once [OF assms(3) this second(1)] first(2) second(2) show ?thesis by simp
qed

lemma stored_table:
  assumes "cjson_flat cjson" "hex_digests pf" "captcha_run cjson pf st log now s"
    and "r_get now (captcha_key pf st u) s = Inr (Some raw)"
  shows "\<exists>rec. cjson raw = Some rec \<and> is_table rec"
proof -
  obtain sc ow d t where c: "issued_as pf st log u sc ow d t" "raw = challenge_text pf st sc ow d"
    using stored_text [OF assms(3,4)] by blast
  show ?thesis
    using cjson_challenge [OF assms(1,2) issued_as_parts(1,2) [OF assms(2) c(1)], of st ow] c(2) by blast
qed

lemma get_None_later:
  "r_get t k x = Inr None \<Longrightarrow> t \<le> now \<Longrightarrow> r_lookup now k x = None"
  using ms_of_mono [of t now] by (auto simp: r_get_def r_lookup_def split: option.splits if_splits)

lemma consuming_get_other:
  assumes "consuming cjson pf st u index sc owner digest raw now s = (Inr (Int_reply n), s')"
  shows "\<exists>found. r_get now (captcha_key pf st u) s = Inr found \<and> (found = None \<longrightarrow> s' = s)"
  using assms by (cases "r_get now (captcha_key pf st u) s")
    (auto simp: consuming_def consume_script_def r_getP_def bindP_def)

subsection \<open>Issuing and answering\<close>

lemma issue_attempt_reply:
  assumes "issue_captcha_attempt cjson pf st c u sc ow (text_or_empty ow) previous (challenge_text pf st sc ow digest) s
    = (Inr (Int_reply 1), s')"
  shows "\<exists>s0. s' = set_challenge pf st u sc ow digest (io_now (cc_eval c)) s0"
proof -
  obtain current s1 where "issuing cjson pf st u sc ow digest previous current (io_now (cc_eval c)) s1
      = (Inr (Int_reply 1), s')"
    using assms by (auto simp: issue_captcha_attempt_def bindP_Inr issuing_def key_or_def dest!: redis_call_Inr)
  from issuing_cases [OF this] show ?thesis by blast
qed

lemma issue_attempts_reply:
  assumes "issue_captcha_attempts cjson pf st calls u sc ow (text_or_empty ow) previous
      (challenge_text pf st sc ow digest) left s = (Inr (Int_reply 1), s')" "left \<le> POINTER_ATTEMPTS"
  shows "\<exists>k < POINTER_ATTEMPTS. \<exists>s0. s' = set_challenge pf st u sc ow digest (io_now (cc_eval (calls k))) s0"
  using assms
proof (induction left arbitrary: s)
  case (Suc left)
  have bound: "POINTER_ATTEMPTS - Suc left < POINTER_ATTEMPTS" using Suc.prems(2) by simp
  obtain reply s1 where one: "issue_captcha_attempt cjson pf st (calls (POINTER_ATTEMPTS - Suc left)) u sc ow (text_or_empty ow)
      previous (challenge_text pf st sc ow digest) s = (Inr reply, s1)"
    "(if reply \<noteq> Int_reply 2 then returnP reply
      else issue_captcha_attempts cjson pf st calls u sc ow (text_or_empty ow) previous
        (challenge_text pf st sc ow digest) left) s1 = (Inr (Int_reply 1), s')"
    using Suc.prems(1) by (auto simp: bindP_Inr)
  show ?case
  proof (cases "reply = Int_reply 2")
    case True
    then show ?thesis using Suc.IH [of s1] one(2) Suc.prems(2) by simp
  next
    case False
    then have "reply = Int_reply 1" "s1 = s'" using one(2) by simp_all
    then show ?thesis using issue_attempt_reply [of cjson pf st _ u sc ow previous digest s s'] one(1) bound by blast
  qed
qed simp

lemma issue_captcha_Inr:
  assumes "issue_captcha cjson pf st picture calls u choice sc ow previous s = (Inr (i, img), s')"
  shows "i = u \<and> img = picture (drawn_answer choice) \<and> captcha_owner sc ow = Inr (text_or_empty ow) \<and>
    (\<exists>digest. captcha_digest pf st u (drawn_answer choice) = Inr digest \<and>
      (\<exists>k < POINTER_ATTEMPTS. \<exists>s0. s' = set_challenge pf st u sc ow digest (io_now (cc_eval (calls k))) s0))"
proof -
  obtain owner where owner: "captcha_owner sc ow = Inr owner"
    using assms by (cases "captcha_owner sc ow") (simp_all add: issue_captcha_def)
  then have owner_text: "owner = text_or_empty ow" by (simp add: captcha_owner_Inr)
  obtain digest where digest: "captcha_digest pf st u (drawn_answer choice) = Inr digest"
    using assms owner by (cases "captcha_digest pf st u (drawn_answer choice)") (simp_all add: issue_captcha_def Let_def)
  have "dump_object (captcha_record sc owner digest (if owner \<noteq> [] then captcha_index pf st sc ow else []))
      = challenge_text pf st sc ow digest"
    by (simp add: challenge_text_def index_text_def owner_text)
  then have run: "bindP (store_unavailable (issue_captcha_attempts cjson pf st calls u sc ow (text_or_empty ow) previous
      (challenge_text pf st sc ow digest) POINTER_ATTEMPTS)) (\<lambda>reply.
     if reply = Int_reply 0 then raiseP (Rbac captcha_invalid)
     else if reply \<noteq> Int_reply 1 then raiseP (Rbac (unavailable ''captcha_store_unavailable''))
     else returnP (u, picture (drawn_answer choice))) s = (Inr (i, img), s')"
    using assms unfolding issue_captcha_def owner digest Let_def bindP_liftP owner_text by simp
  then have "issue_captcha_attempts cjson pf st calls u sc ow (text_or_empty ow) previous
      (challenge_text pf st sc ow digest) POINTER_ATTEMPTS s = (Inr (Int_reply 1), s')"
    "i = u" "img = picture (drawn_answer choice)"
    by (auto simp: bindP_Inr split: if_splits)
  then show ?thesis
    using issue_attempts_reply [OF _ order_refl] owner owner_text digest by blast
qed

lemma captcha_index_not_Nil [simp]: "captcha_index pf st sc (Some w) \<noteq> []"
  by (simp add: captcha_index_def captcha_prefix_def)

lemma find_scene: "sc \<in> set SCENES \<Longrightarrow> find ((=) sc) SCENES = Some sc"
  by (auto simp: SCENES_def)

lemma checked_challenge:
  assumes "hex_digests pf" "captcha_owner sc ow = Inr owner" "hex_text digest" "length digest = 64"
    and "\<And>w. ow = Some w \<Longrightarrow> uuid_version w = Some 4"
  shows "checked_index pf st (challenge_text pf st sc ow digest) = Inr (index_text pf st sc ow)"
proof -
  let ?r = "captcha_record sc (text_or_empty ow) digest (index_text pf st sc ow)"
  have sc: "sc \<in> set SCENES" "sc \<in> set PRIVATE_SCENES \<longleftrightarrow> ow \<noteq> None"
    using assms(2) by (auto simp: captcha_owner_Inr)
  have "json_loads (challenge_text pf st sc ow digest) = Some (J_Obj ?r)"
    using json_loads_dump [OF record_keys(2) record_small [OF assms(1) sc(1) assms(3)]] by (simp add: challenge_text_def)
  moreover have "length (lit digest) = 64" "list_all is_lower_hex (lit digest)"
    using assms(3,4) hex_text_lower by (simp_all add: lit_def)
  ultimately show ?thesis
    using sc(2) assms(5)
    by (cases ow) (simp_all add: checked_index_def record_keys(3) record_get find_scene [OF sc(1)] index_text_def)
qed

text \<open>A call of \<open>consume\<close> that Redis answers in time, with the challenge keys left alone in between.\<close>

definition answered_in_time :: "platform \<Rightarrow> settings \<Rightarrow> captcha_call \<Rightarrow> int \<Rightarrow> redis \<Rightarrow> redis \<Rightarrow> bool" where
  "answered_in_time pf st c t s1 s \<longleftrightarrow>
     io_fault (cc_get c) = Answered \<and> io_fault (cc_eval c) = Answered \<and>
     ms_of (io_now (cc_get c)) \<le> ms_of t + CAPTCHA_TTL_SECONDS * 1000 \<and>
     ms_of (io_now (cc_eval c)) \<le> ms_of t + CAPTCHA_TTL_SECONDS * 1000 \<and>
     (\<forall>k. captcha_owned pf st k \<longrightarrow> s k = s1 k \<and> cc_meanwhile c s k = s1 k)"

lemma consuming_accepts:
  assumes "cjson_flat cjson" "hex_digests pf" "captcha_owner sc ow = Inr owner" "hex_text digest"
    and "s (captcha_key pf st u) = Some (text_value (challenge_text pf st sc ow digest), Some e)"
    and "\<And>w. ow = Some w \<Longrightarrow> s (captcha_index pf st sc ow) = Some (text_value (lit (uuid_str u)), Some e)"
    and "ms_of now \<le> e"
  shows "fst (consuming cjson pf st u (index_text pf st sc ow) sc owner digest (challenge_text pf st sc ow digest) now s)
    = Inr (Int_reply 1)"
proof -
  have sc: "sc \<in> set SCENES" "owner = text_or_empty ow" using assms(3) by (auto simp: captcha_owner_Inr)
  obtain rec where rec: "cjson (challenge_text pf st sc ow digest) = Some rec" "is_table rec"
    "field_is rec ''scene'' sc" "field_is rec ''owner'' owner" "field_is rec ''digest'' digest" "has_index rec \<longleftrightarrow> ow \<noteq> None"
    using cjson_challenge [OF assms(1,2) sc(1) assms(4), of st ow] sc(2) by blast
  have raw: "r_get now (captcha_key pf st u) s = Inr (Some (challenge_text pf st sc ow digest))"
    using get_live_text [where s = s, OF assms(5,7)] .
  have ptr: "r_get now (captcha_index pf st sc (Some w)) (r_del (captcha_key pf st u) s) = Inr (Some (lit (uuid_str u)))"
    if "ow = Some w" for w
  proof -
    have "(r_del (captcha_key pf st u) s) (captcha_index pf st sc (Some w)) = Some (text_value (lit (uuid_str u)), Some e)"
      using assms(6) [OF that] that by (simp add: r_del_at)
    from get_live_text [where s = "r_del (captcha_key pf st u) s", OF this assms(7)] show ?thesis .
  qed
  show ?thesis
    using raw rec ptr by (cases ow) (auto simp: consuming_def consume_script_def r_getP_def bindP_def index_text_def)
qed

lemma consume_accepts:
  assumes "cjson_flat cjson" "hex_digests pf" "captcha_owner sc ow = Inr owner"
    and "\<And>w. ow = Some w \<Longrightarrow> uuid_version w = Some 4"
    and "s1 = set_challenge pf st u sc ow digest t s0" "answered_in_time pf st c t s1 s"
    and "captcha_digest pf st u answer = Inr digest"
  shows "fst (consume_captcha cjson pf st c u answer sc ow s) = Inr ()"
proof -
  let ?raw = "challenge_text pf st sc ow digest" and ?e = "ms_of t + CAPTCHA_TTL_SECONDS * 1000"
  have hex: "hex_text digest" "length digest = 64"
    using assms(2,7) by (auto simp: captcha_digest_def bindE_Inr hex_digests_def)
  have key: "x (captcha_key pf st u) = Some (text_value ?raw, Some ?e)"
    and pointer: "\<And>w. ow = Some w \<Longrightarrow> x (captcha_index pf st sc ow) = Some (text_value (lit (uuid_str u)), Some ?e)"
    if "x = s \<or> x = cc_meanwhile c s" for x
    using assms(5,6) that by (auto simp: answered_in_time_def)
  have now: "ms_of (io_now (cc_get c)) \<le> ?e" "ms_of (io_now (cc_eval c)) \<le> ?e"
    "io_fault (cc_get c) = Answered" "io_fault (cc_eval c) = Answered"
    using assms(6) by (simp_all add: answered_in_time_def)
  have found: "redis_call (cc_get c) (\<lambda>now. r_getP now (captcha_key pf st u)) s = (Inr (Some ?raw), s)"
    using get_live_text [where s = s, OF key [of s] now(1)] now(3) by (simp add: redis_call_get)
  obtain s' where script: "redis_call (cc_eval c) (consuming cjson pf st u (index_text pf st sc ow) sc owner digest ?raw)
      (cc_meanwhile c s) = (Inr (Int_reply 1), s')"
  proof -
    have "fst (consuming cjson pf st u (index_text pf st sc ow) sc owner digest ?raw (io_now (cc_eval c)) (cc_meanwhile c s))
        = Inr (Int_reply 1)"
      by (rule consuming_accepts [OF assms(1-3) hex(1), where e = ?e])
        (use key [of "cc_meanwhile c s"] pointer [of "cc_meanwhile c s"] now(2) in simp_all)
    then show ?thesis
      using that now(4) by (cases "consuming cjson pf st u (index_text pf st sc ow) sc owner digest ?raw
        (io_now (cc_eval c)) (cc_meanwhile c s)") (simp add: redis_call_def)
  qed
  show ?thesis
    using found script checked_challenge [OF assms(2,3) hex assms(4)]
    by (simp add: consume_captcha_def assms(3,7) consuming_eq Let_def bindP_def store_unavailable_def handleP_def)
qed

lemma pointer_of_live:
  assumes "captcha_run cjson pf st log now s" "Issued v sc (Some w) b r \<in> set log"
    and "r_lookup now (captcha_key pf st v) s \<noteq> None"
  shows "r_get now (captcha_index pf st sc (Some w)) s = Inr (Some (lit (uuid_str v)))"
proof -
  have ok: "stored_challenges pf st log s" "pointed pf st log now s" "log_ok log"
    using captcha_run_ok [OF assms(1)] by (simp_all add: board_ok_def)
  obtain x e where x: "s (captcha_key pf st v) = Some (x, e)"
    using assms(3) by (auto simp: r_lookup_def split: option.splits)
  then obtain sc' ow' d t where "issued_as pf st log v sc' ow' d t" and e: "e = Some (ms_of t + CAPTCHA_TTL_SECONDS * 1000)"
    using ok(1) unfolding stored_challenges_def by blast
  then obtain a where "Issued v sc' ow' a t \<in> set log"
    unfolding issued_as_def by blast
  then have "Issued v sc' ow' a t = Issued v sc (Some w) b r"
    using ok(3) assms(2) unfolding log_ok_def by fastforce
  then have live: "ms_of now \<le> ms_of r + CAPTCHA_TTL_SECONDS * 1000"
    using assms(3) x e by (auto simp: r_lookup_def split: if_splits)
  then have "s (captcha_index pf st sc (Some w)) =
      Some (text_value (lit (uuid_str v)), Some (ms_of r + CAPTCHA_TTL_SECONDS * 1000))"
    using ok(2) assms(2) x unfolding pointed_def by blast
  from get_live_text [where s = s, OF this live] show ?thesis .
qed

end
