(* ===== verification/Captcha_Properties.thy ===== *)
theory Captcha_Properties
  imports Captcha_Calls Sample_Platform
begin

text \<open>
  What a challenge is worth: it is admitted once, for the scene, the owner and the answer it was
  issued with and before it expires; one guess uses it up; a signed-in user has one challenge
  per scene; and the drawn answer, in either case, is accepted.
\<close>

subsection \<open>A store for the witnesses\<close>

definition hex_digest_of :: "int list \<Rightarrow> string" where
  "hex_digest_of m = take 64 (concat (map (\<lambda>b. hex_of 2 (nat b)) (rev m)) @ replicate 64 CHR ''0'')"

definition captcha_platform :: platform where
  "captcha_platform = sample_platform
     \<lparr>pf_sha256 := hex_digest_of, pf_hmac_sha256 := (\<lambda>key message. hex_digest_of message)\<rparr>"

lemma hex_of_hex: "hex_text (hex_of w n)"
proof (induction w arbitrary: n)
  case (Suc w)
  have "list_all (\<lambda>k. hex_digit k \<in> set ''0123456789abcdef'') [0..<16]" by code_simp
  then have "hex_digit (n mod 16) \<in> set ''0123456789abcdef''"
    unfolding list_all_iff by (simp del: set_simps)
  then show ?case using Suc by (simp add: hex_text_def del: insert_iff)
qed (simp add: hex_text_def)

lemma hex_digest_of_ok: "length (hex_digest_of m) = 64" "hex_text (hex_digest_of m)"
proof -
  show "length (hex_digest_of m) = 64"
    unfolding hex_digest_of_def length_take length_append length_replicate by (rule min_absorb2 [OF le_add2])
  define H where "H = set ''0123456789abcdef''"
  have H: "set (hex_of 2 n) \<subseteq> H" "CHR ''0'' \<in> H" for n
    using hex_of_hex [of 2 n] by (simp_all only: hex_text_def H_def) simp
  have "set (concat (map (\<lambda>b. hex_of 2 (nat b)) (rev m))) \<subseteq> H" "set (replicate 64 CHR ''0'') \<subseteq> H"
    using H unfolding set_replicate_conv_if by fastforce+
  then have "set (concat (map (\<lambda>b. hex_of 2 (nat b)) (rev m)) @ replicate 64 CHR ''0'') \<subseteq> set ''0123456789abcdef''"
    unfolding set_append H_def by blast
  then show "hex_text (hex_digest_of m)"
    unfolding hex_text_def hex_digest_of_def by (meson set_take_subset subset_trans)
qed

lemma captcha_platform_hex: "hex_digests captcha_platform"
  by (simp add: hex_digests_def captcha_platform_def hex_digest_of_ok)

lemma json_loads_flat: "cjson_flat json_loads"
  by (auto simp: cjson_flat_def json_loads_dump)

definition CAPTCHA_ID :: uuid where "CAPTCHA_ID = UUID 302240678275694148452401"

definition prompt :: "int \<Rightarrow> captcha_call" where
  "prompt now = \<lparr>cc_get = reliable now, cc_meanwhile = (\<lambda>s. s), cc_eval = reliable now\<rparr>"

lemma prompt_simps [simp]:
  "cc_get (prompt now) = reliable now" "cc_meanwhile (prompt now) s = s" "cc_eval (prompt now) = reliable now"
  by (simp_all add: prompt_def)

text \<open>The challenge of a login, issued in an empty store at the instant 0.\<close>

definition issued_store :: redis where
  "issued_store = snd (issuing json_loads captcha_platform sample_settings CAPTCHA_ID ''login'' None
     (hex_digest_of (encode_backslashreplace (lit (uuid_str CAPTCHA_ID) @ [58] @ lit ''ABCDE''))) None None 0 (\<lambda>_. None))"

lemma sample_captcha_digest:
  "captcha_digest captcha_platform sample_settings CAPTCHA_ID (lit ''ABCDE'') =
     Inr (hex_digest_of (encode_backslashreplace (lit (uuid_str CAPTCHA_ID) @ [58] @ lit ''ABCDE'')))"
proof -
  have "pf_upper captcha_platform (lit ''ABCDE'') = lit ''ABCDE''" by code_simp
  moreover have "\<not> isl (utf8_encode (s_rate_limit_hmac_key sample_settings))" by code_simp
  ultimately show ?thesis
    by (auto simp: captcha_digest_def captcha_platform_def not_isl_iff)
qed

lemma issued_store_eq:
  "issuing json_loads captcha_platform sample_settings CAPTCHA_ID ''login'' None
     (hex_digest_of (encode_backslashreplace (lit (uuid_str CAPTCHA_ID) @ [58] @ lit ''ABCDE''))) None None 0 (\<lambda>_. None)
   = (Inr (Int_reply 1), issued_store)"
  by (simp add: issued_store_def issuing_def issue_script_def bindP_def)

lemma issued_store_run:
  "captcha_run json_loads captcha_platform sample_settings [Issued CAPTCHA_ID ''login'' None (lit ''ABCDE'') 0] 0 issued_store"
proof -
  have "captcha_run json_loads captcha_platform sample_settings [] 0 (\<lambda>_. None)"
    by (rule captcha_run.start) simp
  from captcha_run.issue [OF this _ _ sample_captcha_digest issued_store_eq, of "[]"] show ?thesis
    by (simp add: captcha_owner_def SCENES_def PRIVATE_SCENES_def)
qed

lemma sample_consumed:
  assumes "answer = lit ''abcde''"
  shows "fst (consume_captcha json_loads captcha_platform sample_settings (prompt 1000) CAPTCHA_ID answer ''login'' None
     issued_store) = Inr ()"
proof (rule consume_accepts [OF json_loads_flat captcha_platform_hex])
  have "pf_upper captcha_platform answer = pf_upper captcha_platform (lit ''ABCDE'')"
    unfolding assms by code_simp
  then show "captcha_digest captcha_platform sample_settings CAPTCHA_ID answer =
     Inr (hex_digest_of (encode_backslashreplace (lit (uuid_str CAPTCHA_ID) @ [58] @ lit ''ABCDE'')))"
    using sample_captcha_digest by (simp add: captcha_digest_def)
  show "captcha_owner ''login'' None = Inr []" by code_simp
  show "issued_store = set_challenge captcha_platform sample_settings CAPTCHA_ID ''login'' None
     (hex_digest_of (encode_backslashreplace (lit (uuid_str CAPTCHA_ID) @ [58] @ lit ''ABCDE''))) 0 (\<lambda>_. None)"
    by (simp add: issued_store_def issuing_def issue_script_def bindP_def)
  show "answered_in_time captcha_platform sample_settings (prompt 1000) 0 issued_store issued_store"
    by (simp add: answered_in_time_def ms_of_def CAPTCHA_TTL_SECONDS_def)
qed simp_all

subsection \<open>The promises\<close>

text \<open>
  C33: In every history of the challenge store, a challenge that \<open>consume\<close> admits was issued
  before with this scene and owner and an answer of the same digest, at most five minutes ago;
  no guess had been made at it, and now one has. So no challenge is admitted twice.
\<close>

theorem captcha_admits_once:
  assumes "cjson_flat cjson" "hex_digests pf"
    and "captcha_run cjson pf st log (io_now (cc_eval c)) (cc_meanwhile c s)"
    and "consume_captcha cjson pf st c u answer sc ow s = (Inr (), s')"
  shows "Tried u \<notin> set log \<and> captcha_run cjson pf st (Tried u # log) (io_now (cc_eval c)) s' \<and>
     (\<exists>a t. Issued u sc ow a t \<in> set log \<and> captcha_digest pf st u answer = captcha_digest pf st u a \<and>
        ms_of (io_now (cc_eval c)) \<le> ms_of t + CAPTCHA_TTL_SECONDS * 1000)"
proof -
  let ?now = "io_now (cc_eval c)" and ?s = "cc_meanwhile c s"
  obtain owner where owner: "captcha_owner sc ow = Inr owner"
    using assms(4) by (cases "captcha_owner sc ow") (simp_all add: consume_captcha_def)
  then obtain raw index digest where raw: "checked_index pf st raw = Inr index"
    "captcha_digest pf st u answer = Inr digest"
    "consuming cjson pf st u index sc owner digest raw ?now ?s = (Inr (Int_reply 1), s')"
    using consume_captcha_answered [OF assms(4)] by (auto simp: consumed_with_def)
  obtain rec where rec: "r_get ?now (captcha_key pf st u) ?s = Inr (Some raw)" "cjson raw = Some rec"
    "field_is rec ''scene'' sc" "field_is rec ''owner'' owner" "field_is rec ''digest'' digest"
    using consuming_cases [OF raw(3)] by auto
  obtain sc' ow' digest' t where old: "Tried u \<notin> set log" "issued_as pf st log u sc' ow' digest' t"
    "raw = challenge_text pf st sc' ow' digest'" "ms_of ?now \<le> ms_of t + CAPTCHA_TTL_SECONDS * 1000"
    using stored_text [OF assms(3) rec(1)] by blast
  have same: "sc = sc'" "ow = ow'" "digest = digest'" and table: "is_table rec"
    using cjson_challenge [OF assms(1,2) issued_as_parts(1,2) [OF assms(2) old(2)], of st ow'] rec old(3) owner
    by (auto simp: captcha_owner_Inr)
  have "?s (captcha_key pf st u) \<noteq> None"
    using rec(1) by (auto simp: r_get_def r_lookup_def split: option.splits)
  then have "captcha_run cjson pf st (Tried u # log) ?now s'"
    using captcha_run.consume [OF assms(3) raw(1,3)] consuming_guess [OF rec(1,2) table raw(3)] by simp
  moreover obtain a where "Issued u sc ow a t \<in> set log" "captcha_digest pf st u a = Inr digest"
    using old(2) unfolding issued_as_def same by blast
  ultimately show ?thesis
    using old(1,4) raw(2) by (intro conjI exI [of _ a] exI [of _ t]) simp_all
qed

theorem captcha_admits_once_witness:
  "\<exists>s'. consume_captcha json_loads captcha_platform sample_settings (prompt 1000) CAPTCHA_ID (lit ''abcde'') ''login'' None
       issued_store = (Inr (), s') \<and>
     captcha_run json_loads captcha_platform sample_settings
       [Tried CAPTCHA_ID, Issued CAPTCHA_ID ''login'' None (lit ''ABCDE'') 0] 1000 s'"
proof -
  obtain s' where s': "consume_captcha json_loads captcha_platform sample_settings (prompt 1000) CAPTCHA_ID
      (lit ''abcde'') ''login'' None issued_store = (Inr (), s')"
    using sample_consumed by (metis prod.collapse)
  have "captcha_run json_loads captcha_platform sample_settings [Issued CAPTCHA_ID ''login'' None (lit ''ABCDE'') 0]
      (io_now (cc_eval (prompt 1000))) (cc_meanwhile (prompt 1000) issued_store)"
    using captcha_run.later [OF issued_store_run, of 1000] by simp
  from captcha_admits_once [OF json_loads_flat captcha_platform_hex this s'] s' show ?thesis
    by auto
qed

text \<open>
  C34: Every guess uses up the challenge. After a call of \<open>consume\<close> that accepts or rejects the
  answer, whatever other clients did in between, the challenge is gone for good.
\<close>

theorem guess_uses_up_captcha:
  assumes "cjson_flat cjson" "hex_digests pf" "captcha_owner sc ow = Inr owner"
    and "captcha_run cjson pf st log (io_now (cc_get c)) s" "io_now (cc_get c) \<le> io_now (cc_eval c)"
    and "captcha_run cjson pf st (new @ log) (io_now (cc_eval c)) (cc_meanwhile c s)"
    and "consume_captcha cjson pf st c u answer sc ow s = (r, s')" "r = Inr () \<or> r = Inl (Rbac captcha_invalid)"
    and "io_now (cc_eval c) \<le> now"
  shows "r_lookup now (captcha_key pf st u) s' = None"
proof -
  let ?now = "io_now (cc_eval c)" and ?s = "cc_meanwhile c s" and ?k = "captcha_key pf st u"
  consider "r_get (io_now (cc_get c)) ?k s = Inr None" "s' = s"
    | n where "consumed_with cjson pf st c u answer sc owner s n s'"
    using consume_captcha_answered [OF assms(7,3,8)] by blast
  then show ?thesis
  proof cases
    case 1
    then show ?thesis using get_None_later assms(5,9) by simp
  next
    case 2
    then obtain raw index digest where raw: "r_get (io_now (cc_get c)) ?k s = Inr (Some raw)"
      "consuming cjson pf st u index sc owner digest raw ?now ?s = (Inr (Int_reply n), s')"
      unfolding consumed_with_def by blast
    obtain found where found: "r_get ?now ?k ?s = Inr found" "found = None \<Longrightarrow> s' = ?s"
      using consuming_get_other [OF raw(2)] by blast
    show ?thesis
    proof (cases found)
      case None
      then show ?thesis using get_None_later found assms(9) by simp
    next
      case (Some raw')
      then have there: "r_get ?now ?k ?s = Inr (Some raw)"
        using same_text [OF assms(2,4,6) raw(1)] found(1) by simp
      then show ?thesis
        using stored_table [OF assms(1,2,6) there] consuming_guess [OF there _ _ raw(2)]
        by (auto simp: r_lookup_def)
    qed
  qed
qed

theorem guess_witness:
  "\<exists>r s'. consume_captcha json_loads captcha_platform sample_settings (prompt 1000) CAPTCHA_ID (lit ''abcde'') ''login'' None
       issued_store = (r, s') \<and> r_lookup 2000 (captcha_key captcha_platform sample_settings CAPTCHA_ID) s' = None"
proof -
  obtain s' where s': "consume_captcha json_loads captcha_platform sample_settings (prompt 1000) CAPTCHA_ID
      (lit ''abcde'') ''login'' None issued_store = (Inr (), s')"
    using sample_consumed by (metis prod.collapse)
  let ?log = "[Issued CAPTCHA_ID ''login'' None (lit ''ABCDE'') 0]"
  have "captcha_run json_loads captcha_platform sample_settings ?log 1000 issued_store"
    using captcha_run.later [OF issued_store_run, of 1000] by simp
  then have "r_lookup 2000 (captcha_key captcha_platform sample_settings CAPTCHA_ID) s' = None"
    using guess_uses_up_captcha [OF json_loads_flat captcha_platform_hex, of "''login''" None "[]" sample_settings ?log
        "prompt 1000" issued_store "[]" CAPTCHA_ID "lit ''abcde''" "Inr ()" s' 2000] s'
    by (simp add: captcha_owner_def SCENES_def PRIVATE_SCENES_def)
  with s' show ?thesis by blast
qed

text \<open>
  C35: In every reachable state a signed-in user has at most one live challenge per scene, and the
  pointer of that scene names it.
\<close>

theorem one_private_challenge:
  assumes "captcha_run cjson pf st log now s"
    and "Issued u sc (Some w) a t \<in> set log" "r_lookup now (captcha_key pf st u) s \<noteq> None"
    and "Issued u' sc (Some w) a' t' \<in> set log" "r_lookup now (captcha_key pf st u') s \<noteq> None"
  shows "u' = u \<and> r_get now (captcha_index pf st sc (Some w)) s = Inr (Some (lit (uuid_str u)))"
proof -
  have "r_get now (captcha_index pf st sc (Some w)) s = Inr (Some (lit (uuid_str v)))"
    if "Issued v sc (Some w) b r \<in> set log" "r_lookup now (captcha_key pf st v) s \<noteq> None" for v b r
    by (rule pointer_of_live [OF assms(1) that])
  from this [OF assms(2,3)] this [OF assms(4,5)] show ?thesis
    by (simp add: uuid_str_inject)
qed

theorem one_private_challenge_witness:
  "\<exists>s. captcha_run json_loads captcha_platform sample_settings
       [Issued CAPTCHA_ID ''self_change'' (Some CAPTCHA_ID) (lit ''ABCDE'') 0] 0 s \<and>
     r_get 0 (captcha_index captcha_platform sample_settings ''self_change'' (Some CAPTCHA_ID)) s
       = Inr (Some (lit (uuid_str CAPTCHA_ID)))"
proof -
  let ?d = "hex_digest_of (encode_backslashreplace (lit (uuid_str CAPTCHA_ID) @ [58] @ lit ''ABCDE''))"
  let ?log = "[Issued CAPTCHA_ID ''self_change'' (Some CAPTCHA_ID) (lit ''ABCDE'') 0]"
  let ?s = "set_challenge captcha_platform sample_settings CAPTCHA_ID ''self_change'' (Some CAPTCHA_ID) ?d 0 (\<lambda>_. None)"
  have step: "issuing json_loads captcha_platform sample_settings CAPTCHA_ID ''self_change'' (Some CAPTCHA_ID) ?d None None 0
      (\<lambda>_. None) = (Inr (Int_reply 1), ?s)"
    by (simp add: issuing_def issue_script_def bindP_def r_getP_def r_get_def r_lookup_def)
  have "captcha_run json_loads captcha_platform sample_settings [] 0 (\<lambda>_. None)"
    by (rule captcha_run.start) simp
  from captcha_run.issue [OF this _ _ sample_captcha_digest step, of "uuid_str CAPTCHA_ID"]
  have run: "captcha_run json_loads captcha_platform sample_settings ?log 0 ?s"
    by (simp add: captcha_owner_def SCENES_def PRIVATE_SCENES_def)
  have live: "r_lookup 0 (captcha_key captcha_platform sample_settings CAPTCHA_ID) ?s \<noteq> None"
    by (simp add: r_lookup_def ms_of_def CAPTCHA_TTL_SECONDS_def)
  show ?thesis
    using run one_private_challenge [OF run _ live _ live, of "''self_change''" CAPTCHA_ID "lit ''ABCDE''" 0 "lit ''ABCDE''" 0]
    by (intro exI [of _ ?s]) simp
qed

text \<open>
  C36: The answer a challenge was issued with is accepted, in upper or lower case: after a
  successful \<open>issue\<close> a call of \<open>consume\<close> for its scene and owner that Redis answers within five
  minutes of the script, with the challenge keys untouched in between, succeeds.
\<close>

theorem issued_captcha_is_accepted:
  assumes "cjson_flat cjson" "hex_digests pf"
    and "issue_captcha cjson pf st picture calls u choice sc ow previous s = (Inr (i, img), s1)"
    and "\<And>w. ow = Some w \<Longrightarrow> uuid_version w = Some 4"
  shows "i = u \<and> img = picture (drawn_answer choice) \<and>
    (\<exists>k < POINTER_ATTEMPTS. \<forall>c s2 answer.
       answered_in_time pf st c (io_now (cc_eval (calls k))) s1 s2 \<longrightarrow>
       pf_upper pf answer = pf_upper pf (drawn_answer choice) \<longrightarrow>
       fst (consume_captcha cjson pf st c u answer sc ow s2) = Inr ())"
proof -
  obtain digest k s0 where issued: "i = u" "img = picture (drawn_answer choice)"
    "captcha_owner sc ow = Inr (text_or_empty ow)" "captcha_digest pf st u (drawn_answer choice) = Inr digest"
    "k < POINTER_ATTEMPTS" "s1 = set_challenge pf st u sc ow digest (io_now (cc_eval (calls k))) s0"
    using issue_captcha_Inr [OF assms(3)] by blast
  have "fst (consume_captcha cjson pf st c u answer sc ow s2) = Inr ()"
    if "answered_in_time pf st c (io_now (cc_eval (calls k))) s1 s2"
      "pf_upper pf answer = pf_upper pf (drawn_answer choice)" for c s2 answer
  proof -
    have "captcha_digest pf st u answer = Inr digest"
      using issued(4) that(2) by (simp add: captcha_digest_def)
    then show ?thesis
      using consume_accepts [OF assms(1,2) issued(3) assms(4)] issued(6) that(1) by blast
  qed
  with issued(1,2,5) show ?thesis by blast
qed

theorem issued_captcha_witness:
  "\<exists>s1. issue_captcha json_loads captcha_platform sample_settings (\<lambda>x. x) (\<lambda>_. prompt 0) CAPTCHA_ID (\<lambda>i. i) ''login''
       None None (\<lambda>_. None) = (Inr (CAPTCHA_ID, lit ''ABCDE''), s1) \<and>
     fst (consume_captcha json_loads captcha_platform sample_settings (prompt 1000) CAPTCHA_ID (lit ''abcde'') ''login'' None s1)
       = Inr ()"
proof -
  have answer: "drawn_answer (\<lambda>i. i) = lit ''ABCDE''" by code_simp
  have owner: "captcha_owner ''login'' None = Inr []" by code_simp
  have "issue_captcha json_loads captcha_platform sample_settings (\<lambda>x. x) (\<lambda>_. prompt 0) CAPTCHA_ID (\<lambda>i. i) ''login''
       None None (\<lambda>_. None) = (Inr (CAPTCHA_ID, lit ''ABCDE''), issued_store)"
    using issued_store_eq
    by (simp add: issue_captcha_def answer owner sample_captcha_digest Let_def POINTER_ATTEMPTS_def numeral_eq_Suc
        issue_captcha_attempt_def bindP_def store_unavailable_def handleP_def issuing_def key_or_def challenge_text_def index_text_def)
  moreover from issued_captcha_is_accepted [OF json_loads_flat captcha_platform_hex this]
  obtain k where "\<forall>c s2 answer. answered_in_time captcha_platform sample_settings c 0 issued_store s2 \<longrightarrow>
      pf_upper captcha_platform answer = pf_upper captcha_platform (drawn_answer (\<lambda>i. i)) \<longrightarrow>
      fst (consume_captcha json_loads captcha_platform sample_settings c CAPTCHA_ID answer ''login'' None s2) = Inr ()"
    by auto
  moreover have "answered_in_time captcha_platform sample_settings (prompt 1000) 0 issued_store issued_store"
    by (simp add: answered_in_time_def ms_of_def CAPTCHA_TTL_SECONDS_def)
  moreover have "pf_upper captcha_platform (lit ''abcde'') = pf_upper captcha_platform (drawn_answer (\<lambda>i. i))"
    by code_simp
  ultimately show ?thesis by blast
qed

end
