(* ===== verification/Requests.thy ===== *)
theory Requests
  imports World Tokens Captcha Access_Service
begin

text \<open>
  What a request passes before a handler sees it: \<open>app/dependencies/authentication.py\<close>,
  \<open>rate_limit.py\<close> and \<open>captcha.py\<close>, with the classification of database errors of
  \<open>app/db/errors.py\<close>. The bearer token gives a principal, the quota of the actor is inspected,
  the authority is read from the database, the quota is charged, and the permissions are
  checked. Log lines are left out.
\<close>

subsection \<open>Database errors\<close>

datatype attribute = Absent | Text_attribute string | Other_attribute bool

record driver_error =
  de_sqlstate :: attribute
  de_pgcode :: attribute

datatype db_error_category = Connection_error | Pool_exhausted | Database_timeout

datatype db_exception =
    Database_unavailable db_error_category
  | Pool_timeout
  | Integrity_or_programming
  | Dbapi_error bool driver_error
  | Other_sqlalchemy driver_error
  | Native_error driver_error

text \<open>Python's truth of an attribute, for \<open>or\<close>.\<close>

definition truthy :: "attribute \<Rightarrow> bool" where
  "truthy a = (case a of Absent \<Rightarrow> False | Text_attribute t \<Rightarrow> t \<noteq> [] | Other_attribute b \<Rightarrow> b)"

definition sqlstate_category :: "driver_error \<Rightarrow> db_error_category option" where
  "sqlstate_category e =
     (case (if truthy (de_sqlstate e) then de_sqlstate e else de_pgcode e) of
        Text_attribute sqlstate \<Rightarrow>
          if take 2 sqlstate = ''08'' \<or> sqlstate \<in> {''57P01'', ''57P02'', ''57P03''} then Some Connection_error
          else if sqlstate = ''53300'' then Some Pool_exhausted
          else if sqlstate \<in> {''57014'', ''55P03''} then Some Database_timeout
          else None
      | _ \<Rightarrow> None)"

fun database_error_category :: "db_exception \<Rightarrow> db_error_category option" where
  "database_error_category (Database_unavailable category) = Some category"
| "database_error_category Pool_timeout = Some Pool_exhausted"
| "database_error_category Integrity_or_programming = None"
| "database_error_category (Dbapi_error connection_invalidated orig) =
     (if connection_invalidated then Some Connection_error else sqlstate_category orig)"
| "database_error_category (Other_sqlalchemy e) = sqlstate_category e"
| "database_error_category (Native_error e) = sqlstate_category e"

text \<open>\<open>except (SQLAlchemyError, DatabaseUnavailableError)\<close>: a native error passes through.\<close>

definition failed_read :: "db_exception \<Rightarrow> failure" where
  "failed_read e =
     (if (case e of Native_error _ \<Rightarrow> False | _ \<Rightarrow> database_error_category e \<noteq> None)
      then Rbac (unavailable ''authorization_store_unavailable'')
      else Runtime_error ''database error'')"

subsection \<open>Requests\<close>

text \<open>
  The parts of a request the dependencies read. The route that FastAPI chose gives the method and
  the operation identifier; \<open>rq_json\<close> is the body if it is JSON text.
\<close>

record http_request =
  rq_method :: string
  rq_operation_id :: "string option"
  rq_credentials :: "(string \<times> pystr) option"
  rq_content_type :: pystr
  rq_json :: "json option"
  rq_request_id :: "pystr option"

definition ascii_lower :: "pystr \<Rightarrow> pystr" where
  "ascii_lower s = map (\<lambda>c. if 65 \<le> c \<and> c \<le> 90 then c + 32 else c) s"

definition is_json_media_type :: "pystr \<Rightarrow> bool" where
  "is_json_media_type content_type =
     (let media_type = ascii_lower (strip (takeWhile (\<lambda>c. c \<noteq> 59) content_type)) in
      media_type = lit ''application/json'' \<or>
      starts_with media_type (lit ''application/'') \<and> starts_with (rev media_type) (rev (lit ''+json'')))"

text \<open>
  The request model \<open>CaptchaCreateRequest\<close>: a closed object with a scene and an optional
  identifier. How pydantic reads an identifier is an argument.
\<close>

definition validate_captcha_create :: "(pystr \<Rightarrow> uuid option) \<Rightarrow> json \<Rightarrow> (string \<times> uuid option) option" where
  "validate_captcha_create pydantic_uuid payload =
     (case payload of
        J_Obj ms \<Rightarrow>
          if \<not> fst ` set ms \<subseteq> {lit ''scene'', lit ''previous_captcha_id''} then None
          else
          (case find (\<lambda>sc. json_get ms (lit ''scene'') = Some (J_Str (lit sc))) SCENES of
             None \<Rightarrow> None
           | Some scene \<Rightarrow>
               (case json_get ms (lit ''previous_captcha_id'') of
                  None \<Rightarrow> Some (scene, None)
                | Some J_Null \<Rightarrow> Some (scene, None)
                | Some (J_Str t) \<Rightarrow> map_option (\<lambda>u. (scene, Some u)) (pydantic_uuid t)
                | Some _ \<Rightarrow> None))
      | _ \<Rightarrow> None)"

definition parse_captcha_create_request ::
    "(pystr \<Rightarrow> uuid option) \<Rightarrow> http_request \<Rightarrow> (string \<times> uuid option) option" where
  "parse_captcha_create_request pydantic_uuid rq =
     (if \<not> is_json_media_type (rq_content_type rq) then None
      else Option.bind (rq_json rq) (validate_captcha_create pydantic_uuid))"

text \<open>\<open>request_id_for\<close> of \<open>app/core/api_contract.py\<close>.\<close>

definition request_id_for :: "uuid \<Rightarrow> http_request \<Rightarrow> string" where
  "request_id_for fresh rq =
     (case Option.bind (rq_request_id rq) pystr_uuid of
        Some u \<Rightarrow> if uuid_version u = Some 4 then uuid_str u else uuid_str fresh
      | None \<Rightarrow> uuid_str fresh)"

subsection \<open>The quota of an operation\<close>

datatype actor_quota = Authenticated_read | Management_read | Ordinary_write | Authorization_write

definition AUTHENTICATED_RATE_LIMIT_RULES :: "(string \<times> string \<times> actor_quota) list" where
  "AUTHENTICATED_RATE_LIMIT_RULES =
    [(''logout_current_access_token'', ''POST'', Ordinary_write),
     (''get_my_access'', ''GET'', Authenticated_read),
     (''my_active_sessions'', ''GET'', Authenticated_read),
     (''list_permissions'', ''GET'', Management_read),
     (''get_permission'', ''GET'', Management_read),
     (''list_roles'', ''GET'', Management_read),
     (''get_role'', ''GET'', Management_read),
     (''list_users'', ''GET'', Management_read),
     (''get_user'', ''GET'', Management_read),
     (''change_my_password'', ''POST'', Ordinary_write),
     (''create_role'', ''POST'', Authorization_write),
     (''update_role'', ''POST'', Authorization_write),
     (''disable_role'', ''POST'', Authorization_write),
     (''enable_role'', ''POST'', Authorization_write),
     (''delete_role'', ''POST'', Authorization_write),
     (''bind_role_permissions'', ''POST'', Authorization_write),
     (''unbind_role_permissions'', ''POST'', Authorization_write),
     (''bind_user_roles'', ''POST'', Authorization_write),
     (''unbind_user_roles'', ''POST'', Authorization_write),
     (''disable_user'', ''POST'', Authorization_write),
     (''enable_user'', ''POST'', Authorization_write),
     (''reset_user_password'', ''POST'', Authorization_write),
     (''create_user'', ''POST'', Authorization_write),
     (''revoke_user_sessions'', ''POST'', Authorization_write),
     (''update_registration_policy'', ''POST'', Authorization_write)]"

definition AUTHENTICATED_RATE_LIMIT_EXEMPT_OPERATIONS :: "(string \<times> string) list" where
  "AUTHENTICATED_RATE_LIMIT_EXEMPT_OPERATIONS = [(''create_authenticated_captcha'', ''POST'')]"

definition operation_id :: "http_request \<Rightarrow> string" where
  "operation_id rq = (case rq_operation_id rq of None \<Rightarrow> [] | Some t \<Rightarrow> t)"

fun quota_of :: "security_policies \<Rightarrow> actor_quota \<Rightarrow> rate_policy" where
  "quota_of p Authenticated_read = pol_authenticated_read p"
| "quota_of p Management_read = pol_management_read p"
| "quota_of p Ordinary_write = pol_ordinary_write p"
| "quota_of p Authorization_write = pol_authorization_write p"

definition actor_policy_for :: "http_request \<Rightarrow> settings \<Rightarrow> failure + rate_policy" where
  "actor_policy_for rq s =
     bindE (security_policies_from s) (\<lambda>policies.
     case map_of AUTHENTICATED_RATE_LIMIT_RULES (operation_id rq) of
       None \<Rightarrow> Inl Rate_limit_unavailable
     | Some (expected_method, quota_name) \<Rightarrow>
         if rq_method rq \<noteq> expected_method then Inl Rate_limit_unavailable
         else
         let quota = quota_of policies quota_name in
         case new_rate_policy (operation_id rq) (q_limit quota) (q_window_seconds quota) of
           Inl (Value_error _) \<Rightarrow> Inl Rate_limit_unavailable
         | r \<Rightarrow> r)"

definition rate_limit_policy_for :: "http_request \<Rightarrow> settings \<Rightarrow> failure + rate_policy option" where
  "rate_limit_policy_for rq s =
     (case map_of AUTHENTICATED_RATE_LIMIT_EXEMPT_OPERATIONS (operation_id rq) of
        Some exempt_method \<Rightarrow> if rq_method rq \<noteq> exempt_method then Inl Rate_limit_unavailable else Inr None
      | None \<Rightarrow> bindE (actor_policy_for rq s) (\<lambda>p. Inr (Some p)))"

definition inspection_policy_for ::
    "(pystr \<Rightarrow> uuid option) \<Rightarrow> http_request \<Rightarrow> settings \<Rightarrow> failure + rate_policy option" where
  "inspection_policy_for pydantic_uuid rq s =
     (if operation_id rq \<noteq> ''create_authenticated_captcha'' then rate_limit_policy_for rq s
      else if rq_method rq \<noteq> ''POST'' then Inl Rate_limit_unavailable
      else
      let policy_name =
        (case parse_captcha_create_request pydantic_uuid rq of
           None \<Rightarrow> ''captcha_rejected_scene''
         | Some (scene, _) \<Rightarrow>
             if scene \<in> set PRIVATE_CAPTCHA_SCENES then ''captcha_create_'' @ scene else ''captcha_rejected_scene'') in
      bindE (security_policies_from s) (\<lambda>policies.
      bindE (new_rate_policy policy_name (q_limit (pol_captcha_create policies))
               (q_window_seconds (pol_captcha_create policies))) (\<lambda>p. Inr (Some p))))"

text \<open>\<open>except RateLimitUnavailable as exc: _raise_rate_limit_unavailable(exc)\<close>\<close>

definition or_unavailable :: "('s, 'a) proc \<Rightarrow> ('s, 'a) proc" where
  "or_unavailable m =
     handleP m (\<lambda>e. if e = Rate_limit_unavailable
       then raiseP (Rbac (unavailable ''rate_limit_registry_unavailable'')) else raiseP e)"

text \<open>The call of a bucket with the identifier of the actor, under a policy if there is one.\<close>

definition actor_bucket ::
    "(string \<Rightarrow> rate_policy \<Rightarrow> string \<Rightarrow> pystr \<Rightarrow> int list \<Rightarrow> (redis, rate_limit_result) proc) \<Rightarrow>
     settings \<Rightarrow> uuid \<Rightarrow> failure + rate_policy option \<Rightarrow> (world, (rate_policy \<times> rate_limit_result) option) proc" where
  "actor_bucket bucket s user_id chosen =
     or_unavailable
       (bindP (liftP chosen) (\<lambda>policy.
        case policy of
          None \<Rightarrow> returnP None
        | Some p \<Rightarrow>
            bindP (liftP (key_secret_of s)) (\<lambda>secret.
            bindP (in_limits (bucket (ident (s_rate_limit_namespace s)) p ''actor'' (lit (uuid_str user_id)) secret)) (\<lambda>result.
              returnP (Some (p, result))))))"

definition refuse_exceeded :: "(rate_policy \<times> rate_limit_result) option \<Rightarrow> (world, unit) proc" where
  "refuse_exceeded checked =
     (case checked of
        None \<Rightarrow> returnP ()
      | Some (p, result) \<Rightarrow>
          if rl_allowed result then returnP () else raiseP (Rate_limit_exceeded (q_name p) result))"

subsection \<open>The dependencies\<close>

text \<open>The libraries, the settings, the instants and what goes wrong in the calls of one request.\<close>

record api_env =
  ae_platform :: platform
  ae_libs :: token_libs
  ae_settings :: settings
  ae_pydantic_uuid :: "pystr \<Rightarrow> uuid option"
  ae_now :: int
  ae_session_io :: redis_io
  ae_inspect_io :: redis_io
  ae_read_error :: "db_exception option"
  ae_charge_io :: redis_io
  ae_revoke_io :: redis_io
  ae_fresh_request_id :: uuid
  ae_others :: others

definition precheck_principal_rate_limit :: "api_env \<Rightarrow> http_request \<Rightarrow> principal \<Rightarrow> (world, unit) proc" where
  "precheck_principal_rate_limit env rq p =
     (if \<not> s_rate_limit_enabled (ae_settings env) then returnP ()
      else bindP (actor_bucket (inspect_rate_limit (ae_platform env) (ae_inspect_io env)) (ae_settings env)
                    (pr_user_id p) (inspection_policy_for (ae_pydantic_uuid env) rq (ae_settings env)))
             refuse_exceeded)"

definition enforce_principal_rate_limit :: "api_env \<Rightarrow> http_request \<Rightarrow> principal \<Rightarrow> (world, unit) proc" where
  "enforce_principal_rate_limit env rq p =
     (if \<not> s_rate_limit_enabled (ae_settings env) then returnP ()
      else bindP (actor_bucket (check_rate_limit (ae_platform env) (ae_charge_io env)) (ae_settings env)
                    (pr_user_id p) (rate_limit_policy_for rq (ae_settings env)))
             refuse_exceeded)"

definition principal_claims :: "principal \<Rightarrow> access_token_claims" where
  "principal_claims p =
     \<lparr>ac_user_id = pr_user_id p, ac_token_id = pr_token_id p, ac_issued_at = pr_issued_at p,
      ac_expires_at = pr_expires_at p\<rparr>"

text \<open>Whatever the cleanup raises is dropped.\<close>

definition best_effort_revoke :: "api_env \<Rightarrow> principal \<Rightarrow> (world, unit) proc" where
  "best_effort_revoke env p =
     handleP (in_sessions (revoke_active_jti (ae_platform env) (ae_settings env) (principal_claims p)
                (pr_token_version p) (ae_revoke_io env))) (\<lambda>_. returnP ())"

definition get_current_principal :: "api_env \<Rightarrow> http_request \<Rightarrow> (world, principal) proc" where
  "get_current_principal env rq =
     (case rq_credentials rq of
        None \<Rightarrow> raiseP (Rbac (unauthenticated ''missing_bearer_token''))
      | Some (scheme, token) \<Rightarrow>
          if ascii_lower (lit scheme) \<noteq> lit ''bearer''
          then raiseP (Rbac (unauthenticated ''missing_bearer_token''))
          else
          bindP (liftP (utf8_encode token)) (\<lambda>bytes.
          if length bytes > MAX_BEARER_TOKEN_BYTES
          then raiseP (Rbac (unauthenticated ''bearer_token_too_large''))
          else
          bindP (liftP (decode_access_token (ae_libs env) (ae_settings env) (ae_now env) token)) (\<lambda>claims.
          bindP (in_sessions (require_active_jti (ae_libs env) (ae_platform env) (ae_settings env) claims
                   (ae_session_io env))) (\<lambda>token_version.
            returnP \<lparr>pr_user_id = ac_user_id claims, pr_token_version = token_version,
                     pr_token_id = ac_token_id claims, pr_issued_at = ac_issued_at claims,
                     pr_expires_at = ac_expires_at claims\<rparr>))))"

text \<open>The epoch and the authority of the principal, or what stops the read.\<close>

definition read_authority :: "api_env \<Rightarrow> principal \<Rightarrow> database \<Rightarrow> failure + int \<times> authority_snapshot" where
  "read_authority env p db =
     (case ae_read_error env of
        Some e \<Rightarrow> Inl (failed_read e)
      | None \<Rightarrow>
          (case db_state db of
             None \<Rightarrow> Inl (Rbac (unavailable ''rbac_state_missing''))
           | Some state \<Rightarrow>
               bindE (load_authority_snapshot db (pr_user_id p) False) (\<lambda>authority.
                 Inr (st_epoch state, authority))))"

definition reject_inactive :: "api_env \<Rightarrow> principal \<Rightarrow> (world, 'a) proc" where
  "reject_inactive env p =
     bindP (best_effort_revoke env p) (\<lambda>_.
       raiseP (Rbac (unauthenticated ''identity_inactive_or_revoked'')))"

definition get_authorization_context ::
    "api_env \<Rightarrow> http_request \<Rightarrow> principal \<Rightarrow> (world, authorization_context) proc" where
  "get_authorization_context env rq p =
     bindP (precheck_principal_rate_limit env rq p) (\<lambda>_.
     bindP (meanwhile (ae_others env) 0) (\<lambda>_.
     bindP (in_db (\<lambda>db. (Inr (read_authority env p db), db))) (\<lambda>r.
     case r of
       Inl e \<Rightarrow> if e = Rbac (not_found ''user_not_found'') then reject_inactive env p else raiseP e
     | Inr (authorization_epoch, authority) \<Rightarrow>
         if \<not> a_user_is_active authority \<or> a_token_version authority \<noteq> pr_token_version p
         then reject_inactive env p
         else
         bindP (meanwhile (ae_others env) 1) (\<lambda>_.
         bindP (enforce_principal_rate_limit env rq p) (\<lambda>_.
           returnP \<lparr>c_principal = p, c_authorization_epoch = authorization_epoch, c_authority = authority,
                    c_request_id = request_id_for (ae_fresh_request_id env) rq, c_audit_source = HTTP\<rparr>)))))"

datatype permission_mode = All_of | Any_of

definition write_permission_denial_audit ::
    "unicode_db \<Rightarrow> authorization_context \<Rightarrow> string \<Rightarrow> database \<Rightarrow> failure + unit \<times> database" where
  "write_permission_denial_audit uc ctx action db =
     bindE (new_rbac_audit_event uc (pr_user_id (c_principal ctx)) None None action ''denied''
              ''missing_required_permission'' (audit_source_value (c_audit_source ctx)) None None
              (c_request_id ctx)) (\<lambda>e. Inr ((), add_rbac_event e db))"

definition require_permissions ::
    "api_env \<Rightarrow> http_request \<Rightarrow> permission_mode \<Rightarrow> permission_key list \<Rightarrow> authorization_context \<Rightarrow>
     (world, authorization_context) proc" where
  "require_permissions env rq mode required ctx =
     (if required = [] then raiseP (Value_error ''at least one permission is required'')
      else
      let required_keys = permission_value ` set required;
          allowed = (case mode of
              All_of \<Rightarrow> required_keys \<subseteq> context_permissions ctx
            | Any_of \<Rightarrow> required_keys \<inter> context_permissions ctx \<noteq> {}) in
      if \<not> allowed then
        bindP (if rq_method rq = ''POST''
               then handleP (in_db (transaction (write_permission_denial_audit (pf_unicode (ae_platform env)) ctx
                      (if operation_id rq \<noteq> [] then ''api.'' @ operation_id rq else ''api.protected_write''))))
                    (\<lambda>_. returnP ())
               else returnP ()) (\<lambda>_.
          raiseP (Rbac (forbidden ''missing_required_permission'')))
      else returnP ctx)"

text \<open>The chain of dependencies of a protected route, then its handler.\<close>

definition protected_route ::
    "api_env \<Rightarrow> http_request \<Rightarrow> permission_key list \<Rightarrow> (authorization_context \<Rightarrow> (world, 'a) proc) \<Rightarrow>
     (world, 'a) proc" where
  "protected_route env rq required handler =
     bindP (get_current_principal env rq) (\<lambda>p.
     bindP (get_authorization_context env rq p) (\<lambda>ctx.
     bindP (require_permissions env rq All_of required ctx) (\<lambda>ctx.
     bindP (meanwhile (ae_others env) 2) (\<lambda>_. handler ctx))))"

end
