(* ===== verification/Access_Api.thy ===== *)
theory Access_Api
  imports Requests Role_Service
begin

text \<open>
  The routes of \<open>app/api/access.py\<close>: each route names its operation for the quotas, asks for its
  permission, and calls the service or the repository. A route that reads does so from one state
  of the database. Reading the body and the path into typed values is pydantic's.
\<close>

subsection \<open>Responses\<close>

record 'a api_result =
  ar_code :: business_code
  ar_message :: string
  ar_data :: 'a
  ar_request_id :: string

record 'a page_data =
  pg_items :: "'a list"
  pg_page :: int
  pg_page_size :: int
  pg_total :: nat

record operation_response =
  op_changed :: bool

definition api_response :: "api_env \<Rightarrow> http_request \<Rightarrow> business_code \<Rightarrow> string \<Rightarrow> 'a \<Rightarrow> 'a api_result" where
  "api_response env rq code message data =
     \<lparr>ar_code = code, ar_message = message, ar_data = data,
      ar_request_id = request_id_for (ae_fresh_request_id env) rq\<rparr>"

text \<open>The request as the route sees it.\<close>

definition at_route :: "string \<Rightarrow> string \<Rightarrow> http_request \<Rightarrow> http_request" where
  "at_route method name rq = rq\<lparr>rq_method := method, rq_operation_id := Some name\<rparr>"

text \<open>A protected route that answers with the value of its handler.\<close>

definition answering ::
    "api_env \<Rightarrow> http_request \<Rightarrow> permission_key list \<Rightarrow> business_code \<Rightarrow> string \<Rightarrow>
     (authorization_context \<Rightarrow> (world, 'a) proc) \<Rightarrow> (world, 'a api_result) proc" where
  "answering env rq required code message handler =
     protected_route env rq required (\<lambda>ctx.
       bindP (handler ctx) (\<lambda>x. returnP (api_response env rq code message x)))"

definition reading :: "(database \<Rightarrow> failure + 'a) \<Rightarrow> (world, 'a) proc" where
  "reading q = in_db (\<lambda>db. (q db, db))"

abbreviation unicode_of :: "api_env \<Rightarrow> unicode_db" where
  "unicode_of env \<equiv> pf_unicode (ae_platform env)"

subsection \<open>The session of the caller\<close>

definition logout_current_access_token :: "api_env \<Rightarrow> http_request \<Rightarrow> (world, operation_response api_result) proc" where
  "logout_current_access_token env request =
     (let rq = at_route ''POST'' ''logout_current_access_token'' request in
      bindP (get_current_principal env rq) (\<lambda>p.
      bindP (enforce_principal_rate_limit env rq p) (\<lambda>_.
      bindP (in_sessions (revoke_active_jti (ae_platform env) (ae_settings env) (principal_claims p)
               (pr_token_version p) (ae_revoke_io env))) (\<lambda>_.
        returnP (api_response env rq OK ''auth.logout_succeeded'' \<lparr>op_changed = True\<rparr>)))))"

record authority_response =
  au_r_user_id :: uuid
  au_r_management_tier :: int
  au_r_permissions :: "string list"
  au_r_authz_version :: int
  au_r_authorization_epoch :: int

definition read_my_authority :: "api_env \<Rightarrow> http_request \<Rightarrow> (world, authority_response api_result) proc" where
  "read_my_authority env request =
     (let rq = at_route ''GET'' ''get_my_access'' request in
      bindP (get_current_principal env rq) (\<lambda>p.
      bindP (get_authorization_context env rq p) (\<lambda>ctx.
      let authority = c_authority ctx in
        returnP (api_response env rq OK ''common.query_success''
          \<lparr>au_r_user_id = a_user_id authority, au_r_management_tier = a_management_tier authority,
           au_r_permissions = sorted_list_of_set (a_permissions authority),
           au_r_authz_version = a_authz_version authority,
           au_r_authorization_epoch = c_authorization_epoch ctx\<rparr>))))"

subsection \<open>Permissions\<close>

record permission_response =
  pr_r_id :: uuid
  pr_r_key :: string
  pr_r_description :: string

definition permission_response :: "permission \<Rightarrow> permission_response" where
  "permission_response p =
     \<lparr>pr_r_id = p_id p, pr_r_key = p_key p, pr_r_description = p_description p\<rparr>"

definition list_permissions ::
    "(string \<Rightarrow> 'k::linorder) \<Rightarrow> api_env \<Rightarrow> http_request \<Rightarrow> int \<Rightarrow> int \<Rightarrow>
     (world, permission_response page_data api_result) proc" where
  "list_permissions collate env request page page_size =
     answering env (at_route ''GET'' ''list_permissions'' request) [PERMISSIONS_READ] OK ''common.query_success'' (\<lambda>_.
       reading (\<lambda>db.
         let live = filter live_permission (db_permissions db);
             permissions = page_of page page_size (sort_key (\<lambda>p. collate (p_key p)) (sort_key p_id live))
         in Inr \<lparr>pg_items = map permission_response permissions, pg_page = page, pg_page_size = page_size,
                 pg_total = length live\<rparr>))"

definition get_permission :: "api_env \<Rightarrow> http_request \<Rightarrow> uuid \<Rightarrow> (world, permission_response api_result) proc" where
  "get_permission env request permission_id =
     answering env (at_route ''GET'' ''get_permission'' request) [PERMISSIONS_READ] OK ''common.query_success'' (\<lambda>_.
       reading (\<lambda>db.
         case find (\<lambda>p. p_id p = permission_id \<and> live_permission p) (db_permissions db) of
           None \<Rightarrow> Inl (Rbac (not_found ''permission_not_found''))
         | Some p \<Rightarrow> Inr (permission_response p)))"

subsection \<open>Roles\<close>

text \<open>\<open>mapping[key]\<close> raises \<open>KeyError\<close> for a missing key.\<close>

definition item_of :: "('k \<times> 'v) list \<Rightarrow> 'k \<Rightarrow> failure + 'v" where
  "item_of m k = (case map_of m k of None \<Rightarrow> Inl Key_error | Some v \<Rightarrow> Inr v)"

fun map_raising :: "('a \<Rightarrow> failure + 'b) \<Rightarrow> 'a list \<Rightarrow> failure + 'b list" where
  "map_raising f [] = Inr []"
| "map_raising f (x # xs) = bindE (f x) (\<lambda>y. bindE (map_raising f xs) (\<lambda>ys. Inr (y # ys)))"

definition list_roles ::
    "(string \<Rightarrow> 'k::linorder) \<Rightarrow> api_env \<Rightarrow> http_request \<Rightarrow> int \<Rightarrow> int \<Rightarrow>
     (world, role_response page_data api_result) proc" where
  "list_roles collate env request page page_size =
     answering env (at_route ''GET'' ''list_roles'' request) [ROLES_READ] OK ''common.query_success'' (\<lambda>ctx.
       reading (\<lambda>db.
         let (roles, total) = list_visible_roles_page collate db (c_authority ctx) page page_size;
             grants = load_role_grants_for_roles db roles in
         bindE (map_raising (\<lambda>r. bindE (item_of grants (r_id r)) (\<lambda>g. Inr (role_response r (g_permissions g)))) roles)
           (\<lambda>responses.
             Inr \<lparr>pg_items = responses, pg_page = page, pg_page_size = page_size, pg_total = total\<rparr>)))"

definition get_role :: "api_env \<Rightarrow> http_request \<Rightarrow> uuid \<Rightarrow> (world, role_response api_result) proc" where
  "get_role env request role_id =
     answering env (at_route ''GET'' ''get_role'' request) [ROLES_READ] OK ''common.query_success'' (\<lambda>ctx.
       reading (\<lambda>db.
         case load_visible_role db (c_authority ctx) role_id of
           None \<Rightarrow> Inl (Rbac (not_found ''role_not_found''))
         | Some role \<Rightarrow>
             bindE (load_role_grant db (r_id role) True False) (\<lambda>grant.
               Inr (role_response role (g_permissions grant)))))"

definition create_role_route ::
    "api_env \<Rightarrow> http_request \<Rightarrow> uuid \<Rightarrow> role_create_request \<Rightarrow> (world, role_mutation api_result) proc" where
  "create_role_route env request new_id body =
     answering env (at_route ''POST'' ''create_role'' request) [ROLES_CREATE] CREATED ''common.created'' (\<lambda>ctx.
       in_db (create_role (unicode_of env) new_id ctx body))"

definition update_role_route ::
    "api_env \<Rightarrow> http_request \<Rightarrow> uuid \<Rightarrow> role_update_request \<Rightarrow> int \<Rightarrow> (world, role_mutation api_result) proc" where
  "update_role_route env request role_id body expected_version =
     answering env (at_route ''POST'' ''update_role'' request) [ROLES_UPDATE] OK ''common.operation_success'' (\<lambda>ctx.
       in_db (update_role (unicode_of env) ctx role_id body expected_version))"

definition disable_role_route ::
    "api_env \<Rightarrow> http_request \<Rightarrow> uuid \<Rightarrow> int \<Rightarrow> (world, role_mutation api_result) proc" where
  "disable_role_route env request role_id expected_version =
     answering env (at_route ''POST'' ''disable_role'' request) [ROLES_STATUS_UPDATE] OK ''common.operation_success'' (\<lambda>ctx.
       in_db (set_role_active (unicode_of env) ctx role_id False expected_version))"

definition enable_role_route ::
    "api_env \<Rightarrow> http_request \<Rightarrow> uuid \<Rightarrow> int \<Rightarrow> (world, role_mutation api_result) proc" where
  "enable_role_route env request role_id expected_version =
     answering env (at_route ''POST'' ''enable_role'' request) [ROLES_STATUS_UPDATE] OK ''common.operation_success'' (\<lambda>ctx.
       in_db (set_role_active (unicode_of env) ctx role_id True expected_version))"

definition delete_role_route ::
    "api_env \<Rightarrow> http_request \<Rightarrow> int \<Rightarrow> uuid \<Rightarrow> int \<Rightarrow> (world, role_mutation api_result) proc" where
  "delete_role_route env request now role_id expected_version =
     answering env (at_route ''POST'' ''delete_role'' request) [ROLES_DELETE] OK ''common.operation_success'' (\<lambda>ctx.
       in_db (soft_delete_role (unicode_of env) now ctx role_id expected_version))"

definition bind_role_permissions_route ::
    "api_env \<Rightarrow> http_request \<Rightarrow> int \<Rightarrow> uuid \<Rightarrow> uuid list \<Rightarrow> int \<Rightarrow> (world, role_mutation api_result) proc" where
  "bind_role_permissions_route env request now role_id permission_ids expected_version =
     answering env (at_route ''POST'' ''bind_role_permissions'' request) [ROLES_PERMISSIONS_BIND] OK
       ''common.operation_success'' (\<lambda>ctx.
       in_db (change_role_permissions (unicode_of env) now ctx role_id permission_ids ''bind'' expected_version))"

definition unbind_role_permissions_route ::
    "api_env \<Rightarrow> http_request \<Rightarrow> int \<Rightarrow> uuid \<Rightarrow> uuid list \<Rightarrow> int \<Rightarrow> (world, role_mutation api_result) proc" where
  "unbind_role_permissions_route env request now role_id permission_ids expected_version =
     answering env (at_route ''POST'' ''unbind_role_permissions'' request) [ROLES_PERMISSIONS_UNBIND] OK
       ''common.operation_success'' (\<lambda>ctx.
       in_db (change_role_permissions (unicode_of env) now ctx role_id permission_ids ''unbind'' expected_version))"

subsection \<open>Users\<close>

definition list_users ::
    "api_env \<Rightarrow> http_request \<Rightarrow> int \<Rightarrow> int \<Rightarrow> pystr option \<Rightarrow> (world, user_response page_data api_result) proc" where
  "list_users env request page page_size user_name =
     answering env (at_route ''GET'' ''list_users'' request) [USERS_READ] OK ''common.query_success'' (\<lambda>ctx.
       reading (\<lambda>db.
         let (users, total) = list_visible_users_page db (c_authority ctx) page page_size user_name;
             access_by_user_id = load_user_access_views db users (c_authority ctx) in
         bindE (map_raising (\<lambda>u. bindE (item_of access_by_user_id (u_id u)) (\<lambda>v. Inr (user_response v))) users)
           (\<lambda>items. Inr \<lparr>pg_items = items, pg_page = page, pg_page_size = page_size, pg_total = total\<rparr>)))"

definition get_user :: "api_env \<Rightarrow> http_request \<Rightarrow> uuid \<Rightarrow> (world, user_response api_result) proc" where
  "get_user env request user_id =
     answering env (at_route ''GET'' ''get_user'' request) [USERS_READ] OK ''common.query_success'' (\<lambda>ctx.
       reading (\<lambda>db.
         case load_visible_user db (c_authority ctx) user_id of
           None \<Rightarrow> Inl (Rbac (not_found ''user_not_found''))
         | Some user \<Rightarrow>
             bindE (item_of (load_user_access_views db [user] (c_authority ctx)) (u_id user)) (\<lambda>v.
               Inr (user_response v))))"

definition bind_user_roles_route ::
    "api_env \<Rightarrow> http_request \<Rightarrow> int \<Rightarrow> uuid \<Rightarrow> uuid list \<Rightarrow> (world, user_role_mutation api_result) proc" where
  "bind_user_roles_route env request now user_id role_ids =
     answering env (at_route ''POST'' ''bind_user_roles'' request) [ROLES_ASSIGN] OK ''common.operation_success'' (\<lambda>ctx.
       in_db (change_user_roles (unicode_of env) now ctx user_id role_ids ''bind''))"

definition unbind_user_roles_route ::
    "api_env \<Rightarrow> http_request \<Rightarrow> int \<Rightarrow> uuid \<Rightarrow> uuid list \<Rightarrow> (world, user_role_mutation api_result) proc" where
  "unbind_user_roles_route env request now user_id role_ids =
     answering env (at_route ''POST'' ''unbind_user_roles'' request) [ROLES_REVOKE] OK ''common.operation_success'' (\<lambda>ctx.
       in_db (change_user_roles (unicode_of env) now ctx user_id role_ids ''unbind''))"

definition disable_user_route :: "api_env \<Rightarrow> http_request \<Rightarrow> uuid \<Rightarrow> (world, user_response api_result) proc" where
  "disable_user_route env request user_id =
     answering env (at_route ''POST'' ''disable_user'' request) [USERS_STATUS_UPDATE] OK ''common.operation_success'' (\<lambda>ctx.
       in_db (update_user_status (unicode_of env) ctx user_id False))"

definition enable_user_route :: "api_env \<Rightarrow> http_request \<Rightarrow> uuid \<Rightarrow> (world, user_response api_result) proc" where
  "enable_user_route env request user_id =
     answering env (at_route ''POST'' ''enable_user'' request) [USERS_STATUS_UPDATE] OK ''common.operation_success'' (\<lambda>ctx.
       in_db (update_user_status (unicode_of env) ctx user_id True))"

definition revoke_user_sessions_route ::
    "api_env \<Rightarrow> http_request \<Rightarrow> uuid \<Rightarrow> (world, operation_response api_result) proc" where
  "revoke_user_sessions_route env request user_id =
     answering env (at_route ''POST'' ''revoke_user_sessions'' request) [USERS_SESSIONS_REVOKE] OK
       ''common.operation_success'' (\<lambda>ctx.
       bindP (in_db (revoke_user_sessions (unicode_of env) ctx user_id)) (\<lambda>_. returnP \<lparr>op_changed = True\<rparr>))"

end
