(* ===== verification/Account_Api.thy ===== *)
theory Account_Api
  imports Access_Api Authentication
begin

text \<open>
  The routes of \<open>app/api/authentication.py\<close>: captchas, registration, login, sessions and
  passwords. A route for a signed-in user consumes a challenge of that user before it calls the
  service; a public route passes the check of its challenge to the admission flow, which makes
  it after the quota, or makes it itself when the quotas are off.
\<close>

text \<open>What the calls of one request draw and meet, beside the environment of the dependencies.\<close>

record account_env = api_env +
  ac_passwords :: password_libs
  ac_captcha :: captcha_call
  ac_captcha_image :: "pystr \<Rightarrow> pystr"
  ac_captcha_issue :: "nat \<Rightarrow> captcha_call"
  ac_captcha_id :: uuid
  ac_captcha_choice :: "nat \<Rightarrow> nat"
  ac_flow_io :: redis_io
  ac_client :: "pystr option"
  ac_service_others :: others
  ac_salt :: string
  ac_drawn :: uuid
  ac_instant :: int
  ac_attempts :: "nat \<Rightarrow> issue_attempt"
  ac_sessions_io :: redis_io

record captcha_answer =
  cb_captcha_id :: uuid
  cb_captcha_answer :: pystr

definition plain_env :: "account_env \<Rightarrow> api_env" where
  "plain_env env = api_env.truncate env"

definition client_ip_of :: "account_env \<Rightarrow> pystr" where
  "client_ip_of env = trusted_client_ip (ae_platform env) (ac_client env)"

subsection \<open>Challenges\<close>

definition consume_captcha_for :: "account_env \<Rightarrow> captcha_answer \<Rightarrow> string \<Rightarrow> uuid option \<Rightarrow> (world, unit) proc" where
  "consume_captcha_for env body scene owner_id =
     in_sessions (consume_captcha (cjson_decode (ae_libs env)) (ae_platform env) (ae_settings env) (ac_captcha env)
       (cb_captcha_id body) (cb_captcha_answer body) scene owner_id)"

definition identity_abuse_flow :: "account_env \<Rightarrow> (world, unit) proc option \<Rightarrow> failure + abuse_flow option" where
  "identity_abuse_flow env post_admission_check =
     (if \<not> s_rate_limit_enabled (ae_settings env) then Inr None
      else bindE (new_abuse_defense (ae_settings env)) (\<lambda>defense.
        Inr (Some \<lparr>af_defense = defense, af_io = ac_flow_io env, af_post_admission_check = post_admission_check\<rparr>)))"

definition admit_rejected_captcha_scene :: "account_env \<Rightarrow> uuid option \<Rightarrow> (world, unit) proc" where
  "admit_rejected_captcha_scene env owner_id =
     (if \<not> s_rate_limit_enabled (ae_settings env) then returnP ()
      else bindP (liftP (new_abuse_defense (ae_settings env))) (\<lambda>defense.
        in_limits (check_rejected_captcha_scene (ae_platform env) defense (ac_flow_io env)
          (if owner_id = None then Some (client_ip_of env) else None)
          (map_option (\<lambda>u. lit (uuid_str u)) owner_id))))"

definition precheck_captcha_body :: "account_env \<Rightarrow> http_request \<Rightarrow> uuid option \<Rightarrow> (world, unit) proc" where
  "precheck_captcha_body env rq owner_id =
     (if parse_captcha_create_request (ae_pydantic_uuid env) rq \<noteq> None then returnP ()
      else admit_rejected_captcha_scene env owner_id)"

definition issue_captcha_for ::
    "account_env \<Rightarrow> string \<Rightarrow> uuid option \<Rightarrow> uuid option \<Rightarrow> (world, uuid \<times> pystr) proc" where
  "issue_captcha_for env scene previous owner_id =
     bindP (if s_rate_limit_enabled (ae_settings env)
            then bindP (liftP (new_abuse_defense (ae_settings env))) (\<lambda>defense.
                   in_limits (check_captcha_create (ae_platform env) defense (ac_flow_io env) scene
                     (if owner_id = None then Some (client_ip_of env) else None)
                     (map_option (\<lambda>u. lit (uuid_str u)) owner_id)))
            else returnP ()) (\<lambda>_.
       in_sessions (issue_captcha (cjson_decode (ae_libs env)) (ae_platform env) (ae_settings env) (ac_captcha_image env)
         (ac_captcha_issue env) (ac_captcha_id env) (ac_captcha_choice env) scene owner_id previous))"

text \<open>
  A body that is no captcha request is charged and then refused by the validation. (A body
  announced as JSON that is no JSON text FastAPI refuses before any dependency runs; such a
  request never gets here.)
\<close>

definition create_public_captcha :: "account_env \<Rightarrow> http_request \<Rightarrow> (world, (uuid \<times> pystr) api_result) proc" where
  "create_public_captcha env request =
     (let rq = at_route ''POST'' ''create_public_captcha'' request in
      bindP (precheck_captcha_body env rq None) (\<lambda>_.
      case parse_captcha_create_request (ae_pydantic_uuid env) rq of
        None \<Rightarrow> raiseP (Value_error ''request body'')
      | Some (scene, previous) \<Rightarrow>
          if scene \<notin> {''login'', ''register''}
          then bindP (admit_rejected_captcha_scene env None) (\<lambda>_.
                 raiseP (Rbac (invalid_request ''captcha_scene_requires_authentication'')))
          else bindP (issue_captcha_for env scene previous None) (\<lambda>x.
                 returnP (api_response (plain_env env) rq OK ''auth.captcha_created'' x))))"

definition create_authenticated_captcha :: "account_env \<Rightarrow> http_request \<Rightarrow> (world, (uuid \<times> pystr) api_result) proc" where
  "create_authenticated_captcha env request =
     (let rq = at_route ''POST'' ''create_authenticated_captcha'' request in
      bindP (get_current_principal (plain_env env) rq) (\<lambda>p.
      bindP (get_authorization_context (plain_env env) rq p) (\<lambda>ctx.
      let owner = Some (pr_user_id (c_principal ctx)) in
      bindP (precheck_captcha_body env rq owner) (\<lambda>_.
      case parse_captcha_create_request (ae_pydantic_uuid env) rq of
        None \<Rightarrow> raiseP (Value_error ''request body'')
      | Some (scene, previous) \<Rightarrow>
          if scene \<notin> {''admin_create'', ''admin_reset'', ''self_change''}
          then bindP (admit_rejected_captcha_scene env owner) (\<lambda>_.
                 raiseP (Rbac (invalid_request ''captcha_scene_is_public'')))
          else bindP (issue_captcha_for env scene previous owner) (\<lambda>x.
                 returnP (api_response (plain_env env) rq OK ''auth.captcha_created'' x))))))"

subsection \<open>Registration and login\<close>

definition read_registration_status :: "account_env \<Rightarrow> http_request \<Rightarrow> (world, bool api_result) proc" where
  "read_registration_status env request =
     bindP (in_db registration_enabled) (\<lambda>enabled.
       returnP (api_response (plain_env env) (at_route ''GET'' ''read_registration_status'' request) OK
         ''common.success'' enabled))"

definition update_registration_status :: "account_env \<Rightarrow> http_request \<Rightarrow> bool \<Rightarrow> (world, bool api_result) proc" where
  "update_registration_status env request enabled =
     answering (plain_env env) (at_route ''POST'' ''update_registration_policy'' request) [REGISTRATION_CONFIGURE] OK
       ''auth.registration_settings_updated'' (\<lambda>ctx. in_db (set_registration_enabled ctx enabled))"

text \<open>Who checks the challenge of a public route: the flow, or the route when there is none.\<close>

definition with_flow ::
    "account_env \<Rightarrow> (world, unit) proc \<Rightarrow> (abuse_flow option \<Rightarrow> (world, 'a) proc) \<Rightarrow> (world, 'a) proc" where
  "with_flow env check_captcha service =
     bindP (liftP (identity_abuse_flow env (Some check_captcha))) (\<lambda>flow.
     bindP (if flow = None then check_captcha else returnP ()) (\<lambda>_. service flow))"

definition register_local_account ::
    "account_env \<Rightarrow> http_request \<Rightarrow> captcha_answer \<Rightarrow> pystr \<Rightarrow> pystr \<Rightarrow> (world, uuid api_result) proc" where
  "register_local_account env request body user_name password =
     (let rq = at_route ''POST'' ''register_local_account'' request in
      bindP (with_flow env (consume_captcha_for env body ''register'' None) (\<lambda>flow.
               register (ac_passwords env) (ae_platform env) (ac_service_others env) flow (client_ip_of env)
                 (ac_salt env) (ac_drawn env) (ac_instant env) user_name password
                 (request_id_for (ae_fresh_request_id env) rq))) (\<lambda>user_id.
        returnP (api_response (plain_env env) rq CREATED ''auth.registration_succeeded'' user_id)))"

record access_token_data =
  td_access_token :: pystr
  td_expires_in :: int

definition login_with_local_password ::
    "account_env \<Rightarrow> http_request \<Rightarrow> captcha_answer \<Rightarrow> pystr \<Rightarrow> pystr \<Rightarrow> (world, access_token_data api_result) proc" where
  "login_with_local_password env request body user_name password =
     (let rq = at_route ''POST'' ''login_with_local_password'' request in
      bindP (with_flow env (consume_captcha_for env body ''login'' None) (\<lambda>flow.
               authenticate (ac_passwords env) (ae_platform env) (ac_service_others env) flow (client_ip_of env)
                 (ac_salt env) user_name password)) (\<lambda>identity.
      if au_must_change_password identity
      then raiseP (Rbac (password_change_required ''temporary_password_must_be_changed''))
      else
      bindP (in_sessions (issue_access_token (ae_libs env) (ae_platform env) (ae_settings env) (au_user_id identity)
               (au_token_version identity) (ac_attempts env))) (\<lambda>access_token.
        returnP (api_response (plain_env env) rq OK ''auth.login_succeeded''
          \<lparr>td_access_token = access_token, td_expires_in = s_jwt_access_token_ttl_seconds (ae_settings env)\<rparr>))))"

subsection \<open>The sessions and the password of the caller\<close>

definition my_active_sessions :: "account_env \<Rightarrow> http_request \<Rightarrow> (world, int list api_result) proc" where
  "my_active_sessions env request =
     (let rq = at_route ''GET'' ''my_active_sessions'' request in
      bindP (get_current_principal (plain_env env) rq) (\<lambda>p.
      bindP (get_authorization_context (plain_env env) rq p) (\<lambda>ctx.
      bindP (in_sessions (list_active_sessions (ae_libs env) (ae_platform env) (ae_settings env)
               (pr_user_id (c_principal ctx)) (pr_token_version (c_principal ctx)) (ac_sessions_io env))) (\<lambda>timestamps.
        returnP (api_response (plain_env env) rq OK ''common.success'' timestamps)))))"

definition change_my_password ::
    "account_env \<Rightarrow> http_request \<Rightarrow> captcha_answer \<Rightarrow> pystr \<Rightarrow> pystr \<Rightarrow> (world, bool api_result) proc" where
  "change_my_password env request body current_password new_password =
     (let rq = at_route ''POST'' ''change_my_password'' request in
      bindP (get_current_principal (plain_env env) rq) (\<lambda>p.
      bindP (get_authorization_context (plain_env env) rq p) (\<lambda>ctx.
      bindP (consume_captcha_for env body ''self_change'' (Some (pr_user_id (c_principal ctx)))) (\<lambda>_.
      bindP (change_password (ac_passwords env) (pf_unicode (ae_platform env)) (ac_service_others env) ctx (ac_salt env)
               (ac_instant env) current_password new_password) (\<lambda>changed.
        returnP (api_response (plain_env env) rq OK ''auth.password_changed_relogin'' changed))))))"

subsection \<open>Administration of accounts\<close>

definition reset_user_password_route ::
    "account_env \<Rightarrow> http_request \<Rightarrow> uuid \<Rightarrow> captcha_answer \<Rightarrow> pystr \<Rightarrow> (world, bool api_result) proc" where
  "reset_user_password_route env request user_id body new_password =
     (let temporary = s_admin_password_reset_temporary (ae_settings env) in
      answering (plain_env env) (at_route ''POST'' ''reset_user_password'' request) [USERS_PASSWORD_RESET] OK
        (if temporary then ''auth.temporary_password_set'' else ''auth.password_reset_succeeded'') (\<lambda>ctx.
        bindP (consume_captcha_for env body ''admin_reset'' (Some (pr_user_id (c_principal ctx)))) (\<lambda>_.
          reset_user_password (ac_passwords env) (pf_unicode (ae_platform env)) (ac_service_others env) ctx (ac_salt env)
            (ac_instant env) user_id new_password temporary)))"

definition create_user_with_temporary_password ::
    "account_env \<Rightarrow> http_request \<Rightarrow> captcha_answer \<Rightarrow> pystr \<Rightarrow> pystr \<Rightarrow> (world, uuid api_result) proc" where
  "create_user_with_temporary_password env request body user_name temporary_password =
     answering (plain_env env) (at_route ''POST'' ''create_user'' request) [USERS_CREATE] CREATED ''auth.user_created'' (\<lambda>ctx.
       bindP (consume_captcha_for env body ''admin_create'' (Some (pr_user_id (c_principal ctx)))) (\<lambda>_.
         create_user_by_administrator (ac_passwords env) (pf_unicode (ae_platform env)) (ac_service_others env) ctx (ac_salt env)
           (ac_drawn env) (ac_instant env) user_name temporary_password))"

definition complete_temporary_password_reset ::
    "account_env \<Rightarrow> http_request \<Rightarrow> pystr \<Rightarrow> pystr \<Rightarrow> pystr \<Rightarrow> (world, bool api_result) proc" where
  "complete_temporary_password_reset env request user_name temporary_password new_password =
     (let rq = at_route ''POST'' ''complete_temporary_password_reset'' request in
      bindP (liftP (identity_abuse_flow env None)) (\<lambda>flow.
      bindP (complete_password_reset (ac_passwords env) (ae_platform env) (ac_service_others env) flow (client_ip_of env)
               (ac_salt env) (ac_instant env) user_name temporary_password new_password
               (request_id_for (ae_fresh_request_id env) rq)) (\<lambda>changed.
        returnP (api_response (plain_env env) rq OK ''auth.password_setup_relogin'' changed))))"

end
