(* ===== verification/Request_Laws.thy ===== *)
theory Request_Laws
  imports Account_Api Account_Logins Escalation
begin

text \<open>
  What the chain of dependencies guarantees to a handler: an accepted token, an active user with
  the token's version, the authority of the tables, the required permissions, and a quota that
  admitted the call; and what a refused request leaves behind.
\<close>

subsection \<open>Steps that leave the database alone\<close>

definition keeps_db :: "(world, 'a) proc \<Rightarrow> bool" where
  "keeps_db m \<longleftrightarrow> (\<forall>w. w_db (snd (m w)) = w_db w)"

named_theorems keeps "procedures that leave the database alone"

lemma keeps_basic [keeps]:
  "keeps_db (returnP x)" "keeps_db (raiseP e)" "keeps_db (liftP r)"
  by (simp_all add: keeps_db_def)

lemma keeps_parts [keeps]: "keeps_db (in_sessions m)" "keeps_db (in_limits m)" "keeps_db (in_db (\<lambda>db. (r db, db)))"
  by (simp_all add: keeps_db_def split: prod.split)

lemma keeps_dbD: "keeps_db m \<Longrightarrow> m w = (r, w') \<Longrightarrow> w_db w' = w_db w"
  by (metis keeps_db_def snd_conv)

lemma keeps_bind [keeps]:
  assumes "keeps_db m" "\<And>x. keeps_db (f x)"
  shows "keeps_db (bindP m f)"
  unfolding keeps_db_def
proof
  fix w
  obtain r w1 where m: "m w = (r, w1)" by fastforce
  show "w_db (snd (bindP m f w)) = w_db w"
    using keeps_dbD [OF assms(1) m] assms(2) m by (cases r) (simp_all add: keeps_db_def)
qed

lemma keeps_handle [keeps]:
  assumes "keeps_db m" "\<And>e. keeps_db (h e)"
  shows "keeps_db (handleP m h)"
  unfolding keeps_db_def
proof
  fix w
  obtain r w1 where m: "m w = (r, w1)" by fastforce
  show "w_db (snd (handleP m h w)) = w_db w"
    using keeps_dbD [OF assms(1) m] assms(2) m by (cases r) (simp_all add: keeps_db_def)
qed

lemma in_part_eq:
  "in_sessions m w = (r, w') \<longleftrightarrow> (\<exists>s. m (w_sessions w) = (r, s) \<and> w' = w\<lparr>w_sessions := s\<rparr>)"
  "in_limits m w = (r, w') \<longleftrightarrow> (\<exists>s. m (w_limits w) = (r, s) \<and> w' = w\<lparr>w_limits := s\<rparr>)"
  "in_db n w = (q, w') \<longleftrightarrow> (\<exists>d. n (w_db w) = (q, d) \<and> w' = w\<lparr>w_db := d\<rparr>)"
  by (auto simp: in_sessions_def in_limits_def in_db_def onP_eq)

lemma keeps_bucket [keeps]: "keeps_db (actor_bucket bucket s u chosen)" "keeps_db (refuse_exceeded c)"
  by (auto simp: actor_bucket_def or_unavailable_def refuse_exceeded_def intro!: keeps split: option.split)

lemma keeps_dependencies [keeps]:
  "keeps_db (precheck_principal_rate_limit env rq p)" "keeps_db (enforce_principal_rate_limit env rq p)"
  "keeps_db (best_effort_revoke env p)" "keeps_db (get_current_principal env rq)"
  "keeps_db (reject_inactive env p :: (world, 'a) proc)"
  by (auto simp: precheck_principal_rate_limit_def enforce_principal_rate_limit_def best_effort_revoke_def
      get_current_principal_def reject_inactive_def intro!: keeps split: option.split)

lemma keeps_undisturbed [keeps]: "keeps_db (meanwhile undisturbed i)"
  by (simp add: keeps_db_def)

lemma keeps_context [keeps]: "ae_others env = undisturbed \<Longrightarrow> keeps_db (get_authorization_context env rq p)"
  by (auto simp: get_authorization_context_def intro!: keeps split: sum.split)

subsection \<open>What is admitted\<close>

definition token_accepted :: "api_env \<Rightarrow> http_request \<Rightarrow> redis \<Rightarrow> principal \<Rightarrow> bool" where
  "token_accepted env rq sessions p \<longleftrightarrow>
     (\<exists>scheme token.
        rq_credentials rq = Some (scheme, token) \<and> ascii_lower (lit scheme) = lit ''bearer'' \<and>
        decode_access_token (ae_libs env) (ae_settings env) (ae_now env) token = Inr (principal_claims p) \<and>
        fst (require_active_jti (ae_libs env) (ae_platform env) (ae_settings env) (principal_claims p)
               (ae_session_io env) sessions) = Inr (pr_token_version p))"

definition quota_charged :: "api_env \<Rightarrow> http_request \<Rightarrow> principal \<Rightarrow> redis \<Rightarrow> bool" where
  "quota_charged env rq p limits \<longleftrightarrow>
     (\<exists>policy secret result.
        actor_policy_for rq (ae_settings env) = Inr policy \<and> key_secret_of (ae_settings env) = Inr secret \<and>
        fst (check_rate_limit (ae_platform env) (ae_charge_io env) (ident (s_rate_limit_namespace (ae_settings env)))
               policy ''actor'' (lit (uuid_str (pr_user_id p))) secret limits) = Inr result \<and> rl_allowed result)"

lemma accepted_principal:
  assumes "get_current_principal env rq w = (Inr p, w')"
  shows "token_accepted env rq (w_sessions w) p"
proof -
  obtain scheme token where cred: "rq_credentials rq = Some (scheme, token)" "ascii_lower (lit scheme) = lit ''bearer''"
    using assms by (auto simp: get_current_principal_def split: option.splits if_splits)
  from assms obtain claims v s' where run: "decode_access_token (ae_libs env) (ae_settings env) (ae_now env) token = Inr claims"
    "require_active_jti (ae_libs env) (ae_platform env) (ae_settings env) claims (ae_session_io env) (w_sessions w) = (Inr v, s')"
    "p = \<lparr>pr_user_id = ac_user_id claims, pr_token_version = v, pr_token_id = ac_token_id claims,
          pr_issued_at = ac_issued_at claims, pr_expires_at = ac_expires_at claims\<rparr>"
    unfolding get_current_principal_def cred option.case prod.case
    by (auto simp: cred(2) bindP_Inr in_part_eq simp del: in_parts split: if_splits)
  then have "principal_claims p = claims" "pr_token_version p = v"
    by (simp_all add: principal_claims_def)
  with run(1,2) cred show ?thesis
    unfolding token_accepted_def by auto
qed

lemma enforced_quota:
  assumes "enforce_principal_rate_limit env rq p w = (Inr (), w')" "s_rate_limit_enabled (ae_settings env)"
    and "operation_id rq \<noteq> ''create_authenticated_captcha''"
  shows "quota_charged env rq p (w_limits w)"
proof -
  have chosen: "rate_limit_policy_for rq (ae_settings env) = bindE (actor_policy_for rq (ae_settings env)) (\<lambda>p. Inr (Some p))"
    using assms(3) by (simp add: rate_limit_policy_for_def AUTHENTICATED_RATE_LIMIT_EXEMPT_OPERATIONS_def)
  have "bindP (actor_bucket (check_rate_limit (ae_platform env) (ae_charge_io env)) (ae_settings env)
          (pr_user_id p) (rate_limit_policy_for rq (ae_settings env))) refuse_exceeded w = (Inr (), w')"
    using assms(1,2) by (simp add: enforce_principal_rate_limit_def)
  then obtain c w1 where c: "actor_bucket (check_rate_limit (ae_platform env) (ae_charge_io env)) (ae_settings env)
          (pr_user_id p) (rate_limit_policy_for rq (ae_settings env)) w = (Inr c, w1)" "refuse_exceeded c w1 = (Inr (), w')"
    by (elim bindP_InrE)
  from c(1) obtain policy secret result where
    "actor_policy_for rq (ae_settings env) = Inr policy" "key_secret_of (ae_settings env) = Inr secret"
    "c = Some (policy, result)"
    "fst (check_rate_limit (ae_platform env) (ae_charge_io env) (ident (s_rate_limit_namespace (ae_settings env)))
        policy ''actor'' (lit (uuid_str (pr_user_id p))) secret (w_limits w)) = Inr result"
    unfolding actor_bucket_def or_unavailable_def chosen
    by (auto simp: handleP_Inr bindP_Inr bindE_Inr in_part_eq simp del: in_parts split: if_splits option.splits)
  moreover have "rl_allowed result"
    using c(2) \<open>c = Some (policy, result)\<close> by (auto simp: refuse_exceeded_def split: if_splits)
  ultimately show ?thesis
    unfolding quota_charged_def by blast
qed

lemma reject_inactive_never [simp]: "reject_inactive env p w \<noteq> (Inr x, w')"
  by (auto simp: reject_inactive_def bindP_Inr)

text \<open>\<open>authorized env rq p ctx db u\<close>: the context says of the user what the tables say.\<close>

definition authorized :: "principal \<Rightarrow> authorization_context \<Rightarrow> database \<Rightarrow> user \<Rightarrow> bool" where
  "authorized p ctx db u \<longleftrightarrow>
     c_principal ctx = p \<and> c_audit_source ctx = HTTP \<and> current_actor db ctx u \<and>
     c_authority ctx = authority_spec db False u"

lemma read_authority_Inr:
  assumes "wf db" "read_authority env p db = Inr (epoch, authority)"
    and "a_user_is_active authority" "a_token_version authority = pr_token_version p"
    and "c_principal ctx = p" "c_audit_source ctx = HTTP" "c_authority ctx = authority"
  shows "\<exists>u. authorized p ctx db u"
proof -
  have "load_authority_snapshot db (pr_user_id p) False = Inr authority"
    using assms(2) by (auto simp: read_authority_def bindE_Inr split: option.splits)
  then obtain u where u: "u \<in> set (db_users db)" "u_id u = pr_user_id p" "live_user u" "authority = authority_spec db False u"
    using load_authority_snapshot_Inr [OF assms(1)] by blast
  then have "u_is_active u" "u_token_version u = pr_token_version p"
    using assms(3,4) by (simp_all add: authority_spec_def)
  with u show ?thesis
    using assms(5-7) unfolding authorized_def current_actor_def by auto
qed

lemma context_Inr:
  assumes "get_authorization_context env rq p w = (Inr ctx, w')" "sound_others (ae_others env)" "wf (w_db w)"
  shows "\<exists>w0 u. precheck_principal_rate_limit env rq p w = (Inr (), w0) \<and> w_db w0 = w_db w \<and>
     authorized p ctx (w_db (ae_others env 0 w0)) u \<and>
     enforce_principal_rate_limit env rq p (ae_others env 1 (ae_others env 0 w0)) = (Inr (), w')"
proof -
  obtain w0 where pre: "precheck_principal_rate_limit env rq p w = (Inr (), w0)"
    and rest: "bindP (meanwhile (ae_others env) 0) (\<lambda>_.
     bindP (in_db (\<lambda>db. (Inr (read_authority env p db), db))) (\<lambda>r.
     case r of
       Inl e \<Rightarrow> if e = Rbac (not_found ''user_not_found'') then reject_inactive env p else raiseP e
     | Inr (authorization_epoch, authority) \<Rightarrow>
         if \<not> a_user_is_active authority \<or> a_token_version authority \<noteq> pr_token_version p
         then reject_inactive env p
         else
         bindP (meanwhile (ae_others env) 1) (\<lambda>_.
         bindP (enforce_principal_rate_limit env rq p) (\<lambda>_.
           returnP \<lparr>c_principal = p, c_authorization_epoch = authorization_epoch, c_authority = authority,
                    c_request_id = request_id_for (ae_fresh_request_id env) rq, c_audit_source = HTTP\<rparr>)))) w0
      = (Inr ctx, w')"
    using assms(1) [unfolded get_authorization_context_def] by (rule bindP_InrE) (rule that, simp_all)
  let ?db = "w_db (ae_others env 0 w0)"
  have same: "w_db w0 = w_db w" by (rule keeps_dbD [OF keeps_dependencies(1) pre])
  then have step: "sound_step (w_db w) ?db"
    using assms(2,3) unfolding sound_others_def by metis
  obtain epoch authority where read: "read_authority env p ?db = Inr (epoch, authority)" "a_user_is_active authority"
     "a_token_version authority = pr_token_version p"
    and last: "bindP (enforce_principal_rate_limit env rq p) (\<lambda>_. returnP \<lparr>c_principal = p,
        c_authorization_epoch = epoch, c_authority = authority,
        c_request_id = request_id_for (ae_fresh_request_id env) rq, c_audit_source = HTTP\<rparr>)
       (ae_others env 1 (ae_others env 0 w0)) = (Inr ctx, w')"
    using rest by (cases "read_authority env p ?db") (auto simp: bindP_def split: if_splits)
  then have "c_principal ctx = p" "c_audit_source ctx = HTTP" "c_authority ctx = authority"
    "enforce_principal_rate_limit env rq p (ae_others env 1 (ae_others env 0 w0)) = (Inr (), w')"
    by (auto simp: bindP_Inr)
  then show ?thesis
    using read_authority_Inr [OF sound_step_wf [OF step] read] same pre by blast
qed

lemma require_permissions_Inr:
  "require_permissions env rq All_of required ctx w = (Inr ctx', w') \<longleftrightarrow>
     required \<noteq> [] \<and> permission_value ` set required \<subseteq> context_permissions ctx \<and> ctx' = ctx \<and> w' = w"
  by (auto simp: require_permissions_def Let_def bindP_Inr)

text \<open>The world in which the authority of the user is read.\<close>

definition authority_world :: "api_env \<Rightarrow> http_request \<Rightarrow> world \<Rightarrow> world" where
  "authority_world env rq w =
     ae_others env 0 (snd (bindP (get_current_principal env rq) (precheck_principal_rate_limit env rq) w))"

lemma protected_route_Inr:
  assumes "protected_route env rq required handler w = (Inr x, w')" "sound_others (ae_others env)" "wf (w_db w)"
  shows "\<exists>p ctx u w3. token_accepted env rq (w_sessions w) p \<and>
     sound_step (w_db w) (w_db (authority_world env rq w)) \<and> authorized p ctx (w_db (authority_world env rq w)) u \<and>
     required \<noteq> [] \<and>
     permission_value ` set required \<subseteq> a_permissions (authority_spec (w_db (authority_world env rq w)) False u) \<and>
     enforce_principal_rate_limit env rq p (ae_others env 1 (authority_world env rq w)) = (Inr (), w3) \<and>
     handler ctx (ae_others env 2 w3) = (Inr x, w')"
proof -
  obtain p w1 where p: "get_current_principal env rq w = (Inr p, w1)"
    and rest: "bindP (get_authorization_context env rq p) (\<lambda>ctx.
     bindP (require_permissions env rq All_of required ctx) (\<lambda>ctx.
     bindP (meanwhile (ae_others env) 2) (\<lambda>_. handler ctx))) w1 = (Inr x, w')"
    using assms(1) unfolding protected_route_def by (elim bindP_InrE) auto
  have same: "w_db w1 = w_db w" by (rule keeps_dbD [OF keeps_dependencies(4) p])
  obtain ctx w3 where ctx: "get_authorization_context env rq p w1 = (Inr ctx, w3)"
    and perms: "required \<noteq> []" "permission_value ` set required \<subseteq> context_permissions ctx"
    and run: "handler ctx (ae_others env 2 w3) = (Inr x, w')"
    using rest by (elim bindP_InrE) (auto simp: require_permissions_Inr)
  obtain w0 u where w0: "precheck_principal_rate_limit env rq p w1 = (Inr (), w0)" "w_db w0 = w_db w"
    "authorized p ctx (w_db (ae_others env 0 w0)) u"
    "enforce_principal_rate_limit env rq p (ae_others env 1 (ae_others env 0 w0)) = (Inr (), w3)"
    using context_Inr [OF ctx assms(2)] assms(3) same by metis
  have world: "authority_world env rq w = ae_others env 0 w0"
    using p w0(1) by (simp add: authority_world_def bindP_def)
  have "sound_step (w_db w) (w_db (ae_others env 0 w0))"
    using assms(2,3) w0(2) unfolding sound_others_def by metis
  moreover have "context_permissions ctx = a_permissions (authority_spec (w_db (ae_others env 0 w0)) False u)"
    using w0(3) by (simp add: authorized_def context_permissions_def)
  ultimately show ?thesis
    unfolding world using accepted_principal [OF p] perms run w0(3,4) by metis
qed

subsection \<open>What a request without a handler leaves behind\<close>

lemma denial_audit_log:
  assumes "in_db (transaction (write_permission_denial_audit uc ctx action)) w = (r, w')"
  shows "w_db w' = w_db w \<or> (\<exists>e. w_db w' = add_rbac_event e (w_db w))"
  using assms by (auto simp: in_part_eq transaction_def write_permission_denial_audit_def bindE_def
      simp del: in_parts split: sum.splits option.splits prod.splits)

lemma require_permissions_log:
  assumes "require_permissions env rq mode required ctx w = (r, w')"
  shows "w_db w' = w_db w \<or> (\<exists>e. w_db w' = add_rbac_event e (w_db w))"
  using assms denial_audit_log
  by (auto simp: require_permissions_def Let_def bindP_def handleP_def simp del: in_parts
      split: if_splits sum.splits prod.splits dest!: denial_audit_log)

lemma protected_route_cases:
  assumes run: "protected_route env rq required handler w = (r, w')" and others: "ae_others env = undisturbed" and "wf (w_db w)"
  shows "(w_db w' = w_db w \<or> (\<exists>e. w_db w' = add_rbac_event e (w_db w))) \<or>
     (\<exists>p ctx u w1. token_accepted env rq (w_sessions w) p \<and> authorized p ctx (w_db w) u \<and> w_db w1 = w_db w \<and>
        handler ctx w1 = (r, w'))"
proof -
  obtain q w1 where q: "get_current_principal env rq w = (q, w1)" by fastforce
  have same1: "w_db w1 = w_db w" by (rule keeps_dbD [OF keeps_dependencies(4) q])
  show ?thesis
  proof (cases q)
    case (Inl e)
    then show ?thesis using run q same1 by (simp add: protected_route_def)
  next
    case [simp]: (Inr p)
    obtain c w2 where c: "get_authorization_context env rq p w1 = (c, w2)" by fastforce
    have same2: "w_db w2 = w_db w" using keeps_dbD [OF keeps_context [OF others] c] same1 by simp
    show ?thesis
    proof (cases c)
      case (Inl e)
      then show ?thesis using run q c same2 by (simp add: protected_route_def)
    next
      case [simp]: (Inr ctx)
      obtain g w3 where g: "require_permissions env rq All_of required ctx w2 = (g, w3)" by fastforce
      show ?thesis
      proof (cases g)
        case (Inl e)
        then have "w' = w3" using run q c g by (simp add: protected_route_def)
        then show ?thesis using require_permissions_log [OF g] same2 by simp
      next
        case [simp]: (Inr ctx')
        have g': "ctx' = ctx" "w3 = w2" using g by (auto simp: require_permissions_Inr)
        have "sound_others (ae_others env)"
          by (simp add: others sound_others_def undisturbed_def sound_step_refl)
        then obtain u where "authorized p ctx (w_db w) u"
          using context_Inr [of env rq p w1 ctx w2] c assms(3) same1 others by auto
        moreover have "handler ctx w2 = (r, w')"
          using run q c g g' by (simp add: protected_route_def others)
        ultimately show ?thesis
          using accepted_principal [of env rq w p w1] q same2 by auto
      qed
    qed
  qed
qed

end
