(* ===== verification/Sample_Requests.thy ===== *)
theory Sample_Requests
  imports Request_Laws Session_Properties Rate_Limit_Laws Sample
begin

text \<open>
  A request the witnesses send: an administrator of an installation, with a token the session
  registry holds, and a fresh quota.
\<close>

definition staff_member :: user where
  "staff_member = (sample_user sample_user_id ''alice'' False)\<lparr>u_token_version := 3\<rparr>"

definition staffed_db :: database where
  "staffed_db = sample_db\<lparr>
     db_users := [sample_user ROOT ''root'' True, staff_member, sample_user BOB ''bob'' False],
     db_user_roles := map sample_assignment
        [(ROOT, R_SUPER), (ROOT, R_USER), (sample_user_id, R_ADMIN), (sample_user_id, R_USER), (BOB, R_USER)]\<rparr>"

definition sample_api :: api_env where
  "sample_api =
     \<lparr>ae_platform = sample_platform, ae_libs = sample_libs, ae_settings = sample_settings,
      ae_pydantic_uuid = pystr_uuid, ae_now = 12, ae_session_io = reliable 12000000, ae_inspect_io = reliable 12000000,
      ae_read_error = None, ae_charge_io = reliable 12000000, ae_revoke_io = reliable 12000000,
      ae_fresh_request_id = sample_token_id 7, ae_others = undisturbed\<rparr>"

definition sample_http :: http_request where
  "sample_http =
     \<lparr>rq_method = ''POST'', rq_operation_id = None, rq_credentials = Some (''Bearer'', sample_token),
      rq_content_type = [], rq_json = None, rq_request_id = None\<rparr>"

definition sample_principal :: principal where
  "sample_principal = \<lparr>pr_user_id = sample_user_id, pr_token_version = 3, pr_token_id = sample_token_id 1,
     pr_issued_at = 10, pr_expires_at = 86410\<rparr>"

definition staffed_world :: world where
  "staffed_world = \<lparr>w_db = staffed_db, w_sessions = sample_store 3, w_limits = \<lambda>_. None\<rparr>"

lemma staffed_wf: "wf staffed_db"
  unfolding wf_def
proof (intro conjI)
  show "keys_ok staffed_db" by code_simp
  show "names_ok staffed_db" by code_simp
  show "references_ok staffed_db" by code_simp
  show "actors_ok staffed_db" by code_simp
  show "rows_ok staffed_db" by code_simp
  show "state_ok staffed_db" by code_simp
  show "audit_ok staffed_db" by code_simp
  show "subjects_ok staffed_db" by code_simp
  show "length (super_admin_holders staffed_db) = 1" by code_simp
qed



lemma sample_user_other [simp]:
  "sample_user_id \<noteq> ROOT" "ROOT \<noteq> sample_user_id" "sample_user_id \<noteq> BOB" "BOB \<noteq> sample_user_id"
  by (simp_all add: sample_user_id_def ROOT_def BOB_def)

abbreviation listing :: http_request where
  "listing \<equiv> at_route ''GET'' ''list_users'' sample_http"

definition listing_policy :: rate_policy where
  "listing_policy = \<lparr>q_name = ''list_users'', q_limit = 300, q_window_seconds = 60\<rparr>"

lemma listing_policy_ok: "policy_ok listing_policy"
  unfolding policy_ok_def by code_simp

lemma sample_policies:
  "case security_policies_from sample_settings of Inl e \<Rightarrow> False
   | Inr p \<Rightarrow> q_limit (pol_management_read p) = 300 \<and> q_window_seconds (pol_management_read p) = 60"
  by code_simp

lemma listing_policies:
  "rate_limit_policy_for listing sample_settings = Inr (Some listing_policy)"
  "inspection_policy_for uuids listing sample_settings = Inr (Some listing_policy)"
proof -
  obtain p where p: "security_policies_from sample_settings = Inr p" "q_limit (pol_management_read p) = 300"
    "q_window_seconds (pol_management_read p) = 60"
    using sample_policies by (auto split: sum.splits)
  have new: "new_rate_policy ''list_users'' 300 60 = Inr listing_policy" by code_simp
  have op: "operation_id listing = ''list_users''" "rq_method listing = ''GET''"
    by (simp_all add: operation_id_def at_route_def)
  have "actor_policy_for listing sample_settings = Inr listing_policy"
    by (simp add: actor_policy_for_def op p new AUTHENTICATED_RATE_LIMIT_RULES_def bindE_def)
  then show limited: "rate_limit_policy_for listing sample_settings = Inr (Some listing_policy)"
    by (simp add: rate_limit_policy_for_def op AUTHENTICATED_RATE_LIMIT_EXEMPT_OPERATIONS_def bindE_def)
  show "inspection_policy_for uuids listing sample_settings = Inr (Some listing_policy)"
    using limited by (simp add: inspection_policy_for_def op)
qed

lemma sample_key_secret: "key_secret_of sample_settings = Inr (s_rate_limit_hmac_key sample_settings)"
proof -
  have "list_all (\<lambda>c. 0 \<le> c \<and> c < 128) (s_rate_limit_hmac_key sample_settings)"
    by code_simp
  then show ?thesis by (simp add: key_secret_of_def utf8_encode_ascii)
qed

lemma listing_key:
  "\<exists>key. build_rate_limit_key sample_platform (ident (s_rate_limit_namespace sample_settings)) listing_policy ''actor''
     (lit (uuid_str sample_user_id)) (s_rate_limit_hmac_key sample_settings) = Inr key"
proof -
  have "\<not> isl (build_rate_limit_key sample_platform (ident (s_rate_limit_namespace sample_settings)) listing_policy ''actor''
     (lit (uuid_str sample_user_id)) (s_rate_limit_hmac_key sample_settings))"
    unfolding Session_Properties.sample_ids by code_simp
  then show ?thesis by (cases "build_rate_limit_key sample_platform (ident (s_rate_limit_namespace sample_settings)) listing_policy ''actor''
     (lit (uuid_str sample_user_id)) (s_rate_limit_hmac_key sample_settings)") auto
qed

lemma fresh_quota:
  assumes "policy_ok q" "build_rate_limit_key pf ns q st subj secret = Inr key" "r_lookup now key s = None"
  shows "inspect_rate_limit pf (reliable now) ns q st subj secret s = (Inr (Rate_limit_result True (q_limit q) (q_limit q) 0 0), s)"
    "fst (check_rate_limit pf (reliable now) ns q st subj secret s) = Inr (decision_for True q 1 (window_ms q))"
proof -
  have "1 \<le> q_limit q" "0 < window_ms q" "window_ms q \<le> window_ms q"
    using assms(1) by (simp_all add: policy_ok_def window_ms_def)
  then show "inspect_rate_limit pf (reliable now) ns q st subj secret s = (Inr (Rate_limit_result True (q_limit q) (q_limit q) 0 0), s)"
    "fst (check_rate_limit pf (reliable now) ns q st subj secret s) = Inr (decision_for True q 1 (window_ms q))"
    using assms
    by (simp_all add: check_rate_limit_key [OF assms(2)] inspect_rate_limit_def assms(2) bindP_def store_answer_def
        handleP_def check_key_def inspect_fixed_window_script_def r_get_def parse_inspection_def
        script_fresh parse_result_ok)
qed

lemma staff_loaded: "read_authority sample_api sample_principal staffed_db = Inr (0, authority_spec staffed_db False staff_member)"
proof -
  have "load_authority_snapshot staffed_db sample_user_id False = Inr (authority_spec staffed_db False staff_member)"
    unfolding load_authority_snapshot_Inr [OF staffed_wf]
    by (auto simp: staffed_db_def staff_member_def sample_user_def)
  then show ?thesis
    by (simp add: read_authority_def sample_api_def sample_principal_def staffed_db_def sample_db_def bindE_def)
qed

lemma staff_permissions: "''users:read'' \<in> a_permissions (authority_spec staffed_db False staff_member)"
proof -
  have "''users:read'' \<in> permission_key_set staffed_db R_ADMIN" by code_simp
  moreover have "sample_role R_ADMIN ''admin'' 500 True False \<in> set (roles_of staffed_db r_is_active sample_user_id)"
    by (simp add: roles_of_iff assigned_iff staffed_db_def sample_db_def sample_role_def sample_assignment_def)
  moreover have "r_id (sample_role R_ADMIN ''admin'' 500 True False) = R_ADMIN"
    by (simp add: sample_role_def)
  ultimately have "\<exists>r \<in> set (roles_of staffed_db r_is_active sample_user_id). ''users:read'' \<in> permission_key_set staffed_db (r_id r)"
    by (metis (no_types))
  then show ?thesis
    by (simp add: authority_spec_def authority_with_def build_def staff_member_def sample_user_def role_grant_of_def)
qed

lemma sample_bucket:
  assumes "w_limits w = (\<lambda>_. None)"
  shows "precheck_principal_rate_limit sample_api listing sample_principal w = (Inr (), w)"
    "fst (enforce_principal_rate_limit sample_api listing sample_principal w) = Inr ()"
proof -
  obtain key where key: "build_rate_limit_key sample_platform (ident (s_rate_limit_namespace sample_settings)) listing_policy ''actor''
     (lit (uuid_str sample_user_id)) (s_rate_limit_hmac_key sample_settings) = Inr key"
    using listing_key by blast
  note fresh = fresh_quota [OF listing_policy_ok key, of 12000000 "\<lambda>_. None"]
  have on: "s_rate_limit_enabled sample_settings" by (simp add: sample_settings_def)
  have lookup: "r_lookup 12000000 key (\<lambda>_. None) = None" by (simp add: r_lookup_def)
  have env: "ae_settings sample_api = sample_settings" "ae_platform sample_api = sample_platform"
    "ae_inspect_io sample_api = reliable 12000000" "ae_charge_io sample_api = reliable 12000000"
    "pr_user_id sample_principal = sample_user_id"
    by (simp_all add: sample_api_def sample_principal_def)
  show "precheck_principal_rate_limit sample_api listing sample_principal w = (Inr (), w)"
    using assms fresh(1) [OF lookup]
    by (simp add: precheck_principal_rate_limit_def actor_bucket_def or_unavailable_def env on listing_policies
        sample_key_secret refuse_exceeded_def bindP_def handleP_def)
  show "fst (enforce_principal_rate_limit sample_api listing sample_principal w) = Inr ()"
    using assms fresh(2) [OF lookup]
    by (auto simp: enforce_principal_rate_limit_def actor_bucket_def or_unavailable_def env on listing_policies
        sample_key_secret refuse_exceeded_def bindP_def handleP_def split: prod.splits)
qed

lemma sample_decoded: "decode_access_token sample_libs sample_settings 12 sample_token = Inr sample_claims"
proof -
  have v4: "uuid_version (sample_token_id 1) = Some 4" by code_simp
  have secret: "hmac_secret (s_jwt_secret sample_settings)" by code_simp
  have u: "uuid_version sample_user_id = Some 4" using sample_env by (simp add: token_env_def)
  show ?thesis
    unfolding sample_claims_def
    by (rule decode_encoded [OF sample_jwt_ok sample_settings_ok secret _ u v4 sample_encoded])
      (simp_all add: issuable_def sample_limits JWT_CLOCK_LEEWAY_SECONDS_def)
qed

lemma sample_required:
  "fst (require_active_jti sample_libs sample_platform sample_settings sample_claims (reliable 12000000) (sample_store 3)) = Inr 3"
proof -
  obtain R where R: "registry_inv sample_platform sample_settings sample_user_id R"
    "stores 10000000 (user_session_keys sample_platform sample_settings sample_user_id) R (\<lambda>_. None) (sample_store 3)"
    "accepts sample_platform sample_settings sample_claims 10000000 R 3"
    by (rule sample_active)
  have now: "(10000000 :: int) \<le> io_now (reliable 12000000)" "sec_of 12000000 < ac_expires_at sample_claims"
      "ac_user_id sample_claims = sample_user_id" "io_fault (reliable 12000000) = Answered"
    by (simp_all add: sec_of_def reliable_def)
  have "accepts sample_platform sample_settings sample_claims 12000000 (remembered 12000000 R) 3"
    by (rule unexpired_remembered [OF R(2,3) now(2) R(1)])
  then show ?thesis
    using require_accepts [OF sample_env R(1,2) now(1,3)] now(4) by simp
qed

lemma sample_principal_read:
  "\<exists>s. get_current_principal sample_api (at_route m n sample_http) staffed_world =
     (Inr sample_principal, staffed_world\<lparr>w_sessions := s\<rparr>)"
proof -
  obtain s where s: "require_active_jti sample_libs sample_platform sample_settings sample_claims (reliable 12000000) (sample_store 3) = (Inr 3, s)"
    using sample_required by (metis prod.collapse)
  have cred: "rq_credentials (at_route m n sample_http) = Some (''Bearer'', sample_token)"
    by (simp add: at_route_def sample_http_def)
  have bearer: "ascii_lower (lit ''Bearer'') = lit ''bearer''" by code_simp
  have env: "ae_settings sample_api = sample_settings" "ae_platform sample_api = sample_platform" "ae_libs sample_api = sample_libs"
    "ae_now sample_api = 12" "ae_session_io sample_api = reliable 12000000"
    by (simp_all add: sample_api_def)
  have short: "utf8_encode sample_token = Inr sample_token" "\<not> length sample_token > MAX_BEARER_TOKEN_BYTES"
    using sample_token_text length_fold [of sample_token] by (simp_all add: utf8_encode_ascii MAX_BEARER_TOKEN_BYTES_def)
  have "sample_principal = \<lparr>pr_user_id = ac_user_id sample_claims, pr_token_version = 3, pr_token_id = ac_token_id sample_claims,
     pr_issued_at = ac_issued_at sample_claims, pr_expires_at = ac_expires_at sample_claims\<rparr>"
    by (simp add: sample_principal_def) (simp add: sample_claims_def)
  then show ?thesis
    by (simp add: get_current_principal_def cred bearer env short sample_decoded s bindP_def staffed_world_def)
qed

lemma sample_context_read:
  assumes "w_limits w = (\<lambda>_. None)" "w_db w = staffed_db"
  shows "\<exists>ctx w'. get_authorization_context sample_api listing sample_principal w = (Inr ctx, w') \<and>
    ''users:read'' \<in> context_permissions ctx"
proof -
  obtain w' where w': "enforce_principal_rate_limit sample_api listing sample_principal w = (Inr (), w')"
    using sample_bucket(2) [OF assms(1)] by (metis prod.collapse)
  have quiet: "ae_others sample_api = undisturbed" by (simp add: sample_api_def)
  have "a_user_is_active (authority_spec staffed_db False staff_member)"
    "a_token_version (authority_spec staffed_db False staff_member) = pr_token_version sample_principal"
    by (simp_all add: authority_spec_def authority_with_def build_def staff_member_def sample_user_def sample_principal_def)
  then show ?thesis
    using staff_permissions
    by (simp add: get_authorization_context_def bindP_def sample_bucket(1) [OF assms(1)] quiet staff_loaded assms(2) w'
        undisturbed_def context_permissions_def)
qed

lemma sample_route:
  "fst (protected_route sample_api listing [USERS_READ] (\<lambda>_. returnP ()) staffed_world) = Inr ()"
proof -
  obtain s where p: "get_current_principal sample_api listing staffed_world =
     (Inr sample_principal, staffed_world\<lparr>w_sessions := s\<rparr>)"
    using sample_principal_read by blast
  obtain ctx w' where ctx: "get_authorization_context sample_api listing sample_principal (staffed_world\<lparr>w_sessions := s\<rparr>) = (Inr ctx, w')"
    "''users:read'' \<in> context_permissions ctx"
    using sample_context_read [of "staffed_world\<lparr>w_sessions := s\<rparr>"] by (auto simp: staffed_world_def)
  have "permission_value USERS_READ = ''users:read''" by code_simp
  then have "require_permissions sample_api listing All_of [USERS_READ] ctx w' = (Inr ctx, w')"
    using ctx(2) by (simp add: require_permissions_Inr)
  then show ?thesis
    by (simp add: protected_route_def bindP_def p ctx(1))
qed

end
