(* ===== verification/Api_Properties.thy ===== *)
theory Api_Properties
  imports Sample_Requests System
begin

text \<open>
  The program from its routes: what a protected route has checked when its handler runs, and
  that no request to the administration of access adds to anybody's permissions beyond those of
  the user its token stands for.
\<close>

section \<open>What a protected route has checked\<close>

text \<open>
  C37: When a protected route answers, whatever other requests did in the meantime: the bearer
  token was decoded and is in the registry; the database the route reads the authority from has
  an active user with the token's version, and the permissions the route requires are among
  those the tables of that database give the user; and the quota of the operation admitted the
  call on the counters it then found. The value is the handler's, which ran with the context of
  that user.
\<close>

theorem protected_route_needs_authority:
  assumes "protected_route env rq required handler w = (Inr x, w')" "sound_others (ae_others env)" "wf (w_db w)"
  shows "\<exists>p ctx u w3. token_accepted env rq (w_sessions w) p \<and>
    sound_step (w_db w) (w_db (authority_world env rq w)) \<and> authorized p ctx (w_db (authority_world env rq w)) u \<and>
    required \<noteq> [] \<and>
    permission_value ` set required \<subseteq> a_permissions (authority_spec (w_db (authority_world env rq w)) False u) \<and>
    (s_rate_limit_enabled (ae_settings env) \<and> operation_id rq \<noteq> ''create_authenticated_captcha'' \<longrightarrow>
       quota_charged env rq p (w_limits (ae_others env 1 (authority_world env rq w)))) \<and>
    enforce_principal_rate_limit env rq p (ae_others env 1 (authority_world env rq w)) = (Inr (), w3) \<and>
    handler ctx (ae_others env 2 w3) = (Inr x, w')"
proof -
  let ?w = "authority_world env rq w"
  obtain p ctx u w3 where run: "token_accepted env rq (w_sessions w) p" "sound_step (w_db w) (w_db ?w)"
     "authorized p ctx (w_db ?w) u" "required \<noteq> []"
     "permission_value ` set required \<subseteq> a_permissions (authority_spec (w_db ?w) False u)"
     "enforce_principal_rate_limit env rq p (ae_others env 1 ?w) = (Inr (), w3)"
     "handler ctx (ae_others env 2 w3) = (Inr x, w')"
    using protected_route_Inr [OF assms] by blast
  moreover have "s_rate_limit_enabled (ae_settings env) \<and> operation_id rq \<noteq> ''create_authenticated_captcha'' \<longrightarrow>
      quota_charged env rq p (w_limits (ae_others env 1 ?w))"
    using enforced_quota [OF run(6)] by blast
  ultimately show ?thesis by blast
qed

theorem protected_route_witness:
  "fst (protected_route sample_api listing [USERS_READ] (\<lambda>_. returnP ()) staffed_world) = Inr () \<and>
   (\<exists>p. token_accepted sample_api listing (sample_store 3) p \<and>
      quota_charged sample_api listing p (w_limits (authority_world sample_api listing staffed_world)))"
proof -
  obtain w' where w': "protected_route sample_api listing [USERS_READ] (\<lambda>_. returnP ()) staffed_world = (Inr (), w')"
    using sample_route by (metis prod.collapse)
  have env: "sound_others (ae_others sample_api)" "wf (w_db staffed_world)" "s_rate_limit_enabled (ae_settings sample_api)"
    "operation_id listing \<noteq> ''create_authenticated_captcha''" "w_sessions staffed_world = sample_store 3"
    by (simp_all add: sample_api_def sample_settings_def staffed_world_def staffed_wf operation_id_def at_route_def
        sound_others_def undisturbed_def sound_step_refl)
  have "ae_others sample_api 1 v = v" for v
    by (simp add: sample_api_def)
  then show ?thesis
    using protected_route_needs_authority [OF w' env(1,2)] sample_route env(3-5) by auto
qed

subsection \<open>The requests that change access\<close>

datatype admin_request =
    Post_create_role uuid role_create_request
  | Post_update_role uuid role_update_request int
  | Post_disable_role uuid int
  | Post_enable_role uuid int
  | Post_delete_role int uuid int
  | Post_bind_permissions int uuid "uuid list" int
  | Post_unbind_permissions int uuid "uuid list" int
  | Post_bind_roles int uuid "uuid list"
  | Post_unbind_roles int uuid "uuid list"
  | Post_disable_user uuid
  | Post_enable_user uuid
  | Post_revoke_sessions uuid

definition ended :: "(failure + 'a) \<times> world \<Rightarrow> failure option \<times> world" where
  "ended res = (case fst res of Inl e \<Rightarrow> Some e | Inr _ \<Rightarrow> None, snd res)"

fun send :: "api_env \<Rightarrow> http_request \<Rightarrow> admin_request \<Rightarrow> world \<Rightarrow> failure option \<times> world" where
  "send env rq (Post_create_role i body) w = ended (create_role_route env rq i body w)"
| "send env rq (Post_update_role i body v) w = ended (update_role_route env rq i body v w)"
| "send env rq (Post_disable_role i v) w = ended (disable_role_route env rq i v w)"
| "send env rq (Post_enable_role i v) w = ended (enable_role_route env rq i v w)"
| "send env rq (Post_delete_role now i v) w = ended (delete_role_route env rq now i v w)"
| "send env rq (Post_bind_permissions now i ps v) w = ended (bind_role_permissions_route env rq now i ps v w)"
| "send env rq (Post_unbind_permissions now i ps v) w = ended (unbind_role_permissions_route env rq now i ps v w)"
| "send env rq (Post_bind_roles now u rs) w = ended (bind_user_roles_route env rq now u rs w)"
| "send env rq (Post_unbind_roles now u rs) w = ended (unbind_user_roles_route env rq now u rs w)"
| "send env rq (Post_disable_user u) w = ended (disable_user_route env rq u w)"
| "send env rq (Post_enable_user u) w = ended (enable_user_route env rq u w)"
| "send env rq (Post_revoke_sessions u) w = ended (revoke_user_sessions_route env rq u w)"

fun call_of :: "admin_request \<Rightarrow> rbac_call" where
  "call_of (Post_create_role i body) = Create_role i body"
| "call_of (Post_update_role i body v) = Update_role i body v"
| "call_of (Post_disable_role i v) = Set_role_active i False v"
| "call_of (Post_enable_role i v) = Set_role_active i True v"
| "call_of (Post_delete_role now i v) = Soft_delete_role now i v"
| "call_of (Post_bind_permissions now i ps v) = Change_role_permissions now i ps ''bind'' v"
| "call_of (Post_unbind_permissions now i ps v) = Change_role_permissions now i ps ''unbind'' v"
| "call_of (Post_bind_roles now u rs) = Change_user_roles now u rs ''bind''"
| "call_of (Post_unbind_roles now u rs) = Change_user_roles now u rs ''unbind''"
| "call_of (Post_disable_user u) = Update_user_status u False"
| "call_of (Post_enable_user u) = Update_user_status u True"
| "call_of (Post_revoke_sessions u) = Revoke_user_sessions u"

text \<open>A route that runs the service leaves the database as the call of the service does.\<close>

definition runs_call :: "unicode_db \<Rightarrow> rbac_call \<Rightarrow> (authorization_context \<Rightarrow> (world, 'a) proc) \<Rightarrow> bool" where
  "runs_call uc c handler \<longleftrightarrow> (\<forall>ctx w. w_db (snd (handler ctx w)) = snd (run_call uc ctx c (w_db w)))"

lemma runs_call_in_db:
  "(\<And>ctx db. run_call uc ctx c db = drop_value (f ctx db)) \<Longrightarrow>
     runs_call uc c (\<lambda>ctx. bindP (in_db (f ctx)) (\<lambda>x. returnP (g ctx x)))"
  by (auto simp: runs_call_def drop_value_def bindP_def split: prod.split sum.split)

lemma runs_call_revoke:
  "runs_call uc (Revoke_user_sessions u)
     (\<lambda>ctx. bindP (bindP (in_db (revoke_user_sessions uc ctx u)) (\<lambda>_. returnP y)) (\<lambda>x. returnP (g ctx x)))"
  by (auto simp: runs_call_def drop_value_def bindP_def split: prod.split sum.split)

lemmas route_defs =
  create_role_route_def update_role_route_def disable_role_route_def enable_role_route_def delete_role_route_def
  bind_role_permissions_route_def unbind_role_permissions_route_def bind_user_roles_route_def
  unbind_user_roles_route_def disable_user_route_def enable_user_route_def revoke_user_sessions_route_def

lemma token_accepted_at_route [simp]: "token_accepted env (at_route m n rq) s p = token_accepted env rq s p"
  by (simp add: token_accepted_def at_route_def)

text \<open>\<open>earned\<close>: a permission was there, or belongs to another user whose token was accepted.\<close>

definition earned :: "api_env \<Rightarrow> http_request \<Rightarrow> world \<Rightarrow> user \<Rightarrow> string set" where
  "earned env rq w u =
     a_permissions (authority_spec (w_db w) False u) \<union>
     {k. \<exists>p au. token_accepted env rq (w_sessions w) p \<and> au \<in> set (db_users (w_db w)) \<and> live_user au \<and> u_is_active au \<and>
        u_id au = pr_user_id p \<and> u_token_version au = pr_token_version p \<and> u_id au \<noteq> u_id u \<and>
        k \<in> a_permissions (authority_spec (w_db w) False au)}"

lemma same_access_earned:
  "same_access (w_db w) db \<Longrightarrow> u_id u' = u_id u \<Longrightarrow> a_permissions (authority_spec db False u') \<subseteq> earned env rq w u"
  by (auto simp: authority_spec_active same_access_frame earned_def)

lemma handler_contained:
  assumes auth: "authorized p ctx (w_db w) au" "token_accepted env rq (w_sessions w) p" "wf (w_db w)"
    and run: "handler ctx w1 = (r, w')" "w_db w1 = w_db w" "runs_call uc c handler"
    and fresh: "fresh_id c (w_db w)" "u_id u' = u_id u"
  shows "a_permissions (authority_spec (w_db w') False u') \<subseteq> earned env rq w u"
proof -
  have "run_call uc ctx c (w_db w) = (fst (run_call uc ctx c (w_db w)), w_db w')"
    using run unfolding runs_call_def by (metis prod.collapse snd_conv)
  from run_call_contained [OF auth(3) fresh(1) this] show ?thesis
  proof (elim disjE exE conjE)
    assume "same_access (w_db w) (w_db w')"
    then show ?thesis using fresh(2) by (rule same_access_earned)
  next
    fix bu assume bu: "current_actor (w_db w) ctx bu" "contained (authority_spec (w_db w) False bu) (w_db w) (w_db w')"
    have "c_principal ctx = p"
      using auth(1) by (simp add: authorized_def)
    then have "a_permissions (authority_spec (w_db w) False bu) \<subseteq> earned env rq w u" if "u_id bu \<noteq> u_id u"
      using that bu(1) auth(2) unfolding earned_def current_actor_def by blast
    moreover have "a_permissions (authority_spec (w_db w) False u) \<subseteq> earned env rq w u"
      by (simp add: earned_def)
    ultimately show ?thesis
      using contained_authority(1) [OF bu(2) fresh(2)] by (auto split: if_splits)
  qed
qed

lemma route_contained:
  assumes "ended (protected_route env (at_route m n rq) required handler w) = (res, w')"
    and "runs_call uc c handler" "ae_others env = undisturbed" "wf (w_db w)" "fresh_id c (w_db w)" "u_id u' = u_id u"
  shows "a_permissions (authority_spec (w_db w') False u') \<subseteq> earned env rq w u"
proof -
  obtain r where "protected_route env (at_route m n rq) required handler w = (r, w')"
    using assms(1) by (cases "protected_route env (at_route m n rq) required handler w") (simp add: ended_def)
  from protected_route_cases [OF this assms(3,4)] show ?thesis
  proof (elim disjE exE conjE)
    assume "w_db w' = w_db w"
    then show ?thesis using assms(6) by (intro same_access_earned) simp_all
  next
    fix e assume "w_db w' = add_rbac_event e (w_db w)"
    then show ?thesis using assms(6) by (intro same_access_earned) simp_all
  next
    fix p ctx au w1
    assume "token_accepted env (at_route m n rq) (w_sessions w) p" "authorized p ctx (w_db w) au"
      "w_db w1 = w_db w" "handler ctx w1 = (r, w')"
    then show ?thesis
      using handler_contained assms(2,4-6) by (metis token_accepted_at_route)
  qed
qed

subsection \<open>No request escalates privileges\<close>

text \<open>
  C38: No request to the administration of access escalates privileges, whatever the request
  holds: a permission a user has after it was there before, or it is one of another user, active
  and of the current version, whose access token the request carried and the registry accepted.
\<close>

theorem requests_do_not_escalate:
  assumes "send env rq c w = (res, w')" "ae_others env = undisturbed" "wf (w_db w)" "fresh_id (call_of c) (w_db w)"
    and "u_id u' = u_id u"
  shows "a_permissions (authority_spec (w_db w') False u') \<subseteq> earned env rq w u"
  using assms
  by (cases c; hypsubst)
     (simp_all only: send.simps call_of.simps route_defs answering_def,
      (erule route_contained [where uc = "pf_unicode (ae_platform env)"],
       rule runs_call_revoke runs_call_in_db, (rule run_call.simps)?, assumption+)+)

theorem requests_witness:
  "a_permissions (authority_spec (w_db (snd (send sample_api sample_http (Post_bind_roles 5 BOB [R_EDITOR]) staffed_world)))
      False (sample_user BOB ''bob'' False))
    \<subseteq> earned sample_api sample_http staffed_world (sample_user BOB ''bob'' False)"
  using requests_do_not_escalate [OF surjective_pairing, of sample_api staffed_world "Post_bind_roles 5 BOB [R_EDITOR]"
      "sample_user BOB ''bob'' False" "sample_user BOB ''bob'' False" sample_http]
  by (simp add: sample_api_def staffed_world_def staffed_wf)

end
