(* ===== verification/Eviction.thy ===== *)
theory Eviction
  imports Session_Properties
begin

text \<open>
  The loop at the end of \<open>ACTIVATE\<close> (\<open>app/core/security/tokens.py\<close>) as the script has it, without
  a bound on its turns: \<open>while ZCARD(order) > maximum do remove the oldest\<close>. It ends on every
  store, and does what \<open>evict\<close>, the bounded loop of the model, does with the cardinality as its
  bound. The script runs it with a positive \<open>maximum\<close>.
\<close>

definition evict_oldest :: "int \<Rightarrow> session_keys \<Rightarrow> (redis, unit) proc" where
  "evict_oldest now keys =
     bindP (r_zrange now (fst (snd keys))) (\<lambda>entries. remove_session now keys (fst (hd entries)))"

partial_function (option) evict_loop ::
    "int \<Rightarrow> session_keys \<Rightarrow> int \<Rightarrow> redis \<Rightarrow> ((failure + unit) \<times> redis) option" where
  "evict_loop now keys maximum s =
     (case r_zcard now (fst (snd keys)) s of
        (Inl e, s1) \<Rightarrow> Some (Inl e, s1)
      | (Inr members, s1) \<Rightarrow>
          if members > maximum
          then (case evict_oldest now keys s1 of
                  (Inl e, s2) \<Rightarrow> Some (Inl e, s2)
                | (Inr _, s2) \<Rightarrow> evict_loop now keys maximum s2)
          else Some (Inr (), s1))"

text \<open>The members of the order set, as the commands see them.\<close>

definition ordered :: "int \<Rightarrow> session_keys \<Rightarrow> redis \<Rightarrow> (string \<times> int) list" where
  "ordered now keys s =
     (case r_lookup now (fst (snd keys)) s of Some (R_Zset z, _) \<Rightarrow> z | _ \<Rightarrow> [])"

lemma zset_reads:
  assumes "r_zset now k s = (Inr (z, e), s1)"
  shows "s1 = s \<and> z = (case r_lookup now k s of Some (R_Zset z, _) \<Rightarrow> z | _ \<Rightarrow> [])"
  using assms by (auto simp: r_zset_def split: option.splits prod.splits redis_value.splits)

lemma zrem_members:
  assumes "r_zrem now k m s = (Inr x, s1)"
  shows "(case r_lookup now k s1 of Some (R_Zset z, _) \<Rightarrow> z | _ \<Rightarrow> []) =
     filter (\<lambda>y. fst y \<noteq> m) (case r_lookup now k s of Some (R_Zset z, _) \<Rightarrow> z | _ \<Rightarrow> [])"
  using assms
  by (auto simp: r_zrem_def bindP_Inr r_zset_def write_zset_def r_lookup_def r_put_def r_del_def
      split: option.splits prod.splits redis_value.splits if_splits intro!: filter_True [symmetric])

lemma hdel_elsewhere:
  assumes "r_hdel now k f s = (Inr x, s1)"
  shows "(case r_lookup now j s1 of Some (R_Zset z, _) \<Rightarrow> z | _ \<Rightarrow> []) =
     (case r_lookup now j s of Some (R_Zset z, _) \<Rightarrow> z | _ \<Rightarrow> [])"
  using assms
  by (auto simp: r_hdel_def bindP_Inr r_hash_def write_hash_def r_lookup_def r_put_def r_del_def
      split: option.splits prod.splits redis_value.splits if_splits)

lemma zrem_elsewhere:
  assumes "r_zrem now k m s = (Inr x, s1)" "j \<noteq> k"
  shows "r_lookup now j s1 = r_lookup now j s"
proof -
  obtain z e s0 where "r_zset now k s = (Inr (z, e), s0)" "s1 \<in> {s0, r_del k s0, r_put k (R_Zset (filter (\<lambda>x. fst x \<noteq> m) z)) e s0}"
    using assms(1) by (auto simp: r_zrem_def bindP_Inr write_zset_def split: if_splits)
  with zset_reads [OF this(1)] assms(2) show ?thesis
    by (auto simp: r_lookup_def r_put_def r_del_def)
qed

definition readable_zset :: "int \<Rightarrow> string \<Rightarrow> redis \<Rightarrow> bool" where
  "readable_zset now k s \<longleftrightarrow> (case r_lookup now k s of None \<Rightarrow> True | Some (R_Zset _, _) \<Rightarrow> True | _ \<Rightarrow> False)"

lemma readable_zset_iff: "readable_zset now k s \<longleftrightarrow> (\<exists>z. r_zset now k s = (Inr z, s))"
  by (auto simp: readable_zset_def r_zset_def split: option.splits prod.splits redis_value.splits)

lemma zcard_readable:
  "readable_zset now (fst (snd keys)) s \<Longrightarrow> r_zcard now (fst (snd keys)) s = (Inr (int (length (ordered now keys s))), s)"
  by (auto simp: readable_zset_iff r_zcard_def bindP_def ordered_def dest: zset_reads split: prod.splits)

lemma zrem_readable: "r_zrem now k m s = (Inr x, s1) \<Longrightarrow> readable_zset now k s1"
  by (auto simp: r_zrem_def bindP_Inr r_zset_def write_zset_def r_lookup_def r_put_def r_del_def readable_zset_def
      split: option.splits prod.splits redis_value.splits if_splits)

lemma remove_session_order:
  assumes "remove_session now keys f s = (Inr x, s')"
  shows "ordered now keys s' = filter (\<lambda>y. fst y \<noteq> f) (ordered now keys s)" "readable_zset now (fst (snd keys)) s'"
proof -
  obtain a b c where keys: "keys = (a, b, c)" by (cases keys)
  obtain s1 s2 where run: "r_hdel now a f s = (Inr (), s1)" "r_zrem now b f s1 = (Inr (), s2)" "r_zrem now c f s2 = (Inr (), s')"
    using assms by (auto simp: keys remove_session_def bindP_Inr)
  have last: "ordered now keys s' = filter (\<lambda>y. fst y \<noteq> f) (ordered now keys s2) \<or> ordered now keys s' = ordered now keys s2"
    using zrem_members [OF run(3)] zrem_elsewhere [OF run(3), of b] by (cases "b = c") (auto simp: ordered_def keys)
  have "ordered now keys s2 = filter (\<lambda>y. fst y \<noteq> f) (ordered now keys s)"
    using zrem_members [OF run(2)] hdel_elsewhere [OF run(1), of b] by (simp add: ordered_def keys)
  then show "ordered now keys s' = filter (\<lambda>y. fst y \<noteq> f) (ordered now keys s)"
    using last by auto
  show "readable_zset now (fst (snd keys)) s'"
    using zrem_readable [OF run(3)] zrem_readable [OF run(2)] zrem_elsewhere [OF run(3), of b]
    by (cases "b = c") (auto simp: keys readable_zset_def)
qed

lemma evict_oldest_order:
  assumes "evict_oldest now keys s = (Inr x, s')" "ordered now keys s = y # ys"
  shows "ordered now keys s' = filter (\<lambda>w. fst w \<noteq> fst y) ys \<and> readable_zset now (fst (snd keys)) s'"
proof -
  obtain entries s1 where "r_zrange now (fst (snd keys)) s = (Inr entries, s1)"
    and run: "remove_session now keys (fst (hd entries)) s1 = (Inr x, s')"
    using assms(1) by (auto simp: evict_oldest_def bindP_Inr)
  then have "s1 = s" "entries = ordered now keys s"
    by (auto simp: r_zrange_def bindP_Inr ordered_def dest: zset_reads)
  with run have "remove_session now keys (fst y) s = (Inr x, s')"
    using assms(2) by simp
  from remove_session_order [OF this] assms(2) show ?thesis by simp
qed

lemma evict_Suc:
  "evict (Suc n) now keys maximum s =
     (case r_zcard now (fst (snd keys)) s of
        (Inl e, s1) \<Rightarrow> (Inl e, s1)
      | (Inr members, s1) \<Rightarrow>
          if members > maximum
          then (case evict_oldest now keys s1 of (Inl e, s2) \<Rightarrow> (Inl e, s2) | (Inr _, s2) \<Rightarrow> evict n now keys maximum s2)
          else (Inr (), s1))"
  by (auto simp: bindP_def evict_oldest_def split: prod.split sum.split)

text \<open>One run of the loop, by induction on the number of members it finds.\<close>

definition loop_outcome :: "int \<Rightarrow> session_keys \<Rightarrow> int \<Rightarrow> redis \<Rightarrow> (failure + unit) \<times> redis \<Rightarrow> bool" where
  "loop_outcome now keys maximum s out \<longleftrightarrow>
     (\<forall>n. readable_zset now (fst (snd keys)) s \<longrightarrow> length (ordered now keys s) \<le> n \<longrightarrow> evict n now keys maximum s = out) \<and>
     (fst out = Inr () \<longrightarrow> int (length (ordered now keys (snd out))) \<le> maximum) \<and>
     (fst out = Inr () \<longrightarrow> distinct (map fst (ordered now keys s)) \<longrightarrow>
        ordered now keys (snd out) = drop (length (ordered now keys s) - nat maximum) (ordered now keys s))"

lemma loop_outcome_step:
  assumes "0 \<le> maximum" "int (length (ordered now keys s)) > maximum" "readable_zset now (fst (snd keys)) s"
    and "evict_oldest now keys s = (Inr x, s2)" "loop_outcome now keys maximum s2 out"
  shows "loop_outcome now keys maximum s out"
proof -
  obtain y ys where y: "ordered now keys s = y # ys"
    using assms(1,2) by (cases "ordered now keys s") auto
  have later: "ordered now keys s2 = filter (\<lambda>w. fst w \<noteq> fst y) ys" "readable_zset now (fst (snd keys)) s2"
    using evict_oldest_order [OF assms(4) y] by auto
  then have len: "length (ordered now keys s2) \<le> length ys" by simp
  note count = zcard_readable [OF assms(3)]
  have bounded: "evict n now keys maximum s = out" if "length (ordered now keys s) \<le> n" for n
  proof -
    have "n \<noteq> 0" using that y by auto
    then obtain m where n: "n = Suc m" using not0_implies_Suc by blast
    then have "evict m now keys maximum s2 = out"
      using that len y later(2) assms(5) by (auto simp: loop_outcome_def)
    then show ?thesis
      unfolding n evict_Suc using assms(2,4) by (simp add: count)
  qed
  have rest: "ordered now keys s2 = ys" if "distinct (map fst (ordered now keys s))"
  proof -
    have "fst y \<notin> fst ` set ys" using that y by simp
    then show ?thesis
      unfolding later(1) filter_id_conv by (metis imageI)
  qed
  have "drop (length (ordered now keys s) - nat maximum) (ordered now keys s) = drop (length ys - nat maximum) ys"
    using assms(1,2) y by (simp add: Suc_diff_le nat_le_iff)
  then show ?thesis
    using bounded rest assms(5) y unfolding loop_outcome_def by auto
qed

section \<open>The loop ends\<close>

text \<open>
  C39: On every store and for every bound that is not negative the loop of \<open>ACTIVATE\<close> ends, with
  what the bounded loop of the model computes. If no command failed, at most \<open>maximum\<close> members
  are left in the order set, and they are the newest ones.
\<close>

theorem eviction_ends:
  assumes "0 \<le> maximum"
  shows "\<exists>out. evict_loop now keys maximum s = Some out \<and> loop_outcome now keys maximum s out"
proof (induction "length (ordered now keys s)" arbitrary: s rule: less_induct)
  case less
  let ?order = "fst (snd keys)" and ?z = "ordered now keys s"
  show ?case
  proof (cases "readable_zset now ?order s")
    case False
    then have "r_zcard now ?order s = (Inl Redis_error, s)"
      by (auto simp: r_zcard_def bindP_def r_zset_def readable_zset_def split: option.splits redis_value.splits)
    then show ?thesis
      using False by (subst evict_loop.simps) (simp add: loop_outcome_def)
  next
    case True
    then have count: "r_zcard now ?order s = (Inr (int (length ?z)), s)"
      by (rule zcard_readable)
    show ?thesis
    proof (cases "int (length ?z) > maximum")
      case small: False
      have "evict n now keys maximum s = (Inr (), s)" for n
        using count small by (cases n) (simp_all add: evict_Suc del: evict.simps(2))
      then have "loop_outcome now keys maximum s (Inr (), s)"
        using small by (simp add: loop_outcome_def)
      then show ?thesis
        using count small by (subst evict_loop.simps) simp
    next
      case big: True
      obtain r s2 where one: "evict_oldest now keys s = (r, s2)" by fastforce
      show ?thesis
      proof (cases r)
        case (Inl e)
        have "evict n now keys maximum s = (Inl e, s2)" if "length ?z \<le> n" for n
          using that big assms count one Inl by (cases n) (simp_all add: evict_Suc del: evict.simps(2))
        then show ?thesis
          using count big one Inl by (subst evict_loop.simps) (simp add: loop_outcome_def)
      next
        case (Inr x)
        then have "length (ordered now keys s2) < length ?z"
          using evict_oldest_order [of now keys s x s2] one big assms by (cases ?z) (auto simp: less_Suc_eq_le)
        from less [OF this] obtain out where "evict_loop now keys maximum s2 = Some out" "loop_outcome now keys maximum s2 out"
          by blast
        then show ?thesis
          using loop_outcome_step [OF assms big True, of x s2 out] count big one Inr
          by (subst evict_loop.simps) auto
      qed
    qed
  qed
qed

theorem eviction_witness:
  "\<exists>out. evict_loop 0 (''r'', ''o'', ''e'') 1 ((\<lambda>_. None)(''o'' \<mapsto> (R_Zset [(''a'', 1), (''b'', 2)], None))) = Some out \<and>
     fst out = Inr () \<and> ordered 0 (''r'', ''o'', ''e'') (snd out) = [(''b'', 2)]"
proof -
  let ?s = "(\<lambda>_. None)(''o'' \<mapsto> (R_Zset [(''a'', 1), (''b'', 2)], None)) :: redis"
  obtain out where out: "evict_loop 0 (''r'', ''o'', ''e'') 1 ?s = Some out" "loop_outcome 0 (''r'', ''o'', ''e'') 1 ?s out"
    using eviction_ends [of 1 0 "(''r'', ''o'', ''e'')" ?s] by auto
  have s: "ordered 0 (''r'', ''o'', ''e'') ?s = [(''a'', 1), (''b'', 2)]" "readable_zset 0 ''o'' ?s"
    by (simp_all add: ordered_def readable_zset_def r_lookup_def)
  have "fst (evict 2 0 (''r'', ''o'', ''e'') 1 ?s) = Inr ()" by code_simp
  moreover have "evict 2 0 (''r'', ''o'', ''e'') 1 ?s = out"
    using out(2) s by (simp add: loop_outcome_def)
  ultimately show ?thesis
    using out s by (simp add: loop_outcome_def)
qed

end
