(* ===== verification/Business_Audit.thy ===== *)
theory Business_Audit
  imports Config Schema Procs
begin

text \<open>
  The business audit: \<open>app/core/business_audit.py\<close> (the catalogue of actions and the rules for
  payloads), \<open>app/models/business_audit.py\<close> (the constructor of a row and the checks of its
  table) and \<open>app/services/business_audit.py\<close> (the writer). Collections the source holds in a
  \<open>frozenset\<close> are lists here; the type checks of the constructors are the types. The parser of
  \<open>ipaddress\<close> is an argument.
\<close>

subsection \<open>Names and identifiers\<close>

definition DOMAIN_RE :: rx where
  "DOMAIN_RE = Cat (Cls is_lower) (Upto 63 (Cls (\<lambda>c. is_lower c \<or> is_digit c \<or> c = 95)))"

definition BUSINESS_AUDIT_ACTION_PATTERN :: rx where
  "BUSINESS_AUDIT_ACTION_PATTERN =
     (let word = Cat (Cls is_lower) (Star (Cls (\<lambda>c. is_lower c \<or> is_digit c \<or> c = 95)));
          part = Cat (Cls (\<lambda>c. c = 46)) word in
      Cat word (Cat part (Cat part (Star part))))"

definition BUSINESS_IDENTIFIER_RE :: rx where
  "BUSINESS_IDENTIFIER_RE = Cat (Cls is_alnum_ascii) (Upto 127 (Cls (\<lambda>c. is_alnum_ascii c \<or> chr_in '':_-'' c)))"

datatype business_outcome = Outcome_succeeded | Outcome_failed | Outcome_denied

fun outcome_value :: "business_outcome \<Rightarrow> string" where
  "outcome_value Outcome_succeeded = ''succeeded''"
| "outcome_value Outcome_failed = ''failed''"
| "outcome_value Outcome_denied = ''denied''"

datatype business_actor_type = Business_user | Business_service | Business_system | Business_job | Business_operator

fun actor_type_value :: "business_actor_type \<Rightarrow> string" where
  "actor_type_value Business_user = ''user''"
| "actor_type_value Business_service = ''service''"
| "actor_type_value Business_system = ''system''"
| "actor_type_value Business_job = ''job''"
| "actor_type_value Business_operator = ''operator''"

definition require_business_machine_name :: "string \<Rightarrow> string \<Rightarrow> failure + string" where
  "require_business_machine_name value field =
     (if fullmatch DOMAIN_RE (lit value) then Inr value else Inl (Value_error (''invalid business audit '' @ field)))"

definition require_business_identifier :: "string \<Rightarrow> string \<Rightarrow> failure + string" where
  "require_business_identifier value field =
     (if fullmatch BUSINESS_IDENTIFIER_RE (lit value) then Inr value
      else Inl (Value_error (''invalid business audit '' @ field)))"

definition require_business_event_id :: "uuid \<Rightarrow> failure + uuid" where
  "require_business_event_id value =
     (if uuid_version value = Some 4 then Inr value
      else Inl (Value_error ''business audit event ID must be UUIDv4''))"

subsection \<open>What a payload may not hold\<close>

text \<open>
  \<open>(?<!before) r (?!after)\<close> searched in a text: every text \<open>r\<close> can match between a place that
  is not behind a \<open>before\<close> character and one that is not before an \<open>after\<close> character.
\<close>

definition not_next :: "(codepoint \<Rightarrow> bool) \<Rightarrow> pystr \<Rightarrow> bool" where
  "not_next f s = (case s of [] \<Rightarrow> True | c # _ \<Rightarrow> \<not> f c)"

fun guarded_matches ::
    "(codepoint \<Rightarrow> bool) \<Rightarrow> rx \<Rightarrow> (codepoint \<Rightarrow> bool) \<Rightarrow> codepoint option \<Rightarrow> pystr \<Rightarrow> pystr list" where
  "guarded_matches before r after b [] = []"
| "guarded_matches before r after b (c # s) =
     (if (case b of None \<Rightarrow> True | Some d \<Rightarrow> \<not> before d)
      then map (\<lambda>q. take (length (c # s) - length (snd q)) (c # s))
             (filter (\<lambda>q. not_next after (snd q)) (ends (\<lambda>_. False) r (b, c # s)))
      else []) @ guarded_matches before r after (Some c) s"

definition ci_alnum :: "codepoint \<Rightarrow> bool" where
  "ci_alnum c \<longleftrightarrow> ci_letter c \<or> is_digit c"

definition EMAIL_ATOM :: "codepoint \<Rightarrow> bool" where
  "EMAIL_ATOM c \<longleftrightarrow> ci_alnum c \<or> chr_in [CHR ''!'', CHR ''#'', CHR ''$'', CHR ''%'', CHR ''&'', CHR 39, CHR ''*'', CHR ''+'',
     CHR ''/'', CHR ''='', CHR ''?'', CHR ''^'', CHR ''_'', CHR 96, CHR ''{'', CHR ''|'', CHR ''}'', CHR ''~'', CHR ''-''] c"

definition EMAIL_RE :: rx where
  "EMAIL_RE = Seq
     [Plus (Cls EMAIL_ATOM), Star (Cat (Cls (\<lambda>c. c = 46)) (Plus (Cls EMAIL_ATOM))), Cls (\<lambda>c. c = 64),
      Plus (Seq [Cls ci_alnum, Opt (Cat (Upto 61 (Cls (\<lambda>c. ci_alnum c \<or> c = 45))) (Cls ci_alnum)), Cls (\<lambda>c. c = 46)]),
      Rep 2 63 (Cls ci_letter)]"

definition contains_email :: "pystr \<Rightarrow> bool" where
  "contains_email s \<longleftrightarrow>
     guarded_matches (\<lambda>c. EMAIL_ATOM c \<or> c = 46) EMAIL_RE (\<lambda>c. ci_alnum c \<or> c = 46 \<or> c = 45) None s \<noteq> []"

definition IPV4_CANDIDATE_RE :: rx where
  "IPV4_CANDIDATE_RE =
     (let octet = Rep 1 3 (Cls is_digit); part = Cat octet (Cls (\<lambda>c. c = 46)) in Seq [part, part, part, octet])"

definition ipv4_candidates :: "pystr \<Rightarrow> pystr list" where
  "ipv4_candidates s =
     (let beside = (\<lambda>c. is_alnum_ascii c \<or> c = 95 \<or> c = 46) in guarded_matches beside IPV4_CANDIDATE_RE beside None s)"

text \<open>The two lookaheads: a maximal run of 2 to 39 such characters with two colons.\<close>

definition is_hex_colon :: "codepoint \<Rightarrow> bool" where
  "is_hex_colon c \<longleftrightarrow> is_digit c \<or> (97 \<le> c \<and> c \<le> 102) \<or> (65 \<le> c \<and> c \<le> 70) \<or> c = 58"

definition ipv6_candidates :: "pystr \<Rightarrow> pystr list" where
  "ipv6_candidates s =
     filter (\<lambda>run. 2 \<le> length (filter (\<lambda>c. c = 58) run))
       (guarded_matches is_hex_colon (Rep 2 39 (Cls is_hex_colon)) is_hex_colon None s)"

definition contains_network_identifier :: "(pystr \<Rightarrow> pystr option) \<Rightarrow> pystr \<Rightarrow> bool" where
  "contains_network_identifier ip s \<longleftrightarrow>
     ip s \<noteq> None \<or> list_ex (\<lambda>m. ip m \<noteq> None) (ipv4_candidates s) \<or> list_ex (\<lambda>m. ip m \<noteq> None) (ipv6_candidates s)"

definition FORBIDDEN_BUSINESS_KEYS :: "pystr list" where
  "FORBIDDEN_BUSINESS_KEYS = map lit
     [''address'', ''bank_account'', ''body'', ''card_number'', ''customer_text'', ''display_name'', ''headers'',
      ''ip'', ''ip_address'', ''note'', ''phone'', ''postal_address'', ''query'', ''query_string'', ''request_body'',
      ''response_body'', ''user_agent'']"

definition FORBIDDEN_BUSINESS_SUFFIXES :: "pystr list" where
  "FORBIDDEN_BUSINESS_SUFFIXES = map lit
     [''_address'', ''_bank_account'', ''_card_number'', ''_customer_text'', ''_display_name'', ''_ip'', ''_ip_address'',
      ''_note'', ''_phone'', ''_user_agent'']"

definition forbidden_business_key :: "unicode_db \<Rightarrow> pystr \<Rightarrow> bool" where
  "forbidden_business_key uc key \<longleftrightarrow>
     (let normalized = map (\<lambda>c. if c = 45 then 95 else c) (uc_casefold uc key)
      in normalized \<in> set FORBIDDEN_BUSINESS_KEYS \<or> list_ex (ends_with normalized) FORBIDDEN_BUSINESS_SUFFIXES)"

text \<open>
  The walk over a payload. It enters mappings, lists and tuples; a value under a key that is no
  string, a UUID, a datetime or an \<open>Enum\<close> is not looked into.
\<close>

fun reject_business_sensitive_data ::
    "unicode_db \<Rightarrow> (pystr \<Rightarrow> pystr option) \<Rightarrow> audit_value \<Rightarrow> failure + unit" where
  "reject_business_sensitive_data uc ip (A_Map items) =
     bindE (mapE (\<lambda>item.
       case fst item of
         None \<Rightarrow> Inr ()
       | Some key \<Rightarrow>
           if forbidden_business_key uc key
           then Inl (Value_error ''business audit payload contains forbidden data'')
           else reject_business_sensitive_data uc ip (snd item)) items) (\<lambda>_. Inr ())"
| "reject_business_sensitive_data uc ip (A_Seq xs) =
     bindE (mapE (\<lambda>x. reject_business_sensitive_data uc ip x) xs) (\<lambda>_. Inr ())"
| "reject_business_sensitive_data uc ip (A_Str s) =
     (if contains_email s then Inl (Value_error ''business audit payload contains an email address'')
      else if contains_network_identifier ip s
      then Inl (Value_error ''business audit payload contains a network identifier'')
      else Inr ())"
| "reject_business_sensitive_data uc ip _ = Inr ()"

text \<open>\<open>json.dumps(sanitized, ensure_ascii=False, sort_keys=True)\<close>, with the default separators.\<close>

fun join_text :: "pystr \<Rightarrow> pystr list \<Rightarrow> pystr" where
  "join_text sep [] = []"
| "join_text sep [s] = s"
| "join_text sep (s # rest) = s @ sep @ join_text sep rest"

fun dumps_json :: "json \<Rightarrow> pystr" where
  "dumps_json J_Null = lit ''null''"
| "dumps_json (J_Bool b) = (if b then lit ''true'' else lit ''false'')"
| "dumps_json (J_Int i) = encode_int i"
| "dumps_json (J_Float text) = lit text"
| "dumps_json (J_Str s) = encode_string s"
| "dumps_json (J_List xs) = [91] @ join_text [44, 32] (map dumps_json xs) @ [93]"
| "dumps_json (J_Obj members) =
     [123] @ join_text [44, 32] (map snd (sort_key fst
        (map (\<lambda>(k, v). (k, encode_string k @ [58, 32] @ dumps_json v)) members))) @ [125]"

definition sanitize_business_payload ::
    "unicode_db \<Rightarrow> (pystr \<Rightarrow> pystr option) \<Rightarrow> audit_value option \<Rightarrow> int \<Rightarrow> failure + json option" where
  "sanitize_business_payload uc ip state max_bytes =
     (case state of
        None \<Rightarrow> Inr None
      | Some value \<Rightarrow>
          bindE (reject_business_sensitive_data uc ip value) (\<lambda>_.
          bindE (sanitize_audit_state uc (Some value)) (\<lambda>sanitized.
          case sanitized of
            None \<Rightarrow> Inl (Runtime_error ''AssertionError'')
          | Some j \<Rightarrow>
              bindE (utf8_length (dumps_json j)) (\<lambda>n.
              if n > max_bytes then Inl (Value_error ''business audit payload exceeds its size limit'')
              else Inr (Some j)))))"

definition MAX_BUSINESS_AUDIT_CONTEXT_BYTES :: int where "MAX_BUSINESS_AUDIT_CONTEXT_BYTES = 4 * 1024"
definition MAX_BUSINESS_STATE_BYTES :: int where "MAX_BUSINESS_STATE_BYTES = 16 * 1024"

subsection \<open>Actors, actions and facts\<close>

record business_actor =
  ba_actor_type :: business_actor_type
  ba_id :: "string option"

definition new_business_actor :: "business_actor_type \<Rightarrow> string option \<Rightarrow> failure + business_actor" where
  "new_business_actor actor_type i =
     bindE (if actor_type = Business_system
            then raise_unless (i = None) (Value_error ''system business audit actor must not have an ID'')
            else (case i of
              None \<Rightarrow> Inl (Value_error ''non-system business audit actor requires an ID'')
            | Some t \<Rightarrow> bindE (require_business_identifier t ''actor ID'') (\<lambda>_. Inr ()))) (\<lambda>_.
       Inr \<lparr>ba_actor_type = actor_type, ba_id = i\<rparr>)"

record business_action_spec =
  bs_domain :: string
  bs_action :: string
  bs_resource_type :: string
  bs_allowed_outcomes :: "business_outcome list"
  bs_reason_codes :: "string list"
  bs_actor_types :: "business_actor_type list"
  bs_before_fields :: "pystr list"
  bs_after_fields :: "pystr list"
  bs_context_fields :: "pystr list"
  bs_schema_version :: int

text \<open>\<open>__post_init__\<close>: a specification that is accepted is the one that was given.\<close>

definition new_business_action_spec ::
    "unicode_db \<Rightarrow> (pystr \<Rightarrow> pystr option) \<Rightarrow> business_action_spec \<Rightarrow> failure + business_action_spec" where
  "new_business_action_spec uc ip s =
     bindE (require_business_machine_name (bs_domain s) ''domain'') (\<lambda>_.
     bindE (raise_unless (length (bs_action s) \<le> 120 \<and> fullmatch BUSINESS_AUDIT_ACTION_PATTERN (lit (bs_action s)))
              (Value_error ''invalid business audit action'')) (\<lambda>_.
     bindE (raise_unless (takeWhile (\<lambda>c. c \<noteq> CHR ''.'') (bs_action s) = bs_domain s)
              (Value_error ''business audit action must start with its domain'')) (\<lambda>_.
     bindE (require_business_machine_name (bs_resource_type s) ''resource type'') (\<lambda>_.
     bindE (raise_unless (bs_allowed_outcomes s \<noteq> [])
              (Value_error ''business audit action requires an allowed outcome'')) (\<lambda>_.
     bindE (raise_unless (bs_reason_codes s \<noteq> []) (Value_error ''business audit action requires a reason code'')) (\<lambda>_.
     bindE (raise_unless (bs_actor_types s \<noteq> []) (Value_error ''business audit action requires an actor type'')) (\<lambda>_.
     bindE (mapE validate_audit_reason (bs_reason_codes s)) (\<lambda>_.
     bindE (raise_unless (1 \<le> bs_schema_version s)
              (Value_error ''business audit schema version must be a positive integer'')) (\<lambda>_.
     bindE (mapE (\<lambda>field. sanitize_business_payload uc ip (Some (A_Map [(Some field, A_None)])) MAX_BUSINESS_AUDIT_CONTEXT_BYTES)
              (bs_before_fields s @ bs_after_fields s @ bs_context_fields s)) (\<lambda>_.
       Inr s))))))))))"

record business_facts =
  bf_event_id :: uuid
  bf_action :: string
  bf_actor :: business_actor
  bf_resource_id :: string
  bf_reason_code :: string
  bf_source :: audit_source
  bf_request_id :: string
  bf_before_state :: "(pystr option \<times> audit_value) list option"
  bf_after_state :: "(pystr option \<times> audit_value) list option"
  bf_context :: "(pystr option \<times> audit_value) list option"

subsection \<open>The row and its table\<close>

record business_event =
  be_id :: uuid
  be_domain :: string
  be_action :: string
  be_outcome :: string
  be_reason_code :: string
  be_actor_type :: string
  be_actor_id :: "string option"
  be_resource_type :: string
  be_resource_id :: string
  be_source :: string
  be_schema_version :: int
  be_before_state :: "json option"
  be_after_state :: "json option"
  be_context :: json
  be_request_id :: string

text \<open>A sanitized payload, as a value a validator looks at again.\<close>

fun audit_of_json :: "json \<Rightarrow> audit_value" where
  "audit_of_json J_Null = A_None"
| "audit_of_json (J_Bool b) = A_Bool b"
| "audit_of_json (J_Int i) = A_Int i"
| "audit_of_json (J_Float text) = A_Float True text"
| "audit_of_json (J_Str s) = A_Str s"
| "audit_of_json (J_List xs) = A_Seq (map audit_of_json xs)"
| "audit_of_json (J_Obj members) = A_Map (map (\<lambda>(k, v). (Some k, audit_of_json v)) members)"

definition validate_business_state ::
    "unicode_db \<Rightarrow> (pystr \<Rightarrow> pystr option) \<Rightarrow> json option \<Rightarrow> failure + json option" where
  "validate_business_state uc ip state =
     sanitize_business_payload uc ip (map_option audit_of_json state) MAX_BUSINESS_STATE_BYTES"

definition validate_business_context ::
    "unicode_db \<Rightarrow> (pystr \<Rightarrow> pystr option) \<Rightarrow> json \<Rightarrow> failure + json" where
  "validate_business_context uc ip context =
     bindE (sanitize_business_payload uc ip (Some (audit_of_json context)) MAX_BUSINESS_AUDIT_CONTEXT_BYTES) (\<lambda>sanitized.
     case sanitized of None \<Rightarrow> Inl (Runtime_error ''AssertionError'') | Some j \<Rightarrow> Inr j)"

text \<open>The constructor of a row sets its columns in turn, each through its validator.\<close>

definition new_business_event ::
    "unicode_db \<Rightarrow> (pystr \<Rightarrow> pystr option) \<Rightarrow> business_event \<Rightarrow> failure + business_event" where
  "new_business_event uc ip e =
     bindE (require_business_event_id (be_id e)) (\<lambda>_.
     bindE (require_business_machine_name (be_domain e) ''domain'') (\<lambda>_.
     bindE (raise_unless (length (be_action e) \<le> 120 \<and> fullmatch BUSINESS_AUDIT_ACTION_PATTERN (lit (be_action e)))
              (Value_error ''invalid business audit action'')) (\<lambda>_.
     bindE (raise_unless (be_outcome e \<in> outcome_value ` {Outcome_succeeded, Outcome_failed, Outcome_denied})
              (Value_error ''not a valid BusinessAuditOutcome'')) (\<lambda>_.
     bindE (validate_audit_reason (be_reason_code e)) (\<lambda>_.
     bindE (raise_unless (be_actor_type e \<in> actor_type_value `
                {Business_user, Business_service, Business_system, Business_job, Business_operator})
              (Value_error ''not a valid BusinessAuditActorType'')) (\<lambda>_.
     bindE (case be_actor_id e of None \<Rightarrow> Inr [] | Some i \<Rightarrow> require_business_identifier i ''actor ID'') (\<lambda>_.
     bindE (require_business_machine_name (be_resource_type e) ''resource type'') (\<lambda>_.
     bindE (require_business_identifier (be_resource_id e) ''resource ID'') (\<lambda>_.
     bindE (raise_unless (be_source e \<in> audit_source_value ` {HTTP, SERVICE, JOB, OPERATOR, MIGRATION})
              (Value_error ''not a valid AuditSource'')) (\<lambda>_.
     bindE (raise_unless (1 \<le> be_schema_version e)
              (Value_error ''business audit schema version must be a positive integer'')) (\<lambda>_.
     bindE (validate_business_state uc ip (be_before_state e)) (\<lambda>before.
     bindE (validate_business_state uc ip (be_after_state e)) (\<lambda>after_state.
     bindE (validate_business_context uc ip (be_context e)) (\<lambda>context.
     bindE (validate_audit_request_id (be_request_id e)) (\<lambda>_.
       Inr (e\<lparr>be_before_state := before, be_after_state := after_state, be_context := context\<rparr>))))))))))))))))"

text \<open>
  What PostgreSQL stores of a JSON value and measures with \<open>octet_length(x::text)\<close>: it refuses
  U+0000, and its text has the separators and escapes of \<open>json.dumps\<close> (in another order of the
  keys, which no size depends on) but writes a number without an exponent, as \<open>numeric\<close> does:
  Python's \<open>1e+16\<close> is \<open>10000000000000000\<close>, \<open>2.5e-07\<close> is \<open>0.00000025\<close>.
\<close>

definition digits_value :: "string \<Rightarrow> nat" where
  "digits_value s = foldl (\<lambda>n c. 10 * n + (of_char c - 48)) 0 s"

definition plain_number :: "string \<Rightarrow> string \<Rightarrow> int \<Rightarrow> string" where
  "plain_number whole fraction e =
     (let digits = whole @ fraction; point = int (length whole) + e in
      if point \<le> 0 then ''0.'' @ replicate (nat (- point)) (CHR ''0'') @ digits
      else if int (length digits) \<le> point then digits @ replicate (nat point - length digits) (CHR ''0'')
      else take (nat point) digits @ ''.'' @ drop (nat point) digits)"

definition numeric_text :: "string \<Rightarrow> string" where
  "numeric_text s =
     (let (sign, unsigned) = (if take 1 s = ''-'' then (''-'', drop 1 s) else ([], s));
          mantissa = takeWhile (\<lambda>c. c \<noteq> CHR ''e'') unsigned;
          exponent = drop (Suc (length mantissa)) unsigned
      in if s = ''-0.0'' then ''0.0''
         else if mantissa = unsigned then s
         else sign @ plain_number (takeWhile (\<lambda>c. c \<noteq> CHR ''.'') mantissa)
                (drop 1 (dropWhile (\<lambda>c. c \<noteq> CHR ''.'') mantissa))
                (if take 1 exponent = ''-'' then - int (digits_value (drop 1 exponent))
                 else int (digits_value (dropWhile (\<lambda>c. c = CHR ''+'') exponent))))"

fun jsonb_value :: "json \<Rightarrow> json" where
  "jsonb_value (J_Float text) = J_Float (numeric_text text)"
| "jsonb_value (J_List xs) = J_List (map jsonb_value xs)"
| "jsonb_value (J_Obj members) = J_Obj (map (\<lambda>(k, v). (k, jsonb_value v)) members)"
| "jsonb_value j = j"

definition business_text_within :: "json \<Rightarrow> int \<Rightarrow> bool" where
  "business_text_within j limit \<longleftrightarrow> (case utf8_length (dumps_json j) of Inl _ \<Rightarrow> False | Inr n \<Rightarrow> n \<le> limit)"

definition fits_jsonb :: "json \<Rightarrow> int \<Rightarrow> bool" where
  "fits_jsonb j limit \<longleftrightarrow> json_storable j \<and> business_text_within (jsonb_value j) limit"

text \<open>The column types and check constraints of \<open>business_audit_events\<close>.\<close>

definition business_audit_checks :: "business_event \<Rightarrow> bool" where
  "business_audit_checks e \<longleftrightarrow>
     uuid_version (be_id e) = Some 4 \<and>
     fullmatch DOMAIN_RE (lit (be_domain e)) \<and>
     fullmatch BUSINESS_AUDIT_ACTION_PATTERN (lit (be_action e)) \<and> length (be_action e) \<le> 120 \<and>
     takeWhile (\<lambda>c. c \<noteq> CHR ''.'') (be_action e) = be_domain e \<and>
     be_outcome e \<in> {''succeeded'', ''failed'', ''denied''} \<and>
     reason_code_format (be_reason_code e) \<and>
     be_actor_type e \<in> {''user'', ''service'', ''system'', ''job'', ''operator''} \<and>
     (be_actor_type e = ''system'' \<and> be_actor_id e = None \<or> be_actor_type e \<noteq> ''system'' \<and> be_actor_id e \<noteq> None) \<and>
     (case be_actor_id e of None \<Rightarrow> True | Some i \<Rightarrow> fullmatch BUSINESS_IDENTIFIER_RE (lit i)) \<and>
     fullmatch DOMAIN_RE (lit (be_resource_type e)) \<and>
     fullmatch BUSINESS_IDENTIFIER_RE (lit (be_resource_id e)) \<and>
     be_source e \<in> {''http'', ''service'', ''job'', ''operator'', ''migration''} \<and>
     0 < be_schema_version e \<and> be_schema_version e < 2 ^ 15 \<and>
     json_object (be_before_state e) \<and> json_object (be_after_state e) \<and> json_object (Some (be_context e)) \<and>
     (case be_before_state e of None \<Rightarrow> True | Some j \<Rightarrow> fits_jsonb j 16384) \<and>
     (case be_after_state e of None \<Rightarrow> True | Some j \<Rightarrow> fits_jsonb j 16384) \<and>
     fits_jsonb (be_context e) 4096 \<and>
     (be_outcome e = ''succeeded'' \<or> be_after_state e = None) \<and>
     request_id_format (be_request_id e)"

subsection \<open>The writer\<close>

text \<open>\<open>BusinessAuditWriter\<close>: its catalogue of actions, by action.\<close>

type_synonym business_catalog = "(string \<times> business_action_spec) list"

definition new_business_writer :: "business_catalog \<Rightarrow> failure + business_catalog" where
  "new_business_writer specs =
     bindE (raise_unless (specs \<noteq> []) (Value_error ''business audit action catalog cannot be empty'')) (\<lambda>_.
     bindE (raise_unless (list_all (\<lambda>(action, spec). action = bs_action spec) specs)
              (Value_error ''business audit catalog key must match its action'')) (\<lambda>_. Inr specs))"

definition safe_payload ::
    "unicode_db \<Rightarrow> (pystr \<Rightarrow> pystr option) \<Rightarrow> (pystr option \<times> audit_value) list option \<Rightarrow> pystr list \<Rightarrow> int \<Rightarrow>
     failure + json option" where
  "safe_payload uc ip state allowed_fields max_bytes =
     (case state of
        None \<Rightarrow> Inr None
      | Some items \<Rightarrow>
          if \<not> fst ` set items \<subseteq> Some ` set allowed_fields
          then Inl (Value_error ''business audit payload contains a non-allowlisted field'')
          else sanitize_business_payload uc ip (Some (A_Map items)) max_bytes)"

definition build_business_event ::
    "unicode_db \<Rightarrow> (pystr \<Rightarrow> pystr option) \<Rightarrow> business_catalog \<Rightarrow> business_facts \<Rightarrow> business_outcome \<Rightarrow>
     failure + business_event" where
  "build_business_event uc ip specs facts outcome =
     (case map_of specs (bf_action facts) of
        None \<Rightarrow> Inl (Value_error ''business audit action is not registered'')
      | Some spec \<Rightarrow>
          bindE (raise_unless (outcome \<in> set (bs_allowed_outcomes spec))
                   (Value_error ''business audit outcome is not allowed for this action'')) (\<lambda>_.
          bindE (raise_unless (bf_reason_code facts \<in> set (bs_reason_codes spec))
                   (Value_error ''business audit reason is not registered for this action'')) (\<lambda>_.
          bindE (raise_unless (ba_actor_type (bf_actor facts) \<in> set (bs_actor_types spec))
                   (Value_error ''business audit actor type is not allowed for this action'')) (\<lambda>_.
          bindE (raise_unless (\<not> (outcome \<noteq> Outcome_succeeded \<and> bf_after_state facts \<noteq> None))
                   (Value_error ''denied and failed events cannot claim an after state'')) (\<lambda>_.
          bindE (require_business_event_id (bf_event_id facts)) (\<lambda>_.
          bindE (require_business_identifier (bf_resource_id facts) ''resource ID'') (\<lambda>_.
          bindE (validate_audit_request_id (bf_request_id facts)) (\<lambda>request_id.
          bindE (safe_payload uc ip (bf_before_state facts) (bs_before_fields spec) MAX_BUSINESS_STATE_BYTES) (\<lambda>before.
          bindE (safe_payload uc ip (bf_after_state facts) (bs_after_fields spec) MAX_BUSINESS_STATE_BYTES) (\<lambda>after_state.
          bindE (safe_payload uc ip (Some (case bf_context facts of None \<Rightarrow> [] | Some c \<Rightarrow> c)) (bs_context_fields spec)
                   MAX_BUSINESS_AUDIT_CONTEXT_BYTES) (\<lambda>context.
          case context of
            None \<Rightarrow> Inl (Runtime_error ''AssertionError'')
          | Some c \<Rightarrow>
              new_business_event uc ip
                \<lparr>be_id = bf_event_id facts, be_domain = bs_domain spec, be_action = bs_action spec,
                 be_outcome = outcome_value outcome, be_reason_code = bf_reason_code facts,
                 be_actor_type = actor_type_value (ba_actor_type (bf_actor facts)), be_actor_id = ba_id (bf_actor facts),
                 be_resource_type = bs_resource_type spec, be_resource_id = bf_resource_id facts,
                 be_source = audit_source_value (bf_source facts), be_schema_version = bs_schema_version spec,
                 be_before_state = before, be_after_state = after_state, be_context = c, be_request_id = request_id\<rparr>)))))))))))"

text \<open>The session of the caller: where its transactions stand, and the rows added to it.\<close>

record audit_session =
  as_in_transaction :: bool
  as_in_nested_transaction :: bool
  as_added :: "business_event list"

definition stage_event :: "failure + business_event \<Rightarrow> (audit_session, business_event) proc" where
  "stage_event built =
     bindP (liftP built) (\<lambda>event session. (Inr event, session\<lparr>as_added := as_added session @ [event]\<rparr>))"

definition add_succeeded ::
    "unicode_db \<Rightarrow> (pystr \<Rightarrow> pystr option) \<Rightarrow> business_catalog \<Rightarrow> business_facts \<Rightarrow> (audit_session, business_event) proc" where
  "add_succeeded uc ip specs facts session =
     (if \<not> as_in_transaction session
      then (Inl (Runtime_error ''successful business audit requires a caller-owned transaction''), session)
      else stage_event (build_business_event uc ip specs facts Outcome_succeeded) session)"

definition add_after_savepoint_rollback ::
    "unicode_db \<Rightarrow> (pystr \<Rightarrow> pystr option) \<Rightarrow> business_catalog \<Rightarrow> business_facts \<Rightarrow> business_outcome \<Rightarrow>
     (audit_session, business_event) proc" where
  "add_after_savepoint_rollback uc ip specs facts outcome session =
     (if outcome = Outcome_succeeded
      then (Inl (Value_error ''successful audit must use the protected transaction''), session)
      else if \<not> as_in_transaction session
      then (Inl (Runtime_error ''savepoint audit requires a caller-owned transaction''), session)
      else if as_in_nested_transaction session
      then (Inl (Runtime_error ''savepoint audit requires the nested rollback to finish''), session)
      else stage_event (build_business_event uc ip specs facts outcome) session)"

text \<open>
  \<open>write_after_rollback\<close> commits on a session of its own. The database refuses a row that breaks
  a constraint; apart from that the transaction commits, fails, or commits and loses its answer.
  Every exception makes the answer \<open>False\<close>.
\<close>

datatype commit_answer = Committed | Commit_failed | Commit_answer_lost

definition write_after_rollback ::
    "unicode_db \<Rightarrow> (pystr \<Rightarrow> pystr option) \<Rightarrow> business_catalog \<Rightarrow> business_facts \<Rightarrow> business_outcome \<Rightarrow> commit_answer \<Rightarrow>
     (business_event list, bool) proc" where
  "write_after_rollback uc ip specs facts outcome answer stored =
     (if outcome = Outcome_succeeded
      then (Inl (Value_error ''successful audit must use the protected transaction''), stored)
      else
      case build_business_event uc ip specs facts outcome of
        Inl e \<Rightarrow> (Inr False, stored)
      | Inr event \<Rightarrow>
          if \<not> business_audit_checks event \<or> be_id event \<in> be_id ` set stored then (Inr False, stored)
          else (case answer of
              Committed \<Rightarrow> (Inr True, stored @ [event])
            | Commit_failed \<Rightarrow> (Inr False, stored)
            | Commit_answer_lost \<Rightarrow> (Inr False, stored @ [event])))"

end
