(* ===== verification/Business_Properties.thy ===== *)
theory Business_Properties
  imports Business_Audit Sample_Platform
begin

text \<open>
  What an event of the business audit is: the row its catalogue entry describes, one the table
  accepts, whose payloads hold nothing the rules forbid.
\<close>

subsection \<open>Payloads\<close>

text \<open>A payload all of whose strings and keys the rules allow.\<close>

fun clean_payload :: "unicode_db \<Rightarrow> (pystr \<Rightarrow> pystr option) \<Rightarrow> json \<Rightarrow> bool" where
  "clean_payload uc ip (J_Str s) \<longleftrightarrow> \<not> contains_email s \<and> \<not> contains_network_identifier ip s \<and> \<not> sensitive_text uc s"
| "clean_payload uc ip (J_List xs) \<longleftrightarrow> list_all (clean_payload uc ip) xs"
| "clean_payload uc ip (J_Obj ms) \<longleftrightarrow>
     list_all (\<lambda>m. \<not> forbidden_business_key uc (fst m) \<and> \<not> sensitive_key uc (fst m) \<and> clean_payload uc ip (snd m)) ms"
| "clean_payload uc ip _ \<longleftrightarrow> True"

lemma mapE_same: "mapE f xs = Inr ys \<Longrightarrow> (\<And>x y. x \<in> set xs \<Longrightarrow> f x = Inr y \<Longrightarrow> y = g x) \<Longrightarrow> ys = map g xs"
  by (induction xs arbitrary: ys) (auto simp: bindE_Inr)

lemma mapE_all: "mapE f xs = Inr ys \<Longrightarrow> x \<in> set xs \<Longrightarrow> \<exists>y. f x = Inr y"
  by (induction xs arbitrary: ys) (auto simp: bindE_Inr)

text \<open>A second pass over a sanitized payload changes nothing.\<close>

lemma safe_members:
  assumes "mapE (\<lambda>item. case fst item of
       None \<Rightarrow> Inl (Value_error ''audit state object keys must be strings'')
     | Some key \<Rightarrow> bindE (require_safe_key uc key) (\<lambda>_. bindE (audit_json uc (snd item) d) (\<lambda>j. Inr (key, j))))
     (map (\<lambda>(k, v). (Some k, audit_of_json v)) ms) = Inr ks"
  shows "list_all2 (\<lambda>m k. fst k = fst m \<and> \<not> sensitive_key uc (fst m) \<and> audit_json uc (audit_of_json (snd m)) d = Inr (snd k)) ms ks"
  using assms unfolding mapE_Inr
  by (auto simp: list_all2_map1 bindE_Inr require_safe_key_def elim!: list_all2_mono split: if_splits)

lemma map_object:
  assumes "audit_json uc (audit_of_json (J_Obj ms)) d = Inr k"
  obtains ks where "k = J_Obj ks"
    "list_all2 (\<lambda>m k. fst k = fst m \<and> \<not> sensitive_key uc (fst m) \<and> audit_json uc (audit_of_json (snd m)) (d + 1) = Inr (snd k)) ms ks"
  using assms safe_members [of uc "d + 1" ms]
  by (auto simp: audit_json.simps [of _ "A_Map _"] bindE_Inr split: if_splits)

lemma audit_json_again: "audit_json uc (audit_of_json j) d = Inr k \<Longrightarrow> k = j"
proof (induction j arbitrary: d k)
  case (J_List xs)
  then obtain ks where ks: "mapE (\<lambda>v. audit_json uc v (d + 1)) (map audit_of_json xs) = Inr ks" "k = J_List ks"
    by (auto simp: audit_json.simps [of _ "A_Seq _"] bindE_Inr split: if_splits)
  have "ks = xs"
    using ks(1) J_List.IH by (induction xs arbitrary: ks) (auto simp: bindE_Inr)
  with ks show ?case by simp
next
  case (J_Obj ms)
  then obtain ks where ks: "k = J_Obj ks"
    "list_all2 (\<lambda>m k. fst k = fst m \<and> \<not> sensitive_key uc (fst m) \<and> audit_json uc (audit_of_json (snd m)) (d + 1) = Inr (snd k)) ms ks"
    by (elim map_object)
  have "list_all2 (=) ks ms"
    using ks(2) J_Obj.IH unfolding list_all2_conv_all_nth by (metis nth_mem prod.collapse prod_set_simps(2) singletonI snds.simps)
  then have "ks = ms" by (simp add: list.rel_eq)
  with ks show ?case by simp
qed (auto simp: audit_json.simps split: if_splits)

lemma passed_payload_clean:
  "audit_json uc (audit_of_json j) d = Inr k \<Longrightarrow> reject_business_sensitive_data uc ip (audit_of_json j) = Inr () \<Longrightarrow>
     clean_payload uc ip j"
proof (induction j arbitrary: d k)
  case (J_List xs)
  then have "mapE (\<lambda>v. audit_json uc v (d + 1)) (map audit_of_json xs) \<in> range Inr"
    "mapE (reject_business_sensitive_data uc ip) (map audit_of_json xs) \<in> range Inr"
    by (auto simp: audit_json.simps [of _ "A_Seq _"] bindE_Inr split: if_splits)
  with J_List.IH show ?case
    by (induction xs) (auto simp: bindE_Inr image_iff)
next
  case (J_Obj ms)
  obtain ks where ks: "list_all2 (\<lambda>m k. fst k = fst m \<and> \<not> sensitive_key uc (fst m) \<and>
      audit_json uc (audit_of_json (snd m)) (d + 1) = Inr (snd k)) ms ks"
    using J_Obj.prems(1) by (elim map_object)
  have allowed: "\<not> forbidden_business_key uc (fst m) \<and> reject_business_sensitive_data uc ip (audit_of_json (snd m)) = Inr ()"
    if "m \<in> set ms" for m
    using J_Obj.prems(2) that by (cases m) (force simp: bindE_Inr split: if_splits dest!: mapE_all)
  show ?case
    unfolding clean_payload.simps list_all_iff
  proof
    fix m assume m: "m \<in> set ms"
    then obtain k where "\<not> sensitive_key uc (fst m)" "audit_json uc (audit_of_json (snd m)) (d + 1) = Inr k"
      using ks by (auto simp: list_all2_conv_all_nth in_set_conv_nth)
    then show "\<not> forbidden_business_key uc (fst m) \<and> \<not> sensitive_key uc (fst m) \<and> clean_payload uc ip (snd m)"
      using J_Obj.IH [of m "snd m"] allowed [OF m] m by (cases m) auto
  qed
qed (auto simp: audit_json.simps split: if_splits)

text \<open>What one pass promises of its result when its input was sanitized before.\<close>

definition payload_ok :: "unicode_db \<Rightarrow> (pystr \<Rightarrow> pystr option) \<Rightarrow> int \<Rightarrow> json \<Rightarrow> bool" where
  "payload_ok uc ip limit j \<longleftrightarrow> clean_payload uc ip j \<and> json_object (Some j) \<and> business_text_within j limit"

lemma sanitize_audit_state_Some:
  assumes "sanitize_audit_state uc (Some v) = Inr (Some k)"
  shows "audit_json uc v 0 = Inr k \<and> (\<exists>ms. k = J_Obj ms)"
proof -
  obtain x where "audit_json uc v 0 = Inr x"
    using assms by (auto simp: sanitize_audit_state_def bindE_Inr)
  then show ?thesis
    using assms by (cases x) (auto simp: sanitize_audit_state_def bindE_Inr split: if_splits)
qed

lemma sanitized_again:
  assumes "sanitize_business_payload uc ip (Some (audit_of_json j)) limit = Inr (Some k)"
  shows "k = j \<and> payload_ok uc ip limit k"
proof -
  from assms have run: "reject_business_sensitive_data uc ip (audit_of_json j) = Inr ()"
    "audit_json uc (audit_of_json j) 0 = Inr k" "json_object (Some k)" "business_text_within k limit"
    by (auto simp: sanitize_business_payload_def bindE_Inr json_object_def business_text_within_def
        split: option.splits if_splits dest!: sanitize_audit_state_Some)
  then show ?thesis
    using audit_json_again [OF run(2)] passed_payload_clean [of uc j 0 k ip] by (simp add: payload_ok_def)
qed

lemma sanitized_shape:
  "sanitize_business_payload uc ip (Some v) limit = Inr x \<Longrightarrow> \<exists>k. x = Some k"
  by (auto simp: sanitize_business_payload_def bindE_Inr split: option.splits if_splits)

text \<open>The fields of a sanitized mapping are the fields of the mapping.\<close>

definition fields_of :: "json \<Rightarrow> pystr set" where
  "fields_of j = (case j of J_Obj ms \<Rightarrow> fst ` set ms | _ \<Rightarrow> {})"

lemma audit_json_fields:
  assumes "audit_json uc (A_Map items) d = Inr k"
  shows "\<exists>ms. k = J_Obj ms \<and> map (\<lambda>m. Some (fst m)) ms = map fst items"
proof -
  have same: "map (\<lambda>m. Some (fst m)) ms = map fst items"
    if "mapE (\<lambda>item. case fst item of
       None \<Rightarrow> Inl (Value_error ''audit state object keys must be strings'')
     | Some key \<Rightarrow> bindE (require_safe_key uc key) (\<lambda>_. bindE (audit_json uc (snd item) (d + 1)) (\<lambda>j. Inr (key, j))))
       items = Inr ms" for ms
    using that by (induction items arbitrary: ms) (auto simp: bindE_Inr split: option.splits)
  show ?thesis
    using assms same by (auto simp: audit_json.simps [of _ "A_Map _"] bindE_Inr split: if_splits)
qed

lemma sanitized_fields:
  assumes "sanitize_business_payload uc ip (Some (A_Map items)) limit = Inr (Some j)"
  shows "Some ` fields_of j \<subseteq> fst ` set items"
proof -
  have "audit_json uc (A_Map items) 0 = Inr j"
    using assms by (auto simp: sanitize_business_payload_def bindE_Inr simp del: reject_business_sensitive_data.simps
        split: option.splits if_splits dest!: sanitize_audit_state_Some)
  then obtain ms where ms: "j = J_Obj ms" "map (\<lambda>m. Some (fst m)) ms = map fst items"
    using audit_json_fields by blast
  have "Some ` fst ` set ms = set (map (\<lambda>m. Some (fst m)) ms)" by auto
  then show ?thesis
    unfolding ms by (simp add: fields_of_def)
qed

subsection \<open>The constructor of a row\<close>

lemma validated_state:
  "validate_business_state uc ip s = Inr x \<Longrightarrow> x = s \<and> (\<forall>j. s = Some j \<longrightarrow> payload_ok uc ip MAX_BUSINESS_STATE_BYTES j)"
  using sanitized_shape sanitized_again
  by (cases s) (fastforce simp: validate_business_state_def sanitize_business_payload_def)+

lemma validated_context:
  assumes "validate_business_context uc ip c = Inr x"
  shows "x = c \<and> payload_ok uc ip MAX_BUSINESS_AUDIT_CONTEXT_BYTES c"
proof -
  obtain k where "sanitize_business_payload uc ip (Some (audit_of_json c)) MAX_BUSINESS_AUDIT_CONTEXT_BYTES = Inr (Some k)" "x = k"
    using assms by (auto simp: validate_business_context_def bindE_Inr split: option.splits)
  with sanitized_again [OF this(1)] show ?thesis by metis
qed

lemma accepted_names:
  "require_business_machine_name v f = Inr x \<longleftrightarrow> x = v \<and> fullmatch DOMAIN_RE (lit v)"
  "require_business_identifier v f = Inr x \<longleftrightarrow> x = v \<and> fullmatch BUSINESS_IDENTIFIER_RE (lit v)"
  "require_business_event_id u = Inr y \<longleftrightarrow> y = u \<and> uuid_version u = Some 4"
  by (auto simp: require_business_machine_name_def require_business_identifier_def require_business_event_id_def)

lemma accepted_audit_texts:
  "validate_audit_reason r = Inr x \<Longrightarrow> reason_code_format r"
  "validate_audit_request_id r = Inr x \<Longrightarrow> x = r \<and> request_id_format r"
  by (auto simp: validate_audit_reason_def validate_audit_request_id_def reason_code_format_def request_id_format_def
      split: if_splits)

lemma new_event_Inr:
  assumes "new_business_event uc ip e = Inr ev"
  shows "ev = e \<and> uuid_version (be_id e) = Some 4 \<and> fullmatch DOMAIN_RE (lit (be_domain e)) \<and>
    fullmatch BUSINESS_AUDIT_ACTION_PATTERN (lit (be_action e)) \<and> length (be_action e) \<le> 120 \<and>
    reason_code_format (be_reason_code e) \<and>
    (case be_actor_id e of None \<Rightarrow> True | Some i \<Rightarrow> fullmatch BUSINESS_IDENTIFIER_RE (lit i)) \<and>
    fullmatch DOMAIN_RE (lit (be_resource_type e)) \<and> fullmatch BUSINESS_IDENTIFIER_RE (lit (be_resource_id e)) \<and>
    1 \<le> be_schema_version e \<and> request_id_format (be_request_id e) \<and>
    (\<forall>j. be_before_state e = Some j \<longrightarrow> payload_ok uc ip MAX_BUSINESS_STATE_BYTES j) \<and>
    (\<forall>j. be_after_state e = Some j \<longrightarrow> payload_ok uc ip MAX_BUSINESS_STATE_BYTES j) \<and>
    payload_ok uc ip MAX_BUSINESS_AUDIT_CONTEXT_BYTES (be_context e)"
  using assms unfolding new_business_event_def
  by (auto simp: bindE_Inr accepted_names raise_unless_Inr split: option.splits
      dest!: validated_state validated_context accepted_audit_texts)

subsection \<open>Built events\<close>

definition within :: "json option \<Rightarrow> pystr list \<Rightarrow> bool" where
  "within state allowed \<longleftrightarrow> (\<forall>j. state = Some j \<longrightarrow> fields_of j \<subseteq> set allowed)"

lemma safe_payload_within:
  assumes "safe_payload uc ip state allowed limit = Inr x"
  shows "within x allowed \<and> (state = None \<longrightarrow> x = None)"
proof (cases state)
  case None
  then show ?thesis using assms by (simp add: safe_payload_def within_def)
next
  case (Some items)
  then have run: "fst ` set items \<subseteq> Some ` set allowed" "sanitize_business_payload uc ip (Some (A_Map items)) limit = Inr x"
    using assms by (auto simp: safe_payload_def split: if_splits)
  show ?thesis
    unfolding within_def
  proof (intro conjI allI impI)
    fix j assume "x = Some j"
    then have "Some ` fields_of j \<subseteq> Some ` set allowed"
      using sanitized_fields [of uc ip items limit j] run by auto
    then show "fields_of j \<subseteq> set allowed" by auto
  qed (use Some in simp)
qed

text \<open>\<open>follows\<close>: what the catalogue entry of an action lays down.\<close>

definition follows :: "business_action_spec \<Rightarrow> business_facts \<Rightarrow> business_outcome \<Rightarrow> business_event \<Rightarrow> bool" where
  "follows spec facts outcome ev \<longleftrightarrow>
     bs_action spec = bf_action facts \<and> outcome \<in> set (bs_allowed_outcomes spec) \<and>
     bf_reason_code facts \<in> set (bs_reason_codes spec) \<and> ba_actor_type (bf_actor facts) \<in> set (bs_actor_types spec) \<and>
     be_id ev = bf_event_id facts \<and> be_action ev = bs_action spec \<and> be_domain ev = bs_domain spec \<and>
     be_resource_type ev = bs_resource_type spec \<and> be_schema_version ev = bs_schema_version spec \<and>
     be_outcome ev = outcome_value outcome \<and> be_reason_code ev = bf_reason_code facts \<and>
     within (be_before_state ev) (bs_before_fields spec) \<and> within (be_after_state ev) (bs_after_fields spec) \<and>
     within (Some (be_context ev)) (bs_context_fields spec)"

lemma built_event:
  assumes "build_business_event uc ip specs facts outcome = Inr ev" "map_of specs (bf_action facts) = Some spec"
    and "bs_action spec = bf_action facts"
  shows "follows spec facts outcome ev \<and> new_business_event uc ip ev = Inr ev \<and>
    be_actor_type ev = actor_type_value (ba_actor_type (bf_actor facts)) \<and> be_actor_id ev = ba_id (bf_actor facts) \<and>
    be_source ev = audit_source_value (bf_source facts) \<and> (outcome \<noteq> Outcome_succeeded \<longrightarrow> be_after_state ev = None)"
proof -
  define given where "given = (case bf_context facts of None \<Rightarrow> [] | Some c \<Rightarrow> c)"
  obtain before after_state c e where run:
    "outcome \<in> set (bs_allowed_outcomes spec)" "bf_reason_code facts \<in> set (bs_reason_codes spec)"
    "ba_actor_type (bf_actor facts) \<in> set (bs_actor_types spec)"
    "outcome \<noteq> Outcome_succeeded \<Longrightarrow> bf_after_state facts = None"
    "safe_payload uc ip (bf_before_state facts) (bs_before_fields spec) MAX_BUSINESS_STATE_BYTES = Inr before"
    "safe_payload uc ip (bf_after_state facts) (bs_after_fields spec) MAX_BUSINESS_STATE_BYTES = Inr after_state"
    "safe_payload uc ip (Some given) (bs_context_fields spec) MAX_BUSINESS_AUDIT_CONTEXT_BYTES = Inr (Some c)"
    and e: "e = \<lparr>be_id = bf_event_id facts, be_domain = bs_domain spec, be_action = bs_action spec,
       be_outcome = outcome_value outcome, be_reason_code = bf_reason_code facts,
       be_actor_type = actor_type_value (ba_actor_type (bf_actor facts)), be_actor_id = ba_id (bf_actor facts),
       be_resource_type = bs_resource_type spec, be_resource_id = bf_resource_id facts,
       be_source = audit_source_value (bf_source facts), be_schema_version = bs_schema_version spec,
       be_before_state = before, be_after_state = after_state, be_context = c, be_request_id = bf_request_id facts\<rparr>"
      "new_business_event uc ip e = Inr ev"
    using assms(1) unfolding build_business_event_def assms(2) option.case given_def [symmetric]
    by (fastforce simp: bindE_Inr raise_unless_Inr split: option.splits dest: accepted_audit_texts(2))
  have "ev = e"
    using new_event_Inr [OF e(2)] by blast
  then show ?thesis
    using run assms(3) e(2) safe_payload_within [OF run(5)] safe_payload_within [OF run(6)] safe_payload_within [OF run(7)]
    by (auto simp: follows_def e(1))
qed

lemma written_values:
  "outcome_value oc \<in> {''succeeded'', ''failed'', ''denied''}"
  "actor_type_value t \<in> {''user'', ''service'', ''system'', ''job'', ''operator''}"
  "audit_source_value src \<in> {''http'', ''service'', ''job'', ''operator'', ''migration''}"
  "outcome_value oc = ''succeeded'' \<longleftrightarrow> oc = Outcome_succeeded" "actor_type_value t = ''system'' \<longleftrightarrow> t = Business_system"
  by (cases oc; simp; fail | cases t; simp; fail | cases src; simp; fail)+

lemma actor_presence:
  "new_business_actor t i = Inr a \<Longrightarrow> (ba_actor_type a = Business_system) = (ba_id a = None)"
  by (auto simp: new_business_actor_def bindE_Inr raise_unless_Inr split: if_splits option.splits)

lemma domain_of_action:
  "new_business_action_spec uc ip s = Inr x \<Longrightarrow> takeWhile (\<lambda>c. c \<noteq> CHR ''.'') (bs_action s) = bs_domain s"
  by (auto simp: new_business_action_spec_def bindE_Inr raise_unless_Inr)

text \<open>The payloads of an event with the sizes their columns allow.\<close>

definition payloads :: "business_event \<Rightarrow> (json \<times> int) list" where
  "payloads e = (be_context e, 4096) #
     (case be_before_state e of None \<Rightarrow> [] | Some j \<Rightarrow> [(j, 16384)]) @
     (case be_after_state e of None \<Rightarrow> [] | Some j \<Rightarrow> [(j, 16384)])"

lemma payloads_checked:
  assumes "new_business_event uc ip ev = Inr ev" "(j, limit) \<in> set (payloads ev)"
  shows "payload_ok uc ip limit j"
  using new_event_Inr [OF assms(1)] assms(2)
  by (auto simp: payloads_def MAX_BUSINESS_STATE_BYTES_def MAX_BUSINESS_AUDIT_CONTEXT_BYTES_def split: option.splits)

text \<open>A payload without floats is measured alike by the program and by the table.\<close>

fun float_free :: "json \<Rightarrow> bool" where
  "float_free (J_Float text) \<longleftrightarrow> False"
| "float_free (J_List xs) \<longleftrightarrow> list_all float_free xs"
| "float_free (J_Obj members) \<longleftrightarrow> list_all (\<lambda>(k, v). float_free v) members"
| "float_free _ \<longleftrightarrow> True"

lemma float_free_value: "float_free j \<Longrightarrow> jsonb_value j = j"
proof (induction j)
  case (J_List xs)
  then show ?case by (auto simp: list_all_iff intro: map_idI)
next
  case (J_Obj members)
  have "(case m of (k, v) \<Rightarrow> (k, jsonb_value v)) = m" if "m \<in> set members" for m
    using J_Obj.IH [of m "snd m"] J_Obj.prems that by (cases m) (auto simp: list_all_iff)
  then show ?case by (simp add: map_idI)
qed simp_all

lemma float_free_fits: "payload_ok uc ip limit j \<Longrightarrow> json_storable j \<Longrightarrow> float_free j \<Longrightarrow> fits_jsonb j limit"
  by (simp add: fits_jsonb_def payload_ok_def float_free_value)

lemma checked_event:
  assumes "new_business_event uc ip ev = Inr ev" "takeWhile (\<lambda>c. c \<noteq> CHR ''.'') (be_action ev) = be_domain ev"
    and "be_outcome ev = outcome_value oc" "be_actor_type ev = actor_type_value t" "be_source ev = audit_source_value src"
    and "(t = Business_system) = (be_actor_id ev = None)"
    and "oc \<noteq> Outcome_succeeded \<Longrightarrow> be_after_state ev = None"
  shows "business_audit_checks ev \<longleftrightarrow>
     be_schema_version ev < 2 ^ 15 \<and> (\<forall>(j, limit) \<in> set (payloads ev). fits_jsonb j limit)"
proof -
  note checked = new_event_Inr [OF assms(1)]
  have objects: "json_object (be_before_state ev)" "json_object (be_after_state ev)" "json_object (Some (be_context ev))"
    using checked by (auto simp: payload_ok_def json_object_def split: option.splits)
  have written: "be_outcome ev \<in> {''succeeded'', ''failed'', ''denied''}"
    "be_actor_type ev \<in> {''user'', ''service'', ''system'', ''job'', ''operator''}"
    "be_source ev \<in> {''http'', ''service'', ''job'', ''operator'', ''migration''}"
    unfolding assms(3-5) by (rule written_values)+
  have claims: "be_outcome ev = ''succeeded'' \<or> be_after_state ev = None"
    using assms(3,7) written_values(4) by metis
  have actor: "be_actor_type ev = ''system'' \<and> be_actor_id ev = None \<or> be_actor_type ev \<noteq> ''system'' \<and> be_actor_id ev \<noteq> None"
    using assms(4,6) written_values(5) by metis
  have version: "0 < be_schema_version ev"
    using checked by linarith
  have sizes: "(\<forall>(j, limit) \<in> set (payloads ev). fits_jsonb j limit) \<longleftrightarrow>
     (case be_before_state ev of None \<Rightarrow> True | Some j \<Rightarrow> fits_jsonb j 16384) \<and>
     (case be_after_state ev of None \<Rightarrow> True | Some j \<Rightarrow> fits_jsonb j 16384) \<and> fits_jsonb (be_context ev) 4096"
    by (auto simp: payloads_def split: option.splits)
  show ?thesis
    unfolding business_audit_checks_def sizes
    using checked written objects claims actor version assms(2) by blast
qed

subsection \<open>What the writer leaves behind\<close>

text \<open>
  \<open>write_after_rollback\<close> never raises for a denial or a failure; it adds at most the built event,
  and answers \<open>True\<close> only when it did.
\<close>

lemma write_after_rollback_outcome:
  assumes "outcome \<noteq> Outcome_succeeded"
  shows "\<exists>answered stored'. write_after_rollback uc ip specs facts outcome answer stored = (Inr answered, stored') \<and>
    (stored' = stored \<and> \<not> answered \<or>
     (\<exists>ev. build_business_event uc ip specs facts outcome = Inr ev \<and> business_audit_checks ev \<and> stored' = stored @ [ev]))"
  using assms
  by (cases "build_business_event uc ip specs facts outcome"; cases answer) (auto simp: write_after_rollback_def)

text \<open>Rows are staged only in a transaction, and a success never after a rolled back savepoint.\<close>

lemma staged_events:
  "add_succeeded uc ip specs facts s = (Inr ev, s') \<Longrightarrow>
     as_in_transaction s \<and> build_business_event uc ip specs facts Outcome_succeeded = Inr ev \<and> as_added s' = as_added s @ [ev]"
  "add_after_savepoint_rollback uc ip specs facts outcome s = (Inr ev, s') \<Longrightarrow>
     as_in_transaction s \<and> \<not> as_in_nested_transaction s \<and> outcome \<noteq> Outcome_succeeded \<and>
     build_business_event uc ip specs facts outcome = Inr ev \<and> as_added s' = as_added s @ [ev]"
  by (auto simp: add_succeeded_def add_after_savepoint_rollback_def stage_event_def bindP_Inr split: if_splits)

section \<open>The catalogue, the table and the payloads\<close>

text \<open>
  C40: Every event the writer builds is the one its catalogue lays down for the action: with an
  outcome, a reason, an actor type and payload fields the entry allows, an after state only for a
  success, and no string or key of a payload that is an e-mail address, a network address, a
  secret or a forbidden field, however deep it stands. The table refuses it in two cases only: a
  schema version beyond \<open>smallint\<close>, or a payload that does not fit its JSONB column; and a
  payload without floats and without U+0000 does fit.
\<close>

theorem business_events_follow_the_catalogue:
  assumes "new_business_writer specs = Inr writer"
    and specs: "\<And>a s. (a, s) \<in> set specs \<Longrightarrow> new_business_action_spec uc ip s = Inr s"
    and actor: "new_business_actor t i = Inr (bf_actor facts)"
    and built: "build_business_event uc ip writer facts outcome = Inr ev"
  shows "(\<exists>spec. (bf_action facts, spec) \<in> set specs \<and> follows spec facts outcome ev) \<and>
    (outcome = Outcome_succeeded \<or> be_after_state ev = None) \<and>
    (business_audit_checks ev \<longleftrightarrow>
       be_schema_version ev < 2 ^ 15 \<and> (\<forall>(j, limit) \<in> set (payloads ev). fits_jsonb j limit)) \<and>
    (\<forall>(j, limit) \<in> set (payloads ev).
       clean_payload uc ip j \<and> (json_storable j \<and> float_free j \<longrightarrow> fits_jsonb j limit))"
proof -
  have writer: "writer = specs" "list_all (\<lambda>(action, spec). action = bs_action spec) specs"
    using assms(1) by (auto simp: new_business_writer_def bindE_Inr raise_unless_Inr)
  obtain spec where found: "map_of specs (bf_action facts) = Some spec"
    using built writer(1) by (auto simp: build_business_event_def split: option.splits)
  then have spec: "(bf_action facts, spec) \<in> set specs" by (rule map_of_SomeD)
  then have same: "bs_action spec = bf_action facts"
    using writer(2) by (auto simp: list_all_iff)
  note ev = built_event [OF built [unfolded writer(1)] found same]
  have domain: "takeWhile (\<lambda>c. c \<noteq> CHR ''.'') (bs_action spec) = bs_domain spec"
    using specs [OF spec] domain_of_action by auto
  have checks: "business_audit_checks ev \<longleftrightarrow>
      be_schema_version ev < 2 ^ 15 \<and> (\<forall>(j, limit) \<in> set (payloads ev). fits_jsonb j limit)"
    using ev domain actor_presence [OF actor]
    by (intro checked_event [where uc = uc and ip = ip and t = "ba_actor_type (bf_actor facts)" and oc = outcome and src = "bf_source facts"])
       (simp_all add: follows_def)
  have clean: "clean_payload uc ip j \<and> (json_storable j \<and> float_free j \<longrightarrow> fits_jsonb j limit)"
    if "(j, limit) \<in> set (payloads ev)" for j limit
    using payloads_checked [OF ev [THEN conjunct2, THEN conjunct1] that] float_free_fits
    by (auto simp: payload_ok_def)
  show ?thesis
  proof (intro conjI ballI)
    show "\<exists>spec. (bf_action facts, spec) \<in> set specs \<and> follows spec facts outcome ev"
      using ev spec by blast
    show "outcome = Outcome_succeeded \<or> be_after_state ev = None"
      using ev by (cases "outcome = Outcome_succeeded") simp_all
    show "business_audit_checks ev \<longleftrightarrow>
        be_schema_version ev < 2 ^ 15 \<and> (\<forall>(j, limit) \<in> set (payloads ev). fits_jsonb j limit)"
      by (fact checks)
    show "case p of (j, limit) \<Rightarrow> clean_payload uc ip j \<and> (json_storable j \<and> float_free j \<longrightarrow> fits_jsonb j limit)"
      if "p \<in> set (payloads ev)" for p
      using clean that by (cases p) simp
  qed
qed

text \<open>An example catalogue, with one action and one fact.\<close>

definition sample_action :: business_action_spec where
  "sample_action =
     \<lparr>bs_domain = ''orders'', bs_action = ''orders.order.cancel'', bs_resource_type = ''order'',
      bs_allowed_outcomes = [Outcome_succeeded, Outcome_denied], bs_reason_codes = [''order_cancelled''],
      bs_actor_types = [Business_user], bs_before_fields = [lit ''status''], bs_after_fields = [lit ''status''],
      bs_context_fields = [lit ''channel''], bs_schema_version = 1\<rparr>"

definition sample_facts :: business_facts where
  "sample_facts =
     \<lparr>bf_event_id = UUID 302240678275694148452402, bf_action = ''orders.order.cancel'',
      bf_actor = \<lparr>ba_actor_type = Business_user, ba_id = Some ''u-1''\<rparr>, bf_resource_id = ''o-1'',
      bf_reason_code = ''order_cancelled'', bf_source = HTTP, bf_request_id = ''req-1'',
      bf_before_state = Some [(Some (lit ''status''), A_Str (lit ''open''))],
      bf_after_state = Some [(Some (lit ''status''), A_Str (lit ''done''))], bf_context = None\<rparr>"

theorem business_events_witness:
  "\<exists>ev. build_business_event ascii_db (\<lambda>_. None) [(''orders.order.cancel'', sample_action)] sample_facts Outcome_succeeded = Inr ev \<and>
     business_audit_checks ev \<and> clean_payload ascii_db (\<lambda>_. None) (be_context ev)"
proof -
  let ?specs = "[(''orders.order.cancel'', sample_action)]"
  have "case build_business_event ascii_db (\<lambda>_. None) ?specs sample_facts Outcome_succeeded of Inl e \<Rightarrow> False
    | Inr ev \<Rightarrow> be_schema_version ev = 1 \<and> list_all (\<lambda>(j, limit). json_storable j \<and> float_free j) (payloads ev)"
    by code_simp
  then obtain ev where ev: "build_business_event ascii_db (\<lambda>_. None) ?specs sample_facts Outcome_succeeded = Inr ev"
    and small: "be_schema_version ev = 1" "\<forall>(j, limit) \<in> set (payloads ev). json_storable j \<and> float_free j"
    by (auto simp: list_all_iff split: sum.splits)
  have "\<not> isl (new_business_action_spec ascii_db (\<lambda>_. None) sample_action)"
    by code_simp
  then have spec: "new_business_action_spec ascii_db (\<lambda>_. None) sample_action = Inr sample_action"
    by (cases "new_business_action_spec ascii_db (\<lambda>_. None) sample_action") (auto simp: new_business_action_spec_def bindE_Inr)
  have actor: "new_business_actor Business_user (Some ''u-1'') = Inr (bf_actor sample_facts)"
    by code_simp
  have writer: "new_business_writer ?specs = Inr ?specs"
    by (simp add: new_business_writer_def sample_action_def)
  have promise: "(business_audit_checks ev \<longleftrightarrow>
       be_schema_version ev < 2 ^ 15 \<and> (\<forall>(j, limit) \<in> set (payloads ev). fits_jsonb j limit)) \<and>
    (\<forall>(j, limit) \<in> set (payloads ev).
       clean_payload ascii_db (\<lambda>_. None) j \<and> (json_storable j \<and> float_free j \<longrightarrow> fits_jsonb j limit))"
    using business_events_follow_the_catalogue [OF writer _ actor ev] spec by simp
  have "(be_context ev, 4096) \<in> set (payloads ev)"
    by (simp add: payloads_def)
  with ev small promise show ?thesis
    by (intro exI [of _ ev]) auto
qed

text \<open>
  A schema version beyond the column: the specification and the row are accepted, and every
  insertion of such an event is refused by \<open>smallint\<close>.
\<close>

lemma accepted_version_without_column:
  "case new_business_action_spec ascii_db (\<lambda>_. None) (sample_action\<lparr>bs_schema_version := 40000\<rparr>) of
     Inl e \<Rightarrow> False
   | Inr spec \<Rightarrow>
       (case build_business_event ascii_db (\<lambda>_. None) [(''orders.order.cancel'', spec)] sample_facts Outcome_succeeded of
          Inl e \<Rightarrow> False | Inr ev \<Rightarrow> \<not> business_audit_checks ev)"
  by code_simp

text \<open>
  The two sizes of a payload with floats: \<open>json.dumps\<close> writes \<open>1e+308\<close> with six characters and
  PostgreSQL with 309, so fourteen of them pass the bound of the program and not the one of the
  context column.
\<close>

lemma written_floats: "map (\<lambda>t. length (numeric_text t)) [''1e+308'', ''2.5e-07'', ''0.5''] = [309, 10, 3]"
  by code_simp

end
