(* ===== verification/Localization.thy ===== *)
theory Localization
  imports Complex_Main "HOL-Library.Product_Lexorder" Audit_State Errors
begin

text \<open>
  The messages of \<open>app/core/i18n.py\<close>: the catalogues, the choice of a language from an
  \<open>Accept-Language\<close> header, the public hints of a validation error and the language headers.
  Python's \<open>float\<close> of a text is an argument: \<open>None\<close> when it raises \<open>ValueError\<close>, and otherwise a
  number, or \<open>None\<close> for a value that is not finite.
\<close>

type_synonym read_float = "pystr \<Rightarrow> rat option option"

subsection \<open>Catalogues\<close>

definition MESSAGE_KEYS :: "string list" where
  "MESSAGE_KEYS =
     [''common.success'', ''common.query_success'', ''common.created'', ''common.operation_success'',
      ''auth.captcha_created'', ''auth.registration_settings_updated'', ''auth.registration_succeeded'',
      ''auth.login_succeeded'', ''auth.logout_succeeded'', ''auth.password_changed_relogin'',
      ''auth.password_reset_succeeded'', ''auth.temporary_password_set'', ''auth.user_created'',
      ''auth.password_setup_relogin'', ''health.live'', ''health.ready'', ''error.bad_request'',
      ''error.unauthenticated'', ''error.forbidden'', ''error.password_change_required'', ''error.not_found'',
      ''error.method_not_allowed'', ''error.conflict'', ''error.stale_resource_version'',
      ''error.payload_too_large'', ''error.unsupported_media_type'', ''error.validation_failed'',
      ''error.rate_limited'', ''error.rate_limited_retry'', ''error.internal'', ''error.service_unavailable'',
      ''error.request_failed'', ''error.password_same_as_user_name'', ''error.password_common_or_weak'',
      ''error.user_name_taken'', ''error.registration_closed'', ''error.captcha_invalid'', ''validation.invalid'',
      ''validation.required'', ''validation.extra_forbidden'', ''validation.string_type'',
      ''validation.string_too_short'', ''validation.string_too_long'', ''validation.string_pattern'',
      ''validation.integer'', ''validation.boolean'', ''validation.uuid'', ''validation.list'',
      ''validation.list_length'', ''validation.number_range'', ''validation.literal'', ''validation.json_invalid'',
      ''validation.user_name_reserved'', ''validation.passwords_must_differ'', ''validation.role_fields_required'',
      ''validation.role_fields_not_null'', ''validation.permission_ids_unique'', ''validation.role_ids_unique'',
      ''validation.permission_keys_unique'']"

fun message_key_value :: "message_key \<Rightarrow> string" where
  "message_key_value ERROR_BAD_REQUEST = ''error.bad_request''"
| "message_key_value ERROR_UNAUTHENTICATED = ''error.unauthenticated''"
| "message_key_value ERROR_FORBIDDEN = ''error.forbidden''"
| "message_key_value ERROR_PASSWORD_CHANGE_REQUIRED = ''error.password_change_required''"
| "message_key_value ERROR_NOT_FOUND = ''error.not_found''"
| "message_key_value ERROR_METHOD_NOT_ALLOWED = ''error.method_not_allowed''"
| "message_key_value ERROR_CONFLICT = ''error.conflict''"
| "message_key_value ERROR_STALE_RESOURCE_VERSION = ''error.stale_resource_version''"
| "message_key_value ERROR_PAYLOAD_TOO_LARGE = ''error.payload_too_large''"
| "message_key_value ERROR_UNSUPPORTED_MEDIA_TYPE = ''error.unsupported_media_type''"
| "message_key_value ERROR_VALIDATION_FAILED = ''error.validation_failed''"
| "message_key_value ERROR_RATE_LIMITED = ''error.rate_limited''"
| "message_key_value ERROR_RATE_LIMITED_RETRY = ''error.rate_limited_retry''"
| "message_key_value ERROR_INTERNAL = ''error.internal''"
| "message_key_value ERROR_SERVICE_UNAVAILABLE = ''error.service_unavailable''"
| "message_key_value ERROR_REQUEST_FAILED = ''error.request_failed''"
| "message_key_value ERROR_PASSWORD_SAME_AS_USER_NAME = ''error.password_same_as_user_name''"
| "message_key_value ERROR_PASSWORD_COMMON_OR_WEAK = ''error.password_common_or_weak''"
| "message_key_value ERROR_USER_NAME_TAKEN = ''error.user_name_taken''"
| "message_key_value ERROR_REGISTRATION_CLOSED = ''error.registration_closed''"
| "message_key_value ERROR_CAPTCHA_INVALID = ''error.captcha_invalid''"

type_synonym catalog = "(pystr \<times> pystr) list"

text \<open>The file as \<open>json.loads\<close> reads it; \<open>None\<close> when it cannot be read.\<close>

definition load_catalog :: "json option \<Rightarrow> failure + catalog" where
  "load_catalog raw =
     (case raw of
        None \<Rightarrow> Inl (Runtime_error ''unable to load i18n catalog'')
      | Some (J_Obj members) \<Rightarrow>
          if list_ex (\<lambda>m. case snd m of J_Str s \<Rightarrow> strip s = [] | _ \<Rightarrow> True) members
          then Inl (Runtime_error ''invalid i18n catalog'')
          else if fst ` set members \<noteq> lit ` set MESSAGE_KEYS
          then Inl (Runtime_error ''i18n catalog key mismatch'')
          else Inr (map (\<lambda>m. (fst m, case snd m of J_Str s \<Rightarrow> s | _ \<Rightarrow> [])) members)
      | Some _ \<Rightarrow> Inl (Runtime_error ''invalid i18n catalog''))"

subsection \<open>Language ranges\<close>

definition DEFAULT_LOCALE :: string where "DEFAULT_LOCALE = ''zh-CN''"
definition SUPPORTED_LOCALES :: "string list" where "SUPPORTED_LOCALES = [''zh-CN'', ''en'']"
definition MAX_ACCEPT_LANGUAGE_LENGTH :: nat where "MAX_ACCEPT_LANGUAGE_LENGTH = 512"
definition MAX_LANGUAGE_RANGES :: nat where "MAX_LANGUAGE_RANGES = 20"

definition LANGUAGE_TAG_PATTERN :: rx where
  "LANGUAGE_TAG_PATTERN =
     (let letter = (\<lambda>c. is_lower c \<or> is_upper c) in
      Cat (Rep 1 8 (Cls letter)) (Star (Cat (Cls (\<lambda>c. c = 45)) (Rep 1 8 (Cls is_alnum_ascii)))))"

fun split_at :: "codepoint \<Rightarrow> pystr \<Rightarrow> pystr list" where
  "split_at sep [] = [[]]"
| "split_at sep (c # s) =
     (if c = sep then [] # split_at sep s
      else (case split_at sep s of [] \<Rightarrow> [[c]] | part # rest \<Rightarrow> (c # part) # rest))"

definition normalize_language_range :: "unicode_db \<Rightarrow> pystr \<Rightarrow> pystr option" where
  "normalize_language_range uc language_range =
     (let tag = map (\<lambda>c. if c = 95 then 45 else c) (strip language_range);
          normalized = uc_casefold uc tag in
      if normalized = lit ''*'' then Some normalized
      else if \<not> fullmatch LANGUAGE_TAG_PATTERN tag then None
      else Some normalized)"

definition match_specificity :: "pystr \<Rightarrow> string \<Rightarrow> int option" where
  "match_specificity language_range locale =
     (if language_range = lit ''*'' then Some 0
      else if locale = ''zh-CN''
      then map_of [(lit ''zh'', 1), (lit ''zh-hans'', 2), (lit ''zh-sg'', 2), (lit ''zh-cn'', 3)] language_range
      else if locale = ''en''
      then if language_range = lit ''en'' then Some 1
           else if take 3 language_range = lit ''en-'' then Some 2 else None
      else None)"

text \<open>
  The quality among the parameters of a range: the first \<open>q=\<close> decides, \<open>None\<close> if it is malformed,
  and there is quality 1 without one.
\<close>

fun quality_of :: "unicode_db \<Rightarrow> read_float \<Rightarrow> pystr list \<Rightarrow> rat option" where
  "quality_of uc read [] = Some 1"
| "quality_of uc read (parameter # rest) =
     (if take 2 (uc_casefold uc parameter) \<noteq> lit ''q='' then quality_of uc read rest
      else
      case read (strip (drop 2 parameter)) of
        Some (Some quality) \<Rightarrow> if 0 \<le> quality \<and> quality \<le> 1 then Some quality else None
      | _ \<Rightarrow> None)"

text \<open>One element of the header: its range and its quality, if it counts.\<close>

definition parse_range :: "unicode_db \<Rightarrow> read_float \<Rightarrow> pystr \<Rightarrow> (pystr \<times> rat) option" where
  "parse_range uc read raw_range =
     (case map strip (split_at 59 raw_range) of
        [] \<Rightarrow> None
      | first # parameters \<Rightarrow>
          if first = [] then None
          else Option.bind (normalize_language_range uc first) (\<lambda>language_range.
               map_option (\<lambda>quality. (language_range, quality)) (quality_of uc read parameters)))"

definition parsed_ranges :: "unicode_db \<Rightarrow> read_float \<Rightarrow> pystr \<Rightarrow> (pystr \<times> rat \<times> int) list" where
  "parsed_ranges uc read accept_language =
     concat (map (\<lambda>(position, raw_range).
         case parse_range uc read raw_range of
           None \<Rightarrow> []
         | Some (language_range, quality) \<Rightarrow> [(language_range, quality, int position)])
       (enumerate 0 (take MAX_LANGUAGE_RANGES (split_at 44 accept_language))))"

text \<open>Python's \<open>max\<close> and \<open>min\<close> of a list, by a key; the first of equals.\<close>

fun best_from :: "('a \<Rightarrow> 'k::linorder) \<Rightarrow> 'a \<Rightarrow> 'a list \<Rightarrow> 'a" where
  "best_from key x [] = x"
| "best_from key x (y # ys) = best_from key (if key x < key y then y else x) ys"

fun least_from :: "('a \<Rightarrow> 'k::linorder) \<Rightarrow> 'a \<Rightarrow> 'a list \<Rightarrow> 'a" where
  "least_from key x [] = x"
| "least_from key x (y # ys) = least_from key (if key y < key x then y else x) ys"

fun best :: "('a \<Rightarrow> 'k::linorder) \<Rightarrow> 'a list \<Rightarrow> 'a option" where
  "best key [] = None"
| "best key (x # xs) = Some (best_from key x xs)"

fun least :: "('a \<Rightarrow> 'k::linorder) \<Rightarrow> 'a list \<Rightarrow> 'a option" where
  "least key [] = None"
| "least key (x # xs) = Some (least_from key x xs)"

text \<open>The most specific match of a locale, then the best quality, then the first.\<close>

definition effective_match :: "(pystr \<times> rat \<times> int) list \<Rightarrow> string \<Rightarrow> (rat \<times> int \<times> int) option" where
  "effective_match ranges locale =
     map_option (\<lambda>(specificity, quality, position). (quality, specificity, position))
       (best (\<lambda>(specificity, quality, position). (specificity, quality, - position))
         (concat (map (\<lambda>(language_range, quality, position).
            case match_specificity language_range locale of
              None \<Rightarrow> [] | Some specificity \<Rightarrow> [(specificity, quality, position)]) ranges)))"

definition locale_candidates :: "(pystr \<times> rat \<times> int) list \<Rightarrow> (rat \<times> bool \<times> int \<times> nat \<times> string) list" where
  "locale_candidates ranges =
     concat (map (\<lambda>(locale_index, locale).
       case effective_match ranges locale of
         None \<Rightarrow> []
       | Some (quality, specificity, position) \<Rightarrow>
           if quality > 0 then [(- quality, specificity = 0, position, locale_index, locale)] else [])
       (enumerate 0 SUPPORTED_LOCALES))"

text \<open>
  The end of \<open>select_locale\<close>, over the ranges that were read. Positions and indexes differ, so the
  locale itself never decides the minimum.
\<close>

definition choose_locale :: "(pystr \<times> rat \<times> int) list \<Rightarrow> string" where
  "choose_locale ranges =
     (case least (\<lambda>(q, any, position, index, locale). (q, any, position, index)) (locale_candidates ranges) of
        Some (_, _, _, _, locale) \<Rightarrow> locale
      | None \<Rightarrow>
          (case effective_match ranges DEFAULT_LOCALE of
             Some (quality, _, _) \<Rightarrow>
               if quality = 0
               then (case find (\<lambda>locale. locale \<noteq> DEFAULT_LOCALE \<and> effective_match ranges locale = None) SUPPORTED_LOCALES of
                       Some locale \<Rightarrow> locale | None \<Rightarrow> DEFAULT_LOCALE)
               else DEFAULT_LOCALE
           | None \<Rightarrow> DEFAULT_LOCALE))"

definition select_locale :: "unicode_db \<Rightarrow> read_float \<Rightarrow> pystr option \<Rightarrow> string" where
  "select_locale uc read accept_language =
     (let header = (case accept_language of None \<Rightarrow> [] | Some h \<Rightarrow> h) in
      if header = [] \<or> length header > MAX_ACCEPT_LANGUAGE_LENGTH \<or> list_ex (\<lambda>c. c < 32 \<and> c \<noteq> 9) header
      then DEFAULT_LOCALE
      else choose_locale (parsed_ranges uc read header))"

text \<open>
  \<open>locale_for_request\<close>: the language kept on the request if it is one of the catalogues, else
  the language of the header, which is then kept.
\<close>

definition locale_for_request :: "unicode_db \<Rightarrow> read_float \<Rightarrow> string option \<Rightarrow> pystr option \<Rightarrow> string" where
  "locale_for_request uc read kept accept_language =
     (case kept of
        Some locale \<Rightarrow> if locale \<in> set SUPPORTED_LOCALES then locale else select_locale uc read accept_language
      | None \<Rightarrow> select_locale uc read accept_language)"

definition translate :: "(string \<times> catalog) list \<Rightarrow> string \<Rightarrow> string \<Rightarrow> failure + pystr" where
  "translate catalogs locale key =
     (case Option.bind (map_of catalogs locale) (\<lambda>c. map_of c (lit key)) of
        None \<Rightarrow> Inl Key_error | Some s \<Rightarrow> Inr s)"

subsection \<open>Validation errors\<close>

datatype location_item = Loc_text pystr | Loc_index int

record validation_error =
  ve_type :: "pystr option"
  ve_location :: "location_item list option"

definition VALIDATION_MESSAGE_KEYS :: "(string \<times> string) list" where
  "VALIDATION_MESSAGE_KEYS =
     [(''missing'', ''validation.required''), (''extra_forbidden'', ''validation.extra_forbidden''),
      (''string_type'', ''validation.string_type''), (''string_too_short'', ''validation.string_too_short''),
      (''string_too_long'', ''validation.string_too_long''), (''string_pattern_mismatch'', ''validation.string_pattern''),
      (''int_type'', ''validation.integer''), (''int_parsing'', ''validation.integer''),
      (''bool_type'', ''validation.boolean''), (''bool_parsing'', ''validation.boolean''),
      (''uuid_type'', ''validation.uuid''), (''uuid_parsing'', ''validation.uuid''),
      (''list_type'', ''validation.list''), (''too_short'', ''validation.list_length''),
      (''too_long'', ''validation.list_length''), (''greater_than'', ''validation.number_range''),
      (''greater_than_equal'', ''validation.number_range''), (''less_than'', ''validation.number_range''),
      (''less_than_equal'', ''validation.number_range''), (''literal_error'', ''validation.literal''),
      (''enum'', ''validation.literal''), (''json_invalid'', ''validation.json_invalid''),
      (''username_reserved'', ''validation.user_name_reserved''),
      (''passwords_must_differ'', ''validation.passwords_must_differ''),
      (''role_fields_required'', ''validation.role_fields_required''),
      (''role_fields_not_null'', ''validation.role_fields_not_null''),
      (''permission_ids_unique'', ''validation.permission_ids_unique''),
      (''role_ids_unique'', ''validation.role_ids_unique''),
      (''permission_keys_unique'', ''validation.permission_keys_unique'')]"

definition validation_message :: "(string \<times> catalog) list \<Rightarrow> string \<Rightarrow> validation_error \<Rightarrow> failure + pystr" where
  "validation_message catalogs locale e =
     translate catalogs locale
       (case Option.bind (ve_type e) (map_of (map (\<lambda>(k, v). (lit k, v)) VALIDATION_MESSAGE_KEYS)) of
          None \<Rightarrow> ''validation.invalid'' | Some key \<Rightarrow> key)"

definition PUBLIC_FIELD_PATTERN :: rx where
  "PUBLIC_FIELD_PATTERN = Cat (Cls (\<lambda>c. is_lower c \<or> is_upper c \<or> c = 95)) (Upto 63 (Cls (\<lambda>c. is_alnum_ascii c \<or> c = 95 \<or> c = 45)))"

definition PUBLIC_LOCATION_ROOTS :: "pystr list" where
  "PUBLIC_LOCATION_ROOTS = map lit [''body'', ''query'', ''path'', ''header'', ''cookie'']"

definition validation_field :: "validation_error \<Rightarrow> pystr" where
  "validation_field e =
     (case ve_location e of
        Some (Loc_text origin # rest) \<Rightarrow>
          if origin \<notin> set PUBLIC_LOCATION_ROOTS then lit ''request''
          else if ve_type e = Some (lit ''extra_forbidden'') then origin
          else (case rest of
              Loc_text field # _ \<Rightarrow> if fullmatch PUBLIC_FIELD_PATTERN field then origin @ [46] @ field else origin
            | _ \<Rightarrow> origin)
      | _ \<Rightarrow> lit ''request'')"

subsection \<open>Response headers\<close>

text \<open>
  \<open>MutableHeaders\<close>: names are lower case; setting one replaces its first value and drops the
  others, or appends.
\<close>

type_synonym headers = "(pystr \<times> pystr) list"

fun set_header :: "pystr \<Rightarrow> pystr \<Rightarrow> headers \<Rightarrow> headers" where
  "set_header name v [] = [(name, v)]"
| "set_header name v (m # rest) =
     (if fst m = name then (name, v) # filter (\<lambda>n. fst n \<noteq> name) rest else m # set_header name v rest)"

fun join_header :: "pystr list \<Rightarrow> pystr" where
  "join_header [] = []"
| "join_header [s] = s"
| "join_header (s # rest) = s @ [44, 32] @ join_header rest"

definition apply_language_headers :: "unicode_db \<Rightarrow> string \<Rightarrow> headers \<Rightarrow> headers" where
  "apply_language_headers uc locale h =
     (let h = set_header (lit ''content-language'') (lit locale) h;
          given = (case map_of h (lit ''vary'') of None \<Rightarrow> [] | Some v \<Rightarrow> v);
          vary = filter (\<lambda>item. item \<noteq> []) (map strip (split_at 44 given)) in
      set_header (lit ''vary'')
        (join_header (if list_ex (\<lambda>item. uc_casefold uc item = lit ''accept-language'') vary then vary
                      else vary @ [lit ''Accept-Language''])) h)"

subsection \<open>What the choice of a language promises\<close>

lemma best_from:
  "best_from key x xs \<in> set (x # xs) \<and> key x \<le> key (best_from key x xs) \<and>
     (\<forall>y\<in>set xs. key y \<le> key (best_from key x xs))"
proof (induction xs arbitrary: x)
  case (Cons y ys)
  show ?case
    using Cons.IH [of x] Cons.IH [of y] by (cases "key x < key y") (auto simp: not_less)
qed simp

lemma least_from:
  "least_from key x xs \<in> set (x # xs) \<and> key (least_from key x xs) \<le> key x \<and>
     (\<forall>y\<in>set xs. key (least_from key x xs) \<le> key y)"
proof (induction xs arbitrary: x)
  case (Cons y ys)
  show ?case
    using Cons.IH [of x] Cons.IH [of y] by (cases "key y < key x") (auto simp: not_less)
qed simp

lemma best_greatest: "best key xs = Some x \<Longrightarrow> x \<in> set xs \<and> (\<forall>y\<in>set xs. key y \<le> key x)"
  using best_from [of key] by (cases xs) auto

lemma least_least: "least key xs = Some x \<Longrightarrow> x \<in> set xs \<and> (\<forall>y\<in>set xs. key x \<le> key y)"
  using least_from [of key] by (cases xs) auto

lemma best_None [simp]: "best key xs = None \<longleftrightarrow> xs = []"
  by (cases xs) simp_all

lemma least_None [simp]: "least key xs = None \<longleftrightarrow> xs = []"
  by (cases xs) simp_all

text \<open>A locale has a match exactly if some range of the header matches it.\<close>

lemma effective_match_None:
  "effective_match ranges locale = None \<longleftrightarrow>
     (\<forall>(language_range, quality, position)\<in>set ranges. match_specificity language_range locale = None)"
  by (auto simp: effective_match_def split: option.splits)

text \<open>The match that counts is one of the header, and no more specific one is.\<close>

lemma effective_match_Some:
  assumes "effective_match ranges locale = Some (quality, specificity, position)"
  shows "(\<exists>language_range. (language_range, quality, position) \<in> set ranges \<and>
            match_specificity language_range locale = Some specificity) \<and>
         (\<forall>(r, q, p)\<in>set ranges. \<forall>s. match_specificity r locale = Some s \<longrightarrow>
            s < specificity \<or> s = specificity \<and> (q < quality \<or> q = quality \<and> position \<le> p))"
  using assms
  by (fastforce simp: effective_match_def less_eq_prod_def dest!: best_greatest split: option.splits)

lemma candidate_locale:
  "(q, any, position, index, locale) \<in> set (locale_candidates ranges) \<longleftrightarrow>
     (\<exists>specificity. effective_match ranges locale = Some (- q, specificity, position) \<and> - q > 0 \<and>
        (any \<longleftrightarrow> specificity = 0) \<and> (locale = ''zh-CN'' \<and> index = 0 \<or> locale = ''en'' \<and> index = 1))"
  by (force simp: locale_candidates_def SUPPORTED_LOCALES_def split: option.splits if_splits)

lemma locale_candidates_Nil:
  "locale_candidates ranges = [] \<longleftrightarrow>
     (\<forall>locale\<in>set SUPPORTED_LOCALES. \<forall>q s p. effective_match ranges locale = Some (q, s, p) \<longrightarrow> \<not> 0 < q)"
  by (auto simp: locale_candidates_def SUPPORTED_LOCALES_def split: option.splits)


lemma choose_locale_supported: "choose_locale ranges \<in> set SUPPORTED_LOCALES"
proof (cases "least (\<lambda>(q, any, position, index, locale). (q, any, position, index)) (locale_candidates ranges)")
  case None
  then show ?thesis
    by (auto simp: choose_locale_def find_Some_iff DEFAULT_LOCALE_def SUPPORTED_LOCALES_def split: option.splits)
next
  case (Some c)
  then show ?thesis
    by (cases c) (auto simp: choose_locale_def candidate_locale SUPPORTED_LOCALES_def dest!: least_least)
qed

lemma select_locale_supported: "select_locale uc read accept_language \<in> set SUPPORTED_LOCALES"
  using choose_locale_supported
  by (simp add: select_locale_def Let_def DEFAULT_LOCALE_def SUPPORTED_LOCALES_def)

lemma locale_for_request_supported: "locale_for_request uc read kept accept_language \<in> set SUPPORTED_LOCALES"
  using select_locale_supported by (auto simp: locale_for_request_def split: option.splits)

text \<open>The choice is a locale of the best quality, if the header accepts any at all.\<close>

lemma choose_locale_best:
  assumes given: "effective_match ranges locale = Some (q, s, p)" "0 < q" "locale \<in> set SUPPORTED_LOCALES"
  shows "\<exists>q' s' p'. effective_match ranges (choose_locale ranges) = Some (q', s', p') \<and> q \<le> q'"
proof -
  define key :: "rat \<times> bool \<times> int \<times> nat \<times> string \<Rightarrow> rat \<times> bool \<times> int \<times> nat"
    where "key = (\<lambda>(q, any, position, index, locale). (q, any, position, index))"
  obtain index where mine: "(- q, s = 0, p, index, locale) \<in> set (locale_candidates ranges)"
    using given by (auto simp: candidate_locale SUPPORTED_LOCALES_def)
  then obtain c where c: "least key (locale_candidates ranges) = Some c"
    by (cases "least key (locale_candidates ranges)") auto
  obtain q' any' p' index' l where parts: "c = (q', any', p', index', l)" by (cases c)
  have "c \<in> set (locale_candidates ranges)" "key c \<le> key (- q, s = 0, p, index, locale)"
    using least_least [OF c] mine by auto
  then show ?thesis
    using c parts by (auto simp: choose_locale_def key_def candidate_locale less_eq_prod_def)
qed

text \<open>A language the header refuses is chosen only if it refuses all.\<close>

lemma choose_locale_refused:
  assumes refused: "effective_match ranges (choose_locale ranges) = Some (q, s, p)" "q \<le> 0"
    and nonneg: "\<forall>(_, quality, _)\<in>set ranges. 0 \<le> quality"
    and member: "locale \<in> set SUPPORTED_LOCALES"
  shows "\<exists>s' p'. effective_match ranges locale = Some (0, s', p')"
proof -
  have zero: "q' = 0 \<or> 0 < q'" if "effective_match ranges l = Some (q', s', p')" for l q' s' p'
    using effective_match_Some [OF that] nonneg by fastforce
  have none: "\<not> 0 < q'" if "effective_match ranges l = Some (q', s', p')" "l \<in> set SUPPORTED_LOCALES" for l q' s' p'
    using choose_locale_best [OF that(1) _ that(2)] refused by fastforce
  then have empty: "locale_candidates ranges = []" by (auto simp: locale_candidates_Nil)
  have all_zero: "\<exists>s' p'. m = (0, s', p')" if "effective_match ranges l = Some m" "l \<in> set SUPPORTED_LOCALES" for l m
    using zero none that by (cases m) fastforce
  obtain m0 where m0: "effective_match ranges ''zh-CN'' = Some m0"
    using refused empty
    by (cases "effective_match ranges ''zh-CN''") (auto simp: choose_locale_def DEFAULT_LOCALE_def)
  then obtain s0 p0 where zh: "effective_match ranges ''zh-CN'' = Some (0, s0, p0)"
    using all_zero by (fastforce simp: SUPPORTED_LOCALES_def)
  obtain m1 where "effective_match ranges ''en'' = Some m1"
    using refused empty zh
    by (cases "effective_match ranges ''en''")
       (auto simp: choose_locale_def DEFAULT_LOCALE_def SUPPORTED_LOCALES_def)
  then obtain s1 p1 where en: "effective_match ranges ''en'' = Some (0, s1, p1)"
    using all_zero by (fastforce simp: SUPPORTED_LOCALES_def)
  show ?thesis
    using zh en member by (auto simp: SUPPORTED_LOCALES_def)
qed

text \<open>Every quality that is read is between nought and one.\<close>

lemma quality_of_range: "quality_of uc read ps = Some q \<Longrightarrow> 0 \<le> q \<and> q \<le> 1"
  by (induction ps) (auto split: if_splits option.splits)

lemma parse_range_quality: "parse_range uc read raw = Some (r, q) \<Longrightarrow> 0 \<le> q \<and> q \<le> 1"
  by (auto simp: parse_range_def bind_eq_Some_conv split: list.splits if_splits dest: quality_of_range)

lemma parsed_ranges_quality: "(r, q, p) \<in> set (parsed_ranges uc read h) \<Longrightarrow> 0 \<le> q \<and> q \<le> 1"
proof -
  assume "(r, q, p) \<in> set (parsed_ranges uc read h)"
  then obtain raw where "parse_range uc read raw = Some (r, q)"
    by (force simp: parsed_ranges_def split: option.splits)
  then show ?thesis by (rule parse_range_quality)
qed

lemma length_concat_le: "\<forall>x. length (f x) \<le> 1 \<Longrightarrow> length (concat (map f xs)) \<le> length xs"
proof (induction xs)
  case (Cons x xs)
  have "length (f x) \<le> 1" using Cons.prems by blast
  then show ?case using add_mono [OF _ Cons.IH [OF Cons.prems], of "length (f x)" 1] by simp
qed simp

lemma parsed_ranges_bounded: "length (parsed_ranges uc read h) \<le> MAX_LANGUAGE_RANGES"
proof -
  have "length (parsed_ranges uc read h) \<le> length (enumerate 0 (take MAX_LANGUAGE_RANGES (split_at 44 h)))"
    unfolding parsed_ranges_def by (rule length_concat_le) (auto split: option.splits)
  then show ?thesis by simp
qed

subsection \<open>What the other parts promise\<close>

text \<open>A catalogue that loads has a message for every key, so no translation fails.\<close>

lemma loaded_catalog_complete:
  "load_catalog raw = Inr c \<Longrightarrow> fst ` set c = lit ` set MESSAGE_KEYS \<and> (\<forall>m\<in>set c. strip (snd m) \<noteq> [])"
  by (force simp: load_catalog_def list_ex_iff image_image split: option.splits json.splits if_splits)

lemma translate_total:
  assumes loaded: "\<forall>locale\<in>set SUPPORTED_LOCALES. \<exists>raw c. map_of catalogs locale = Some c \<and> load_catalog raw = Inr c"
    and "locale \<in> set SUPPORTED_LOCALES" "key \<in> set MESSAGE_KEYS"
  shows "\<exists>message. translate catalogs locale key = Inr message \<and> strip message \<noteq> []"
proof -
  obtain raw c where c: "map_of catalogs locale = Some c" "load_catalog raw = Inr c"
    using loaded assms(2) by blast
  then have "lit key \<in> fst ` set c" using loaded_catalog_complete assms(3) by blast
  then obtain message where "map_of c (lit key) = Some message"
    by (cases "map_of c (lit key)") (auto simp: map_of_eq_None_iff)
  then show ?thesis
    using c loaded_catalog_complete [OF c(2)] map_of_SomeD by (fastforce simp: translate_def)
qed

lemma message_keys: "message_key_value k \<in> set MESSAGE_KEYS"
  by (cases k) (simp_all add: MESSAGE_KEYS_def)

lemma validation_message_total:
  assumes "\<forall>locale\<in>set SUPPORTED_LOCALES. \<exists>raw c. map_of catalogs locale = Some c \<and> load_catalog raw = Inr c"
    and "locale \<in> set SUPPORTED_LOCALES"
  shows "\<exists>message. validation_message catalogs locale e = Inr message \<and> strip message \<noteq> []"
proof -
  have "list_all (\<lambda>m. snd m \<in> set MESSAGE_KEYS) VALIDATION_MESSAGE_KEYS" "''validation.invalid'' \<in> set MESSAGE_KEYS"
    by (simp_all add: MESSAGE_KEYS_def VALIDATION_MESSAGE_KEYS_def)
  then have "(case Option.bind (ve_type e) (map_of (map (\<lambda>(k, v). (lit k, v)) VALIDATION_MESSAGE_KEYS)) of
        None \<Rightarrow> ''validation.invalid'' | Some key \<Rightarrow> key) \<in> set MESSAGE_KEYS"
    by (force simp: list_all_iff split: option.splits dest!: bind_eq_Some_conv [THEN iffD1] map_of_SomeD)
  then show ?thesis
    unfolding validation_message_def by (rule translate_total [OF assms])
qed

text \<open>
  The hint of a field: one of the fixed roots, or a root, a point and a short name of letters, digits,
  \<open>_\<close> and \<open>-\<close>, whatever the client sent; and never a name for a field that is not known.
\<close>

lemma validation_field_shape:
  "validation_field e \<in> insert (lit ''request'') (set PUBLIC_LOCATION_ROOTS) \<or>
   (\<exists>origin name. validation_field e = origin @ [46] @ name \<and> origin \<in> set PUBLIC_LOCATION_ROOTS \<and>
      fullmatch PUBLIC_FIELD_PATTERN name \<and> ve_type e \<noteq> Some (lit ''extra_forbidden''))"
  by (auto simp: validation_field_def split: option.splits list.splits location_item.splits)

text \<open>The headers name the language and the request header it depends on, whatever was there.\<close>

lemma map_of_filter_other: "name' \<noteq> name \<Longrightarrow> map_of (filter (\<lambda>n. fst n \<noteq> name) h) name' = map_of h name'"
  by (induction h) auto

lemma set_header_get: "map_of (set_header name v h) name' = (if name' = name then Some v else map_of h name')"
  by (induction h) (auto simp: map_of_filter_other)

lemma language_headers:
  "map_of (apply_language_headers uc locale h) (lit ''content-language'') = Some (lit locale)"
  by (simp add: apply_language_headers_def Let_def set_header_get lit_def)

end
