(* ===== verification/Responses.thy ===== *)
theory Responses
  imports Requests Localization Session_Laws
begin

text \<open>
  What the client gets for an error: the envelope and headers of \<open>app/core/api_contract.py\<close>, the
  exception handlers of \<open>app/main.py\<close> and its health routes. The request state the code writes
  (identifier, language, business code) is threaded through. The records the handlers log are left
  out, and so is how Starlette finds the handler of an exception by its class.
\<close>

subsection \<open>The envelope\<close>

record reply_request = http_request +
  rq_accept_language :: "pystr option"
  rq_locale :: "string option"
  rq_business_code :: "int option"

text \<open>Catalogues, text library, and the random identifier \<open>uuid4\<close> would draw.\<close>

record reply_env =
  re_catalogs :: "(string \<times> catalog) list"
  re_unicode :: unicode_db
  re_float :: read_float
  re_fresh :: uuid

record envelope =
  en_code :: int
  en_message :: pystr
  en_data :: "(pystr \<times> pystr) list option"
  en_request_id :: string

record reply =
  ry_status :: int
  ry_content :: envelope
  ry_headers :: headers

text \<open>\<open>request_id_for\<close> and \<open>locale_for_request\<close> keep what they find on the request.\<close>

definition keep_request_id :: "reply_env \<Rightarrow> reply_request \<Rightarrow> string \<times> reply_request" where
  "keep_request_id env rq =
     (let i = request_id_for (re_fresh env) (http_request.truncate rq) in (i, rq\<lparr>rq_request_id := Some (lit i)\<rparr>))"

definition keep_locale :: "reply_env \<Rightarrow> reply_request \<Rightarrow> string \<times> reply_request" where
  "keep_locale env rq =
     (let locale = locale_for_request (re_unicode env) (re_float env) (rq_locale rq) (rq_accept_language rq) in
      (locale, rq\<lparr>rq_locale := Some locale\<rparr>))"

text \<open>The model \<open>ApiResponse\<close> refuses a code out of range and an empty message.\<close>

definition localized_response ::
    "reply_env \<Rightarrow> reply_request \<Rightarrow> int \<Rightarrow> string \<Rightarrow> (pystr \<times> pystr) list option \<Rightarrow>
     failure + envelope \<times> reply_request" where
  "localized_response env rq code key data =
     (case keep_locale env (rq\<lparr>rq_business_code := Some code\<rparr>) of (locale, rq) \<Rightarrow>
      bindE (translate (re_catalogs env) locale key) (\<lambda>message.
      case keep_request_id env rq of (i, rq) \<Rightarrow>
        if \<not> (100000 \<le> code \<and> code \<le> 599999) \<or> message = [] then Inl (Value_error ''ApiResponse'')
        else Inr (\<lparr>en_code = code, en_message = message, en_data = data, en_request_id = i\<rparr>, rq)))"

definition error_content ::
    "reply_env \<Rightarrow> reply_request \<Rightarrow> int \<Rightarrow> message_key \<Rightarrow> (pystr \<times> pystr) list option \<Rightarrow>
     failure + envelope \<times> reply_request" where
  "error_content env rq code key data = localized_response env rq code (message_key_value key) data"

text \<open>A Python dictionary of headers, and the dictionary of a list of pairs.\<close>

fun dict_set :: "'k \<Rightarrow> 'v \<Rightarrow> ('k \<times> 'v) list \<Rightarrow> ('k \<times> 'v) list" where
  "dict_set k v [] = [(k, v)]"
| "dict_set k v (m # rest) = (if fst m = k then (k, v) # rest else m # dict_set k v rest)"

definition dict_default :: "pystr \<Rightarrow> pystr \<Rightarrow> headers \<Rightarrow> headers" where
  "dict_default k v h = (if k \<in> fst ` set h then h else h @ [(k, v)])"

definition dict_of :: "headers \<Rightarrow> headers" where
  "dict_of h = fold (\<lambda>(k, v). dict_set k v) h []"

definition request_id_headers :: "reply_env \<Rightarrow> reply_request \<Rightarrow> headers \<Rightarrow> headers \<times> reply_request" where
  "request_id_headers env rq h =
     (case keep_request_id env rq of (i, rq) \<Rightarrow>
      case keep_locale env rq of (locale, rq) \<Rightarrow>
        let result = dict_set (lit ''X-Request-ID'') (lit i) h;
            localized = apply_language_headers (re_unicode env) locale (map (\<lambda>(k, v). (ascii_lower k, v)) result) in
        (dict_of localized, rq))"

text \<open>\<open>JSONResponse(status_code=.., content=error_content(..), headers=request_id_headers(..))\<close>\<close>

definition json_error ::
    "reply_env \<Rightarrow> reply_request \<Rightarrow> int \<Rightarrow> int \<Rightarrow> message_key \<Rightarrow> (pystr \<times> pystr) list option \<Rightarrow> headers \<Rightarrow>
     failure + reply \<times> reply_request" where
  "json_error env rq status code key data h =
     bindE (error_content env rq code key data) (\<lambda>(content, rq).
       case request_id_headers env rq h of (h, rq) \<Rightarrow>
         Inr (\<lparr>ry_status = status, ry_content = content, ry_headers = h\<rparr>, rq))"

subsection \<open>The exception handlers\<close>

definition HTTP_ERROR_CONTRACT :: "(int \<times> business_code \<times> message_key) list" where
  "HTTP_ERROR_CONTRACT =
     [(400, BAD_REQUEST, ERROR_BAD_REQUEST), (401, INVALID_AUTHENTICATION, ERROR_UNAUTHENTICATED),
      (403, ACCESS_FORBIDDEN, ERROR_FORBIDDEN), (404, NOT_FOUND, ERROR_NOT_FOUND),
      (405, METHOD_NOT_ALLOWED, ERROR_METHOD_NOT_ALLOWED), (409, CONFLICT, ERROR_CONFLICT),
      (413, PAYLOAD_TOO_LARGE, ERROR_PAYLOAD_TOO_LARGE),
      (415, UNSUPPORTED_MEDIA_TYPE, ERROR_UNSUPPORTED_MEDIA_TYPE),
      (422, VALIDATION_FAILED, ERROR_VALIDATION_FAILED), (429, RATE_LIMITED, ERROR_RATE_LIMITED),
      (500, INTERNAL_ERROR, ERROR_INTERNAL), (503, SERVICE_UNAVAILABLE, ERROR_SERVICE_UNAVAILABLE)]"

abbreviation no_store :: "pystr \<times> pystr" where
  "no_store \<equiv> (lit ''Cache-Control'', lit ''no-store'')"

abbreviation bearer :: "pystr \<times> pystr" where
  "bearer \<equiv> (lit ''WWW-Authenticate'', lit ''Bearer'')"

type_synonym answer = "failure + reply \<times> reply_request"

text \<open>Every message of a validation error is translated before the envelope is built.\<close>

definition handle_request_validation_error :: "reply_env \<Rightarrow> reply_request \<Rightarrow> validation_error list \<Rightarrow> answer" where
  "handle_request_validation_error env rq errors =
     (case (if errors = [] then (DEFAULT_LOCALE, rq) else keep_locale env rq) of (locale, rq) \<Rightarrow>
      bindE (mapE (\<lambda>e. bindE (validation_message (re_catalogs env) locale e) (\<lambda>m. Inr (validation_field e, m))) errors)
        (\<lambda>items. json_error env rq 422 (business_code_value VALIDATION_FAILED) ERROR_VALIDATION_FAILED (Some items)
                   [no_store]))"

definition handle_access_error :: "reply_env \<Rightarrow> reply_request \<Rightarrow> rbac_error \<Rightarrow> answer" where
  "handle_access_error env rq e =
     json_error env rq (status_code e) (business_code_value (business_code e)) (message_key e) None
       (if status_code e = 401 then [no_store, bearer] else [no_store])"

definition handle_rate_limit_exceeded :: "reply_env \<Rightarrow> reply_request \<Rightarrow> rate_limit_result \<Rightarrow> answer" where
  "handle_rate_limit_exceeded env rq result =
     json_error env rq 429 (business_code_value RATE_LIMITED) ERROR_RATE_LIMITED_RETRY None
       (map (\<lambda>(k, v). (lit k, v)) (semantic_rate_limit_headers result))"

definition handle_invalid_login_credentials :: "reply_env \<Rightarrow> reply_request \<Rightarrow> answer" where
  "handle_invalid_login_credentials env rq =
     json_error env rq 401 (business_code_value INVALID_AUTHENTICATION) ERROR_UNAUTHENTICATED None [bearer, no_store]"

definition handle_rate_limit_unavailable :: "reply_env \<Rightarrow> reply_request \<Rightarrow> answer" where
  "handle_rate_limit_unavailable env rq =
     json_error env rq 503 (business_code_value SERVICE_UNAVAILABLE) ERROR_SERVICE_UNAVAILABLE None [no_store]"

definition http_contract :: "int \<Rightarrow> failure + int \<times> int \<times> message_key" where
  "http_contract status =
     (case map_of HTTP_ERROR_CONTRACT status of
        Some (code, key) \<Rightarrow> Inr (status, business_code_value code, key)
      | None \<Rightarrow>
          if 400 \<le> status \<and> status \<le> 599
          then bindE (generic_error_code status) (\<lambda>code. Inr (status, code, ERROR_REQUEST_FAILED))
          else Inr (500, business_code_value INTERNAL_ERROR, ERROR_INTERNAL))"

definition handle_http_error :: "reply_env \<Rightarrow> reply_request \<Rightarrow> int \<Rightarrow> headers \<Rightarrow> answer" where
  "handle_http_error env rq status given =
     bindE (http_contract status) (\<lambda>(status, code, key).
       let h = dict_default (fst no_store) (snd no_store) given;
           h = (if status = 401 then dict_default (fst bearer) (snd bearer) h else h) in
       json_error env rq status code key None h)"

definition handle_unexpected_error :: "reply_env \<Rightarrow> reply_request \<Rightarrow> answer" where
  "handle_unexpected_error env rq =
     json_error env rq 500 (business_code_value INTERNAL_ERROR) ERROR_INTERNAL None [no_store]"

text \<open>
  A database error is answered with 503 if it tells of an unavailable database. Any other is raised
  again, which ends in the handler of unexpected errors.
\<close>

definition handle_database_unavailable :: "reply_env \<Rightarrow> reply_request \<Rightarrow> db_exception \<Rightarrow> answer option" where
  "handle_database_unavailable env rq e =
     (case database_error_category e of
        None \<Rightarrow> None
      | Some _ \<Rightarrow>
          Some (json_error env rq 503 (business_code_value SERVICE_UNAVAILABLE) ERROR_SERVICE_UNAVAILABLE None [no_store]))"

text \<open>What a handler may raise, as the application registers the handlers.\<close>

datatype raised =
    Raised failure
  | Raised_validation "validation_error list"
  | Raised_http int headers
  | Raised_database db_exception

fun answer_error :: "reply_env \<Rightarrow> reply_request \<Rightarrow> raised \<Rightarrow> answer" where
  "answer_error env rq (Raised (Rbac e)) = handle_access_error env rq e"
| "answer_error env rq (Raised Invalid_login_credentials) = handle_invalid_login_credentials env rq"
| "answer_error env rq (Raised (Rate_limit_exceeded policy result)) = handle_rate_limit_exceeded env rq result"
| "answer_error env rq (Raised Rate_limit_unavailable) = handle_rate_limit_unavailable env rq"
| "answer_error env rq (Raised _) = handle_unexpected_error env rq"
| "answer_error env rq (Raised_validation errors) = handle_request_validation_error env rq errors"
| "answer_error env rq (Raised_http status given) = handle_http_error env rq status given"
| "answer_error env rq (Raised_database (Native_error e)) = handle_unexpected_error env rq"
| "answer_error env rq (Raised_database e) =
     (case handle_database_unavailable env rq e of
        Some reply \<Rightarrow> reply
      | None \<Rightarrow> handle_unexpected_error env rq)"

subsection \<open>Readiness\<close>

definition EXPECTED_ALEMBIC_HEAD :: string where "EXPECTED_ALEMBIC_HEAD = ''0004_password_auth''"
definition READINESS_REDIS_KEY_TTL_MS :: int where "READINESS_REDIS_KEY_TTL_MS = 5000"

text \<open>What the readiness query reads: the server, the table of migrations and \<open>rbac_state\<close>.\<close>

record postgres_view =
  pv_in_recovery :: bool
  pv_transaction_read_only :: string
  pv_versions :: "string list"
  pv_state :: "rbac_state option"

definition postgresql_ready :: "postgres_view \<Rightarrow> bool" where
  "postgresql_ready v \<longleftrightarrow>
     \<not> pv_in_recovery v \<and> pv_transaction_read_only v = ''off'' \<and> length (pv_versions v) = 1 \<and>
     EXPECTED_ALEMBIC_HEAD \<in> set (pv_versions v) \<and>
     (case pv_state v of None \<Rightarrow> False | Some s \<Rightarrow> 0 \<le> st_epoch s)"

abbreviation not_ready :: failure where
  "not_ready \<equiv> Runtime_error ''_ReadinessDependencyUnavailable''"

definition probe_postgresql :: "failure + postgres_view \<Rightarrow> failure + unit" where
  "probe_postgresql connection = bindE connection (\<lambda>v. raise_unless (postgresql_ready v) not_ready)"

definition readiness_script :: "string \<Rightarrow> pystr \<Rightarrow> int \<Rightarrow> int \<Rightarrow> (redis, redis_reply) proc" where
  "readiness_script probe_key probe_value ttl_ms now =
     (if ttl_ms \<le> 0 then returnP (Int_reply 0)
      else
      bindP (updateP (r_put probe_key (text_value probe_value) (Some (ms_of now + ttl_ms)))) (\<lambda>_.
      bindP (r_getP now probe_key) (\<lambda>found.
        if found \<noteq> Some probe_value
        then bindP (updateP (r_del probe_key)) (\<lambda>_. returnP (Int_reply 0))
        else (\<lambda>s. (Inr (Int_reply (if r_lookup now probe_key s = None then 0 else 1)), r_del probe_key s)))))"

text \<open>One probe: the client, if there is one, the two random texts, and the three calls.\<close>

record redis_probe =
  pb_client :: bool
  pb_namespace :: string
  pb_key_id :: uuid
  pb_value_id :: uuid
  pb_pong :: bool
  pb_ping_io :: redis_io
  pb_eval_io :: redis_io
  pb_delete_io :: redis_io

definition uuid_hex :: "uuid \<Rightarrow> string" where
  "uuid_hex u = hex_of 32 (unat (uuid_int u))"

definition readiness_key :: "redis_probe \<Rightarrow> string" where
  "readiness_key p = ''readiness:v1:'' @ pb_namespace p @ '':'' @ uuid_hex (pb_key_id p)"

definition best_effort_delete_readiness_key :: "redis_io \<Rightarrow> string \<Rightarrow> (redis, unit) proc" where
  "best_effort_delete_readiness_key io key =
     handleP (redis_call io (\<lambda>now s. (Inr (), r_del key s))) (\<lambda>_. returnP ())"

definition probe_redis :: "redis_probe \<Rightarrow> (redis, unit) proc" where
  "probe_redis p =
     (if \<not> pb_client p then raiseP not_ready
      else
      handleP
        (bindP (redis_call (pb_ping_io p) (\<lambda>now s. (Inr (pb_pong p), s))) (\<lambda>pong.
         if \<not> pong then raiseP not_ready
         else
         bindP (redis_call (pb_eval_io p)
                  (readiness_script (readiness_key p) (lit (uuid_hex (pb_value_id p))) READINESS_REDIS_KEY_TTL_MS))
           (\<lambda>result. if result \<noteq> Int_reply 1 then raiseP not_ready else returnP ())))
        (\<lambda>e. bindP (best_effort_delete_readiness_key (pb_delete_io p) (readiness_key p)) (\<lambda>_. raiseP e)))"

text \<open>A dependency is ready if its probe neither raises nor runs out of time.\<close>

definition run_readiness_check :: "failure + unit \<Rightarrow> bool" where
  "run_readiness_check r = (r = Inr ())"

definition liveness :: "reply_env \<Rightarrow> reply_request \<Rightarrow> answer" where
  "liveness env rq =
     bindE (localized_response env rq (business_code_value OK) ''health.live'' (Some [(lit ''status'', lit ''ok'')]))
       (\<lambda>(content, rq). Inr (\<lparr>ry_status = 200, ry_content = content, ry_headers = []\<rparr>, rq))"

definition readiness :: "reply_env \<Rightarrow> reply_request \<Rightarrow> (failure + unit) list \<Rightarrow> answer" where
  "readiness env rq results =
     (if \<not> list_all run_readiness_check results
      then json_error env rq 503 (business_code_value SERVICE_UNAVAILABLE) ERROR_SERVICE_UNAVAILABLE None [no_store]
      else
      bindE (localized_response env rq (business_code_value OK) ''health.ready'' (Some [(lit ''status'', lit ''ready'')]))
        (\<lambda>(content, rq). Inr (\<lparr>ry_status = 200, ry_content = content, ry_headers = [no_store]\<rparr>, rq)))"

subsection \<open>What an answer holds\<close>

text \<open>The catalogues the application loads at its start.\<close>

definition catalogs_loaded :: "(string \<times> catalog) list \<Rightarrow> bool" where
  "catalogs_loaded catalogs \<longleftrightarrow>
     (\<forall>locale\<in>set SUPPORTED_LOCALES. \<exists>raw c. map_of catalogs locale = Some c \<and> load_catalog raw = Inr c)"

lemma keep_locale_supported: "keep_locale env rq = (locale, rq') \<Longrightarrow> locale \<in> set SUPPORTED_LOCALES"
  by (auto simp: keep_locale_def Let_def locale_for_request_supported)

lemma strip_nonempty: "strip s \<noteq> [] \<Longrightarrow> s \<noteq> []"
  by (auto simp: strip_def)

lemma localized_response_total:
  assumes "catalogs_loaded (re_catalogs env)" "key \<in> set MESSAGE_KEYS" "100000 \<le> code" "code \<le> 599999"
  shows "\<exists>c rq'. localized_response env rq code key data = Inr (c, rq') \<and> en_code c = code \<and> en_data c = data"
proof -
  obtain l rq1 where k: "keep_locale env (rq\<lparr>rq_business_code := Some code\<rparr>) = (l, rq1)" by fastforce
  obtain i rq2 where i: "keep_request_id env rq1 = (i, rq2)" by fastforce
  obtain message where "translate (re_catalogs env) l key = Inr message" "strip message \<noteq> []"
    using translate_total assms keep_locale_supported [OF k] unfolding catalogs_loaded_def by blast
  then show ?thesis using k i assms strip_nonempty by (auto simp: localized_response_def)
qed

lemma json_error_total:
  assumes "catalogs_loaded (re_catalogs env)" "100000 \<le> code" "code \<le> 599999"
  shows "\<exists>r rq'. json_error env rq status code key data h = Inr (r, rq') \<and> ry_status r = status \<and>
     en_code (ry_content r) = code \<and> en_data (ry_content r) = data"
proof -
  obtain c rq1 where c: "error_content env rq code key data = Inr (c, rq1)" "en_code c = code" "en_data c = data"
    using localized_response_total [OF assms(1) message_keys assms(2,3)] unfolding error_content_def by blast
  obtain h' rq2 where "request_id_headers env rq1 h = (h', rq2)" by fastforce
  with c show ?thesis by (simp add: json_error_def)
qed

text \<open>A header with one value, whatever the number of times it is given.\<close>

definition sole :: "pystr \<Rightarrow> pystr \<Rightarrow> headers \<Rightarrow> bool" where
  "sole k v h \<longleftrightarrow> (k, v) \<in> set h \<and> (\<forall>m\<in>set h. fst m = k \<longrightarrow> snd m = v)"

lemma set_header_members: "set (set_header name v h) = insert (name, v) {m \<in> set h. fst m \<noteq> name}"
  by (induction h) auto

lemma sole_set_header: "sole k v (set_header name w h) \<longleftrightarrow> (if k = name then v = w else sole k v h)"
  by (auto simp: sole_def set_header_members)

lemma language_headers_sole:
  "k \<notin> {lit ''content-language'', lit ''vary''} \<Longrightarrow> sole k v (apply_language_headers uc l h) \<longleftrightarrow> sole k v h"
  by (simp add: apply_language_headers_def Let_def sole_set_header)

lemma language_header_sole: "sole (lit ''content-language'') (lit l) (apply_language_headers uc l h)"
  by (simp add: apply_language_headers_def Let_def sole_set_header lit_inject)

lemma map_of_dict_set: "map_of (dict_set k v h) k' = (if k' = k then Some v else map_of h k')"
  by (induction h) auto

lemma map_of_dict_fold: "map_of (fold (\<lambda>(k, v). dict_set k v) h d) = map_of d ++ map_of (rev h)"
proof (induction h arbitrary: d)
  case (Cons m h)
  have "map_of (dict_set (fst m) (snd m) d) = (map_of d)(fst m \<mapsto> snd m)"
    by (auto simp: map_of_dict_set fun_eq_iff)
  moreover have "fold (\<lambda>(k, v). dict_set k v) (m # h) d = fold (\<lambda>(k, v). dict_set k v) h (dict_set (fst m) (snd m) d)"
    by (simp add: split_beta)
  ultimately show ?case
    by (simp only: Cons.IH rev.simps map_of_append map_of.simps map_add_assoc map_add_upd map_add_empty)
qed simp

lemma map_of_dict_of: "map_of (dict_of h) = map_of (rev h)"
  using map_of_dict_fold [of h "[]"] by (simp only: dict_of_def map_of.simps empty_map_add)

lemma sole_dict_of: "sole k v h \<Longrightarrow> map_of (dict_of h) k = Some v"
proof (cases "map_of (rev h) k")
  case None
  assume "sole k v h"
  then have "k \<in> fst ` set (rev h)" by (force simp: sole_def)
  moreover have "k \<notin> fst ` set (rev h)" using None by (simp only: map_of_eq_None_iff not_False_eq_True)
  ultimately show ?thesis by blast
next
  case (Some w)
  assume "sole k v h"
  then show ?thesis using Some map_of_SomeD [OF Some] by (auto simp: sole_def map_of_dict_of)
qed

text \<open>The identifier of a request is a canonical UUID, kept once it is drawn.\<close>

lemma keep_request_id_kept:
  assumes "keep_request_id env rq = (i, rq')" "uuid_version (re_fresh env) = Some 4"
  shows "keep_request_id env' (rq'\<lparr>rq_locale := x\<rparr>) = (i, rq'\<lparr>rq_locale := x\<rparr>) \<and>
    rq_request_id rq' = Some (lit i) \<and> (\<exists>u. i = uuid_str u \<and> uuid_version u = Some 4)"
proof -
  have i: "i = request_id_for (re_fresh env) (http_request.truncate rq)" and rq': "rq' = rq\<lparr>rq_request_id := Some (lit i)\<rparr>"
    using assms by (auto simp: keep_request_id_def Let_def)
  then obtain u where u: "i = uuid_str u" "uuid_version u = Some 4"
    using assms by (auto simp: request_id_for_def split: option.splits if_splits)
  then have "keep_request_id env' (rq'\<lparr>rq_locale := x\<rparr>) = (i, rq'\<lparr>rq_locale := x\<rparr>)"
    unfolding keep_request_id_def Let_def rq' by (simp add: request_id_for_def http_request.truncate_def)
  moreover have "rq_request_id rq' = Some (lit i)" by (simp add: rq')
  ultimately show ?thesis using u by blast
qed

lemma keep_locale_kept:
  assumes "keep_locale env rq = (l, rq')"
  shows "keep_locale env' (rq'\<lparr>rq_request_id := x\<rparr>) = (l, rq'\<lparr>rq_request_id := x\<rparr>) \<and> rq_locale rq' = Some l"
  using assms keep_locale_supported [OF assms]
  by (auto simp: keep_locale_def Let_def locale_for_request_def)

lemma dict_set_members:
  "set (dict_set k v h) \<subseteq> insert (k, v) (set h)" "(k, v) \<in> set (dict_set k v h)"
  "m \<in> set h \<Longrightarrow> fst m \<noteq> k \<Longrightarrow> m \<in> set (dict_set k v h)"
  by (induction h) auto

abbreviation lowered :: "headers \<Rightarrow> headers" where
  "lowered h \<equiv> map (\<lambda>(k, v). (ascii_lower k, v)) h"

lemma lowered_request_id: "ascii_lower (lit ''X-Request-ID'') = lit ''x-request-id''"
  by (simp add: ascii_lower_def lit_def)

lemma soleI:
  assumes "(name, v) \<in> set h" "ascii_lower name = k"
    and only: "\<And>n w. (n, w) \<in> set h \<Longrightarrow> ascii_lower n = k \<Longrightarrow> w = v"
  shows "sole k v (lowered h)"
proof -
  have "(k, v) \<in> set (lowered h)" using assms(1,2) by (auto intro: rev_image_eqI)
  moreover have "snd m = v" if "m \<in> set (lowered h)" "fst m = k" for m
    using that by (auto intro: only)
  ultimately show ?thesis by (simp add: sole_def)
qed

lemma sole_lowered: "sole k v (lowered h) \<Longrightarrow> (n, w) \<in> set h \<Longrightarrow> ascii_lower n = k \<Longrightarrow> w = v"
  by (force simp: sole_def)

lemma dict_set_member: "(n, w) \<in> set (dict_set k v h) \<Longrightarrow> (n, w) = (k, v) \<or> (n, w) \<in> set h"
  using dict_set_members(1) [of k v h] by auto

lemma sole_with_request_id:
  assumes "sole k v (lowered h)" "k \<noteq> lit ''x-request-id''"
  shows "sole k v (lowered (dict_set (lit ''X-Request-ID'') i h))"
proof -
  obtain name where name: "(name, v) \<in> set h" "ascii_lower name = k"
    using assms(1) by (auto simp: sole_def)
  then have "name \<noteq> lit ''X-Request-ID''" using assms(2) lowered_request_id by auto
  then have "(name, v) \<in> set (dict_set (lit ''X-Request-ID'') i h)"
    using name dict_set_members(3) [of "(name, v)"] by simp
  then show ?thesis
  proof (rule soleI [OF _ name(2)])
    fix n w assume m: "(n, w) \<in> set (dict_set (lit ''X-Request-ID'') i h)" and n: "ascii_lower n = k"
    have "n \<noteq> lit ''X-Request-ID''" using n assms(2) lowered_request_id by auto
    then have "(n, w) \<in> set h" using dict_set_member [OF m] by simp
    then show "w = v" using n by (rule sole_lowered [OF assms(1)])
  qed
qed

lemma sole_request_id:
  assumes "\<forall>m\<in>set h. ascii_lower (fst m) \<noteq> lit ''x-request-id''"
  shows "sole (lit ''x-request-id'') i (lowered (dict_set (lit ''X-Request-ID'') i h))"
proof (rule soleI [OF dict_set_members(2) lowered_request_id])
  fix n w assume m: "(n, w) \<in> set (dict_set (lit ''X-Request-ID'') i h)" and n: "ascii_lower n = lit ''x-request-id''"
  then have "(n, w) \<notin> set h" using assms by auto
  then show "w = i" using dict_set_member [OF m] by simp
qed

text \<open>Every answer of an error, header by header.\<close>

lemma json_error_answer:
  assumes "catalogs_loaded (re_catalogs env)" "uuid_version (re_fresh env) = Some 4" "100000 \<le> code" "code \<le> 599999"
    and own: "\<forall>m\<in>set h. ascii_lower (fst m) \<noteq> lit ''x-request-id''"
  obtains r rq' l u where "json_error env rq status code key data h = Inr (r, rq')"
    "ry_status r = status" "en_code (ry_content r) = code" "en_data (ry_content r) = data"
    "en_request_id (ry_content r) = uuid_str u" "uuid_version u = Some 4"
    "l \<in> set SUPPORTED_LOCALES" "translate (re_catalogs env) l (message_key_value key) = Inr (en_message (ry_content r))"
    "map_of (ry_headers r) (lit ''x-request-id'') = Some (lit (uuid_str u))"
    "map_of (ry_headers r) (lit ''content-language'') = Some (lit l)"
    "rq_business_code rq' = Some code" "rq_request_id rq' = Some (lit (uuid_str u))" "rq_locale rq' = Some l"
    "\<forall>k v. k \<notin> {lit ''x-request-id'', lit ''content-language'', lit ''vary''} \<and> sole k v (lowered h) \<longrightarrow>
       map_of (ry_headers r) k = Some v"
proof -
  obtain l rq1 where k: "keep_locale env (rq\<lparr>rq_business_code := Some code\<rparr>) = (l, rq1)" by fastforce
  obtain i rq2 where i: "keep_request_id env rq1 = (i, rq2)" by fastforce
  obtain u where u: "i = uuid_str u" "uuid_version u = Some 4" "rq_request_id rq2 = Some (lit i)"
    using keep_request_id_kept [OF i assms(2)] by blast
  have rq2: "rq2 = rq1\<lparr>rq_request_id := Some (lit i)\<rparr>" using i by (auto simp: keep_request_id_def Let_def)
  have again: "keep_request_id env rq2 = (i, rq2)"
    using keep_request_id_kept [OF i assms(2), of env "rq_locale rq2"] by simp
  have same: "keep_locale env rq2 = (l, rq2)" "rq_locale rq2 = Some l" "l \<in> set SUPPORTED_LOCALES"
    using keep_locale_kept [OF k] keep_locale_supported [OF k] by (simp_all add: rq2)
  have code: "rq_business_code rq2 = Some code" using k by (auto simp: rq2 keep_locale_def Let_def)
  obtain message where m: "translate (re_catalogs env) l (message_key_value key) = Inr message" "strip message \<noteq> []"
    using translate_total [OF _ same(3) message_keys] assms(1) unfolding catalogs_loaded_def by blast
  define hs where "hs = apply_language_headers (re_unicode env) l (lowered (dict_set (lit ''X-Request-ID'') (lit i) h))"
  have run: "json_error env rq status code key data h =
      Inr (\<lparr>ry_status = status, ry_content = \<lparr>en_code = code, en_message = message, en_data = data, en_request_id = i\<rparr>,
            ry_headers = dict_of hs\<rparr>, rq2)"
    using assms m strip_nonempty [OF m(2)]
    by (simp add: json_error_def error_content_def localized_response_def request_id_headers_def k i again same hs_def)
  have "map_of (dict_of hs) (lit ''x-request-id'') = Some (lit i)"
    unfolding hs_def by (rule sole_dict_of) (simp add: language_headers_sole sole_request_id own lit_inject)
  moreover have "map_of (dict_of hs) (lit ''content-language'') = Some (lit l)"
    unfolding hs_def by (rule sole_dict_of) (rule language_header_sole)
  moreover have "\<forall>k v. k \<notin> {lit ''x-request-id'', lit ''content-language'', lit ''vary''} \<and> sole k v (lowered h) \<longrightarrow>
       map_of (dict_of hs) k = Some v"
    unfolding hs_def by (auto intro!: sole_dict_of sole_with_request_id simp: language_headers_sole)
  ultimately show ?thesis
    using that [OF run _ _ _ _ u(2) same(3) _ _ _ code _ same(2)] u m by simp
qed

definition well_answered :: "reply_env \<Rightarrow> reply \<Rightarrow> reply_request \<Rightarrow> bool" where
  "well_answered env r rq \<longleftrightarrow>
     400 \<le> ry_status r \<and> ry_status r \<le> 599 \<and> en_code (ry_content r) div 1000 = ry_status r \<and>
     rq_business_code rq = Some (en_code (ry_content r)) \<and>
     (\<exists>u. uuid_version u = Some 4 \<and> en_request_id (ry_content r) = uuid_str u \<and>
          rq_request_id rq = Some (lit (uuid_str u)) \<and>
          map_of (ry_headers r) (lit ''x-request-id'') = Some (lit (uuid_str u))) \<and>
     (\<exists>l\<in>set SUPPORTED_LOCALES. map_of (ry_headers r) (lit ''content-language'') = Some (lit l) \<and>
          (\<exists>key. translate (re_catalogs env) l (message_key_value key) = Inr (en_message (ry_content r)))) \<and>
     map_of (ry_headers r) (lit ''cache-control'') = Some (lit ''no-store'') \<and>
     (ry_status r = 401 \<longrightarrow> map_of (ry_headers r) (lit ''www-authenticate'') = Some (lit ''Bearer''))"

lemma json_error_well_answered:
  assumes ready: "catalogs_loaded (re_catalogs env)" "uuid_version (re_fresh env) = Some 4"
    and code: "400 \<le> status" "status \<le> 599" "code div 1000 = status"
    and own: "\<forall>m\<in>set h. ascii_lower (fst m) \<noteq> lit ''x-request-id''"
    and cache: "sole (lit ''cache-control'') (lit ''no-store'') (lowered h)"
    and auth: "status = 401 \<Longrightarrow> sole (lit ''www-authenticate'') (lit ''Bearer'') (lowered h)"
  shows "\<exists>r rq'. json_error env rq status code key data h = Inr (r, rq') \<and> well_answered env r rq'"
proof -
  have c: "100000 \<le> code" "code \<le> 599999" using code by linarith+
  obtain r rq' l u where a: "json_error env rq status code key data h = Inr (r, rq')"
    "ry_status r = status" "en_code (ry_content r) = code" "en_data (ry_content r) = data"
    "en_request_id (ry_content r) = uuid_str u" "uuid_version u = Some 4"
    "l \<in> set SUPPORTED_LOCALES" "translate (re_catalogs env) l (message_key_value key) = Inr (en_message (ry_content r))"
    "map_of (ry_headers r) (lit ''x-request-id'') = Some (lit (uuid_str u))"
    "map_of (ry_headers r) (lit ''content-language'') = Some (lit l)"
    "rq_business_code rq' = Some code" "rq_request_id rq' = Some (lit (uuid_str u))" "rq_locale rq' = Some l"
    "\<forall>k v. k \<notin> {lit ''x-request-id'', lit ''content-language'', lit ''vary''} \<and> sole k v (lowered h) \<longrightarrow>
       map_of (ry_headers r) k = Some v"
    by (rule json_error_answer [OF ready c own])
  have "map_of (ry_headers r) (lit ''cache-control'') = Some (lit ''no-store'')"
    using a(14) cache by (simp add: lit_inject)
  moreover have "map_of (ry_headers r) (lit ''www-authenticate'') = Some (lit ''Bearer'')" if "status = 401"
    using a(14) auth [OF that] by (simp add: lit_inject)
  ultimately have "well_answered env r rq'"
    using a(5-13) code by (simp add: well_answered_def a(2,3)) blast
  then show ?thesis using a(1) by blast
qed

text \<open>
  The errors the program raises: an \<open>RbacError\<close> comes from a constructor of \<open>errors.py\<close>, and an
  HTTP error of the framework brings no header of those the handlers set.
\<close>

fun expected_error :: "raised \<Rightarrow> bool" where
  "expected_error (Raised (Rbac e)) \<longleftrightarrow> coherent_error e \<and> 400 \<le> status_code e"
| "expected_error (Raised_http status given) \<longleftrightarrow>
     (\<forall>m\<in>set given. ascii_lower (fst m) \<notin> lit ` {''x-request-id'', ''cache-control'', ''www-authenticate''})"
| "expected_error _ \<longleftrightarrow> True"

lemma lowered_names:
  "ascii_lower (lit ''Cache-Control'') = lit ''cache-control''" "ascii_lower (lit ''WWW-Authenticate'') = lit ''www-authenticate''"
  "ascii_lower (lit ''RateLimit-Limit'') = lit ''ratelimit-limit''" "ascii_lower (lit ''RateLimit-Remaining'') = lit ''ratelimit-remaining''"
  "ascii_lower (lit ''RateLimit-Reset'') = lit ''ratelimit-reset''" "ascii_lower (lit ''Retry-After'') = lit ''retry-after''"
  by (simp_all add: ascii_lower_def lit_def)

lemmas header_simps = lowered_names lit_inject sole_def semantic_rate_limit_headers_def rate_limit_headers_def

lemma business_code_bounds: "business_code_value c \<le> 503001"
  by (cases c) simp_all

lemma http_contract_shape:
  "\<exists>code key. http_contract status = Inr (if map_of HTTP_ERROR_CONTRACT status = None \<and> \<not> (400 \<le> status \<and> status \<le> 599) then 500 else status, code, key) \<and>
     code div 1000 = (if map_of HTTP_ERROR_CONTRACT status = None \<and> \<not> (400 \<le> status \<and> status \<le> 599) then 500 else status)"
  by (auto simp: http_contract_def generic_error_code_def HTTP_ERROR_CONTRACT_def)

lemma http_contract_range: "map_of HTTP_ERROR_CONTRACT status \<noteq> None \<Longrightarrow> 400 \<le> status \<and> status \<le> 599"
  by (auto simp: HTTP_ERROR_CONTRACT_def split: if_splits)

lemma http_error_answered:
  assumes ready: "catalogs_loaded (re_catalogs env)" "uuid_version (re_fresh env) = Some 4"
    and given: "expected_error (Raised_http status given)"
  shows "\<exists>r rq'. handle_http_error env rq status given = Inr (r, rq') \<and> well_answered env r rq'"
proof -
  obtain st code key where c: "http_contract status = Inr (st, code, key)" "code div 1000 = st" "400 \<le> st" "st \<le> 599"
    using http_contract_shape [of status] http_contract_range [of status] by (fastforce split: if_splits)
  define h where "h = dict_default (fst no_store) (snd no_store) given"
  define h' where "h' = (if st = 401 then dict_default (fst bearer) (snd bearer) h else h)"
  have free: "ascii_lower (fst m) \<noteq> lit ''x-request-id''" "ascii_lower (fst m) \<noteq> lit ''cache-control''"
    "ascii_lower (fst m) \<noteq> lit ''www-authenticate''" if "m \<in> set given" for m
    using given that by auto
  have fresh: "n \<notin> fst ` set given" if "ascii_lower n = lit ''cache-control'' \<or> ascii_lower n = lit ''www-authenticate''" for n
  proof
    assume "n \<in> fst ` set given"
    then obtain m where "m \<in> set given" "n = fst m" by blast
    then show False using free that by blast
  qed
  have "fst no_store \<notin> fst ` set given" "fst bearer \<notin> fst ` set given"
    by (rule fresh, simp only: fst_conv lowered_names simp_thms)+
  then have h: "h = given @ [no_store]" "h' = h @ (if st = 401 then [bearer] else [])"
    by (auto simp: h_def h'_def dict_default_def lit_inject)
  have "handle_http_error env rq status given = json_error env rq st code key None h'"
    by (simp add: handle_http_error_def c h'_def h_def Let_def)
  moreover have "\<forall>m\<in>set h'. ascii_lower (fst m) \<noteq> lit ''x-request-id''"
    using free(1) by (auto simp: h lowered_names lit_inject)
  moreover have "sole (lit ''cache-control'') (lit ''no-store'') (lowered h')"
    using free(2) by (intro soleI [of "lit ''Cache-Control''"]) (auto simp: h lowered_names lit_inject split: if_splits)
  moreover have "sole (lit ''www-authenticate'') (lit ''Bearer'') (lowered h')" if "st = 401"
    using free(3) that by (intro soleI [of "lit ''WWW-Authenticate''"]) (auto simp: h lowered_names lit_inject)
  ultimately show ?thesis
    using json_error_well_answered [OF ready c(3,4,2)] by presburger
qed

lemma plain_error_answered:
  assumes ready: "catalogs_loaded (re_catalogs env)" "uuid_version (re_fresh env) = Some 4"
    and "400 \<le> status" "status \<le> 599" "code div 1000 = status"
    and "h = [no_store] \<and> status \<noteq> 401 \<or> h = [no_store, bearer] \<or> h = [bearer, no_store]"
  shows "\<exists>r rq'. json_error env rq status code key data h = Inr (r, rq') \<and> well_answered env r rq'"
  by (rule json_error_well_answered [OF assms(1-5)]) (use assms(6) in \<open>auto simp: header_simps\<close>)

lemma mapE_total: "(\<And>x. x \<in> set xs \<Longrightarrow> \<exists>y. f x = Inr y) \<Longrightarrow> \<exists>ys. mapE f xs = Inr ys"
proof (induction xs)
  case (Cons x xs)
  obtain y where "f x = Inr y" using Cons.prems [of x] by auto
  moreover obtain ys where "mapE f xs = Inr ys" using Cons.IH Cons.prems by auto
  ultimately show ?case by simp
qed simp

lemma validation_error_answered:
  assumes ready: "catalogs_loaded (re_catalogs env)" "uuid_version (re_fresh env) = Some 4"
  shows "\<exists>r rq'. handle_request_validation_error env rq errors = Inr (r, rq') \<and> well_answered env r rq'"
proof -
  define items where "items l = mapE (\<lambda>e. bindE (validation_message (re_catalogs env) l e) (\<lambda>m. Inr (validation_field e, m))) errors" for l
  obtain l rq1 where k: "(if errors = [] then (DEFAULT_LOCALE, rq) else keep_locale env rq) = (l, rq1)" by fastforce
  then have "l \<in> set SUPPORTED_LOCALES"
    using keep_locale_supported [of env rq l rq1] by (auto simp: DEFAULT_LOCALE_def SUPPORTED_LOCALES_def split: if_splits)
  then have "\<exists>ys. items l = Inr ys"
    unfolding items_def
    using validation_message_total [OF ready(1) [unfolded catalogs_loaded_def]]
    by (intro mapE_total) (metis bindE_simps(2))
  then obtain ys where "items l = Inr ys" by blast
  then have "handle_request_validation_error env rq errors =
      json_error env rq1 422 (business_code_value VALIDATION_FAILED) ERROR_VALIDATION_FAILED (Some ys) [no_store]"
    by (simp add: handle_request_validation_error_def k items_def)
  then show ?thesis using plain_error_answered [OF ready] by simp
qed

lemma access_error_answered:
  assumes ready: "catalogs_loaded (re_catalogs env)" "uuid_version (re_fresh env) = Some 4"
    and e: "coherent_error e" "400 \<le> status_code e"
  shows "\<exists>r rq'. handle_access_error env rq e = Inr (r, rq') \<and> well_answered env r rq'"
proof -
  have "business_code_value (business_code e) div 1000 = status_code e" using e by (simp add: coherent_error_def)
  moreover have "status_code e \<le> 599"
    using e business_code_bounds [of "business_code e"] unfolding coherent_error_def by linarith
  ultimately show ?thesis
    unfolding handle_access_error_def using e by (intro plain_error_answered [OF ready]) auto
qed

lemma exceeded_answered:
  assumes ready: "catalogs_loaded (re_catalogs env)" "uuid_version (re_fresh env) = Some 4"
  shows "\<exists>r rq'. handle_rate_limit_exceeded env rq result = Inr (r, rq') \<and> well_answered env r rq'"
  unfolding handle_rate_limit_exceeded_def
  by (rule json_error_well_answered [OF ready]) (auto simp: header_simps)

text \<open>
  C20: Whatever error the application raises, the client gets an answer with an HTTP error status, a business code
  of the same class, a catalogue message in the language named by the headers, the canonical random
  identifier of the request in body, header and request state, and a ban on storing it; an
  answer of 401 asks for a bearer token. No part of the exception but its status, code and message key
  shows: errors that differ in the reason alone get the same answer.
\<close>

theorem every_error_is_answered:
  assumes ready: "catalogs_loaded (re_catalogs env)" "uuid_version (re_fresh env) = Some 4"
    and expected: "expected_error exc"
  shows "(\<exists>r rq'. answer_error env rq exc = Inr (r, rq') \<and> well_answered env r rq') \<and>
    (\<forall>e reason. exc = Raised (Rbac e) \<longrightarrow> answer_error env rq (Raised (Rbac (e\<lparr>reason_code := reason\<rparr>))) = answer_error env rq exc)"
proof (rule conjI)
  have unexpected: "\<exists>r rq'. handle_unexpected_error env rq = Inr (r, rq') \<and> well_answered env r rq'"
    unfolding handle_unexpected_error_def by (rule plain_error_answered [OF ready]) simp_all
  have unavailable: "\<exists>r rq'. handle_rate_limit_unavailable env rq = Inr (r, rq') \<and> well_answered env r rq'"
    unfolding handle_rate_limit_unavailable_def by (rule plain_error_answered [OF ready]) simp_all
  have credentials: "\<exists>r rq'. handle_invalid_login_credentials env rq = Inr (r, rq') \<and> well_answered env r rq'"
    unfolding handle_invalid_login_credentials_def by (rule plain_error_answered [OF ready]) simp_all
  have database: "\<exists>r rq'. (case handle_database_unavailable env rq e of Some reply \<Rightarrow> reply | None \<Rightarrow> handle_unexpected_error env rq) = Inr (r, rq') \<and>
      well_answered env r rq'" for e
    using unexpected unavailable
    by (simp add: handle_database_unavailable_def handle_rate_limit_unavailable_def split: option.split)
  show "\<exists>r rq'. answer_error env rq exc = Inr (r, rq') \<and> well_answered env r rq'"
  proof (cases exc)
    case (Raised f)
    then show ?thesis
      using expected unexpected unavailable credentials exceeded_answered [OF ready] access_error_answered [OF ready]
      by (cases f) simp_all
  next
    case (Raised_validation errors)
    then show ?thesis using validation_error_answered [OF ready] by simp
  next
    case (Raised_http status given)
    then show ?thesis using http_error_answered [OF ready] expected by simp
  next
    case (Raised_database e)
    then show ?thesis using unexpected database by (cases e) simp_all
  qed
  show "\<forall>e reason. exc = Raised (Rbac e) \<longrightarrow>
      answer_error env rq (Raised (Rbac (e\<lparr>reason_code := reason\<rparr>))) = answer_error env rq exc"
    by (simp add: handle_access_error_def)
qed

text \<open>The readiness script answers 1 and leaves nothing behind.\<close>

lemma readiness_script_result:
  "0 < ttl \<Longrightarrow> readiness_script k v ttl now s = (Inr (Int_reply 1), s(k := None))"
  by (simp add: readiness_script_def bindP_def updateP_def r_getP_def r_get_def returnP_def readP_def r_del_def r_put_def r_lookup_def)

lemma probe_redis_ready:
  "fst (probe_redis p s) = Inr () \<longleftrightarrow>
     pb_client p \<and> pb_pong p \<and> io_fault (pb_ping_io p) = Answered \<and> io_fault (pb_eval_io p) = Answered"
  by (auto simp: probe_redis_def best_effort_delete_readiness_key_def redis_call_def readiness_script_result
      READINESS_REDIS_KEY_TTL_MS_def bindP_def handleP_def raiseP_def returnP_def split: redis_fault.splits prod.splits sum.splits)

lemma probe_redis_keeps: "k \<noteq> readiness_key p \<Longrightarrow> snd (probe_redis p s) k = s k"
  by (auto simp: probe_redis_def best_effort_delete_readiness_key_def redis_call_def readiness_script_result
      READINESS_REDIS_KEY_TTL_MS_def bindP_def handleP_def raiseP_def returnP_def r_del_def
      split: redis_fault.splits prod.splits sum.splits)

text \<open>A catalogue whose messages are the keys, and a request without an identifier.\<close>

definition sample_catalog :: "(pystr \<times> json) list" where
  "sample_catalog = map (\<lambda>k. (lit k, J_Str (lit k))) MESSAGE_KEYS"

definition sample_replies :: reply_env where
  "sample_replies =
     \<lparr>re_catalogs = map (\<lambda>l. (l, map (\<lambda>k. (lit k, lit k)) MESSAGE_KEYS)) SUPPORTED_LOCALES, re_unicode = ascii_db,
      re_float = (\<lambda>_. None), re_fresh = UUID 0x00000000000040008000000000000001\<rparr>"

definition sample_reply_request :: reply_request where
  "sample_reply_request =
     \<lparr>rq_method = ''GET'', rq_operation_id = None, rq_credentials = None, rq_content_type = [], rq_json = None,
      rq_request_id = None, rq_accept_language = Some (lit ''en''), rq_locale = None, rq_business_code = None\<rparr>"

lemma sample_catalog_loads: "load_catalog (Some (J_Obj sample_catalog)) = Inr (map (\<lambda>k. (lit k, lit k)) MESSAGE_KEYS)"
proof -
  have "list_all (\<lambda>k. strip (lit k) \<noteq> []) MESSAGE_KEYS" by code_simp
  then show ?thesis
    by (auto simp: load_catalog_def sample_catalog_def list_ex_iff list_all_iff image_image comp_def)
qed

lemma sample_replies_ready: "catalogs_loaded (re_catalogs sample_replies)" "uuid_version (re_fresh sample_replies) = Some 4"
proof -
  show "catalogs_loaded (re_catalogs sample_replies)"
    unfolding catalogs_loaded_def sample_replies_def using sample_catalog_loads
    by (auto simp: SUPPORTED_LOCALES_def)
  show "uuid_version (re_fresh sample_replies) = Some 4" by code_simp
qed

theorem every_error_witness:
  "\<exists>r rq'. answer_error sample_replies sample_reply_request (Raised (Rbac (forbidden ''not_owner''))) = Inr (r, (rq' :: reply_request)) \<and>
     well_answered sample_replies r rq' \<and> ry_status r = 403"
proof -
  obtain r rq' where r: "answer_error sample_replies sample_reply_request (Raised (Rbac (forbidden ''not_owner''))) = Inr (r, rq')"
    "well_answered sample_replies r rq'"
    using every_error_is_answered [OF sample_replies_ready, where rq = sample_reply_request
        and exc = "Raised (Rbac (forbidden ''not_owner''))"] by (simp only: expected_error.simps coherent_errors status_code_simps) auto
  then have "ry_status r = 403"
    by (fastforce simp: handle_access_error_def json_error_def bindE_Inr split_beta)
  with r show ?thesis by blast
qed

end
