(* ===== verification/Observation.thy ===== *)
theory Observation
  imports Responses
begin

text \<open>
  \<open>RequestObservabilityMiddleware\<close> of \<open>app/main.py\<close>, which stands between the application and the
  server: it stamps every response and writes one completion record for each request. The application
  is the sequence of what it does at this boundary and the way it ends; it may catch what a send or a
  receive raises and go on. Sends follow one another, as Starlette's do. Durations, routes and
  tracebacks of the records are left out; \<open>safe_log\<close> never raises.
\<close>

subsection \<open>The boundary\<close>

datatype asgi_message =
    Response_start int headers
  | Response_body bool
  | Other_message

datatype send_fate = Sent | Send_cancelled | Send_failed

datatype receive_fate = Received bool | Receive_cancelled | Receive_failed

text \<open>
  \<open>Received True\<close> is a disconnect; \<open>Response_body True\<close> has more to come. \<open>Records_code\<close> is a handler that
  sets the business code of the request.
\<close>

datatype app_step =
    Receives receive_fate
  | Sends asgi_message send_fate
  | Records_code int

datatype app_end = Returns | Is_cancelled | Fails | Is_interrupted

subsection \<open>Records\<close>

datatype log_level = Info | Warning | Error

definition request_log_level :: "int \<Rightarrow> log_level" where
  "request_log_level status = (if 500 \<le> status then Error else if 400 \<le> status then Warning else Info)"

record completion =
  cp_level :: log_level
  cp_status :: "int option"
  cp_code :: "int option"
  cp_outcome :: string
  cp_started :: bool
  cp_completed :: bool
  cp_disconnected :: bool
  cp_phase :: "string option"

datatype log_line =
    Request_completed completion
  | Post_response_failed "int option" "int option" string

record log_context =
  lc_request_id :: string
  lc_active :: bool

text \<open>The request state and the local variables of one call of the middleware.\<close>

record observed =
  ob_code :: "int option"
  ob_recorded :: bool
  ob_status :: "int option"
  ob_started :: bool
  ob_completed :: bool
  ob_disconnected :: bool
  ob_send_failed :: bool
  ob_receive_failed :: bool
  ob_context :: "log_context option"
  ob_sent :: "asgi_message list"
  ob_log :: "log_line list"

definition bind_request_context :: "string \<Rightarrow> log_context option" where
  "bind_request_context request_id = Some \<lparr>lc_request_id = request_id, lc_active = True\<rparr>"

definition deactivate_request_context :: "log_context option \<Rightarrow> log_context option" where
  "deactivate_request_context = map_option (lc_active_update (\<lambda>_. False))"

definition current_request_id :: "log_context option \<Rightarrow> string option" where
  "current_request_id c = (case c of None \<Rightarrow> None | Some c \<Rightarrow> if lc_active c then Some (lc_request_id c) else None)"

definition log_request_completion :: "int option \<Rightarrow> string \<Rightarrow> string option \<Rightarrow> observed \<Rightarrow> observed" where
  "log_request_completion status outcome phase ob =
     (if ob_recorded ob then ob
      else
      ob\<lparr>ob_recorded := True,
         ob_log := ob_log ob @
           [Request_completed
             \<lparr>cp_level = (if outcome = ''error'' \<or> status = None then Error else request_log_level (the status)),
              cp_status = status, cp_code = ob_code ob, cp_outcome = outcome, cp_started = ob_started ob,
              cp_completed = ob_completed ob, cp_disconnected = ob_disconnected ob, cp_phase = phase\<rparr>]\<rparr>)"

definition log_post_response_failure :: "string \<Rightarrow> observed \<Rightarrow> observed" where
  "log_post_response_failure phase ob =
     ob\<lparr>ob_log := ob_log ob @ [Post_response_failed (ob_status ob) (ob_code ob) phase]\<rparr>"

subsection \<open>Receiving and sending\<close>

fun receive_with_observability :: "receive_fate \<Rightarrow> observed \<Rightarrow> observed" where
  "receive_with_observability (Received disconnect) ob = (if disconnect then ob\<lparr>ob_disconnected := True\<rparr> else ob)"
| "receive_with_observability Receive_cancelled ob = ob"
| "receive_with_observability Receive_failed ob = ob\<lparr>ob_receive_failed := True\<rparr>"

text \<open>The message the server gets, with the headers of the request.\<close>

fun stamped :: "unicode_db \<Rightarrow> string \<Rightarrow> string \<Rightarrow> asgi_message \<Rightarrow> asgi_message" where
  "stamped uc request_id l (Response_start status h) =
     Response_start status (apply_language_headers uc l (set_header (lit ''x-request-id'') (lit request_id) h))"
| "stamped uc request_id l m = m"

definition finish_response :: "observed \<Rightarrow> observed" where
  "finish_response ob =
     (let ob = ob\<lparr>ob_completed := True\<rparr>;
          status = (if ob_started ob then ob_status ob else None);
          outcome = (case status of None \<Rightarrow> ''error'' | Some s \<Rightarrow> if s < 400 then ''success'' else ''failure'');
          ob = log_request_completion status outcome
                 (if status = None then Some ''response_without_start'' else None) ob in
      ob\<lparr>ob_context := deactivate_request_context (ob_context ob)\<rparr>)"

definition send_with_observability ::
    "unicode_db \<Rightarrow> string \<Rightarrow> string \<Rightarrow> asgi_message \<Rightarrow> send_fate \<Rightarrow> observed \<Rightarrow> observed" where
  "send_with_observability uc request_id l message fate ob =
     (if fate \<noteq> Sent then ob\<lparr>ob_send_failed := True\<rparr>
      else
      let ob = ob\<lparr>ob_sent := ob_sent ob @ [stamped uc request_id l message]\<rparr> in
      case message of
        Response_start status h \<Rightarrow> ob\<lparr>ob_status := Some status, ob_started := True\<rparr>
      | Response_body more_body \<Rightarrow> if more_body then ob else finish_response ob
      | Other_message \<Rightarrow> ob)"

fun take_step :: "unicode_db \<Rightarrow> string \<Rightarrow> string \<Rightarrow> app_step \<Rightarrow> observed \<Rightarrow> observed" where
  "take_step uc i l (Receives fate) ob = receive_with_observability fate ob"
| "take_step uc i l (Sends message fate) ob = send_with_observability uc i l message fate ob"
| "take_step uc i l (Records_code code) ob = ob\<lparr>ob_code := Some code\<rparr>"

subsection \<open>The end of a request\<close>

definition failure_phase :: "string \<Rightarrow> observed \<Rightarrow> string" where
  "failure_phase otherwise ob =
     (if ob_send_failed ob then ''send''
      else if ob_receive_failed ob then ''receive''
      else if ob_disconnected ob then ''client_disconnect''
      else otherwise)"

fun conclude :: "app_end \<Rightarrow> observed \<Rightarrow> observed" where
  "conclude Returns ob =
     (if ob_recorded ob then ob
      else log_request_completion (ob_status ob) ''error''
             (Some (if ob_disconnected ob then ''client_disconnect'' else ''response_incomplete'')) ob)"
| "conclude Is_cancelled ob =
     (if ob_recorded ob then log_post_response_failure ''request_cancelled_after_response'' ob
      else log_request_completion (ob_status ob) ''error'' (Some (failure_phase ''request_cancelled'' ob)) ob)"
| "conclude Fails ob =
     (if ob_recorded ob then log_post_response_failure ''post_response'' ob
      else
      let ob = (if \<not> ob_send_failed ob \<and> \<not> ob_started ob
                then ob\<lparr>ob_code := Some (business_code_value INTERNAL_ERROR)\<rparr> else ob) in
      log_request_completion
        (if ob_started ob \<or> ob_send_failed ob then ob_status ob else Some 500) ''error''
        (Some (failure_phase (if ob_started ob then ''response_body'' else ''application'') ob)) ob)"
| "conclude Is_interrupted ob = ob"

definition at_request_start :: "string \<Rightarrow> observed" where
  "at_request_start request_id =
     \<lparr>ob_code = None, ob_recorded = False, ob_status = None, ob_started = False, ob_completed = False,
      ob_disconnected = False, ob_send_failed = False, ob_receive_failed = False,
      ob_context = bind_request_context request_id, ob_sent = [], ob_log = []\<rparr>"

definition run_application :: "unicode_db \<Rightarrow> string \<Rightarrow> string \<Rightarrow> app_step list \<Rightarrow> observed" where
  "run_application uc i l steps = fold (take_step uc i l) steps (at_request_start i)"

text \<open>The whole call: the context of the request is released whatever happens.\<close>

definition observe_request :: "unicode_db \<Rightarrow> string \<Rightarrow> string \<Rightarrow> app_step list \<Rightarrow> app_end \<Rightarrow> observed" where
  "observe_request uc i l steps fin = (conclude fin (run_application uc i l steps))\<lparr>ob_context := None\<rparr>"

subsection \<open>What the steps amount to\<close>

definition started_statuses :: "app_step list \<Rightarrow> int list" where
  "started_statuses steps =
     concat (map (\<lambda>st. case st of Sends (Response_start status h) Sent \<Rightarrow> [status] | _ \<Rightarrow> []) steps)"

definition recorded_codes :: "app_step list \<Rightarrow> int list" where
  "recorded_codes steps = concat (map (\<lambda>st. case st of Records_code c \<Rightarrow> [c] | _ \<Rightarrow> []) steps)"

definition last_of :: "'a list \<Rightarrow> 'a option" where
  "last_of xs = (if xs = [] then None else Some (last xs))"

abbreviation completes :: "app_step \<Rightarrow> bool" where
  "completes st \<equiv> st = Sends (Response_body False) Sent"

fun fails_to_send :: "app_step \<Rightarrow> bool" where
  "fails_to_send (Sends m fate) \<longleftrightarrow> fate \<noteq> Sent"
| "fails_to_send _ \<longleftrightarrow> False"

text \<open>The record of a response that was sent whole, from the steps before its last part.\<close>

definition response_record :: "app_step list \<Rightarrow> completion" where
  "response_record steps =
     (let status = last_of (started_statuses steps) in
      \<lparr>cp_level = (case status of None \<Rightarrow> Error | Some s \<Rightarrow> request_log_level s),
       cp_status = status, cp_code = last_of (recorded_codes steps),
       cp_outcome = (case status of None \<Rightarrow> ''error'' | Some s \<Rightarrow> if s < 400 then ''success'' else ''failure''),
       cp_started = (status \<noteq> None), cp_completed = True,
       cp_disconnected = (Receives (Received True) \<in> set steps),
       cp_phase = (if status = None then Some ''response_without_start'' else None)\<rparr>)"

lemma last_of_snoc [simp]: "last_of (xs @ [x]) = Some x"
  by (simp add: last_of_def)

lemma run_snoc: "run_application uc i l (steps @ [st]) = take_step uc i l st (run_application uc i l steps)"
  by (simp add: run_application_def)

definition boundary_inv :: "app_step list \<Rightarrow> observed \<Rightarrow> bool" where
  "boundary_inv steps ob \<longleftrightarrow>
     ob_status ob = last_of (started_statuses steps) \<and> ob_started ob = (started_statuses steps \<noteq> []) \<and>
     ob_code ob = last_of (recorded_codes steps) \<and>
     ob_completed ob = (\<exists>st\<in>set steps. completes st) \<and> ob_recorded ob = ob_completed ob \<and>
     ob_disconnected ob = (Receives (Received True) \<in> set steps) \<and>
     ob_send_failed ob = (\<exists>st\<in>set steps. fails_to_send st) \<and>
     ob_log ob = (if ob_completed ob
                  then [Request_completed (response_record (takeWhile (\<lambda>st. \<not> completes st) steps))] else [])"

lemma takeWhile_snoc:
  "takeWhile P (xs @ [x]) = (if \<forall>y\<in>set xs. P y then (if P x then xs @ [x] else xs) else takeWhile P xs)"
  by (induction xs) auto

lemma started_statuses_snoc [simp]:
  "started_statuses (steps @ [st]) =
     started_statuses steps @ (case st of Sends (Response_start status h) Sent \<Rightarrow> [status] | _ \<Rightarrow> [])"
  by (simp add: started_statuses_def)

lemma recorded_codes_snoc [simp]:
  "recorded_codes (steps @ [st]) = recorded_codes steps @ (case st of Records_code c \<Rightarrow> [c] | _ \<Rightarrow> [])"
  by (simp add: recorded_codes_def)

lemma last_of_Nil [simp]: "last_of xs = None \<longleftrightarrow> xs = []" "last_of [] = None"
  by (simp_all add: last_of_def)

text \<open>A step that is not the last part of a response moves the flags and leaves the log alone.\<close>

lemma takeWhile_not_last:
  "\<not> completes st \<Longrightarrow> \<exists>st\<in>set steps. completes st \<Longrightarrow>
     takeWhile (\<lambda>st. \<not> completes st) (steps @ [st]) = takeWhile (\<lambda>st. \<not> completes st) steps"
  by (auto simp: takeWhile_snoc)

lemma boundary_last:
  assumes inv: "boundary_inv steps ob"
  shows "boundary_inv (steps @ [Sends (Response_body False) Sent])
    (send_with_observability uc i l (Response_body False) Sent ob)"
proof (cases "ob_completed ob")
  case True
  then have "\<exists>st\<in>set steps. completes st" "ob_recorded ob" using inv by (auto simp: boundary_inv_def)
  with inv True show ?thesis
    by (auto simp: boundary_inv_def send_with_observability_def finish_response_def log_request_completion_def Let_def takeWhile_snoc)
next
  case False
  then have "\<forall>st\<in>set steps. \<not> completes st" "\<not> ob_recorded ob" "ob_log ob = []" using inv by (auto simp: boundary_inv_def)
  with inv False show ?thesis
    by (simp add: boundary_inv_def send_with_observability_def finish_response_def log_request_completion_def
        response_record_def Let_def takeWhile_snoc split: option.split)
qed

lemma boundary_send:
  assumes inv: "boundary_inv steps ob" and other: "\<not> completes (Sends m fate)"
  shows "boundary_inv (steps @ [Sends m fate]) (send_with_observability uc i l m fate ob)"
proof (cases fate)
  case Sent
  then show ?thesis
    using inv other takeWhile_not_last [of "Sends m fate" steps]
    by (cases m) (simp_all add: boundary_inv_def send_with_observability_def Let_def)
next
  case Send_cancelled
  then show ?thesis
    using inv takeWhile_not_last [of "Sends m fate" steps]
    by (cases m) (simp_all add: boundary_inv_def send_with_observability_def Let_def)
next
  case Send_failed
  then show ?thesis
    using inv takeWhile_not_last [of "Sends m fate" steps]
    by (cases m) (simp_all add: boundary_inv_def send_with_observability_def Let_def)
qed

lemma boundary_step: "boundary_inv steps ob \<Longrightarrow> boundary_inv (steps @ [st]) (take_step uc i l st ob)"
proof (cases st)
  case (Receives fate)
  assume inv: "boundary_inv steps ob"
  then show ?thesis
    using takeWhile_not_last [of "Receives fate" steps]
    by (cases fate) (auto simp: Receives boundary_inv_def)
next
  case (Records_code c)
  assume inv: "boundary_inv steps ob"
  then show ?thesis
    using takeWhile_not_last [of "Records_code c" steps] by (simp add: Records_code boundary_inv_def)
next
  case (Sends m fate)
  assume inv: "boundary_inv steps ob"
  then show ?thesis
    using boundary_last boundary_send by (cases "completes st") (simp_all add: Sends)
qed

lemma boundary_run: "boundary_inv steps (run_application uc i l steps)"
proof (induction steps rule: rev_induct)
  case Nil
  show ?case
    by (simp add: boundary_inv_def run_application_def at_request_start_def started_statuses_def recorded_codes_def last_of_def)
next
  case (snoc st steps)
  then show ?case by (simp add: run_snoc boundary_step)
qed

lemma sent_step: "\<exists>ms. ob_sent (take_step uc i l st ob) = ob_sent ob @ map (stamped uc i l) ms"
proof (cases st)
  case (Sends m fate)
  then have "ob_sent (take_step uc i l st ob) = ob_sent ob @ map (stamped uc i l) (if fate = Sent then [m] else [])"
    by (cases m) (simp_all add: send_with_observability_def finish_response_def log_request_completion_def Let_def)
  then show ?thesis by blast
next
  case (Receives fate)
  then have "ob_sent (take_step uc i l st ob) = ob_sent ob @ map (stamped uc i l) []" by (cases fate) simp_all
  then show ?thesis by blast
next
  case (Records_code c)
  then have "ob_sent (take_step uc i l st ob) = ob_sent ob @ map (stamped uc i l) []" by simp
  then show ?thesis by blast
qed

lemma sent_run: "\<exists>ms. ob_sent (run_application uc i l steps) = map (stamped uc i l) ms"
proof (induction steps rule: rev_induct)
  case Nil
  show ?case by (simp add: run_application_def at_request_start_def)
next
  case (snoc st steps)
  then show ?case using sent_step [of uc i l st] by (metis map_append run_snoc)
qed

lemma sent_conclude: "ob_sent (conclude fin ob) = ob_sent ob"
  by (cases fin) (simp_all add: log_request_completion_def log_post_response_failure_def Let_def)

lemma language_headers_other:
  "k \<noteq> lit ''content-language'' \<Longrightarrow> k \<noteq> lit ''vary'' \<Longrightarrow>
     map_of (apply_language_headers uc l h) k = map_of h k"
  by (simp add: apply_language_headers_def Let_def set_header_get)

lemma stamped_headers:
  "stamped uc i l m = Response_start status h \<Longrightarrow>
     map_of h (lit ''x-request-id'') = Some (lit i) \<and> map_of h (lit ''content-language'') = Some (lit l)"
  by (cases m) (auto simp: language_headers language_headers_other set_header_get lit_inject)

fun is_completion :: "log_line \<Rightarrow> bool" where
  "is_completion (Request_completed c) \<longleftrightarrow> True"
| "is_completion _ \<longleftrightarrow> False"

lemma completed_record:
  assumes inv: "boundary_inv steps ob" and "\<exists>st\<in>set steps. completes st"
  shows "filter is_completion (ob_log (conclude fin ob)) =
    [Request_completed (response_record (takeWhile (\<lambda>st. \<not> completes st) steps))]"
  using assms by (cases fin) (auto simp: boundary_inv_def log_post_response_failure_def)

text \<open>The status of a request whose response was not sent whole.\<close>

definition unfinished_status :: "app_step list \<Rightarrow> app_end \<Rightarrow> int option" where
  "unfinished_status steps fin =
     (if fin = Fails \<and> started_statuses steps = [] \<and> \<not> (\<exists>st\<in>set steps. fails_to_send st) then Some 500
      else last_of (started_statuses steps))"

lemma unfinished_record:
  assumes inv: "boundary_inv steps ob" and none: "\<not> (\<exists>st\<in>set steps. completes st)" and "fin \<noteq> Is_interrupted"
  shows "\<exists>c. filter is_completion (ob_log (conclude fin ob)) = [Request_completed c] \<and> cp_outcome c = ''error'' \<and>
    \<not> cp_completed c \<and> cp_level c = Error \<and> cp_phase c \<noteq> None \<and> cp_status c = unfinished_status steps fin"
  using assms
  by (cases fin) (auto simp: boundary_inv_def log_request_completion_def unfinished_status_def Let_def)

lemma response_record_success:
  "cp_outcome (response_record steps) = ''success'' \<longleftrightarrow> (\<exists>s. last_of (started_statuses steps) = Some s \<and> s < 400)"
  by (auto simp: response_record_def Let_def split: option.splits)

text \<open>
  C21: However the application behaves at the boundary, whatever it sends, receives, catches and raises, the middleware
  writes exactly one completion record for the request. If the last part of a response reached the
  server the record is the one of that response: its status, the business code set by then, and a
  success only for a status below 400. Otherwise the record is an error with the phase that failed, and
  with status 500 when the application failed before it sent anything. Every response that started
  carries the identifier and the language of the request, and no record of the request leaks
  into the next: the context is released. Only an interruption of the process itself is not recorded.
\<close>

theorem one_completion_record:
  assumes "fin \<noteq> Is_interrupted"
  shows "\<exists>c. filter is_completion (ob_log (observe_request uc i l steps fin)) = [Request_completed c] \<and>
    (if \<exists>st\<in>set steps. completes st
     then c = response_record (takeWhile (\<lambda>st. \<not> completes st) steps)
     else cp_outcome c = ''error'' \<and> \<not> cp_completed c \<and> cp_level c = Error \<and> cp_phase c \<noteq> None \<and>
          cp_status c = unfinished_status steps fin) \<and>
    (cp_outcome c = ''success'' \<longleftrightarrow>
       (\<exists>st\<in>set steps. completes st) \<and>
       (\<exists>s. last_of (started_statuses (takeWhile (\<lambda>st. \<not> completes st) steps)) = Some s \<and> s < 400)) \<and>
    (\<forall>status h. Response_start status h \<in> set (ob_sent (observe_request uc i l steps fin)) \<longrightarrow>
       map_of h (lit ''x-request-id'') = Some (lit i) \<and> map_of h (lit ''content-language'') = Some (lit l)) \<and>
    current_request_id (ob_context (observe_request uc i l steps fin)) = None"
proof -
  define ob where "ob = run_application uc i l steps"
  have inv: "boundary_inv steps ob" unfolding ob_def by (rule boundary_run)
  have lines: "ob_log (observe_request uc i l steps fin) = ob_log (conclude fin ob)"
    "ob_sent (observe_request uc i l steps fin) = ob_sent ob" "ob_context (observe_request uc i l steps fin) = None"
    by (simp_all add: observe_request_def ob_def sent_conclude)
  obtain ms where "ob_sent ob = map (stamped uc i l) ms" using sent_run unfolding ob_def by blast
  then have heads: "\<forall>status h. Response_start status h \<in> set (ob_sent ob) \<longrightarrow>
       map_of h (lit ''x-request-id'') = Some (lit i) \<and> map_of h (lit ''content-language'') = Some (lit l)"
    using stamped_headers by (auto dest: sym)
  show ?thesis
  proof (cases "\<exists>st\<in>set steps. completes st")
    case True
    show ?thesis
      unfolding lines completed_record [OF inv True]
      using True heads response_record_success by (simp add: current_request_id_def)
  next
    case False
    obtain c where "filter is_completion (ob_log (conclude fin ob)) = [Request_completed c]" "cp_outcome c = ''error''"
      "\<not> cp_completed c" "cp_level c = Error" "cp_phase c \<noteq> None" "cp_status c = unfinished_status steps fin"
      using unfinished_record [OF inv False assms] by blast
    then show ?thesis
      unfolding lines using False heads by (simp add: current_request_id_def)
  qed
qed

theorem one_completion_witness:
  "\<exists>c. filter is_completion (ob_log (observe_request ascii_db ''id'' ''en''
        [Receives (Received False), Records_code 200000, Sends (Response_start 200 []) Sent,
         Sends (Response_body False) Sent, Sends (Response_body False) Send_failed] Fails)) = [Request_completed c] \<and>
     cp_outcome c = ''success'' \<and> cp_code c = Some 200000"
  using one_completion_record [of Fails ascii_db "''id''" "''en''"
      "[Receives (Received False), Records_code 200000, Sends (Response_start 200 []) Sent,
        Sends (Response_body False) Sent, Sends (Response_body False) Send_failed]"]
  by (auto simp: response_record_def started_statuses_def recorded_codes_def last_of_def)

end
