(* ===== verification/Spec2Isabelle.thy ===== *)
theory Spec2Isabelle
  imports Sample Session_Properties Quota_Properties Account_Properties Captcha_Properties Api_Properties
    Eviction Business_Properties Observation
begin

text \<open>
  A verification of the role-based access control template under
  \<open>skills/fastapi-templates-xtn/assets/postgresql-rbac\<close>; paths below are relative to it.

  The program is a web API over PostgreSQL and Redis. A request is authenticated to an
  authorization context; \<open>RbacService\<close> (\<open>app/services/access.py\<close>) locks the rows it needs,
  loads authority snapshots (\<open>app/repositories/access.py\<close>), asks the policy
  (\<open>app/core/security/policy.py\<close>), changes the tables (\<open>app/models/access.py\<close>) and adds an
  audit event (\<open>app/core/audit.py\<close>) in one transaction.

  Theories:
  \<^item> \<open>Prelude\<close>: Python text, computations that may raise, UUIDs, tables, dictionaries.
  \<^item> \<open>Regex\<close>: regular expressions with a matcher proved against their relational meaning.
  \<^item> \<open>Errors\<close>: \<open>app/core/errors.py\<close> and the codes of \<open>app/core/api_contract.py\<close>.
  \<^item> \<open>Domain\<close>: \<open>app/core/security/domain.py\<close>, permission keys, roles, snapshots.
  \<^item> \<open>Policy\<close>: the decisions, and what an allowed decision promises.
  \<^item> \<open>Audit_State\<close>: \<open>app/core/audit.py\<close>, sanitized payloads and validated identifiers.
  \<^item> \<open>Schema\<close>: rows, column types, check constraints, unique indexes and the triggers of the
    migrations; \<open>transaction\<close> commits a database value exactly when none is violated.
  \<^item> \<open>Repository\<close>, \<open>Repository_Laws\<close>: the queries, and the abstract authority
    \<open>authority_spec\<close> they are proved to compute.
  \<^item> \<open>Access_Service\<close>, \<open>Role_Service\<close>: the eight operations of \<open>RbacService\<close> and
    \<open>_run_audited\<close>.
  \<^item> \<open>Invariants\<close>, \<open>Steps\<close>: well-formed installations \<open>wf\<close>, how rows may evolve, and the
    lemmas that discharge every constraint for a change of the tables.
  \<^item> \<open>Access_Laws\<close>, \<open>Role_Laws\<close>: the effect of each operation and that it is sound.
    \<open>Payload_Laws\<close>: every payload the operations record is one a JSONB column holds.
  \<^item> \<open>Audited\<close>: the contract of \<open>_run_audited\<close> as a locale with an interpretation for each
    operation. \<open>Escalation\<close> extends it by what a call may add to anybody's authority.
  \<^item> \<open>System\<close>: sequences of calls. \<open>Sample\<close>: an installation the witnesses use.

  \<^item> \<open>Text_Codec\<close>, \<open>Json_Text\<close>: decimal numbers, UUIDs, UTF-8 and JSON texts read back.
  \<^item> \<open>Config\<close>: \<open>app/core/config.py\<close>, the settings a program starts with.
  \<^item> \<open>Procs\<close>, \<open>Redis\<close>, \<open>Redis_Collections\<close>: effectful code that may raise, and the Redis
    commands its Lua scripts call.
  \<^item> \<open>Rate_Limit\<close>, \<open>Rate_Limit_Laws\<close>: \<open>app/core/security/rate_limit.py\<close>, \<open>policies.py\<close>,
    \<open>abuse_defense.py\<close>, and what a fixed window admits.
  \<^item> \<open>Tokens\<close>: \<open>app/core/security/tokens.py\<close>. \<open>Registry\<close>: the abstract registry of a user's
    sessions, refined by the four scripts. \<open>Session_Laws\<close>: the states it reaches.
    \<open>Sessions\<close>: the calls of \<open>tokens.py\<close> as steps of the registry. \<open>Access_Tokens\<close>: a signed
    token decodes to the claims it was issued with. Of PyJWT it assumes (\<open>jwt_ok\<close>) that a payload
    without \<open>nbf\<close>, with texts for \<open>sub\<close> and \<open>jti\<close>, is read back while it is valid, under a secret
    that does not look like a PEM or SSH key.
  \<^item> \<open>Session_Properties\<close>, \<open>Quota_Properties\<close>: the properties C13 to C24. \<open>Sample_Platform\<close>: the
    settings and libraries their witnesses use.

  \<^item> \<open>Identity\<close>: \<open>app/core/security/identity.py\<close> and \<open>passwords.py\<close>. \<open>World\<close>: the database,
    Redis and the responses still to come, as one state with the computations over it.
    \<open>Authentication\<close>: \<open>app/services/authentication.py\<close>, \<open>provisioning.py\<close> and
    \<open>abuse_flow.py\<close>; an operation is a sequence of transactions and calls of Redis, and other
    requests may change the database between two of them.
  \<^item> \<open>Account_Laws\<close>: the lemmas for the parts of an operation. \<open>Account_Operations\<close>: the locale
    \<open>account_transaction\<close>, what one transaction promises, with an interpretation for every
    transaction of the service. \<open>Account_Interleaving\<close>: what other requests may do in
    between, and that whole operations keep the installation. \<open>Account_Logins\<close>: logins.
    \<open>Sample_Accounts\<close>: the accounts of the witnesses. \<open>Account_Properties\<close>: C25 to C32. Of Argon2
    they assume (\<open>argon2_ok\<close>) that a hash has the documented PHC form and the parameters it was
    made with, and that it verifies exactly the password it was made from.

  \<^item> \<open>Captcha\<close>: \<open>app/core/security/captcha.py\<close>, its two Lua scripts and the service.
    \<open>Captcha_Laws\<close>: keys, records and digests. \<open>Captcha_Runs\<close>: histories of the challenge store
    and their invariant. \<open>Captcha_Calls\<close>: the service calls as steps of a history.
    \<open>Captcha_Properties\<close>: C33 to C36. They assume that cjson reads the flat records the service
    writes (\<open>cjson_flat\<close>) and that an HMAC prints as 64 hexadecimal digits (\<open>hex_digests\<close>).
  \<^item> \<open>Requests\<close>: \<open>app/dependencies\<close> and \<open>app/db/errors.py\<close>: from the bearer token to the
    checked permissions. \<open>Access_Api\<close>, \<open>Account_Api\<close>: every route of \<open>app/api/access.py\<close> and
    \<open>app/api/authentication.py\<close>. \<open>Request_Laws\<close>: what the chain guarantees to a handler and what a
    refused request leaves behind. \<open>Sample_Requests\<close>: the request of the witnesses.
    \<open>Api_Properties\<close>: C37 and C38.
  \<^item> \<open>Eviction\<close>: the loop of the \<open>ACTIVATE\<close> script without a bound on its turns, C39.
  \<^item> \<open>Business_Audit\<close>: \<open>app/core/business_audit.py\<close>, \<open>app/models/business_audit.py\<close> and
    \<open>app/services/business_audit.py\<close>; \<open>Business_Properties\<close>: what a built event is, C40. The size
    checks of the table are on the text of a JSONB value (\<open>jsonb_value\<close>), which writes numbers in
    full where Python uses an exponent.
  \<^item> \<open>Localization\<close>: \<open>app/core/i18n.py\<close>: the language of a request is one of the best quality its
    header gives, and a refused one only if all are refused; no translation fails.
  \<^item> \<open>Responses\<close>: the envelopes of \<open>app/core/api_contract.py\<close>, the exception handlers and the health
    routes of \<open>app/main.py\<close>; every error is answered and tells no reason, C20.
  \<^item> \<open>Observation\<close>: the middleware of \<open>app/main.py\<close> at the ASGI boundary; one completion record for
    each request, C21.

  Modelling decisions. Every mutating operation takes the \<open>FOR UPDATE\<close> lock of the single
  \<open>rbac_state\<close> row first, so an operation is a function of the database it finds and
  executions are sequences of calls. Instants are integers, clocks and random identifiers
  are arguments. Python integers are unbounded; PostgreSQL's 64 bit version columns are
  integers too, so an overflow after 2^63 changes is outside the model. The column types of texts
  and JSONB values are part of the model: a request can fill them with a name, a key, a
  description or an audit payload, and PostgreSQL refuses U+0000, a surrogate and a text that is
  too long. The length of the column of a password hash is left out, as is what Argon2 could
  return that is longer. Soft-deleted rows stay in their table. Row identifiers of assignments and events and \<open>created_at\<close> columns are left
  out. The Unicode database (word characters, case folding) is a parameter; \<open>ascii_db\<close>
  instantiates it. Regular expressions are matched by exhaustive search over end positions,
  which terminates on every pattern of the source. Fuel is used in two places. The JSON
  reader recurses at most as often as its text is long, which is enough for every text the
  program writes (\<open>json_loads_encode\<close>). The loop of the \<open>ACTIVATE\<close> script runs with the number of
  members it starts with (\<open>evict\<close>), which C39 proves to be enough.

  Not modelled. How \<open>app/main.py\<close> registers routes and handlers and opens and closes its clients is
  FastAPI's; \<open>app/db\<close> configures SQLAlchemy and redis-py; the parsing of bodies, paths and queries is
  pydantic's. Of \<open>app/core/observability.py\<close> only the context and the level of a request are modelled,
  and the log lines of the other modules are left out. The picture of a captcha, the signature of a
  token and Argon2 are libraries and arguments of the model. The repository's release scripts are
  independent of the program and left out.
\<close>

section \<open>Privileges\<close>

text \<open>
  C1: No call of the role and user administration API escalates privileges. Whatever
  permission a user effectively has after a call was already there, or it is one the acting
  user has, and the acting user is somebody else.
\<close>

theorem no_privilege_escalation:
  assumes "wf db" "fresh_id c db" "run_call uc ctx c db = (res, db')" "u_id u' = u_id u"
  shows "a_permissions (authority_spec db' False u') \<subseteq> a_permissions (authority_spec db False u) \<union>
    {k. \<exists>au. current_actor db ctx au \<and> u_id au \<noteq> u_id u \<and> k \<in> a_permissions (authority_spec db False au)}"
  using run_call_contained [OF assms(1-3)]
proof (elim disjE exE conjE)
  assume "same_access db db'"
  then show ?thesis
    using assms(4) by (auto simp: authority_spec_active same_access_frame)
next
  fix au assume au: "current_actor db ctx au" "contained (authority_spec db False au) db db'"
  then show ?thesis
    using contained_authority(1) [OF au(2) assms(4)] by (auto split: if_splits)
qed

theorem no_privilege_escalation_witness:
  "a_permissions (authority_spec (snd (run_call ascii_db (sample_context ALICE)
        (Change_user_roles 5 BOB [R_EDITOR] ''bind'') sample_db)) False (sample_user BOB ''bob'' False))
    \<subseteq> a_permissions (authority_spec sample_db False (sample_user BOB ''bob'' False)) \<union>
    {k. \<exists>au. current_actor sample_db (sample_context ALICE) au \<and> u_id au \<noteq> BOB \<and>
        k \<in> a_permissions (authority_spec sample_db False au)}"
  using no_privilege_escalation [OF sample_wf _ surjective_pairing refl,
      of "Change_user_roles 5 BOB [R_EDITOR] ''bind''" ascii_db "sample_context ALICE" "sample_user BOB ''bob'' False"]
  by (simp add: sample_user_def)

text \<open>
  C2: Nor does a call lift anybody to the tier of the acting user: a tier that rose is
  strictly below the tier of an acting user who is somebody else.
\<close>

theorem no_tier_escalation:
  assumes "wf db" "fresh_id c db" "run_call uc ctx c db = (res, db')" "u_id u' = u_id u"
  shows "a_management_tier (authority_spec db' False u') \<le> max 0 (a_management_tier (authority_spec db False u)) \<or>
    (\<exists>au. current_actor db ctx au \<and> u_id au \<noteq> u_id u \<and>
       a_management_tier (authority_spec db' False u') < a_management_tier (authority_spec db False au))"
  using run_call_contained [OF assms(1-3)]
proof (elim disjE exE conjE)
  assume "same_access db db'"
  then show ?thesis
    using assms(4) by (simp add: authority_spec_active authority_with_tier same_access_frame)
next
  fix au assume au: "current_actor db ctx au" "contained (authority_spec db False au) db db'"
  let ?t = "a_management_tier (authority_spec db' False u') - 1"
  show ?thesis
    using contained_authority(2) [OF au(2) assms(4), of ?t] au(1)
    by (cases "0 \<le> ?t") (auto intro: exI [of _ au])
qed

theorem no_tier_escalation_witness:
  "a_management_tier (authority_spec (snd (run_call ascii_db (sample_context ALICE)
        (Change_user_roles 5 BOB [R_EDITOR] ''bind'') sample_db)) False (sample_user BOB ''bob'' False))
    \<le> max 0 (a_management_tier (authority_spec sample_db False (sample_user BOB ''bob'' False))) \<or>
    (\<exists>au. current_actor sample_db (sample_context ALICE) au \<and> u_id au \<noteq> BOB \<and>
       a_management_tier (authority_spec (snd (run_call ascii_db (sample_context ALICE)
        (Change_user_roles 5 BOB [R_EDITOR] ''bind'') sample_db)) False (sample_user BOB ''bob'' False))
       < a_management_tier (authority_spec sample_db False au))"
  using no_tier_escalation [OF sample_wf _ surjective_pairing refl,
      of "Change_user_roles 5 BOB [R_EDITOR] ''bind''" ascii_db "sample_context ALICE" "sample_user BOB ''bob'' False"]
  by (simp add: sample_user_def)

section \<open>Calls and the database\<close>

text \<open>
  C3: On a well-formed installation every call ends in success, in a business error, in a
  refused audit payload, or in a text the database cannot store; the last only when the key,
  name or description of the request does not fit its column, and no other constraint, column
  type or trigger of the schema ever stops a call. A success has stored fitting texts and adds
  exactly one \<open>allowed\<close> event of the acting user; an error leaves at most a \<open>denied\<close> event
  with its reason.
\<close>

theorem every_call_is_accounted_for:
  assumes "wf db" "fresh_id c db" "run_call uc ctx c db = (res, db')"
  shows "call_outcome ctx db res db' \<and>
    (storable_call c \<longrightarrow> (\<forall>n. res \<noteq> Some (Integrity_error n))) \<and> (res = None \<longrightarrow> storable_call c)"
  using run_call_contract [OF assms] success_fits [OF assms(1,2)] assms(3) by blast

theorem every_call_is_accounted_for_witness:
  "call_outcome (sample_context ALICE) sample_db
     (fst (run_call ascii_db (sample_context ALICE) (Soft_delete_role 5 R_EDITOR 0) sample_db))
     (snd (run_call ascii_db (sample_context ALICE) (Soft_delete_role 5 R_EDITOR 0) sample_db)) \<and>
   fst (run_call ascii_db (sample_context ALICE) (Soft_delete_role 5 R_EDITOR 0) sample_db)
     \<noteq> Some (Integrity_error ''ck_roles'') \<and>
   fst (run_call ascii_db (sample_context ALICE) (Update_role R_EDITOR
     \<lparr>ru_name = Some [65, 0], ru_description = None\<rparr> 0) sample_db) \<noteq> None"
proof -
  have bad: "\<not> storable_call (Update_role R_EDITOR \<lparr>ru_name = Some [65, 0], ru_description = None\<rparr> 0)"
    by (simp add: update_storable_def column_text_def storable_def)
  have "fst (run_call ascii_db (sample_context ALICE) (Update_role R_EDITOR
     \<lparr>ru_name = Some [65, 0], ru_description = None\<rparr> 0) sample_db) = None \<longrightarrow>
    storable_call (Update_role R_EDITOR \<lparr>ru_name = Some [65, 0], ru_description = None\<rparr> 0)"
    using every_call_is_accounted_for [OF sample_wf _ surjective_pairing] fresh_id.simps(5) by blast
  moreover have "storable_call (Soft_delete_role 5 R_EDITOR 0)"
    by simp
  ultimately show ?thesis
    using bad every_call_is_accounted_for [OF sample_wf _ surjective_pairing,
        where c = "Soft_delete_role 5 R_EDITOR 0" and uc = ascii_db and ctx = "sample_context ALICE"] by simp
qed

text \<open>
  C4: A call that fails changes nothing in the installation but the audit log, to which it
  only adds.
\<close>

theorem failed_call_changes_nothing:
  assumes "wf db" "fresh_id c db" "run_call uc ctx c db = (Some e, db')"
  shows "db'\<lparr>db_rbac_audit := db_rbac_audit db\<rparr> = db \<and>
    (\<exists>events. db_rbac_audit db' = db_rbac_audit db @ events \<and> length events \<le> 1)"
proof -
  have "db' = db \<or> (\<exists>ev. db' = add_rbac_event ev db)"
    using run_call_outcome [OF assms] unfolding call_outcome_def
    by (cases e) auto
  then show ?thesis
    by (auto simp: add_rbac_event_def)
qed

theorem failed_call_changes_nothing_witness:
  "run_call ascii_db (sample_context BOB) (Change_user_roles 5 ALICE [] ''bind'') sample_db
     = (Some (Rbac (invalid_request ''role_ids_required'')), sample_db) \<and>
   sample_db\<lparr>db_rbac_audit := db_rbac_audit sample_db\<rparr> = sample_db"
proof -
  have "run_call ascii_db (sample_context BOB) (Change_user_roles 5 ALICE [] ''bind'') sample_db
     = (Some (Rbac (invalid_request ''role_ids_required'')), sample_db)"
    by (simp add: change_user_roles_def require_role_operation_def drop_value_def)
  with failed_call_changes_nothing [OF sample_wf _ this] show ?thesis by simp
qed

text \<open>
  C5: Whatever sequence of calls is made, by whomever: the installation stays well-formed,
  the super administrator stays who it was, the system roles and their grants stay as they
  were installed.
\<close>

theorem reachable_installations:
  assumes "reachable uc db0 db" "wf db0"
  shows "wf db \<and> super_admin_holders db = super_admin_holders db0 \<and>
    system_grants db = system_grants db0 \<and> system_roles_kept db0 db"
  using reachable_sound [OF assms] evolves_system_roles by (auto simp: sound_step_def)

theorem reachable_installations_witness:
  "super_admin_holders (snd (run_call ascii_db (sample_context ALICE)
     (Change_user_roles 5 BOB [R_SUPER] ''bind'') sample_db)) = super_admin_holders sample_db"
proof -
  have "reachable ascii_db sample_db (snd (run_call ascii_db (sample_context ALICE)
     (Change_user_roles 5 BOB [R_SUPER] ''bind'') sample_db))"
    by (rule reachable.call [OF reachable.start]) simp
  from reachable_installations [OF this sample_wf] show ?thesis by blast
qed

text \<open>
  C6: History is kept: rows are never removed, their identity never changes, a soft deletion
  is final, versions and the epoch only grow, and the audit tables are append-only.
\<close>

theorem history_is_kept:
  "reachable uc db0 db \<Longrightarrow> wf db0 \<Longrightarrow> evolves db0 db"
  using reachable_sound by (auto simp: sound_step_def)

theorem history_is_kept_witness:
  "evolves sample_db (snd (run_call ascii_db (sample_context ALICE) (Soft_delete_role 5 R_EDITOR 0) sample_db))"
  by (rule history_is_kept [OF reachable.call [OF reachable.start] sample_wf]) simp

text \<open>
  C7: The role operations keep the limits themselves, before any trigger of the schema looks:
  when binding or unbinding roles succeeds, every user has at most ten live assignments and
  every live user holds the default role \<open>user\<close>; a binding that would go beyond ten is refused
  with an \<open>RbacError\<close>.
\<close>

theorem role_limits:
  assumes "wf db"
  shows "(\<forall>out db'. change_user_roles_operation now ctx t (set ids) oper db = Inr (out, db') \<longrightarrow>
      (\<forall>uid. count_live_user_roles db' uid \<le> MAX_ROLES_PER_USER) \<and>
      (\<forall>u. u \<in> set (db_users db') \<and> live_user u \<longrightarrow>
         (\<exists>r. r \<in> set (roles_of db' (\<lambda>_. True) (u_id u)) \<and> r_key r = ''user''))) \<and>
    (oper = BIND \<and> set ids - existing_role_ids db t (set ids) \<noteq> {} \<and>
       count_live_user_roles db t + card (set ids - existing_role_ids db t (set ids)) > MAX_ROLES_PER_USER \<longrightarrow>
     (\<exists>r. change_user_roles_operation now ctx t (set ids) oper db = Inl (Rbac r)))"
proof (intro conjI allI impI)
  fix out db' uid
  assume op: "change_user_roles_operation now ctx t (set ids) oper db = Inr (out, db')"
  have "wf db'"
    by (rule sound_step_wf [OF change_user_roles_sound [OF assms finite_set op]])
  then show "count_live_user_roles db' uid \<le> MAX_ROLES_PER_USER"
    by (rule wf_role_limit)
next
  fix out db' u
  assume op: "change_user_roles_operation now ctx t (set ids) oper db = Inr (out, db')"
    and u: "u \<in> set (db_users db') \<and> live_user u"
  have "wf db'"
    by (rule sound_step_wf [OF change_user_roles_sound [OF assms finite_set op]])
  with u show "\<exists>r. r \<in> set (roles_of db' (\<lambda>_. True) (u_id u)) \<and> r_key r = ''user''"
    by (intro wf_base_role) simp_all
next
  assume full: "oper = BIND \<and> set ids - existing_role_ids db t (set ids) \<noteq> {} \<and>
    count_live_user_roles db t + card (set ids - existing_role_ids db t (set ids)) > MAX_ROLES_PER_USER"
  then show "\<exists>r. change_user_roles_operation now ctx t (set ids) oper db = Inl (Rbac r)"
    using change_user_roles_full [OF assms] by blast
qed

theorem role_limits_witness:
  "\<exists>out db'. change_user_roles_operation 5 (sample_context ALICE) BOB (set [R_EDITOR]) BIND sample_db
     = Inr (out, db') \<and> count_live_user_roles db' BOB = 2 \<and>
   (\<forall>uid. count_live_user_roles db' uid \<le> MAX_ROLES_PER_USER)"
proof -
  obtain out db' where op: "change_user_roles_operation 5 (sample_context ALICE) BOB (set [R_EDITOR]) BIND sample_db
      = Inr (out, db')" and two: "count_live_user_roles db' BOB = 2"
    using sample_binding by auto
  have "\<forall>uid. count_live_user_roles db' uid \<le> MAX_ROLES_PER_USER"
    using role_limits [OF sample_wf, of 5 "sample_context ALICE" BOB "[R_EDITOR]" BIND] op by blast
  with op two show ?thesis by blast
qed

text \<open>
  C8: Optimistic concurrency: a call on a role that carries a version the role does not have
  never succeeds.
\<close>

theorem stale_version_never_succeeds:
  assumes "wf db" "expected_version c = Some (i, v)" "r \<in> set (db_roles db)" "r_id r = i" "r_version r \<noteq> v"
  shows "fst (run_call uc ctx c db) \<noteq> None"
proof
  assume "fst (run_call uc ctx c db) = None"
  then have "run_call uc ctx c db = (None, snd (run_call uc ctx c db))"
    by (metis surjective_pairing)
  from version_checked [OF assms(1) this assms(2)]
  obtain q where q: "q \<in> set (db_roles db)" "r_id q = i" "r_version q = v" by blast
  have "q = r"
    using q(2) assms(4) by (intro wf_same_role [OF assms(1) q(1) assms(3)]) simp
  then show False
    using q(3) assms(5) by simp
qed

theorem stale_version_never_succeeds_witness:
  "fst (run_call ascii_db (sample_context ALICE) (Soft_delete_role 5 R_EDITOR 3) sample_db) \<noteq> None"
  by (rule stale_version_never_succeeds [OF sample_wf, of _ R_EDITOR 3 "sample_role R_EDITOR ''editor'' 100 False False"])
     (simp_all add: sample_db_def sample_role_def)

text \<open>
  C9: Ended sessions stay ended: after a successful revocation of a user's sessions no
  authorization context issued before is accepted again, whatever happens afterwards.
\<close>

theorem revoked_sessions_stay_revoked:
  assumes "wf db" "run_call uc ctx (Revoke_user_sessions t) db = (None, db')"
    and "current_actor db old u" "u_id u = t" "reachable uc db' later"
  shows "\<not> current_actor later old v"
proof -
  have sound: "sound_step db db'"
    by (rule run_call_sound [OF assms(1) _ assms(2)]) simp
  have u: "u \<in> set (db_users db)" "pr_user_id (c_principal old) = t" "pr_token_version (c_principal old) = u_token_version u"
    using assms(3,4) by (simp_all add: current_actor_def)
  obtain u' where "u' \<in> set (db_users db')" "u_id u' = t" "u_token_version u' = u_token_version u + 1"
    using revoked_row [OF assms(1,2) u(1) assms(4)] by blast
  then show ?thesis
    using outdated_context [OF reachable_sound [OF assms(5) sound_step_wf [OF sound]], of u' old v] u by simp
qed

theorem revoked_sessions_stay_revoked_witness:
  "fst (run_call ascii_db (sample_context ALICE) (Revoke_user_sessions BOB) sample_db) = None \<and>
   (\<forall>v. \<not> current_actor (snd (run_call ascii_db (sample_context ALICE) (Revoke_user_sessions BOB) sample_db))
      (sample_context BOB) v)"
proof -
  let ?run = "run_call ascii_db (sample_context ALICE) (Revoke_user_sessions BOB) sample_db"
  have ok: "?run = (None, snd ?run)"
    using sample_revocation by (metis surjective_pairing)
  have "current_actor sample_db (sample_context BOB) (sample_user BOB ''bob'' False)"
    by (simp add: current_actor_def sample_context_def sample_db_def sample_user_def)
  from revoked_sessions_stay_revoked [OF sample_wf ok this _ reachable.start]
  show ?thesis
    using sample_revocation by (simp add: sample_user_def)
qed

section \<open>Queries\<close>

text \<open>
  C10: The authority the service accumulates from the rows of its joined query is, for every
  requested user, the authority the tables define.
\<close>

theorem loaded_authority_is_the_authority_of_the_tables:
  "wf db \<Longrightarrow> load_authority_snapshots_for_users db users include_disabled =
     map (\<lambda>u. (u_id u, authority_spec db include_disabled u)) users"
  by (intro load_authority_snapshots_for_users_spec wf_keys_ok)

theorem loaded_authority_witness:
  "load_authority_snapshots_for_users sample_db (db_users sample_db) True =
     map (\<lambda>u. (u_id u, authority_spec sample_db True u)) (db_users sample_db)"
  by (rule loaded_authority_is_the_authority_of_the_tables [OF sample_wf])

text \<open>
  C11: The SQL filters of the user and role listings select exactly what the policy
  predicates let the actor see.
\<close>

theorem listings_follow_the_policy:
  assumes "wf db" "au \<in> set (db_users db)"
  shows "select_visible_users db (authority_spec db False au) =
      filter (\<lambda>u. live_user u \<and>
        is_administrative_user_visible (authority_spec db False au) (authority_spec db False u)) (db_users db) \<and>
    select_visible_roles db (authority_spec db False au) =
      filter (\<lambda>r. live_role r \<and>
        is_administrative_role_visible (authority_spec db False au) (role_grant_of db r)) (db_roles db)"
proof -
  have "actor_is_super_admin (authority_spec db False au) = a_is_super_admin (authority_spec db False au)"
    using assms(1) authority_roles_subset [of db False au]
    by (intro actor_is_super_admin_iff [of db])
       (auto simp: wf_def rows_ok_def keys_ok_def authority_spec_def intro: authority_with_ok)
  then show ?thesis
    by (intro conjI select_visible_users_policy select_visible_roles_policy)
qed

theorem listings_follow_the_policy_witness:
  "select_visible_roles sample_db (authority_spec sample_db False (sample_user ALICE ''alice'' False)) =
      filter (\<lambda>r. live_role r \<and> is_administrative_role_visible
        (authority_spec sample_db False (sample_user ALICE ''alice'' False)) (role_grant_of sample_db r)) (db_roles sample_db)"
  by (rule listings_follow_the_policy [OF sample_wf, THEN conjunct2]) (simp add: sample_db_def)

text \<open>
  C12: The pages of a listing follow one another: the first \<open>n\<close> pages together are the
  first rows of the sorted listing, none skipped and none repeated.
\<close>

theorem pages_partition_the_listing:
  assumes "0 \<le> page_size"
  shows "concat (map (\<lambda>i. fst (list_visible_users_page db actor (int i) page_size None)) [1..<n + 1])
    = take (n * nat page_size) (sort_key u_id (select_visible_users db actor))"
proof -
  have "fst (list_visible_users_page db actor page page_size None)
      = page_of page page_size (sort_key u_id (select_visible_users db actor))" for page
    by (simp add: list_visible_users_page_def Let_def)
  then show ?thesis
    using pages_concat [OF assms, of "sort_key u_id (select_visible_users db actor)" n] by presburger
qed

theorem pages_partition_the_listing_witness:
  "concat (map (\<lambda>i. fst (list_visible_users_page sample_db (authority_spec sample_db False (sample_user ROOT ''root'' True))
      (int i) 2 None)) [1..<3 + 1])
    = take (3 * nat 2) (sort_key u_id (select_visible_users sample_db (authority_spec sample_db False (sample_user ROOT ''root'' True))))"
  by (rule pages_partition_the_listing) simp

end
